(* ===== verification/Prelude.thy ===== *)
theory Prelude
  imports Main "HOL-Library.Word" "HOL-Library.Monad_Syntax"
begin

text \<open>
  Shared vocabulary of the development: the C integer types of \<^verbatim>\<open>defines.h\<close> as words, memory
  accesses that fail outside the object they address, blocking assertions, and the generic lemmas
  on lists and words that the component theories use.

  Conventions. A C array is the list of its elements. A read or write outside an array, and a
  \<^verbatim>\<open>DBG_ASSERT\<close> that blocks, make the enclosing operation \<^term>\<open>None\<close>, so a lemma that an operation
  returns \<^term>\<open>Some r\<close> also says that the operation stays inside its arrays and is not blocked.
\<close>

unbundle bit_operations_syntax

type_synonym u8 = "8 word"
type_synonym u16 = "16 word"
type_synonym u32 = "32 word"

text \<open>A C string: its bytes, without the terminating zero.\<close>

type_synonym ctext = "u8 list"

definition ascii :: "string \<Rightarrow> ctext" where
  "ascii s = map of_char s"

named_theorems mem_simps \<open>rewrite rules for the memory primitives\<close>
named_theorems word_nat \<open>translation of unsigned word comparisons and arithmetic to nat\<close>

section \<open>Memory primitives\<close>

text \<open>\<^verbatim>\<open>a[i]\<close>, \<^verbatim>\<open>a[i] = v\<close> and \<^verbatim>\<open>memcpy(&dst[d], &src[s], n)\<close>.\<close>

definition c_nth :: "'a list \<Rightarrow> nat \<Rightarrow> 'a option" where
  "c_nth xs i = (if i < length xs then Some (xs ! i) else None)"

definition c_upd :: "'a list \<Rightarrow> nat \<Rightarrow> 'a \<Rightarrow> 'a list option" where
  "c_upd xs i v = (if i < length xs then Some (xs[i := v]) else None)"

definition c_memcpy :: "'a list \<Rightarrow> nat \<Rightarrow> 'a list \<Rightarrow> nat \<Rightarrow> nat \<Rightarrow> 'a list option" where
  "c_memcpy dst d src s n =
     (if d + n \<le> length dst \<and> s + n \<le> length src
      then Some (take d dst @ take n (drop s src) @ drop (d + n) dst) else None)"

text \<open>\<^verbatim>\<open>DBG_ASSERT(P)\<close>: blocks for ever when \<open>P\<close> is false.\<close>

definition c_assert :: "bool \<Rightarrow> unit option" where
  "c_assert P = (if P then Some () else None)"

lemma c_assert_True [simp]: "P \<Longrightarrow> c_assert P = Some ()"
  by (simp add: c_assert_def)

lemma c_assert_Some_iff: "c_assert P = Some u \<longleftrightarrow> P"
  by (simp add: c_assert_def)

lemma c_nth_in [mem_simps]: "i < length xs \<Longrightarrow> c_nth xs i = Some (xs ! i)"
  by (simp add: c_nth_def)

lemma c_upd_in [mem_simps]: "i < length xs \<Longrightarrow> c_upd xs i v = Some (xs[i := v])"
  by (simp add: c_upd_def)

lemma c_memcpy_in [mem_simps]:
  "d + n \<le> length dst \<Longrightarrow> s + n \<le> length src \<Longrightarrow>
   c_memcpy dst d src s n = Some (take d dst @ take n (drop s src) @ drop (d + n) dst)"
  by (simp add: c_memcpy_def)

lemma c_memcpy_length: "c_memcpy dst d src s n = Some r \<Longrightarrow> length r = length dst"
  by (auto simp: c_memcpy_def split: if_splits)

section \<open>Words as naturals\<close>

lemmas word_le_nat [word_nat] = word_le_nat_alt word_less_nat_alt

lemma unat_sub_ge [word_nat]: "(b :: 'a::len word) \<le> a \<Longrightarrow> unat (a - b) = unat a - unat b"
  by (simp add: unat_sub)

lemma unat_plus_small [word_nat]:
  "unat a + unat b < 2 ^ LENGTH('a) \<Longrightarrow> unat (a + b :: 'a::len word) = unat a + unat b"
  by (simp add: unat_word_ariths)

lemma unat_Suc_small: "unat a + 1 < 2 ^ LENGTH('a) \<Longrightarrow> unat (a + 1 :: 'a::len word) = Suc (unat a)"
  by (simp add: unat_word_ariths)

lemma unat_lt_pow [simp]: "unat (a :: 'a::len word) < 2 ^ LENGTH('a)"
  by (rule unsigned_less)

lemma unat_u32_lt: "unat (a :: u32) < 4294967296"
  using unsigned_less [of a] by simp

lemma unat_u16_lt: "unat (a :: u16) < 65536"
  using unsigned_less [of a] by simp

lemma unat_u8_lt: "unat (a :: u8) < 256"
  using unsigned_less [of a] by simp

lemma unat_of_nat_u32: "n \<le> 4294967295 \<Longrightarrow> unat (of_nat n :: u32) = n"
  by (simp add: unat_of_nat)

section \<open>Lists\<close>

lemma length_takeWhile_lt: "x \<in> set xs \<Longrightarrow> \<not> P x \<Longrightarrow> length (takeWhile P xs) < length xs"
  by (induction xs) auto

lemma in_set_tlD: "x \<in> set (tl xs) \<Longrightarrow> x \<in> set xs"
  by (cases xs) auto

lemma drop_overwrite: "length ys \<le> n \<Longrightarrow> drop n (ys @ drop (length ys) xs) = drop n xs"
  by simp

lemma overwrite_step:
  "i < length xs \<Longrightarrow>
   take (Suc i) (xs[i := v]) @ ys @ drop (Suc i + length ys) (xs[i := v]) = take i xs @ (v # ys) @ drop (i + length (v # ys)) xs"
  by (simp add: take_Suc_conv_app_nth)

end
