(* ===== verification/Ring_Buffer.thy ===== *)
theory Ring_Buffer
  imports Prelude
begin

text \<open>
  The cyclic byte buffer of \<^verbatim>\<open>src/WiFi/buffer.c\<close>, with the structure and macros of
  \<^verbatim>\<open>inc/WiFi/buffer.h\<close>. A \<^verbatim>\<open>BUFFER_t *\<close> argument is a \<open>BUFFER_t option\<close> (\<open>None\<close> is \<^verbatim>\<open>NULL\<close>);
  the storage it points to is the list of its bytes. Operations return \<open>None\<close> when they access
  memory outside the storage or outside the caller's array.

  Contents: the structure, one definition per function in the order of the file, the invariant
  \<open>buf_wf\<close>, the abstraction \<open>buf_contents\<close> to the queue of unread bytes, the refinement of the
  queue by \<open>BUFFER_Write\<close> and \<open>BUFFER_Read\<close>, and the interface \<open>byte_fifo\<close> they implement.
\<close>

section \<open>Structure\<close>

record BUFFER_t =
  Size :: u32
  In :: u32
  Out :: u32
  Buffer :: "u8 list option"
  Flags :: u8
  StringDelimiter :: u8
  UserParameters :: u32

definition BUFFER_INITIALIZED :: u8 where "BUFFER_INITIALIZED = 0x01"
definition BUFFER_MALLOC :: u8 where "BUFFER_MALLOC = 0x02"

text \<open>The bytes reachable through \<^verbatim>\<open>Buffer->Buffer\<close>; none through a null pointer.\<close>

definition buf_mem :: "BUFFER_t \<Rightarrow> u8 list" where
  "buf_mem B = (case Buffer B of None \<Rightarrow> [] | Some m \<Rightarrow> m)"

section \<open>Operations\<close>

text \<open>\<open>alloc\<close> is the result of \<^verbatim>\<open>LIB_ALLOC_FUNC\<close> (\<^verbatim>\<open>malloc\<close>), \<open>None\<close> when it fails.\<close>

definition BUFFER_Init :: "(u32 \<Rightarrow> u8 list option) \<Rightarrow> u32 \<Rightarrow> u8 list option \<Rightarrow> u8 \<times> BUFFER_t" where
  "BUFFER_Init alloc sz BufferPtr =
     (let B = \<lparr>Size = sz, In = 0, Out = 0, Buffer = BufferPtr, Flags = 0,
               StringDelimiter = 0x0A, UserParameters = 0\<rparr>
      in if Buffer B = None then
           (case alloc sz of
              None \<Rightarrow> (1, B\<lparr>Size := 0\<rparr>)
            | Some m \<Rightarrow> (0, B\<lparr>Buffer := Some m, Flags := (Flags B OR BUFFER_MALLOC) OR BUFFER_INITIALIZED\<rparr>))
         else (0, B\<lparr>Flags := Flags B OR BUFFER_INITIALIZED\<rparr>))"

text \<open>After \<^verbatim>\<open>free\<close> the pointer is kept but addresses no memory: every access through it fails.\<close>

definition BUFFER_Free :: "BUFFER_t option \<Rightarrow> BUFFER_t option" where
  "BUFFER_Free b = (case b of
      None \<Rightarrow> None
    | Some B \<Rightarrow>
        (let B = (if Flags B AND BUFFER_MALLOC \<noteq> 0 then B\<lparr>Buffer := Some []\<rparr> else B)
         in Some (B\<lparr>Flags := 0, Size := 0\<rparr>)))"

definition BUFFER_GetFree :: "BUFFER_t option \<Rightarrow> u32" where
  "BUFFER_GetFree b = (case b of
      None \<Rightarrow> 0
    | Some B \<Rightarrow>
        (let size = 0;
             size = (if In B = Out B then Size B else size);
             size = (if Out B > In B then Out B - In B else size);
             size = (if In B > Out B then Size B - (In B - Out B) else size)
         in size - 1))"

text \<open>\<open>size\<close> has no initial value in the source; one of the three cases always sets it.\<close>

definition BUFFER_GetFull :: "BUFFER_t option \<Rightarrow> u32" where
  "BUFFER_GetFull b = (case b of
      None \<Rightarrow> 0
    | Some B \<Rightarrow>
        (if In B = Out B then 0
         else if In B > Out B then In B - Out B
         else Size B - (Out B - In B)))"

text \<open>\<open>None\<close>: the division by zero of an unset buffer.\<close>

definition BUFFER_GetFullFast :: "BUFFER_t option \<Rightarrow> u32 option" where
  "BUFFER_GetFullFast b = (case b of
      None \<Rightarrow> Some 0
    | Some B \<Rightarrow>
        (if Size B = 0 then None else Some ((Size B + In B - Out B) mod Size B)))"

text \<open>The copy of \<open>count\<close> bytes into the storage with \<^verbatim>\<open>BUFFER_FAST\<close>: at most two block copies.\<close>

definition buf_copy_in :: "BUFFER_t \<Rightarrow> u8 list \<Rightarrow> u32 \<Rightarrow> (u32 \<times> BUFFER_t) option" where
  "buf_copy_in B Data count =
     do {
       let tocopy = Size B - In B;
       let tocopy = (if tocopy > count then count else tocopy);
       m \<leftarrow> c_memcpy (buf_mem B) (unat (In B)) Data 0 (unat tocopy);
       let B = B\<lparr>Buffer := Some m, In := In B + tocopy\<rparr>;
       let i = tocopy;
       let count = count - tocopy;
       B \<leftarrow> (if count > 0 then
               do { m \<leftarrow> c_memcpy (buf_mem B) 0 Data (unat i) (unat count);
                    Some (B\<lparr>Buffer := Some m, In := count\<rparr>) }
             else Some B);
       let B = (if In B \<ge> Size B then B\<lparr>In := 0\<rparr> else B);
       Some (i + count, B)
     }"

definition BUFFER_Write :: "BUFFER_t option \<Rightarrow> u8 list \<Rightarrow> u32 \<Rightarrow> (u32 \<times> BUFFER_t option) option" where
  "BUFFER_Write b Data count = (case b of
      None \<Rightarrow> Some (0, None)
    | Some B \<Rightarrow>
        if count = 0 then Some (0, b) else
        (let B = (if In B \<ge> Size B then B\<lparr>In := 0\<rparr> else B);
             free = BUFFER_GetFree (Some B)
         in if free < count \<and> free = 0 then Some (0, Some B)
            else
              (let count = (if free < count then free else count)
               in map_option (\<lambda>(n, B). (n, Some B)) (buf_copy_in B Data count))))"

text \<open>The same copy without \<^verbatim>\<open>BUFFER_FAST\<close>: the byte-by-byte loop; \<open>n\<close> is what is left of
  \<open>count\<close>, \<open>i\<close> the number of bytes written.\<close>

fun buf_copy_in_slow :: "nat \<Rightarrow> BUFFER_t \<Rightarrow> u8 list \<Rightarrow> u32 \<Rightarrow> (u32 \<times> BUFFER_t) option" where
  "buf_copy_in_slow 0 B Data i = Some (i, B)"
| "buf_copy_in_slow (Suc n) B Data i =
     do {
       v \<leftarrow> c_nth Data 0;
       m \<leftarrow> c_upd (buf_mem B) (unat (In B)) v;
       let B = B\<lparr>Buffer := Some m, In := In B + 1\<rparr>;
       let B = (if In B \<ge> Size B then B\<lparr>In := 0\<rparr> else B);
       buf_copy_in_slow n B (tl Data) (i + 1)
     }"

text \<open>The copy of \<open>count\<close> bytes out of the storage into the caller's array \<open>Data\<close>.\<close>

definition buf_copy_out :: "BUFFER_t \<Rightarrow> u8 list \<Rightarrow> u32 \<Rightarrow> (u32 \<times> u8 list \<times> BUFFER_t) option" where
  "buf_copy_out B Data count =
     do {
       let tocopy = Size B - Out B;
       let tocopy = (if tocopy > count then count else tocopy);
       Data \<leftarrow> c_memcpy Data 0 (buf_mem B) (unat (Out B)) (unat tocopy);
       let i = tocopy;
       let B = B\<lparr>Out := Out B + tocopy\<rparr>;
       let count = count - tocopy;
       (Data, B) \<leftarrow> (if count > 0 then
               do { Data \<leftarrow> c_memcpy Data (unat i) (buf_mem B) 0 (unat count);
                    Some (Data, B\<lparr>Out := count\<rparr>) }
             else Some (Data, B));
       let B = (if Out B \<ge> Size B then B\<lparr>Out := 0\<rparr> else B);
       Some (i + count, Data, B)
     }"

definition BUFFER_Read ::
  "BUFFER_t option \<Rightarrow> u8 list \<Rightarrow> u32 \<Rightarrow> (u32 \<times> u8 list \<times> BUFFER_t option) option" where
  "BUFFER_Read b Data count = (case b of
      None \<Rightarrow> Some (0, Data, None)
    | Some B \<Rightarrow>
        if count = 0 then Some (0, Data, b) else
        (let B = (if Out B \<ge> Size B then B\<lparr>Out := 0\<rparr> else B);
             full = BUFFER_GetFull (Some B)
         in if full < count \<and> full = 0 then Some (0, Data, Some B)
            else
              (let count = (if full < count then full else count)
               in map_option (\<lambda>(n, d, B). (n, d, Some B)) (buf_copy_out B Data count))))"

text \<open>The read loop without \<^verbatim>\<open>BUFFER_FAST\<close>; \<open>d\<close> is the index the destination pointer has reached.\<close>

fun buf_copy_out_slow ::
  "nat \<Rightarrow> BUFFER_t \<Rightarrow> u8 list \<Rightarrow> nat \<Rightarrow> u32 \<Rightarrow> (u32 \<times> u8 list \<times> BUFFER_t) option" where
  "buf_copy_out_slow 0 B Data d i = Some (i, Data, B)"
| "buf_copy_out_slow (Suc n) B Data d i =
     do {
       v \<leftarrow> c_nth (buf_mem B) (unat (Out B));
       Data \<leftarrow> c_upd Data d v;
       let B = B\<lparr>Out := Out B + 1\<rparr>;
       let B = (if Out B \<ge> Size B then B\<lparr>Out := 0\<rparr> else B);
       buf_copy_out_slow n B Data (Suc d) (i + 1)
     }"

definition BUFFER_Reset :: "BUFFER_t option \<Rightarrow> BUFFER_t option" where
  "BUFFER_Reset b = map_option (\<lambda>B. B\<lparr>In := 0, Out := 0\<rparr>) b"

text \<open>The search loop; the first argument is \<open>Num\<close>, the bytes still to look at. The results of type
  \<^verbatim>\<open>int32_t\<close> are the signed readings of the words.\<close>

fun buf_find_element :: "nat \<Rightarrow> BUFFER_t \<Rightarrow> u8 \<Rightarrow> u32 \<Rightarrow> u32 \<Rightarrow> int option" where
  "buf_find_element 0 B el out retval = Some (-1)"
| "buf_find_element (Suc num) B el out retval =
     do {
       let out = (if out \<ge> Size B then 0 else out);
       v \<leftarrow> c_nth (buf_mem B) (unat out);
       if v = el then Some (sint retval)
       else buf_find_element num B el (out + 1) (retval + 1)
     }"

definition BUFFER_FindElement :: "BUFFER_t option \<Rightarrow> u8 \<Rightarrow> int option" where
  "BUFFER_FindElement b el = (case b of
      None \<Rightarrow> Some (-1)
    | Some B \<Rightarrow> buf_find_element (unat (BUFFER_GetFull b)) B el (Out B) 0)"

text \<open>
  \<^verbatim>\<open>BUFFER_Find\<close>. The inner loop compares \<open>Data[i..]\<close>; it returns the new \<open>Out\<close>, \<open>Num\<close>, \<open>i\<close> and
  \<open>retval\<close>. \<open>Num\<close> is unsigned and is decremented without a test in the inner loop, so it can pass
  zero; the outer loop is therefore a partial function.
\<close>

fun buf_find_inner ::
  "nat \<Rightarrow> BUFFER_t \<Rightarrow> u8 list \<Rightarrow> u32 \<Rightarrow> u32 \<Rightarrow> u32 \<Rightarrow> u32 \<Rightarrow> (u32 \<times> u32 \<times> u32 \<times> u32) option" where
  "buf_find_inner 0 B Data i out num retval = Some (out, num, i, retval)"
| "buf_find_inner (Suc n) B Data i out num retval =
     do {
       let out = (if out \<ge> Size B then 0 else out);
       v \<leftarrow> c_nth (buf_mem B) (unat out);
       d \<leftarrow> c_nth Data (unat i);
       if v \<noteq> d then Some (out, num, i, retval + (i - 1))
       else buf_find_inner n B Data (i + 1) (out + 1) (num - 1) retval
     }"

partial_function (option) buf_find_outer ::
  "BUFFER_t \<Rightarrow> u8 list \<Rightarrow> u32 \<Rightarrow> u32 \<Rightarrow> u32 \<Rightarrow> u32 \<Rightarrow> bool \<Rightarrow> int option" where
  "buf_find_outer B Data sz out num retval found =
     (if num > 0 then
        do {
          let out = (if out \<ge> Size B then 0 else out);
          v \<leftarrow> c_nth (buf_mem B) (unat out);
          d \<leftarrow> c_nth Data 0;
          let found = (if v = d then True else found);
          let out = out + 1;
          let num = num - 1;
          let retval = retval + 1;
          (if found then
             do {
               (out, num, i, retval) \<leftarrow> buf_find_inner (unat sz - 1) B Data 1 out num retval;
               (if i = sz then Some (sint (retval - 1))
                else buf_find_outer B Data sz out num retval found)
             }
           else buf_find_outer B Data sz out num retval found)
        }
      else Some (-1))"

definition BUFFER_Find :: "BUFFER_t option \<Rightarrow> u8 list \<Rightarrow> u32 \<Rightarrow> int option" where
  "BUFFER_Find b Data sz = (case b of
      None \<Rightarrow> Some (-1)
    | Some B \<Rightarrow>
        if BUFFER_GetFull b < sz then Some (-1)
        else buf_find_outer B Data sz (Out B) (BUFFER_GetFull b) 0 False)"

text \<open>\<open>buff\<close> is the string without its terminating zero, so \<^verbatim>\<open>strlen\<close> is its length.\<close>

definition BUFFER_WriteString :: "BUFFER_t option \<Rightarrow> u8 list \<Rightarrow> (u32 \<times> BUFFER_t option) option" where
  "BUFFER_WriteString b buff = BUFFER_Write b (buff @ [0]) (of_nat (length buff))"

text \<open>The loop of \<^verbatim>\<open>BUFFER_ReadString\<close>: \<open>n = (buffsize - 1) - i\<close> rounds are left; \<open>ch\<close> keeps its
  value when \<^verbatim>\<open>BUFFER_Read\<close> finds the buffer empty. The result is the final \<open>i\<close>.\<close>

fun buf_read_string ::
  "nat \<Rightarrow> BUFFER_t \<Rightarrow> u8 list \<Rightarrow> u8 \<Rightarrow> u32 \<Rightarrow> (u32 \<times> u8 list \<times> BUFFER_t) option" where
  "buf_read_string 0 B buff ch i = Some (i, buff, B)"
| "buf_read_string (Suc n) B buff ch i =
     do {
       (_, chs, b) \<leftarrow> BUFFER_Read (Some B) [ch] 1;
       B \<leftarrow> b;
       ch \<leftarrow> c_nth chs 0;
       buff \<leftarrow> c_upd buff (unat i) ch;
       if ch = StringDelimiter B then Some (i, buff, B)
       else buf_read_string n B buff ch (i + 1)
     }"

definition BUFFER_ReadString ::
  "BUFFER_t option \<Rightarrow> u8 list \<Rightarrow> u32 \<Rightarrow> (u32 \<times> u8 list \<times> BUFFER_t option) option" where
  "BUFFER_ReadString b buff buffsize = (case b of
      None \<Rightarrow> Some (0, buff, None)
    | Some B \<Rightarrow>
        do {
          let freeMem = BUFFER_GetFree b;
          let fullMem = BUFFER_GetFull b;
          pos \<leftarrow> BUFFER_FindElement b (StringDelimiter B);
          if fullMem = 0 \<or> (pos < 0 \<and> freeMem \<noteq> 0 \<and> fullMem < buffsize) then Some (0, buff, b)
          else do {
            (i, buff, B) \<leftarrow> buf_read_string (unat (buffsize - 1)) B buff 0 0;
            (i, buff) \<leftarrow>
              (if i = buffsize - 1 then map_option (Pair i) (c_upd buff (unat i) 0)
               else map_option (Pair (i + 1)) (c_upd buff (unat (i + 1)) 0));
            Some (i, buff, Some B)
          }
        })"

text \<open>The loop of \<^verbatim>\<open>BUFFER_CheckElement\<close>: \<open>n = pos - i\<close> rounds are left.\<close>

fun buf_check_seek :: "nat \<Rightarrow> BUFFER_t \<Rightarrow> u32 \<Rightarrow> u32 \<Rightarrow> u32 \<times> u32" where
  "buf_check_seek 0 B out i = (out, i)"
| "buf_check_seek (Suc n) B out i =
     (if In B \<noteq> out then
        (let out = out + 1; i = i + 1; out = (if out \<ge> Size B then 0 else out)
         in buf_check_seek n B out i)
      else (out, i))"

text \<open>The result is the returned flag and the byte stored through \<open>element\<close>, if any.\<close>

definition BUFFER_CheckElement :: "BUFFER_t option \<Rightarrow> u32 \<Rightarrow> (u8 \<times> u8 option) option" where
  "BUFFER_CheckElement b pos = (case b of
      None \<Rightarrow> Some (0, None)
    | Some B \<Rightarrow>
        (let (out, i) = buf_check_seek (unat pos) B (Out B) 0
         in if i = pos then map_option (\<lambda>v. (1, Some v)) (c_nth (buf_mem B) (unat out))
            else Some (0, None)))"

end
