(* ===== verification/Ring_Buffer_Facts.thy ===== *)
theory Ring_Buffer_Facts
  imports Ring_Buffer
begin

text \<open>
  Correctness of the cyclic buffer: the invariant \<open>buf_wf\<close>, the abstraction \<open>buf_contents\<close> to the
  queue of unread bytes, the refinement of the queue operations by \<open>BUFFER_Write\<close> and
  \<open>BUFFER_Read\<close>, the queue interface \<open>byte_fifo\<close> with its stream law, the search and string
  operations, and the inputs on which the code departs from its documentation.
\<close>

section \<open>Cyclic views of a list\<close>

definition ring_view :: "'a list \<Rightarrow> nat \<Rightarrow> nat \<Rightarrow> 'a list" where
  "ring_view m i out = (if out \<le> i then take (i - out) (drop out m) else drop out m @ take i m)"

lemma ring_put_nowrap:
  assumes "i < length m" "out < length m" "i + length d \<le> length m"
    and room: "length (ring_view m i out) + length d < length m"
  shows "ring_view (take i m @ d @ drop (i + length d) m)
       (if i + length d = length m then 0 else i + length d) out = ring_view m i out @ d"
proof (cases "out \<le> i")
  case True
  have d: "drop out (take i m @ d @ drop (i + length d) m) = drop out (take i m) @ d @ drop (i + length d) m"
    using True assms by simp
  show ?thesis
  proof (cases "i + length d = length m")
    case True
    with assms \<open>out \<le> i\<close> have "0 < out"
      by (cases out) (auto simp: ring_view_def)
    then show ?thesis using True \<open>out \<le> i\<close> d by (simp add: ring_view_def drop_take)
  next
    case False
    have "take (i + length d - out) ((drop out (take i m) @ d) @ drop (i + length d) m) = drop out (take i m) @ d"
      using \<open>out \<le> i\<close> assms by simp
    then show ?thesis
      using False \<open>out \<le> i\<close> d by (simp add: ring_view_def drop_take)
  qed
next
  case False
  then have lt: "i + length d < out" "i + length d \<noteq> length m"
    using assms by (auto simp: ring_view_def)
  then show ?thesis
    using False assms by (simp add: ring_view_def)
qed

lemma ring_put_wrap:
  assumes "i < length m" "out < length m" "length m = i + length d1" "0 < length d2"
    and room: "length (ring_view m i out) + length d1 + length d2 < length m"
  shows "ring_view (d2 @ drop (length d2) (take i m @ d1)) (length d2) out = ring_view m i out @ d1 @ d2"
    and "length d2 < length m"
proof -
  have le: "out \<le> i" using assms by (auto simp: ring_view_def split: if_splits)
  have lt: "length d2 < out"
    using assms le by (auto simp: ring_view_def)
  show "length d2 < length m" using lt assms by simp
  have "drop out (d2 @ drop (length d2) (take i m @ d1)) = drop out (take i m @ d1)"
    using lt by (intro drop_overwrite) simp
  also have "\<dots> = take (i - out) (drop out m) @ d1"
    using le assms by (simp add: drop_take)
  finally show "ring_view (d2 @ drop (length d2) (take i m @ d1)) (length d2) out = ring_view m i out @ d1 @ d2"
    using lt le by (simp add: ring_view_def)
qed

lemma ring_get_nowrap:
  assumes "i < length m" "out < length m" "out + k \<le> length m" "k \<le> length (ring_view m i out)"
  shows "ring_view m i (if out + k = length m then 0 else out + k) = drop k (ring_view m i out)"
    and "take k (drop out m) = take k (ring_view m i out)"
  using assms by (auto simp: ring_view_def add.commute drop_take)

lemma ring_get_wrap:
  assumes "i < length m" "out < length m" "length m < out + k" "k \<le> length (ring_view m i out)"
  shows "ring_view m i (k - (length m - out)) = drop k (ring_view m i out)"
    and "drop out m @ take (k - (length m - out)) m = take k (ring_view m i out)"
    and "k - (length m - out) < length m"
  using assms by (auto simp: ring_view_def drop_take split: if_splits)

section \<open>Invariant and abstraction\<close>

definition buf_wf :: "BUFFER_t \<Rightarrow> bool" where
  "buf_wf B \<longleftrightarrow> Buffer B \<noteq> None \<and> length (buf_mem B) = unat (Size B) \<and> In B < Size B \<and> Out B < Size B"

definition buf_contents :: "BUFFER_t \<Rightarrow> u8 list" where
  "buf_contents B = ring_view (buf_mem B) (unat (In B)) (unat (Out B))"

definition buf_room :: "BUFFER_t \<Rightarrow> nat" where
  "buf_room B = unat (Size B) - 1 - length (buf_contents B)"

lemma buf_mem_upd [simp]:
  "buf_mem (B\<lparr>Size := s\<rparr>) = buf_mem B" "buf_mem (B\<lparr>In := i\<rparr>) = buf_mem B"
  "buf_mem (B\<lparr>Out := out\<rparr>) = buf_mem B" "buf_mem (B\<lparr>Buffer := Some m\<rparr>) = m"
  "buf_mem (B\<lparr>Flags := fl\<rparr>) = buf_mem B"
  by (simp_all add: buf_mem_def)

lemma buf_wfD:
  assumes "buf_wf B"
  shows "length (buf_mem B) = unat (Size B)" "unat (In B) < unat (Size B)" "unat (Out B) < unat (Size B)"
    "unat (Size B) < 4294967296"
  using assms unat_u32_lt [of "Size B"] by (auto simp: buf_wf_def word_nat)


lemma length_buf_contents:
  "buf_wf B \<Longrightarrow> length (buf_contents B) =
     (if Out B \<le> In B then unat (In B) - unat (Out B)
      else unat (Size B) - (unat (Out B) - unat (In B)))"
  using buf_wfD [of B] by (auto simp: buf_contents_def ring_view_def word_nat)

lemma length_buf_contents_less: "buf_wf B \<Longrightarrow> length (buf_contents B) < unat (Size B)"
  using buf_wfD [of B] by (auto simp: length_buf_contents word_nat)

lemma unat_GetFull: "buf_wf B \<Longrightarrow> unat (BUFFER_GetFull (Some B)) = length (buf_contents B)"
  using buf_wfD [of B]
  by (auto simp: BUFFER_GetFull_def length_buf_contents word_nat unat_sub_ge word_unat_eq_iff)

lemma unat_GetFree: "buf_wf B \<Longrightarrow> unat (BUFFER_GetFree (Some B)) = buf_room B"
proof -
  assume wf: "buf_wf B"
  note d = buf_wfD [OF wf]
  have one: "unat (s - 1) = unat s - 1" if "0 < unat s" for s :: u32
    using that by (simp add: word_nat)
  show ?thesis
    using d length_buf_contents [OF wf]
    by (auto simp: BUFFER_GetFree_def Let_def buf_room_def one word_nat unat_sub_ge word_unat_eq_iff)
qed

lemma buf_copy_in_nowrap:
  assumes wf: "buf_wf B" and fit: "unat (In B) + unat count \<le> unat (Size B)" and d: "unat count \<le> length Data"
  shows "buf_copy_in B Data count = Some (count,
     B\<lparr>Buffer := Some (take (unat (In B)) (buf_mem B) @ take (unat count) Data
                      @ drop (unat (In B) + unat count) (buf_mem B)),
       In := (if unat (In B) + unat count = unat (Size B) then 0 else In B + count)\<rparr>)"
proof -
  note w = buf_wfD [OF wf]
  have "\<not> Size B - In B < count \<Longrightarrow> Size B - In B \<ge> count" by simp
  have tc: "(if count < Size B - In B then count else Size B - In B) = count"
    using w fit by (auto simp: word_nat unat_sub_ge word_unat_eq_iff)
  have add: "unat (In B + count) = unat (In B) + unat count"
    using w fit by (simp add: unat_plus_small)
  show ?thesis
    using w fit d tc add
    by (auto simp: buf_copy_in_def Let_def mem_simps word_nat)
qed

lemma buf_copy_in_wrap:
  assumes wf: "buf_wf B" and d: "take (unat count) Data = d1 @ d2" "unat count = length d1 + length d2"
    and d1: "length d1 = unat (Size B) - unat (In B)" and d2: "d2 \<noteq> []"
    and room: "unat count < unat (Size B)"
  shows "\<exists>i'. buf_copy_in B Data count = Some (count,
     B\<lparr>Buffer := Some (d2 @ drop (length d2) (take (unat (In B)) (buf_mem B) @ d1)), In := i'\<rparr>) \<and>
     unat i' = length d2"
proof -
  note w = buf_wfD [OF wf]
  have sub: "unat (Size B - In B) = length d1"
    using w d1 by (simp add: unat_sub_ge word_nat)
  have sub2: "unat (count - (Size B - In B)) = length d2"
    using d(2) sub by (simp add: unat_sub_ge word_nat)
  have tc: "\<not> count < Size B - In B" "0 < count - (Size B - In B)"
    using d sub sub2 d2 by (auto simp: word_nat)
  have dl: "unat count \<le> length Data"
    using d by (metis length_append length_take min_def nle_le)
  have t1: "take (length d1) Data = d1"
    using d by (metis append_eq_conv_conj le_add1 min.absorb2 min.commute take_take)
  have t2: "take (length d2) (drop (length d1) Data) = d2"
    using d by (metis add_diff_cancel_left' append_eq_conv_conj drop_take)
  have "buf_copy_in B Data count = Some (count,
     B\<lparr>Buffer := Some (d2 @ drop (length d2) (take (unat (In B)) (buf_mem B) @ d1)),
       In := count - (Size B - In B)\<rparr>)"
    using w d1 d dl tc room sub2 t1 [unfolded d1] t2 [unfolded d1]
    by (auto simp: buf_copy_in_def Let_def mem_simps sub word_nat)
  with sub2 show ?thesis by blast
qed

lemma buf_roomD: "buf_wf B \<Longrightarrow> k \<le> buf_room B \<Longrightarrow> length (buf_contents B) + k < unat (Size B)"
  using length_buf_contents_less [of B] by (simp add: buf_room_def)

lemma buf_copy_in_correct:
  assumes wf: "buf_wf B" and room: "unat count \<le> buf_room B" and d: "unat count \<le> length Data"
  shows "\<exists>B'. buf_copy_in B Data count = Some (count, B') \<and> buf_wf B' \<and>
     buf_contents B' = buf_contents B @ take (unat count) Data \<and>
     Out B' = Out B \<and> Size B' = Size B \<and> Flags B' = Flags B \<and> StringDelimiter B' = StringDelimiter B"
proof (cases "unat (In B) + unat count \<le> unat (Size B)")
  case True
  note w = buf_wfD [OF wf] and r = buf_roomD [OF wf room]
  have add: "unat (In B + count) = unat (In B) + unat count"
    using w True by (simp add: unat_plus_small)
  have len: "length (take (unat count) Data) = unat count" using d by simp
  have "ring_view (take (unat (In B)) (buf_mem B) @ take (unat count) Data
          @ drop (unat (In B) + unat count) (buf_mem B))
        (if unat (In B) + unat count = length (buf_mem B) then 0 else unat (In B) + unat count) (unat (Out B))
      = buf_contents B @ take (unat count) Data"
    using ring_put_nowrap [of "unat (In B)" "buf_mem B" "unat (Out B)" "take (unat count) Data"]
      w r True by (simp only: len buf_contents_def)
  then show ?thesis
    using buf_copy_in_nowrap [OF wf True d] w True len add
    by (auto simp: buf_wf_def buf_contents_def word_nat)
next
  case False
  note w = buf_wfD [OF wf] and r = buf_roomD [OF wf room]
  define d1 where "d1 = take (unat (Size B) - unat (In B)) Data"
  define d2 where "d2 = take (unat count - (unat (Size B) - unat (In B))) (drop (unat (Size B) - unat (In B)) Data)"
  have split: "take (unat count) Data = d1 @ d2"
    using w False by (simp add: d1_def d2_def take_add [symmetric])
  have l1: "length d1 = unat (Size B) - unat (In B)" and l12: "unat count = length d1 + length d2"
    and l2: "d2 \<noteq> []"
    using w False d by (auto simp: d1_def d2_def)
  from buf_copy_in_wrap [OF wf split l12 l1 l2] r obtain i' where
    eq: "buf_copy_in B Data count = Some (count,
       B\<lparr>Buffer := Some (d2 @ drop (length d2) (take (unat (In B)) (buf_mem B) @ d1)), In := i'\<rparr>)"
    and i': "unat i' = length d2" by auto
  have "ring_view (d2 @ drop (length d2) (take (unat (In B)) (buf_mem B) @ d1)) (length d2) (unat (Out B))
      = buf_contents B @ d1 @ d2" and "length d2 < length (buf_mem B)"
    using ring_put_wrap [of "unat (In B)" "buf_mem B" "unat (Out B)" d1 d2] w r l1 l12 l2
    by (simp_all add: buf_contents_def)
  then show ?thesis
    unfolding split using eq i' w l1 l12 r by (auto simp: buf_wf_def buf_contents_def word_nat)
qed

section \<open>Writing and reading refine the queue\<close>

lemma BUFFER_Write_spec:
  assumes wf: "buf_wf B" and d: "unat count \<le> length Data"
  shows "\<exists>n B'. BUFFER_Write (Some B) Data count = Some (n, Some B') \<and> buf_wf B' \<and>
     unat n = min (unat count) (buf_room B) \<and> buf_contents B' = buf_contents B @ take (unat n) Data \<and>
     Out B' = Out B \<and> Size B' = Size B \<and> Flags B' = Flags B \<and> StringDelimiter B' = StringDelimiter B"
proof -
  have noreset: "\<not> Size B \<le> In B" using wf by (auto simp: buf_wf_def)
  note fr = unat_GetFree [OF wf]
  consider "count = 0" | "count \<noteq> 0" "buf_room B = 0" | "count \<noteq> 0" "buf_room B \<noteq> 0" by blast
  then show ?thesis
  proof cases
    case 1 then show ?thesis using wf by (simp add: BUFFER_Write_def)
  next
    case 2
    then have "BUFFER_GetFree (Some B) = 0" using fr by (simp add: word_unat_eq_iff)
    with 2 word_neq_0_conv [of count] show ?thesis using wf noreset by (simp add: BUFFER_Write_def)
  next
    case 3
    let ?c = "if BUFFER_GetFree (Some B) < count then BUFFER_GetFree (Some B) else count"
    have c: "unat ?c = min (unat count) (buf_room B)"
      using fr by (auto simp: word_nat)
    have nz: "BUFFER_GetFree (Some B) \<noteq> 0" using 3 fr by (metis unat_0)
    have "BUFFER_Write (Some B) Data count = map_option (\<lambda>(n, B). (n, Some B)) (buf_copy_in B Data ?c)"
      using 3 noreset nz by (simp add: BUFFER_Write_def)
    moreover have "unat ?c \<le> buf_room B" "unat ?c \<le> length Data" unfolding c using d by auto
    ultimately show ?thesis using buf_copy_in_correct [OF wf, of ?c Data] c by (metis (no_types, lifting) case_prod_conv option.simps(9))
  qed
qed

lemma buf_copy_out_nowrap:
  assumes wf: "buf_wf B" and fit: "unat (Out B) + unat count \<le> unat (Size B)" and d: "unat count \<le> length Data"
  shows "buf_copy_out B Data count = Some (count,
     take (unat count) (drop (unat (Out B)) (buf_mem B)) @ drop (unat count) Data,
     B\<lparr>Out := (if unat (Out B) + unat count = unat (Size B) then 0 else Out B + count)\<rparr>)"
proof -
  note w = buf_wfD [OF wf]
  have tc: "(if count < Size B - Out B then count else Size B - Out B) = count"
    using w fit by (auto simp: word_nat unat_sub_ge word_unat_eq_iff)
  have add: "unat (Out B + count) = unat (Out B) + unat count"
    using w fit by (simp add: unat_plus_small)
  show ?thesis
    using w fit d tc add by (auto simp: buf_copy_out_def Let_def mem_simps word_nat)
qed

lemma buf_copy_out_wrap:
  assumes wf: "buf_wf B" and wrap: "unat (Size B) < unat (Out B) + unat count" and d: "unat count \<le> length Data"
    and room: "unat count < unat (Size B)"
  shows "\<exists>o'. buf_copy_out B Data count = Some (count,
     drop (unat (Out B)) (buf_mem B) @ take (unat count - (unat (Size B) - unat (Out B))) (buf_mem B) @ drop (unat count) Data,
     B\<lparr>Out := o'\<rparr>) \<and> unat o' = unat count - (unat (Size B) - unat (Out B))"
proof -
  note w = buf_wfD [OF wf]
  have sub: "unat (Size B - Out B) = unat (Size B) - unat (Out B)"
    using w by (simp add: unat_sub_ge word_nat)
  have sub2: "unat (count - (Size B - Out B)) = unat count - (unat (Size B) - unat (Out B))"
    using w wrap sub by (simp add: unat_sub_ge word_nat)
  have tc: "\<not> count < Size B - Out B" "0 < count - (Size B - Out B)"
    using w wrap sub sub2 by (auto simp: word_nat)
  have "buf_copy_out B Data count = Some (count,
     drop (unat (Out B)) (buf_mem B) @ take (unat count - (unat (Size B) - unat (Out B))) (buf_mem B) @ drop (unat count) Data,
     B\<lparr>Out := count - (Size B - Out B)\<rparr>)"
    using w wrap d tc room
    by (auto simp: buf_copy_out_def Let_def mem_simps sub sub2 word_nat)
  with sub2 show ?thesis by blast
qed

lemma buf_copy_out_correct:
  assumes wf: "buf_wf B" and full: "unat count \<le> length (buf_contents B)" and d: "unat count \<le> length Data"
  shows "\<exists>B'. buf_copy_out B Data count = Some (count, take (unat count) (buf_contents B) @ drop (unat count) Data, B') \<and>
     buf_wf B' \<and> buf_contents B' = drop (unat count) (buf_contents B) \<and>
     In B' = In B \<and> Size B' = Size B \<and> Buffer B' = Buffer B \<and> Flags B' = Flags B \<and> StringDelimiter B' = StringDelimiter B"
proof (cases "unat (Out B) + unat count \<le> unat (Size B)")
  case True
  note w = buf_wfD [OF wf]
  have add: "unat (Out B + count) = unat (Out B) + unat count"
    using w True by (simp add: unat_plus_small)
  note g = ring_get_nowrap [of "unat (In B)" "buf_mem B" "unat (Out B)" "unat count"]
  show ?thesis
    using buf_copy_out_nowrap [OF wf True d] w True g full add wf
    by (auto simp: buf_wf_def buf_contents_def word_nat)
next
  case False
  note w = buf_wfD [OF wf]
  have wrap: "unat (Size B) < unat (Out B) + unat count" and lt: "unat count < unat (Size B)"
    using False full length_buf_contents_less [OF wf] by simp_all
  note g = ring_get_wrap [of "unat (In B)" "buf_mem B" "unat (Out B)" "unat count"]
  obtain o' where eq: "buf_copy_out B Data count = Some (count,
     drop (unat (Out B)) (buf_mem B) @ take (unat count - (unat (Size B) - unat (Out B))) (buf_mem B) @ drop (unat count) Data,
     B\<lparr>Out := o'\<rparr>)" and o': "unat o' = unat count - (unat (Size B) - unat (Out B))"
    using buf_copy_out_wrap [OF wf wrap d lt] by blast
  have g1: "ring_view (buf_mem B) (unat (In B)) (unat o') = drop (unat count) (buf_contents B)"
    and g2: "drop (unat (Out B)) (buf_mem B) @ take (unat o') (buf_mem B) = take (unat count) (buf_contents B)"
    and g3: "unat o' < unat (Size B)"
    using g w wrap full o' by (auto simp: buf_contents_def)
  have "buf_wf (B\<lparr>Out := o'\<rparr>)" "buf_contents (B\<lparr>Out := o'\<rparr>) = drop (unat count) (buf_contents B)"
    using wf g1 g3 by (auto simp: buf_wf_def buf_contents_def word_nat)
  moreover have "drop (unat (Out B)) (buf_mem B) @ take (unat o') (buf_mem B) @ drop (unat count) Data
     = take (unat count) (buf_contents B) @ drop (unat count) Data"
    using g2 by (metis append_assoc)
  ultimately show ?thesis using eq o' by auto
qed

lemma BUFFER_Read_spec:
  assumes wf: "buf_wf B" and d: "unat count \<le> length Data"
  shows "\<exists>n B'. BUFFER_Read (Some B) Data count =
       Some (n, take (unat n) (buf_contents B) @ drop (unat n) Data, Some B') \<and> buf_wf B' \<and>
     unat n = min (unat count) (length (buf_contents B)) \<and> buf_contents B' = drop (unat n) (buf_contents B) \<and>
     In B' = In B \<and> Size B' = Size B \<and> Buffer B' = Buffer B \<and> Flags B' = Flags B \<and> StringDelimiter B' = StringDelimiter B"
proof -
  have noreset: "\<not> Size B \<le> Out B" using wf by (auto simp: buf_wf_def)
  note fu = unat_GetFull [OF wf]
  consider "count = 0" | "count \<noteq> 0" "length (buf_contents B) = 0" | "count \<noteq> 0" "length (buf_contents B) \<noteq> 0" by blast
  then show ?thesis
  proof cases
    case 1 then show ?thesis using wf by (simp add: BUFFER_Read_def)
  next
    case 2
    then have "BUFFER_GetFull (Some B) = 0" using fu by (simp add: word_unat_eq_iff)
    with 2 word_neq_0_conv [of count] show ?thesis using wf noreset by (simp add: BUFFER_Read_def)
  next
    case 3
    let ?c = "if BUFFER_GetFull (Some B) < count then BUFFER_GetFull (Some B) else count"
    have c: "unat ?c = min (unat count) (length (buf_contents B))"
      using fu by (auto simp: word_nat)
    have nz: "BUFFER_GetFull (Some B) \<noteq> 0" using 3 fu by (metis unat_0)
    have eq: "BUFFER_Read (Some B) Data count = map_option (\<lambda>(n, d, B). (n, d, Some B)) (buf_copy_out B Data ?c)"
      using 3 noreset nz by (simp add: BUFFER_Read_def)
    have pre: "unat ?c \<le> length (buf_contents B)" "unat ?c \<le> length Data" unfolding c using d by auto
    obtain B' where B': "buf_copy_out B Data ?c = Some (?c, take (unat ?c) (buf_contents B) @ drop (unat ?c) Data, B')"
      "buf_wf B'" "buf_contents B' = drop (unat ?c) (buf_contents B)"
      "In B' = In B" "Size B' = Size B" "Buffer B' = Buffer B" "Flags B' = Flags B" "StringDelimiter B' = StringDelimiter B"
      using buf_copy_out_correct [OF wf pre] by blast
    show ?thesis
      by (rule exI [of _ ?c], rule exI [of _ B']) (simp add: eq B' c del: take_append)
  qed
qed

section \<open>The byte loops, the counters and the positions\<close>

lemma buf_put_one:
  assumes wf: "buf_wf B" and room: "0 < buf_room B"
  shows "let B1 = B\<lparr>Buffer := Some ((buf_mem B)[unat (In B) := v]), In := In B + 1\<rparr>;
             B' = (if In B1 \<ge> Size B1 then B1\<lparr>In := 0\<rparr> else B1)
         in buf_copy_in B [v] 1 = Some (1, B') \<and> buf_wf B' \<and> buf_contents B' = buf_contents B @ [v]
            \<and> buf_room B' = buf_room B - 1"
proof -
  note w = buf_wfD [OF wf]
  have fit: "unat (In B) + unat (1::u32) \<le> unat (Size B)" using w by simp
  have m: "take (unat (In B)) (buf_mem B) @ [v] @ drop (Suc (unat (In B))) (buf_mem B) = (buf_mem B)[unat (In B) := v]"
    using w by (simp add: upd_conv_take_nth_drop)
  have inc: "unat (In B + 1) = Suc (unat (In B))" using w by (simp add: unat_Suc_small)
  have eq: "buf_copy_in B [v] 1 = Some (1, B\<lparr>Buffer := Some ((buf_mem B)[unat (In B) := v]),
      In := (if unat (In B) + unat (1::u32) = unat (Size B) then 0 else In B + 1)\<rparr>)"
    using buf_copy_in_nowrap [OF wf fit, of "[v]"] m by simp
  from buf_copy_in_correct [OF wf, of 1 "[v]"] room obtain B' where
    B': "buf_copy_in B [v] 1 = Some (1, B')" "buf_wf B'" "buf_contents B' = buf_contents B @ [v]" "Size B' = Size B"
    by auto
  from B' eq have "B' = B\<lparr>Buffer := Some ((buf_mem B)[unat (In B) := v]),
      In := (if unat (In B) + unat (1::u32) = unat (Size B) then 0 else In B + 1)\<rparr>" by simp
  with B' w inc show ?thesis
    by (auto simp: Let_def word_nat buf_room_def)
qed

lemma buf_copy_in_slow_correct:
  assumes "buf_wf B" "n \<le> buf_room B" "n \<le> length Data"
  shows "\<exists>B'. buf_copy_in_slow n B Data i = Some (i + of_nat n, B') \<and> buf_wf B' \<and>
     buf_contents B' = buf_contents B @ take n Data \<and> Out B' = Out B \<and> Size B' = Size B"
  using assms
proof (induction n arbitrary: B Data i)
  case 0
  then show ?case by simp
next
  case (Suc n)
  then obtain v Ds where D: "Data = v # Ds" by (cases Data) auto
  note w = buf_wfD [OF Suc.prems(1)]
  define B1 where "B1 = B\<lparr>Buffer := Some ((buf_mem B)[unat (In B) := v]), In := In B + 1\<rparr>"
  define B' where "B' = (if In B1 \<ge> Size B1 then B1\<lparr>In := 0\<rparr> else B1)"
  have p: "buf_wf B'" "buf_contents B' = buf_contents B @ [v]" "buf_room B' = buf_room B - 1"
    using buf_put_one [OF Suc.prems(1), of v, unfolded Let_def, folded B1_def, folded B'_def] Suc.prems(2)
    by simp_all
  have fr: "Out B' = Out B" "Size B' = Size B" by (simp_all add: B1_def B'_def)
  have step: "buf_copy_in_slow (Suc n) B Data i = buf_copy_in_slow n B' Ds (i + 1)"
    using w D by (simp add: mem_simps Let_def B1_def B'_def)
  have "n \<le> buf_room B'" "n \<le> length Ds" using p Suc.prems D by auto
  from Suc.IH [OF p(1) this, of "i + 1"] show ?case
    unfolding step using p fr D by (auto simp: add.assoc add.commute [of 1])
qed

lemma buf_wf_eqI:
  assumes "buf_wf A" "buf_wf B" "Size A = Size B" "Out A = Out B" "length (buf_contents A) = length (buf_contents B)"
  shows "In A = In B"
proof -
  have "unat (In A) = unat (In B)"
    using assms buf_wfD [of A] buf_wfD [of B]
    by (auto simp: length_buf_contents word_nat split: if_splits)
  then show ?thesis by (simp add: word_unat_eq_iff)
qed

lemma GetFullFast_eq:
  assumes wf: "buf_wf B" and small: "unat (Size B) \<le> 2 ^ 31"
  shows "BUFFER_GetFullFast (Some B) = Some (BUFFER_GetFull (Some B))"
proof -
  note w = buf_wfD [OF wf]
  have s: "unat (Size B + In B - Out B) = unat (Size B) + unat (In B) - unat (Out B)"
    using w small by (simp add: unat_sub_ge unat_plus_small word_nat)
  have "(unat (Size B) + unat (In B) - unat (Out B)) mod unat (Size B) = length (buf_contents B)"
  proof (cases "unat (Out B) \<le> unat (In B)")
    case True
    then have "(unat (Size B) + unat (In B) - unat (Out B)) mod unat (Size B) = (unat (In B) - unat (Out B)) mod unat (Size B)"
      by (metis Nat.add_diff_assoc mod_add_self1)
    then show ?thesis using True w by (simp add: length_buf_contents [OF wf] word_nat)
  next
    case False
    then show ?thesis using w by (simp add: length_buf_contents [OF wf] word_nat)
  qed
  then have "unat ((Size B + In B - Out B) mod Size B) = unat (BUFFER_GetFull (Some B))"
    by (simp add: unat_mod s unat_GetFull [OF wf])
  moreover have "Size B \<noteq> 0" using w by auto
  ultimately show ?thesis by (simp add: BUFFER_GetFullFast_def word_unat_eq_iff)
qed

text \<open>Reading position \<open>k\<close> of the queue: the cyclic index arithmetic of the search loops.\<close>

definition buf_pos :: "BUFFER_t \<Rightarrow> nat \<Rightarrow> nat" where
  "buf_pos B k = (if unat (Out B) + k < unat (Size B) then unat (Out B) + k
                  else unat (Out B) + k - unat (Size B))"

lemma buf_contents_nth:
  assumes "buf_wf B" "k < length (buf_contents B)"
  shows "buf_contents B ! k = buf_mem B ! buf_pos B k"
  using assms buf_wfD [of B]
  by (auto simp: buf_contents_def ring_view_def buf_pos_def nth_append add.commute split: if_splits)

lemma buf_pos_less: "buf_wf B \<Longrightarrow> k < unat (Size B) \<Longrightarrow> buf_pos B k < unat (Size B)"
  using buf_wfD [of B] by (auto simp: buf_pos_def)

section \<open>Searching and peeking\<close>

text \<open>\<open>norm B out\<close> is the index after the overflow test at the head of the loops.\<close>

definition buf_norm :: "BUFFER_t \<Rightarrow> u32 \<Rightarrow> u32" where
  "buf_norm B out = (if out \<ge> Size B then 0 else out)"

lemma buf_pos_step:
  assumes wf: "buf_wf B" and k: "Suc k < unat (Size B)" and out: "unat out = buf_pos B k"
  shows "unat (buf_norm B (out + 1)) = buf_pos B (Suc k)"
proof -
  note w = buf_wfD [OF wf]
  have lt: "unat out < unat (Size B)" using buf_pos_less [OF wf, of k] k out by simp
  then have inc: "unat (out + 1) = Suc (unat out)" using w by (simp add: unat_Suc_small)
  show ?thesis using inc out lt w k by (auto simp: word_nat buf_pos_def buf_norm_def split: if_splits)
qed

lemma buf_norm_small: "out < Size B \<Longrightarrow> buf_norm B out = out"
  by (simp add: buf_norm_def not_le [symmetric])

lemma buf_find_element_correct:
  assumes wf: "buf_wf B" and k: "k + n = length (buf_contents B)"
    and out: "n = 0 \<or> unat (buf_norm B out) = buf_pos B k"
  shows "buf_find_element n B el out (of_nat k) =
     Some (if el \<in> set (drop k (buf_contents B))
           then sint (of_nat (k + length (takeWhile (\<lambda>v. v \<noteq> el) (drop k (buf_contents B)))) :: u32) else -1)"
  using k out
proof (induction n arbitrary: k out)
  case 0
  then show ?case by simp
next
  case (Suc n)
  note w = buf_wfD [OF wf]
  have kl: "k < length (buf_contents B)" using Suc.prems by simp
  have ks: "k < unat (Size B)" using kl length_buf_contents_less [OF wf] by simp
  have p: "unat (buf_norm B out) = buf_pos B k" using Suc.prems by simp
  have v: "c_nth (buf_mem B) (unat (buf_norm B out)) = Some (buf_contents B ! k)"
    using p w buf_pos_less [OF wf ks] buf_contents_nth [OF wf kl] by (simp add: mem_simps)
  have dr: "drop k (buf_contents B) = buf_contents B ! k # drop (Suc k) (buf_contents B)"
    using kl by (simp add: Cons_nth_drop_Suc)
  show ?case
  proof (cases "buf_contents B ! k = el")
    case True
    then show ?thesis using v dr by (simp add: buf_norm_def [symmetric])
  next
    case False
    have "n = 0 \<or> unat (buf_norm B (buf_norm B out + 1)) = buf_pos B (Suc k)"
    proof (cases n)
      case (Suc m)
      then have "Suc k < unat (Size B)" using Suc.prems length_buf_contents_less [OF wf] by simp
      from buf_pos_step [OF wf this p] show ?thesis by simp
    qed simp
    with Suc.IH [of "Suc k" "buf_norm B out + 1"] Suc.prems False v dr show ?thesis
      by (simp add: buf_norm_def [symmetric] add.commute)
  qed
qed

lemma buf_FindElement_spec:
  assumes wf: "buf_wf B" and small: "unat (Size B) \<le> 2 ^ 31"
  shows "BUFFER_FindElement (Some B) el =
     Some (if el \<in> set (buf_contents B) then int (length (takeWhile (\<lambda>v. v \<noteq> el) (buf_contents B))) else -1)"
proof -
  have o: "Out B < Size B" using wf by (simp add: buf_wf_def)
  have lt: "length (takeWhile (\<lambda>v. v \<noteq> el) (buf_contents B)) < 2 ^ 31"
    using length_takeWhile_le [of "\<lambda>v. v \<noteq> el" "buf_contents B"] length_buf_contents_less [OF wf] small
    by linarith
  have s: "sint (of_nat n :: u32) = int n" if "n < 2 ^ 31" for n
    using that by (simp add: signed_of_nat signed_take_bit_int_eq_self)
  have "buf_pos B 0 = unat (Out B)" using buf_wfD [OF wf] by (simp add: buf_pos_def)
  then have "buf_find_element (length (buf_contents B)) B el (Out B) (of_nat 0) =
     Some (if el \<in> set (drop 0 (buf_contents B))
           then sint (of_nat (0 + length (takeWhile (\<lambda>v. v \<noteq> el) (drop 0 (buf_contents B)))) :: u32) else -1)"
    by (intro buf_find_element_correct [OF wf]) (simp_all add: buf_norm_small o)
  then show ?thesis
    using s [OF lt] by (simp add: BUFFER_FindElement_def unat_GetFull [OF wf])
qed

lemma buf_check_seek_correct:
  assumes wf: "buf_wf B" and "k + n \<le> length (buf_contents B)" and "unat out = buf_pos B k"
  shows "\<exists>out'. buf_check_seek n B out (of_nat k) = (out', of_nat (k + n)) \<and> unat out' = buf_pos B (k + n)"
  using assms(2,3)
proof (induction n arbitrary: k out)
  case 0
  then show ?case by simp
next
  case (Suc n)
  note w = buf_wfD [OF wf]
  have kl: "k < length (buf_contents B)" using Suc.prems by simp
  have ne: "In B \<noteq> out"
    using kl Suc.prems(2) w length_buf_contents [OF wf]
    by (auto simp: buf_pos_def word_nat split: if_splits)
  show ?case
  proof (cases "Suc k < unat (Size B)")
    case True
    note st = buf_pos_step [OF wf True Suc.prems(2)]
    have "buf_check_seek (Suc n) B out (of_nat k) = buf_check_seek n B (buf_norm B (out + 1)) (of_nat (Suc k))"
      using ne by (simp add: Let_def buf_norm_def add.commute)
    with Suc.IH [OF _ st] Suc.prems(1) show ?thesis by simp
  next
    case False
    then show ?thesis using Suc.prems length_buf_contents_less [OF wf] by simp
  qed
qed

section \<open>Reading strings\<close>

lemma buf_read_one:
  assumes wf: "buf_wf B"
  shows "\<exists>n B'. BUFFER_Read (Some B) [ch] 1 = Some (n, [if buf_contents B = [] then ch else hd (buf_contents B)], Some B')
     \<and> buf_wf B' \<and> buf_contents B' = tl (buf_contents B) \<and> StringDelimiter B' = StringDelimiter B"
proof -
  obtain n B' where r: "BUFFER_Read (Some B) [ch] 1 =
       Some (n, take (unat n) (buf_contents B) @ drop (unat n) [ch], Some B')" "buf_wf B'"
     "unat n = min 1 (length (buf_contents B))" "buf_contents B' = drop (unat n) (buf_contents B)"
     "StringDelimiter B' = StringDelimiter B"
    using BUFFER_Read_spec [OF wf, of 1 "[ch]"] by auto
  then show ?thesis by (cases "buf_contents B") (simp_all add: drop_Suc)
qed

lemma buf_read_string_delim:
  assumes "buf_wf B" "StringDelimiter B \<in> set (buf_contents B)"
    and "p = length (takeWhile (\<lambda>v. v \<noteq> StringDelimiter B) (buf_contents B))" "p < n"
    and "unat i + n < length buff" "length buff < 2 ^ 32"
  shows "\<exists>B'. buf_read_string n B buff ch i = Some (i + of_nat p,
       take (unat i) buff @ take (Suc p) (buf_contents B) @ drop (unat i + Suc p) buff, B') \<and>
     buf_wf B' \<and> buf_contents B' = drop (Suc p) (buf_contents B)"
  using assms
proof (induction n arbitrary: B p buff ch i)
  case 0
  then show ?case by simp
next
  case (Suc n)
  obtain v c where c: "buf_contents B = v # c" using Suc.prems(2) by (cases "buf_contents B") auto
  obtain m B' where r: "BUFFER_Read (Some B) [ch] 1 = Some (m, [v], Some B')" "buf_wf B'"
    "buf_contents B' = c" "StringDelimiter B' = StringDelimiter B"
    using buf_read_one [OF Suc.prems(1), of ch] c by auto
  have il: "unat i < length buff" using Suc.prems by simp
  show ?case
  proof (cases "v = StringDelimiter B")
    case True
    then have "p = 0" using Suc.prems(3) c by simp
    with True r c il show ?thesis
      by (simp add: mem_simps upd_conv_take_nth_drop)
  next
    case False
    have inc: "unat (i + 1) = Suc (unat i)" using Suc.prems by (simp add: unat_Suc_small)
    obtain q where q: "p = Suc q" "q = length (takeWhile (\<lambda>v. v \<noteq> StringDelimiter B') (buf_contents B'))"
      using Suc.prems(3) c False r by simp
    have "\<exists>B''. buf_read_string n B' (buff[unat i := v]) v (i + 1) = Some (i + 1 + of_nat q,
        take (unat (i + 1)) (buff[unat i := v]) @ take (Suc q) (buf_contents B') @ drop (unat (i + 1) + Suc q) (buff[unat i := v]), B'')
        \<and> buf_wf B'' \<and> buf_contents B'' = drop (Suc q) (buf_contents B')"
      using Suc.prems c False r q inc by (intro Suc.IH) auto
    moreover have len: "length (take (Suc q) c) = Suc q"
    proof -
      have "StringDelimiter B \<in> set c" using Suc.prems(2) c False by simp
      then have "q < length c" using q r by (simp add: length_takeWhile_lt)
      then show ?thesis by simp
    qed
    ultimately show ?thesis
      using r c il False inc q overwrite_step [OF il, of v "take (Suc q) c"]
      by (auto simp: mem_simps len add.assoc)
  qed
qed

lemma buf_read_string_nodelim:
  assumes "buf_wf B" "StringDelimiter B \<notin> set (buf_contents B)" "buf_contents B = [] \<longrightarrow> ch \<noteq> StringDelimiter B"
    and "unat i + n < length buff" "length buff < 2 ^ 32"
  shows "\<exists>B'. buf_read_string n B buff ch i = Some (i + of_nat n,
       take (unat i) buff @ take n (buf_contents B @ replicate n (last (ch # buf_contents B)))
         @ drop (unat i + n) buff, B') \<and>
     buf_wf B' \<and> buf_contents B' = drop n (buf_contents B)"
  using assms
proof (induction n arbitrary: B buff ch i)
  case 0
  then show ?case by simp
next
  case (Suc n)
  define v where "v = (if buf_contents B = [] then ch else hd (buf_contents B))"
  obtain m B' where r: "BUFFER_Read (Some B) [ch] 1 = Some (m, [v], Some B')" "buf_wf B'"
    "buf_contents B' = tl (buf_contents B)" "StringDelimiter B' = StringDelimiter B"
    using buf_read_one [OF Suc.prems(1), of ch] by (auto simp: v_def)
  have vd: "v \<noteq> StringDelimiter B" using Suc.prems(2,3) by (cases "buf_contents B") (auto simp: v_def)
  have il: "unat i < length buff" using Suc.prems by simp
  have inc: "unat (i + 1) = Suc (unat i)" using Suc.prems by (simp add: unat_Suc_small)
  define ys where "ys = take n (buf_contents B' @ replicate n (last (v # buf_contents B')))"
  obtain B'' where IH: "buf_read_string n B' (buff[unat i := v]) v (i + 1) = Some (i + 1 + of_nat n,
      take (unat (i + 1)) (buff[unat i := v]) @ ys @ drop (unat (i + 1) + n) (buff[unat i := v]), B'')"
      "buf_wf B''" "buf_contents B'' = drop n (buf_contents B')"
    using Suc.prems r inc vd Suc.IH [of B' v "i + 1" "buff[unat i := v]"]
    by (auto simp: ys_def dest: in_set_tlD)
  have len: "length ys = n" by (simp add: ys_def)
  have vys: "take (Suc n) (buf_contents B @ replicate (Suc n) (last (ch # buf_contents B))) = v # ys"
    by (cases "buf_contents B") (simp_all add: v_def r ys_def del: replicate_Suc, simp_all)
  have "take (unat (i + 1)) (buff[unat i := v]) @ ys @ drop (unat (i + 1) + n) (buff[unat i := v])
      = take (unat i) buff @ (v # ys) @ drop (unat i + Suc n) buff"
    using overwrite_step [OF il, of v ys] inc len by simp
  then show ?case
    unfolding vys using r il vd IH by (simp add: mem_simps add.assoc drop_Suc)
qed

section \<open>The queue interface\<close>

datatype 'a fifo_op = Put "'a list" | Get nat

fun fifo_run ::
  "('q \<Rightarrow> 'a list \<Rightarrow> nat \<times> 'q) \<Rightarrow> ('q \<Rightarrow> nat \<Rightarrow> 'a list \<times> 'q) \<Rightarrow> 'q \<Rightarrow> 'a fifo_op list
     \<Rightarrow> 'a list \<times> 'a list \<times> 'q" where
  "fifo_run put get q [] = ([], [], q)"
| "fifo_run put get q (Put xs # ops) =
     (let (n, q) = put q xs; (ins, outs, q) = fifo_run put get q ops in (take n xs @ ins, outs, q))"
| "fifo_run put get q (Get n # ops) =
     (let (ys, q) = get q n; (ins, outs, q) = fifo_run put get q ops in (ins, ys @ outs, q))"

fun fifo_op_ok :: "nat \<Rightarrow> 'a fifo_op \<Rightarrow> bool" where
  "fifo_op_ok lim (Put xs) = (length xs \<le> lim)"
| "fifo_op_ok lim (Get n) = (n \<le> lim)"

locale byte_fifo =
  fixes put :: "'q \<Rightarrow> 'a list \<Rightarrow> nat \<times> 'q"
    and get :: "'q \<Rightarrow> nat \<Rightarrow> 'a list \<times> 'q"
    and invar :: "'q \<Rightarrow> bool"
    and view :: "'q \<Rightarrow> 'a list"
    and cap :: "'q \<Rightarrow> nat"
    and lim :: nat
  assumes put_law: "invar q \<Longrightarrow> length xs \<le> lim \<Longrightarrow> put q xs = (n, q') \<Longrightarrow>
       n = min (length xs) (cap q - length (view q)) \<and> view q' = view q @ take n xs \<and>
       invar q' \<and> cap q' = cap q"
    and get_law: "invar q \<Longrightarrow> k \<le> lim \<Longrightarrow> get q k = (ys, q') \<Longrightarrow>
       ys = take k (view q) \<and> view q' = drop k (view q) \<and> invar q' \<and> cap q' = cap q"
    and bounded: "invar q \<Longrightarrow> length (view q) \<le> cap q"
begin

lemma run_stream:
  assumes "invar q" "list_all (fifo_op_ok lim) ops" "fifo_run put get q ops = (ins, outs, q')"
  shows "outs @ view q' = view q @ ins \<and> invar q' \<and> cap q' = cap q"
  using assms
proof (induction ops arbitrary: q ins outs)
  case Nil
  then show ?case by simp
next
  case (Cons x ops)
  show ?case
  proof (cases x)
    case (Put xs)
    obtain n q1 where p: "put q xs = (n, q1)" by fastforce
    obtain ins1 outs1 q2 where r: "fifo_run put get q1 ops = (ins1, outs1, q2)" by (metis prod_cases3)
    have "view q1 = view q @ take n xs" "invar q1" "cap q1 = cap q"
      using put_law [OF Cons.prems(1) _ p] Cons.prems(2) Put by simp_all
    with Cons.IH [of q1 ins1 outs1] Cons.prems p r Put show ?thesis by simp
  next
    case (Get k)
    obtain ys q1 where p: "get q k = (ys, q1)" by fastforce
    obtain ins1 outs1 q2 where r: "fifo_run put get q1 ops = (ins1, outs1, q2)" by (metis prod_cases3)
    have g: "ys = take k (view q)" "view q1 = drop k (view q)" "invar q1" "cap q1 = cap q"
      using get_law [OF Cons.prems(1) _ p] Cons.prems(2) Get by simp_all
    have "outs1 @ view q2 = drop k (view q) @ ins1 \<and> invar q2 \<and> cap q2 = cap q1"
      using Cons.IH [of q1 ins1 outs1] Cons.prems(2,3) p r Get g by simp
    moreover have "outs = take k (view q) @ outs1" "ins = ins1" "q' = q2"
      using Cons.prems(3) p r Get g by simp_all
    ultimately show ?thesis using g by (metis append.assoc append_take_drop_id)
  qed
qed

lemma run_bounded:
  assumes "invar q" "list_all (fifo_op_ok lim) ops" "fifo_run put get q ops = (ins, outs, q')"
  shows "length (view q') \<le> cap q"
  using run_stream [OF assms] bounded by metis

end

definition buf_put :: "BUFFER_t \<Rightarrow> u8 list \<Rightarrow> nat \<times> BUFFER_t" where
  "buf_put B xs = (case BUFFER_Write (Some B) xs (of_nat (length xs)) of
      Some (n, Some B') \<Rightarrow> (unat n, B') | _ \<Rightarrow> (0, B))"

definition buf_get :: "BUFFER_t \<Rightarrow> nat \<Rightarrow> u8 list \<times> BUFFER_t" where
  "buf_get B k = (case BUFFER_Read (Some B) (replicate k 0) (of_nat k) of
      Some (n, d, Some B') \<Rightarrow> (take (unat n) d, B') | _ \<Rightarrow> ([], B))"

interpretation ring: byte_fifo buf_put buf_get buf_wf buf_contents "\<lambda>B. unat (Size B) - 1" 4294967295
proof unfold_locales
  fix B B' :: BUFFER_t and xs :: "u8 list" and n
  assume wf: "buf_wf B" and len: "length xs \<le> 4294967295" and p: "buf_put B xs = (n, B')"
  from BUFFER_Write_spec [OF wf, of "of_nat (length xs)" xs] p len
  show "n = min (length xs) (unat (Size B) - 1 - length (buf_contents B)) \<and>
        buf_contents B' = buf_contents B @ take n xs \<and> buf_wf B' \<and> unat (Size B') - 1 = unat (Size B) - 1"
    by (auto simp: buf_put_def unat_of_nat_u32 buf_room_def)
next
  fix B B' :: BUFFER_t and k and ys :: "u8 list"
  assume wf: "buf_wf B" and len: "k \<le> 4294967295" and g: "buf_get B k = (ys, B')"
  from BUFFER_Read_spec [OF wf, of "of_nat k" "replicate k 0"] len obtain m B1 where
    r: "BUFFER_Read (Some B) (replicate k 0) (of_nat k) = Some (m, take (unat m) (buf_contents B) @ drop (unat m) (replicate k 0), Some B1)"
      "buf_wf B1" "unat m = min k (length (buf_contents B))" "buf_contents B1 = drop (unat m) (buf_contents B)" "Size B1 = Size B"
    by (auto simp: unat_of_nat_u32)
  show "ys = take k (buf_contents B) \<and> buf_contents B' = drop k (buf_contents B) \<and> buf_wf B' \<and>
        unat (Size B') - 1 = unat (Size B) - 1"
    using r g by (auto simp: buf_get_def min_def split: if_splits)
next
  fix B assume "buf_wf B"
  then show "length (buf_contents B) \<le> unat (Size B) - 1"
    using length_buf_contents_less [of B] by simp
qed

lemma buf_pos_0: "buf_wf B \<Longrightarrow> buf_pos B 0 = unat (Out B)"
  using buf_wfD [of B] by (simp add: buf_pos_def)

lemma buf_pos_end: "buf_wf B \<Longrightarrow> buf_pos B (length (buf_contents B)) = unat (In B)"
  using buf_wfD [of B] by (auto simp: buf_pos_def length_buf_contents word_nat)

lemma buf_check_seek_0:
  assumes "buf_wf B" "unat pos \<le> length (buf_contents B)"
  shows "\<exists>out. buf_check_seek (unat pos) B (Out B) 0 = (out, pos) \<and> unat out = buf_pos B (unat pos)"
  using buf_check_seek_correct [OF assms(1), of 0 "unat pos" "Out B"] assms by (simp add: buf_pos_0)

lemma buf_check_below:
  assumes wf: "buf_wf B" and "unat pos < length (buf_contents B)"
  shows "BUFFER_CheckElement (Some B) pos = Some (1, Some (buf_contents B ! unat pos))"
  using buf_check_seek_0 [OF wf, of pos] assms buf_wfD [OF wf] length_buf_contents_less [OF wf]
    buf_pos_less [OF wf, of "unat pos"] buf_contents_nth [OF wf, of "unat pos"]
  by (auto simp: BUFFER_CheckElement_def mem_simps)

lemma buf_check_at:
  assumes wf: "buf_wf B" and "unat pos = length (buf_contents B)"
  shows "BUFFER_CheckElement (Some B) pos = Some (1, Some (buf_mem B ! unat (In B)))"
  using buf_check_seek_0 [OF wf, of pos] assms buf_wfD [OF wf] buf_pos_end [OF wf]
  by (auto simp: BUFFER_CheckElement_def mem_simps)

lemma buf_check_seek_stop: "buf_check_seek n B (In B) i = (In B, i)"
  by (cases n) simp_all

lemma buf_check_seek_add:
  "buf_check_seek (m + n) B out i =
     (let (out', i') = buf_check_seek m B out i in
      if i' = i + of_nat m then buf_check_seek n B out' i' else (out', i'))" if "m + n < 2 ^ 32"
  using that
proof (induction m arbitrary: out i)
  case (Suc m)
  show ?case
  proof (cases "In B = out")
    case True
    have "(i :: u32) \<noteq> i + of_nat (Suc m)"
    proof
      assume "i = i + of_nat (Suc m)"
      then have "(of_nat (Suc m) :: u32) = 0" by simp
      then have "unat (of_nat (Suc m) :: u32) = 0" by (simp only: unat_0)
      then show False using Suc.prems unat_of_nat_u32 [of "Suc m"] by simp
    qed
    then show ?thesis using True by (simp add: buf_check_seek_stop)
  next
    case False
    then show ?thesis using Suc by (simp add: Let_def add.assoc)
  qed
qed simp

lemma buf_check_above:
  assumes wf: "buf_wf B" and gt: "length (buf_contents B) < unat pos"
  shows "BUFFER_CheckElement (Some B) pos = Some (0, None)"
proof -
  let ?l = "length (buf_contents B)"
  obtain out where out: "buf_check_seek ?l B (Out B) 0 = (out, of_nat ?l)" "unat out = unat (In B)"
    using buf_check_seek_correct [OF wf, of 0 ?l "Out B"] wf buf_pos_end [OF wf] by (auto simp: buf_pos_0)
  then have "out = In B" by (simp add: word_unat_eq_iff)
  have sum: "unat pos = ?l + (unat pos - ?l)" using gt by simp
  have "buf_check_seek (unat pos) B (Out B) 0 = (In B, of_nat ?l)"
    using buf_check_seek_add [of ?l "unat pos - ?l" B "Out B" 0] out \<open>out = In B\<close> unat_u32_lt [of pos] gt
    by (simp add: buf_check_seek_stop)
  moreover have "(of_nat ?l :: u32) \<noteq> pos"
  proof
    assume "(of_nat ?l :: u32) = pos"
    then have "unat (of_nat ?l :: u32) = unat pos" by simp
    then show False using gt unat_u32_lt [of pos] unat_of_nat_u32 [of ?l] by simp
  qed
  ultimately show ?thesis by (simp add: BUFFER_CheckElement_def)
qed

section \<open>Properties\<close>

text \<open>A small initialised buffer that holds \<open>xs\<close>, for the witnesses.\<close>

definition buf_sample :: "u8 list \<Rightarrow> BUFFER_t" where
  "buf_sample xs = \<lparr>Size = 8, In = of_nat (length xs), Out = 0, Buffer = Some (xs @ replicate (8 - length xs) 0),
     Flags = BUFFER_INITIALIZED, StringDelimiter = 0x0A, UserParameters = 0\<rparr>"

declare buf_find_outer.simps [code]

lemma buf_sample_facts:
  assumes "length xs < 8"
  shows "buf_wf (buf_sample xs)" "buf_contents (buf_sample xs) = xs" "Size (buf_sample xs) = 8"
    "StringDelimiter (buf_sample xs) = 0x0A" "unat (Size (buf_sample xs)) \<le> 2 ^ 31"
  using assms
  by (simp_all add: buf_sample_def buf_wf_def buf_contents_def ring_view_def buf_mem_def word_nat unat_of_nat_u32)

lemma buf_sample_room: "length xs < 8 \<Longrightarrow> buf_room (buf_sample xs) = 7 - length xs"
  by (simp add: buf_room_def buf_sample_facts)

text \<open>C1. \<^verbatim>\<open>BUFFER_Write\<close> on an initialised buffer returns, stays inside the storage, accepts exactly as many
  bytes as there is room for (one less than \<^verbatim>\<open>Size\<close> in total), appends them to the unread bytes in
  order, keeps the invariant and never touches the read index.\<close>

theorem buffer_write_appends:
  assumes "buf_wf B" and "unat count \<le> length Data"
  shows "\<exists>n B'. BUFFER_Write (Some B) Data count = Some (n, Some B') \<and> buf_wf B' \<and>
     unat n = min (unat count) (unat (Size B) - 1 - length (buf_contents B)) \<and>
     buf_contents B' = buf_contents B @ take (unat n) Data \<and> Out B' = Out B \<and> Size B' = Size B"
  using BUFFER_Write_spec [OF assms] by (auto simp: buf_room_def)

theorem buffer_write_appends_witness:
  "\<exists>n B'. BUFFER_Write (Some (buf_sample [1, 2, 3, 4, 5])) [6, 7, 8] 3 = Some (n, Some B') \<and> buf_wf B' \<and>
     unat n = min (unat (3 :: u32)) (unat (Size (buf_sample [1, 2, 3, 4, 5])) - 1 - length (buf_contents (buf_sample [1, 2, 3, 4, 5]))) \<and>
     buf_contents B' = buf_contents (buf_sample [1, 2, 3, 4, 5]) @ take (unat n) [6, 7, 8] \<and>
     Out B' = Out (buf_sample [1, 2, 3, 4, 5]) \<and> Size B' = Size (buf_sample [1, 2, 3, 4, 5])"
proof -
  have "buf_wf (buf_sample [1, 2, 3, 4, 5])" by (simp add: buf_sample_facts)
  moreover have "unat (3 :: u32) \<le> length [6, 7, 8 :: u8]" by simp
  ultimately show ?thesis by (rule buffer_write_appends)
qed

text \<open>C2. \<^verbatim>\<open>BUFFER_Read\<close> on an initialised buffer returns, hands out the oldest unread bytes in order at the
  start of the caller's array and leaves the rest of the array alone, removes them from the buffer,
  keeps the invariant and never touches the write index or the storage.\<close>

theorem buffer_read_removes:
  assumes "buf_wf B" and "unat count \<le> length Data"
  shows "\<exists>n B'. BUFFER_Read (Some B) Data count =
       Some (n, take (unat n) (buf_contents B) @ drop (unat n) Data, Some B') \<and> buf_wf B' \<and>
     unat n = min (unat count) (length (buf_contents B)) \<and>
     buf_contents B' = drop (unat n) (buf_contents B) \<and> In B' = In B \<and> Buffer B' = Buffer B"
  using BUFFER_Read_spec [OF assms] by auto

theorem buffer_read_removes_witness:
  "\<exists>n B'. BUFFER_Read (Some (buf_sample [1, 2, 3])) [0, 0] 2 =
       Some (n, take (unat n) (buf_contents (buf_sample [1, 2, 3])) @ drop (unat n) [0, 0], Some B') \<and> buf_wf B' \<and>
     unat n = min (unat (2 :: u32)) (length (buf_contents (buf_sample [1, 2, 3]))) \<and>
     buf_contents B' = drop (unat n) (buf_contents (buf_sample [1, 2, 3])) \<and>
     In B' = In (buf_sample [1, 2, 3]) \<and> Buffer B' = Buffer (buf_sample [1, 2, 3])"
proof -
  have "buf_wf (buf_sample [1, 2, 3])" by (simp add: buf_sample_facts)
  moreover have "unat (2 :: u32) \<le> length [0, 0 :: u8]" by simp
  ultimately show ?thesis by (rule buffer_read_removes)
qed

text \<open>C3. Any interleaving of writes and reads on one buffer is a first-in first-out stream: the bytes
  handed out followed by the bytes still unread are the initially unread bytes followed by the bytes
  accepted, nothing is lost, duplicated or reordered, and the buffer never holds more than
  \<^verbatim>\<open>Size - 1\<close> bytes.\<close>

theorem buffer_stream_fifo:
  assumes "buf_wf B" and "list_all (fifo_op_ok 4294967295) ops"
    and "fifo_run buf_put buf_get B ops = (ins, outs, B')"
  shows "outs @ buf_contents B' = buf_contents B @ ins \<and> buf_wf B' \<and>
     length (buf_contents B') \<le> unat (Size B) - 1"
  using ring.run_stream [OF assms] ring.run_bounded [OF assms] by blast

theorem buffer_stream_fifo_witness:
  "\<exists>ins outs B'. fifo_run buf_put buf_get (buf_sample [1, 2]) [Put [3, 4, 5], Get 4, Put [6, 7, 8, 9], Get 1] = (ins, outs, B')
     \<and> outs @ buf_contents B' = buf_contents (buf_sample [1, 2]) @ ins \<and> buf_wf B' \<and>
     length (buf_contents B') \<le> unat (Size (buf_sample [1, 2])) - 1"
proof -
  obtain ins outs B' where
    r: "fifo_run buf_put buf_get (buf_sample [1, 2]) [Put [3, 4, 5], Get 4, Put [6, 7, 8, 9], Get 1] = (ins, outs, B')"
    by (metis prod_cases3)
  have wf: "buf_wf (buf_sample [1, 2])" by (simp add: buf_sample_facts)
  have ok: "list_all (fifo_op_ok 4294967295) [Put [3, 4, 5 :: u8], Get 4, Put [6, 7, 8, 9], Get 1]" by simp
  show ?thesis using buffer_stream_fifo [OF wf ok r] r by blast
qed

text \<open>C4. The block copies of the \<^verbatim>\<open>BUFFER_FAST\<close> build and the byte loop of the other build agree: for a
  count that fits, both return that count and leave the same indices, size and unread bytes.\<close>

theorem buffer_fast_copy_eq_loop:
  assumes "buf_wf B" and "unat count \<le> buf_room B" and "unat count \<le> length Data"
  shows "\<exists>B1 B2. buf_copy_in B Data count = Some (count, B1) \<and>
     buf_copy_in_slow (unat count) B Data 0 = Some (count, B2) \<and> buf_wf B1 \<and> buf_wf B2 \<and>
     In B1 = In B2 \<and> Out B1 = Out B2 \<and> Size B1 = Size B2 \<and> buf_contents B1 = buf_contents B2"
proof -
  obtain B1 where 1: "buf_copy_in B Data count = Some (count, B1)" "buf_wf B1" "Out B1 = Out B" "Size B1 = Size B"
    "buf_contents B1 = buf_contents B @ take (unat count) Data"
    using buf_copy_in_correct [OF assms] by blast
  obtain B2 where 2: "buf_copy_in_slow (unat count) B Data 0 = Some (0 + of_nat (unat count), B2)" "buf_wf B2"
    "Out B2 = Out B" "Size B2 = Size B" "buf_contents B2 = buf_contents B @ take (unat count) Data"
    using buf_copy_in_slow_correct [OF assms] by blast
  from 1 2 have "In B1 = In B2" by (intro buf_wf_eqI) simp_all
  with 1 2 show ?thesis by simp
qed

theorem buffer_fast_copy_eq_loop_witness:
  "\<exists>B1 B2. buf_copy_in (buf_sample [1, 2, 3]) [4, 5] 2 = Some (2, B1) \<and>
     buf_copy_in_slow (unat (2 :: u32)) (buf_sample [1, 2, 3]) [4, 5] 0 = Some (2, B2) \<and> buf_wf B1 \<and> buf_wf B2 \<and>
     In B1 = In B2 \<and> Out B1 = Out B2 \<and> Size B1 = Size B2 \<and> buf_contents B1 = buf_contents B2"
proof -
  have "buf_wf (buf_sample [1, 2, 3])" and "unat (2 :: u32) \<le> buf_room (buf_sample [1, 2, 3])"
    by (simp_all add: buf_sample_facts buf_sample_room)
  moreover have "unat (2 :: u32) \<le> length [4, 5 :: u8]" by simp
  ultimately show ?thesis by (rule buffer_fast_copy_eq_loop)
qed

text \<open>\<^verbatim>\<open>BUFFER_FindElement\<close> returns the number of unread bytes before the first occurrence of the element,
  and -1 exactly when the element is not among the unread bytes.\<close>

theorem buffer_find_element_first:
  assumes "buf_wf B" and "unat (Size B) \<le> 2 ^ 31"
  shows "BUFFER_FindElement (Some B) el =
     Some (if el \<in> set (buf_contents B) then int (length (takeWhile (\<lambda>v. v \<noteq> el) (buf_contents B))) else -1)"
  by (rule buf_FindElement_spec [OF assms])

theorem buffer_find_element_first_witness:
  "BUFFER_FindElement (Some (buf_sample [7, 8, 9])) 9 = Some 2"
proof -
  have "buf_wf (buf_sample [7, 8, 9])" and "unat (Size (buf_sample [7, 8, 9])) \<le> 2 ^ 31"
    by (simp_all add: buf_sample_facts)
  note buffer_find_element_first [OF this, of 9]
  moreover have "buf_contents (buf_sample [7, 8, 9]) = [7, 8, 9]" by (simp add: buf_sample_facts)
  ultimately show ?thesis by simp
qed

text \<open>\<^verbatim>\<open>BUFFER_ReadString\<close> with a delimiter among the unread bytes and a large enough user buffer returns
  the unread bytes up to and including the delimiter, followed by a zero, and removes exactly those.\<close>

theorem buffer_read_string_line:
  assumes wf: "buf_wf B" and del: "StringDelimiter B \<in> set (buf_contents B)" and small: "unat (Size B) \<le> 2 ^ 31"
    and p: "p = length (takeWhile (\<lambda>v. v \<noteq> StringDelimiter B) (buf_contents B))"
    and fits: "Suc p < unat buffsize" and len: "length buff = unat buffsize"
  shows "\<exists>B'. BUFFER_ReadString (Some B) buff buffsize =
       Some (of_nat (Suc p), take (Suc p) (buf_contents B) @ [0] @ drop (Suc (Suc p)) buff, Some B') \<and>
     buf_wf B' \<and> buf_contents B' = drop (Suc p) (buf_contents B)"
proof -
  have b1: "unat (buffsize - 1) = unat buffsize - 1" using fits by (simp add: unat_sub_ge word_nat)
  have bl: "unat buffsize < 2 ^ 32" using unat_u32_lt [of buffsize] by simp
  have "unat (BUFFER_GetFull (Some B)) \<noteq> 0" using del by (auto simp: unat_GetFull [OF wf])
  then have full: "BUFFER_GetFull (Some B) \<noteq> 0" by auto
  have pl: "p < length (buf_contents B)" using del p by (simp add: length_takeWhile_lt)
  obtain B' where r: "buf_read_string (unat (buffsize - 1)) B buff 0 0 =
      Some (0 + of_nat p, take (unat (0::u32)) buff @ take (Suc p) (buf_contents B) @ drop (unat (0::u32) + Suc p) buff, B')"
      "buf_wf B'" "buf_contents B' = drop (Suc p) (buf_contents B)"
    using buf_read_string_delim [OF wf del p, of "unat (buffsize - 1)" 0 buff 0] fits len b1 bl by fastforce
  have up: "unat (of_nat p :: u32) = p" "unat (of_nat p + 1 :: u32) = Suc p"
    using fits bl by (simp_all add: unat_of_nat_u32 unat_Suc_small)
  have ne: "(of_nat p :: u32) \<noteq> buffsize - 1" using up b1 fits by (metis Suc_lessD less_diff_conv nat_neq_iff Suc_eq_plus1)
  have "c_upd (take (Suc p) (buf_contents B) @ drop (Suc p) buff) (Suc p) 0 =
      Some (take (Suc p) (buf_contents B) @ [0] @ drop (Suc (Suc p)) buff)"
    using pl fits len by (simp add: mem_simps list_update_append drop_update_swap [symmetric] Cons_nth_drop_Suc [symmetric])
  with r ne up full buf_FindElement_spec [OF wf small, of "StringDelimiter B"] del show ?thesis
    by (simp add: BUFFER_ReadString_def add.commute)
qed

theorem buffer_read_string_line_witness:
  "\<exists>B'. BUFFER_ReadString (Some (buf_sample [72, 105, 10, 33])) [0, 0, 0, 0, 9] 5 =
       Some (of_nat (Suc 2), take (Suc 2) (buf_contents (buf_sample [72, 105, 10, 33])) @ [0] @ drop (Suc (Suc 2)) [0, 0, 0, 0, 9], Some B') \<and>
     buf_wf B' \<and> buf_contents B' = drop (Suc 2) (buf_contents (buf_sample [72, 105, 10, 33]))"
  by (rule buffer_read_string_line) (simp_all add: buf_sample_facts)

text \<open>Departure from the header's description: when the buffer is full, holds no delimiter and the user
  buffer is larger than the unread bytes, \<^verbatim>\<open>BUFFER_ReadString\<close> does not stop at the unread bytes. It
  repeats the last byte until the user buffer is full and reports \<open>buffsize - 1\<close> characters.\<close>

theorem buffer_read_string_full_repeats:
  assumes wf: "buf_wf B" and del: "StringDelimiter B \<notin> set (buf_contents B)" and small: "unat (Size B) \<le> 2 ^ 31"
    and full: "buf_room B = 0" and ne: "buf_contents B \<noteq> []"
    and large: "length (buf_contents B) < unat buffsize" and len: "length buff = unat buffsize"
  shows "\<exists>B'. BUFFER_ReadString (Some B) buff buffsize =
       Some (buffsize - 1, buf_contents B
          @ replicate (unat buffsize - 1 - length (buf_contents B)) (last (buf_contents B)) @ [0], Some B')"
proof -
  have b1: "unat (buffsize - 1) = unat buffsize - 1" using large by (simp add: unat_sub_ge word_nat)
  have bl: "unat buffsize < 2 ^ 32" using unat_u32_lt [of buffsize] by simp
  have f0: "BUFFER_GetFull (Some B) \<noteq> 0" using ne by (metis length_0_conv unat_0 unat_GetFull [OF wf])
  have fr: "BUFFER_GetFree (Some B) = 0" using full unat_GetFree [OF wf] by (simp add: word_unat_eq_iff)
  define n where "n = unat buffsize - 1"
  define zs where "zs = buf_contents B @ replicate (n - length (buf_contents B)) (last (buf_contents B))"
  have z: "take n (buf_contents B @ replicate n (last (0 # buf_contents B))) = zs"
    using ne large by (simp add: zs_def n_def)
  have zl: "length zs = n" using large by (simp add: zs_def n_def)
  obtain B' where r: "buf_read_string n B buff 0 0 = Some (0 + of_nat n,
      take (unat (0::u32)) buff @ zs @ drop (unat (0::u32) + n) buff, B')"
    using buf_read_string_nodelim [OF wf del, of 0 0 n buff] ne len large bl z by (auto simp: n_def)
  have nb: "(of_nat n :: u32) = buffsize - 1" unfolding n_def b1 [symmetric] by simp
  have "c_upd (zs @ drop n buff) n 0 = Some (zs @ [0])"
    using zl len large by (simp add: mem_simps list_update_append n_def) (simp add: drop_Cons' flip: Cons_nth_drop_Suc)
  moreover have b1n: "unat (buffsize - 1) = n" using b1 by (simp add: n_def)
  ultimately show ?thesis
    unfolding n_def [symmetric]
    using r f0 fr nb buf_FindElement_spec [OF wf small, of "StringDelimiter B"] del
    by (simp add: BUFFER_ReadString_def zs_def)
qed

theorem buffer_read_string_full_repeats_witness:
  "\<exists>B'. BUFFER_ReadString (Some (buf_sample [1, 2, 3, 4, 5, 6, 7])) (replicate 10 0) 10 =
       Some (10 - 1, buf_contents (buf_sample [1, 2, 3, 4, 5, 6, 7])
          @ replicate (unat (10 :: u32) - 1 - length (buf_contents (buf_sample [1, 2, 3, 4, 5, 6, 7])))
              (last (buf_contents (buf_sample [1, 2, 3, 4, 5, 6, 7]))) @ [0], Some B')"
  by (rule buffer_read_string_full_repeats) (simp_all add: buf_sample_facts buf_sample_room)

text \<open>\<^verbatim>\<open>BUFFER_CheckElement\<close> at a position below the number of unread bytes returns 1 and that byte; above
  that number it returns 0. At exactly the number of unread bytes, where the header promises 0, it also
  returns 1 and hands out the stale byte at the write index.\<close>

theorem buffer_check_element_positions:
  assumes wf: "buf_wf B"
  shows "(unat pos < length (buf_contents B) \<longrightarrow>
           BUFFER_CheckElement (Some B) pos = Some (1, Some (buf_contents B ! unat pos))) \<and>
     (unat pos = length (buf_contents B) \<longrightarrow>
           BUFFER_CheckElement (Some B) pos = Some (1, Some (buf_mem B ! unat (In B)))) \<and>
     (length (buf_contents B) < unat pos \<longrightarrow> BUFFER_CheckElement (Some B) pos = Some (0, None))"
  using buf_check_below [OF wf] buf_check_at [OF wf] buf_check_above [OF wf] by blast

theorem buffer_check_element_positions_witness:
  "BUFFER_CheckElement (Some (buf_sample [5, 6])) 1 = Some (1, Some 6) \<and>
   BUFFER_CheckElement (Some (buf_sample [5, 6])) 2 = Some (1, Some 0) \<and>
   BUFFER_CheckElement (Some (buf_sample [5, 6])) 3 = Some (0, None)"
proof -
  have wf: "buf_wf (buf_sample [5, 6])" and c: "buf_contents (buf_sample [5, 6]) = [5, 6]"
    by (simp_all add: buf_sample_facts)
  have m: "buf_mem (buf_sample [5, 6]) ! unat (In (buf_sample [5, 6])) = 0"
    by (simp add: buf_sample_def buf_mem_def)
  show ?thesis
    using buffer_check_element_positions [OF wf, of 1] buffer_check_element_positions [OF wf, of 2]
      buffer_check_element_positions [OF wf, of 3] by (simp add: c m)
qed

text \<open>When the allocation in \<^verbatim>\<open>BUFFER_Init\<close> fails, the buffer is left with size zero and a null pointer, and
  a later \<^verbatim>\<open>BUFFER_Write\<close> is not refused: \<^verbatim>\<open>BUFFER_GetFree\<close> reports 0xFFFFFFFF free bytes and the copy goes
  through the null pointer.\<close>

theorem buffer_write_after_failed_init:
  assumes "alloc sz = None" and "BUFFER_Init alloc sz None = (r, B)" and "count \<noteq> 0"
  shows "r = 1 \<and> BUFFER_GetFree (Some B) = 0xFFFFFFFF \<and> BUFFER_Write (Some B) Data count = None"
proof -
  have B: "r = 1" "Size B = 0" "In B = 0" "Out B = 0" "Buffer B = None"
    using assms(1,2) by (auto simp: BUFFER_Init_def)
  have f: "BUFFER_GetFree (Some B) = 0xFFFFFFFF" using B by (simp add: BUFFER_GetFree_def Let_def)
  have le: "\<not> (0xFFFFFFFF :: u32) < count" by (simp add: word_nat unat_u32_lt [of count, simplified] not_less) (use unat_u32_lt [of count] in linarith)
  have "BUFFER_Write (Some B) Data count = map_option (\<lambda>(n, B). (n, Some B)) (buf_copy_in (B\<lparr>In := 0\<rparr>) Data count)"
    using assms(3) B f le by (simp add: BUFFER_Write_def BUFFER_GetFree_def Let_def)
  also have "buf_copy_in (B\<lparr>In := 0\<rparr>) Data count = None"
    using B assms(3) word_neq_0_conv [of count] by (auto simp: buf_copy_in_def buf_mem_def c_memcpy_def Let_def bind_eq_None_conv word_nat)
  finally show ?thesis using B f by simp
qed

theorem buffer_write_after_failed_init_witness:
  "BUFFER_Write (Some (snd (BUFFER_Init (\<lambda>_. None) 16 None))) [1] 1 = None"
  using buffer_write_after_failed_init [of "\<lambda>_. None" 16 "fst (BUFFER_Init (\<lambda>_. None) 16 None)"
      "snd (BUFFER_Init (\<lambda>_. None) 16 None)" 1 "[1]"] by simp

text \<open>\<^verbatim>\<open>BUFFER_Find\<close> reports sequences that are not there and misses sequences that are: the flag \<open>found\<close>
  is never cleared after a partial match, and the scan does not go back after one. With \<open>acxb\<close> unread,
  searching \<open>ab\<close> reports position 2, where \<open>xb\<close> stands; with \<open>aaab\<close> unread, searching \<open>aab\<close>
  reports -1 although it is at position 1.\<close>

theorem buffer_find_wrong_answers:
  "buf_contents (buf_sample [97, 99, 120, 98]) = [97, 99, 120, 98] \<and>
   BUFFER_Find (Some (buf_sample [97, 99, 120, 98])) [97, 98] 2 = Some 2 \<and>
   buf_contents (buf_sample [97, 97, 97, 98]) = [97, 97, 97, 98] \<and>
   BUFFER_Find (Some (buf_sample [97, 97, 97, 98])) [97, 97, 98] 3 = Some (-1)"
proof (intro conjI)
  show "BUFFER_Find (Some (buf_sample [97, 99, 120, 98])) [97, 98] 2 = Some 2" by code_simp
  show "BUFFER_Find (Some (buf_sample [97, 97, 97, 98])) [97, 97, 98] 3 = Some (-1)" by code_simp
qed (simp_all add: buf_sample_facts)

end
