(* ===== verification/At45d.thy ===== *)
theory At45d
  imports Prelude
begin

text \<open>
  The serial DataFlash driver of \<^verbatim>\<open>src/data_Manager/at45d.c\<close>, with the device table of
  \<^verbatim>\<open>inc/data_Manager/at45d.h\<close>. The memory chip and the SSP peripheral are not code of the repository:
  they are the parameter \<open>dev\<close>, three functions on a chip state (exchange one byte, drive the
  select line low, drive it high). A driver call that polls the chip for ever is \<open>None\<close>.

  Contents: the configuration, one definition per function in the order of the file, each
  function as one bus transaction, and the memory image operations that the transactions amount to
  for a chip that behaves as its data sheet says (theory \<open>At45d_Chip\<close>).
\<close>

section \<open>Configuration\<close>

datatype at45d_device = AT45DB011 | AT45DB021 | AT45DB041 | AT45DB081 | AT45DB161 | AT45DB321 | AT45DB642

record at45d_cfg =
  AT45D_CFG_DEVICE :: at45d_device
  AT45D_CFG_PWR_OF_TWO_PAGE_SIZE :: bool

fun AT45D_PAGES :: "at45d_cfg \<Rightarrow> nat" where
  "AT45D_PAGES cfg = (case AT45D_CFG_DEVICE cfg of
      AT45DB011 \<Rightarrow> 512 | AT45DB021 \<Rightarrow> 1024 | AT45DB041 \<Rightarrow> 2048 | AT45DB081 \<Rightarrow> 4096
    | AT45DB161 \<Rightarrow> 4096 | AT45DB321 \<Rightarrow> 8192 | AT45DB642 \<Rightarrow> 8192)"

fun AT45D_PAGE_SIZE :: "at45d_cfg \<Rightarrow> nat" where
  "AT45D_PAGE_SIZE cfg =
     (let extra = (\<lambda>n. if AT45D_CFG_PWR_OF_TWO_PAGE_SIZE cfg then 0 else n)
      in case AT45D_CFG_DEVICE cfg of
           AT45DB161 \<Rightarrow> 512 + extra 16 | AT45DB321 \<Rightarrow> 512 + extra 16 | AT45DB642 \<Rightarrow> 1024 + extra 32
         | _ \<Rightarrow> 256 + extra 8)"

definition AT45D_ADR_MAX :: "at45d_cfg \<Rightarrow> nat" where
  "AT45D_ADR_MAX cfg = AT45D_PAGES cfg * AT45D_PAGE_SIZE cfg - 1"

text \<open>The device selected by \<^verbatim>\<open>at45d_cfg.h\<close>: AT45DB041 with the 264-byte page.\<close>

definition at45d_cfg_repo :: at45d_cfg where
  "at45d_cfg_repo = \<lparr>AT45D_CFG_DEVICE = AT45DB041, AT45D_CFG_PWR_OF_TWO_PAGE_SIZE = False\<rparr>"

definition VAL_IS_PWR_OF_TWO :: "nat \<Rightarrow> bool" where
  "VAL_IS_PWR_OF_TWO v = (and v (v - 1) = 0)"

section \<open>Bus and driver state\<close>

record 'c spi_bus =
  spi_xfer :: "'c \<Rightarrow> u8 \<Rightarrow> u8 \<times> 'c"
  spi_cs_lo :: "'c \<Rightarrow> 'c"
  spi_cs_hi :: "'c \<Rightarrow> 'c"

record 'c at45d =
  at45d_ready_flag :: bool
  chip :: 'c

definition cs_lo :: "'c spi_bus \<Rightarrow> 'c at45d \<Rightarrow> 'c at45d" where
  "cs_lo dev s = s\<lparr>chip := spi_cs_lo dev (chip s)\<rparr>"

definition cs_hi :: "'c spi_bus \<Rightarrow> 'c at45d \<Rightarrow> 'c at45d" where
  "cs_hi dev s = s\<lparr>chip := spi_cs_hi dev (chip s)\<rparr>"

section \<open>Operations\<close>

definition spi_RW_u8 :: "'c spi_bus \<Rightarrow> 'c at45d \<Rightarrow> u8 \<Rightarrow> u8 \<times> 'c at45d" where
  "spi_RW_u8 dev s b = (let (r, c) = spi_xfer dev (chip s) b in (r, s\<lparr>chip := c\<rparr>))"

text \<open>Sending the bytes of a list, keeping the answers; the answers of \<^verbatim>\<open>spi_wr_data\<close> are dropped.\<close>

fun spi_wr_data :: "'c spi_bus \<Rightarrow> 'c at45d \<Rightarrow> u8 list \<Rightarrow> 'c at45d" where
  "spi_wr_data dev s [] = s"
| "spi_wr_data dev s (b # bs) = (let (_, s) = spi_RW_u8 dev s b in spi_wr_data dev s bs)"

fun spi_rd_data :: "'c spi_bus \<Rightarrow> 'c at45d \<Rightarrow> nat \<Rightarrow> u8 list \<times> 'c at45d" where
  "spi_rd_data dev s 0 = ([], s)"
| "spi_rd_data dev s (Suc n) =
     (let (b, s) = spi_RW_u8 dev s 0; (bs, s) = spi_rd_data dev s n in (b # bs, s))"

text \<open>The three address bytes. The shifts are on \<^verbatim>\<open>int\<close> after promotion, so no bit is lost before the
  mask.\<close>

definition at45d_adr_bytes :: "at45d_cfg \<Rightarrow> u16 \<Rightarrow> u16 \<Rightarrow> u8 list" where
  "at45d_adr_bytes cfg page start_byte_in_page =
     (let p = unat page; b = unat start_byte_in_page in
      if VAL_IS_PWR_OF_TWO (AT45D_PAGE_SIZE cfg)
      then [of_nat (drop_bit 8 p), of_nat p, of_nat b]
      else [of_nat (drop_bit 7 p), of_nat (or (push_bit 1 p) (drop_bit 8 b)), of_nat b])"

definition at45d_tx_adr :: "at45d_cfg \<Rightarrow> 'c spi_bus \<Rightarrow> 'c at45d \<Rightarrow> u16 \<Rightarrow> u16 \<Rightarrow> 'c at45d" where
  "at45d_tx_adr cfg dev s page start_byte_in_page =
     spi_wr_data dev s (at45d_adr_bytes cfg page start_byte_in_page)"

definition at45d_power_down :: "'c spi_bus \<Rightarrow> 'c at45d \<Rightarrow> 'c at45d" where
  "at45d_power_down dev s = cs_hi dev (snd (spi_RW_u8 dev (cs_lo dev s) 0xB9))"

definition at45d_resume_from_power_down :: "'c spi_bus \<Rightarrow> 'c at45d \<Rightarrow> 'c at45d" where
  "at45d_resume_from_power_down dev s = cs_hi dev (snd (spi_RW_u8 dev (cs_lo dev s) 0xAB))"

definition at45d_get_status :: "'c spi_bus \<Rightarrow> 'c at45d \<Rightarrow> u8 \<times> 'c at45d" where
  "at45d_get_status dev s =
     (let s = cs_lo dev s;
          (_, s) = spi_RW_u8 dev s 0xD7;
          (data, s) = spi_RW_u8 dev s 0;
          s = cs_hi dev s
      in (data, s))"

definition at45d_ready :: "'c spi_bus \<Rightarrow> 'c at45d \<Rightarrow> bool \<times> 'c at45d" where
  "at45d_ready dev s =
     (if at45d_ready_flag s then (True, s)
      else let (data, s) = at45d_get_status dev s
           in if bit data 7 then (True, s\<lparr>at45d_ready_flag := True\<rparr>) else (False, s))"

text \<open>\<^verbatim>\<open>while(!at45d_ready());\<close>\<close>

partial_function (option) at45d_wait :: "'c spi_bus \<Rightarrow> 'c at45d \<Rightarrow> 'c at45d option" where
  "at45d_wait dev s = (let (r, s) = at45d_ready dev s in if r then Some s else at45d_wait dev s)"

declare at45d_wait.simps [code]

text \<open>The result of \<^verbatim>\<open>at45d_rd\<close> is the byte count and the bytes stored in the caller's buffer.\<close>

definition at45d_rd ::
  "at45d_cfg \<Rightarrow> 'c spi_bus \<Rightarrow> 'c at45d \<Rightarrow> u32 \<Rightarrow> u16 \<Rightarrow> (u16 \<times> u8 list \<times> 'c at45d) option" where
  "at45d_rd cfg dev s address nr_of_bytes =
     (if unat address > AT45D_ADR_MAX cfg then Some (0, [], s)
      else do {
        let max_bytes_to_read = AT45D_ADR_MAX cfg - unat address + 1;
        let nr_of_bytes = (if unat nr_of_bytes > max_bytes_to_read then of_nat max_bytes_to_read else nr_of_bytes);
        s \<leftarrow> at45d_wait dev s;
        let s = cs_lo dev s;
        let (_, s) = spi_RW_u8 dev s 0xE8;
        let page = (if VAL_IS_PWR_OF_TWO (AT45D_PAGE_SIZE cfg) then of_nat (drop_bit 8 (unat address))
                    else of_nat (unat address div AT45D_PAGE_SIZE cfg));
        let start_byte_in_page =
              (if VAL_IS_PWR_OF_TWO (AT45D_PAGE_SIZE cfg) then of_nat (unat address mod 256)
               else of_nat (unat address mod AT45D_PAGE_SIZE cfg));
        let s = at45d_tx_adr cfg dev s page start_byte_in_page;
        let s = spi_wr_data dev s [0, 0, 0, 0];
        let (buffer, s) = spi_rd_data dev s (unat nr_of_bytes);
        let s = cs_hi dev s;
        Some (nr_of_bytes, buffer, s)
      })"

definition at45d_rd_page ::
  "at45d_cfg \<Rightarrow> 'c spi_bus \<Rightarrow> 'c at45d \<Rightarrow> u16 \<Rightarrow> (u8 list \<times> 'c at45d) option" where
  "at45d_rd_page cfg dev s page =
     do {
       s \<leftarrow> at45d_wait dev s;
       let s = cs_lo dev s;
       let (_, s) = spi_RW_u8 dev s 0xD2;
       let s = at45d_tx_adr cfg dev s page 0;
       let s = spi_wr_data dev s [0, 0, 0, 0];
       let (buffer, s) = spi_rd_data dev s (AT45D_PAGE_SIZE cfg);
       Some (buffer, cs_hi dev s)
     }"

definition at45d_rd_page_offset ::
  "at45d_cfg \<Rightarrow> 'c spi_bus \<Rightarrow> 'c at45d \<Rightarrow> u16 \<Rightarrow> u16 \<Rightarrow> u16 \<Rightarrow> (u8 list \<times> 'c at45d) option" where
  "at45d_rd_page_offset cfg dev s page start_byte_in_page nr_of_bytes =
     do {
       s \<leftarrow> at45d_wait dev s;
       let s = cs_lo dev s;
       let (_, s) = spi_RW_u8 dev s 0xE8;
       let s = at45d_tx_adr cfg dev s page start_byte_in_page;
       let s = spi_wr_data dev s [0, 0, 0, 0];
       let (buffer, s) = spi_rd_data dev s (unat nr_of_bytes);
       Some (buffer, cs_hi dev s)
     }"

text \<open>The byte count of \<^verbatim>\<open>at45d_wr_page\<close> is \<^verbatim>\<open>(u8_t)AT45D_PAGE_SIZE\<close>. \<open>None\<close> also when the caller's
  buffer is too short.\<close>

definition at45d_wr_page :: "at45d_cfg \<Rightarrow> 'c spi_bus \<Rightarrow> 'c at45d \<Rightarrow> u8 list \<Rightarrow> u16 \<Rightarrow> 'c at45d option" where
  "at45d_wr_page cfg dev s buffer page =
     do {
       s \<leftarrow> at45d_wait dev s;
       let s = cs_lo dev s;
       let (_, s) = spi_RW_u8 dev s 0x82;
       let s = at45d_tx_adr cfg dev s page 0;
       let n = unat (of_nat (AT45D_PAGE_SIZE cfg) :: u8);
       c_assert (n \<le> length buffer);
       let s = spi_wr_data dev s (take n buffer);
       let s = cs_hi dev s;
       Some (s\<lparr>at45d_ready_flag := False\<rparr>)
     }"

text \<open>The bytes that fill the chip's buffer: the data in place, 0xFF elsewhere. \<open>i\<close> runs from the
  first argument to the page size; \<open>bs\<close> is what is left of the caller's data.\<close>

fun at45d_fill :: "nat \<Rightarrow> nat \<Rightarrow> nat \<Rightarrow> nat \<Rightarrow> u8 list \<Rightarrow> u8 list option" where
  "at45d_fill 0 i start n bs = Some []"
| "at45d_fill (Suc k) i start n bs =
     (if i \<ge> start \<and> i < start + n
      then (case bs of [] \<Rightarrow> None | b # bs \<Rightarrow> map_option (Cons b) (at45d_fill k (Suc i) start n bs))
      else map_option (Cons 0xFF) (at45d_fill k (Suc i) start n bs))"

definition at45d_wr_page_offset ::
  "at45d_cfg \<Rightarrow> 'c spi_bus \<Rightarrow> 'c at45d \<Rightarrow> u8 list \<Rightarrow> u16 \<Rightarrow> u16 \<Rightarrow> u16 \<Rightarrow> 'c at45d option" where
  "at45d_wr_page_offset cfg dev s buffer page start_byte_in_page nr_of_bytes =
     do {
       s \<leftarrow> at45d_wait dev s;
       let s = cs_lo dev s;
       let (_, s) = spi_RW_u8 dev s 0x84;
       let s = spi_wr_data dev s [0, 0, 0];
       bs \<leftarrow> at45d_fill (AT45D_PAGE_SIZE cfg) 0 (unat start_byte_in_page) (unat nr_of_bytes) buffer;
       let s = spi_wr_data dev s bs;
       let s = cs_hi dev s;
       let s = s\<lparr>at45d_ready_flag := False\<rparr>;
       s \<leftarrow> at45d_wait dev s;
       let s = cs_lo dev s;
       let (_, s) = spi_RW_u8 dev s 0x83;
       let s = at45d_tx_adr cfg dev s page 0;
       let s = cs_hi dev s;
       Some (s\<lparr>at45d_ready_flag := False\<rparr>)
     }"

definition at45d_erase_page :: "at45d_cfg \<Rightarrow> 'c spi_bus \<Rightarrow> 'c at45d \<Rightarrow> u16 \<Rightarrow> 'c at45d option" where
  "at45d_erase_page cfg dev s page =
     do {
       s \<leftarrow> at45d_wait dev s;
       let s = cs_lo dev s;
       let (_, s) = spi_RW_u8 dev s 0x81;
       let s = at45d_tx_adr cfg dev s page 0;
       let s = cs_hi dev s;
       Some (s\<lparr>at45d_ready_flag := False\<rparr>)
     }"

definition at45d_page_size_is_pwr_of_two :: "'c spi_bus \<Rightarrow> 'c at45d \<Rightarrow> bool \<times> 'c at45d" where
  "at45d_page_size_is_pwr_of_two dev s = (let (data, s) = at45d_get_status dev s in (bit data 0, s))"

definition at45d_set_page_size_to_pwr_of_two :: "'c spi_bus \<Rightarrow> 'c at45d \<Rightarrow> (bool \<times> 'c at45d) option" where
  "at45d_set_page_size_to_pwr_of_two dev s =
     (let (r, s) = at45d_page_size_is_pwr_of_two dev s in
      if r then Some (False, s)
      else do {
        s \<leftarrow> at45d_wait dev s;
        let s = cs_lo dev s;
        let s = spi_wr_data dev s [0x3D, 0x2A, 0x80, 0xA6];
        let s = cs_hi dev s;
        s \<leftarrow> at45d_wait dev s;
        Some (True, s)
      })"

end
