(* ===== verification/At45d_Chip.thy ===== *)
theory At45d_Chip
  imports At45d
begin

text \<open>
  The DataFlash driver against its chip. Every driver function is rewritten as one or two bus
  transactions; the data sheet's account of the commands is the locale \<open>dataflash\<close>, whose lemmas say
  that the driver functions terminate and act on the memory image as \<open>img_rd\<close>, \<open>img_wr_erase\<close> and
  \<open>img_erase\<close> do. The laws are discharged for a byte-level simulation of the chip (\<open>sim_dev\<close>), which
  the witnesses run on.
\<close>

section \<open>Bus transactions\<close>

text \<open>The chip state after the bytes \<open>bs\<close>, and its answers to them.\<close>

fun spi_st :: "'c spi_bus \<Rightarrow> 'c \<Rightarrow> u8 list \<Rightarrow> 'c" where
  "spi_st dev c [] = c"
| "spi_st dev c (b # bs) = spi_st dev (snd (spi_xfer dev c b)) bs"

fun spi_rs :: "'c spi_bus \<Rightarrow> 'c \<Rightarrow> u8 list \<Rightarrow> u8 list" where
  "spi_rs dev c [] = []"
| "spi_rs dev c (b # bs) = fst (spi_xfer dev c b) # spi_rs dev (snd (spi_xfer dev c b)) bs"

definition transact :: "'c spi_bus \<Rightarrow> 'c \<Rightarrow> u8 list \<Rightarrow> u8 list \<times> 'c" where
  "transact dev c bs = (spi_rs dev (spi_cs_lo dev c) bs, spi_cs_hi dev (spi_st dev (spi_cs_lo dev c) bs))"

lemma spi_st_fold: "spi_st dev (spi_st dev c as) bs = spi_st dev c (as @ bs)"
  by (induction as arbitrary: c) auto

lemma length_spi_rs [simp]: "length (spi_rs dev c bs) = length bs"
  by (induction bs arbitrary: c) auto

lemma spi_rs_append: "spi_rs dev c (as @ bs) = spi_rs dev c as @ spi_rs dev (spi_st dev c as) bs"
  by (induction as arbitrary: c) auto

lemma spi_rs_fold: "spi_rs dev (spi_st dev c as) bs = drop (length as) (spi_rs dev c (as @ bs))"
  by (simp add: spi_rs_append)

lemma spi_RW_u8_send:
  "spi_RW_u8 dev s b = (hd (spi_rs dev (chip s) [b]), s\<lparr>chip := spi_st dev (chip s) [b]\<rparr>)"
  by (simp add: spi_RW_u8_def split: prod.splits)

lemma spi_wr_data_send: "spi_wr_data dev s bs = s\<lparr>chip := spi_st dev (chip s) bs\<rparr>"
  by (induction bs arbitrary: s) (auto simp: spi_RW_u8_def Let_def split: prod.splits)

lemma spi_rd_data_send:
  "spi_rd_data dev s n = (spi_rs dev (chip s) (replicate n 0), s\<lparr>chip := spi_st dev (chip s) (replicate n 0)\<rparr>)"
  by (induction n arbitrary: s) (auto simp: spi_RW_u8_def Let_def split: prod.splits)

lemmas as_transaction = spi_RW_u8_send spi_wr_data_send spi_rd_data_send at45d_tx_adr_def cs_lo_def cs_hi_def
  transact_def Let_def spi_st_fold spi_rs_fold

declare spi_st.simps(2) [simp del] spi_rs.simps(2) [simp del]

lemma length_adr_bytes [simp]: "length (at45d_adr_bytes cfg p b) = 3"
  by (simp add: at45d_adr_bytes_def Let_def)

lemma get_status_transact:
  "at45d_get_status dev s = (let (rs, c) = transact dev (chip s) [0xD7, 0] in (rs ! 1, s\<lparr>chip := c\<rparr>))"
  by (simp add: at45d_get_status_def as_transaction hd_drop_conv_nth)

lemma rd_page_offset_transact:
  "at45d_rd_page_offset cfg dev s p b n =
     do { s \<leftarrow> at45d_wait dev s;
          let (rs, c) = transact dev (chip s) (0xE8 # at45d_adr_bytes cfg p b @ [0, 0, 0, 0] @ replicate (unat n) 0);
          Some (drop 8 rs, s\<lparr>chip := c\<rparr>) }"
  by (simp add: at45d_rd_page_offset_def as_transaction)

lemma erase_page_transact:
  "at45d_erase_page cfg dev s p =
     do { s \<leftarrow> at45d_wait dev s;
          let (rs, c) = transact dev (chip s) (0x81 # at45d_adr_bytes cfg p 0);
          Some (s\<lparr>chip := c, at45d_ready_flag := False\<rparr>) }"
  by (simp add: at45d_erase_page_def as_transaction)

lemma wr_page_offset_transact:
  "at45d_wr_page_offset cfg dev s bs p b n =
     do { s \<leftarrow> at45d_wait dev s;
          fill \<leftarrow> at45d_fill (AT45D_PAGE_SIZE cfg) 0 (unat b) (unat n) bs;
          let (rs, c) = transact dev (chip s) (0x84 # [0, 0, 0] @ fill);
          s \<leftarrow> at45d_wait dev (s\<lparr>chip := c, at45d_ready_flag := False\<rparr>);
          let (rs, c) = transact dev (chip s) (0x83 # at45d_adr_bytes cfg p 0);
          Some (s\<lparr>chip := c, at45d_ready_flag := False\<rparr>) }"
  by (simp add: at45d_wr_page_offset_def as_transaction)

lemma wr_page_transact:
  "at45d_wr_page cfg dev s bs p =
     do { s \<leftarrow> at45d_wait dev s;
          let n = unat (of_nat (AT45D_PAGE_SIZE cfg) :: u8);
          c_assert (n \<le> length bs);
          let (rs, c) = transact dev (chip s) (0x82 # at45d_adr_bytes cfg p 0 @ take n bs);
          Some (s\<lparr>chip := c, at45d_ready_flag := False\<rparr>) }"
  by (simp add: at45d_wr_page_def as_transaction)

lemma rd_page_transact:
  "at45d_rd_page cfg dev s p =
     do { s \<leftarrow> at45d_wait dev s;
          let (rs, c) = transact dev (chip s) (0xD2 # at45d_adr_bytes cfg p 0 @ [0, 0, 0, 0] @ replicate (AT45D_PAGE_SIZE cfg) 0);
          Some (drop 8 rs, s\<lparr>chip := c\<rparr>) }"
  by (simp add: at45d_rd_page_def as_transaction)

section \<open>Memory image\<close>

type_synonym image = "nat \<Rightarrow> u8 list"

definition img_ok :: "at45d_cfg \<Rightarrow> image \<Rightarrow> bool" where
  "img_ok cfg img \<longleftrightarrow> (\<forall>p. length (img p) = AT45D_PAGE_SIZE cfg)"

definition img_rd :: "at45d_cfg \<Rightarrow> image \<Rightarrow> nat \<Rightarrow> nat \<Rightarrow> nat \<Rightarrow> u8 list" where
  "img_rd cfg img p b n =
     map (\<lambda>k. let a = (p * AT45D_PAGE_SIZE cfg + b + k) mod (AT45D_PAGES cfg * AT45D_PAGE_SIZE cfg)
              in img (a div AT45D_PAGE_SIZE cfg) ! (a mod AT45D_PAGE_SIZE cfg)) [0..<n]"

definition img_fill :: "at45d_cfg \<Rightarrow> nat \<Rightarrow> u8 list \<Rightarrow> u8 list" where
  "img_fill cfg b bs =
     take (AT45D_PAGE_SIZE cfg) (replicate b 0xFF @ bs @ replicate (AT45D_PAGE_SIZE cfg) 0xFF)"

definition img_wr_erase :: "at45d_cfg \<Rightarrow> image \<Rightarrow> nat \<Rightarrow> nat \<Rightarrow> u8 list \<Rightarrow> image" where
  "img_wr_erase cfg img p b bs = img(p := img_fill cfg b bs)"

definition img_erase :: "at45d_cfg \<Rightarrow> image \<Rightarrow> nat \<Rightarrow> image" where
  "img_erase cfg img p = img(p := replicate (AT45D_PAGE_SIZE cfg) 0xFF)"

lemma at45d_fill_eq:
  "start + n \<le> i \<Longrightarrow> at45d_fill k i start n bs = Some (replicate k 0xFF)"
  by (induction k arbitrary: i) auto

lemma at45d_fill_mid:
  "i \<ge> start \<Longrightarrow> i \<le> start + n \<Longrightarrow> start + n - i \<le> length bs \<Longrightarrow>
   at45d_fill k i start n bs = Some (take k (take (start + n - i) bs @ replicate k 0xFF))"
proof (induction k arbitrary: i bs)
  case (Suc k)
  show ?case
  proof (cases "i = start + n")
    case True
    then show ?thesis using at45d_fill_eq [of start n i "Suc k" bs] by simp
  next
    case False
    then obtain b bs' where bs: "bs = b # bs'" using Suc.prems by (cases bs) auto
    have "start + n - i = Suc (start + n - Suc i)" using False Suc.prems by simp
    then show ?thesis using Suc.IH [of "Suc i" bs'] False Suc.prems bs
      by (simp add: take_append min_def del: replicate_Suc)
  qed
qed simp

lemma at45d_fill_front:
  "i \<le> start \<Longrightarrow> n \<le> length bs \<Longrightarrow>
   at45d_fill k i start n bs = Some (take k (replicate (start - i) 0xFF @ take n bs @ replicate k 0xFF))"
proof (induction k arbitrary: i)
  case (Suc k)
  show ?case
  proof (cases "i = start")
    case True
    then show ?thesis using at45d_fill_mid [of start i n bs "Suc k"] Suc.prems by simp
  next
    case False
    then have "start - i = Suc (start - Suc i)" using Suc.prems by simp
    then show ?thesis using Suc.IH [of "Suc i"] False Suc.prems by (simp add: min_def del: replicate_Suc) (simp add: min_def)
  qed
qed simp


lemma at45d_fill_page:
  "n \<le> length bs \<Longrightarrow> at45d_fill (AT45D_PAGE_SIZE cfg) 0 b n bs = Some (img_fill cfg b (take n bs))"
  by (simp add: at45d_fill_front img_fill_def)

lemma length_img_fill [simp]: "length (img_fill cfg b bs) = AT45D_PAGE_SIZE cfg"
  by (simp add: img_fill_def)

section \<open>Address format\<close>

text \<open>The data sheet's reading of the three address bytes: a 24-bit number whose low bits, as many
  as the page size needs, are the byte in the page and whose other bits are the page.\<close>

definition adr_bits :: "at45d_cfg \<Rightarrow> nat" where
  "adr_bits cfg = (if AT45D_PAGE_SIZE cfg \<le> 256 then 8 else if AT45D_PAGE_SIZE cfg \<le> 512 then 9
                   else if AT45D_PAGE_SIZE cfg \<le> 1024 then 10 else 11)"

fun adr_dec :: "at45d_cfg \<Rightarrow> u8 list \<Rightarrow> nat \<times> nat" where
  "adr_dec cfg [a1, a2, a3] =
     (let a = unat a1 * 65536 + unat a2 * 256 + unat a3 in (a div 2 ^ adr_bits cfg mod AT45D_PAGES cfg, a mod 2 ^ adr_bits cfg))"
| "adr_dec cfg _ = (0, 0)"


lemma or_low_bit: "c < 2 \<Longrightarrow> or (2 * p) c = 2 * p + (c :: nat)"
  by (auto simp: less_2_cases_iff or_Suc_0_eq)

lemma unat_u8_of_nat: "unat (of_nat n :: u8) = n mod 256"
  by (simp add: unsigned_of_nat take_bit_eq_mod)

lemma unat_u8_ucast: "unat (ucast (w :: u16) :: u8) = unat w mod 256"
  by (simp add: unsigned_ucast_eq take_bit_eq_mod)

lemma small_page_cfg:
  assumes "AT45D_PAGE_SIZE cfg \<le> 264"
  shows "AT45D_PAGE_SIZE cfg = (if AT45D_CFG_PWR_OF_TWO_PAGE_SIZE cfg then 256 else 264) \<and> AT45D_PAGES cfg dvd 4096"
  using assms by (cases "AT45D_CFG_DEVICE cfg") (auto simp: Let_def AT45D_PAGE_SIZE.simps AT45D_PAGES.simps split: if_splits)

declare AT45D_PAGE_SIZE.simps [simp del] AT45D_PAGES.simps [simp del]

lemma pwr_of_two_small_page [simp]:
  "VAL_IS_PWR_OF_TWO 256" "\<not> VAL_IS_PWR_OF_TWO 264"
  by (simp_all add: VAL_IS_PWR_OF_TWO_def)

lemma adr_split_264:
  fixes p b :: nat
  assumes "p < 4096" "b < 512"
  shows "(p div 128 mod 256) * 65536 + ((2 * p + b div 256) mod 256) * 256 + b mod 256 = p * 512 + b"
proof -
  have "(2 * p + b div 256) div 256 = p div 128" using assms by linarith
  moreover have "p div 128 < 256" using assms by linarith
  moreover have "p div 128 mod 256 = p div 128" using assms by simp
  ultimately show ?thesis
    using div_mult_mod_eq [of "2 * p + b div 256" 256] div_mult_mod_eq [of b 256] by linarith
qed

lemma adr_split_256:
  fixes p b :: nat
  assumes "p < 65536" "b < 256"
  shows "(p div 2 ^ 8 mod 256) * 65536 + (p mod 256) * 256 + b mod 256 = p * 256 + b"
proof -
  have "p div 256 mod 256 = p div 256" "b mod 256 = b" using assms by simp_all
  moreover have "p div 256 * 65536 + p mod 256 * 256 = (p div 256 * 256 + p mod 256) * 256"
    by (simp only: algebra_simps)
  ultimately show ?thesis by (simp only: div_mult_mod_eq) simp
qed

lemma adr_roundtrip:
  assumes "AT45D_PAGE_SIZE cfg \<le> 264" "unat page < AT45D_PAGES cfg" "unat b < AT45D_PAGE_SIZE cfg"
  shows "adr_dec cfg (at45d_adr_bytes cfg page b) = (unat page, unat b)"
proof -
  have pages: "AT45D_PAGES cfg \<le> 4096"
    using small_page_cfg [OF assms(1)] by (auto dest: dvd_imp_le)
  show ?thesis
  proof (cases "AT45D_CFG_PWR_OF_TWO_PAGE_SIZE cfg")
    case True
    then have sz: "AT45D_PAGE_SIZE cfg = 256" using small_page_cfg [OF assms(1)] by simp
    have "adr_dec cfg (at45d_adr_bytes cfg page b) =
        ((unat page * 256 + unat b) div 256 mod AT45D_PAGES cfg, (unat page * 256 + unat b) mod 256)"
    proof -
      have bits: "adr_bits cfg = 8" by (simp add: adr_bits_def sz)
      have bytes: "at45d_adr_bytes cfg page b = [of_nat (unat page div 2 ^ 8), of_nat (unat page), of_nat (unat b)]"
        by (simp only: at45d_adr_bytes_def Let_def sz pwr_of_two_small_page if_True drop_bit_eq_div)
      show ?thesis
        unfolding bytes adr_dec.simps bits Let_def unat_u8_of_nat adr_split_256 [OF unat_u16_lt [of page] assms(3) [unfolded sz]]
        by simp
    qed
    then show ?thesis using assms(2,3) sz by simp
  next
    case False
    then have sz: "AT45D_PAGE_SIZE cfg = 264" using small_page_cfg [OF assms(1)] by simp
    have bits: "adr_bits cfg = 9" by (simp add: adr_bits_def sz)
    have small: "unat b div 256 < 2" "unat page < 4096" "unat b < 512" using assms(2,3) sz pages by linarith+
    have bytes: "at45d_adr_bytes cfg page b =
        [of_nat (unat page div 128), of_nat (2 * unat page + unat b div 256), of_nat (unat b)]"
      using small(1) by (simp add: at45d_adr_bytes_def Let_def sz drop_bit_eq_div push_bit_eq_mult or_low_bit mult.commute [of _ 2]
            del: of_nat_add of_nat_mult)
    have "adr_dec cfg (at45d_adr_bytes cfg page b) =
        ((unat page * 512 + unat b) div 512 mod AT45D_PAGES cfg, (unat page * 512 + unat b) mod 512)"
      unfolding bytes adr_dec.simps bits Let_def unat_u8_of_nat adr_split_264 [OF small(2,3)] by simp
    then show ?thesis using assms(2) small(3) by simp
  qed
qed


lemma adr_page:
  assumes "AT45D_PAGE_SIZE cfg \<le> 264" "unat page < AT45D_PAGES cfg"
  shows "adr_dec cfg (at45d_adr_bytes cfg page 0) = (unat page, 0)"
proof -
  have "0 < AT45D_PAGE_SIZE cfg" using small_page_cfg [OF assms(1)] by simp
  then show ?thesis using adr_roundtrip [OF assms, of 0] by simp
qed

lemma AT45D_PAGES_le: "AT45D_PAGES cfg \<le> 8192" "0 < AT45D_PAGES cfg"
  by (cases "AT45D_CFG_DEVICE cfg"; simp add: AT45D_PAGES.simps)+

lemma AT45D_PAGE_SIZE_pos: "0 < AT45D_PAGE_SIZE cfg"
  by (cases "AT45D_CFG_DEVICE cfg") (simp_all add: AT45D_PAGE_SIZE.simps Let_def)

lemma linear_address:
  assumes "AT45D_PAGE_SIZE cfg \<le> 264" "unat a \<le> AT45D_ADR_MAX cfg"
  shows "unat (of_nat (unat a div AT45D_PAGE_SIZE cfg) :: u16) = unat a div AT45D_PAGE_SIZE cfg"
    and "unat (of_nat (unat a mod AT45D_PAGE_SIZE cfg) :: u16) = unat a mod AT45D_PAGE_SIZE cfg"
    and "unat a div AT45D_PAGE_SIZE cfg < AT45D_PAGES cfg"
    and "unat a mod AT45D_PAGE_SIZE cfg < AT45D_PAGE_SIZE cfg"
proof -
  have "0 < AT45D_PAGES cfg * AT45D_PAGE_SIZE cfg" using AT45D_PAGES_le(2) AT45D_PAGE_SIZE_pos by simp
  then have "unat a < AT45D_PAGES cfg * AT45D_PAGE_SIZE cfg" using assms(2) unfolding AT45D_ADR_MAX_def by linarith
  then show d: "unat a div AT45D_PAGE_SIZE cfg < AT45D_PAGES cfg" by (simp add: less_mult_imp_div_less)
  show m: "unat a mod AT45D_PAGE_SIZE cfg < AT45D_PAGE_SIZE cfg" using AT45D_PAGE_SIZE_pos by simp
  show "unat (of_nat (unat a div AT45D_PAGE_SIZE cfg) :: u16) = unat a div AT45D_PAGE_SIZE cfg"
    using d AT45D_PAGES_le(1) [of cfg] by (simp add: unsigned_of_nat take_bit_eq_mod)
  show "unat (of_nat (unat a mod AT45D_PAGE_SIZE cfg) :: u16) = unat a mod AT45D_PAGE_SIZE cfg"
    using m assms(1) by (simp add: unsigned_of_nat take_bit_eq_mod)
qed

lemma img_rd_linear:
  "img_rd cfg img (a div AT45D_PAGE_SIZE cfg) (a mod AT45D_PAGE_SIZE cfg) n = img_rd cfg img 0 a n"
  by (simp add: img_rd_def)

lemma rd_transact:
  assumes "AT45D_PAGE_SIZE cfg \<le> 264"
  shows "at45d_rd cfg dev s a n =
     (if unat a > AT45D_ADR_MAX cfg then Some (0, [], s)
      else do { let m = AT45D_ADR_MAX cfg - unat a + 1;
                let n = (if unat n > m then of_nat m else n);
                s \<leftarrow> at45d_wait dev s;
                let (rs, c) = transact dev (chip s)
                  (0xE8 # at45d_adr_bytes cfg (of_nat (unat a div AT45D_PAGE_SIZE cfg)) (of_nat (unat a mod AT45D_PAGE_SIZE cfg))
                    @ [0, 0, 0, 0] @ replicate (unat n) 0);
                Some (n, drop 8 rs, s\<lparr>chip := c\<rparr>) })"
  using small_page_cfg [OF assms]
  by (cases "AT45D_CFG_PWR_OF_TWO_PAGE_SIZE cfg") (simp_all add: at45d_rd_def as_transaction drop_bit_eq_div)

section \<open>The contract of the chip\<close>

text \<open>The driver's flag is right: when it says ready, the chip is.\<close>

definition drv_ok :: "('c \<Rightarrow> bool) \<Rightarrow> ('c \<Rightarrow> nat) \<Rightarrow> 'c at45d \<Rightarrow> bool" where
  "drv_ok ok busy s \<longleftrightarrow> ok (chip s) \<and> (at45d_ready_flag s \<longrightarrow> busy (chip s) = 0)"

text \<open>What the driver relies on, as the AT45DB data sheet states it, one law per command the driver
  sends: \<open>mem\<close> is the main memory, \<open>sram\<close> the buffer the driver uses, \<open>busy\<close> the number of status
  reads for which the chip still reports busy (finite, since every internal operation ends), \<open>ok\<close> the
  states with the select line high.\<close>

locale dataflash =
  fixes cfg :: at45d_cfg and dev :: "'c spi_bus"
    and ok :: "'c \<Rightarrow> bool" and mem :: "'c \<Rightarrow> image" and sram :: "'c \<Rightarrow> u8 list" and busy :: "'c \<Rightarrow> nat"
  assumes status_law: "\<lbrakk>ok c; transact dev c [0xD7, 0] = (rs, c')\<rbrakk> \<Longrightarrow>
      ok c' \<and> mem c' = mem c \<and> sram c' = sram c \<and> busy c' = busy c - 1 \<and> (bit (rs ! 1) 7 \<longleftrightarrow> busy c = 0)"
    and array_read_law: "\<lbrakk>ok c; busy c = 0; length a = 3; length x = 4;
      transact dev c (0xE8 # a @ x @ replicate n 0) = (rs, c')\<rbrakk> \<Longrightarrow>
      ok c' \<and> mem c' = mem c \<and> busy c' = 0 \<and> drop 8 rs = img_rd cfg (mem c) (fst (adr_dec cfg a)) (snd (adr_dec cfg a)) n"
    and page_read_law: "\<lbrakk>ok c; busy c = 0; length a = 3; length x = 4; snd (adr_dec cfg a) = 0; n \<le> AT45D_PAGE_SIZE cfg;
      transact dev c (0xD2 # a @ x @ replicate n 0) = (rs, c')\<rbrakk> \<Longrightarrow>
      ok c' \<and> mem c' = mem c \<and> busy c' = 0 \<and> drop 8 rs = take n (mem c (fst (adr_dec cfg a)))"
    and buffer_write_law: "\<lbrakk>ok c; busy c = 0; length bs = AT45D_PAGE_SIZE cfg;
      transact dev c (0x84 # [0, 0, 0] @ bs) = (rs, c')\<rbrakk> \<Longrightarrow> ok c' \<and> mem c' = mem c \<and> sram c' = bs"
    and buffer_program_law: "\<lbrakk>ok c; busy c = 0; length a = 3; transact dev c (0x83 # a) = (rs, c')\<rbrakk> \<Longrightarrow>
      ok c' \<and> mem c' = (mem c)(fst (adr_dec cfg a) := sram c)"
    and through_buffer_law: "\<lbrakk>ok c; busy c = 0; length a = 3; snd (adr_dec cfg a) = 0; length bs \<le> AT45D_PAGE_SIZE cfg;
      transact dev c (0x82 # a @ bs) = (rs, c')\<rbrakk> \<Longrightarrow>
      ok c' \<and> mem c' = (mem c)(fst (adr_dec cfg a) := bs @ drop (length bs) (sram c))"
    and erase_law: "\<lbrakk>ok c; busy c = 0; length a = 3; transact dev c (0x81 # a) = (rs, c')\<rbrakk> \<Longrightarrow>
      ok c' \<and> mem c' = img_erase cfg (mem c) (fst (adr_dec cfg a))"
begin

lemma ready_step:
  assumes "drv_ok ok busy s" "at45d_ready dev s = (r, s')"
  shows "ok (chip s') \<and> mem (chip s') = mem (chip s) \<and> sram (chip s') = sram (chip s) \<and>
         at45d_ready_flag s' = r \<and> (r \<longleftrightarrow> busy (chip s) = 0) \<and> busy (chip s') = busy (chip s) - 1"
proof (cases "at45d_ready_flag s")
  case True
  then show ?thesis using assms by (auto simp: at45d_ready_def drv_ok_def)
next
  case False
  obtain rs c where t: "transact dev (chip s) [0xD7, 0] = (rs, c)" by fastforce
  show ?thesis using assms False status_law [OF _ t]
    by (auto simp: at45d_ready_def drv_ok_def get_status_transact t split: if_splits)
qed

lemma wait_ready:
  assumes "drv_ok ok busy s"
  shows "\<exists>s'. at45d_wait dev s = Some s' \<and> ok (chip s') \<and> mem (chip s') = mem (chip s) \<and>
              sram (chip s') = sram (chip s) \<and> busy (chip s') = 0 \<and> at45d_ready_flag s'"
  using assms
proof (induction "busy (chip s)" arbitrary: s)
  case 0
  obtain r s' where r: "at45d_ready dev s = (r, s')" by fastforce
  show ?case using 0 ready_step [OF 0(2) r] r by (auto simp: at45d_wait.simps [of dev s])
next
  case (Suc n)
  obtain r s' where r: "at45d_ready dev s = (r, s')" by fastforce
  note st = ready_step [OF Suc.prems r]
  have "\<not> r" "n = busy (chip s')" "drv_ok ok busy s'" using st Suc.hyps(2) by (auto simp: drv_ok_def)
  then show ?case using Suc.hyps(1) [of s'] st r by (simp add: at45d_wait.simps [of dev s])
qed

lemma rd_page_offset_image:
  assumes "drv_ok ok busy s" "AT45D_PAGE_SIZE cfg \<le> 264" "unat p < AT45D_PAGES cfg" "unat b < AT45D_PAGE_SIZE cfg"
  shows "\<exists>s'. at45d_rd_page_offset cfg dev s p b n = Some (img_rd cfg (mem (chip s)) (unat p) (unat b) (unat n), s') \<and>
              drv_ok ok busy s' \<and> mem (chip s') = mem (chip s)"
proof -
  obtain s1 where s1: "at45d_wait dev s = Some s1" "ok (chip s1)" "mem (chip s1) = mem (chip s)" "busy (chip s1) = 0"
    using wait_ready [OF assms(1)] by blast
  obtain rs c where t: "transact dev (chip s1) (0xE8 # at45d_adr_bytes cfg p b @ [0, 0, 0, 0] @ replicate (unat n) 0) = (rs, c)"
    by fastforce
  show ?thesis using s1 array_read_law [OF s1(2,4) _ _ t] adr_roundtrip [OF assms(2-4)] t
    by (auto simp: rd_page_offset_transact drv_ok_def)
qed

lemma erase_page_image:
  assumes "drv_ok ok busy s" "AT45D_PAGE_SIZE cfg \<le> 264" "unat p < AT45D_PAGES cfg"
  shows "\<exists>s'. at45d_erase_page cfg dev s p = Some s' \<and> drv_ok ok busy s' \<and>
              mem (chip s') = img_erase cfg (mem (chip s)) (unat p)"
proof -
  obtain s1 where s1: "at45d_wait dev s = Some s1" "ok (chip s1)" "mem (chip s1) = mem (chip s)" "busy (chip s1) = 0"
    using wait_ready [OF assms(1)] by blast
  obtain rs c where t: "transact dev (chip s1) (0x81 # at45d_adr_bytes cfg p 0) = (rs, c)" by fastforce
  show ?thesis using s1 erase_law [OF s1(2,4) _ t] adr_page [OF assms(2,3)] t
    by (auto simp: erase_page_transact drv_ok_def)
qed

lemma wr_page_offset_image:
  assumes "drv_ok ok busy s" "AT45D_PAGE_SIZE cfg \<le> 264" "unat p < AT45D_PAGES cfg" "unat n \<le> length bs"
  shows "\<exists>s'. at45d_wr_page_offset cfg dev s bs p b n = Some s' \<and> drv_ok ok busy s' \<and>
              mem (chip s') = img_wr_erase cfg (mem (chip s)) (unat p) (unat b) (take (unat n) bs)"
proof -
  let ?fill = "img_fill cfg (unat b) (take (unat n) bs)"
  obtain s1 where s1: "at45d_wait dev s = Some s1" "ok (chip s1)" "mem (chip s1) = mem (chip s)" "busy (chip s1) = 0"
    using wait_ready [OF assms(1)] by blast
  obtain rs c where t: "transact dev (chip s1) (0x84 # [0, 0, 0] @ ?fill) = (rs, c)" by fastforce
  let ?s2 = "s1\<lparr>chip := c, at45d_ready_flag := False\<rparr>"
  have c: "ok c" "mem c = mem (chip s)" "sram c = ?fill"
    using buffer_write_law [OF s1(2,4) _ t] s1(3) by auto
  then have "drv_ok ok busy ?s2" by (simp add: drv_ok_def)
  then obtain s3 where s3: "at45d_wait dev ?s2 = Some s3" "ok (chip s3)" "mem (chip s3) = mem (chip s)"
      "sram (chip s3) = ?fill" "busy (chip s3) = 0"
    using wait_ready [of ?s2] c by auto
  obtain rs' c' where t': "transact dev (chip s3) (0x83 # at45d_adr_bytes cfg p 0) = (rs', c')" by fastforce
  show ?thesis using s1 s3 buffer_program_law [OF s3(2,5) _ t'] adr_page [OF assms(2,3)] t t'
    by (auto simp: wr_page_offset_transact at45d_fill_page [OF assms(4)] drv_ok_def img_wr_erase_def)
qed

lemma wr_page_image:
  assumes "drv_ok ok busy s" "AT45D_PAGE_SIZE cfg \<le> 264" "unat p < AT45D_PAGES cfg"
    "k = AT45D_PAGE_SIZE cfg mod 256" "k \<le> length bs"
  shows "\<exists>s'. at45d_wr_page cfg dev s bs p = Some s' \<and> drv_ok ok busy s' \<and>
              mem (chip s') = (mem (chip s))(unat p := take k bs @ drop k (sram (chip s)))"
proof -
  obtain s1 where s1: "at45d_wait dev s = Some s1" "ok (chip s1)" "mem (chip s1) = mem (chip s)" "busy (chip s1) = 0"
      "sram (chip s1) = sram (chip s)"
    using wait_ready [OF assms(1)] by blast
  obtain rs c where t: "transact dev (chip s1) (0x82 # at45d_adr_bytes cfg p 0 @ take k bs) = (rs, c)" by fastforce
  have "k \<le> AT45D_PAGE_SIZE cfg" using assms(4) by simp
  then have "length (take k bs) \<le> AT45D_PAGE_SIZE cfg" by simp
  with through_buffer_law [OF s1(2,4) _ _ _ t] adr_page [OF assms(2,3)]
  have "ok c \<and> mem c = (mem (chip s1))(unat p := take k bs @ drop (length (take k bs)) (sram (chip s1)))" by simp
  then show ?thesis using s1 t assms(4,5)
    by (auto simp: wr_page_transact unat_u8_of_nat drv_ok_def)
qed

lemma rd_page_image:
  assumes "drv_ok ok busy s" "AT45D_PAGE_SIZE cfg \<le> 264" "unat p < AT45D_PAGES cfg"
    "length (mem (chip s) (unat p)) = AT45D_PAGE_SIZE cfg"
  shows "\<exists>s'. at45d_rd_page cfg dev s p = Some (mem (chip s) (unat p), s') \<and> drv_ok ok busy s' \<and> mem (chip s') = mem (chip s)"
proof -
  obtain s1 where s1: "at45d_wait dev s = Some s1" "ok (chip s1)" "mem (chip s1) = mem (chip s)" "busy (chip s1) = 0"
    using wait_ready [OF assms(1)] by blast
  obtain rs c where t: "transact dev (chip s1) (0xD2 # at45d_adr_bytes cfg p 0 @ [0, 0, 0, 0] @ replicate (AT45D_PAGE_SIZE cfg) 0) = (rs, c)"
    by fastforce
  show ?thesis using s1 page_read_law [OF s1(2,4) _ _ _ _ t] adr_page [OF assms(2,3)] t assms(4)
    by (auto simp: rd_page_transact drv_ok_def)
qed

lemma rd_image:
  assumes "drv_ok ok busy s" "AT45D_PAGE_SIZE cfg \<le> 264" "unat a \<le> AT45D_ADR_MAX cfg"
    "k = min (unat n) (AT45D_ADR_MAX cfg - unat a + 1)"
  shows "\<exists>s'. at45d_rd cfg dev s a n = Some (of_nat k, img_rd cfg (mem (chip s)) 0 (unat a) k, s') \<and>
              drv_ok ok busy s' \<and> mem (chip s') = mem (chip s)"
proof -
  obtain s1 where s1: "at45d_wait dev s = Some s1" "ok (chip s1)" "mem (chip s1) = mem (chip s)" "busy (chip s1) = 0"
    using wait_ready [OF assms(1)] by blast
  let ?p = "of_nat (unat a div AT45D_PAGE_SIZE cfg) :: u16" and ?b = "of_nat (unat a mod AT45D_PAGE_SIZE cfg) :: u16"
  obtain rs c where t: "transact dev (chip s1) (0xE8 # at45d_adr_bytes cfg ?p ?b @ [0, 0, 0, 0] @ replicate k 0) = (rs, c)"
    by fastforce
  have pb: "unat ?p = unat a div AT45D_PAGE_SIZE cfg" "unat ?b = unat a mod AT45D_PAGE_SIZE cfg"
    "unat ?p < AT45D_PAGES cfg" "unat ?b < AT45D_PAGE_SIZE cfg"
    using linear_address [OF assms(2,3)] by auto
  have k: "(if AT45D_ADR_MAX cfg - unat a + 1 < unat n then of_nat (AT45D_ADR_MAX cfg - unat a + 1) else n) = (of_nat k :: u16)"
    "unat (of_nat k :: u16) = k"
    using assms(4) unat_u16_lt [of n] by (auto simp: min_def unsigned_of_nat take_bit_eq_mod)
  show ?thesis using assms(3) s1 array_read_law [OF s1(2,4) _ _ t] adr_roundtrip [OF assms(2) pb(3,4)] t k pb
    by (auto simp: rd_transact [OF assms(2)] drv_ok_def img_rd_linear Let_def)
qed

end


section \<open>A simulated chip\<close>

text \<open>A byte-level simulation of the part of the chip that the driver uses: it collects the bytes of
  a transaction, answers a status read and the two reads on the fly, and executes the command when the
  select line goes high. A program or erase keeps it busy for \<open>2\<close> status reads.\<close>

record sim =
  sim_mem :: image
  sim_sram :: "u8 list"
  sim_busy :: nat
  sim_rx :: "u8 list"

definition sim_answer :: "at45d_cfg \<Rightarrow> sim \<Rightarrow> u8" where
  "sim_answer cfg c =
     (case sim_rx c of [] \<Rightarrow> 0 | cmd # xs \<Rightarrow>
        let a = adr_dec cfg (take 3 xs); k = length xs - 7 in
        if cmd = 0xD7 then (if sim_busy c = 0 then 0x9C else 0x1C)
        else if length xs < 7 then 0
        else if cmd = 0xE8 then
          (let i = (fst a * AT45D_PAGE_SIZE cfg + snd a + k) mod (AT45D_PAGES cfg * AT45D_PAGE_SIZE cfg)
           in sim_mem c (i div AT45D_PAGE_SIZE cfg) ! (i mod AT45D_PAGE_SIZE cfg))
        else if cmd = 0xD2 then sim_mem c (fst a) ! ((snd a + k) mod AT45D_PAGE_SIZE cfg) else 0)"

definition sim_exec :: "at45d_cfg \<Rightarrow> sim \<Rightarrow> sim" where
  "sim_exec cfg c =
     (case sim_rx c of [] \<Rightarrow> c | cmd # xs \<Rightarrow>
        let p = fst (adr_dec cfg (take 3 xs)); bs = drop 3 xs;
            sram = bs @ drop (length bs) (sim_sram c) in
        if cmd = 0xD7 then c\<lparr>sim_busy := sim_busy c - 1\<rparr>
        else if cmd = 0x84 then c\<lparr>sim_sram := sram\<rparr>
        else if cmd = 0x83 then c\<lparr>sim_mem := (sim_mem c)(p := sim_sram c), sim_busy := 2\<rparr>
        else if cmd = 0x82 then c\<lparr>sim_sram := sram, sim_mem := (sim_mem c)(p := sram), sim_busy := 2\<rparr>
        else if cmd = 0x81 then c\<lparr>sim_mem := img_erase cfg (sim_mem c) p, sim_busy := 2\<rparr>
        else c)"

definition sim_dev :: "at45d_cfg \<Rightarrow> sim spi_bus" where
  "sim_dev cfg = \<lparr>spi_xfer = (\<lambda>c b. (sim_answer cfg c, c\<lparr>sim_rx := sim_rx c @ [b]\<rparr>)),
     spi_cs_lo = (\<lambda>c. c\<lparr>sim_rx := []\<rparr>), spi_cs_hi = (\<lambda>c. (sim_exec cfg c)\<lparr>sim_rx := []\<rparr>)\<rparr>"

definition sim_ok :: "at45d_cfg \<Rightarrow> sim \<Rightarrow> bool" where
  "sim_ok cfg c \<longleftrightarrow> img_ok cfg (sim_mem c) \<and> length (sim_sram c) = AT45D_PAGE_SIZE cfg"

lemma spi_st_sim: "spi_st (sim_dev cfg) c bs = c\<lparr>sim_rx := sim_rx c @ bs\<rparr>"
  by (induction bs arbitrary: c) (auto simp: spi_st.simps(2) sim_dev_def)

lemma spi_rs_sim:
  "spi_rs (sim_dev cfg) c bs = map (\<lambda>i. sim_answer cfg (c\<lparr>sim_rx := sim_rx c @ take i bs\<rparr>)) [0..<length bs]"
proof (induction bs arbitrary: c)
  case (Cons b bs)
  then show ?case
    by (simp add: spi_rs.simps(2) sim_dev_def upt_conv_Cons map_Suc_upt [symmetric] comp_def del: upt_Suc)
qed simp

lemma transact_sim:
  "transact (sim_dev cfg) c bs =
     (map (\<lambda>i. sim_answer cfg (c\<lparr>sim_rx := take i bs\<rparr>)) [0..<length bs], (sim_exec cfg (c\<lparr>sim_rx := bs\<rparr>))\<lparr>sim_rx := []\<rparr>)"
  by (simp add: transact_def spi_st_sim spi_rs_sim) (simp add: sim_dev_def)


lemma sim_read_answers:
  assumes "length a = 3" "length x = 4"
  shows "drop 8 (map (\<lambda>i. sim_answer cfg (c\<lparr>sim_rx := take i (cmd # a @ x @ replicate n 0)\<rparr>)) [0..<8 + n]) =
         map (\<lambda>k. sim_answer cfg (c\<lparr>sim_rx := cmd # a @ x @ replicate k 0\<rparr>)) [0..<n]"
  using assms by (auto simp: drop_map intro!: nth_equalityI simp: take_Cons')

interpretation sim_chip: dataflash cfg "sim_dev cfg" "sim_ok cfg" sim_mem sim_sram sim_busy
proof
  fix c c' :: sim and rs
  assume "sim_ok cfg c" "transact (sim_dev cfg) c [0xD7, 0] = (rs, c')"
  then show "sim_ok cfg c' \<and> sim_mem c' = sim_mem c \<and> sim_sram c' = sim_sram c \<and> sim_busy c' = sim_busy c - 1 \<and>
      (bit (rs ! 1) 7 \<longleftrightarrow> sim_busy c = 0)"
    by (auto simp: transact_sim sim_ok_def sim_exec_def sim_answer_def Let_def split: if_splits)
next
  fix c c' :: sim and rs and a x :: "u8 list" and n
  assume "sim_ok cfg c" "sim_busy c = 0" and len: "length a = 3" "length x = 4"
    and t: "transact (sim_dev cfg) c (0xE8 # a @ x @ replicate n 0) = (rs, c')"
  have "drop 8 rs = img_rd cfg (sim_mem c) (fst (adr_dec cfg a)) (snd (adr_dec cfg a)) n"
    using t len sim_read_answers [OF len, of cfg "0xE8" n c]
    by (auto simp: transact_sim img_rd_def sim_answer_def Let_def)
  then show "sim_ok cfg c' \<and> sim_mem c' = sim_mem c \<and> sim_busy c' = 0 \<and>
      drop 8 rs = img_rd cfg (sim_mem c) (fst (adr_dec cfg a)) (snd (adr_dec cfg a)) n"
    using t \<open>sim_ok cfg c\<close> \<open>sim_busy c = 0\<close> by (auto simp: transact_sim sim_ok_def sim_exec_def Let_def)
next
  fix c c' :: sim and rs and a x :: "u8 list" and n
  assume ok: "sim_ok cfg c" "sim_busy c = 0" and len: "length a = 3" "length x = 4"
    and a0: "snd (adr_dec cfg a) = 0" "n \<le> AT45D_PAGE_SIZE cfg"
    and t: "transact (sim_dev cfg) c (0xD2 # a @ x @ replicate n 0) = (rs, c')"
  have "length (sim_mem c p) = AT45D_PAGE_SIZE cfg" for p using ok by (auto simp: sim_ok_def img_ok_def)
  then have "drop 8 rs = take n (sim_mem c (fst (adr_dec cfg a)))"
    using t len a0 sim_read_answers [OF len, of cfg "0xD2" n c]
    by (auto simp: transact_sim sim_answer_def Let_def intro!: nth_equalityI)
  then show "sim_ok cfg c' \<and> sim_mem c' = sim_mem c \<and> sim_busy c' = 0 \<and>
      drop 8 rs = take n (sim_mem c (fst (adr_dec cfg a)))"
    using t ok by (auto simp: transact_sim sim_ok_def sim_exec_def Let_def)
next
  fix c c' :: sim and rs and bs :: "u8 list"
  assume "sim_ok cfg c" "sim_busy c = 0" "length bs = AT45D_PAGE_SIZE cfg"
    "transact (sim_dev cfg) c (0x84 # [0, 0, 0] @ bs) = (rs, c')"
  then show "sim_ok cfg c' \<and> sim_mem c' = sim_mem c \<and> sim_sram c' = bs"
    by (auto simp: transact_sim sim_ok_def sim_exec_def Let_def)
next
  fix c c' :: sim and rs and a :: "u8 list"
  assume "sim_ok cfg c" "sim_busy c = 0" "length a = 3" "transact (sim_dev cfg) c (0x83 # a) = (rs, c')"
  then show "sim_ok cfg c' \<and> sim_mem c' = (sim_mem c)(fst (adr_dec cfg a) := sim_sram c)"
    by (auto simp: transact_sim sim_ok_def img_ok_def sim_exec_def Let_def)
next
  fix c c' :: sim and rs and a bs :: "u8 list"
  assume "sim_ok cfg c" "sim_busy c = 0" "length a = 3" "snd (adr_dec cfg a) = 0" "length bs \<le> AT45D_PAGE_SIZE cfg"
    "transact (sim_dev cfg) c (0x82 # a @ bs) = (rs, c')"
  then show "sim_ok cfg c' \<and> sim_mem c' = (sim_mem c)(fst (adr_dec cfg a) := bs @ drop (length bs) (sim_sram c))"
    by (auto simp: transact_sim sim_ok_def img_ok_def sim_exec_def Let_def)
next
  fix c c' :: sim and rs and a :: "u8 list"
  assume "sim_ok cfg c" "sim_busy c = 0" "length a = 3" "transact (sim_dev cfg) c (0x81 # a) = (rs, c')"
  then show "sim_ok cfg c' \<and> sim_mem c' = img_erase cfg (sim_mem c) (fst (adr_dec cfg a))"
    by (auto simp: transact_sim sim_ok_def img_ok_def img_erase_def sim_exec_def Let_def)
qed


section \<open>Properties\<close>

lemma img_rd_in_page:
  assumes "img_ok cfg img" "p < AT45D_PAGES cfg" "b + n \<le> AT45D_PAGE_SIZE cfg"
  shows "img_rd cfg img p b n = take n (drop b (img p))"
proof (rule nth_equalityI)
  show "length (img_rd cfg img p b n) = length (take n (drop b (img p)))"
    using assms by (simp add: img_rd_def img_ok_def)
next
  fix i assume "i < length (img_rd cfg img p b n)"
  then have i: "i < n" by (simp add: img_rd_def)
  have lt: "b + i < AT45D_PAGE_SIZE cfg" using i assms(3) by simp
  have "p * AT45D_PAGE_SIZE cfg + (b + i) < Suc p * AT45D_PAGE_SIZE cfg" using lt by simp
  also have "\<dots> \<le> AT45D_PAGES cfg * AT45D_PAGE_SIZE cfg" using assms(2) by (intro mult_right_mono) auto
  finally have "(p * AT45D_PAGE_SIZE cfg + b + i) mod (AT45D_PAGES cfg * AT45D_PAGE_SIZE cfg) = (b + i) + p * AT45D_PAGE_SIZE cfg"
    by (simp add: ac_simps)
  then show "img_rd cfg img p b n ! i = take n (drop b (img p)) ! i"
    using i lt assms(1) by (simp add: img_rd_def img_ok_def Let_def)
qed

lemma img_fill_nth:
  assumes "b + length bs \<le> AT45D_PAGE_SIZE cfg" "i < AT45D_PAGE_SIZE cfg"
  shows "img_fill cfg b bs ! i = (if b \<le> i \<and> i < b + length bs then bs ! (i - b) else 0xFF)"
  using assms by (auto simp: img_fill_def nth_append)

lemma img_ok_wr_erase: "img_ok cfg img \<Longrightarrow> img_ok cfg (img_wr_erase cfg img p b bs)"
  by (simp add: img_ok_def img_wr_erase_def)

text \<open>The state after power-up of a blank simulated chip, before any status read.\<close>

definition sim_blank :: "sim at45d" where
  "sim_blank = \<lparr>at45d_ready_flag = False,
     chip = \<lparr>sim_mem = (\<lambda>p. replicate 264 0xFF), sim_sram = replicate 264 0, sim_busy = 3, sim_rx = []\<rparr>\<rparr>"

lemma page_size_repo [simp]: "AT45D_PAGE_SIZE at45d_cfg_repo = 264" "AT45D_PAGES at45d_cfg_repo = 2048"
  "AT45D_ADR_MAX at45d_cfg_repo = 540671"
  by (simp_all add: AT45D_PAGE_SIZE.simps AT45D_PAGES.simps AT45D_ADR_MAX_def at45d_cfg_repo_def)

lemma sim_blank_ok: "drv_ok (sim_ok at45d_cfg_repo) sim_busy sim_blank" "img_ok at45d_cfg_repo (sim_mem (chip sim_blank))"
  by (simp_all add: drv_ok_def sim_ok_def img_ok_def sim_blank_def)

text \<open>Address format. For the page sizes the driver supports, the three address bytes that
  \<^verbatim>\<open>at45d_tx_adr\<close> sends are read by the chip as exactly the page and the byte in the page that the
  caller passed.\<close>

theorem at45d_adr_roundtrip:
  assumes "AT45D_PAGE_SIZE cfg \<le> 264" "unat page < AT45D_PAGES cfg" "unat start < AT45D_PAGE_SIZE cfg"
  shows "adr_dec cfg (at45d_adr_bytes cfg page start) = (unat page, unat start)"
  by (rule adr_roundtrip [OF assms])

theorem at45d_adr_roundtrip_witness:
  "adr_dec at45d_cfg_repo (at45d_adr_bytes at45d_cfg_repo 1000 260) = (1000, 260)"
  using at45d_adr_roundtrip [of at45d_cfg_repo 1000 260] by simp

text \<open>C5. Programming a page. On a chip that keeps the data sheet's contract \<^verbatim>\<open>at45d_wr_page_offset\<close>
  returns (its two polling loops end) and replaces the whole page: the given range holds the caller's
  bytes, every other byte of that page holds 0xFF whatever it held before, and no other page changes.
  So a second write to another range of the same page destroys the first.\<close>

theorem at45d_wr_page_offset_programs:
  assumes "dataflash cfg dev ok mem sram busy" "drv_ok ok busy s" "AT45D_PAGE_SIZE cfg \<le> 264"
    "unat page < AT45D_PAGES cfg" "unat n \<le> length buffer" "unat start + unat n \<le> AT45D_PAGE_SIZE cfg"
  shows "\<exists>s'. at45d_wr_page_offset cfg dev s buffer page start n = Some s' \<and> drv_ok ok busy s' \<and>
     length (mem (chip s') (unat page)) = AT45D_PAGE_SIZE cfg \<and>
     (\<forall>i<AT45D_PAGE_SIZE cfg. mem (chip s') (unat page) ! i =
        (if unat start \<le> i \<and> i < unat start + unat n then buffer ! (i - unat start) else 0xFF)) \<and>
     (\<forall>q. q \<noteq> unat page \<longrightarrow> mem (chip s') q = mem (chip s) q)"
proof -
  let ?m = "mem (chip s)" and ?bs = "take (unat n) buffer"
  have len: "length ?bs = unat n" using assms(5) by simp
  obtain s' where s': "at45d_wr_page_offset cfg dev s buffer page start n = Some s'" "drv_ok ok busy s'"
      "mem (chip s') = img_wr_erase cfg ?m (unat page) (unat start) ?bs"
    using dataflash.wr_page_offset_image [OF assms(1-5)] by blast
  then show ?thesis
    using assms(6) len by (auto simp: img_wr_erase_def img_fill_nth)
qed

theorem at45d_wr_page_offset_programs_witness:
  "\<exists>s'. at45d_wr_page_offset at45d_cfg_repo (sim_dev at45d_cfg_repo) sim_blank [1, 2, 3] 7 100 2 = Some s' \<and>
     sim_mem (chip s') 7 ! 100 = 1 \<and> sim_mem (chip s') 7 ! 102 = 0xFF"
proof -
  have "unat (2 :: u16) \<le> length [1, 2, 3 :: u8]" by simp
  from at45d_wr_page_offset_programs [OF sim_chip.dataflash_axioms sim_blank_ok(1) _ _ this, of 7 100]
  show ?thesis by force
qed

text \<open>C6. Read back. What \<^verbatim>\<open>at45d_wr_page_offset\<close> wrote, \<^verbatim>\<open>at45d_rd_page_offset\<close> with the same page,
  offset and length returns, and reading leaves the memory as it was.\<close>

theorem at45d_write_read:
  assumes "dataflash cfg dev ok mem sram busy" "drv_ok ok busy s" "AT45D_PAGE_SIZE cfg \<le> 264"
    "img_ok cfg (mem (chip s))" "unat page < AT45D_PAGES cfg" "0 < unat n" "unat n \<le> length buffer"
    "unat start + unat n \<le> AT45D_PAGE_SIZE cfg"
  shows "\<exists>s1 s2. at45d_wr_page_offset cfg dev s buffer page start n = Some s1 \<and>
     at45d_rd_page_offset cfg dev s1 page start n = Some (take (unat n) buffer, s2) \<and>
     drv_ok ok busy s2 \<and> mem (chip s2) = mem (chip s1)"
proof -
  let ?bs = "take (unat n) buffer"
  have len: "length ?bs = unat n" using assms(7) by simp
  obtain s1 where s1: "at45d_wr_page_offset cfg dev s buffer page start n = Some s1" "drv_ok ok busy s1"
      "mem (chip s1) = img_wr_erase cfg (mem (chip s)) (unat page) (unat start) ?bs"
    using dataflash.wr_page_offset_image [OF assms(1-3,5,7)] by blast
  have "unat start < AT45D_PAGE_SIZE cfg" using assms(6,8) by linarith
  from dataflash.rd_page_offset_image [OF assms(1) s1(2) assms(3,5) this]
  obtain s2 where s2: "drv_ok ok busy s2" "mem (chip s2) = mem (chip s1)"
      "at45d_rd_page_offset cfg dev s1 page start n = Some (img_rd cfg (mem (chip s1)) (unat page) (unat start) (unat n), s2)"
    by blast
  have "img_ok cfg (mem (chip s1))" using assms(4) s1(3) by (simp add: img_ok_wr_erase)
  from img_rd_in_page [OF this assms(5,8)]
  have "img_rd cfg (mem (chip s1)) (unat page) (unat start) (unat n) = ?bs"
    using assms(8) len by (simp add: s1(3) img_wr_erase_def img_fill_def)
  then show ?thesis using s1 s2 by auto
qed

theorem at45d_write_read_witness:
  "\<exists>s1 s2. at45d_wr_page_offset at45d_cfg_repo (sim_dev at45d_cfg_repo) sim_blank [1, 2, 3] 7 100 2 = Some s1 \<and>
     at45d_rd_page_offset at45d_cfg_repo (sim_dev at45d_cfg_repo) s1 7 100 2 = Some ([1, 2], s2)"
proof -
  have "unat (2 :: u16) \<le> length [1, 2, 3 :: u8]" by simp
  from at45d_write_read [OF sim_chip.dataflash_axioms sim_blank_ok(1) _ sim_blank_ok(2) _ _ this, of 7 100]
  show ?thesis by force
qed

text \<open>C7. Linear read. \<^verbatim>\<open>at45d_rd\<close> refuses an address past the end of the device; otherwise it returns
  the bytes of the memory from that address on, as many as asked for or as are left up to the end, and
  reports that number.\<close>

theorem at45d_rd_linear:
  assumes "dataflash cfg dev ok mem sram busy" "drv_ok ok busy s" "AT45D_PAGE_SIZE cfg \<le> 264"
    and "k = (if unat address > AT45D_ADR_MAX cfg then 0 else min (unat n) (AT45D_ADR_MAX cfg - unat address + 1))"
  shows "\<exists>s'. at45d_rd cfg dev s address n = Some (of_nat k, img_rd cfg (mem (chip s)) 0 (unat address) k, s') \<and>
     drv_ok ok busy s' \<and> mem (chip s') = mem (chip s)"
proof (cases "unat address > AT45D_ADR_MAX cfg")
  case True
  then show ?thesis using assms(2,4) by (simp add: at45d_rd_def img_rd_def)
next
  case False
  then show ?thesis using dataflash.rd_image [OF assms(1-3), of address k n] assms(4) by simp
qed

theorem at45d_rd_linear_witness:
  "\<exists>s'. at45d_rd at45d_cfg_repo (sim_dev at45d_cfg_repo) sim_blank 540670 5 =
     Some (2, img_rd at45d_cfg_repo (sim_mem (chip sim_blank)) 0 540670 2, s')"
  using at45d_rd_linear [OF sim_chip.dataflash_axioms sim_blank_ok(1), of 2 540670 5] by auto

text \<open>Whole pages. \<^verbatim>\<open>at45d_wr_page\<close> passes its byte count through \<^verbatim>\<open>(u8_t)\<close>: of a 264-byte page it
  sends 8 bytes, of a 256-byte page none, and the rest of the page is programmed with whatever the
  chip's buffer held.\<close>

theorem at45d_wr_page_truncates:
  assumes "dataflash cfg dev ok mem sram busy" "drv_ok ok busy s" "AT45D_PAGE_SIZE cfg \<le> 264"
    "unat page < AT45D_PAGES cfg" "length buffer = AT45D_PAGE_SIZE cfg"
    "k = (if AT45D_PAGE_SIZE cfg = 264 then 8 else 0)"
  shows "\<exists>s'. at45d_wr_page cfg dev s buffer page = Some s' \<and>
     mem (chip s') = (mem (chip s))(unat page := take k buffer @ drop k (sram (chip s)))"
proof -
  have "k = AT45D_PAGE_SIZE cfg mod 256" using small_page_cfg [OF assms(3)] assms(6) by (auto split: if_splits)
  moreover from this have "k \<le> length buffer" using assms(5) by simp
  ultimately show ?thesis using dataflash.wr_page_image [OF assms(1-4)] by blast
qed

theorem at45d_wr_page_truncates_witness:
  "\<exists>s'. at45d_wr_page at45d_cfg_repo (sim_dev at45d_cfg_repo) sim_blank (replicate 264 7) 3 = Some s' \<and>
     sim_mem (chip s') 3 = replicate 8 7 @ replicate 256 0"
proof -
  have len: "length (replicate 264 (7 :: u8)) = AT45D_PAGE_SIZE at45d_cfg_repo" by simp
  have "sim_sram (chip sim_blank) = replicate 264 0" by (simp add: sim_blank_def)
  then show ?thesis
    using at45d_wr_page_truncates [OF sim_chip.dataflash_axioms sim_blank_ok(1) _ _ len, of 3 8]
    by auto
qed

end
