(* ===== verification/Log_Fs.thy ===== *)
theory Log_Fs
  imports Prelude
begin

text \<open>
  The log file system of \<^verbatim>\<open>src/data_Manager/log_fs.c\<close>. The compile-time options of \<^verbatim>\<open>log_fs_cfg.h\<close> are
  the record \<open>log_fs_cfg\<close>, so both \<^verbatim>\<open>LOG_FS_CFG_TYPE\<close> builds, every \<^verbatim>\<open>LOG_FS_CFG_MAX_PAGES\<close> and both
  settings of the debug assertions are covered. The three calls into the flash driver are the record
  \<open>flash_ops\<close>; \<open>at45d_flash\<close> (theory \<open>Flash\<close>) is the driver of \<open>At45d\<close> in that form.

  Every function is a state transformer in the option monad: the state is the static variable
  \<^verbatim>\<open>log_fs\<close> together with the flash, \<open>None\<close> stands for a function that does not return (a blocking
  assertion, a loop that does not end). Loops are \<open>partial_function\<close>s; their termination is proved in
  \<open>Log_Fs_Search\<close>. A pointer that receives a result is part of the result.
\<close>

section \<open>Configuration and flash driver\<close>

datatype log_fs_cfg_type = LOG_FS_CFG_TYPE_LINEAR | LOG_FS_CFG_TYPE_CIRCULAR

record log_fs_cfg =
  LOG_FS_CFG_PAGE_SIZE :: nat
  LOG_FS_CFG_PAGE_START :: u16
  LOG_FS_CFG_PAGE_END :: u16
  LOG_FS_CFG_REC_DATA_SIZE :: nat
  LOG_FS_CFG_TYPE :: log_fs_cfg_type
  LOG_FS_CFG_MAX_PAGES :: u16
  DBG_CFG :: bool

text \<open>The options in \<^verbatim>\<open>log_fs_cfg.h\<close>: the whole AT45DB041, 13-byte records, linear, no page limit.\<close>

definition log_fs_cfg_repo :: log_fs_cfg where
  "log_fs_cfg_repo = \<lparr>LOG_FS_CFG_PAGE_SIZE = 264, LOG_FS_CFG_PAGE_START = 0, LOG_FS_CFG_PAGE_END = 2047,
     LOG_FS_CFG_REC_DATA_SIZE = 13, LOG_FS_CFG_TYPE = LOG_FS_CFG_TYPE_LINEAR, LOG_FS_CFG_MAX_PAGES = 0, DBG_CFG = True\<rparr>"

text \<open>Page, offset, byte count; the write takes the caller's bytes.\<close>

record 'f flash_ops =
  fl_rd :: "'f \<Rightarrow> u16 \<Rightarrow> u16 \<Rightarrow> u16 \<Rightarrow> (u8 list \<times> 'f) option"
  fl_wr :: "'f \<Rightarrow> u8 list \<Rightarrow> u16 \<Rightarrow> u16 \<Rightarrow> u16 \<Rightarrow> 'f option"
  fl_erase :: "'f \<Rightarrow> u16 \<Rightarrow> 'f option"

definition DBG_ASSERT :: "log_fs_cfg \<Rightarrow> bool \<Rightarrow> unit option" where
  "DBG_ASSERT C P = c_assert (DBG_CFG C \<longrightarrow> P)"

section \<open>Data\<close>

definition LOG_FS_PAGE_INVALID :: u16 where "LOG_FS_PAGE_INVALID = 0xFFFF"

definition LOG_FS_MARKER_FREE :: u8 where "LOG_FS_MARKER_FREE = 0xFF"
definition LOG_FS_MARKER_FILE :: u8 where "LOG_FS_MARKER_FILE = 0x2F"
definition LOG_FS_MARKER_RECORD :: u8 where "LOG_FS_MARKER_RECORD = 0x1F"
definition LOG_FS_MARKER_BAD :: u8 where "LOG_FS_MARKER_BAD = 0x00"

datatype log_fs_err_t = LOG_FS_ERR_NONE | LOG_FS_ERR_FILE_DOES_NOT_EXIST | LOG_FS_ERR_FILE_ALREADY_EXISTS
  | LOG_FS_ERR_FILE_INVALID | LOG_FS_ERR_EMPTY | LOG_FS_ERR_FULL | LOG_FS_ERR_WRITE_FAIL | LOG_FS_ERR_NO_FILE
  | LOG_FS_ERR_NO_RECORD

record log_fs_time_stamp_t =
  ts_year :: u8
  ts_month :: u8
  ts_day :: u8
  ts_hour :: u8
  ts_min :: u8
  ts_sec :: u8

record log_fs_file_t =
  start_page :: u16
  time_stamp :: log_fs_time_stamp_t

record log_fs_adr_t =
  adr_page :: u16
  adr_offset :: u16

record log_fs_page_header_t =
  ph_marker :: u8
  ph_nr :: u16
  ph_crc :: u8

record log_fs_file_info_t =
  fi_file :: log_fs_file_t
  fi_crc :: u8

record log_fs_rec_block_t =
  rb_marker :: u8
  rb_data :: "u8 list"
  rb_crc :: u8

record 'f log_fs_t =
  page_header :: log_fs_page_header_t
  file_info :: log_fs_file_info_t
  record_block :: log_fs_rec_block_t
  file_page_first :: u16
  file_page_last :: u16
  file_page_nr_next :: u16
  rec_page_first :: u16
  rec_page_last :: u16
  rec_page_nr_next :: u16
  rec_adr_rd :: log_fs_adr_t
  rec_adr_wr :: log_fs_adr_t
  flash :: 'f

text \<open>The packed structures in memory, least significant byte first, and back.\<close>

definition u16_bytes :: "u16 \<Rightarrow> u8 list" where
  "u16_bytes w = [ucast w, ucast (drop_bit 8 w)]"

definition u16_of_bytes :: "u8 \<Rightarrow> u8 \<Rightarrow> u16" where
  "u16_of_bytes lo hi = ucast lo OR push_bit 8 (ucast hi)"

definition page_header_bytes :: "log_fs_page_header_t \<Rightarrow> u8 list" where
  "page_header_bytes h = ph_marker h # u16_bytes (ph_nr h) @ [ph_crc h]"

definition page_header_of_bytes :: "u8 list \<Rightarrow> log_fs_page_header_t" where
  "page_header_of_bytes b = \<lparr>ph_marker = b ! 0, ph_nr = u16_of_bytes (b ! 1) (b ! 2), ph_crc = b ! 3\<rparr>"

definition file_info_bytes :: "log_fs_file_info_t \<Rightarrow> u8 list" where
  "file_info_bytes i =
     (let f = fi_file i; t = time_stamp f in
      u16_bytes (start_page f) @ [ts_year t, ts_month t, ts_day t, ts_hour t, ts_min t, ts_sec t] @ [fi_crc i])"

definition file_info_of_bytes :: "u8 list \<Rightarrow> log_fs_file_info_t" where
  "file_info_of_bytes b = \<lparr>fi_file = \<lparr>start_page = u16_of_bytes (b ! 0) (b ! 1),
     time_stamp = \<lparr>ts_year = b ! 2, ts_month = b ! 3, ts_day = b ! 4, ts_hour = b ! 5, ts_min = b ! 6, ts_sec = b ! 7\<rparr>\<rparr>,
     fi_crc = b ! 8\<rparr>"

definition rec_block_bytes :: "log_fs_rec_block_t \<Rightarrow> u8 list" where
  "rec_block_bytes r = rb_marker r # rb_data r @ [rb_crc r]"

definition rec_block_of_bytes :: "u8 list \<Rightarrow> log_fs_rec_block_t" where
  "rec_block_of_bytes b = \<lparr>rb_marker = hd b, rb_data = butlast (tl b), rb_crc = last b\<rparr>"

definition sizeof_page_header :: nat where "sizeof_page_header = 4"
definition sizeof_file_info :: nat where "sizeof_file_info = 9"

definition sizeof_rec_block :: "log_fs_cfg \<Rightarrow> nat" where
  "sizeof_rec_block C = LOG_FS_CFG_REC_DATA_SIZE C + 2"

definition LOG_FS_FILE_ATTR_DATA_SIZE :: "log_fs_cfg \<Rightarrow> nat" where
  "LOG_FS_FILE_ATTR_DATA_SIZE C = LOG_FS_CFG_PAGE_SIZE C - sizeof_file_info"

definition LOG_FS_REC_PAGE_DATA_SIZE :: "log_fs_cfg \<Rightarrow> nat" where
  "LOG_FS_REC_PAGE_DATA_SIZE C = LOG_FS_CFG_PAGE_SIZE C - sizeof_page_header"

definition LOG_FS_RECORDS_PER_PAGE :: "log_fs_cfg \<Rightarrow> nat" where
  "LOG_FS_RECORDS_PER_PAGE C = LOG_FS_REC_PAGE_DATA_SIZE C div sizeof_rec_block C"

definition LOG_FS_REC_OFFSET_FIRST :: nat where
  "LOG_FS_REC_OFFSET_FIRST = sizeof_page_header"

text \<open>At least one record fits in a page: \<^verbatim>\<open>log_fs_init\<close> asserts it.\<close>

definition LOG_FS_REC_OFFSET_LAST :: "log_fs_cfg \<Rightarrow> nat" where
  "LOG_FS_REC_OFFSET_LAST C = sizeof_page_header + (LOG_FS_RECORDS_PER_PAGE C - 1) * sizeof_rec_block C"

section \<open>Local functions\<close>

definition log_fs_page_next :: "log_fs_cfg \<Rightarrow> u16 \<Rightarrow> u16 option" where
  "log_fs_page_next C page =
     do {
       DBG_ASSERT C (page \<ge> LOG_FS_CFG_PAGE_START C \<and> page \<le> LOG_FS_CFG_PAGE_END C);
       Some (if page = LOG_FS_CFG_PAGE_END C then LOG_FS_CFG_PAGE_START C else page + 1)
     }"

definition log_fs_page_previous :: "log_fs_cfg \<Rightarrow> u16 \<Rightarrow> u16 option" where
  "log_fs_page_previous C page =
     do {
       DBG_ASSERT C (page \<ge> LOG_FS_CFG_PAGE_START C \<and> page \<le> LOG_FS_CFG_PAGE_END C);
       Some (if page = LOG_FS_CFG_PAGE_START C then LOG_FS_CFG_PAGE_END C else page - 1)
     }"

definition crc_bit :: "u8 \<Rightarrow> u8" where
  "crc_bit crc = (if crc AND 1 \<noteq> 0 then drop_bit 1 crc XOR 0xB2 else drop_bit 1 crc)"

fun log_fs_crc_loop :: "u8 \<Rightarrow> u8 list \<Rightarrow> u8" where
  "log_fs_crc_loop crc [] = crc"
| "log_fs_crc_loop crc (b # bs) = log_fs_crc_loop ((crc_bit ^^ 8) (crc XOR b)) bs"

definition log_fs_crc_calc :: "u8 list \<Rightarrow> u8" where
  "log_fs_crc_calc data = log_fs_crc_loop 0xFF data"

definition log_fs_crc_page_header :: "'f log_fs_t \<Rightarrow> u8" where
  "log_fs_crc_page_header s = log_fs_crc_calc (butlast (page_header_bytes (page_header s)))"

definition log_fs_crc_file_info :: "'f log_fs_t \<Rightarrow> u8" where
  "log_fs_crc_file_info s = log_fs_crc_calc (butlast (file_info_bytes (file_info s)))"

definition log_fs_crc_record_block :: "'f log_fs_t \<Rightarrow> u8" where
  "log_fs_crc_record_block s = log_fs_crc_calc (butlast (rec_block_bytes (record_block s)))"

text \<open>Shorthands for the three driver calls on the flash inside the state.\<close>

definition flash_rd :: "'f flash_ops \<Rightarrow> 'f log_fs_t \<Rightarrow> u16 \<Rightarrow> u16 \<Rightarrow> nat \<Rightarrow> (u8 list \<times> 'f log_fs_t) option" where
  "flash_rd fl s page offset n = do { (b, f) \<leftarrow> fl_rd fl (flash s) page offset (of_nat n); Some (b, s\<lparr>flash := f\<rparr>) }"

definition flash_wr :: "'f flash_ops \<Rightarrow> 'f log_fs_t \<Rightarrow> u8 list \<Rightarrow> u16 \<Rightarrow> u16 \<Rightarrow> 'f log_fs_t option" where
  "flash_wr fl s b page offset = do { f \<leftarrow> fl_wr fl (flash s) b page offset (of_nat (length b)); Some (s\<lparr>flash := f\<rparr>) }"

definition flash_erase :: "'f flash_ops \<Rightarrow> 'f log_fs_t \<Rightarrow> u16 \<Rightarrow> 'f log_fs_t option" where
  "flash_erase fl s page = do { f \<leftarrow> fl_erase fl (flash s) page; Some (s\<lparr>flash := f\<rparr>) }"

definition log_fs_marker_rd :: "'f flash_ops \<Rightarrow> 'f log_fs_t \<Rightarrow> u16 \<Rightarrow> u16 \<Rightarrow> (u8 \<times> 'f log_fs_t) option" where
  "log_fs_marker_rd fl s page offset =
     do {
       (b, s) \<leftarrow> flash_rd fl s page offset 1;
       let marker = b ! 0;
       if marker \<noteq> LOG_FS_MARKER_FREE \<and> marker \<noteq> LOG_FS_MARKER_FILE \<and>
          marker \<noteq> LOG_FS_MARKER_RECORD \<and> marker \<noteq> LOG_FS_MARKER_BAD
       then do {
         s \<leftarrow> flash_wr fl s [LOG_FS_MARKER_BAD] page offset;
         Some (LOG_FS_MARKER_BAD, s)
       }
       else Some (marker, s)
     }"

definition log_fs_marker_wr :: "'f flash_ops \<Rightarrow> 'f log_fs_t \<Rightarrow> u8 \<Rightarrow> u16 \<Rightarrow> u16 \<Rightarrow> (bool \<times> 'f log_fs_t) option" where
  "log_fs_marker_wr fl s marker page offset =
     do {
       s \<leftarrow> flash_wr fl s [marker] page offset;
       (marker_rd, s) \<leftarrow> log_fs_marker_rd fl s page offset;
       if marker_rd \<noteq> marker
       then do {
         s \<leftarrow> flash_wr fl s [LOG_FS_MARKER_BAD] page offset;
         Some (False, s)
       }
       else Some (True, s)
     }"

definition log_fs_page_header_rd :: "'f flash_ops \<Rightarrow> 'f log_fs_t \<Rightarrow> u16 \<Rightarrow> (u8 \<times> 'f log_fs_t) option" where
  "log_fs_page_header_rd fl s page =
     do {
       (marker, s) \<leftarrow> log_fs_marker_rd fl s page 0;
       if marker = LOG_FS_MARKER_FREE \<or> marker = LOG_FS_MARKER_BAD then Some (marker, s)
       else do {
         (b, s) \<leftarrow> flash_rd fl s page 0 sizeof_page_header;
         let s = s\<lparr>page_header := page_header_of_bytes b\<rparr>;
         let crc = log_fs_crc_page_header s;
         if crc \<noteq> ph_crc (page_header s)
         then do {
           (_, s) \<leftarrow> log_fs_marker_wr fl s LOG_FS_MARKER_BAD page 0;
           Some (LOG_FS_MARKER_BAD, s)
         }
         else Some (ph_marker (page_header s), s)
       }
     }"

definition log_fs_page_header_wr :: "'f flash_ops \<Rightarrow> 'f log_fs_t \<Rightarrow> u16 \<Rightarrow> (bool \<times> 'f log_fs_t) option" where
  "log_fs_page_header_wr fl s page =
     do {
       let s = s\<lparr>page_header := (page_header s)\<lparr>ph_crc := log_fs_crc_page_header s\<rparr>\<rparr>;
       s \<leftarrow> flash_wr fl s (page_header_bytes (page_header s)) page 0;
       (page_header_rd, s) \<leftarrow> flash_rd fl s page 0 sizeof_page_header;
       if page_header_bytes (page_header s) = page_header_rd then Some (True, s)
       else do {
         (_, s) \<leftarrow> log_fs_marker_wr fl s LOG_FS_MARKER_BAD page 0;
         Some (False, s)
       }
     }"

definition log_fs_file_block_rd :: "'f flash_ops \<Rightarrow> 'f log_fs_t \<Rightarrow> u16 \<Rightarrow> (bool \<times> 'f log_fs_t) option" where
  "log_fs_file_block_rd fl s page =
     do {
       (marker, s) \<leftarrow> log_fs_page_header_rd fl s page;
       if marker \<noteq> LOG_FS_MARKER_FILE then Some (False, s)
       else do {
         (b, s) \<leftarrow> flash_rd fl s page (of_nat sizeof_page_header) sizeof_file_info;
         let s = s\<lparr>file_info := file_info_of_bytes b\<rparr>;
         if fi_crc (file_info s) \<noteq> log_fs_crc_file_info s
         then do {
           (_, s) \<leftarrow> log_fs_marker_wr fl s LOG_FS_MARKER_BAD page 0;
           Some (False, s)
         }
         else if start_page (fi_file (file_info s)) \<noteq> page
         then do {
           (_, s) \<leftarrow> log_fs_marker_wr fl s LOG_FS_MARKER_BAD page 0;
           Some (False, s)
         }
         else Some (True, s)
       }
     }"

definition log_fs_file_block_wr :: "'f flash_ops \<Rightarrow> 'f log_fs_t \<Rightarrow> u16 \<Rightarrow> (bool \<times> 'f log_fs_t) option" where
  "log_fs_file_block_wr fl s page =
     do {
       let s = s\<lparr>page_header := (page_header s)\<lparr>ph_marker := LOG_FS_MARKER_FILE\<rparr>\<rparr>;
       (r, s) \<leftarrow> log_fs_page_header_wr fl s page;
       if \<not> r then Some (False, s)
       else do {
         let s = s\<lparr>file_info := (file_info s)\<lparr>fi_file := (fi_file (file_info s))\<lparr>start_page := page\<rparr>\<rparr>\<rparr>;
         let s = s\<lparr>file_info := (file_info s)\<lparr>fi_crc := log_fs_crc_file_info s\<rparr>\<rparr>;
         s \<leftarrow> flash_wr fl s (file_info_bytes (file_info s)) page (of_nat sizeof_page_header);
         (file_block_rd, s) \<leftarrow> flash_rd fl s page (of_nat sizeof_page_header) sizeof_file_info;
         if file_info_bytes (file_info s) = file_block_rd then Some (True, s)
         else do {
           (_, s) \<leftarrow> log_fs_marker_wr fl s LOG_FS_MARKER_BAD page 0;
           Some (False, s)
         }
       }
     }"

definition log_fs_record_block_rd ::
  "log_fs_cfg \<Rightarrow> 'f flash_ops \<Rightarrow> 'f log_fs_t \<Rightarrow> u16 \<Rightarrow> u16 \<Rightarrow> (bool \<times> 'f log_fs_t) option" where
  "log_fs_record_block_rd C fl s page offset =
     do {
       (marker, s) \<leftarrow> log_fs_marker_rd fl s page offset;
       if marker \<noteq> LOG_FS_MARKER_RECORD then Some (False, s)
       else do {
         (b, s) \<leftarrow> flash_rd fl s page offset (sizeof_rec_block C);
         let s = s\<lparr>record_block := rec_block_of_bytes b\<rparr>;
         if rb_crc (record_block s) \<noteq> log_fs_crc_record_block s
         then do {
           (_, s) \<leftarrow> log_fs_marker_wr fl s LOG_FS_MARKER_BAD page offset;
           Some (False, s)
         }
         else Some (True, s)
       }
     }"

definition log_fs_record_block_wr ::
  "log_fs_cfg \<Rightarrow> 'f flash_ops \<Rightarrow> 'f log_fs_t \<Rightarrow> u16 \<Rightarrow> u16 \<Rightarrow> (bool \<times> 'f log_fs_t) option" where
  "log_fs_record_block_wr C fl s page offset =
     (if unat offset + sizeof_rec_block C \<ge> LOG_FS_CFG_PAGE_SIZE C then Some (False, s)
      else do {
        let s = s\<lparr>record_block := (record_block s)\<lparr>rb_marker := LOG_FS_MARKER_RECORD\<rparr>\<rparr>;
        let s = s\<lparr>record_block := (record_block s)\<lparr>rb_crc := log_fs_crc_record_block s\<rparr>\<rparr>;
        s \<leftarrow> flash_wr fl s (rec_block_bytes (record_block s)) page offset;
        (record_block_rd, s) \<leftarrow> flash_rd fl s page offset (sizeof_rec_block C);
        if rec_block_bytes (record_block s) \<noteq> record_block_rd
        then do {
          (_, s) \<leftarrow> log_fs_marker_wr fl s LOG_FS_MARKER_BAD page offset;
          Some (False, s)
        }
        else Some (True, s)
      })"

definition log_fs_record_pages_bound_start :: "log_fs_cfg \<Rightarrow> 'f log_fs_t \<Rightarrow> u16 option" where
  "log_fs_record_pages_bound_start C s = log_fs_page_next C (start_page (fi_file (file_info s)))"

definition log_fs_record_pages_bound_end :: "log_fs_cfg \<Rightarrow> 'f log_fs_t \<Rightarrow> u16 option" where
  "log_fs_record_pages_bound_end C s =
     (let file_page = start_page (fi_file (file_info s)) in
      if LOG_FS_CFG_MAX_PAGES C \<noteq> 0
      then let file_page = file_page + LOG_FS_CFG_MAX_PAGES C
           in Some (if file_page > LOG_FS_CFG_PAGE_END C
                    then file_page - (LOG_FS_CFG_PAGE_END C - LOG_FS_CFG_PAGE_START C) else file_page)
      else log_fs_page_previous C file_page)"

definition in_range :: "log_fs_cfg \<Rightarrow> u16 \<Rightarrow> bool" where
  "in_range C page \<longleftrightarrow> page \<ge> LOG_FS_CFG_PAGE_START C \<and> page \<le> LOG_FS_CFG_PAGE_END C"

partial_function (option) log_fs_find_first_loop ::
  "log_fs_cfg \<Rightarrow> 'f flash_ops \<Rightarrow> u8 \<Rightarrow> u16 \<Rightarrow> u16 \<Rightarrow> 'f log_fs_t \<Rightarrow> (u16 \<times> 'f log_fs_t) option" where
  "log_fs_find_first_loop C fl marker page_end page s =
     do {
       (m, s) \<leftarrow> log_fs_page_header_rd fl s page;
       if m = marker then Some (page, s)
       else if page = page_end then Some (LOG_FS_PAGE_INVALID, s)
       else do {
         page \<leftarrow> log_fs_page_next C page;
         log_fs_find_first_loop C fl marker page_end page s
       }
     }"

definition log_fs_page_header_find_first ::
  "log_fs_cfg \<Rightarrow> 'f flash_ops \<Rightarrow> 'f log_fs_t \<Rightarrow> u8 \<Rightarrow> u16 \<Rightarrow> u16 \<Rightarrow> (u16 \<times> 'f log_fs_t) option" where
  "log_fs_page_header_find_first C fl s marker page_start page_end =
     do {
       DBG_ASSERT C (in_range C page_start);
       DBG_ASSERT C (in_range C page_end);
       log_fs_find_first_loop C fl marker page_end page_start s
     }"

partial_function (option) log_fs_find_next_loop ::
  "log_fs_cfg \<Rightarrow> 'f flash_ops \<Rightarrow> u8 \<Rightarrow> u16 \<Rightarrow> u16 \<Rightarrow> u16 \<Rightarrow> u16 \<Rightarrow> 'f log_fs_t \<Rightarrow> (u16 \<times> 'f log_fs_t) option" where
  "log_fs_find_next_loop C fl marker page_start page_end page_current page s =
     do {
       page \<leftarrow> (if page = page_end then Some page_start else log_fs_page_next C page);
       if page = page_current then Some (LOG_FS_PAGE_INVALID, s)
       else do {
         (m, s) \<leftarrow> log_fs_page_header_rd fl s page;
         if m = marker then Some (page, s)
         else log_fs_find_next_loop C fl marker page_start page_end page_current page s
       }
     }"

definition log_fs_page_header_find_next ::
  "log_fs_cfg \<Rightarrow> 'f flash_ops \<Rightarrow> 'f log_fs_t \<Rightarrow> u8 \<Rightarrow> u16 \<Rightarrow> u16 \<Rightarrow> u16 \<Rightarrow> (u16 \<times> 'f log_fs_t) option" where
  "log_fs_page_header_find_next C fl s marker page_start page_end page_current =
     do {
       DBG_ASSERT C (in_range C page_start);
       DBG_ASSERT C (in_range C page_end);
       DBG_ASSERT C (in_range C page_current);
       log_fs_find_next_loop C fl marker page_start page_end page_current page_current s
     }"


declare log_fs_find_first_loop.simps [code] log_fs_find_next_loop.simps [code]

section \<open>Indexing and creating files\<close>

text \<open>\<^verbatim>\<open>memset(&log_fs, 0, sizeof(log_fs_t))\<close>.\<close>

definition log_fs_reset :: "log_fs_cfg \<Rightarrow> 'f \<Rightarrow> 'f log_fs_t" where
  "log_fs_reset C f = \<lparr>page_header = \<lparr>ph_marker = 0, ph_nr = 0, ph_crc = 0\<rparr>,
     file_info = \<lparr>fi_file = \<lparr>start_page = 0,
        time_stamp = \<lparr>ts_year = 0, ts_month = 0, ts_day = 0, ts_hour = 0, ts_min = 0, ts_sec = 0\<rparr>\<rparr>, fi_crc = 0\<rparr>,
     record_block = \<lparr>rb_marker = 0, rb_data = replicate (LOG_FS_CFG_REC_DATA_SIZE C) 0, rb_crc = 0\<rparr>,
     file_page_first = 0, file_page_last = 0, file_page_nr_next = 0,
     rec_page_first = 0, rec_page_last = 0, rec_page_nr_next = 0,
     rec_adr_rd = \<lparr>adr_page = 0, adr_offset = 0\<rparr>, rec_adr_wr = \<lparr>adr_page = 0, adr_offset = 0\<rparr>, flash = f\<rparr>"

text \<open>The \<^verbatim>\<open>do ... while\<close> of \<^verbatim>\<open>log_fs_init\<close>; \<open>first\<close> is the local \<^verbatim>\<open>file_page_first\<close>.\<close>

partial_function (option) log_fs_init_loop ::
  "log_fs_cfg \<Rightarrow> 'f flash_ops \<Rightarrow> u16 \<Rightarrow> u16 \<Rightarrow> u16 \<Rightarrow> 'f log_fs_t \<Rightarrow> (log_fs_err_t \<times> 'f log_fs_t) option" where
  "log_fs_init_loop C fl first file_nr_diff_largest file_page s =
     do {
       let file_nr = ph_nr (page_header s);
       (file_page_next, s) \<leftarrow> log_fs_page_header_find_next C fl s LOG_FS_MARKER_FILE
          (LOG_FS_CFG_PAGE_START C) (LOG_FS_CFG_PAGE_END C) file_page;
       if file_page_next = LOG_FS_PAGE_INVALID
       then Some (LOG_FS_ERR_NONE, s\<lparr>file_page_first := file_page, file_page_last := file_page, file_page_nr_next := file_nr + 1\<rparr>)
       else do {
         let file_nr_next = ph_nr (page_header s);
         let file_nr_diff = file_nr_next - file_nr;
         let (file_nr_diff_largest, s) =
           (if file_nr_diff_largest < file_nr_diff
            then (file_nr_diff,
                  s\<lparr>file_page_first := file_page_next, file_page_last := file_page, file_page_nr_next := file_nr + 1\<rparr>)
            else (file_nr_diff_largest, s));
         let file_page = file_page_next;
         if file_page \<noteq> first then log_fs_init_loop C fl first file_nr_diff_largest file_page s
         else Some (LOG_FS_ERR_NONE, s)
       }
     }"

definition log_fs_init :: "log_fs_cfg \<Rightarrow> 'f flash_ops \<Rightarrow> 'f log_fs_t \<Rightarrow> (log_fs_err_t \<times> 'f log_fs_t) option" where
  "log_fs_init C fl s =
     do {
       DBG_ASSERT C (sizeof_rec_block C \<le> LOG_FS_REC_PAGE_DATA_SIZE C);
       let s = log_fs_reset C (flash s);
       (first, s) \<leftarrow> log_fs_page_header_find_first C fl s LOG_FS_MARKER_FILE (LOG_FS_CFG_PAGE_START C) (LOG_FS_CFG_PAGE_END C);
       if first = LOG_FS_PAGE_INVALID
       then Some (LOG_FS_ERR_NONE, s\<lparr>file_page_first := LOG_FS_PAGE_INVALID, file_page_last := LOG_FS_PAGE_INVALID\<rparr>)
       else log_fs_init_loop C fl first 0 first s
     }"

text \<open>The search of \<^verbatim>\<open>log_fs_create\<close> for the last record page of the newest file: pages are visited from
  the one after \<open>page\<close> until a file page.\<close>

partial_function (option) log_fs_create_last_record ::
  "log_fs_cfg \<Rightarrow> 'f flash_ops \<Rightarrow> u16 \<Rightarrow> u16 \<Rightarrow> 'f log_fs_t \<Rightarrow> (u16 \<times> 'f log_fs_t) option" where
  "log_fs_create_last_record C fl page page_last_record s =
     do {
       page \<leftarrow> log_fs_page_next C page;
       (marker, s) \<leftarrow> log_fs_page_header_rd fl s page;
       let page_last_record = (if marker = LOG_FS_MARKER_RECORD then page else page_last_record);
       if marker \<noteq> LOG_FS_MARKER_FILE then log_fs_create_last_record C fl page page_last_record s
       else Some (page_last_record, s)
     }"

text \<open>The search for a free page when there is no file: the page found, or the page after the end. The
  increment wraps at 16 bits.\<close>

partial_function (option) log_fs_create_find_free ::
  "log_fs_cfg \<Rightarrow> 'f flash_ops \<Rightarrow> u16 \<Rightarrow> 'f log_fs_t \<Rightarrow> (u16 \<times> 'f log_fs_t) option" where
  "log_fs_create_find_free C fl page s =
     do {
       (marker, s) \<leftarrow> log_fs_marker_rd fl s page 0;
       if marker = LOG_FS_MARKER_FREE then Some (page, s)
       else do {
         let page = page + 1;
         if page \<le> LOG_FS_CFG_PAGE_END C then log_fs_create_find_free C fl page s else Some (page, s)
       }
     }"

declare log_fs_init_loop.simps [code] log_fs_create_last_record.simps [code] log_fs_create_find_free.simps [code]

text \<open>The choice of the page of the new file; \<open>None\<close> in the result: the file system is full.\<close>

definition log_fs_create_page ::
  "log_fs_cfg \<Rightarrow> 'f flash_ops \<Rightarrow> 'f log_fs_t \<Rightarrow> (u16 option \<times> 'f log_fs_t) option" where
  "log_fs_create_page C fl s =
     (if file_page_last s \<noteq> LOG_FS_PAGE_INVALID
      then do {
        (page_last_record, s) \<leftarrow> log_fs_create_last_record C fl (file_page_last s) (file_page_last s) s;
        page_new_file \<leftarrow> log_fs_page_next C page_last_record;
        (marker, s) \<leftarrow> log_fs_marker_rd fl s page_new_file 0;
        if marker = LOG_FS_MARKER_FILE then Some (None, s)
        else do {
          page \<leftarrow> log_fs_page_next C page_new_file;
          (marker, s) \<leftarrow> log_fs_marker_rd fl s page 0;
          if marker = LOG_FS_MARKER_FILE then Some (None, s) else Some (Some page_new_file, s)
        }
      }
      else do {
        (page, s) \<leftarrow> log_fs_create_find_free C fl (LOG_FS_CFG_PAGE_START C) s;
        Some (Some (if page > LOG_FS_CFG_PAGE_END C then LOG_FS_CFG_PAGE_START C else page), s)
      })"

definition log_fs_create ::
  "log_fs_cfg \<Rightarrow> 'f flash_ops \<Rightarrow> 'f log_fs_t \<Rightarrow> log_fs_time_stamp_t \<Rightarrow> (log_fs_err_t \<times> 'f log_fs_t) option" where
  "log_fs_create C fl s ts =
     do {
       (p, s) \<leftarrow> log_fs_create_page C fl s;
       (case p of
          None \<Rightarrow> Some (LOG_FS_ERR_FULL, s)
        | Some page_new_file \<Rightarrow> do {
            (marker, s) \<leftarrow> log_fs_marker_rd fl s page_new_file 0;
            s \<leftarrow> (if marker \<noteq> LOG_FS_MARKER_FREE then flash_erase fl s page_new_file else Some s);
            let s = s\<lparr>page_header := (page_header s)\<lparr>ph_nr := file_page_nr_next s\<rparr>\<rparr>;
            let s = s\<lparr>file_info := (file_info s)\<lparr>fi_file := (fi_file (file_info s))\<lparr>time_stamp := ts\<rparr>\<rparr>\<rparr>;
            (r, s) \<leftarrow> log_fs_file_block_wr fl s page_new_file;
            if \<not> r then Some (LOG_FS_ERR_WRITE_FAIL, s)
            else do {
              let s = s\<lparr>file_page_last := page_new_file\<rparr>;
              let s = (if file_page_first s = LOG_FS_PAGE_INVALID then s\<lparr>file_page_first := page_new_file\<rparr> else s);
              let s = s\<lparr>file_page_nr_next := file_page_nr_next s + 1\<rparr>;
              page \<leftarrow> log_fs_page_next C page_new_file;
              (marker, s) \<leftarrow> log_fs_marker_rd fl s page 0;
              s \<leftarrow> (if marker \<noteq> LOG_FS_MARKER_FREE then flash_erase fl s page else Some s);
              Some (LOG_FS_ERR_NONE,
                s\<lparr>rec_page_first := LOG_FS_PAGE_INVALID, rec_page_last := LOG_FS_PAGE_INVALID, rec_page_nr_next := 0,
                  rec_adr_rd := (rec_adr_rd s)\<lparr>adr_page := LOG_FS_PAGE_INVALID\<rparr>,
                  rec_adr_wr := \<lparr>adr_page = page, adr_offset = of_nat LOG_FS_REC_OFFSET_FIRST\<rparr>\<rparr>)
            }
          })
     }"

text \<open>The number of bytes written or read; the bytes read are the last component.\<close>

definition log_fs_file_attr_data_wr ::
  "log_fs_cfg \<Rightarrow> 'f flash_ops \<Rightarrow> 'f log_fs_t \<Rightarrow> u16 \<Rightarrow> u8 list \<Rightarrow> nat \<Rightarrow> (nat \<times> 'f log_fs_t) option" where
  "log_fs_file_attr_data_wr C fl s offset data nr_of_bytes =
     (if unat offset \<ge> LOG_FS_FILE_ATTR_DATA_SIZE C then Some (0, s)
      else do {
        let nr_of_bytes = (if nr_of_bytes > LOG_FS_FILE_ATTR_DATA_SIZE C - unat offset
                           then LOG_FS_FILE_ATTR_DATA_SIZE C - unat offset else nr_of_bytes);
        c_assert (nr_of_bytes \<le> length data);
        s \<leftarrow> flash_wr fl s (take nr_of_bytes data) (start_page (fi_file (file_info s)))
               (of_nat (sizeof_page_header + sizeof_file_info + unat offset));
        Some (nr_of_bytes, s)
      })"

definition log_fs_file_attr_data_rd ::
  "log_fs_cfg \<Rightarrow> 'f flash_ops \<Rightarrow> 'f log_fs_t \<Rightarrow> u16 \<Rightarrow> nat \<Rightarrow> (nat \<times> u8 list \<times> 'f log_fs_t) option" where
  "log_fs_file_attr_data_rd C fl s offset nr_of_bytes =
     (if unat offset \<ge> LOG_FS_FILE_ATTR_DATA_SIZE C then Some (0, [], s)
      else do {
        let nr_of_bytes = (if nr_of_bytes > LOG_FS_FILE_ATTR_DATA_SIZE C - unat offset
                           then LOG_FS_FILE_ATTR_DATA_SIZE C - unat offset else nr_of_bytes);
        (b, s) \<leftarrow> flash_rd fl s (start_page (fi_file (file_info s)))
               (of_nat (sizeof_page_header + sizeof_file_info + unat offset)) nr_of_bytes;
        Some (nr_of_bytes, b, s)
      })"

definition log_fs_file_attr_data_size :: "log_fs_cfg \<Rightarrow> nat" where
  "log_fs_file_attr_data_size C = LOG_FS_FILE_ATTR_DATA_SIZE C"

section \<open>Finding files\<close>

text \<open>The file handed out through the pointer argument is the middle component, when there is one.\<close>

type_synonym 'f find_result = "(log_fs_err_t \<times> log_fs_file_t option \<times> 'f log_fs_t) option"

definition log_fs_file_find_first :: "'f flash_ops \<Rightarrow> 'f log_fs_t \<Rightarrow> 'f find_result" where
  "log_fs_file_find_first fl s =
     (if file_page_first s = LOG_FS_PAGE_INVALID then Some (LOG_FS_ERR_NO_FILE, None, s)
      else do {
        (r, s) \<leftarrow> log_fs_file_block_rd fl s (file_page_first s);
        if \<not> r then Some (LOG_FS_ERR_FILE_INVALID, None, s)
        else Some (LOG_FS_ERR_NONE, Some (fi_file (file_info s)), s)
      })"

definition log_fs_file_find_last :: "'f flash_ops \<Rightarrow> 'f log_fs_t \<Rightarrow> 'f find_result" where
  "log_fs_file_find_last fl s =
     (if file_page_last s = LOG_FS_PAGE_INVALID then Some (LOG_FS_ERR_NO_FILE, None, s)
      else do {
        (r, s) \<leftarrow> log_fs_file_block_rd fl s (file_page_last s);
        if \<not> r then Some (LOG_FS_ERR_FILE_INVALID, None, s)
        else Some (LOG_FS_ERR_NONE, Some (fi_file (file_info s)), s)
      })"

partial_function (option) log_fs_file_find_next_loop ::
  "log_fs_cfg \<Rightarrow> 'f flash_ops \<Rightarrow> u16 \<Rightarrow> 'f log_fs_t \<Rightarrow> 'f find_result" where
  "log_fs_file_find_next_loop C fl page s =
     do {
       page \<leftarrow> log_fs_page_next C page;
       (r, s) \<leftarrow> log_fs_file_block_rd fl s page;
       if r then Some (LOG_FS_ERR_NONE, Some (fi_file (file_info s)), s)
       else if page \<noteq> file_page_last s then log_fs_file_find_next_loop C fl page s
       else Some (LOG_FS_ERR_NO_FILE, None, s)
     }"

definition log_fs_file_find_next :: "log_fs_cfg \<Rightarrow> 'f flash_ops \<Rightarrow> 'f log_fs_t \<Rightarrow> 'f find_result" where
  "log_fs_file_find_next C fl s =
     (if file_page_last s = LOG_FS_PAGE_INVALID then Some (LOG_FS_ERR_NO_FILE, None, s)
      else let page = start_page (fi_file (file_info s)) in
        if page = file_page_last s then Some (LOG_FS_ERR_NO_FILE, None, s)
        else log_fs_file_find_next_loop C fl page s)"

partial_function (option) log_fs_file_find_previous_loop ::
  "log_fs_cfg \<Rightarrow> 'f flash_ops \<Rightarrow> u16 \<Rightarrow> 'f log_fs_t \<Rightarrow> 'f find_result" where
  "log_fs_file_find_previous_loop C fl page s =
     do {
       page \<leftarrow> log_fs_page_previous C page;
       (r, s) \<leftarrow> log_fs_file_block_rd fl s page;
       if r then Some (LOG_FS_ERR_NONE, Some (fi_file (file_info s)), s)
       else if page \<noteq> file_page_first s then log_fs_file_find_previous_loop C fl page s
       else Some (LOG_FS_ERR_NO_FILE, None, s)
     }"

definition log_fs_file_find_previous :: "log_fs_cfg \<Rightarrow> 'f flash_ops \<Rightarrow> 'f log_fs_t \<Rightarrow> 'f find_result" where
  "log_fs_file_find_previous C fl s =
     (if file_page_first s = LOG_FS_PAGE_INVALID then Some (LOG_FS_ERR_NO_FILE, None, s)
      else let page = start_page (fi_file (file_info s)) in
        if page = file_page_first s then Some (LOG_FS_ERR_NO_FILE, None, s)
        else log_fs_file_find_previous_loop C fl page s)"

declare log_fs_file_find_next_loop.simps [code] log_fs_file_find_previous_loop.simps [code]

end
