(* ===== verification/Flash.thy ===== *)
theory Flash
  imports At45d_Chip Log_Fs
begin

text \<open>
  The interface between the log file system and the flash driver. \<open>at45d_flash\<close> packs the three driver
  functions that \<^verbatim>\<open>log_fs.c\<close> calls. The locale \<open>page_flash\<close> is what they guarantee on every chip that
  keeps the contract \<open>dataflash\<close>; the locale \<open>nor_flash\<close> adds what the comments of \<^verbatim>\<open>log_fs.h\<close> promise
  on top (a write leaves the rest of its page alone), which the driver of the repository does not do.
  \<open>nor_ops\<close> is a flash memory with the promised behaviour; no code under \<^verbatim>\<open>src/\<close> implements it, it only shows that
  the comments describe a memory that can exist.
\<close>

definition at45d_flash :: "at45d_cfg \<Rightarrow> 'c spi_bus \<Rightarrow> 'c at45d flash_ops" where
  "at45d_flash cfg dev = \<lparr>fl_rd = at45d_rd_page_offset cfg dev, fl_wr = at45d_wr_page_offset cfg dev,
     fl_erase = at45d_erase_page cfg dev\<rparr>"

section \<open>Contracts\<close>

text \<open>Bytes that a write can store without an erase: no bit of \<open>new\<close> is set where \<open>old\<close> is clear.\<close>

definition only_clears :: "u8 list \<Rightarrow> u8 list \<Rightarrow> bool" where
  "only_clears old new \<longleftrightarrow> length old = length new \<and> (\<forall>i<length new. old ! i AND new ! i = new ! i)"

definition slice :: "nat \<Rightarrow> nat \<Rightarrow> 'a list \<Rightarrow> 'a list" where
  "slice b n xs = take n (drop b xs)"

lemma length_slice: "b + n \<le> length xs \<Longrightarrow> length (slice b n xs) = n"
  by (simp add: slice_def)

lemma nth_slice: "b + n \<le> length xs \<Longrightarrow> i < n \<Longrightarrow> slice b n xs ! i = xs ! (b + i)"
  by (simp add: slice_def)

lemma slice_slice: "b + n \<le> m \<Longrightarrow> slice b n (slice a m xs) = slice (a + b) n xs"
  by (simp add: slice_def take_drop drop_drop min_def add.commute add.left_commute)

lemma slice_cong:
  assumes "\<And>i. b \<le> i \<Longrightarrow> i < b + n \<Longrightarrow> xs ! i = ys ! i" "length xs = length ys" "b + n \<le> length xs"
  shows "slice b n xs = slice b n ys"
  using assms by (intro nth_equalityI) (auto simp: length_slice nth_slice)

locale page_flash =
  fixes fl :: "'f flash_ops" and psize :: nat and npages :: nat
    and finv :: "'f \<Rightarrow> bool" and img :: "'f \<Rightarrow> image"
  assumes psize_u16: "psize < 65536"
    and page_length: "\<lbrakk>finv f; k < npages\<rbrakk> \<Longrightarrow> length (img f k) = psize"
    and rd_law: "\<lbrakk>finv f; unat p < npages; 0 < unat n; unat b + unat n \<le> psize\<rbrakk> \<Longrightarrow>
      \<exists>f'. fl_rd fl f p b n = Some (slice (unat b) (unat n) (img f (unat p)), f') \<and> finv f' \<and> img f' = img f"
    and wr_law: "\<lbrakk>finv f; unat p < npages; 0 < unat n; unat b + unat n \<le> psize; unat n \<le> length bs\<rbrakk> \<Longrightarrow>
      \<exists>f'. fl_wr fl f bs p b n = Some f' \<and> finv f' \<and> (\<forall>q. q \<noteq> unat p \<longrightarrow> img f' q = img f q) \<and>
        (only_clears (slice (unat b) (unat n) (img f (unat p))) (take (unat n) bs) \<longrightarrow>
          slice (unat b) (unat n) (img f' (unat p)) = take (unat n) bs)"
    and erase_law: "\<lbrakk>finv f; unat p < npages\<rbrakk> \<Longrightarrow>
      \<exists>f'. fl_erase fl f p = Some f' \<and> finv f' \<and> img f' = (img f)(unat p := replicate psize 0xFF)"

locale nor_flash = page_flash +
  assumes wr_keeps: "\<lbrakk>finv f; unat p < npages; 0 < unat n; unat b + unat n \<le> psize; unat n \<le> length bs;
      fl_wr fl f bs p b n = Some f'; i < psize; i < unat b \<or> unat b + unat n \<le> i\<rbrakk> \<Longrightarrow>
      img f' (unat p) ! i = img f (unat p) ! i"

locale erase_flash = page_flash +
  assumes wr_fills: "\<lbrakk>finv f; unat p < npages; 0 < unat n; unat b + unat n \<le> psize; unat n \<le> length bs;
      fl_wr fl f bs p b n = Some f'\<rbrakk> \<Longrightarrow>
      img f' (unat p) = replicate (unat b) 0xFF @ take (unat n) bs @ replicate (psize - unat b - unat n) 0xFF"

section \<open>The driver of the repository\<close>

locale dataflash_small = dataflash +
  assumes small_page: "AT45D_PAGE_SIZE cfg \<le> 264"

sublocale dataflash_small \<subseteq> drv: page_flash "at45d_flash cfg dev" "AT45D_PAGE_SIZE cfg" "AT45D_PAGES cfg"
  "\<lambda>s. drv_ok ok busy s \<and> img_ok cfg (mem (chip s))" "\<lambda>s. mem (chip s)"
proof
  show "AT45D_PAGE_SIZE cfg < 65536" using small_page by simp
next
  fix s p assume "drv_ok ok busy s \<and> img_ok cfg (mem (chip s))"
  then show "length (mem (chip s) p) = AT45D_PAGE_SIZE cfg" by (simp add: img_ok_def)
next
  fix s and p n b :: u16
  assume s: "drv_ok ok busy s \<and> img_ok cfg (mem (chip s))" and p: "unat p < AT45D_PAGES cfg"
    and n: "0 < unat n" "unat b + unat n \<le> AT45D_PAGE_SIZE cfg"
  have "unat b < AT45D_PAGE_SIZE cfg" using n by linarith
  from rd_page_offset_image [OF _ small_page p this, of s n] s
  show "\<exists>s'. fl_rd (at45d_flash cfg dev) s p b n = Some (slice (unat b) (unat n) (mem (chip s) (unat p)), s') \<and>
      (drv_ok ok busy s' \<and> img_ok cfg (mem (chip s'))) \<and> mem (chip s') = mem (chip s)"
    using img_rd_in_page [OF _ p n(2), of "mem (chip s)"] by (auto simp: at45d_flash_def slice_def)
next
  fix s and p n b :: u16 and bs :: "u8 list"
  assume s: "drv_ok ok busy s \<and> img_ok cfg (mem (chip s))" and p: "unat p < AT45D_PAGES cfg"
    and n: "0 < unat n" "unat b + unat n \<le> AT45D_PAGE_SIZE cfg" "unat n \<le> length bs"
  from wr_page_offset_image [OF _ small_page p n(3), of s b] s obtain s' where
    s': "at45d_wr_page_offset cfg dev s bs p b n = Some s'" "drv_ok ok busy s'"
      "mem (chip s') = img_wr_erase cfg (mem (chip s)) (unat p) (unat b) (take (unat n) bs)" by blast
  have "slice (unat b) (unat n) (img_fill cfg (unat b) (take (unat n) bs)) = take (unat n) bs"
    using n by (simp add: slice_def img_fill_def)
  then show "\<exists>s'. fl_wr (at45d_flash cfg dev) s bs p b n = Some s' \<and> (drv_ok ok busy s' \<and> img_ok cfg (mem (chip s'))) \<and>
      (\<forall>q. q \<noteq> unat p \<longrightarrow> mem (chip s') q = mem (chip s) q) \<and>
      (only_clears (slice (unat b) (unat n) (mem (chip s) (unat p))) (take (unat n) bs) \<longrightarrow>
        slice (unat b) (unat n) (mem (chip s') (unat p)) = take (unat n) bs)"
    using s s' by (auto simp: at45d_flash_def img_ok_wr_erase img_wr_erase_def img_ok_def)
next
  fix s and p :: u16
  assume s: "drv_ok ok busy s \<and> img_ok cfg (mem (chip s))" and p: "unat p < AT45D_PAGES cfg"
  show "\<exists>s'. fl_erase (at45d_flash cfg dev) s p = Some s' \<and> (drv_ok ok busy s' \<and> img_ok cfg (mem (chip s'))) \<and>
      mem (chip s') = (mem (chip s))(unat p := replicate (AT45D_PAGE_SIZE cfg) 0xFF)"
    using erase_page_image [OF _ small_page p, of s] s by (auto simp: at45d_flash_def img_erase_def img_ok_def)
qed

sublocale dataflash_small \<subseteq> drv: erase_flash "at45d_flash cfg dev" "AT45D_PAGE_SIZE cfg" "AT45D_PAGES cfg"
  "\<lambda>s. drv_ok ok busy s \<and> img_ok cfg (mem (chip s))" "\<lambda>s. mem (chip s)"
proof
  fix s s' and p n b :: u16 and bs :: "u8 list"
  assume s: "drv_ok ok busy s \<and> img_ok cfg (mem (chip s))" and p: "unat p < AT45D_PAGES cfg"
    and n: "0 < unat n" "unat b + unat n \<le> AT45D_PAGE_SIZE cfg" "unat n \<le> length bs"
    and w: "fl_wr (at45d_flash cfg dev) s bs p b n = Some s'"
  have "mem (chip s') = img_wr_erase cfg (mem (chip s)) (unat p) (unat b) (take (unat n) bs)"
    using wr_page_offset_image [OF _ small_page p n(3), of s b] s w by (auto simp: at45d_flash_def)
  then show "mem (chip s') (unat p) =
      replicate (unat b) 0xFF @ take (unat n) bs @ replicate (AT45D_PAGE_SIZE cfg - unat b - unat n) 0xFF"
    using n by (simp add: img_wr_erase_def img_fill_def)
qed

interpretation sim_driver: dataflash_small at45d_cfg_repo "sim_dev at45d_cfg_repo" "sim_ok at45d_cfg_repo" sim_mem sim_sram sim_busy
  by (unfold_locales) simp

section \<open>A flash memory as \<^verbatim>\<open>log_fs.h\<close> describes it\<close>

text \<open>\<^verbatim>\<open>Bits can be cleared (0), but not set (1).\<close> The pages are those below the bound in the first
  argument, all others are empty.\<close>

definition and_at :: "nat \<Rightarrow> u8 list \<Rightarrow> u8 list \<Rightarrow> u8 list" where
  "and_at b bs xs = map (\<lambda>i. if b \<le> i \<and> i < b + length bs then xs ! i AND bs ! (i - b) else xs ! i) [0..<length xs]"

definition nor_ops :: "nat \<Rightarrow> u8 list list flash_ops" where
  "nor_ops psize =
     \<lparr>fl_rd = (\<lambda>f p b n. if unat p < length f then Some (slice (unat b) (unat n) (f ! unat p), f) else None),
      fl_wr = (\<lambda>f bs p b n. if unat p < length f \<and> unat n \<le> length bs
                             then Some (f[unat p := and_at (unat b) (take (unat n) bs) (f ! unat p)]) else None),
      fl_erase = (\<lambda>f p. if unat p < length f then Some (f[unat p := replicate psize 0xFF]) else None)\<rparr>"

definition nor_inv :: "nat \<Rightarrow> nat \<Rightarrow> u8 list list \<Rightarrow> bool" where
  "nor_inv psize npages f \<longleftrightarrow> length f = npages \<and> (\<forall>p<npages. length (f ! p) = psize)"

definition nor_img :: "u8 list list \<Rightarrow> image" where
  "nor_img f p = (if p < length f then f ! p else [])"

lemma length_and_at [simp]: "length (and_at b bs xs) = length xs"
  by (simp add: and_at_def)

lemma and_at_clears:
  assumes "only_clears (slice b (length bs) xs) bs" "b + length bs \<le> length xs"
  shows "slice b (length bs) (and_at b bs xs) = bs"
  using assms by (intro nth_equalityI) (auto simp: length_slice nth_slice only_clears_def and_at_def)

lemma nor_img_upd: "p < length f \<Longrightarrow> nor_img (f[p := xs]) = (nor_img f)(p := xs)"
  by (auto simp: nor_img_def)

lemma nor_inv_upd: "nor_inv psize npages f \<Longrightarrow> length xs = psize \<Longrightarrow> nor_inv psize npages (f[p := xs])"
  by (cases "p < length f") (auto simp: nor_inv_def nth_list_update)

interpretation nor264: nor_flash "nor_ops 264" 264 npages "nor_inv 264 npages" nor_img
proof
  show "(264 :: nat) < 65536" by simp
next
  fix f p assume "nor_inv 264 npages f" "p < npages"
  then show "length (nor_img f p) = 264" by (auto simp: nor_inv_def nor_img_def)
next
  fix f and p n b :: u16 assume "nor_inv 264 npages f" "unat p < npages"
  then show "\<exists>f'. fl_rd (nor_ops 264) f p b n = Some (slice (unat b) (unat n) (nor_img f (unat p)), f') \<and>
      nor_inv 264 npages f' \<and> nor_img f' = nor_img f"
    by (auto simp: nor_ops_def nor_inv_def nor_img_def)
next
  fix f and p n b :: u16 and bs :: "u8 list"
  assume f: "nor_inv 264 npages f" and p: "unat p < npages" and n: "unat b + unat n \<le> 264" "unat n \<le> length bs"
  have l: "unat p < length f" "length (f ! unat p) = 264" using f p by (auto simp: nor_inv_def)
  have "only_clears (slice (unat b) (unat n) (f ! unat p)) (take (unat n) bs) \<Longrightarrow>
      slice (unat b) (unat n) (and_at (unat b) (take (unat n) bs) (f ! unat p)) = take (unat n) bs"
    using and_at_clears [of "unat b" "take (unat n) bs" "f ! unat p"] n l by (simp add: min_absorb2)
  then show "\<exists>f'. fl_wr (nor_ops 264) f bs p b n = Some f' \<and> nor_inv 264 npages f' \<and>
      (\<forall>q. q \<noteq> unat p \<longrightarrow> nor_img f' q = nor_img f q) \<and>
      (only_clears (slice (unat b) (unat n) (nor_img f (unat p))) (take (unat n) bs) \<longrightarrow>
        slice (unat b) (unat n) (nor_img f' (unat p)) = take (unat n) bs)"
    using f p n l by (auto simp: nor_ops_def nor_img_upd nor_inv_upd) (auto simp: nor_img_def)
next
  fix f and p :: u16 assume "nor_inv 264 npages f" "unat p < npages"
  then show "\<exists>f'. fl_erase (nor_ops 264) f p = Some f' \<and> nor_inv 264 npages f' \<and>
      nor_img f' = (nor_img f)(unat p := replicate 264 0xFF)"
    by (auto simp: nor_ops_def nor_img_upd nor_inv_upd) (simp_all add: nor_inv_def)
next
  fix f f' and p n b :: u16 and bs :: "u8 list" and i
  assume "nor_inv 264 npages f" "unat p < npages" "unat n \<le> length bs" "fl_wr (nor_ops 264) f bs p b n = Some f'"
    "i < 264" "i < unat b \<or> unat b + unat n \<le> i"
  then show "nor_img f' (unat p) ! i = nor_img f (unat p) ! i"
    by (auto simp: nor_ops_def nor_inv_def nor_img_def and_at_def split: if_splits)
qed

end
