(* ===== verification/Log_Fs_Records.thy ===== *)
theory Log_Fs_Records
  imports Log_Fs
begin

text \<open>
  The second half of \<^verbatim>\<open>src/data_Manager/log_fs.c\<close>: opening and deleting a file, reading records in
  both directions and appending a record, for both builds of \<^verbatim>\<open>LOG_FS_CFG_TYPE\<close>. The conventions are
  those of \<open>Log_Fs\<close>.
\<close>

section \<open>Opening a file\<close>

definition log_fs_no_records :: "u16 \<Rightarrow> 'f log_fs_t \<Rightarrow> 'f log_fs_t" where
  "log_fs_no_records page s =
     s\<lparr>rec_page_first := LOG_FS_PAGE_INVALID, rec_page_last := LOG_FS_PAGE_INVALID, rec_page_nr_next := 0,
       rec_adr_rd := (rec_adr_rd s)\<lparr>adr_page := LOG_FS_PAGE_INVALID\<rparr>,
       rec_adr_wr := \<lparr>adr_page = page, adr_offset = of_nat LOG_FS_REC_OFFSET_FIRST\<rparr>\<rparr>"

text \<open>The loop over the record pages of the file; \<open>first\<close> is the local \<^verbatim>\<open>rec_page_first\<close>, \<open>lo\<close> and \<open>hi\<close>
  bound the search.\<close>

partial_function (option) log_fs_open_loop ::
  "log_fs_cfg \<Rightarrow> 'f flash_ops \<Rightarrow> u16 \<Rightarrow> u16 \<Rightarrow> u16 \<Rightarrow> u16 \<Rightarrow> u16 \<Rightarrow> 'f log_fs_t \<Rightarrow> 'f log_fs_t option" where
  "log_fs_open_loop C fl lo hi first rec_nr_diff_largest rec_page s =
     do {
       let rec_nr = ph_nr (page_header s);
       (rec_page_next, s) \<leftarrow> log_fs_page_header_find_next C fl s LOG_FS_MARKER_RECORD lo hi rec_page;
       if rec_page_next = LOG_FS_PAGE_INVALID
       then Some (s\<lparr>rec_page_first := rec_page, rec_page_last := rec_page, rec_page_nr_next := rec_nr + 1\<rparr>)
       else do {
         let rec_nr_next = ph_nr (page_header s);
         let rec_nr_diff = rec_nr_next - rec_nr;
         let (rec_nr_diff_largest, s) =
           (if rec_nr_diff_largest < rec_nr_diff
            then (rec_nr_diff,
                  s\<lparr>rec_page_first := rec_page_next, rec_page_last := rec_page, rec_page_nr_next := rec_nr + 1\<rparr>)
            else (rec_nr_diff_largest, s));
         let rec_page = rec_page_next;
         if rec_page \<noteq> first then log_fs_open_loop C fl lo hi first rec_nr_diff_largest rec_page s
         else Some s
       }
     }"

text \<open>The search for a free record in a page: the last marker read and the offset where it stopped.\<close>

partial_function (option) log_fs_open_find_free ::
  "log_fs_cfg \<Rightarrow> 'f flash_ops \<Rightarrow> u16 \<Rightarrow> u8 \<Rightarrow> u16 \<Rightarrow> 'f log_fs_t \<Rightarrow> (u8 \<times> u16 \<times> 'f log_fs_t) option" where
  "log_fs_open_find_free C fl rec_page marker offset s =
     (if unat offset \<le> LOG_FS_REC_OFFSET_LAST C
      then do {
        (marker, s) \<leftarrow> log_fs_marker_rd fl s rec_page offset;
        if marker = LOG_FS_MARKER_FREE then Some (marker, offset, s)
        else log_fs_open_find_free C fl rec_page marker (offset + of_nat (sizeof_rec_block C)) s
      }
      else Some (marker, offset, s))"

declare log_fs_open_loop.simps [code] log_fs_open_find_free.simps [code]

text \<open>The bounds of the search for record pages, after the file block has been read; \<open>None\<close> in the
  first component: the file is followed directly by another one.\<close>

definition log_fs_open_bounds ::
  "log_fs_cfg \<Rightarrow> 'f flash_ops \<Rightarrow> 'f log_fs_t \<Rightarrow> (u16 option \<times> u16 \<times> 'f log_fs_t) option" where
  "log_fs_open_bounds C fl s =
     do {
       rec_search_page_start \<leftarrow> log_fs_record_pages_bound_start C s;
       (marker, s) \<leftarrow> log_fs_page_header_rd fl s rec_search_page_start;
       if marker = LOG_FS_MARKER_FILE then Some (None, rec_search_page_start, s)
       else do {
         rec_search_page_end \<leftarrow> log_fs_record_pages_bound_end C s;
         if file_page_first s \<noteq> file_page_last s
         then do {
           (rec_search_page_end, s) \<leftarrow> log_fs_page_header_find_first C fl s LOG_FS_MARKER_FILE rec_search_page_start
              (start_page (fi_file (file_info s)));
           if rec_search_page_end = rec_search_page_start then Some (None, rec_search_page_start, s)
           else if rec_search_page_end \<noteq> LOG_FS_PAGE_INVALID
           then do {
             rec_search_page_end \<leftarrow> log_fs_page_previous C rec_search_page_end;
             Some (Some rec_search_page_end, rec_search_page_start, s)
           }
           else do {
             rec_search_page_end \<leftarrow> log_fs_record_pages_bound_end C s;
             Some (Some rec_search_page_end, rec_search_page_start, s)
           }
         }
         else Some (Some rec_search_page_end, rec_search_page_start, s)
       }
     }"

text \<open>The last part of \<^verbatim>\<open>log_fs_open\<close>: where the next record will be written. Before the loop \<^verbatim>\<open>marker\<close>
  has no value; the loop runs at least once.\<close>

definition log_fs_open_write_position ::
  "log_fs_cfg \<Rightarrow> 'f flash_ops \<Rightarrow> u16 \<Rightarrow> u16 \<Rightarrow> 'f log_fs_t \<Rightarrow> 'f log_fs_t option" where
  "log_fs_open_write_position C fl lo hi s =
     do {
       let rec_page = rec_page_last s;
       (marker, offset, s) \<leftarrow> log_fs_open_find_free C fl rec_page LOG_FS_MARKER_BAD (of_nat LOG_FS_REC_OFFSET_FIRST) s;
       if marker = LOG_FS_MARKER_FREE
       then Some (s\<lparr>rec_adr_wr := \<lparr>adr_page = rec_page, adr_offset = offset\<rparr>\<rparr>)
       else do {
         rec_page \<leftarrow> log_fs_page_next C rec_page;
         bound_end \<leftarrow> log_fs_record_pages_bound_end C s;
         after_end \<leftarrow> log_fs_page_next C bound_end;
         (rec_page, s) \<leftarrow> (case LOG_FS_CFG_TYPE C of
             LOG_FS_CFG_TYPE_LINEAR \<Rightarrow>
               (if rec_page \<noteq> after_end
                then do {
                  (marker, s) \<leftarrow> log_fs_marker_rd fl s rec_page 0;
                  if marker = LOG_FS_MARKER_FILE then Some (rec_page, s)
                  else if marker \<noteq> LOG_FS_MARKER_FREE
                  then do { s \<leftarrow> flash_erase fl s rec_page; Some (rec_page, s) }
                  else Some (rec_page, s)
                }
                else Some (rec_page, s))
           | LOG_FS_CFG_TYPE_CIRCULAR \<Rightarrow>
               do {
                 (wrap, s) \<leftarrow> (if rec_page = after_end then Some (True, s)
                               else do { (marker, s) \<leftarrow> log_fs_marker_rd fl s rec_page 0; Some (marker = LOG_FS_MARKER_FILE, s) });
                 rec_page \<leftarrow> (if wrap then log_fs_record_pages_bound_start C s else Some rec_page);
                 s \<leftarrow> flash_erase fl s rec_page;
                 if rec_page = rec_page_first s
                 then do {
                   (p, s) \<leftarrow> log_fs_page_header_find_next C fl s LOG_FS_MARKER_RECORD lo hi rec_page;
                   Some (rec_page, s\<lparr>rec_page_first := p\<rparr>)
                 }
                 else Some (rec_page, s)
               });
         Some (s\<lparr>rec_adr_wr := \<lparr>adr_page = rec_page, adr_offset = of_nat LOG_FS_REC_OFFSET_FIRST\<rparr>\<rparr>)
       }
     }"

definition log_fs_open ::
  "log_fs_cfg \<Rightarrow> 'f flash_ops \<Rightarrow> 'f log_fs_t \<Rightarrow> log_fs_file_t option \<Rightarrow> (log_fs_err_t \<times> 'f log_fs_t) option" where
  "log_fs_open C fl s file = (case file of
      None \<Rightarrow> Some (LOG_FS_ERR_FILE_INVALID, s)
    | Some file \<Rightarrow> do {
        (r, s) \<leftarrow> log_fs_file_block_rd fl s (start_page file);
        if \<not> r then Some (LOG_FS_ERR_FILE_INVALID, s)
        else do {
          (hi, lo, s) \<leftarrow> log_fs_open_bounds C fl s;
          (case hi of
             None \<Rightarrow> Some (LOG_FS_ERR_NONE, log_fs_no_records lo s)
           | Some hi \<Rightarrow> do {
               (first, s) \<leftarrow> log_fs_page_header_find_first C fl s LOG_FS_MARKER_RECORD lo hi;
               if first = LOG_FS_PAGE_INVALID
               then do {
                 let s = log_fs_no_records lo s;
                 (marker, s) \<leftarrow> log_fs_marker_rd fl s lo 0;
                 s \<leftarrow> (if marker \<noteq> LOG_FS_MARKER_FREE then flash_erase fl s lo else Some s);
                 Some (LOG_FS_ERR_NONE, s)
               }
               else do {
                 s \<leftarrow> log_fs_open_loop C fl lo hi first 0 first s;
                 s \<leftarrow> log_fs_open_write_position C fl lo hi s;
                 Some (LOG_FS_ERR_NONE, s)
               }
             })
        }
      })"

section \<open>Deleting a file\<close>

partial_function (option) log_fs_delete_loop ::
  "log_fs_cfg \<Rightarrow> 'f flash_ops \<Rightarrow> u16 \<Rightarrow> 'f log_fs_t \<Rightarrow> (u16 \<times> 'f log_fs_t) option" where
  "log_fs_delete_loop C fl page s =
     do {
       page \<leftarrow> log_fs_page_previous C page;
       (marker, s) \<leftarrow> log_fs_page_header_rd fl s page;
       s \<leftarrow> (if marker = LOG_FS_MARKER_RECORD
             then do { (_, s) \<leftarrow> log_fs_marker_wr fl s LOG_FS_MARKER_BAD page 0; Some s } else Some s);
       if marker \<noteq> LOG_FS_MARKER_FILE then log_fs_delete_loop C fl page s else Some (page, s)
     }"

declare log_fs_delete_loop.simps [code]

definition log_fs_file_delete ::
  "log_fs_cfg \<Rightarrow> 'f flash_ops \<Rightarrow> 'f log_fs_t \<Rightarrow> log_fs_file_t \<Rightarrow> (log_fs_err_t \<times> 'f log_fs_t) option" where
  "log_fs_file_delete C fl s file =
     (let page = start_page file in
      if page \<noteq> file_page_first s then Some (LOG_FS_ERR_FILE_INVALID, s)
      else do {
        (r, s) \<leftarrow> log_fs_file_block_rd fl s page;
        if \<not> r then Some (LOG_FS_ERR_FILE_INVALID, s)
        else do {
          (page, s) \<leftarrow> (if file_page_first s = file_page_last s
             then Some (page, s\<lparr>file_page_first := LOG_FS_PAGE_INVALID, file_page_last := LOG_FS_PAGE_INVALID\<rparr>)
             else do {
               (page, s) \<leftarrow> log_fs_page_header_find_next C fl s LOG_FS_MARKER_FILE
                  (file_page_first s) (file_page_last s) (file_page_first s);
               Some (page, s\<lparr>file_page_first := page\<rparr>)
             });
          (page, s) \<leftarrow> log_fs_delete_loop C fl page s;
          (_, s) \<leftarrow> log_fs_marker_wr fl s LOG_FS_MARKER_BAD page 0;
          Some (LOG_FS_ERR_NONE, s)
        }
      })"

section \<open>Reading records\<close>

text \<open>The bytes copied to the caller are the middle component, when a record was found.\<close>

type_synonym 'f rd_result = "(log_fs_err_t \<times> u8 list option \<times> 'f log_fs_t) option"

text \<open>The inner \<^verbatim>\<open>do ... while\<close> of \<^verbatim>\<open>log_fs_record_rd_next\<close>: the next record page, or the error that the
  function returns.\<close>

partial_function (option) log_fs_rd_next_page ::
  "log_fs_cfg \<Rightarrow> 'f flash_ops \<Rightarrow> u16 \<Rightarrow> u16 \<Rightarrow> 'f log_fs_t \<Rightarrow> ((log_fs_err_t + u16) \<times> 'f log_fs_t) option" where
  "log_fs_rd_next_page C fl page offset s =
     (case LOG_FS_CFG_TYPE C of
        LOG_FS_CFG_TYPE_LINEAR \<Rightarrow> do {
          page \<leftarrow> log_fs_page_next C page;
          if page = adr_page (rec_adr_rd s)
          then Some (Inl LOG_FS_ERR_NO_RECORD, s\<lparr>rec_adr_rd := (rec_adr_rd s)\<lparr>adr_page := LOG_FS_PAGE_INVALID\<rparr>\<rparr>)
          else do {
            (marker, s) \<leftarrow> log_fs_page_header_rd fl s page;
            if marker = LOG_FS_MARKER_FILE then Some (Inl LOG_FS_ERR_NO_RECORD, s)
            else if marker \<noteq> LOG_FS_MARKER_RECORD then log_fs_rd_next_page C fl page offset s
            else Some (Inr page, s)
          }
        }
      | LOG_FS_CFG_TYPE_CIRCULAR \<Rightarrow> do {
          bound_end \<leftarrow> log_fs_record_pages_bound_end C s;
          page \<leftarrow> (if page = bound_end then log_fs_record_pages_bound_start C s else log_fs_page_next C page);
          if page = adr_page (rec_adr_wr s) \<and> offset = adr_offset (rec_adr_wr s)
          then Some (Inl LOG_FS_ERR_NO_RECORD, s)
          else do {
            (marker, s) \<leftarrow> log_fs_page_header_rd fl s page;
            if marker \<noteq> LOG_FS_MARKER_RECORD then log_fs_rd_next_page C fl page offset s
            else Some (Inr page, s)
          }
        })"

partial_function (option) log_fs_rd_next_loop ::
  "log_fs_cfg \<Rightarrow> 'f flash_ops \<Rightarrow> nat \<Rightarrow> u16 \<Rightarrow> u16 \<Rightarrow> 'f log_fs_t \<Rightarrow> 'f rd_result" where
  "log_fs_rd_next_loop C fl nr_of_bytes page offset s =
     do {
       (r, offset, s) \<leftarrow> (if unat offset \<ge> LOG_FS_REC_OFFSET_LAST C
          then do {
            let offset = of_nat LOG_FS_REC_OFFSET_FIRST;
            (r, s) \<leftarrow> log_fs_rd_next_page C fl page offset s;
            Some (r, offset, s)
          }
          else Some (Inr page, offset + of_nat (sizeof_rec_block C), s));
       (case r of
          Inl err \<Rightarrow> Some (err, None, s)
        | Inr page \<Rightarrow>
            if page = adr_page (rec_adr_wr s) \<and> offset = adr_offset (rec_adr_wr s)
            then Some (LOG_FS_ERR_NO_RECORD, None, s)
            else do {
              (ok, s) \<leftarrow> log_fs_record_block_rd C fl s page offset;
              if ok
              then Some (LOG_FS_ERR_NONE, Some (take nr_of_bytes (rb_data (record_block s))),
                         s\<lparr>rec_adr_rd := \<lparr>adr_page = page, adr_offset = offset\<rparr>\<rparr>)
              else log_fs_rd_next_loop C fl nr_of_bytes page offset s
            })
     }"

definition log_fs_record_rd_next :: "log_fs_cfg \<Rightarrow> 'f flash_ops \<Rightarrow> 'f log_fs_t \<Rightarrow> nat \<Rightarrow> 'f rd_result" where
  "log_fs_record_rd_next C fl s nr_of_bytes =
     log_fs_rd_next_loop C fl
       (if nr_of_bytes > LOG_FS_CFG_REC_DATA_SIZE C then LOG_FS_CFG_REC_DATA_SIZE C else nr_of_bytes)
       (adr_page (rec_adr_rd s)) (adr_offset (rec_adr_rd s)) s"

partial_function (option) log_fs_rd_previous_page ::
  "log_fs_cfg \<Rightarrow> 'f flash_ops \<Rightarrow> u16 \<Rightarrow> 'f log_fs_t \<Rightarrow> ((log_fs_err_t + u16) \<times> 'f log_fs_t) option" where
  "log_fs_rd_previous_page C fl page s =
     do {
       (page, stop) \<leftarrow> (case LOG_FS_CFG_TYPE C of
          LOG_FS_CFG_TYPE_LINEAR \<Rightarrow> do {
            page \<leftarrow> log_fs_page_previous C page;
            Some (page, page = start_page (fi_file (file_info s)))
          }
        | LOG_FS_CFG_TYPE_CIRCULAR \<Rightarrow> do {
            bound_start \<leftarrow> log_fs_record_pages_bound_start C s;
            page \<leftarrow> (if page = bound_start then log_fs_record_pages_bound_end C s else log_fs_page_previous C page);
            Some (page, page = adr_page (rec_adr_wr s))
          });
       if stop then Some (Inl LOG_FS_ERR_NO_RECORD, s)
       else do {
         (marker, s) \<leftarrow> log_fs_page_header_rd fl s page;
         if marker \<noteq> LOG_FS_MARKER_RECORD then log_fs_rd_previous_page C fl page s
         else Some (Inr page, s)
       }
     }"

partial_function (option) log_fs_rd_previous_loop ::
  "log_fs_cfg \<Rightarrow> 'f flash_ops \<Rightarrow> nat \<Rightarrow> u16 \<Rightarrow> u16 \<Rightarrow> 'f log_fs_t \<Rightarrow> 'f rd_result" where
  "log_fs_rd_previous_loop C fl nr_of_bytes page offset s =
     do {
       (r, offset, s) \<leftarrow> (if unat offset \<le> LOG_FS_REC_OFFSET_FIRST
          then do {
            (r, s) \<leftarrow> log_fs_rd_previous_page C fl page s;
            Some (r, of_nat (LOG_FS_REC_OFFSET_LAST C), s)
          }
          else Some (Inr page, offset - of_nat (sizeof_rec_block C), s));
       (case r of
          Inl err \<Rightarrow> Some (err, None, s)
        | Inr page \<Rightarrow> do {
            (ok, s) \<leftarrow> log_fs_record_block_rd C fl s page offset;
            if ok
            then Some (LOG_FS_ERR_NONE, Some (take nr_of_bytes (rb_data (record_block s))),
                       s\<lparr>rec_adr_rd := \<lparr>adr_page = page, adr_offset = offset\<rparr>\<rparr>)
            else log_fs_rd_previous_loop C fl nr_of_bytes page offset s
          })
     }"

definition log_fs_record_rd_previous :: "log_fs_cfg \<Rightarrow> 'f flash_ops \<Rightarrow> 'f log_fs_t \<Rightarrow> nat \<Rightarrow> 'f rd_result" where
  "log_fs_record_rd_previous C fl s nr_of_bytes =
     log_fs_rd_previous_loop C fl
       (if nr_of_bytes > LOG_FS_CFG_REC_DATA_SIZE C then LOG_FS_CFG_REC_DATA_SIZE C else nr_of_bytes)
       (adr_page (rec_adr_rd s)) (adr_offset (rec_adr_rd s)) s"

declare log_fs_rd_next_page.simps [code] log_fs_rd_next_loop.simps [code]
  log_fs_rd_previous_page.simps [code] log_fs_rd_previous_loop.simps [code]

definition log_fs_record_rd_first :: "log_fs_cfg \<Rightarrow> 'f flash_ops \<Rightarrow> 'f log_fs_t \<Rightarrow> nat \<Rightarrow> 'f rd_result" where
  "log_fs_record_rd_first C fl s nr_of_bytes =
     (if rec_page_first s = LOG_FS_PAGE_INVALID then Some (LOG_FS_ERR_NO_RECORD, None, s)
      else do {
        page \<leftarrow> log_fs_page_previous C (rec_page_first s);
        log_fs_record_rd_next C fl
          (s\<lparr>rec_adr_rd := \<lparr>adr_page = page, adr_offset = of_nat (LOG_FS_REC_OFFSET_LAST C)\<rparr>\<rparr>) nr_of_bytes
      })"

definition log_fs_record_rd_last :: "log_fs_cfg \<Rightarrow> 'f flash_ops \<Rightarrow> 'f log_fs_t \<Rightarrow> nat \<Rightarrow> 'f rd_result" where
  "log_fs_record_rd_last C fl s nr_of_bytes =
     (if rec_page_last s = LOG_FS_PAGE_INVALID then Some (LOG_FS_ERR_NO_RECORD, None, s)
      else log_fs_record_rd_previous C fl (s\<lparr>rec_adr_rd := rec_adr_wr s\<rparr>) nr_of_bytes)"

section \<open>Appending a record\<close>

text \<open>Steps of \<^verbatim>\<open>log_fs_record_wr\<close>. The first: the page header when the record is the first of its page,
  with the early returns as \<open>Inl\<close>.\<close>

definition log_fs_at_end ::
  "log_fs_cfg \<Rightarrow> u16 \<Rightarrow> u8 \<Rightarrow> 'f log_fs_t \<Rightarrow> bool option" where
  "log_fs_at_end C page marker s =
     (if marker = LOG_FS_MARKER_FILE then Some True
      else do {
        bound_end \<leftarrow> log_fs_record_pages_bound_end C s;
        after_end \<leftarrow> log_fs_page_next C bound_end;
        Some (page = after_end)
      })"

definition log_fs_wr_header_failed ::
  "log_fs_cfg \<Rightarrow> 'f flash_ops \<Rightarrow> u16 \<Rightarrow> 'f log_fs_t \<Rightarrow> (log_fs_err_t \<times> 'f log_fs_t) option" where
  "log_fs_wr_header_failed C fl page s =
     do {
       page \<leftarrow> log_fs_page_next C page;
       (marker, s) \<leftarrow> log_fs_marker_rd fl s page 0;
       at_end \<leftarrow> log_fs_at_end C page marker s;
       if at_end \<and> LOG_FS_CFG_TYPE C = LOG_FS_CFG_TYPE_LINEAR then Some (LOG_FS_ERR_FULL, s)
       else do {
         page \<leftarrow> (if at_end then log_fs_record_pages_bound_start C s else Some page);
         s \<leftarrow> flash_erase fl s page;
         let s = s\<lparr>rec_adr_wr := (rec_adr_wr s)\<lparr>adr_page := page\<rparr>\<rparr>;
         s \<leftarrow> (if LOG_FS_CFG_TYPE C = LOG_FS_CFG_TYPE_CIRCULAR \<and> page = rec_page_first s
               then do {
                 lo \<leftarrow> log_fs_record_pages_bound_start C s;
                 hi \<leftarrow> log_fs_record_pages_bound_end C s;
                 (p, s) \<leftarrow> log_fs_page_header_find_next C fl s LOG_FS_MARKER_RECORD lo hi (rec_page_first s);
                 Some (s\<lparr>rec_page_first := p\<rparr>)
               }
               else Some s);
         Some (LOG_FS_ERR_WRITE_FAIL, s)
       }
     }"

definition log_fs_wr_page_header ::
  "log_fs_cfg \<Rightarrow> 'f flash_ops \<Rightarrow> u16 \<Rightarrow> 'f log_fs_t \<Rightarrow> (log_fs_err_t option \<times> 'f log_fs_t) option" where
  "log_fs_wr_page_header C fl page s =
     do {
       (marker, s) \<leftarrow> log_fs_marker_rd fl s page 0;
       full \<leftarrow> (if LOG_FS_CFG_TYPE C = LOG_FS_CFG_TYPE_LINEAR then log_fs_at_end C page marker s else Some False);
       if full then Some (Some LOG_FS_ERR_FULL, s)
       else do {
         s \<leftarrow> (if marker = LOG_FS_MARKER_BAD then flash_erase fl s page else Some s);
         let s = s\<lparr>page_header := (page_header s)\<lparr>ph_marker := LOG_FS_MARKER_RECORD, ph_nr := rec_page_nr_next s\<rparr>\<rparr>;
         (r, s) \<leftarrow> log_fs_page_header_wr fl s page;
         if \<not> r
         then do { (e, s) \<leftarrow> log_fs_wr_header_failed C fl page s; Some (Some e, s) }
         else do {
           let s = s\<lparr>rec_page_nr_next := rec_page_nr_next s + 1\<rparr>;
           let s = s\<lparr>rec_page_last := page\<rparr>;
           let s = (if rec_page_first s = LOG_FS_PAGE_INVALID then s\<lparr>rec_page_first := page\<rparr> else s);
           Some (None, s)
         }
       }
     }"

text \<open>The copy of the data into the record: what the caller gave, then 0xFF. \<open>None\<close> when the caller's
  buffer is too short.\<close>

definition log_fs_wr_copy :: "log_fs_cfg \<Rightarrow> u8 list \<Rightarrow> nat \<Rightarrow> u8 list option" where
  "log_fs_wr_copy C data nr_of_bytes =
     (let k = min nr_of_bytes (LOG_FS_CFG_REC_DATA_SIZE C) in
      if k \<le> length data then Some (take k data @ replicate (LOG_FS_CFG_REC_DATA_SIZE C - k) 0xFF) else None)"

definition log_fs_wr_next_page ::
  "log_fs_cfg \<Rightarrow> 'f flash_ops \<Rightarrow> u16 \<Rightarrow> 'f log_fs_t \<Rightarrow> (u16 \<times> 'f log_fs_t) option" where
  "log_fs_wr_next_page C fl page s =
     do {
       page \<leftarrow> log_fs_page_next C page;
       bound_end \<leftarrow> log_fs_record_pages_bound_end C s;
       after_end \<leftarrow> log_fs_page_next C bound_end;
       (at_end, s) \<leftarrow> (if page = after_end then Some (True, s)
          else do { (marker, s) \<leftarrow> log_fs_marker_rd fl s page 0; Some (marker = LOG_FS_MARKER_FILE, s) });
       (case LOG_FS_CFG_TYPE C of
          LOG_FS_CFG_TYPE_LINEAR \<Rightarrow>
            (if \<not> at_end then do { s \<leftarrow> flash_erase fl s page; Some (page, s) } else Some (page, s))
        | LOG_FS_CFG_TYPE_CIRCULAR \<Rightarrow> do {
            page \<leftarrow> (if at_end then log_fs_record_pages_bound_start C s else Some page);
            s \<leftarrow> flash_erase fl s page;
            if page = rec_page_first s
            then do {
              lo \<leftarrow> log_fs_record_pages_bound_start C s;
              hi \<leftarrow> log_fs_record_pages_bound_end C s;
              (p, s) \<leftarrow> log_fs_page_header_find_next C fl s LOG_FS_MARKER_RECORD lo hi (rec_page_first s);
              Some (page, s\<lparr>rec_page_first := p\<rparr>)
            }
            else Some (page, s)
          })
     }"

definition log_fs_record_wr ::
  "log_fs_cfg \<Rightarrow> 'f flash_ops \<Rightarrow> 'f log_fs_t \<Rightarrow> u8 list \<Rightarrow> nat \<Rightarrow> (log_fs_err_t \<times> 'f log_fs_t) option" where
  "log_fs_record_wr C fl s data nr_of_bytes =
     do {
       let page = adr_page (rec_adr_wr s);
       let offset = adr_offset (rec_adr_wr s);
       (ret, s) \<leftarrow> (if unat offset = LOG_FS_REC_OFFSET_FIRST then log_fs_wr_page_header C fl page s else Some (None, s));
       (case ret of
          Some err \<Rightarrow> Some (err, s)
        | None \<Rightarrow> do {
            d \<leftarrow> log_fs_wr_copy C data nr_of_bytes;
            let s = s\<lparr>record_block := (record_block s)\<lparr>rb_data := d\<rparr>\<rparr>;
            (success, s) \<leftarrow> log_fs_record_block_wr C fl s page offset;
            s \<leftarrow> (if unat offset = LOG_FS_REC_OFFSET_LAST C
                  then do {
                    (page, s) \<leftarrow> log_fs_wr_next_page C fl page s;
                    Some (s\<lparr>rec_adr_wr := \<lparr>adr_page = page, adr_offset = of_nat LOG_FS_REC_OFFSET_FIRST\<rparr>\<rparr>)
                  }
                  else Some (s\<lparr>rec_adr_wr := (rec_adr_wr s)\<lparr>adr_offset := offset + of_nat (sizeof_rec_block C)\<rparr>\<rparr>));
            Some (if success then LOG_FS_ERR_NONE else LOG_FS_ERR_WRITE_FAIL, s)
          })
     }"

section \<open>Overview\<close>

text \<open>What \<^verbatim>\<open>log_fs_info\<close> prints for each page (marker letter and rolling number) and the state after it;
  the fixed lines of the printout are left out. The loop counter is 16 bits wide.\<close>

partial_function (option) log_fs_info_loop ::
  "log_fs_cfg \<Rightarrow> 'f flash_ops \<Rightarrow> u16 \<Rightarrow> 'f log_fs_t \<Rightarrow> ((u8 \<times> u16 option) list \<times> 'f log_fs_t) option" where
  "log_fs_info_loop C fl page s =
     (if page \<le> LOG_FS_CFG_PAGE_END C
      then do {
        (marker, s) \<leftarrow> log_fs_page_header_rd fl s page;
        let entry = (marker, if marker = LOG_FS_MARKER_FILE \<or> marker = LOG_FS_MARKER_RECORD
                             then Some (ph_nr (page_header s)) else None);
        (es, s) \<leftarrow> log_fs_info_loop C fl (page + 1) s;
        Some (entry # es, s)
      }
      else Some ([], s))"

declare log_fs_info_loop.simps [code]

definition log_fs_info ::
  "log_fs_cfg \<Rightarrow> 'f flash_ops \<Rightarrow> 'f log_fs_t \<Rightarrow> ((u8 \<times> u16 option) list \<times> 'f log_fs_t) option" where
  "log_fs_info C fl s = log_fs_info_loop C fl (LOG_FS_CFG_PAGE_START C) s"

end
