(* ===== verification/Log_Fs_Facts.thy ===== *)
theory Log_Fs_Facts
  imports Flash Log_Fs_Records
begin

text \<open>
  Foundations of the proofs about the log file system: the ring of pages, the checksum (every step of it
  is injective), the packed structures, and reading markers and page headers on a flash that keeps the
  contract \<open>page_flash\<close>. \<open>page_kind\<close> is what the header of a page means; \<open>scanned\<close> relates the states
  before and after headers have been read.
\<close>

section \<open>The ring of pages\<close>

definition cfg_ok :: "log_fs_cfg \<Rightarrow> bool" where
  "cfg_ok C \<longleftrightarrow> LOG_FS_CFG_PAGE_START C \<le> LOG_FS_CFG_PAGE_END C \<and> LOG_FS_CFG_PAGE_END C < LOG_FS_PAGE_INVALID \<and>
     0 < LOG_FS_CFG_REC_DATA_SIZE C \<and> sizeof_rec_block C \<le> LOG_FS_REC_PAGE_DATA_SIZE C \<and>
     sizeof_page_header + sizeof_file_info \<le> LOG_FS_CFG_PAGE_SIZE C \<and> LOG_FS_CFG_PAGE_SIZE C < 65536"

lemma cfg_ok_repo: "cfg_ok log_fs_cfg_repo"
  by (simp add: cfg_ok_def log_fs_cfg_repo_def LOG_FS_PAGE_INVALID_def sizeof_rec_block_def LOG_FS_REC_PAGE_DATA_SIZE_def
      sizeof_page_header_def sizeof_file_info_def)

definition next_page :: "log_fs_cfg \<Rightarrow> u16 \<Rightarrow> u16" where
  "next_page C p = (if p = LOG_FS_CFG_PAGE_END C then LOG_FS_CFG_PAGE_START C else p + 1)"

definition prev_page :: "log_fs_cfg \<Rightarrow> u16 \<Rightarrow> u16" where
  "prev_page C p = (if p = LOG_FS_CFG_PAGE_START C then LOG_FS_CFG_PAGE_END C else p - 1)"

lemma page_next_eq [simp]: "in_range C p \<Longrightarrow> log_fs_page_next C p = Some (next_page C p)"
  by (simp add: log_fs_page_next_def next_page_def DBG_ASSERT_def in_range_def)

lemma page_previous_eq [simp]: "in_range C p \<Longrightarrow> log_fs_page_previous C p = Some (prev_page C p)"
  by (simp add: log_fs_page_previous_def prev_page_def DBG_ASSERT_def in_range_def)

lemma in_range_unat: "in_range C p \<longleftrightarrow> unat (LOG_FS_CFG_PAGE_START C) \<le> unat p \<and> unat p \<le> unat (LOG_FS_CFG_PAGE_END C)"
  by (simp add: in_range_def word_le_nat_alt)

lemma in_range_valid: "cfg_ok C \<Longrightarrow> in_range C p \<Longrightarrow> p \<noteq> LOG_FS_PAGE_INVALID"
  by (auto simp: cfg_ok_def in_range_def)

lemma unat_next_page:
  assumes "in_range C p"
  shows "unat (next_page C p) = (if p = LOG_FS_CFG_PAGE_END C then unat (LOG_FS_CFG_PAGE_START C) else Suc (unat p))"
proof -
  have "p \<noteq> LOG_FS_CFG_PAGE_END C \<Longrightarrow> unat p < unat (LOG_FS_CFG_PAGE_END C)"
    using assms by (auto simp: in_range_unat le_less word_unat_eq_iff)
  then show ?thesis using unat_u16_lt [of "LOG_FS_CFG_PAGE_END C"] by (auto simp: next_page_def unat_Suc_small)
qed

lemma unat_prev_page:
  assumes "in_range C p"
  shows "unat (prev_page C p) = (if p = LOG_FS_CFG_PAGE_START C then unat (LOG_FS_CFG_PAGE_END C) else unat p - 1)"
proof -
  have "p \<noteq> LOG_FS_CFG_PAGE_START C \<Longrightarrow> (1 :: u16) \<le> p"
    using assms by (auto simp: in_range_unat word_le_nat_alt word_unat_eq_iff)
  then show ?thesis by (auto simp: prev_page_def unat_sub_ge)
qed

lemma next_page_range: "in_range C p \<Longrightarrow> in_range C (next_page C p)"
  by (auto simp: in_range_unat unat_next_page) (auto simp: word_unat_eq_iff le_less_Suc_eq)

lemma prev_page_range: "in_range C p \<Longrightarrow> in_range C (prev_page C p)"
  by (auto simp: in_range_unat unat_prev_page) (auto simp: word_unat_eq_iff)

lemma prev_next_page: "in_range C p \<Longrightarrow> prev_page C (next_page C p) = p"
  using unat_next_page [of C p] by (auto simp: prev_page_def next_page_def in_range_unat)

lemma next_prev_page:
  assumes "in_range C p"
  shows "next_page C (prev_page C p) = p"
proof (cases "p = LOG_FS_CFG_PAGE_START C")
  case False
  then have "unat (LOG_FS_CFG_PAGE_START C) < unat p" using assms by (auto simp: in_range_unat le_less word_unat_eq_iff)
  then have "unat (prev_page C p) \<noteq> unat (LOG_FS_CFG_PAGE_END C)" using assms False by (auto simp: unat_prev_page in_range_unat)
  then show ?thesis using False by (auto simp: next_page_def prev_page_def)
qed (simp add: next_page_def prev_page_def)

section \<open>The checksum\<close>

lemma bit_0xB2: "bit (0xB2 :: u8) n \<longleftrightarrow> n \<in> {1, 4, 5, 7}"
proof (cases "n < 8")
  case True
  then have "n \<in> {0, 1, 2, 3, 4, 5, 6, 7}" by auto
  then show ?thesis by auto
next
  case False
  then show ?thesis using bit_imp_le_length [of "0xB2 :: u8" n] by auto
qed

lemma crc_bit_top: "bit (crc_bit c) 7 \<longleftrightarrow> bit c 0"
  using bit_imp_le_length [of c 8] by (auto simp: crc_bit_def bit_simps and_one_eq odd_iff_mod_2_eq_one bit_0)

lemma xor_cancel_left: "(c :: u8) XOR a = c XOR b \<Longrightarrow> a = b"
  by (metis xor.assoc xor_self_eq xor.left_neutral)

lemma xor_cancel_right: "(a :: u8) XOR c = b XOR c \<Longrightarrow> a = b"
  by (metis xor.commute xor_cancel_left)

lemma crc_bit_inj: "crc_bit a = crc_bit b \<Longrightarrow> a = b"
proof -
  assume eq: "crc_bit a = crc_bit b"
  then have z: "bit a 0 = bit b 0" using crc_bit_top by metis
  then have "a AND 1 = b AND 1" by (simp add: and_one_eq bit_0 mod_2_eq_odd)
  then have "drop_bit 1 a = drop_bit 1 b" using eq by (auto simp: crc_bit_def split: if_splits dest: xor_cancel_right)
  then have "bit a (Suc n) = bit b (Suc n)" for n by (metis bit_drop_bit_eq comp_apply plus_1_eq_Suc)
  then show "a = b" using z by (intro bit_word_eqI) (metis not0_implies_Suc)
qed

lemma crc_byte_inj: "(crc_bit ^^ n) a = (crc_bit ^^ n) b \<Longrightarrow> a = b"
  by (induction n) (auto dest: crc_bit_inj)

lemma crc_loop_append: "log_fs_crc_loop c (xs @ ys) = log_fs_crc_loop (log_fs_crc_loop c xs) ys"
  by (induction xs arbitrary: c) auto

lemma crc_loop_inj: "log_fs_crc_loop a xs = log_fs_crc_loop b xs \<Longrightarrow> a = b"
  by (induction xs arbitrary: a b) (auto dest!: crc_byte_inj xor_cancel_right)

lemma crc_one_byte:
  "x \<noteq> y \<Longrightarrow> log_fs_crc_calc (xs @ x # ys) \<noteq> log_fs_crc_calc (xs @ y # ys)"
  by (auto simp: log_fs_crc_calc_def crc_loop_append dest!: crc_loop_inj crc_byte_inj xor_cancel_left)

section \<open>Structures and bytes\<close>

lemma u16_roundtrip [simp]: "u16_of_bytes (ucast w) (ucast (drop_bit 8 w)) = w"
  by (rule bit_word_eqI) (auto simp: u16_of_bytes_def bit_simps)

lemma u16_roundtrip_back [simp]: "u16_bytes (u16_of_bytes lo hi) = [lo, hi]"
  by (auto simp: u16_bytes_def u16_of_bytes_def intro!: bit_word_eqI)
    (auto simp: bit_simps dest: bit_imp_le_length)


lemma page_header_roundtrip [simp]: "page_header_of_bytes (page_header_bytes h) = h"
  by (simp add: page_header_of_bytes_def page_header_bytes_def u16_bytes_def)

lemma file_info_roundtrip [simp]: "file_info_of_bytes (file_info_bytes i) = i"
  by (simp add: file_info_of_bytes_def file_info_bytes_def u16_bytes_def Let_def)

lemma rec_block_roundtrip [simp]: "rec_block_of_bytes (rec_block_bytes r) = r"
  by (simp add: rec_block_of_bytes_def rec_block_bytes_def)

lemma length_page_header_bytes [simp]: "length (page_header_bytes h) = sizeof_page_header"
  by (simp add: page_header_bytes_def u16_bytes_def sizeof_page_header_def)

lemma length_file_info_bytes [simp]: "length (file_info_bytes i) = sizeof_file_info"
  by (simp add: file_info_bytes_def u16_bytes_def sizeof_file_info_def Let_def)

lemma length_rec_block_bytes [simp]: "length (rec_block_bytes r) = length (rb_data r) + 2"
  by (simp add: rec_block_bytes_def)

lemma page_header_bytes_back:
  assumes "length b = 4"
  shows "page_header_bytes (page_header_of_bytes b) = b"
proof -
  obtain b0 b1 b2 b3 where "b = [b0, b1, b2, b3]"
    using assms by (auto simp: eval_nat_numeral length_Suc_conv)
  then show ?thesis by (simp add: page_header_bytes_def page_header_of_bytes_def)
qed

section \<open>The kind of a page\<close>

definition markers :: "u8 set" where
  "markers = {LOG_FS_MARKER_FREE, LOG_FS_MARKER_FILE, LOG_FS_MARKER_RECORD, LOG_FS_MARKER_BAD}"

text \<open>What a marker byte means, and what the header at the start of a page means.\<close>

definition marker_of :: "u8 \<Rightarrow> u8" where
  "marker_of b = (if b \<in> markers then b else LOG_FS_MARKER_BAD)"

definition page_kind :: "u8 list \<Rightarrow> u8" where
  "page_kind xs =
     (if marker_of (xs ! 0) \<in> {LOG_FS_MARKER_FILE, LOG_FS_MARKER_RECORD} \<and> log_fs_crc_calc (take 3 xs) \<noteq> xs ! 3
      then LOG_FS_MARKER_BAD else marker_of (xs ! 0))"

lemmas marker_values = LOG_FS_MARKER_FREE_def LOG_FS_MARKER_FILE_def LOG_FS_MARKER_RECORD_def LOG_FS_MARKER_BAD_def

lemma marker_of_markers: "marker_of b \<in> markers"
  by (simp add: marker_of_def markers_def)

lemma marker_of_BAD [simp]: "marker_of LOG_FS_MARKER_BAD = LOG_FS_MARKER_BAD"
  by (simp add: marker_of_def)

lemma crc_header_bytes:
  "log_fs_crc_page_header s = log_fs_crc_calc (take 3 (page_header_bytes (page_header s)))"
  by (simp add: log_fs_crc_page_header_def butlast_conv_take sizeof_page_header_def)

lemma and_0xFF: "(0xFF :: u8) AND x = x"
proof -
  have "(0xFF :: u8) = -1" by simp
  then show ?thesis by (simp only: and.left_neutral)
qed

text \<open>One byte 0 can always be programmed.\<close>

lemma only_clears_zero: "length old = 1 \<Longrightarrow> only_clears old [LOG_FS_MARKER_BAD]"
  by (simp add: only_clears_def LOG_FS_MARKER_BAD_def)

lemma only_clears_blank: "length new = n \<Longrightarrow> only_clears (replicate n 0xFF) new"
  by (auto simp: only_clears_def and_0xFF)

section \<open>Reading headers\<close>

context page_flash
begin

text \<open>Two states that differ at most in the flash, and there at most in page \<open>p\<close>.\<close>

definition touches :: "u16 \<Rightarrow> 'f log_fs_t \<Rightarrow> 'f log_fs_t \<Rightarrow> bool" where
  "touches p s s' \<longleftrightarrow> finv (flash s') \<and> (\<exists>f. s' = s\<lparr>flash := f\<rparr>) \<and>
     (\<forall>q. q \<noteq> unat p \<longrightarrow> img (flash s') q = img (flash s) q)"

lemma flash_rd_ok:
  assumes "finv (flash s)" "unat p < npages" "0 < n" "unat b + n \<le> psize"
  shows "\<exists>f. flash_rd fl s p b n = Some (slice (unat b) n (img (flash s) (unat p)), s\<lparr>flash := f\<rparr>) \<and> finv f \<and> img f = img (flash s)"
proof -
  have n: "unat (of_nat n :: u16) = n" using assms(4) psize_u16 by (simp add: unsigned_of_nat take_bit_eq_mod)
  show ?thesis using rd_law [of "flash s" p "of_nat n" b] assms n by (auto simp: flash_rd_def)
qed

lemma flash_wr_ok:
  assumes "finv (flash s)" "unat p < npages" "bs \<noteq> []" "unat b + length bs \<le> psize"
  shows "\<exists>s'. flash_wr fl s bs p b = Some s' \<and> touches p s s' \<and>
     (only_clears (slice (unat b) (length bs) (img (flash s) (unat p))) bs \<longrightarrow>
        slice (unat b) (length bs) (img (flash s') (unat p)) = bs)"
proof -
  have n: "unat (of_nat (length bs) :: u16) = length bs"
    using assms(4) psize_u16 by (simp add: unsigned_of_nat take_bit_eq_mod)
  show ?thesis using wr_law [of "flash s" p "of_nat (length bs)" b bs] assms n
    by (auto simp: flash_wr_def touches_def)
qed

lemma touches_refl: "finv (flash s) \<Longrightarrow> touches p s s"
  by (auto simp: touches_def intro: exI [of _ "flash s"])

lemma touches_trans: "touches p s t \<Longrightarrow> touches p t u \<Longrightarrow> touches p s u"
  by (auto simp: touches_def)

lemma touches_inv: "touches p s t \<Longrightarrow> finv (flash t)"
  by (simp add: touches_def)

lemma marker_byte:
  assumes "finv f" "unat p < npages" "unat b < psize"
  shows "slice (unat b) (Suc 0) (img f (unat p)) = [img f (unat p) ! unat b]"
  using assms page_length [OF assms(1,2)] by (simp add: slice_def take_Suc_conv_app_nth hd_drop_conv_nth take_Suc)

lemma marker_rd_ok:
  assumes "finv (flash s)" "unat p < npages" "unat b < psize"
  shows "\<exists>s'. log_fs_marker_rd fl s p b = Some (marker_of (img (flash s) (unat p) ! unat b), s') \<and> touches p s s' \<and>
     marker_of (img (flash s') (unat p) ! unat b) = marker_of (img (flash s) (unat p) ! unat b) \<and>
     (marker_of (img (flash s) (unat p) ! unat b) \<noteq> LOG_FS_MARKER_BAD \<longrightarrow> img (flash s') = img (flash s))"
proof -
  let ?m = "img (flash s) (unat p) ! unat b"
  from flash_rd_ok [of s p 1 b] assms obtain f where
    f: "flash_rd fl s p b 1 = Some ([?m], s\<lparr>flash := f\<rparr>)" "finv f" "img f = img (flash s)"
    by (auto simp: marker_byte)
  show ?thesis
  proof (cases "?m \<in> markers")
    case True
    then show ?thesis using f
      by (auto simp: log_fs_marker_rd_def touches_def marker_of_def markers_def)
  next
    case False
    from flash_wr_ok [of "s\<lparr>flash := f\<rparr>" p "[LOG_FS_MARKER_BAD]" b] assms f obtain s' where
      s': "flash_wr fl (s\<lparr>flash := f\<rparr>) [LOG_FS_MARKER_BAD] p b = Some s'" "touches p (s\<lparr>flash := f\<rparr>) s'"
        "slice (unat b) 1 (img (flash s') (unat p)) = [LOG_FS_MARKER_BAD]"
      by (auto simp: only_clears_zero marker_byte)
    have "img (flash s') (unat p) ! unat b = LOG_FS_MARKER_BAD"
      using s' marker_byte [OF touches_inv [OF s'(2)] assms(2,3)] by simp
    moreover have "touches p s s'" using s'(2) f by (auto simp: touches_def)
    ultimately show ?thesis using f s'(1) False by (auto simp: log_fs_marker_rd_def marker_of_def markers_def)
  qed
qed

lemma marker_wr_BAD_ok:
  assumes "finv (flash s)" "unat p < npages" "unat b < psize"
  shows "\<exists>r s'. log_fs_marker_wr fl s LOG_FS_MARKER_BAD p b = Some (r, s') \<and> r \<and> touches p s s' \<and>
     img (flash s') (unat p) ! unat b = LOG_FS_MARKER_BAD"
proof -
  from flash_wr_ok [of s p "[LOG_FS_MARKER_BAD]" b] assms obtain s1 where
    s1: "flash_wr fl s [LOG_FS_MARKER_BAD] p b = Some s1" "touches p s s1"
      "slice (unat b) 1 (img (flash s1) (unat p)) = [LOG_FS_MARKER_BAD]"
    by (auto simp: only_clears_zero marker_byte)
  have m: "img (flash s1) (unat p) ! unat b = LOG_FS_MARKER_BAD"
    using s1 marker_byte [OF touches_inv [OF s1(2)] assms(2,3)] by simp
  from flash_rd_ok [of s1 p 1 b] assms touches_inv [OF s1(2)] m obtain f where
    "flash_rd fl s1 p b 1 = Some ([LOG_FS_MARKER_BAD], s1\<lparr>flash := f\<rparr>)" "finv f" "img f = img (flash s1)"
    by (auto simp: marker_byte)
  then show ?thesis using s1 m
    by (auto simp: log_fs_marker_wr_def log_fs_marker_rd_def touches_def)
qed

text \<open>A scan reads headers: it may mark damaged pages as bad, but no page changes its kind and no page
  of another kind changes at all.\<close>

definition scanned :: "'f log_fs_t \<Rightarrow> 'f log_fs_t \<Rightarrow> bool" where
  "scanned s s' \<longleftrightarrow> finv (flash s') \<and> (\<exists>h f. s' = s\<lparr>page_header := h, flash := f\<rparr>) \<and>
     (\<forall>q. page_kind (img (flash s') q) = page_kind (img (flash s) q) \<and>
          (page_kind (img (flash s) q) \<noteq> LOG_FS_MARKER_BAD \<longrightarrow> img (flash s') q = img (flash s) q))"

lemma scanned_refl: "finv (flash s) \<Longrightarrow> scanned s s"
  by (auto simp: scanned_def intro!: exI [of _ "flash s"] exI [of _ "page_header s"])

lemma scanned_trans: "scanned s t \<Longrightarrow> scanned t u \<Longrightarrow> scanned s u"
  unfolding scanned_def by (elim conjE exE) (intro conjI; fastforce)

lemma scanned_inv: "scanned s t \<Longrightarrow> finv (flash t)"
  by (simp add: scanned_def)

lemma scanned_kind: "scanned s t \<Longrightarrow> page_kind (img (flash t) q) = page_kind (img (flash s) q)"
  by (simp add: scanned_def)

lemma scanned_same: "scanned s t \<Longrightarrow> page_kind (img (flash s) q) \<noteq> LOG_FS_MARKER_BAD \<Longrightarrow> img (flash t) q = img (flash s) q"
  by (simp add: scanned_def)

lemma touches_scanned:
  assumes "touches p s t" "page_kind (img (flash t) (unat p)) = page_kind (img (flash s) (unat p))"
    "page_kind (img (flash s) (unat p)) \<noteq> LOG_FS_MARKER_BAD \<longrightarrow> img (flash t) (unat p) = img (flash s) (unat p)"
  shows "scanned s (t\<lparr>page_header := h\<rparr>)"
proof -
  obtain f where t: "t = s\<lparr>flash := f\<rparr>" and f: "finv f" "\<forall>q. q \<noteq> unat p \<longrightarrow> img f q = img (flash s) q"
    using assms(1) by (auto simp: touches_def)
  have "page_kind (img f q) = page_kind (img (flash s) q) \<and>
          (page_kind (img (flash s) q) \<noteq> LOG_FS_MARKER_BAD \<longrightarrow> img f q = img (flash s) q)" for q
    using assms(2,3) f(2) by (cases "q = unat p") (auto simp: t)
  then show ?thesis using f(1) unfolding scanned_def t by (auto intro!: exI [of _ h] exI [of _ f])
qed

lemma page_header_rd_ok:
  assumes "finv (flash s)" "unat p < npages" "4 \<le> psize"
  shows "\<exists>s'. log_fs_page_header_rd fl s p = Some (page_kind (img (flash s) (unat p)), s') \<and> scanned s s' \<and>
     (page_kind (img (flash s) (unat p)) \<in> {LOG_FS_MARKER_FILE, LOG_FS_MARKER_RECORD} \<longrightarrow>
        page_header s' = page_header_of_bytes (take 4 (img (flash s) (unat p))))"
proof -
  let ?pg = "img (flash s) (unat p)"
  have len: "length ?pg = psize" using page_length assms by blast
  obtain s1 where s1: "log_fs_marker_rd fl s p 0 = Some (marker_of (?pg ! 0), s1)" "touches p s s1"
      "marker_of (img (flash s1) (unat p) ! 0) = marker_of (?pg ! 0)"
      "marker_of (?pg ! 0) \<noteq> LOG_FS_MARKER_BAD \<longrightarrow> img (flash s1) = img (flash s)"
    using marker_rd_ok [of s p 0] assms by auto
  have eq: "s1\<lparr>page_header := page_header s1\<rparr> = s1" by simp
  show ?thesis
  proof (cases "marker_of (?pg ! 0) \<in> {LOG_FS_MARKER_FILE, LOG_FS_MARKER_RECORD}")
    case False
    then have k: "page_kind ?pg = marker_of (?pg ! 0)" "marker_of (?pg ! 0) \<in> {LOG_FS_MARKER_FREE, LOG_FS_MARKER_BAD}"
      using marker_of_markers [of "?pg ! 0"] by (auto simp: page_kind_def markers_def)
    have "page_kind (img (flash s1) (unat p)) = marker_of (?pg ! 0)" using False s1(3) by (auto simp: page_kind_def)
    then have "scanned s s1" using touches_scanned [OF s1(2), of "page_header s1"] s1(4) k eq by auto
    moreover have "page_kind ?pg \<notin> {LOG_FS_MARKER_FILE, LOG_FS_MARKER_RECORD}" using False k(1) by simp
    ultimately show ?thesis using s1(1) k by (auto simp: log_fs_page_header_rd_def)
  next
    case True
    then have nb: "marker_of (?pg ! 0) \<noteq> LOG_FS_MARKER_FREE" "marker_of (?pg ! 0) \<noteq> LOG_FS_MARKER_BAD"
      by (auto simp: marker_values)
    then have im: "img (flash s1) = img (flash s)" "marker_of (?pg ! 0) = ?pg ! 0"
      using s1(4) by (auto simp: marker_of_def split: if_splits)
    have fs1: "finv (flash s1)" using touches_inv [OF s1(2)] .
    have "flash_rd fl s1 p 0 4 = flash_rd fl s1 p 0 sizeof_page_header" by (simp add: sizeof_page_header_def)
    then obtain f where f: "flash_rd fl s1 p 0 sizeof_page_header = Some (take 4 ?pg, s1\<lparr>flash := f\<rparr>)" "finv f" "img f = img (flash s)"
      using flash_rd_ok [of s1 p 4 0] assms fs1 im(1) by (auto simp: slice_def)
    define s2 where "s2 = s1\<lparr>flash := f, page_header := page_header_of_bytes (take 4 ?pg)\<rparr>"
    have crc: "log_fs_crc_page_header s2 = log_fs_crc_calc (take 3 ?pg)" "ph_crc (page_header s2) = ?pg ! 3"
        "ph_marker (page_header s2) = ?pg ! 0"
      using len assms(3) by (simp_all add: crc_header_bytes s2_def page_header_bytes_back) (simp_all add: page_header_of_bytes_def)
    have hb: "ph_crc (page_header_of_bytes (take 4 ?pg)) = ?pg ! 3" "ph_marker (page_header_of_bytes (take 4 ?pg)) = ?pg ! 0"
      using len assms(3) by (simp_all add: page_header_of_bytes_def)
    have "touches p s (s1\<lparr>flash := f\<rparr>)" using f s1(2) by (auto simp: touches_def)
    then have sc: "scanned s s2" using touches_scanned [of p s "s1\<lparr>flash := f\<rparr>"] f(3) by (simp add: s2_def)
    show ?thesis
    proof (cases "log_fs_crc_calc (take 3 ?pg) = ?pg ! 3")
      case True
      then have "page_kind ?pg = ?pg ! 0" using im by (simp add: page_kind_def)
      then show ?thesis using s1(1) f nb crc True sc
        by (auto simp: log_fs_page_header_rd_def s2_def [symmetric] hb) (simp_all add: s2_def)
    next
      case False
      then have k: "page_kind ?pg = LOG_FS_MARKER_BAD"
        using \<open>marker_of (?pg ! 0) \<in> _\<close> by (simp add: page_kind_def)
      have "finv (flash s2)" using f by (simp add: s2_def)
      from marker_wr_BAD_ok [OF this assms(2), of 0] assms(3) obtain r s3 where
        s3: "log_fs_marker_wr fl s2 LOG_FS_MARKER_BAD p 0 = Some (r, s3)" "touches p s2 s3"
          "img (flash s3) (unat p) ! 0 = LOG_FS_MARKER_BAD" by auto
      have "page_kind (img (flash s3) (unat p)) = LOG_FS_MARKER_BAD"
        using s3(3) by (simp add: page_kind_def)
      then have "scanned s2 (s3\<lparr>page_header := page_header s3\<rparr>)"
        using k f by (intro touches_scanned [OF s3(2)]) (auto simp: s2_def)
      then have "scanned s s3" using scanned_trans [OF sc] by simp
      then show ?thesis using s1(1) f nb crc False k s3(1)
        by (auto simp: log_fs_page_header_rd_def s2_def [symmetric] hb marker_values)
    qed
  qed
qed

end

end
