(* ===== verification/Log_Fs_Search.thy ===== *)
theory Log_Fs_Search
  imports Log_Fs_Facts
begin

text \<open>
  The two searches for a page with a marker. The pages from one page to another in ring order are the
  list \<open>ring_pages\<close>; both loops end and return the first match in such a list. The locale
  \<open>log_fs_flash\<close> joins a flash and a configuration of the file system.
\<close>

section \<open>Ranges of pages in ring order\<close>

definition ring_len :: "log_fs_cfg \<Rightarrow> nat" where
  "ring_len C = unat (LOG_FS_CFG_PAGE_END C) - unat (LOG_FS_CFG_PAGE_START C) + 1"

definition ring_idx :: "log_fs_cfg \<Rightarrow> u16 \<Rightarrow> nat" where
  "ring_idx C p = unat p - unat (LOG_FS_CFG_PAGE_START C)"

text \<open>The pages from \<open>lo\<close> on in ring order up to and including \<open>hi\<close>.\<close>

definition ring_pages :: "log_fs_cfg \<Rightarrow> u16 \<Rightarrow> u16 \<Rightarrow> u16 list" where
  "ring_pages C lo hi =
     map (\<lambda>k. (next_page C ^^ k) lo) [0..<Suc ((ring_idx C hi + ring_len C - ring_idx C lo) mod ring_len C)]"

lemma ring_idx_inj: "in_range C p \<Longrightarrow> in_range C q \<Longrightarrow> ring_idx C p = ring_idx C q \<Longrightarrow> p = q"
  by (auto simp: ring_idx_def in_range_unat word_unat_eq_iff)

lemma ring_idx_lt: "in_range C p \<Longrightarrow> ring_idx C p < ring_len C"
  by (auto simp: ring_idx_def ring_len_def in_range_unat)

lemma funpow_next_range: "in_range C p \<Longrightarrow> in_range C ((next_page C ^^ k) p)"
  by (induction k) (auto intro: next_page_range)

lemma ring_idx_next:
  assumes "in_range C p"
  shows "ring_idx C (next_page C p) = (ring_idx C p + 1) mod ring_len C"
proof (cases "p = LOG_FS_CFG_PAGE_END C")
  case True
  then show ?thesis using assms by (simp add: ring_idx_def ring_len_def unat_next_page)
next
  case False
  then have "unat p < unat (LOG_FS_CFG_PAGE_END C)"
    using assms by (auto simp: in_range_unat le_less word_unat_eq_iff)
  then show ?thesis using assms False
    by (auto simp: ring_idx_def ring_len_def unat_next_page in_range_unat Suc_diff_le)
qed

lemma ring_idx_funpow: "in_range C p \<Longrightarrow> ring_idx C ((next_page C ^^ k) p) = (ring_idx C p + k) mod ring_len C"
  by (induction k) (auto simp: ring_idx_next funpow_next_range ring_idx_lt mod_Suc_eq)

lemma ring_pages_last:
  assumes "in_range C lo" "in_range C hi"
  shows "(next_page C ^^ ((ring_idx C hi + ring_len C - ring_idx C lo) mod ring_len C)) lo = hi"
proof -
  have "(ring_idx C lo + (ring_idx C hi + ring_len C - ring_idx C lo) mod ring_len C) mod ring_len C = ring_idx C hi"
    using ring_idx_lt [OF assms(1)] ring_idx_lt [OF assms(2)] by (simp add: mod_add_right_eq)
  then show ?thesis using assms
    by (intro ring_idx_inj [of C]) (auto simp: funpow_next_range ring_idx_funpow)
qed

lemma mod_plus_small: "a < m \<Longrightarrow> i < m \<Longrightarrow> (a + i) mod m = (if a + i < m then a + i else a + i - m)" for m :: nat
  by (simp add: mod_if)

lemma funpow_next_inj:
  assumes "in_range C p" "i < ring_len C" "j < ring_len C" "(next_page C ^^ i) p = (next_page C ^^ j) p"
  shows "i = j"
proof -
  have "(ring_idx C p + i) mod ring_len C = (ring_idx C p + j) mod ring_len C"
    using assms(4) ring_idx_funpow [OF assms(1)] by metis
  then show ?thesis using ring_idx_lt [OF assms(1)] assms(2,3) by (auto simp: mod_plus_small split: if_splits)
qed

lemma set_ring_pages: "in_range C lo \<Longrightarrow> p \<in> set (ring_pages C lo hi) \<Longrightarrow> in_range C p"
  by (auto simp: ring_pages_def funpow_next_range)

lemma ring_len_pos: "0 < ring_len C"
  by (simp add: ring_len_def)

lemma distinct_ring_pages: "in_range C lo \<Longrightarrow> distinct (ring_pages C lo hi)"
  unfolding ring_pages_def distinct_map
proof (intro conjI distinct_upt inj_onI)
  fix x y
  let ?n = "(ring_idx C hi + ring_len C - ring_idx C lo) mod ring_len C"
  assume "in_range C lo" "x \<in> set [0..<Suc ?n]" "y \<in> set [0..<Suc ?n]" "(next_page C ^^ x) lo = (next_page C ^^ y) lo"
  moreover have "?n < ring_len C" by (rule mod_less_divisor [OF ring_len_pos])
  ultimately show "x = y" using funpow_next_inj [of C lo x y] by (simp del: upt_Suc)
qed

text \<open>A path along the ring: each page the successor of the one before, ending at \<open>hi\<close> and nowhere
  before.\<close>

fun ring_path :: "log_fs_cfg \<Rightarrow> u16 \<Rightarrow> u16 list \<Rightarrow> bool" where
  "ring_path C hi [] = False"
| "ring_path C hi [p] = (p = hi)"
| "ring_path C hi (p # q # ps) = (p \<noteq> hi \<and> q = next_page C p \<and> ring_path C hi (q # ps))"

lemma funpow_next_Suc: "(next_page C ^^ j) (next_page C p) = (next_page C ^^ Suc j) p"
  by (simp add: funpow_swap1)

lemma ring_path_funpow:
  assumes "\<forall>j<n. (next_page C ^^ j) p \<noteq> hi" "(next_page C ^^ n) p = hi"
  shows "ring_path C hi (map (\<lambda>k. (next_page C ^^ k) p) [0..<Suc n])"
  using assms
proof (induction n arbitrary: p)
  case (Suc n)
  have "ring_path C hi (map (\<lambda>k. (next_page C ^^ k) (next_page C p)) [0..<Suc n])"
    using Suc.prems by (intro Suc.IH) (auto simp only: funpow_next_Suc Suc_less_eq)
  moreover have "map (\<lambda>k. (next_page C ^^ k) p) [0..<Suc (Suc n)] = p # map (\<lambda>k. (next_page C ^^ k) (next_page C p)) [0..<Suc n]"
    by (simp add: upt_conv_Cons map_Suc_upt [symmetric] funpow_next_Suc del: upt_Suc funpow.simps)
  moreover have "p \<noteq> hi" using Suc.prems(1) by fastforce
  ultimately show ?case by (simp add: upt_conv_Cons del: upt_Suc)
qed simp

lemma ring_path_pages:
  assumes "in_range C lo" "in_range C hi"
  shows "ring_path C hi (ring_pages C lo hi)"
  unfolding ring_pages_def
proof (rule ring_path_funpow)
  let ?n = "(ring_idx C hi + ring_len C - ring_idx C lo) mod ring_len C"
  show l: "(next_page C ^^ ?n) lo = hi" by (rule ring_pages_last [OF assms])
  have n: "?n < ring_len C" by (rule mod_less_divisor [OF ring_len_pos])
  show "\<forall>j<?n. (next_page C ^^ j) lo \<noteq> hi"
  proof (intro allI impI notI)
    fix j assume "j < ?n" "(next_page C ^^ j) lo = hi"
    then show False using funpow_next_inj [OF assms(1) _ n, of j] l n by simp
  qed
qed


text \<open>The path of a search that starts after \<open>p\<close>, wraps from \<open>hi\<close> to \<open>lo\<close> and ends before \<open>cur\<close>.\<close>

definition step_in :: "log_fs_cfg \<Rightarrow> u16 \<Rightarrow> u16 \<Rightarrow> u16 \<Rightarrow> u16" where
  "step_in C lo hi p = (if p = hi then lo else next_page C p)"

fun wrap_path :: "log_fs_cfg \<Rightarrow> u16 \<Rightarrow> u16 \<Rightarrow> u16 \<Rightarrow> u16 \<Rightarrow> u16 list \<Rightarrow> bool" where
  "wrap_path C lo hi cur p [] = (step_in C lo hi p = cur)"
| "wrap_path C lo hi cur p (q # qs) = (step_in C lo hi p = q \<and> q \<noteq> cur \<and> wrap_path C lo hi cur q qs)"

lemma wrap_pathI:
  "\<forall>j\<le>length qs. step_in C lo hi ((p # qs @ [cur]) ! j) = (p # qs @ [cur]) ! Suc j \<Longrightarrow> cur \<notin> set qs \<Longrightarrow>
   wrap_path C lo hi cur p qs"
proof (induction qs arbitrary: p)
  case (Cons q qs)
  have "\<forall>j\<le>length qs. step_in C lo hi ((q # qs @ [cur]) ! j) = (q # qs @ [cur]) ! Suc j"
    using Cons.prems(1) by (metis Suc_le_mono append_Cons length_Cons nth_Cons_Suc)
  moreover have "step_in C lo hi p = q" using Cons.prems(1) by (metis append_Cons le0 nth_Cons_0 nth_Cons_Suc)
  ultimately show ?case using Cons by auto
qed simp

lemma ring_pages_step:
  assumes "in_range C lo" "in_range C hi" "k < length (ring_pages C lo hi)"
  shows "step_in C lo hi (ring_pages C lo hi ! k) = ring_pages C lo hi ! (Suc k mod length (ring_pages C lo hi))"
proof -
  let ?n = "(ring_idx C hi + ring_len C - ring_idx C lo) mod ring_len C"
  have len: "length (ring_pages C lo hi) = Suc ?n" by (simp add: ring_pages_def del: upt_Suc)
  have nth: "ring_pages C lo hi ! j = (next_page C ^^ j) lo" if "j \<le> ?n" for j
    using that by (simp add: ring_pages_def less_Suc_eq_le del: upt_Suc)
  have "(next_page C ^^ k) lo = hi \<longleftrightarrow> k = ?n"
    using ring_pages_last [OF assms(1,2)] funpow_next_inj [OF assms(1), of k ?n] assms(3) len
      mod_less_divisor [OF ring_len_pos, of "ring_idx C hi + ring_len C - ring_idx C lo" C] by auto
  then show ?thesis using assms(3) nth [of k] nth [of "Suc k"] nth [of 0] unfolding len step_in_def
    by (cases "k = ?n") auto
qed

lemma wrap_path_pages:
  assumes "in_range C lo" "in_range C hi" "i < length (ring_pages C lo hi)"
  shows "wrap_path C lo hi (ring_pages C lo hi ! i) (ring_pages C lo hi ! i)
           (drop (Suc i) (ring_pages C lo hi) @ take i (ring_pages C lo hi))"
proof (rule wrap_pathI)
  let ?L = "ring_pages C lo hi"
  let ?qs = "drop (Suc i) ?L @ take i ?L"
  have rot: "?L ! i # ?qs = rotate i ?L"
    using assms(3) by (simp add: rotate_drop_take Cons_nth_drop_Suc [symmetric])
  have full: "(?L ! i # ?qs @ [?L ! i]) ! j = ?L ! ((i + j) mod length ?L)" if "j \<le> length ?L" for j
  proof (cases "j < length ?L")
    case True
    then have "(?L ! i # ?qs @ [?L ! i]) ! j = rotate i ?L ! j"
      using rot by (metis append_Cons length_rotate nth_append)
    then show ?thesis using True by (simp add: nth_rotate)
  next
    case False
    then have j: "j = length (rotate i ?L)" using that by simp
    have "(rotate i ?L @ [?L ! i]) ! j = ?L ! i" unfolding j by (rule nth_append_length)
    then show ?thesis using rot j assms(3) by (metis append_Cons length_rotate mod_add_self2 mod_less)
  qed
  show "\<forall>j\<le>length ?qs. step_in C lo hi ((?L ! i # ?qs @ [?L ! i]) ! j) = (?L ! i # ?qs @ [?L ! i]) ! Suc j"
  proof (intro allI impI)
    fix j assume "j \<le> length ?qs"
    then have j: "j < length ?L" "Suc j \<le> length ?L" using assms(3) by auto
    have "(i + j) mod length ?L < length ?L" using assms(3) by (intro mod_less_divisor) linarith
    then show "step_in C lo hi ((?L ! i # ?qs @ [?L ! i]) ! j) = (?L ! i # ?qs @ [?L ! i]) ! Suc j"
      using full [of j] full [of "Suc j"] j ring_pages_step [OF assms(1,2), of "(i + j) mod length ?L"]
      by (simp add: mod_Suc_eq)
  qed
  show "?L ! i \<notin> set ?qs"
    using distinct_ring_pages [OF assms(1), of hi] rot by (metis distinct.simps(2) distinct_rotate)
qed

section \<open>The searches\<close>

text \<open>The result of a search: the first page of the list with the marker, or the invalid page.\<close>

definition scan_find :: "(u16 \<Rightarrow> u8) \<Rightarrow> u8 \<Rightarrow> u16 list \<Rightarrow> u16" where
  "scan_find K m ps = (case find (\<lambda>p. K p = m) ps of None \<Rightarrow> LOG_FS_PAGE_INVALID | Some p \<Rightarrow> p)"

lemma scan_find_simps [simp]:
  "scan_find K m [] = LOG_FS_PAGE_INVALID"
  "scan_find K m (p # ps) = (if K p = m then p else scan_find K m ps)"
  by (simp_all add: scan_find_def)

lemma scan_find_cong: "(\<And>p. K p = K' p) \<Longrightarrow> scan_find K m ps = scan_find K' m ps"
  by (simp add: scan_find_def)

lemma scan_find_valid:
  "LOG_FS_PAGE_INVALID \<notin> set ps \<Longrightarrow> scan_find K m ps \<noteq> LOG_FS_PAGE_INVALID \<Longrightarrow>
   scan_find K m ps \<in> set ps \<and> K (scan_find K m ps) = m"
  by (induction ps) auto

text \<open>The markers whose pages carry a checked header.\<close>

definition hdr_marker :: "u8 \<Rightarrow> bool" where
  "hdr_marker m \<longleftrightarrow> m \<in> {LOG_FS_MARKER_FILE, LOG_FS_MARKER_RECORD}"

lemma hdr_marker_simps [simp]: "hdr_marker LOG_FS_MARKER_FILE" "hdr_marker LOG_FS_MARKER_RECORD"
    "\<not> hdr_marker LOG_FS_MARKER_BAD"
  by (simp_all add: hdr_marker_def marker_values)

context page_flash
begin

abbreviation kind :: "'f log_fs_t \<Rightarrow> u16 \<Rightarrow> u8" where
  "kind s p \<equiv> page_kind (img (flash s) (unat p))"

definition header_at :: "'f log_fs_t \<Rightarrow> u16 \<Rightarrow> log_fs_page_header_t" where
  "header_at s p = page_header_of_bytes (take 4 (img (flash s) (unat p)))"

text \<open>What a search leaves behind that returned \<open>r\<close>.\<close>

definition search_ok :: "'f log_fs_t \<Rightarrow> u16 \<Rightarrow> 'f log_fs_t \<Rightarrow> bool" where
  "search_ok s r s' \<longleftrightarrow> scanned s s' \<and> (hdr_marker (kind s r) \<longrightarrow> r \<noteq> LOG_FS_PAGE_INVALID \<longrightarrow> page_header s' = header_at s r)"

lemma header_rd:
  assumes "finv (flash s)" "unat p < npages" "4 \<le> psize"
  obtains s' where "log_fs_page_header_rd fl s p = Some (kind s p, s')" "scanned s s'"
    "hdr_marker (kind s p) \<Longrightarrow> page_header s' = header_at s p"
  using page_header_rd_ok [OF assms] by (auto simp: header_at_def hdr_marker_def)

lemma scanned_header: "scanned s t \<Longrightarrow> hdr_marker (kind s p) \<Longrightarrow> header_at t p = header_at s p"
  using scanned_same [of s t "unat p"] by (auto simp: header_at_def hdr_marker_def marker_values)

lemma search_ok_trans:
  assumes "scanned s t" "search_ok t r u"
  shows "search_ok s r u"
  using assms scanned_trans [OF assms(1)] scanned_kind [OF assms(1), of "unat r"] scanned_header [OF assms(1), of r]
  by (auto simp: search_ok_def)

lemma find_first_step:
  assumes "log_fs_page_header_rd fl s p = Some (k, s')" "in_range C p"
  shows "log_fs_find_first_loop C fl m hi p s =
    (if k = m then Some (p, s') else if p = hi then Some (LOG_FS_PAGE_INVALID, s')
     else log_fs_find_first_loop C fl m hi (next_page C p) s')"
  using assms by (subst log_fs_find_first_loop.simps) simp

lemma find_first_path:
  assumes "ring_path C hi ps" "finv (flash s)" "\<forall>p\<in>set ps. in_range C p \<and> unat p < npages" "4 \<le> psize"
  shows "\<exists>s'. log_fs_find_first_loop C fl m hi (hd ps) s = Some (scan_find (kind s) m ps, s') \<and>
     search_ok s (scan_find (kind s) m ps) s'"
  using assms
proof (induction C hi ps arbitrary: s rule: ring_path.induct)
  case (2 C hi p)
  then have "unat p < npages" "in_range C p" "p = hi" by auto
  then show ?case using header_rd [OF 2(2) _ 2(4), of p] find_first_step [of s p _ _ C m hi]
    by (fastforce simp: search_ok_def)
next
  case (3 C hi p q ps)
  then have p: "unat p < npages" "in_range C p" "p \<noteq> hi" "q = next_page C p" by auto
  obtain s' where s': "log_fs_page_header_rd fl s p = Some (kind s p, s')" "scanned s s'"
      "hdr_marker (kind s p) \<Longrightarrow> page_header s' = header_at s p"
    using header_rd [OF "3.prems"(2) p(1) "3.prems"(4)] by metis
  note step = find_first_step [OF s'(1) p(2), of m hi]
  show ?case
  proof (cases "kind s p = m")
    case True
    then show ?thesis using step s' by (auto simp: search_ok_def)
  next
    case False
    have kinds: "kind s' = kind s" using scanned_kind [OF s'(2)] by auto
    have "ring_path C hi (q # ps)" "\<forall>p\<in>set (q # ps). in_range C p \<and> unat p < npages" using "3.prems" by auto
    from "3.IH" [OF this(1) scanned_inv [OF s'(2)] this(2) "3.prems"(4)]
    obtain s2 where "log_fs_find_first_loop C fl m hi q s' = Some (scan_find (kind s) m (q # ps), s2)"
      "search_ok s' (scan_find (kind s) m (q # ps)) s2" by (auto simp: kinds)
    then show ?thesis using step False p search_ok_trans [OF s'(2)] by auto
  qed
qed simp

lemma find_next_step:
  assumes "in_range C p"
  shows "log_fs_find_next_loop C fl m lo hi cur p s =
    (let q = step_in C lo hi p in
     if q = cur then Some (LOG_FS_PAGE_INVALID, s)
     else do { (k, s') \<leftarrow> log_fs_page_header_rd fl s q;
               if k = m then Some (q, s') else log_fs_find_next_loop C fl m lo hi cur q s' })"
  using assms by (subst log_fs_find_next_loop.simps) (simp add: step_in_def Let_def)

lemma find_next_path:
  assumes "wrap_path C lo hi cur p qs" "finv (flash s)" "\<forall>p\<in>set qs. in_range C p \<and> unat p < npages" "4 \<le> psize"
    "in_range C p"
  shows "\<exists>s'. log_fs_find_next_loop C fl m lo hi cur p s = Some (scan_find (kind s) m qs, s') \<and>
     search_ok s (scan_find (kind s) m qs) s'"
  using assms
proof (induction C lo hi cur p qs arbitrary: s rule: wrap_path.induct)
  case (1 C lo hi cur p)
  then show ?case by (simp add: find_next_step search_ok_def scanned_refl)
next
  case (2 C lo hi cur p q qs)
  then have q: "unat q < npages" "in_range C q" "q \<noteq> cur" "q = step_in C lo hi p" by auto
  obtain s' where s': "log_fs_page_header_rd fl s q = Some (kind s q, s')" "scanned s s'"
      "hdr_marker (kind s q) \<Longrightarrow> page_header s' = header_at s q"
    using header_rd [OF "2.prems"(2) q(1) "2.prems"(4)] by metis
  note step = find_next_step [OF "2.prems"(5), of m lo hi cur s, folded q(4)]
  show ?case
  proof (cases "kind s q = m")
    case True
    then show ?thesis using step s' q(3) by (auto simp: search_ok_def)
  next
    case False
    have kinds: "kind s' = kind s" using scanned_kind [OF s'(2)] by auto
    have "wrap_path C lo hi cur q qs" "\<forall>p\<in>set qs. in_range C p \<and> unat p < npages" using "2.prems" by auto
    from "2.IH" [OF this(1) scanned_inv [OF s'(2)] this(2) "2.prems"(4) q(2)]
    obtain s2 where "log_fs_find_next_loop C fl m lo hi cur q s' = Some (scan_find (kind s) m qs, s2)"
      "search_ok s' (scan_find (kind s) m qs) s2" by (auto simp: kinds)
    then show ?thesis using step False q(3) s'(1) search_ok_trans [OF s'(2)] by auto
  qed
qed

end


section \<open>The file system on its flash\<close>

text \<open>A configuration that the build accepts, on a flash that has its pages.\<close>

locale log_fs_flash = page_flash fl psize npages finv img
  for fl :: "'f flash_ops" and psize npages finv img +
  fixes C :: log_fs_cfg
  assumes cfg: "cfg_ok C" and page_size: "LOG_FS_CFG_PAGE_SIZE C = psize"
    and page_end: "unat (LOG_FS_CFG_PAGE_END C) < npages"
begin

lemma psize_4: "4 \<le> psize"
  using cfg page_size by (simp add: cfg_ok_def sizeof_page_header_def)

lemma in_range_npages: "in_range C p \<Longrightarrow> unat p < npages"
  using page_end by (simp add: in_range_unat)

lemma find_first_ok:
  assumes "finv (flash s)" "in_range C lo" "in_range C hi"
  shows "\<exists>s'. log_fs_page_header_find_first C fl s m lo hi = Some (scan_find (kind s) m (ring_pages C lo hi), s') \<and>
     search_ok s (scan_find (kind s) m (ring_pages C lo hi)) s'"
proof -
  have "hd (ring_pages C lo hi) = lo" by (simp add: ring_pages_def upt_conv_Cons del: upt_Suc)
  then show ?thesis
    using find_first_path [OF ring_path_pages [OF assms(2,3)] assms(1) _ psize_4, of m] assms set_ring_pages [OF assms(2)]
      in_range_npages
    by (auto simp: log_fs_page_header_find_first_def DBG_ASSERT_def)
qed

lemma find_next_ok:
  assumes "finv (flash s)" "in_range C lo" "in_range C hi" "i < length (ring_pages C lo hi)"
    "cur = ring_pages C lo hi ! i" "qs = drop (Suc i) (ring_pages C lo hi) @ take i (ring_pages C lo hi)"
  shows "\<exists>s'. log_fs_page_header_find_next C fl s m lo hi cur = Some (scan_find (kind s) m qs, s') \<and>
     search_ok s (scan_find (kind s) m qs) s'"
proof -
  have cur: "in_range C cur" using set_ring_pages [OF assms(2), of cur hi] assms(4,5) nth_mem by blast
  have "\<forall>p\<in>set qs. in_range C p \<and> unat p < npages"
    using set_ring_pages [OF assms(2)] in_range_npages unfolding assms(6) by (auto dest: in_set_takeD in_set_dropD)
  from find_next_path [OF wrap_path_pages [OF assms(2-4)] assms(1) this [unfolded assms(6)] psize_4 cur [unfolded assms(5)], of m]
  show ?thesis using assms cur by (simp add: log_fs_page_header_find_next_def DBG_ASSERT_def)
qed

end

end
