(* ===== verification/Log_Fs_Init.thy ===== *)
theory Log_Fs_Init
  imports Log_Fs_Search
begin

text \<open>
  Indexing the files at start-up: \<^verbatim>\<open>log_fs_init\<close> visits the file pages in order and takes the place of
  the largest step between rolling numbers as the border between the newest and the oldest file. The
  lemmas show that its loops end and that this border is the right one.
\<close>

section \<open>Pages with a marker, in order\<close>

lemma scan_find_filter:
  "scan_find K m ps = (case filter (\<lambda>p. K p = m) ps of [] \<Rightarrow> LOG_FS_PAGE_INVALID | p # _ \<Rightarrow> p)"
  by (induction ps) auto

lemma filter_split:
  "filter P L = A @ x # B \<Longrightarrow> \<exists>us vs. L = us @ x # vs \<and> filter P us = A \<and> filter P vs = B \<and> P x"
proof (induction A arbitrary: L)
  case Nil
  then show ?case by (auto simp: filter_eq_Cons_iff) (metis filter_False)
next
  case (Cons a A)
  then obtain us vs where L: "L = us @ a # vs" "\<forall>u\<in>set us. \<not> P u" "P a" "filter P vs = A @ x # B"
    by (auto simp: filter_eq_Cons_iff)
  from Cons.IH [OF L(4)] obtain us' vs' where "vs = us' @ x # vs'" "filter P us' = A" "filter P vs' = B" "P x" by blast
  then show ?case using L by (intro exI [of _ "us @ a # us'"] exI [of _ vs']) auto
qed

lemma filter_rotated:
  assumes "j < length (filter P L)"
  shows "\<exists>i<length L. L ! i = filter P L ! j \<and>
     filter P (drop (Suc i) L @ take i L) = drop (Suc j) (filter P L) @ take j (filter P L)"
proof -
  let ?F = "filter P L"
  obtain us vs where L: "L = us @ ?F ! j # vs" and f: "filter P us = take j ?F" "filter P vs = drop (Suc j) ?F"
    using filter_split [OF id_take_nth_drop [OF assms]] by blast
  have "length us < length L" using arg_cong [OF L, of length] by simp
  moreover have "L ! length us = ?F ! j" by (subst L) (rule nth_append_length)
  moreover have "drop (Suc (length us)) L = vs" "take (length us) L = us" by (subst L, simp)+
  ultimately show ?thesis using f by (intro exI [of _ "length us"]) simp
qed

lemma rotated_hd:
  assumes "j < length F"
  shows "(case drop (Suc j) F @ take j F of [] \<Rightarrow> LOG_FS_PAGE_INVALID | p # _ \<Rightarrow> p) =
    (if length F = 1 then LOG_FS_PAGE_INVALID else F ! (Suc j mod length F))"
proof (cases "Suc j < length F")
  case True
  then show ?thesis by (simp add: Cons_nth_drop_Suc [symmetric])
next
  case False
  then have "Suc j = length F" using assms by simp
  then show ?thesis using assms by (cases F; cases j) (auto simp: take_Cons')
qed


section \<open>Rolling numbers\<close>

lemma unat_of_nat_u16: "n < 65536 \<Longrightarrow> unat (of_nat n :: u16) = n"
  by (simp add: unsigned_of_nat take_bit_eq_mod)

lemma unat_of_nat_diff:
  assumes "y \<le> x" "x < 65536"
  shows "unat (of_nat x - of_nat y :: u16) = x - y"
proof -
  have "of_nat x - of_nat y = (of_nat (x - y) :: u16)" using assms(1) by (rule of_nat_diff [symmetric])
  then show ?thesis using assms by (simp only: unat_of_nat_u16)
qed

lemma unat_of_nat_diff_neg:
  assumes "y < x" "x < 65536"
  shows "unat (of_nat y - of_nat x :: u16) = 65536 - (x - y)"
proof -
  have "(of_nat (65536 + y) :: u16) - of_nat x = of_nat (65536 + y - x)" using assms by (intro of_nat_diff [symmetric]) simp
  moreover have "(of_nat (65536 + y) :: u16) = of_nat y" by simp
  moreover have "65536 + y - x = 65536 - (x - y)" using assms by simp
  moreover have "65536 - (x - y) < 65536" using assms by simp
  ultimately show ?thesis by (simp only: unat_of_nat_u16)
qed

lemma rotate_index:
  fixes r j m :: nat
  assumes "j < m"
  shows "(r + (j + m - r mod m) mod m) mod m = j"
proof -
  have "(r + (j + m - r mod m) mod m) mod m = (r mod m + (j + m - r mod m)) mod m"
    by (simp add: mod_add_left_eq mod_add_right_eq)
  also have "\<dots> = (j + m) mod m" using assms mod_less_divisor [of m r] by (intro arg_cong [of _ _ "\<lambda>x. x mod m"]) linarith
  finally show ?thesis using assms by simp
qed

section \<open>Indexing the files\<close>

text \<open>The pages of an image that carry a marker, in the order of their page numbers, and their rolling
  numbers.\<close>

definition marked_pages :: "log_fs_cfg \<Rightarrow> image \<Rightarrow> u8 \<Rightarrow> u16 list" where
  "marked_pages C I m =
     filter (\<lambda>p. page_kind (I (unat p)) = m) (ring_pages C (LOG_FS_CFG_PAGE_START C) (LOG_FS_CFG_PAGE_END C))"

definition rolling_nr :: "image \<Rightarrow> u16 \<Rightarrow> u16" where
  "rolling_nr I p = ph_nr (page_header_of_bytes (take 4 (I (unat p))))"

context log_fs_flash
begin

definition all_pages :: "u16 list" where
  "all_pages = ring_pages C (LOG_FS_CFG_PAGE_START C) (LOG_FS_CFG_PAGE_END C)"

lemma start_end_range: "in_range C (LOG_FS_CFG_PAGE_START C)" "in_range C (LOG_FS_CFG_PAGE_END C)"
  using cfg by (auto simp: cfg_ok_def in_range_def)

text \<open>The file pages, in the order of their page numbers.\<close>

definition file_pages :: "'f log_fs_t \<Rightarrow> u16 list" where
  "file_pages s = marked_pages C (img (flash s)) LOG_FS_MARKER_FILE"

lemma file_pages_filter: "file_pages s = filter (\<lambda>p. kind s p = LOG_FS_MARKER_FILE) all_pages"
  by (simp add: file_pages_def marked_pages_def all_pages_def)

definition nr_at :: "'f log_fs_t \<Rightarrow> u16 \<Rightarrow> u16" where
  "nr_at s p = rolling_nr (img (flash s)) p"

lemma nr_at_header: "nr_at s p = ph_nr (header_at s p)"
  by (simp add: nr_at_def rolling_nr_def header_at_def)

lemma file_pages_props: "distinct (file_pages s)" "p \<in> set (file_pages s) \<Longrightarrow> in_range C p \<and> kind s p = LOG_FS_MARKER_FILE"
  using distinct_ring_pages [OF start_end_range(1)] set_ring_pages [OF start_end_range(1)]
  by (auto simp: file_pages_filter all_pages_def)

lemma file_pages_scanned: "scanned s t \<Longrightarrow> file_pages t = file_pages s"
  by (simp add: file_pages_filter scanned_kind)

lemma find_next_file:
  assumes "finv (flash s)" "j < length (file_pages s)" "r = file_pages s ! (Suc j mod length (file_pages s))"
  shows "\<exists>s'. log_fs_page_header_find_next C fl s LOG_FS_MARKER_FILE (LOG_FS_CFG_PAGE_START C) (LOG_FS_CFG_PAGE_END C)
       (file_pages s ! j) = Some (if length (file_pages s) = 1 then LOG_FS_PAGE_INVALID else r, s') \<and> scanned s s' \<and>
     (length (file_pages s) \<noteq> 1 \<longrightarrow> page_header s' = header_at s r)"
proof -
  let ?F = "file_pages s"
  obtain i where i: "i < length all_pages" "all_pages ! i = ?F ! j"
      "filter (\<lambda>p. kind s p = LOG_FS_MARKER_FILE) (drop (Suc i) all_pages @ take i all_pages) = drop (Suc j) ?F @ take j ?F"
    using filter_rotated [of j "\<lambda>p. kind s p = LOG_FS_MARKER_FILE" all_pages] assms(2) by (auto simp: file_pages_filter)
  have res: "scan_find (kind s) LOG_FS_MARKER_FILE (drop (Suc i) all_pages @ take i all_pages) =
      (if length ?F = 1 then LOG_FS_PAGE_INVALID else r)"
    unfolding scan_find_filter i(3) assms(3) by (rule rotated_hd [OF assms(2)])
  have "r \<in> set ?F" using assms(2) unfolding assms(3) by (intro nth_mem mod_less_divisor) linarith
  then have r: "r \<noteq> LOG_FS_PAGE_INVALID" "kind s r = LOG_FS_MARKER_FILE"
    using file_pages_props(2) in_range_valid [OF cfg] by auto
  show ?thesis
    using find_next_ok [OF assms(1) start_end_range i(1) [unfolded all_pages_def] _ refl, of "?F ! j" LOG_FS_MARKER_FILE] i(2) res r
    by (auto simp: all_pages_def [symmetric] search_ok_def)
qed

lemma find_first_file:
  assumes "finv (flash s)"
  shows "\<exists>s'. log_fs_page_header_find_first C fl s LOG_FS_MARKER_FILE (LOG_FS_CFG_PAGE_START C) (LOG_FS_CFG_PAGE_END C) =
     Some (case file_pages s of [] \<Rightarrow> LOG_FS_PAGE_INVALID | p # _ \<Rightarrow> p, s') \<and> scanned s s' \<and>
     (file_pages s \<noteq> [] \<longrightarrow> page_header s' = header_at s (file_pages s ! 0))"
proof -
  have "file_pages s \<noteq> [] \<Longrightarrow> file_pages s ! 0 \<noteq> LOG_FS_PAGE_INVALID \<and> kind s (file_pages s ! 0) = LOG_FS_MARKER_FILE"
    using file_pages_props(2) [of "file_pages s ! 0" s] in_range_valid [OF cfg] by auto
  then show ?thesis
    using find_first_ok [OF assms start_end_range, of LOG_FS_MARKER_FILE]
    by (cases "file_pages s")
      (auto simp: all_pages_def [symmetric] scan_find_filter file_pages_filter [symmetric] search_ok_def)
qed

text \<open>The rolling number of the \<open>j\<close>-th file page, and the step from it to the next one.\<close>

definition gap :: "'f log_fs_t \<Rightarrow> nat \<Rightarrow> u16" where
  "gap s j = nr_at s (file_pages s ! (Suc j mod length (file_pages s))) - nr_at s (file_pages s ! j)"

definition indexed_at :: "'f log_fs_t \<Rightarrow> nat \<Rightarrow> 'f log_fs_t \<Rightarrow> bool" where
  "indexed_at s0 w s \<longleftrightarrow> file_page_first s = file_pages s0 ! (Suc w mod length (file_pages s0)) \<and>
     file_page_last s = file_pages s0 ! w \<and> file_page_nr_next s = nr_at s0 (file_pages s0 ! w) + 1"

text \<open>The flash after any number of scans.\<close>

definition fscan :: "'f log_fs_t \<Rightarrow> 'f log_fs_t \<Rightarrow> bool" where
  "fscan s s' \<longleftrightarrow> finv (flash s') \<and>
     (\<forall>q. page_kind (img (flash s') q) = page_kind (img (flash s) q) \<and>
          (page_kind (img (flash s) q) \<noteq> LOG_FS_MARKER_BAD \<longrightarrow> img (flash s') q = img (flash s) q))"

lemma scanned_fscan: "scanned s t \<Longrightarrow> fscan s t"
  by (simp add: fscan_def scanned_def)

lemma fscan_trans: "fscan s t \<Longrightarrow> fscan t u \<Longrightarrow> fscan s u"
  unfolding fscan_def by auto

lemma fscan_files: "fscan s t \<Longrightarrow> file_pages t = file_pages s"
  by (simp add: fscan_def file_pages_filter)

lemma fscan_header: "fscan s t \<Longrightarrow> kind s p = LOG_FS_MARKER_FILE \<Longrightarrow> header_at t p = header_at s p"
  by (simp add: fscan_def header_at_def marker_values)

text \<open>The place of the largest step, and what the loop has found of it when it reaches file \<open>j\<close>.\<close>

definition top_gap :: "'f log_fs_t \<Rightarrow> nat \<Rightarrow> bool" where
  "top_gap s w \<longleftrightarrow> w < length (file_pages s) \<and> (\<forall>j<length (file_pages s). j \<noteq> w \<longrightarrow> gap s j < gap s w)"

definition gap_inv :: "'f log_fs_t \<Rightarrow> nat \<Rightarrow> u16 \<Rightarrow> nat \<Rightarrow> 'f log_fs_t \<Rightarrow> bool" where
  "gap_inv s0 j big w s \<longleftrightarrow> (if j \<le> w then big < gap s0 w else big = gap s0 w \<and> indexed_at s0 w s)"

lemma init_loop_step:
  assumes "2 \<le> length (file_pages s0)" "fscan s0 s" "j < length (file_pages s0)"
    "page_header s = header_at s0 (file_pages s0 ! j)"
  shows "\<exists>big2 s2. log_fs_init_loop C fl (file_pages s0 ! 0) big (file_pages s0 ! j) s =
      (if Suc j < length (file_pages s0) then log_fs_init_loop C fl (file_pages s0 ! 0) big2 (file_pages s0 ! Suc j) s2
       else Some (LOG_FS_ERR_NONE, s2)) \<and>
    fscan s0 s2 \<and> page_header s2 = header_at s0 (file_pages s0 ! (Suc j mod length (file_pages s0))) \<and>
    (\<forall>w. top_gap s0 w \<longrightarrow> gap_inv s0 j big w s \<longrightarrow> gap_inv s0 (Suc j) big2 w s2)"
proof -
  let ?F = "file_pages s0" and ?m = "length (file_pages s0)"
  let ?n = "Suc j mod ?m"
  have F: "file_pages s = ?F" using fscan_files assms(2) by simp
  have fin: "finv (flash s)" using assms(2) by (simp add: fscan_def)
  have n: "?n < ?m" using assms(1) by (intro mod_less_divisor) linarith
  have kn: "kind s0 (?F ! ?n) = LOG_FS_MARKER_FILE" using file_pages_props(2) n nth_mem by blast
  have valid: "?F ! ?n \<noteq> LOG_FS_PAGE_INVALID" using file_pages_props(2) n nth_mem in_range_valid [OF cfg] by blast
  have "?m \<noteq> 1" using assms(1) by simp
  from find_next_file [OF fin, of j "?F ! ?n"] assms(3) this obtain s1 where
    s1: "log_fs_page_header_find_next C fl s LOG_FS_MARKER_FILE (LOG_FS_CFG_PAGE_START C) (LOG_FS_CFG_PAGE_END C) (?F ! j) =
          Some (?F ! ?n, s1)" "scanned s s1" "page_header s1 = header_at s (?F ! ?n)"
    by (auto simp: F)
  have h1: "page_header s1 = header_at s0 (?F ! ?n)" using s1(3) fscan_header [OF assms(2) kn] by simp
  have g: "ph_nr (page_header s1) - ph_nr (page_header s) = gap s0 j"
    using h1 assms(4) by (simp add: gap_def nr_at_header)
  define s2 where "s2 = (if big < gap s0 j then s1\<lparr>file_page_first := ?F ! ?n, file_page_last := ?F ! j,
      file_page_nr_next := ph_nr (page_header s) + 1\<rparr> else s1)"
  define big2 where "big2 = (if big < gap s0 j then gap s0 j else big)"
  have last: "?F ! ?n = ?F ! 0 \<longleftrightarrow> \<not> Suc j < ?m"
    using nth_eq_iff_index_eq [OF file_pages_props(1), of ?n s0 0] n assms(3) by (cases "?F = []") (auto simp: mod_Suc)
  have step: "log_fs_init_loop C fl (?F ! 0) big (?F ! j) s =
      (if Suc j < ?m then log_fs_init_loop C fl (?F ! 0) big2 (?F ! Suc j) s2 else Some (LOG_FS_ERR_NONE, s2))"
    using last by (subst log_fs_init_loop.simps) (simp add: s1(1) valid g s2_def big2_def)
  have fs2: "fscan s0 s2" "page_header s2 = header_at s0 (?F ! ?n)"
    using fscan_trans [OF assms(2) scanned_fscan [OF s1(2)]] h1 by (simp_all add: s2_def fscan_def)
  have "gap_inv s0 (Suc j) big2 w s2" if w: "top_gap s0 w" "gap_inv s0 j big w s" for w
  proof (cases "j = w")
    case True
    then show ?thesis using w(2) assms(4) by (simp add: gap_inv_def big2_def s2_def indexed_at_def nr_at_header)
  next
    case False
    have "indexed_at s0 w s \<Longrightarrow> indexed_at s0 w s1" using s1(2) by (auto simp: indexed_at_def scanned_def)
    moreover have "gap s0 j < gap s0 w" using w(1) False assms(3) by (simp add: top_gap_def)
    ultimately show ?thesis using w(2) False by (auto simp: gap_inv_def big2_def s2_def)
  qed
  then show ?thesis using step fs2 by blast
qed

lemma init_loop_ok:
  assumes "2 \<le> length (file_pages s0)" "fscan s0 s" "j < length (file_pages s0)"
    "page_header s = header_at s0 (file_pages s0 ! j)"
  shows "\<exists>s'. log_fs_init_loop C fl (file_pages s0 ! 0) big (file_pages s0 ! j) s = Some (LOG_FS_ERR_NONE, s') \<and>
     fscan s0 s' \<and> (\<forall>w. top_gap s0 w \<longrightarrow> gap_inv s0 j big w s \<longrightarrow> indexed_at s0 w s')"
  using assms(2-)
proof (induction "length (file_pages s0) - j" arbitrary: j s big)
  case (Suc d)
  obtain big2 s2 where st: "log_fs_init_loop C fl (file_pages s0 ! 0) big (file_pages s0 ! j) s =
      (if Suc j < length (file_pages s0) then log_fs_init_loop C fl (file_pages s0 ! 0) big2 (file_pages s0 ! Suc j) s2
       else Some (LOG_FS_ERR_NONE, s2))"
    "fscan s0 s2" "page_header s2 = header_at s0 (file_pages s0 ! (Suc j mod length (file_pages s0)))"
    "\<forall>w. top_gap s0 w \<longrightarrow> gap_inv s0 j big w s \<longrightarrow> gap_inv s0 (Suc j) big2 w s2"
    using init_loop_step [OF assms(1) Suc.prems] by blast
  show ?case
  proof (cases "Suc j < length (file_pages s0)")
    case True
    moreover have "d = length (file_pages s0) - Suc j" using Suc.hyps(2) by simp
    ultimately show ?thesis using Suc.hyps(1) [of "Suc j" s2 big2] st by fastforce
  next
    case False
    then have "top_gap s0 w \<Longrightarrow> gap_inv s0 (Suc j) big2 w s2 \<Longrightarrow> indexed_at s0 w s2" for w
      by (auto simp: top_gap_def gap_inv_def)
    then show ?thesis using st False by auto
  qed
qed simp

lemma init_ok:
  assumes "finv (flash s)"
  shows "\<exists>s'. log_fs_init C fl s = Some (LOG_FS_ERR_NONE, s') \<and> fscan s s' \<and>
    (file_pages s = [] \<longrightarrow> file_page_first s' = LOG_FS_PAGE_INVALID \<and> file_page_last s' = LOG_FS_PAGE_INVALID) \<and>
    (length (file_pages s) = 1 \<longrightarrow> indexed_at s 0 s') \<and>
    (\<forall>w. 2 \<le> length (file_pages s) \<longrightarrow> top_gap s w \<longrightarrow> 0 < gap s w \<longrightarrow> indexed_at s w s')"
proof -
  let ?r = "log_fs_reset C (flash s)"
  have fr: "flash ?r = flash s" by (simp add: log_fs_reset_def)
  then have F: "file_pages ?r = file_pages s" by (simp add: file_pages_filter)
  have h: "header_at ?r p = header_at s p" for p by (simp add: header_at_def fr)
  have asrt: "DBG_ASSERT C (sizeof_rec_block C \<le> LOG_FS_REC_PAGE_DATA_SIZE C) = Some ()"
    using cfg by (simp add: DBG_ASSERT_def cfg_ok_def)
  from find_first_file [of ?r] assms fr obtain s1 where
    s1: "log_fs_page_header_find_first C fl ?r LOG_FS_MARKER_FILE (LOG_FS_CFG_PAGE_START C) (LOG_FS_CFG_PAGE_END C) =
      Some (case file_pages s of [] \<Rightarrow> LOG_FS_PAGE_INVALID | p # _ \<Rightarrow> p, s1)" "scanned ?r s1"
      "file_pages s \<noteq> [] \<Longrightarrow> page_header s1 = header_at s (file_pages s ! 0)"
    by (auto simp: F h)
  have fs1: "fscan s s1" using s1(2) fr by (auto simp: fscan_def scanned_def)
  then have F1: "file_pages s1 = file_pages s" "finv (flash s1)" using fscan_files by (auto simp: fscan_def)
  have valid: "p \<noteq> LOG_FS_PAGE_INVALID" if "p \<in> set (file_pages s)" for p
    using file_pages_props(2) [OF that] in_range_valid [OF cfg] by blast
  consider "file_pages s = []" | "length (file_pages s) = 1" | "2 \<le> length (file_pages s)"
    by (cases "file_pages s"; cases "tl (file_pages s)") auto
  then show ?thesis
  proof cases
    case 1
    then show ?thesis using s1 asrt fs1 by (auto simp: log_fs_init_def fscan_def)
  next
    case 2
    then obtain p where p: "file_pages s = [p]" by (auto simp: length_Suc_conv)
    have p1: "file_pages s1 = [p]" using F1(1) p by simp
    obtain s2 where
      s2: "log_fs_page_header_find_next C fl s1 LOG_FS_MARKER_FILE (LOG_FS_CFG_PAGE_START C) (LOG_FS_CFG_PAGE_END C) p =
        Some (LOG_FS_PAGE_INVALID, s2)" "scanned s1 s2"
      using find_next_file [OF F1(2), of 0 p] unfolding p1 by auto
    let ?s3 = "s2\<lparr>file_page_first := p, file_page_last := p, file_page_nr_next := ph_nr (page_header s1) + 1\<rparr>"
    have "log_fs_init_loop C fl p 0 p s1 = Some (LOG_FS_ERR_NONE, ?s3)"
      by (subst log_fs_init_loop.simps) (simp add: s2(1))
    then have "log_fs_init C fl s = Some (LOG_FS_ERR_NONE, ?s3)"
      using s1(1) asrt p valid [of p] by (simp add: log_fs_init_def)
    moreover have "fscan s ?s3" using fscan_trans [OF fs1 scanned_fscan [OF s2(2)]] by (simp add: fscan_def)
    moreover have "indexed_at s 0 ?s3" using s1(3) p by (simp add: indexed_at_def nr_at_header)
    ultimately show ?thesis using p by auto
  next
    case 3
    then have ne: "file_pages s \<noteq> []" by auto
    then have first: "(case file_pages s of [] \<Rightarrow> LOG_FS_PAGE_INVALID | p # _ \<Rightarrow> p) = file_pages s ! 0"
      by (cases "file_pages s") auto
    have "file_pages s ! 0 \<noteq> LOG_FS_PAGE_INVALID" using valid ne nth_mem by blast
    moreover obtain s2 where "log_fs_init_loop C fl (file_pages s ! 0) 0 (file_pages s ! 0) s1 = Some (LOG_FS_ERR_NONE, s2)"
      "fscan s s2" "\<forall>w. top_gap s w \<longrightarrow> gap_inv s 0 0 w s1 \<longrightarrow> indexed_at s w s2"
      using init_loop_ok [OF 3 fs1, of 0 0] s1(3) ne 3 by auto
    ultimately show ?thesis using s1(1) asrt ne 3 unfolding first by (auto simp: log_fs_init_def gap_inv_def)
  qed
qed

lemma rolling_top_gap:
  assumes m: "2 \<le> length (file_pages s)"
    and nr: "\<forall>j<length (file_pages s). nr_at s (rotate r (file_pages s) ! j) = n0 + of_nat (a j)"
    and mono: "\<forall>i j. i < j \<longrightarrow> j < length (file_pages s) \<longrightarrow> a i < a j"
    and small: "\<forall>j<length (file_pages s). a j < 32768"
    and w: "w = (r + (length (file_pages s) - 1)) mod length (file_pages s)"
  shows "top_gap s w \<and> 0 < gap s w"
proof -
  let ?F = "file_pages s" and ?m = "length (file_pages s)"
  have nrj: "nr_at s (?F ! ((r + j) mod ?m)) = n0 + of_nat (a j)" if "j < ?m" for j
    using nr that by (auto simp: nth_rotate)
  have m0: "0 < ?m" using m by linarith
  have g: "gap s ((r + j) mod ?m) = of_nat (a (Suc j)) - of_nat (a j)" if "Suc j < ?m" for j
    using nrj [of j] nrj [of "Suc j"] that by (simp add: gap_def mod_Suc_eq)
  have gu: "unat (gap s ((r + j) mod ?m)) < 32768" if "Suc j < ?m" for j
  proof -
    have "a j < a (Suc j)" "a (Suc j) < 32768" using mono small that by auto
    then show ?thesis by (simp add: g [OF that] unat_of_nat_diff)
  qed
  let ?d = "a (?m - 1) - a 0"
  have d: "a 0 < a (?m - 1)" "a (?m - 1) < 32768" using mono small m by auto
  have "Suc w mod ?m = Suc (r + (?m - 1)) mod ?m" unfolding w by (rule mod_Suc_eq)
  also have "Suc (r + (?m - 1)) = r + ?m" using m0 by simp
  finally have "Suc w mod ?m = r mod ?m" by simp
  moreover have nw: "nr_at s (?F ! w) = n0 + of_nat (a (?m - 1))" 
  proof -
    have "?m - 1 < ?m" using m0 by linarith
    from nrj [OF this] show ?thesis unfolding w .
  qed
  ultimately have gw: "gap s w = of_nat (a 0) - of_nat (a (?m - 1))"
    using nrj [of 0] m0 nw by (simp add: gap_def)
  then have guw: "unat (gap s w) = 65536 - ?d" using d by (simp add: unat_of_nat_diff_neg)
  have "gap s j < gap s w" if j: "j < ?m" "j \<noteq> w" for j
  proof -
    define k where "k = (j + ?m - r mod ?m) mod ?m"
    have k: "k < ?m" "(r + k) mod ?m = j"
      using m0 rotate_index [OF j(1), of r] by (simp_all add: k_def del: mod_add_right_eq)
    have "k \<noteq> ?m - 1" using k(2) j(2) unfolding w by metis
    then have "Suc k < ?m" using k(1) by linarith
    from gu [OF this] show ?thesis using guw d k(2) by (simp add: word_less_nat_alt)
  qed
  moreover have "w < ?m" using m0 w by simp
  moreover have "0 < gap s w" using guw d by (simp add: word_less_nat_alt)
  ultimately show ?thesis by (simp add: top_gap_def)
qed

lemma init_rolling:
  assumes fin: "finv (flash s)"
    and nr: "\<forall>j<length (file_pages s). nr_at s (rotate r (file_pages s) ! j) = n0 + of_nat (a j)"
    and mono: "\<forall>i j. i < j \<longrightarrow> j < length (file_pages s) \<longrightarrow> a i < a j"
    and small: "\<forall>j<length (file_pages s). a j < 32768"
  shows "\<exists>s'. log_fs_init C fl s = Some (LOG_FS_ERR_NONE, s') \<and> fscan s s' \<and>
    (if file_pages s = [] then file_page_first s' = LOG_FS_PAGE_INVALID \<and> file_page_last s' = LOG_FS_PAGE_INVALID
     else file_page_first s' = hd (rotate r (file_pages s)) \<and> file_page_last s' = last (rotate r (file_pages s)) \<and>
          file_page_nr_next s' = nr_at s (last (rotate r (file_pages s))) + 1)"
proof -
  let ?F = "file_pages s" and ?m = "length (file_pages s)"
  obtain s' where s': "log_fs_init C fl s = Some (LOG_FS_ERR_NONE, s')" "fscan s s'"
      "?F = [] \<longrightarrow> file_page_first s' = LOG_FS_PAGE_INVALID \<and> file_page_last s' = LOG_FS_PAGE_INVALID"
      "?m = 1 \<longrightarrow> indexed_at s 0 s'"
      "\<forall>w. 2 \<le> ?m \<longrightarrow> top_gap s w \<longrightarrow> 0 < gap s w \<longrightarrow> indexed_at s w s'"
    using init_ok [OF fin] by blast
  have ends: "hd (rotate r ?F) = ?F ! (r mod ?m)" "last (rotate r ?F) = ?F ! ((r + (?m - 1)) mod ?m)" if "?F \<noteq> []"
    using that by (simp_all add: hd_rotate_conv_nth last_conv_nth nth_rotate)
  show ?thesis
  proof (cases "2 \<le> ?m")
    case True
    let ?w = "(r + (?m - 1)) mod ?m"
    have "indexed_at s ?w s'" using rolling_top_gap [OF True nr mono small refl] s'(5) True by blast
    moreover have "Suc ?w mod ?m = r mod ?m"
    proof -
      have "Suc ?w mod ?m = Suc (r + (?m - 1)) mod ?m" by (rule mod_Suc_eq)
      also have "Suc (r + (?m - 1)) = r + ?m" using True by simp
      finally show ?thesis by simp
    qed
    moreover have "?F \<noteq> []" using True by auto
    ultimately show ?thesis using s'(1,2) ends by (auto simp: indexed_at_def)
  next
    case False
    then consider "?F = []" | p where "?F = [p]" by (cases ?F; cases "tl ?F") auto
    then show ?thesis
    proof cases
      case 1
      then show ?thesis using s' by auto
    next
      case 2
      then show ?thesis using s' by (auto simp: indexed_at_def)
    qed
  qed
qed

lemma find_first_law:
  assumes "finv (flash s)" "in_range C page_start" "in_range C page_end"
    "r = (case find (\<lambda>p. page_kind (img (flash s) (unat p)) = marker) (ring_pages C page_start page_end) of
            None \<Rightarrow> LOG_FS_PAGE_INVALID | Some p \<Rightarrow> p)"
  shows "\<exists>s'. log_fs_page_header_find_first C fl s marker page_start page_end = Some (r, s') \<and> finv (flash s') \<and>
     (\<exists>h f. s' = s\<lparr>page_header := h, flash := f\<rparr>) \<and>
     (r \<noteq> LOG_FS_PAGE_INVALID \<and> marker \<in> {LOG_FS_MARKER_FILE, LOG_FS_MARKER_RECORD} \<longrightarrow>
        page_header s' = page_header_of_bytes (take 4 (img (flash s) (unat r)))) \<and>
     (\<forall>q. page_kind (img (flash s') q) = page_kind (img (flash s) q) \<and>
          (page_kind (img (flash s) q) \<noteq> LOG_FS_MARKER_BAD \<longrightarrow> img (flash s') q = img (flash s) q))"
proof -
  let ?ps = "ring_pages C page_start page_end"
  have "LOG_FS_PAGE_INVALID \<notin> set ?ps" using set_ring_pages [OF assms(2)] in_range_valid [OF cfg] by blast
  then have k: "r \<noteq> LOG_FS_PAGE_INVALID \<Longrightarrow> kind s r = marker"
    using scan_find_valid [of ?ps "kind s" marker] assms(4) by (simp add: scan_find_def)
  have r: "r = scan_find (kind s) marker ?ps" using assms(4) by (simp add: scan_find_def)
  obtain s' where s': "log_fs_page_header_find_first C fl s marker page_start page_end = Some (r, s')" "search_ok s r s'"
    using find_first_ok [OF assms(1-3), of marker] r by auto
  then show ?thesis using k unfolding search_ok_def scanned_def header_at_def hdr_marker_def
    by (intro exI [of _ s']) auto
qed

lemma init_law:
  assumes "finv (flash s)" "F = marked_pages C (img (flash s)) LOG_FS_MARKER_FILE"
    "\<forall>j<length F. rolling_nr (img (flash s)) (rotate r F ! j) = n0 + of_nat (a j)"
    "\<forall>i j. i < j \<longrightarrow> j < length F \<longrightarrow> a i < a j" "\<forall>j<length F. a j < 32768"
  shows "\<exists>s'. log_fs_init C fl s = Some (LOG_FS_ERR_NONE, s') \<and> finv (flash s') \<and>
    (if F = [] then file_page_first s' = LOG_FS_PAGE_INVALID \<and> file_page_last s' = LOG_FS_PAGE_INVALID
     else file_page_first s' = hd (rotate r F) \<and> file_page_last s' = last (rotate r F) \<and>
          file_page_nr_next s' = rolling_nr (img (flash s)) (last (rotate r F)) + 1) \<and>
    (\<forall>q. page_kind (img (flash s') q) = page_kind (img (flash s) q) \<and>
         (page_kind (img (flash s) q) \<noteq> LOG_FS_MARKER_BAD \<longrightarrow> img (flash s') q = img (flash s) q))"
  using init_rolling [OF assms(1), of r n0 a] assms(2-) unfolding file_pages_def nr_at_def fscan_def by auto

end

section \<open>Properties\<close>

text \<open>The interface of the file system is implemented by the driver of the repository on the simulated
  chip, and by the flash of \<^verbatim>\<open>log_fs.h\<close>.\<close>

interpretation repo_fs: log_fs_flash "at45d_flash at45d_cfg_repo (sim_dev at45d_cfg_repo)" 264 2048
  "\<lambda>s. drv_ok (sim_ok at45d_cfg_repo) sim_busy s \<and> img_ok at45d_cfg_repo (sim_mem (chip s))" "\<lambda>s. sim_mem (chip s)" log_fs_cfg_repo
  using sim_driver.drv.page_flash_axioms cfg_ok_repo
  by (simp add: log_fs_flash_def log_fs_flash_axioms_def) (simp add: log_fs_cfg_repo_def)

text \<open>A small configuration for concrete runs: four pages of 264 bytes.\<close>

definition cfg4 :: log_fs_cfg where
  "cfg4 = log_fs_cfg_repo\<lparr>LOG_FS_CFG_PAGE_END := 3\<rparr>"

lemma cfg4_ok: "cfg_ok cfg4"
  using cfg_ok_repo by (simp add: cfg_ok_def cfg4_def log_fs_cfg_repo_def sizeof_rec_block_def LOG_FS_REC_PAGE_DATA_SIZE_def
      LOG_FS_PAGE_INVALID_def sizeof_page_header_def sizeof_file_info_def)

interpretation nor_fs: log_fs_flash "nor_ops 264" 264 4 "nor_inv 264 4" nor_img cfg4
  using nor264.page_flash_axioms [of 4] cfg4_ok
  by (simp add: log_fs_flash_def log_fs_flash_axioms_def) (simp add: cfg4_def log_fs_cfg_repo_def)

definition blank4 :: "u8 list list" where
  "blank4 = replicate 4 (replicate 264 0xFF)"

lemma blank4_inv: "nor_inv 264 4 blank4"
  by (simp add: nor_inv_def blank4_def)

text \<open>C10. Searching for a page. On every flash that keeps the contract, \<^verbatim>\<open>log_fs_page_header_find_first\<close>
  terminates and returns the first page of the given range, in ring order from the start page to the
  end page, whose header carries the marker with a right checksum, or the invalid page number when there
  is none. It leaves every other variable alone, leaves the page header of that page in \<^verbatim>\<open>log_fs\<close>, and of
  the flash it changes at most pages that are already bad.\<close>

theorem log_fs_find_first_correct:
  assumes "log_fs_flash fl psize npages finv img C" "finv (flash s)" "in_range C page_start" "in_range C page_end"
    "r = (case find (\<lambda>p. page_kind (img (flash s) (unat p)) = marker) (ring_pages C page_start page_end) of
            None \<Rightarrow> LOG_FS_PAGE_INVALID | Some p \<Rightarrow> p)"
  shows "\<exists>s'. log_fs_page_header_find_first C fl s marker page_start page_end = Some (r, s') \<and> finv (flash s') \<and>
     (\<exists>h f. s' = s\<lparr>page_header := h, flash := f\<rparr>) \<and>
     (r \<noteq> LOG_FS_PAGE_INVALID \<and> marker \<in> {LOG_FS_MARKER_FILE, LOG_FS_MARKER_RECORD} \<longrightarrow>
        page_header s' = page_header_of_bytes (take 4 (img (flash s) (unat r)))) \<and>
     (\<forall>q. page_kind (img (flash s') q) = page_kind (img (flash s) q) \<and>
          (page_kind (img (flash s) q) \<noteq> LOG_FS_MARKER_BAD \<longrightarrow> img (flash s') q = img (flash s) q))"
  by (rule log_fs_flash.find_first_law [OF assms])

theorem log_fs_find_first_correct_witness:
  "\<exists>s'. log_fs_page_header_find_first cfg4 (nor_ops 264) (log_fs_reset cfg4 blank4) LOG_FS_MARKER_FREE 2 1 = Some (2, s')"
proof -
  have r: "2 = (case find (\<lambda>p. page_kind (nor_img (flash (log_fs_reset cfg4 blank4)) (unat p)) = LOG_FS_MARKER_FREE) (ring_pages cfg4 2 1) of
            None \<Rightarrow> LOG_FS_PAGE_INVALID | Some p \<Rightarrow> p)"
    by code_simp
  have "nor_inv 264 4 (flash (log_fs_reset cfg4 blank4))" using blank4_inv by (simp add: log_fs_reset_def)
  from log_fs_find_first_correct [OF nor_fs.log_fs_flash_axioms this _ _ r]
  show ?thesis by (auto simp: in_range_def cfg4_def log_fs_cfg_repo_def)
qed

text \<open>C9. Indexing the files. Take the file pages in the order of their page numbers and turn that list
  by any amount so that the oldest file comes first; if the rolling numbers then increase (they may wrap
  around and may have holes, and span less than half of the number range), \<^verbatim>\<open>log_fs_init\<close> terminates,
  reports no error, and sets the first file to the oldest page, the last file to the newest page and the
  next number to the one after the newest. With no file page both are the invalid page. No page changes
  except pages that are already bad.\<close>

theorem log_fs_init_finds_oldest_newest:
  assumes "log_fs_flash fl psize npages finv img C" "finv (flash s)"
    "F = marked_pages C (img (flash s)) LOG_FS_MARKER_FILE"
    "\<forall>j<length F. rolling_nr (img (flash s)) (rotate r F ! j) = n0 + of_nat (a j)"
    "\<forall>i j. i < j \<longrightarrow> j < length F \<longrightarrow> a i < a j" "\<forall>j<length F. a j < 32768"
  shows "\<exists>s'. log_fs_init C fl s = Some (LOG_FS_ERR_NONE, s') \<and> finv (flash s') \<and>
    (if F = [] then file_page_first s' = LOG_FS_PAGE_INVALID \<and> file_page_last s' = LOG_FS_PAGE_INVALID
     else file_page_first s' = hd (rotate r F) \<and> file_page_last s' = last (rotate r F) \<and>
          file_page_nr_next s' = rolling_nr (img (flash s)) (last (rotate r F)) + 1) \<and>
    (\<forall>q. page_kind (img (flash s') q) = page_kind (img (flash s) q) \<and>
         (page_kind (img (flash s) q) \<noteq> LOG_FS_MARKER_BAD \<longrightarrow> img (flash s') q = img (flash s) q))"
  by (rule log_fs_flash.init_law [OF assms])

text \<open>Three files on four pages, numbered 0xFFFF, 0, 1 from page 3 on; page 2 is free.\<close>

definition file_page_with :: "u16 \<Rightarrow> u8 list" where
  "file_page_with n =
     (let h = \<lparr>ph_marker = LOG_FS_MARKER_FILE, ph_nr = n, ph_crc = 0\<rparr>;
          b = page_header_bytes h
      in take 3 b @ [log_fs_crc_calc (take 3 b)] @ replicate 260 0xFF)"

lemma length_file_page_with: "length (file_page_with n) = 264"
  by (simp add: file_page_with_def Let_def sizeof_page_header_def)

lemma nr_file_page_with: "ph_nr (page_header_of_bytes (take 4 (file_page_with n))) = n"
  by (simp add: file_page_with_def Let_def page_header_bytes_def u16_bytes_def page_header_of_bytes_def)

definition three_files :: "u8 list list log_fs_t" where
  "three_files = log_fs_reset cfg4 [file_page_with 0, file_page_with 1, replicate 264 0xFF, file_page_with 0xFFFF]"

theorem log_fs_init_finds_oldest_newest_witness:
  "\<exists>s'. log_fs_init cfg4 (nor_ops 264) three_files = Some (LOG_FS_ERR_NONE, s') \<and>
     file_page_first s' = 3 \<and> file_page_last s' = 1 \<and> file_page_nr_next s' = 2"
proof -
  have F: "[0, 1, 3] = marked_pages cfg4 (nor_img (flash three_files)) LOG_FS_MARKER_FILE" by code_simp
  have inv: "nor_inv 264 4 (flash three_files)"
    using length_file_page_with by (simp add: nor_inv_def three_files_def log_fs_reset_def less_Suc_eq numeral_eq_Suc)
  have nr: "rolling_nr (nor_img (flash three_files)) 0 = 0" "rolling_nr (nor_img (flash three_files)) 1 = 1"
      "rolling_nr (nor_img (flash three_files)) 3 = 0xFFFF"
    by (simp_all add: rolling_nr_def nor_img_def three_files_def log_fs_reset_def nr_file_page_with nr_file_page_with [unfolded One_nat_def])
  have "rotate 2 [0, 1, 3] = [3, 0, 1 :: u16]" by (simp add: numeral_2_eq_2)
  then have "\<forall>j<length [0, 1, 3 :: u16]. rolling_nr (nor_img (flash three_files)) (rotate 2 [0, 1, 3] ! j) = 0xFFFF + of_nat j"
    using nr by (auto simp: less_Suc_eq)
  from log_fs_init_finds_oldest_newest [OF nor_fs.log_fs_flash_axioms inv F this]
  show ?thesis using nr(2) \<open>rotate 2 [0, 1, 3] = _\<close> by auto
qed

end
