(* ===== verification/Log_Fs_Blocks.thy ===== *)
theory Log_Fs_Blocks
  imports Log_Fs_Init
begin

text \<open>
  What the file system stores: record blocks and file blocks written to blank flash and read back, and
  appending a record. The lemmas are proved once in \<open>log_fs_nor\<close> (the flash that \<^verbatim>\<open>log_fs.h\<close> describes);
  the last part shows what happens to a record and to a file block on the driver of the repository, whose every
  write erases the rest of the page.
\<close>

section \<open>Writing into blank flash\<close>

definition overlay :: "nat \<Rightarrow> 'a list \<Rightarrow> 'a list \<Rightarrow> 'a list" where
  "overlay b bs xs = take b xs @ bs @ drop (b + length bs) xs"

lemma length_overlay [simp]: "b + length bs \<le> length xs \<Longrightarrow> length (overlay b bs xs) = length xs"
  by (simp add: overlay_def)

lemma slice_overlay: "b + length bs \<le> length xs \<Longrightarrow> slice b (length bs) (overlay b bs xs) = bs"
  by (simp add: slice_def overlay_def)

lemma nth_overlay:
  "b + length bs \<le> length xs \<Longrightarrow> i < length xs \<Longrightarrow>
   overlay b bs xs ! i = (if b \<le> i \<and> i < b + length bs then bs ! (i - b) else xs ! i)"
  by (auto simp: overlay_def nth_append min_def)

lemma slice_overlay_other:
  assumes "b + length bs \<le> length xs" "c + n \<le> length xs" "c + n \<le> b \<or> b + length bs \<le> c"
  shows "slice c n (overlay b bs xs) = slice c n xs"
  using assms by (intro slice_cong) (auto simp: nth_overlay)

text \<open>A record block with a valid checksum.\<close>

definition sealed :: "log_fs_rec_block_t \<Rightarrow> bool" where
  "sealed r \<longleftrightarrow> rb_marker r = LOG_FS_MARKER_RECORD \<and> rb_crc r = log_fs_crc_calc (butlast (rec_block_bytes r))"

definition seal :: "u8 list \<Rightarrow> log_fs_rec_block_t" where
  "seal d = \<lparr>rb_marker = LOG_FS_MARKER_RECORD, rb_data = d, rb_crc = log_fs_crc_calc (LOG_FS_MARKER_RECORD # d)\<rparr>"

lemma sealed_seal [simp]: "sealed (seal d)" "rb_data (seal d) = d"
  by (simp_all add: sealed_def seal_def rec_block_bytes_def)

definition sealed_header :: "log_fs_page_header_t \<Rightarrow> bool" where
  "sealed_header h \<longleftrightarrow> ph_crc h = log_fs_crc_calc (take 3 (page_header_bytes h))"

definition sealed_file :: "u16 \<Rightarrow> log_fs_file_info_t \<Rightarrow> bool" where
  "sealed_file p i \<longleftrightarrow> start_page (fi_file i) = p \<and> fi_crc i = log_fs_crc_calc (butlast (file_info_bytes i))"

lemma crc_calc_header: "log_fs_crc_page_header (s\<lparr>page_header := h\<lparr>ph_crc := c\<rparr>\<rparr>) = log_fs_crc_page_header (s\<lparr>page_header := h\<rparr>)"
  by (simp add: log_fs_crc_page_header_def page_header_bytes_def butlast_append)

lemma sealed_header_crc: "sealed_header (h\<lparr>ph_crc := log_fs_crc_page_header s\<rparr>)" if "h = page_header s"
  using that by (simp add: sealed_header_def crc_header_bytes) (simp add: page_header_bytes_def u16_bytes_def)

lemma sealed_header_kind:
  assumes "slice 0 4 xs = page_header_bytes h" "4 \<le> length xs" "sealed_header h"
    "ph_marker h \<in> {LOG_FS_MARKER_FILE, LOG_FS_MARKER_RECORD}"
  shows "page_kind xs = ph_marker h"
proof -
  have x: "xs ! i = page_header_bytes h ! i" if "i < 4" for i
    using that assms(1,2) nth_slice [of 0 4 xs i] by simp
  have "take 3 xs = take 3 (page_header_bytes h)" using assms(1) by (simp add: slice_def flip: assms(1))
  moreover have "xs ! 0 = ph_marker h" "xs ! 3 = ph_crc h" using x [of 0] x [of 3] by (simp_all add: page_header_bytes_def u16_bytes_def)
  moreover have "marker_of (ph_marker h) = ph_marker h" using assms(4) by (auto simp: marker_of_def markers_def)
  ultimately show ?thesis using assms(3) by (simp add: page_kind_def sealed_header_def)
qed

context log_fs_flash
begin

lemma record_block_rd_sealed:
  assumes "finv (flash s)" "unat p < npages" "unat b + sizeof_rec_block C \<le> psize"
    "slice (unat b) (sizeof_rec_block C) (img (flash s) (unat p)) = rec_block_bytes r" "sealed r"
  shows "\<exists>f. log_fs_record_block_rd C fl s p b = Some (True, s\<lparr>record_block := r, flash := f\<rparr>) \<and> finv f \<and> img f = img (flash s)"
proof -
  let ?xs = "img (flash s) (unat p)"
  have len: "length ?xs = psize" using page_length assms(1,2) by blast
  have lt: "unat b < psize" using assms(3) by (simp add: sizeof_rec_block_def)
  have "?xs ! unat b = slice (unat b) (sizeof_rec_block C) ?xs ! 0"
    using assms(3) len by (subst nth_slice) (auto simp: sizeof_rec_block_def)
  then have m: "?xs ! unat b = LOG_FS_MARKER_RECORD" using assms(4,5) by (simp add: rec_block_bytes_def sealed_def)
  then have m': "marker_of (?xs ! unat b) = LOG_FS_MARKER_RECORD" "LOG_FS_MARKER_RECORD \<noteq> LOG_FS_MARKER_BAD"
    by (simp_all add: marker_of_def markers_def marker_values)
  then obtain s1 where s1: "log_fs_marker_rd fl s p b = Some (LOG_FS_MARKER_RECORD, s1)" "touches p s s1"
      "img (flash s1) = img (flash s)"
    using marker_rd_ok [OF assms(1,2) lt] by auto
  then obtain f where f: "s1 = s\<lparr>flash := f\<rparr>" "finv f" "img f = img (flash s)" by (auto simp: touches_def)
  obtain g where g: "flash_rd fl s1 p b (sizeof_rec_block C) = Some (rec_block_bytes r, s\<lparr>flash := g\<rparr>)" "finv g"
      "img g = img (flash s)"
    using flash_rd_ok [of s1 p "sizeof_rec_block C" b] f assms(2-4) by (auto simp: sizeof_rec_block_def)
  have "log_fs_crc_record_block (s\<lparr>flash := g, record_block := r\<rparr>) = rb_crc r"
    using assms(5) by (simp add: log_fs_crc_record_block_def sealed_def)
  then have "log_fs_record_block_rd C fl s p b = Some (True, s\<lparr>record_block := r, flash := g\<rparr>)"
    using s1(1) g(1) by (simp add: log_fs_record_block_rd_def)
  then show ?thesis using g by blast
qed

text \<open>A record block that was written and compared is a record block that can be read.\<close>

lemma verified_write_law:
  assumes "finv (flash s)" "unat p < npages" "length (rb_data (record_block s)) = LOG_FS_CFG_REC_DATA_SIZE C"
    "log_fs_record_block_wr C fl s p b = Some (True, s1)"
  shows "\<exists>s2. log_fs_record_block_rd C fl s1 p b = Some (True, s2) \<and> rb_data (record_block s2) = rb_data (record_block s) \<and>
     img (flash s2) = img (flash s1)"
proof -
  let ?r = "seal (rb_data (record_block s))" and ?z = "sizeof_rec_block C"
  let ?t = "s\<lparr>record_block := ?r\<rparr>"
  have lr: "length (rec_block_bytes ?r) = ?z" and nr: "rec_block_bytes ?r \<noteq> []"
    using assms(3) by (simp_all add: sizeof_rec_block_def) (simp add: rec_block_bytes_def)
  have fits: "unat b + ?z < psize" using assms(4) page_size by (auto simp: log_fs_record_block_wr_def split: if_splits)
  have r: "(record_block s)\<lparr>rb_marker := LOG_FS_MARKER_RECORD, rb_crc := log_fs_crc_calc (LOG_FS_MARKER_RECORD # rb_data (record_block s))\<rparr> = ?r"
    by (cases "record_block s") (simp add: seal_def)
  obtain s' where s': "flash_wr fl ?t (rec_block_bytes ?r) p b = Some s'" "touches p ?t s'"
    using flash_wr_ok [of ?t p "rec_block_bytes ?r" b] assms(1,2) nr lr fits by auto
  have rs: "record_block s' = ?r" using s'(2) by (auto simp: touches_def)
  obtain f where f: "flash_rd fl s' p b ?z = Some (slice (unat b) ?z (img (flash s') (unat p)), s'\<lparr>flash := f\<rparr>)" "finv f"
      "img f = img (flash s')"
    using flash_rd_ok [OF touches_inv [OF s'(2)] assms(2), of ?z b] fits by (auto simp: sizeof_rec_block_def)
  have "slice (unat b) ?z (img (flash s') (unat p)) = rec_block_bytes ?r \<and> s1 = s'\<lparr>flash := f\<rparr>"
    using assms(4) s'(1) f(1) fits page_size rs r
    by (auto simp: log_fs_record_block_wr_def log_fs_crc_record_block_def rec_block_bytes_def [of "record_block s"]
        rec_block_bytes_def [of "record_block s\<lparr>rb_marker := LOG_FS_MARKER_RECORD\<rparr>"] butlast_append
        bind_eq_Some_conv split: if_splits)
  then have "s1 = s'\<lparr>flash := f\<rparr>" "slice (unat b) ?z (img (flash s1) (unat p)) = rec_block_bytes ?r" "finv (flash s1)"
    using f by auto
  then show ?thesis using record_block_rd_sealed [of s1 p b ?r] assms(2) fits by auto
qed

text \<open>The padded data of a record.\<close>

definition padded :: "u8 list \<Rightarrow> nat \<Rightarrow> u8 list" where
  "padded data n = take (min n (LOG_FS_CFG_REC_DATA_SIZE C)) data @
     replicate (LOG_FS_CFG_REC_DATA_SIZE C - min n (LOG_FS_CFG_REC_DATA_SIZE C)) 0xFF"

lemma wr_copy_ok:
  assumes "n \<le> length data"
  shows "log_fs_wr_copy C data n = Some (padded data n)" "length (padded data n) = LOG_FS_CFG_REC_DATA_SIZE C"
  using assms by (auto simp: log_fs_wr_copy_def padded_def Let_def)

text \<open>Slot \<open>k\<close> of a page.\<close>

lemma slot_bounds:
  assumes "unat b = LOG_FS_REC_OFFSET_FIRST + k * sizeof_rec_block C" "Suc k < LOG_FS_RECORDS_PER_PAGE C"
  shows "unat b + sizeof_rec_block C < psize" "unat b < LOG_FS_REC_OFFSET_LAST C" "4 \<le> unat b"
proof -
  let ?z = "sizeof_rec_block C"
  have z: "0 < ?z" by (simp add: sizeof_rec_block_def)
  have "Suc (Suc k) * ?z \<le> LOG_FS_RECORDS_PER_PAGE C * ?z" using assms(2) by (intro mult_right_mono) auto
  also have "\<dots> \<le> LOG_FS_REC_PAGE_DATA_SIZE C" by (simp add: LOG_FS_RECORDS_PER_PAGE_def)
  finally have "Suc (Suc k) * ?z \<le> psize - 4" by (simp add: LOG_FS_REC_PAGE_DATA_SIZE_def page_size sizeof_page_header_def)
  then have "k * ?z + ?z + ?z \<le> psize - 4" by simp
  then show "unat b + ?z < psize" using assms(1) z psize_4 by (simp add: LOG_FS_REC_OFFSET_FIRST_def sizeof_page_header_def)
  have "k < LOG_FS_RECORDS_PER_PAGE C - 1" using assms(2) by simp
  then have "k * ?z < (LOG_FS_RECORDS_PER_PAGE C - 1) * ?z" using z by simp
  then show "unat b < LOG_FS_REC_OFFSET_LAST C"
    using assms(1) by (simp add: LOG_FS_REC_OFFSET_LAST_def LOG_FS_REC_OFFSET_FIRST_def)
  show "4 \<le> unat b" using assms(1) by (simp add: LOG_FS_REC_OFFSET_FIRST_def sizeof_page_header_def)
qed

text \<open>The linear file system is full when the next page belongs to a file.\<close>

lemma record_wr_full_law:
  assumes "finv (flash s)" "rec_adr_wr s = \<lparr>adr_page = p, adr_offset = of_nat LOG_FS_REC_OFFSET_FIRST\<rparr>" "in_range C p"
    "LOG_FS_CFG_TYPE C = LOG_FS_CFG_TYPE_LINEAR" "img (flash s) (unat p) ! 0 = LOG_FS_MARKER_FILE"
  shows "\<exists>f. log_fs_record_wr C fl s data n = Some (LOG_FS_ERR_FULL, s\<lparr>flash := f\<rparr>) \<and> finv f \<and> img f = img (flash s)"
proof -
  have np: "unat p < npages" using in_range_npages [OF assms(3)] .
  have m: "marker_of (img (flash s) (unat p) ! 0) = LOG_FS_MARKER_FILE" "LOG_FS_MARKER_FILE \<noteq> LOG_FS_MARKER_BAD"
    using assms(5) by (simp_all add: marker_of_def markers_def marker_values)
  obtain s1 where s1: "log_fs_marker_rd fl s p 0 = Some (LOG_FS_MARKER_FILE, s1)" "touches p s s1" "img (flash s1) = img (flash s)"
    using marker_rd_ok [OF assms(1) np, of 0] psize_4 m by auto
  then obtain f where "s1 = s\<lparr>flash := f\<rparr>" "finv f" "img f = img (flash s)" by (auto simp: touches_def)
  moreover have "unat (of_nat LOG_FS_REC_OFFSET_FIRST :: u16) = LOG_FS_REC_OFFSET_FIRST"
    by (simp add: LOG_FS_REC_OFFSET_FIRST_def sizeof_page_header_def)
  ultimately show ?thesis using s1(1) assms(2,4)
    by (auto simp: log_fs_record_wr_def log_fs_wr_page_header_def log_fs_at_end_def)
qed

end

locale log_fs_nor = log_fs_flash fl psize npages finv img C + nor_flash fl psize npages finv img
  for fl :: "'f flash_ops" and psize npages finv img C
begin

lemma flash_wr_exact:
  assumes "finv (flash s)" "unat p < npages" "bs \<noteq> []" "unat b + length bs \<le> psize"
    "only_clears (slice (unat b) (length bs) (img (flash s) (unat p))) bs"
  shows "\<exists>f. flash_wr fl s bs p b = Some (s\<lparr>flash := f\<rparr>) \<and> finv f \<and>
     img f = (img (flash s))(unat p := overlay (unat b) bs (img (flash s) (unat p)))"
proof -
  let ?xs = "img (flash s) (unat p)"
  have n: "unat (of_nat (length bs) :: u16) = length bs"
    using assms(4) psize_u16 by (intro unat_of_nat_u16) linarith
  obtain s' where s': "flash_wr fl s bs p b = Some s'" "touches p s s'"
      "slice (unat b) (length bs) (img (flash s') (unat p)) = bs"
    using flash_wr_ok [OF assms(1-4)] assms(5) by blast
  then obtain f where f: "s' = s\<lparr>flash := f\<rparr>" "finv f" "\<forall>q. q \<noteq> unat p \<longrightarrow> img f q = img (flash s) q"
    by (auto simp: touches_def)
  then have w: "fl_wr fl (flash s) bs p b (of_nat (length bs)) = Some f"
    using s'(1) by (cases "fl_wr fl (flash s) bs p b (of_nat (length bs))") (auto simp: flash_wr_def dest: arg_cong [of _ _ flash])
  have len: "length (img f (unat p)) = psize" "length ?xs = psize" using page_length assms(1,2) f(2) by auto
  have "img f (unat p) = overlay (unat b) bs ?xs"
  proof (rule nth_equalityI)
    show "length (img f (unat p)) = length (overlay (unat b) bs ?xs)" using len assms(4) by simp
  next
    fix i assume "i < length (img f (unat p))"
    then have i: "i < psize" using len by simp
    show "img f (unat p) ! i = overlay (unat b) bs ?xs ! i"
    proof (cases "unat b \<le> i \<and> i < unat b + length bs")
      case True
      then have "img f (unat p) ! i = slice (unat b) (length bs) (img f (unat p)) ! (i - unat b)"
        using len assms(4) by (subst nth_slice) auto
      then show ?thesis using True s'(3) f(1) i len assms(4) by (simp add: nth_overlay)
    next
      case False
      then show ?thesis using wr_keeps [OF assms(1,2) _ _ _ w i] n assms(3,4) i len by (auto simp: nth_overlay)
    qed
  qed
  then have "img f = (img (flash s))(unat p := overlay (unat b) bs ?xs)" using f(3) by (intro ext) simp
  then show ?thesis using f s'(1) by (intro exI [of _ f]) simp
qed

lemma page_header_wr_blank:
  assumes "finv (flash s)" "unat p < npages" "slice 0 4 (img (flash s) (unat p)) = replicate 4 0xFF"
    "h = (page_header s)\<lparr>ph_crc := log_fs_crc_page_header s\<rparr>"
  shows "\<exists>f. log_fs_page_header_wr fl s p = Some (True, s\<lparr>page_header := h, flash := f\<rparr>) \<and> finv f \<and>
     img f = (img (flash s))(unat p := overlay 0 (page_header_bytes h) (img (flash s) (unat p)))"
proof -
  let ?s1 = "s\<lparr>page_header := h\<rparr>"
  have len: "length (page_header_bytes h) = 4" by (simp add: sizeof_page_header_def)
  have ne: "page_header_bytes h \<noteq> []" by (simp add: page_header_bytes_def)
  obtain f where f: "flash_wr fl ?s1 (page_header_bytes h) p 0 = Some (?s1\<lparr>flash := f\<rparr>)" "finv f"
      "img f = (img (flash s))(unat p := overlay 0 (page_header_bytes h) (img (flash s) (unat p)))"
    using flash_wr_exact [of ?s1 p "page_header_bytes h" 0] assms(1-3) ne len psize_4 only_clears_blank [of "page_header_bytes h" 4] by auto
  have "length (img (flash s) (unat p)) = psize" using page_length assms(1,2) by blast
  then have "slice 0 4 (img f (unat p)) = page_header_bytes h"
    using f(3) slice_overlay [of 0 "page_header_bytes h" "img (flash s) (unat p)"] len psize_4 by simp
  then obtain g where g: "flash_rd fl (?s1\<lparr>flash := f\<rparr>) p 0 sizeof_page_header = Some (page_header_bytes h, ?s1\<lparr>flash := g\<rparr>)"
      "finv g" "img g = img f"
    using flash_rd_ok [of "?s1\<lparr>flash := f\<rparr>" p 4 0] assms(2) f(2) psize_4 by (auto simp: sizeof_page_header_def)
  show ?thesis using f g assms(4) by (auto simp: log_fs_page_header_wr_def)
qed

lemma rec_size: "LOG_FS_CFG_REC_DATA_SIZE C = length d \<Longrightarrow> length (rec_block_bytes (seal d)) = sizeof_rec_block C"
  by (simp add: sizeof_rec_block_def)

lemma record_block_wr_blank:
  assumes "finv (flash s)" "unat p < npages" "unat b + sizeof_rec_block C < psize"
    "slice (unat b) (sizeof_rec_block C) (img (flash s) (unat p)) = replicate (sizeof_rec_block C) 0xFF"
    "length (rb_data (record_block s)) = LOG_FS_CFG_REC_DATA_SIZE C" "r = seal (rb_data (record_block s))"
  shows "\<exists>f. log_fs_record_block_wr C fl s p b = Some (True, s\<lparr>record_block := r, flash := f\<rparr>) \<and> finv f \<and>
     img f = (img (flash s))(unat p := overlay (unat b) (rec_block_bytes r) (img (flash s) (unat p)))"
proof -
  let ?s1 = "s\<lparr>record_block := r\<rparr>"
  have len: "length (rec_block_bytes r) = sizeof_rec_block C" using assms(5,6) by (simp add: sizeof_rec_block_def)
  have ne: "rec_block_bytes r \<noteq> []" by (simp add: rec_block_bytes_def)
  have r: "(record_block s)\<lparr>rb_marker := LOG_FS_MARKER_RECORD, rb_crc := log_fs_crc_calc (LOG_FS_MARKER_RECORD # rb_data (record_block s))\<rparr> = r"
    using assms(6) by (cases "record_block s") (simp add: seal_def)
  obtain f where f: "flash_wr fl ?s1 (rec_block_bytes r) p b = Some (?s1\<lparr>flash := f\<rparr>)" "finv f"
      "img f = (img (flash s))(unat p := overlay (unat b) (rec_block_bytes r) (img (flash s) (unat p)))"
    using flash_wr_exact [of ?s1 p "rec_block_bytes r" b] assms(1-4) ne len only_clears_blank [of "rec_block_bytes r" "sizeof_rec_block C"]
    by auto
  have "length (img (flash s) (unat p)) = psize" using page_length assms(1,2) by blast
  then have "slice (unat b) (sizeof_rec_block C) (img f (unat p)) = rec_block_bytes r"
    using f(3) slice_overlay [of "unat b" "rec_block_bytes r" "img (flash s) (unat p)"] len assms(3) by simp
  then obtain g where g: "flash_rd fl (?s1\<lparr>flash := f\<rparr>) p b (sizeof_rec_block C) = Some (rec_block_bytes r, ?s1\<lparr>flash := g\<rparr>)"
      "finv g" "img g = img f"
    using flash_rd_ok [of "?s1\<lparr>flash := f\<rparr>" p "sizeof_rec_block C" b] assms(2,3) f(2) by (auto simp: sizeof_rec_block_def)
  show ?thesis using f g assms(3) r page_size
    by (auto simp: log_fs_record_block_wr_def log_fs_crc_record_block_def rec_block_bytes_def [of "record_block s"]
        rec_block_bytes_def [of "record_block s\<lparr>rb_marker := LOG_FS_MARKER_RECORD\<rparr>"] butlast_append)
qed

lemma wr_page_header_blank:
  assumes "finv (flash s)" "unat p < npages" "slice 0 4 (img (flash s) (unat p)) = replicate 4 0xFF"
    "LOG_FS_CFG_TYPE C = LOG_FS_CFG_TYPE_LINEAR \<Longrightarrow>
       \<exists>e. log_fs_record_pages_bound_end C s = Some e \<and> in_range C e \<and> p \<noteq> next_page C e"
  shows "\<exists>s' h. log_fs_wr_page_header C fl p s = Some (None, s') \<and> finv (flash s') \<and>
     img (flash s') = (img (flash s))(unat p := overlay 0 (page_header_bytes h) (img (flash s) (unat p))) \<and>
     rec_adr_wr s' = rec_adr_wr s \<and> record_block s' = record_block s \<and> rec_page_last s' = p \<and> file_info s' = file_info s"
proof -
  let ?xs = "img (flash s) (unat p)"
  have len: "length ?xs = psize" using page_length assms(1,2) by blast
  have "?xs ! 0 = slice 0 4 ?xs ! 0" using len psize_4 by (subst nth_slice) auto
  then have m: "marker_of (?xs ! 0) = LOG_FS_MARKER_FREE" using assms(3) by (simp add: marker_of_def markers_def marker_values)
  have vals: "LOG_FS_MARKER_FREE \<noteq> LOG_FS_MARKER_BAD" "LOG_FS_MARKER_FREE \<noteq> LOG_FS_MARKER_FILE" by (simp_all add: marker_values)
  obtain s1 where s1: "log_fs_marker_rd fl s p 0 = Some (LOG_FS_MARKER_FREE, s1)" "touches p s s1" "img (flash s1) = img (flash s)"
    using marker_rd_ok [OF assms(1,2), of 0] psize_4 m vals by auto
  then obtain f where f: "s1 = s\<lparr>flash := f\<rparr>" "finv f" "img f = img (flash s)" by (auto simp: touches_def)
  have full: "(if LOG_FS_CFG_TYPE C = LOG_FS_CFG_TYPE_LINEAR then log_fs_at_end C p LOG_FS_MARKER_FREE s1 else Some False) = Some False"
  proof (cases "LOG_FS_CFG_TYPE C")
    case LOG_FS_CFG_TYPE_LINEAR
    then obtain e where e: "log_fs_record_pages_bound_end C s = Some e" "in_range C e" "p \<noteq> next_page C e" using assms(4) by blast
    have "log_fs_record_pages_bound_end C s1 = Some e" using e(1) f(1) by (simp add: log_fs_record_pages_bound_end_def)
    then show ?thesis using e LOG_FS_CFG_TYPE_LINEAR vals by (simp add: log_fs_at_end_def)
  qed simp
  let ?s2 = "s1\<lparr>page_header := (page_header s1)\<lparr>ph_marker := LOG_FS_MARKER_RECORD, ph_nr := rec_page_nr_next s1\<rparr>\<rparr>"
  obtain h g where g: "log_fs_page_header_wr fl ?s2 p = Some (True, ?s2\<lparr>page_header := h, flash := g\<rparr>)" "finv g"
      "img g = (img (flash s))(unat p := overlay 0 (page_header_bytes h) ?xs)"
    using page_header_wr_blank [of ?s2 p, OF _ assms(2) _ refl] f assms(3) by auto
  show ?thesis using s1(1) full g vals f by (auto simp: log_fs_wr_page_header_def Let_def)
qed

lemma record_wr_ok:
  assumes fin: "finv (flash s)" and adr: "rec_adr_wr s = \<lparr>adr_page = p, adr_offset = b\<rparr>" and p: "in_range C p"
    and slot: "unat b = LOG_FS_REC_OFFSET_FIRST + k * sizeof_rec_block C" "Suc k < LOG_FS_RECORDS_PER_PAGE C"
    and blank: "slice (unat b) (sizeof_rec_block C) (img (flash s) (unat p)) = replicate (sizeof_rec_block C) 0xFF"
    and fresh: "k = 0 \<Longrightarrow> slice 0 4 (img (flash s) (unat p)) = replicate 4 0xFF"
    and room: "k = 0 \<Longrightarrow> LOG_FS_CFG_TYPE C = LOG_FS_CFG_TYPE_LINEAR \<Longrightarrow>
       \<exists>e. log_fs_record_pages_bound_end C s = Some e \<and> in_range C e \<and> p \<noteq> next_page C e"
    and n: "n \<le> length data"
  shows "\<exists>s' h. log_fs_record_wr C fl s data n = Some (LOG_FS_ERR_NONE, s') \<and> finv (flash s') \<and>
     rec_adr_wr s' = \<lparr>adr_page = p, adr_offset = b + of_nat (sizeof_rec_block C)\<rparr> \<and>
     img (flash s') = (img (flash s))(unat p := overlay (unat b) (rec_block_bytes (seal (padded data n)))
        (if k = 0 then overlay 0 (page_header_bytes h) (img (flash s) (unat p)) else img (flash s) (unat p)))"
proof -
  let ?xs = "img (flash s) (unat p)"
  have np: "unat p < npages" using in_range_npages [OF p] .
  note sb = slot_bounds [OF slot]
  have first: "unat b = LOG_FS_REC_OFFSET_FIRST \<longleftrightarrow> k = 0" using slot(1) by (cases k) (simp_all add: sizeof_rec_block_def)
  have len: "length ?xs = psize" using page_length fin np by blast
  obtain s1 h where s1: "(if unat b = LOG_FS_REC_OFFSET_FIRST then log_fs_wr_page_header C fl p s else Some (None, s)) = Some (None, s1)"
      "finv (flash s1)" "rec_adr_wr s1 = rec_adr_wr s"
      "img (flash s1) = (img (flash s))(unat p := if k = 0 then overlay 0 (page_header_bytes h) ?xs else ?xs)"
  proof (cases "k = 0")
    case True
    obtain s1 h where "log_fs_wr_page_header C fl p s = Some (None, s1)" "finv (flash s1)" "rec_adr_wr s1 = rec_adr_wr s"
        "img (flash s1) = (img (flash s))(unat p := overlay 0 (page_header_bytes h) ?xs)"
      using wr_page_header_blank [OF fin np fresh [OF True]] room [OF True] by blast
    then show ?thesis using that [of s1 h] True first by simp
  next
    case False
    then show ?thesis using that [of s] first fin by simp
  qed
  let ?s2 = "s1\<lparr>record_block := (record_block s1)\<lparr>rb_data := padded data n\<rparr>\<rparr>"
  have "slice (unat b) (sizeof_rec_block C) (img (flash ?s2) (unat p)) = replicate (sizeof_rec_block C) 0xFF"
    using s1(4) blank slice_overlay_other [of 0 "page_header_bytes h" ?xs "unat b" "sizeof_rec_block C"] len sb
    by (simp add: sizeof_page_header_def)
  then obtain f where f: "log_fs_record_block_wr C fl ?s2 p b = Some (True, ?s2\<lparr>record_block := seal (padded data n), flash := f\<rparr>)" "finv f"
      "img f = (img (flash s1))(unat p := overlay (unat b) (rec_block_bytes (seal (padded data n))) (img (flash s1) (unat p)))"
    using record_block_wr_blank [of ?s2 p b "seal (padded data n)"] s1(2) np sb(1) wr_copy_ok(2) [OF n] by auto
  have ret: "log_fs_record_wr C fl s data n = Some (LOG_FS_ERR_NONE,
      ?s2\<lparr>record_block := seal (padded data n), flash := f, rec_adr_wr := \<lparr>adr_page = p, adr_offset = b + of_nat (sizeof_rec_block C)\<rparr>\<rparr>)"
    using s1(1,3) adr f(1) sb(2) wr_copy_ok(1) [OF n] by (simp add: log_fs_record_wr_def)
  show ?thesis unfolding ret using f s1(4) by (intro exI [of _ _] exI [of _ h] conjI) auto
qed

lemma file_block_wr_blank:
  assumes "finv (flash s)" "unat p < npages" "slice 0 13 (img (flash s) (unat p)) = replicate 13 0xFF" "13 \<le> psize"
    "j = fi_file (file_info s)"
  shows "\<exists>f h i. log_fs_file_block_wr fl s p = Some (True, s\<lparr>page_header := h, file_info := i, flash := f\<rparr>) \<and> finv f \<and>
     sealed_header h \<and> ph_marker h = LOG_FS_MARKER_FILE \<and> ph_nr h = ph_nr (page_header s) \<and>
     sealed_file p i \<and> time_stamp (fi_file i) = time_stamp j \<and>
     img f = (img (flash s))(unat p := overlay 4 (file_info_bytes i) (overlay 0 (page_header_bytes h) (img (flash s) (unat p))))"
proof -
  let ?xs = "img (flash s) (unat p)"
  let ?s1 = "s\<lparr>page_header := (page_header s)\<lparr>ph_marker := LOG_FS_MARKER_FILE\<rparr>\<rparr>"
  define h where "h = (page_header ?s1)\<lparr>ph_crc := log_fs_crc_page_header ?s1\<rparr>"
  have len: "length ?xs = psize" using page_length assms(1,2) by blast
  have b4: "slice 0 4 ?xs = replicate 4 0xFF"
    using assms(3) slice_slice [of 0 4 13 0 ?xs] by (simp add: slice_def)
  have b9: "slice 4 9 ?xs = replicate 9 0xFF"
    using assms(3) slice_slice [of 4 9 13 0 ?xs] by (simp add: slice_def)
  obtain f where f: "log_fs_page_header_wr fl ?s1 p = Some (True, ?s1\<lparr>page_header := h, flash := f\<rparr>)" "finv f"
      "img f = (img (flash s))(unat p := overlay 0 (page_header_bytes h) ?xs)"
    using page_header_wr_blank [of ?s1 p h] assms(1,2) b4 by (auto simp: h_def)
  let ?s2 = "s\<lparr>page_header := h, flash := f, file_info := (file_info s)\<lparr>fi_file := j\<lparr>start_page := p\<rparr>\<rparr>\<rparr>"
  define i where "i = (file_info ?s2)\<lparr>fi_crc := log_fs_crc_file_info ?s2\<rparr>"
  let ?s3 = "s\<lparr>page_header := h, flash := f, file_info := i\<rparr>"
  have li: "length (file_info_bytes i) = 9" by (simp add: sizeof_file_info_def)
  have ne: "file_info_bytes i \<noteq> []" by (simp add: file_info_bytes_def Let_def)
  have lh: "length (page_header_bytes h) = 4" by (simp add: sizeof_page_header_def)
  have "slice 4 9 (img f (unat p)) = replicate 9 0xFF"
    using f(3) b9 slice_overlay_other [of 0 "page_header_bytes h" ?xs 4 9] len lh assms(4) by simp
  then obtain g where g: "flash_wr fl ?s3 (file_info_bytes i) p 4 = Some (?s3\<lparr>flash := g\<rparr>)" "finv g"
      "img g = (img f)(unat p := overlay 4 (file_info_bytes i) (img f (unat p)))"
    using flash_wr_exact [of ?s3 p "file_info_bytes i" 4] assms(2,4) f(2) li ne only_clears_blank [of "file_info_bytes i" 9] by auto
  have "length (img f (unat p)) = psize" using page_length f(2) assms(2) by blast
  then have "slice 4 9 (img g (unat p)) = file_info_bytes i"
    using g(3) slice_overlay [of 4 "file_info_bytes i" "img f (unat p)"] li assms(4) by simp
  then obtain k where k: "flash_rd fl (?s3\<lparr>flash := g\<rparr>) p 4 9 = Some (file_info_bytes i, ?s3\<lparr>flash := k\<rparr>)" "finv k" "img k = img g"
    using flash_rd_ok [of "?s3\<lparr>flash := g\<rparr>" p 9 4] assms(2,4) g(2) by auto
  have ret: "log_fs_file_block_wr fl s p = Some (True, s\<lparr>page_header := h, file_info := i, flash := k\<rparr>)"
    using f(1) g(1) k(1) assms(5)
    by (simp add: log_fs_file_block_wr_def i_def log_fs_crc_file_info_def sizeof_page_header_def sizeof_file_info_def)
  have "sealed_header h" unfolding h_def by (rule sealed_header_crc) simp
  moreover have "sealed_file p i"
    by (simp add: sealed_file_def i_def log_fs_crc_file_info_def file_info_bytes_def u16_bytes_def Let_def)
  ultimately show ?thesis unfolding ret using k g(3) f(3)
    by (intro exI [of _ k] exI [of _ h] exI [of _ i]) (auto simp: h_def i_def)
qed

lemma file_block_rd_sealed:
  assumes "finv (flash s)" "unat p < npages" "13 \<le> psize"
    "slice 0 4 (img (flash s) (unat p)) = page_header_bytes h" "sealed_header h" "ph_marker h = LOG_FS_MARKER_FILE"
    "slice 4 9 (img (flash s) (unat p)) = file_info_bytes i" "sealed_file p i"
  shows "\<exists>s'. log_fs_file_block_rd fl s p = Some (True, s') \<and> file_info s' = i \<and> page_header s' = h \<and> fscan s s'"
proof -
  let ?xs = "img (flash s) (unat p)"
  have len: "length ?xs = psize" using page_length assms(1,2) by blast
  have kind: "kind s p = LOG_FS_MARKER_FILE" using sealed_header_kind [OF assms(4) _ assms(5)] len assms(3,6) by simp
  obtain s1 where s1: "log_fs_page_header_rd fl s p = Some (LOG_FS_MARKER_FILE, s1)" "scanned s s1" "page_header s1 = header_at s p"
    using header_rd [OF assms(1,2) psize_4] kind by auto
  have h: "header_at s p = h" using assms(4) by (simp add: header_at_def slice_def)
  have im: "img (flash s1) (unat p) = ?xs" using scanned_same [OF s1(2)] kind by (simp add: marker_values)
  obtain f where f: "flash_rd fl s1 p 4 9 = Some (file_info_bytes i, s1\<lparr>flash := f\<rparr>)" "finv f" "img f = img (flash s1)"
    using flash_rd_ok [of s1 p 9 4] scanned_inv [OF s1(2)] assms(2,3,7) im by auto
  have "log_fs_file_block_rd fl s p = Some (True, s1\<lparr>flash := f, file_info := i\<rparr>)"
    using s1(1) f(1) assms(8)
    by (simp add: log_fs_file_block_rd_def log_fs_crc_file_info_def sealed_file_def sizeof_page_header_def sizeof_file_info_def)
  moreover have "fscan s (s1\<lparr>flash := f, file_info := i\<rparr>)" using s1(2) f by (simp add: fscan_def scanned_def)
  ultimately show ?thesis using s1(3) h by auto
qed

lemma record_wr_law:
  assumes "finv (flash s)" "rec_adr_wr s = \<lparr>adr_page = p, adr_offset = b\<rparr>" "in_range C p"
    "unat b = LOG_FS_REC_OFFSET_FIRST + k * sizeof_rec_block C" "Suc k < LOG_FS_RECORDS_PER_PAGE C"
    "slice (unat b) (sizeof_rec_block C) (img (flash s) (unat p)) = replicate (sizeof_rec_block C) 0xFF"
    "k = 0 \<Longrightarrow> slice 0 4 (img (flash s) (unat p)) = replicate 4 0xFF"
    "k = 0 \<Longrightarrow> LOG_FS_CFG_TYPE C = LOG_FS_CFG_TYPE_LINEAR \<Longrightarrow>
       \<exists>e. log_fs_record_pages_bound_end C s = Some e \<and> in_range C e \<and> log_fs_page_next C e \<noteq> Some p"
    "n \<le> length data" "m = min n (LOG_FS_CFG_REC_DATA_SIZE C)"
  shows "\<exists>s1 s2. log_fs_record_wr C fl s data n = Some (LOG_FS_ERR_NONE, s1) \<and>
     rec_adr_wr s1 = \<lparr>adr_page = p, adr_offset = b + of_nat (sizeof_rec_block C)\<rparr> \<and>
     log_fs_record_block_rd C fl s1 p b = Some (True, s2) \<and>
     rb_data (record_block s2) = take m data @ replicate (LOG_FS_CFG_REC_DATA_SIZE C - m) 0xFF \<and>
     (\<forall>q i. i < psize \<longrightarrow> \<not> (q = unat p \<and> (unat b \<le> i \<and> i < unat b + sizeof_rec_block C \<or> k = 0 \<and> i < 4)) \<longrightarrow>
        img (flash s1) q ! i = img (flash s) q ! i)"
proof -
  let ?xs = "img (flash s) (unat p)" and ?r = "seal (padded data n)"
  have np: "unat p < npages" using in_range_npages [OF assms(3)] .
  note sb = slot_bounds [OF assms(4,5)]
  have room: "\<exists>e. log_fs_record_pages_bound_end C s = Some e \<and> in_range C e \<and> p \<noteq> next_page C e"
    if "k = 0" "LOG_FS_CFG_TYPE C = LOG_FS_CFG_TYPE_LINEAR"
    using assms(8) [OF that] by (auto simp: page_next_eq)
  obtain s1 h where s1: "log_fs_record_wr C fl s data n = Some (LOG_FS_ERR_NONE, s1)" "finv (flash s1)"
     "rec_adr_wr s1 = \<lparr>adr_page = p, adr_offset = b + of_nat (sizeof_rec_block C)\<rparr>"
     "img (flash s1) = (img (flash s))(unat p := overlay (unat b) (rec_block_bytes ?r)
        (if k = 0 then overlay 0 (page_header_bytes h) ?xs else ?xs))"
    using record_wr_ok [OF assms(1-7) room assms(9)] by blast
  have len: "length ?xs = psize" using page_length assms(1) np by blast
  have lr: "length (rec_block_bytes ?r) = sizeof_rec_block C" using wr_copy_ok(2) [OF assms(9)] by (simp add: sizeof_rec_block_def)
  have "slice (unat b) (sizeof_rec_block C) (img (flash s1) (unat p)) = rec_block_bytes ?r"
    using s1(4) slice_overlay [of "unat b" "rec_block_bytes ?r"] lr sb(1) len psize_4 by (auto simp: sizeof_page_header_def)
  from record_block_rd_sealed [OF s1(2) np _ this] sb(1) obtain f where
    "log_fs_record_block_rd C fl s1 p b = Some (True, s1\<lparr>record_block := ?r, flash := f\<rparr>)" by auto
  moreover have "img (flash s1) q ! i = img (flash s) q ! i"
    if "i < psize" "\<not> (q = unat p \<and> (unat b \<le> i \<and> i < unat b + sizeof_rec_block C \<or> k = 0 \<and> i < 4))" for q i
    using that s1(4) lr sb(1) len psize_4 by (auto simp: nth_overlay sizeof_page_header_def)
  ultimately show ?thesis using s1(1,3) assms(10) by (auto simp: padded_def)
qed

lemma file_block_law:
  assumes "finv (flash s)" "in_range C p" "slice 0 13 (img (flash s) (unat p)) = replicate 13 0xFF"
  shows "\<exists>s1 s2. log_fs_file_block_wr fl s p = Some (True, s1) \<and> log_fs_file_block_rd fl s1 p = Some (True, s2) \<and>
     start_page (fi_file (file_info s2)) = p \<and> time_stamp (fi_file (file_info s2)) = time_stamp (fi_file (file_info s)) \<and>
     ph_nr (page_header s2) = ph_nr (page_header s) \<and>
     (\<forall>q i. i < psize \<longrightarrow> \<not> (q = unat p \<and> i < 13) \<longrightarrow> img (flash s1) q ! i = img (flash s) q ! i)"
proof -
  let ?xs = "img (flash s) (unat p)"
  have np: "unat p < npages" using in_range_npages [OF assms(2)] .
  have ps: "13 \<le> psize" using cfg page_size by (simp add: cfg_ok_def sizeof_page_header_def sizeof_file_info_def)
  obtain f h i where w: "log_fs_file_block_wr fl s p = Some (True, s\<lparr>page_header := h, file_info := i, flash := f\<rparr>)" "finv f"
     "sealed_header h" "ph_marker h = LOG_FS_MARKER_FILE" "ph_nr h = ph_nr (page_header s)"
     "sealed_file p i" "time_stamp (fi_file i) = time_stamp (fi_file (file_info s))"
     "img f = (img (flash s))(unat p := overlay 4 (file_info_bytes i) (overlay 0 (page_header_bytes h) ?xs))"
    using file_block_wr_blank [OF assms(1) np assms(3) ps refl] by blast
  let ?s1 = "s\<lparr>page_header := h, file_info := i, flash := f\<rparr>"
  have len: "length ?xs = psize" using page_length assms(1) np by blast
  have li: "length (file_info_bytes i) = 9" and lh: "length (page_header_bytes h) = 4"
    by (simp_all add: sizeof_file_info_def sizeof_page_header_def)
  have "slice 4 9 (img f (unat p)) = file_info_bytes i"
    using w(8) slice_overlay [of 4 "file_info_bytes i" "overlay 0 (page_header_bytes h) ?xs"] li lh ps len by simp
  moreover have "slice 0 4 (img f (unat p)) = page_header_bytes h"
    using w(8) slice_overlay_other [of 4 "file_info_bytes i" "overlay 0 (page_header_bytes h) ?xs" 0 4]
      slice_overlay [of 0 "page_header_bytes h" ?xs] li lh ps len by simp
  ultimately obtain s2 where "log_fs_file_block_rd fl ?s1 p = Some (True, s2)" "file_info s2 = i" "page_header s2 = h"
    using file_block_rd_sealed [of ?s1 p h i] w(2-6) np ps by auto
  moreover have "img f q ! j = img (flash s) q ! j" if "j < psize" "\<not> (q = unat p \<and> j < 13)" for q j
    using that w(8) li lh ps len by (auto simp: nth_overlay)
  ultimately show ?thesis using w(1,5,6,7) by (auto simp: sealed_file_def)
qed

end

section \<open>On the driver of the repository\<close>

locale log_fs_erase = log_fs_flash fl psize npages finv img C + erase_flash fl psize npages finv img
  for fl :: "'f flash_ops" and psize npages finv img C
begin

lemma flash_wr_fills:
  assumes "finv (flash s)" "unat p < npages" "bs \<noteq> []" "unat b + length bs \<le> psize"
  shows "\<exists>f. flash_wr fl s bs p b = Some (s\<lparr>flash := f\<rparr>) \<and> finv f \<and>
     img f = (img (flash s))(unat p := replicate (unat b) 0xFF @ bs @ replicate (psize - unat b - length bs) 0xFF)"
proof -
  have n: "unat (of_nat (length bs) :: u16) = length bs"
    using assms(4) psize_u16 by (intro unat_of_nat_u16) linarith
  then obtain f where "fl_wr fl (flash s) bs p b (of_nat (length bs)) = Some f" "finv f" "\<forall>q. q \<noteq> unat p \<longrightarrow> img f q = img (flash s) q"
    using wr_law [of "flash s" p "of_nat (length bs)" b bs] assms by auto
  then show ?thesis using wr_fills [of "flash s" p "of_nat (length bs)" b bs f] assms n
    by (intro exI [of _ f]) (auto simp: flash_wr_def)
qed

text \<open>A page header and a record block: both are stored, and both take the rest of the page with them.\<close>

lemma page_header_wr_fills:
  assumes "finv (flash s)" "unat p < npages"
  shows "\<exists>h f. log_fs_page_header_wr fl s p = Some (True, s\<lparr>page_header := h, flash := f\<rparr>) \<and> finv f \<and>
     (\<forall>q. q \<noteq> unat p \<longrightarrow> img f q = img (flash s) q)"
proof -
  define h where "h = (page_header s)\<lparr>ph_crc := log_fs_crc_page_header s\<rparr>"
  let ?s1 = "s\<lparr>page_header := h\<rparr>"
  have len: "length (page_header_bytes h) = 4" and ne: "page_header_bytes h \<noteq> []"
    by (simp_all add: sizeof_page_header_def) (simp add: page_header_bytes_def)
  obtain f where f: "flash_wr fl ?s1 (page_header_bytes h) p 0 = Some (?s1\<lparr>flash := f\<rparr>)" "finv f"
      "img f = (img (flash s))(unat p := page_header_bytes h @ replicate (psize - 4) 0xFF)"
    using flash_wr_fills [of ?s1 p "page_header_bytes h" 0] assms len ne psize_4 by auto
  then obtain g where g: "flash_rd fl (?s1\<lparr>flash := f\<rparr>) p 0 sizeof_page_header = Some (page_header_bytes h, ?s1\<lparr>flash := g\<rparr>)"
      "finv g" "img g = img f"
    using flash_rd_ok [of "?s1\<lparr>flash := f\<rparr>" p 4 0] assms(2) psize_4 len by (auto simp: sizeof_page_header_def slice_def)
  have "log_fs_page_header_wr fl s p = Some (True, s\<lparr>page_header := h, flash := g\<rparr>)"
    using f(1) g(1) by (simp add: log_fs_page_header_wr_def h_def)
  then show ?thesis using g f(3) by (intro exI [of _ h] exI [of _ g]) simp
qed

lemma record_block_wr_fills:
  assumes "finv (flash s)" "unat p < npages" "unat b + sizeof_rec_block C < psize"
    "length (rb_data (record_block s)) = LOG_FS_CFG_REC_DATA_SIZE C" "r = seal (rb_data (record_block s))"
  shows "\<exists>f. log_fs_record_block_wr C fl s p b = Some (True, s\<lparr>record_block := r, flash := f\<rparr>) \<and> finv f \<and>
     img f = (img (flash s))(unat p := replicate (unat b) 0xFF @ rec_block_bytes r @ replicate (psize - unat b - sizeof_rec_block C) 0xFF)"
proof -
  let ?s1 = "s\<lparr>record_block := r\<rparr>"
  have len: "length (rec_block_bytes r) = sizeof_rec_block C" using assms(4,5) by (simp add: sizeof_rec_block_def)
  have ne: "rec_block_bytes r \<noteq> []" by (simp add: rec_block_bytes_def)
  have r: "(record_block s)\<lparr>rb_marker := LOG_FS_MARKER_RECORD, rb_crc := log_fs_crc_calc (LOG_FS_MARKER_RECORD # rb_data (record_block s))\<rparr> = r"
    using assms(5) by (cases "record_block s") (simp add: seal_def)
  obtain f where f: "flash_wr fl ?s1 (rec_block_bytes r) p b = Some (?s1\<lparr>flash := f\<rparr>)" "finv f"
      "img f = (img (flash s))(unat p := replicate (unat b) 0xFF @ rec_block_bytes r @ replicate (psize - unat b - sizeof_rec_block C) 0xFF)"
    using flash_wr_fills [of ?s1 p "rec_block_bytes r" b, unfolded len] assms(1-3) ne by auto
  then have "slice (unat b) (sizeof_rec_block C) (img f (unat p)) = rec_block_bytes r"
    using len by (simp add: slice_def)
  then obtain g where g: "flash_rd fl (?s1\<lparr>flash := f\<rparr>) p b (sizeof_rec_block C) = Some (rec_block_bytes r, ?s1\<lparr>flash := g\<rparr>)"
      "finv g" "img g = img f"
    using flash_rd_ok [of "?s1\<lparr>flash := f\<rparr>" p "sizeof_rec_block C" b] assms(2,3) f(2) by (auto simp: sizeof_rec_block_def)
  show ?thesis using f g assms(3) r page_size
    by (auto simp: log_fs_record_block_wr_def log_fs_crc_record_block_def rec_block_bytes_def [of "record_block s"]
        rec_block_bytes_def [of "record_block s\<lparr>rb_marker := LOG_FS_MARKER_RECORD\<rparr>"] butlast_append)
qed

text \<open>A linear file system with room in page \<open>p\<close>: it is neither a file page nor the page after the last one.\<close>

definition has_room :: "u16 \<Rightarrow> 'f log_fs_t \<Rightarrow> bool" where
  "has_room p s \<longleftrightarrow> LOG_FS_CFG_TYPE C = LOG_FS_CFG_TYPE_LINEAR \<longrightarrow>
     img (flash s) (unat p) ! 0 \<noteq> LOG_FS_MARKER_FILE \<and>
     (\<exists>e. log_fs_record_pages_bound_end C s = Some e \<and> in_range C e \<and> log_fs_page_next C e \<noteq> Some p)"

lemma wr_page_header_fills:
  assumes "finv (flash s)" "unat p < npages" "has_room p s"
  shows "\<exists>s'. log_fs_wr_page_header C fl p s = Some (None, s') \<and> finv (flash s') \<and> rec_adr_wr s' = rec_adr_wr s \<and>
     (\<forall>q. q \<noteq> unat p \<longrightarrow> img (flash s') q = img (flash s) q)"
proof -
  define m where "m = marker_of (img (flash s) (unat p) ! 0)"
  obtain s1 where s1: "log_fs_marker_rd fl s p 0 = Some (m, s1)" "touches p s s1"
    using marker_rd_ok [OF assms(1,2), of 0] psize_4 by (auto simp: m_def)
  then obtain f where f: "s1 = s\<lparr>flash := f\<rparr>" "finv f" "\<forall>q. q \<noteq> unat p \<longrightarrow> img f q = img (flash s) q"
    by (auto simp: touches_def)
  have full: "(if LOG_FS_CFG_TYPE C = LOG_FS_CFG_TYPE_LINEAR then log_fs_at_end C p m s1 else Some False) = Some False"
  proof (cases "LOG_FS_CFG_TYPE C")
    case LOG_FS_CFG_TYPE_LINEAR
    then obtain e where e: "log_fs_record_pages_bound_end C s = Some e" "in_range C e" "p \<noteq> next_page C e"
        "img (flash s) (unat p) ! 0 \<noteq> LOG_FS_MARKER_FILE"
      using assms(3) by (auto simp: has_room_def)
    have "log_fs_record_pages_bound_end C s1 = Some e" using e(1) f(1) by (simp add: log_fs_record_pages_bound_end_def)
    moreover have "m \<noteq> LOG_FS_MARKER_FILE" using e(4) by (auto simp: m_def marker_of_def marker_values)
    ultimately show ?thesis using e by (simp add: log_fs_at_end_def)
  qed simp
  obtain g where g: "(if m = LOG_FS_MARKER_BAD then flash_erase fl s1 p else Some s1) = Some (s\<lparr>flash := g\<rparr>)" "finv g"
      "\<forall>q. q \<noteq> unat p \<longrightarrow> img g q = img (flash s) q"
    using erase_law [OF f(2) assms(2)] f by (cases "m = LOG_FS_MARKER_BAD") (auto simp: flash_erase_def)
  let ?s2 = "s\<lparr>flash := g, page_header := (page_header s)\<lparr>ph_marker := LOG_FS_MARKER_RECORD, ph_nr := rec_page_nr_next s\<rparr>\<rparr>"
  obtain h k where k: "log_fs_page_header_wr fl ?s2 p = Some (True, ?s2\<lparr>page_header := h, flash := k\<rparr>)" "finv k"
      "\<forall>q. q \<noteq> unat p \<longrightarrow> img k q = img g q"
    using page_header_wr_fills [of ?s2 p] g(2) assms(2) by auto
  show ?thesis using s1(1) full g k by (auto simp: log_fs_wr_page_header_def Let_def)
qed

lemma record_wr_fills:
  assumes fin: "finv (flash s)" and adr: "rec_adr_wr s = \<lparr>adr_page = p, adr_offset = b\<rparr>" and p: "in_range C p"
    and slot: "unat b = LOG_FS_REC_OFFSET_FIRST + k * sizeof_rec_block C" "Suc k < LOG_FS_RECORDS_PER_PAGE C"
    and room: "k = 0 \<Longrightarrow> has_room p s" and n: "n \<le> length data"
  shows "\<exists>s1. log_fs_record_wr C fl s data n = Some (LOG_FS_ERR_NONE, s1) \<and> finv (flash s1) \<and>
     rec_adr_wr s1 = \<lparr>adr_page = p, adr_offset = b + of_nat (sizeof_rec_block C)\<rparr> \<and>
     img (flash s1) = (img (flash s))(unat p := replicate (unat b) 0xFF @ rec_block_bytes (seal (padded data n)) @
       replicate (psize - unat b - sizeof_rec_block C) 0xFF)"
proof -
  have np: "unat p < npages" using in_range_npages [OF p] .
  note sb = slot_bounds [OF slot]
  have first: "unat b = LOG_FS_REC_OFFSET_FIRST \<longleftrightarrow> k = 0" using slot(1) by (cases k) (simp_all add: sizeof_rec_block_def)
  obtain s1 where s1: "(if unat b = LOG_FS_REC_OFFSET_FIRST then log_fs_wr_page_header C fl p s else Some (None, s)) = Some (None, s1)"
      "finv (flash s1)" "rec_adr_wr s1 = rec_adr_wr s" "\<forall>q. q \<noteq> unat p \<longrightarrow> img (flash s1) q = img (flash s) q"
    using wr_page_header_fills [OF fin np] room first fin by (cases "k = 0") auto
  let ?s2 = "s1\<lparr>record_block := (record_block s1)\<lparr>rb_data := padded data n\<rparr>\<rparr>"
  obtain f where f: "log_fs_record_block_wr C fl ?s2 p b = Some (True, ?s2\<lparr>record_block := seal (padded data n), flash := f\<rparr>)" "finv f"
      "img f = (img (flash s1))(unat p := replicate (unat b) 0xFF @ rec_block_bytes (seal (padded data n)) @
         replicate (psize - unat b - sizeof_rec_block C) 0xFF)"
    using record_block_wr_fills [of ?s2 p b "seal (padded data n)"] s1(2) np sb(1) wr_copy_ok(2) [OF n] by auto
  have ret: "log_fs_record_wr C fl s data n = Some (LOG_FS_ERR_NONE,
      ?s2\<lparr>record_block := seal (padded data n), flash := f, rec_adr_wr := \<lparr>adr_page = p, adr_offset = b + of_nat (sizeof_rec_block C)\<rparr>\<rparr>)"
    using s1(1,3) adr f(1) sb(2) wr_copy_ok(1) [OF n] by (simp add: log_fs_record_wr_def)
  show ?thesis unfolding ret using f s1(4) by (auto simp: fun_eq_iff)
qed

text \<open>Another slot of the page holds no record afterwards.\<close>

lemma other_slot_empty:
  assumes "finv (flash s)" "unat p < npages" "unat b + sizeof_rec_block C < psize" "length bs = sizeof_rec_block C"
    "img (flash s) (unat p) = replicate (unat b) 0xFF @ bs @ replicate (psize - unat b - sizeof_rec_block C) 0xFF"
    "unat c < unat b \<or> unat b + sizeof_rec_block C \<le> unat c" "unat c < psize"
  shows "\<exists>s'. log_fs_record_block_rd C fl s p c = Some (False, s')"
proof -
  have "img (flash s) (unat p) ! unat c = 0xFF"
    using assms(3-7) by (auto simp: nth_append)
  then have m: "marker_of (img (flash s) (unat p) ! unat c) = LOG_FS_MARKER_FREE"
    by (simp add: marker_of_def markers_def marker_values)
  then obtain s' where "log_fs_marker_rd fl s p c = Some (LOG_FS_MARKER_FREE, s')"
    using marker_rd_ok [OF assms(1,2,7)] by auto
  then show ?thesis by (simp add: log_fs_record_block_rd_def marker_values)
qed

lemma record_wr_alone:
  assumes fin: "finv (flash s)" and adr: "rec_adr_wr s = \<lparr>adr_page = p, adr_offset = b\<rparr>" and p: "in_range C p"
    and slot: "unat b = LOG_FS_REC_OFFSET_FIRST + k * sizeof_rec_block C" "Suc k < LOG_FS_RECORDS_PER_PAGE C"
    and room: "k = 0 \<Longrightarrow> has_room p s" and n: "n \<le> length data"
  shows "\<exists>s1 s2. log_fs_record_wr C fl s data n = Some (LOG_FS_ERR_NONE, s1) \<and>
     rec_adr_wr s1 = \<lparr>adr_page = p, adr_offset = b + of_nat (sizeof_rec_block C)\<rparr> \<and>
     log_fs_record_block_rd C fl s1 p b = Some (True, s2) \<and> rb_data (record_block s2) = padded data n \<and>
     (\<forall>q. q \<noteq> unat p \<longrightarrow> img (flash s1) q = img (flash s) q) \<and> page_kind (img (flash s1) (unat p)) = LOG_FS_MARKER_FREE \<and>
     (\<forall>j < LOG_FS_RECORDS_PER_PAGE C. j \<noteq> k \<longrightarrow>
        (\<exists>s3. log_fs_record_block_rd C fl s1 p (of_nat (LOG_FS_REC_OFFSET_FIRST + j * sizeof_rec_block C)) = Some (False, s3)))"
proof -
  let ?z = "sizeof_rec_block C" and ?r = "seal (padded data n)"
  have np: "unat p < npages" using in_range_npages [OF p] .
  note sb = slot_bounds [OF slot]
  have len: "length (rec_block_bytes ?r) = ?z" using wr_copy_ok(2) [OF n] by (simp add: sizeof_rec_block_def)
  obtain s1 where s1: "log_fs_record_wr C fl s data n = Some (LOG_FS_ERR_NONE, s1)" "finv (flash s1)"
      "rec_adr_wr s1 = \<lparr>adr_page = p, adr_offset = b + of_nat ?z\<rparr>"
      "img (flash s1) = (img (flash s))(unat p := replicate (unat b) 0xFF @ rec_block_bytes ?r @ replicate (psize - unat b - ?z) 0xFF)"
    using record_wr_fills [OF assms] by blast
  have "slice (unat b) ?z (img (flash s1) (unat p)) = rec_block_bytes ?r"
    using s1(4) len by (simp add: slice_def)
  then obtain s2 where s2: "log_fs_record_block_rd C fl s1 p b = Some (True, s2)" "record_block s2 = ?r"
    using record_block_rd_sealed [of s1 p b ?r] s1(2) np sb(1) by auto
  have "img (flash s1) (unat p) ! 0 = 0xFF" using s1(4) sb(3) by (simp add: nth_append)
  then have free: "page_kind (img (flash s1) (unat p)) = LOG_FS_MARKER_FREE"
    by (simp add: page_kind_def marker_of_def markers_def marker_values)
  have other: "\<exists>s3. log_fs_record_block_rd C fl s1 p (of_nat (LOG_FS_REC_OFFSET_FIRST + j * ?z)) = Some (False, s3)"
    if j: "j < LOG_FS_RECORDS_PER_PAGE C" "j \<noteq> k" for j
  proof -
    let ?c = "LOG_FS_REC_OFFSET_FIRST + j * ?z"
    have "Suc j * ?z \<le> LOG_FS_RECORDS_PER_PAGE C * ?z" using j(1) by (intro mult_right_mono) auto
    also have "\<dots> \<le> LOG_FS_REC_PAGE_DATA_SIZE C" by (simp add: LOG_FS_RECORDS_PER_PAGE_def)
    finally have c: "?c < psize"
      using psize_4 by (simp add: LOG_FS_REC_PAGE_DATA_SIZE_def page_size sizeof_page_header_def LOG_FS_REC_OFFSET_FIRST_def sizeof_rec_block_def)
    then have u: "unat (of_nat ?c :: u16) = ?c" using psize_u16 by (intro unat_of_nat_u16) linarith
    have "?c < unat b \<or> unat b + ?z \<le> ?c"
    proof (cases "j < k")
      case True
      then have "j * ?z < k * ?z" by (intro mult_strict_right_mono) (simp_all add: sizeof_rec_block_def)
      then show ?thesis using slot(1) by simp
    next
      case False
      then have "Suc k * ?z \<le> j * ?z" using j(2) by (intro mult_right_mono) auto
      then show ?thesis using slot(1) by simp
    qed
    then show ?thesis
      using other_slot_empty [OF s1(2) np sb(1) len, of "of_nat ?c"] s1(4) c u by simp
  qed
  show ?thesis using s1 s2 free other by auto
qed

lemma file_block_lost:
  assumes "finv (flash s)" "unat p < npages" "13 \<le> psize"
  shows "\<exists>s1 s2. log_fs_file_block_wr fl s p = Some (True, s1) \<and> page_kind (img (flash s1) (unat p)) = LOG_FS_MARKER_FREE \<and>
     log_fs_file_block_rd fl s1 p = Some (False, s2)"
proof -
  let ?s1 = "s\<lparr>page_header := (page_header s)\<lparr>ph_marker := LOG_FS_MARKER_FILE\<rparr>\<rparr>"
  define h where "h = (page_header ?s1)\<lparr>ph_crc := log_fs_crc_page_header ?s1\<rparr>"
  have lh: "length (page_header_bytes h) = 4" by (simp add: sizeof_page_header_def)
  have nh: "page_header_bytes h \<noteq> []" by (simp add: page_header_bytes_def)
  let ?s2 = "s\<lparr>page_header := h\<rparr>"
  obtain f where f: "flash_wr fl ?s2 (page_header_bytes h) p 0 = Some (?s2\<lparr>flash := f\<rparr>)" "finv f"
      "img f (unat p) = page_header_bytes h @ replicate (psize - 4) 0xFF"
    using flash_wr_fills [of ?s2 p "page_header_bytes h" 0] assms(1,2) lh nh psize_4 by auto
  then obtain g where g: "flash_rd fl (?s2\<lparr>flash := f\<rparr>) p 0 4 = Some (page_header_bytes h, ?s2\<lparr>flash := g\<rparr>)" "finv g"
    using flash_rd_ok [of "?s2\<lparr>flash := f\<rparr>" p 4 0] assms(2) psize_4 lh by (auto simp: slice_def)
  have hw: "log_fs_page_header_wr fl ?s1 p = Some (True, ?s2\<lparr>flash := g\<rparr>)"
    using f(1) g(1) by (simp add: log_fs_page_header_wr_def h_def sizeof_page_header_def)
  let ?s3 = "?s2\<lparr>flash := g, file_info := (file_info s)\<lparr>fi_file := (fi_file (file_info s))\<lparr>start_page := p\<rparr>\<rparr>\<rparr>"
  define i where "i = (file_info ?s3)\<lparr>fi_crc := log_fs_crc_file_info ?s3\<rparr>"
  let ?s4 = "?s2\<lparr>flash := g, file_info := i\<rparr>"
  have li: "length (file_info_bytes i) = 9" by (simp add: sizeof_file_info_def)
  have ni: "file_info_bytes i \<noteq> []" by (simp add: file_info_bytes_def Let_def)
  obtain k where k: "flash_wr fl ?s4 (file_info_bytes i) p 4 = Some (?s4\<lparr>flash := k\<rparr>)" "finv k"
      "img k (unat p) = replicate 4 0xFF @ file_info_bytes i @ replicate (psize - 4 - 9) 0xFF"
    using flash_wr_fills [of ?s4 p "file_info_bytes i" 4] assms(2,3) g(2) li ni by auto
  then obtain m where m: "flash_rd fl (?s4\<lparr>flash := k\<rparr>) p 4 9 = Some (file_info_bytes i, ?s4\<lparr>flash := m\<rparr>)" "finv m" "img m = img k"
    using flash_rd_ok [of "?s4\<lparr>flash := k\<rparr>" p 9 4] assms(2,3) li by (auto simp: slice_def)
  have ret: "log_fs_file_block_wr fl s p = Some (True, ?s4\<lparr>flash := m\<rparr>)"
    using hw k(1) m(1)
    by (simp add: log_fs_file_block_wr_def i_def log_fs_crc_file_info_def sizeof_page_header_def sizeof_file_info_def)
  have free: "page_kind (img m (unat p)) = LOG_FS_MARKER_FREE"
    using k(3) m(3) by (simp add: page_kind_def marker_of_def markers_def marker_values nth_append)
  obtain s5 where "log_fs_page_header_rd fl (?s4\<lparr>flash := m\<rparr>) p = Some (LOG_FS_MARKER_FREE, s5)"
    using page_header_rd_ok [of "?s4\<lparr>flash := m\<rparr>" p] m(2) assms(2) psize_4 free by auto
  then have "log_fs_file_block_rd fl (?s4\<lparr>flash := m\<rparr>) p = Some (False, s5)"
    by (simp add: log_fs_file_block_rd_def marker_values)
  then show ?thesis using ret free by auto
qed

end

end
