(* ===== verification/Log_Fs_Props.thy ===== *)
theory Log_Fs_Props
  imports Log_Fs_Blocks
begin

text \<open>
  The properties of the log file system: its page ring, its checksum, its structures, the write and read
  of record and file blocks, appending a record, and its behaviour on the driver of the repository.
  \<open>nor_log\<close> interprets the contract of \<^verbatim>\<open>log_fs.h\<close> on a memory that behaves as its comments say (writes leave
  the rest of the page alone); the driver under \<^verbatim>\<open>src/\<close> does not. \<open>repo_log\<close> interprets what the driver does,
  on the driver and the simulated chip; the last two theorems rest on it.
\<close>

interpretation nor_log: log_fs_nor "nor_ops 264" 264 4 "nor_inv 264 4" nor_img cfg4
  by unfold_locales

interpretation repo_log: log_fs_erase "at45d_flash at45d_cfg_repo (sim_dev at45d_cfg_repo)" 264 2048
  "\<lambda>s. drv_ok (sim_ok at45d_cfg_repo) sim_busy s \<and> img_ok at45d_cfg_repo (sim_mem (chip s))" "\<lambda>s. sim_mem (chip s)" log_fs_cfg_repo
  using sim_driver.drv.erase_flash_axioms repo_fs.log_fs_flash_axioms
  by (simp add: log_fs_erase_def erase_flash_def)

section \<open>Pages, checksum, structures\<close>

text \<open>The ring of pages. On a page of the file system \<^verbatim>\<open>log_fs_page_next\<close> and \<^verbatim>\<open>log_fs_page_previous\<close>
  return, stay in the range of the file system and undo each other; repeating the first visits every
  page, since it comes back to its start only after as many steps as there are pages.\<close>

theorem log_fs_page_ring:
  assumes "in_range C p"
  shows "(\<exists>q. log_fs_page_next C p = Some q \<and> in_range C q \<and> log_fs_page_previous C q = Some p) \<and>
     (\<exists>q. log_fs_page_previous C p = Some q \<and> in_range C q \<and> log_fs_page_next C q = Some p) \<and>
     (\<forall>k. 0 < k \<and> k < ring_len C \<longrightarrow> ((\<lambda>q. the (log_fs_page_next C q)) ^^ k) p \<noteq> p)"
proof -
  have it: "((\<lambda>q. the (log_fs_page_next C q)) ^^ k) p = (next_page C ^^ k) p" for k
    by (induction k) (simp_all add: funpow_next_range [OF assms])
  have "(next_page C ^^ k) p \<noteq> p" if "0 < k" "k < ring_len C" for k
    using funpow_next_inj [OF assms, of k 0] that by auto
  then show ?thesis unfolding it using assms by (simp add: next_page_range prev_next_page prev_page_range next_prev_page)
qed

theorem log_fs_page_ring_witness:
  "(\<exists>q. log_fs_page_next cfg4 3 = Some q \<and> in_range cfg4 q \<and> log_fs_page_previous cfg4 q = Some 3) \<and>
   ((\<lambda>q. the (log_fs_page_next cfg4 q)) ^^ 2) 3 \<noteq> 3"
proof -
  have r: "in_range cfg4 3" by (simp add: in_range_def cfg4_def log_fs_cfg_repo_def)
  have "2 < ring_len cfg4" by (simp add: ring_len_def cfg4_def log_fs_cfg_repo_def)
  then show ?thesis using log_fs_page_ring [OF r] zero_less_numeral by blast
qed

text \<open>The checksum. Two blocks that differ in exactly one byte have different checksums, whatever the
  bytes before and after it.\<close>

theorem log_fs_crc_detects_byte:
  assumes "x \<noteq> y"
  shows "log_fs_crc_calc (before @ x # after) \<noteq> log_fs_crc_calc (before @ y # after)"
  by (rule crc_one_byte [OF assms])

theorem log_fs_crc_detects_byte_witness:
  "log_fs_crc_calc [1, 2, 3] \<noteq> log_fs_crc_calc [1, 7, 3]"
  using log_fs_crc_detects_byte [of 2 7 "[1]" "[3]"] by simp

text \<open>The packed structures. Page header, file info and record block survive the way to bytes and
  back, and take the number of bytes that the offsets of the code assume.\<close>

theorem log_fs_structures_roundtrip:
  "page_header_of_bytes (page_header_bytes h) = h \<and> length (page_header_bytes h) = sizeof_page_header \<and>
   file_info_of_bytes (file_info_bytes i) = i \<and> length (file_info_bytes i) = sizeof_file_info \<and>
   rec_block_of_bytes (rec_block_bytes r) = r \<and>
   (length (rb_data r) = LOG_FS_CFG_REC_DATA_SIZE C \<longrightarrow> length (rec_block_bytes r) = sizeof_rec_block C)"
  by (simp add: sizeof_rec_block_def)

theorem log_fs_structures_roundtrip_witness:
  "length (rec_block_bytes (seal (replicate 13 7))) = sizeof_rec_block log_fs_cfg_repo"
  using log_fs_structures_roundtrip [where r = "seal (replicate 13 7)" and C = log_fs_cfg_repo]
  by (simp add: log_fs_cfg_repo_def)

section \<open>Blocks and records\<close>

text \<open>C11. Verified writes. On every flash that keeps the contract, also on one that loses bits or erases
  what it should not: when \<^verbatim>\<open>log_fs_record_block_wr\<close> reports success, \<^verbatim>\<open>log_fs_record_block_rd\<close> at the same
  place finds a valid record with the same data and changes no page.\<close>

theorem log_fs_verified_write:
  assumes "log_fs_flash fl psize npages finv img C" "finv (flash s)" "unat page < npages"
    "length (rb_data (record_block s)) = LOG_FS_CFG_REC_DATA_SIZE C"
    "log_fs_record_block_wr C fl s page offset = Some (True, s1)"
  shows "\<exists>s2. log_fs_record_block_rd C fl s1 page offset = Some (True, s2) \<and>
     rb_data (record_block s2) = rb_data (record_block s) \<and> img (flash s2) = img (flash s1)"
  by (rule log_fs_flash.verified_write_law [OF assms])

theorem log_fs_verified_write_witness:
  "\<exists>s1 s2. log_fs_record_block_wr cfg4 (nor_ops 264) (log_fs_reset cfg4 blank4) 1 19 = Some (True, s1) \<and>
     log_fs_record_block_rd cfg4 (nor_ops 264) s1 1 19 = Some (True, s2) \<and> rb_data (record_block s2) = replicate 13 0"
proof -
  let ?s = "log_fs_reset cfg4 blank4"
  have d: "rb_data (record_block ?s) = replicate 13 0" by (simp add: log_fs_reset_def cfg4_def log_fs_cfg_repo_def)
  have inv: "nor_inv 264 4 (flash ?s)" using blank4_inv by (simp add: log_fs_reset_def)
  have c: "sizeof_rec_block cfg4 = 15" "LOG_FS_CFG_REC_DATA_SIZE cfg4 = 13"
    by (simp_all add: sizeof_rec_block_def cfg4_def log_fs_cfg_repo_def)
  have "slice 19 15 (nor_img (flash ?s) 1) = replicate 15 0xFF"
    by (simp add: slice_def nor_img_def log_fs_reset_def blank4_def)
  then obtain s1 where w: "log_fs_record_block_wr cfg4 (nor_ops 264) ?s 1 19 = Some (True, s1)"
    using nor_log.record_block_wr_blank [OF inv, of 1 19] c d by auto
  from log_fs_verified_write [OF nor_fs.log_fs_flash_axioms inv _ _ w] w show ?thesis using c d by auto
qed

text \<open>Appending a record, on the flash that \<^verbatim>\<open>log_fs.h\<close> describes (not the driver of the repository, see the
  theorems at the end): with a write position in a record
  slot that is not the last of its page and is blank (and, for the first slot, in a blank page that is not
  the end of the file): \<^verbatim>\<open>log_fs_record_wr\<close> reports no error, moves the write position to the next slot,
  and the record can be read back there, cut to the record size and padded with 0xFF. No other byte of the
  flash changes, except the page header in front of the first slot: every record written before is kept.\<close>

theorem log_fs_record_wr_appends:
  assumes "log_fs_nor fl psize npages finv img C" "finv (flash s)"
    "rec_adr_wr s = \<lparr>adr_page = page, adr_offset = offset\<rparr>" "in_range C page"
    "unat offset = LOG_FS_REC_OFFSET_FIRST + k * sizeof_rec_block C" "Suc k < LOG_FS_RECORDS_PER_PAGE C"
    "slice (unat offset) (sizeof_rec_block C) (img (flash s) (unat page)) = replicate (sizeof_rec_block C) 0xFF"
    "k = 0 \<Longrightarrow> slice 0 4 (img (flash s) (unat page)) = replicate 4 0xFF"
    "k = 0 \<Longrightarrow> LOG_FS_CFG_TYPE C = LOG_FS_CFG_TYPE_LINEAR \<Longrightarrow>
       \<exists>e. log_fs_record_pages_bound_end C s = Some e \<and> in_range C e \<and> log_fs_page_next C e \<noteq> Some page"
    "n \<le> length data" "m = min n (LOG_FS_CFG_REC_DATA_SIZE C)"
  shows "\<exists>s1 s2. log_fs_record_wr C fl s data n = Some (LOG_FS_ERR_NONE, s1) \<and>
     rec_adr_wr s1 = \<lparr>adr_page = page, adr_offset = offset + of_nat (sizeof_rec_block C)\<rparr> \<and>
     log_fs_record_block_rd C fl s1 page offset = Some (True, s2) \<and>
     rb_data (record_block s2) = take m data @ replicate (LOG_FS_CFG_REC_DATA_SIZE C - m) 0xFF \<and>
     (\<forall>q i. i < psize \<longrightarrow>
        \<not> (q = unat page \<and> (unat offset \<le> i \<and> i < unat offset + sizeof_rec_block C \<or> k = 0 \<and> i < 4)) \<longrightarrow>
        img (flash s1) q ! i = img (flash s) q ! i)"
  by (rule log_fs_nor.record_wr_law [OF assms])

text \<open>A file system whose only file is at page 0, about to write its first record in page 1.\<close>

definition first_record :: "u8 list list log_fs_t" where
  "first_record = (log_fs_reset cfg4 blank4)\<lparr>rec_adr_wr := \<lparr>adr_page = 1, adr_offset = 4\<rparr>, rec_page_first := LOG_FS_PAGE_INVALID\<rparr>"

lemma first_record_facts:
  "nor_inv 264 4 (flash first_record)" "slice b n (nor_img (flash first_record) 1) = take n (drop b (replicate 264 0xFF))"
  "rec_adr_wr first_record = \<lparr>adr_page = 1, adr_offset = 4\<rparr>"
  "log_fs_record_pages_bound_end cfg4 first_record = Some 3"
  using blank4_inv
  by (simp_all add: first_record_def log_fs_reset_def slice_def nor_img_def blank4_def log_fs_record_pages_bound_end_def
      cfg4_def log_fs_cfg_repo_def log_fs_page_previous_def DBG_ASSERT_def)

theorem log_fs_record_wr_appends_witness:
  "\<exists>s1 s2. log_fs_record_wr cfg4 (nor_ops 264) first_record [1, 2, 3] 3 = Some (LOG_FS_ERR_NONE, s1) \<and>
     log_fs_record_block_rd cfg4 (nor_ops 264) s1 1 4 = Some (True, s2) \<and>
     rb_data (record_block s2) = [1, 2, 3] @ replicate 10 0xFF"
proof -
  have c: "sizeof_rec_block cfg4 = 15" "LOG_FS_CFG_REC_DATA_SIZE cfg4 = 13" "LOG_FS_RECORDS_PER_PAGE cfg4 = 17"
    "LOG_FS_REC_OFFSET_FIRST = 4" "in_range cfg4 1" "in_range cfg4 3" "log_fs_page_next cfg4 3 = Some 0"
    by (simp_all add: sizeof_rec_block_def cfg4_def log_fs_cfg_repo_def LOG_FS_RECORDS_PER_PAGE_def LOG_FS_REC_PAGE_DATA_SIZE_def
        sizeof_page_header_def LOG_FS_REC_OFFSET_FIRST_def in_range_def log_fs_page_next_def DBG_ASSERT_def)
  from log_fs_record_wr_appends [OF nor_log.log_fs_nor_axioms first_record_facts(1,3) c(5), of 0 3 "[1, 2, 3]" 3]
  show ?thesis using first_record_facts(2,4) by (auto simp: c)
qed

text \<open>A full file system. In the linear build, a write position at the start of a page that carries a
  file marker makes \<^verbatim>\<open>log_fs_record_wr\<close> return the error FULL; no variable and no page changes.\<close>

theorem log_fs_record_wr_full:
  assumes "log_fs_flash fl psize npages finv img C" "finv (flash s)"
    "rec_adr_wr s = \<lparr>adr_page = page, adr_offset = of_nat LOG_FS_REC_OFFSET_FIRST\<rparr>" "in_range C page"
    "LOG_FS_CFG_TYPE C = LOG_FS_CFG_TYPE_LINEAR" "img (flash s) (unat page) ! 0 = LOG_FS_MARKER_FILE"
  shows "\<exists>f. log_fs_record_wr C fl s data n = Some (LOG_FS_ERR_FULL, s\<lparr>flash := f\<rparr>) \<and> finv f \<and> img f = img (flash s)"
  by (rule log_fs_flash.record_wr_full_law [OF assms])

theorem log_fs_record_wr_full_witness:
  "\<exists>f. log_fs_record_wr cfg4 (nor_ops 264) (three_files\<lparr>rec_adr_wr := \<lparr>adr_page = 1, adr_offset = 4\<rparr>\<rparr>) [9] 1 =
     Some (LOG_FS_ERR_FULL, three_files\<lparr>rec_adr_wr := \<lparr>adr_page = 1, adr_offset = 4\<rparr>, flash := f\<rparr>)"
proof -
  let ?s = "three_files\<lparr>rec_adr_wr := \<lparr>adr_page = 1, adr_offset = 4\<rparr>\<rparr>"
  have inv: "nor_inv 264 4 (flash ?s)"
    using length_file_page_with by (simp add: nor_inv_def three_files_def log_fs_reset_def less_Suc_eq numeral_eq_Suc)
  have m: "nor_img (flash ?s) (unat (1 :: u16)) ! 0 = LOG_FS_MARKER_FILE"
    by (simp add: nor_img_def three_files_def log_fs_reset_def file_page_with_def page_header_bytes_def)
  show ?thesis
    using log_fs_record_wr_full [OF nor_fs.log_fs_flash_axioms inv _ _ _ m, of "[9]" 1]
    by (auto simp: LOG_FS_REC_OFFSET_FIRST_def sizeof_page_header_def in_range_def cfg4_def log_fs_cfg_repo_def)
qed

text \<open>File blocks. On the flash that \<^verbatim>\<open>log_fs.h\<close> describes, a file block written to a page whose first
  13 bytes are blank is read back by \<^verbatim>\<open>log_fs_file_block_rd\<close> with its page, time stamp and rolling number,
  and no other byte of the flash changes.\<close>

theorem log_fs_file_block_roundtrip:
  assumes "log_fs_nor fl psize npages finv img C" "finv (flash s)" "in_range C page"
    "slice 0 13 (img (flash s) (unat page)) = replicate 13 0xFF"
  shows "\<exists>s1 s2. log_fs_file_block_wr fl s page = Some (True, s1) \<and> log_fs_file_block_rd fl s1 page = Some (True, s2) \<and>
     start_page (fi_file (file_info s2)) = page \<and> time_stamp (fi_file (file_info s2)) = time_stamp (fi_file (file_info s)) \<and>
     ph_nr (page_header s2) = ph_nr (page_header s) \<and>
     (\<forall>q i. i < psize \<longrightarrow> \<not> (q = unat page \<and> i < 13) \<longrightarrow> img (flash s1) q ! i = img (flash s) q ! i)"
  by (rule log_fs_nor.file_block_law [OF assms])

theorem log_fs_file_block_roundtrip_witness:
  "\<exists>s1 s2. log_fs_file_block_wr (nor_ops 264) first_record 1 = Some (True, s1) \<and>
     log_fs_file_block_rd (nor_ops 264) s1 1 = Some (True, s2) \<and> start_page (fi_file (file_info s2)) = 1"
proof -
  have r: "in_range cfg4 1" by (simp add: in_range_def cfg4_def log_fs_cfg_repo_def)
  have "slice 0 13 (nor_img (flash first_record) (unat (1 :: u16))) = replicate 13 0xFF" using first_record_facts(2) by simp
  from log_fs_file_block_roundtrip [OF nor_log.log_fs_nor_axioms first_record_facts(1) r this] show ?thesis by blast
qed

text \<open>C8. Appending a record with the driver of the repository, whose every write sets the rest of its page to
  0xFF. With a write position in a record slot that is not the last one of its page (for the first slot of a page
  in the linear build: a page that is neither a file page nor behind the last page of the file):
  \<^verbatim>\<open>log_fs_record_wr\<close> reports no error, moves the write position to the next slot, and the record can be read
  back there, cut to the record size and padded with 0xFF; no other page changes. But the page holds nothing
  else afterwards: its header is gone, so it counts as a free page, and no other slot of it contains a record,
  so the records that were in the page are lost.\<close>

theorem log_fs_record_wr_on_driver:
  assumes "log_fs_erase fl psize npages finv img C" "finv (flash s)"
    "rec_adr_wr s = \<lparr>adr_page = page, adr_offset = offset\<rparr>" "in_range C page"
    "unat offset = LOG_FS_REC_OFFSET_FIRST + k * sizeof_rec_block C" "Suc k < LOG_FS_RECORDS_PER_PAGE C"
    "k = 0 \<Longrightarrow> LOG_FS_CFG_TYPE C = LOG_FS_CFG_TYPE_LINEAR \<Longrightarrow>
       img (flash s) (unat page) ! 0 \<noteq> LOG_FS_MARKER_FILE \<and>
       (\<exists>e. log_fs_record_pages_bound_end C s = Some e \<and> in_range C e \<and> log_fs_page_next C e \<noteq> Some page)"
    "n \<le> length data" "m = min n (LOG_FS_CFG_REC_DATA_SIZE C)"
  shows "\<exists>s1 s2. log_fs_record_wr C fl s data n = Some (LOG_FS_ERR_NONE, s1) \<and>
     rec_adr_wr s1 = \<lparr>adr_page = page, adr_offset = offset + of_nat (sizeof_rec_block C)\<rparr> \<and>
     log_fs_record_block_rd C fl s1 page offset = Some (True, s2) \<and>
     rb_data (record_block s2) = take m data @ replicate (LOG_FS_CFG_REC_DATA_SIZE C - m) 0xFF \<and>
     (\<forall>q. q \<noteq> unat page \<longrightarrow> img (flash s1) q = img (flash s) q) \<and>
     page_kind (img (flash s1) (unat page)) = LOG_FS_MARKER_FREE \<and>
     (\<forall>j < LOG_FS_RECORDS_PER_PAGE C. j \<noteq> k \<longrightarrow> (\<exists>s3.
        log_fs_record_block_rd C fl s1 page (of_nat (LOG_FS_REC_OFFSET_FIRST + j * sizeof_rec_block C)) = Some (False, s3)))"
  using log_fs_erase.record_wr_alone [OF assms(1-6) _ assms(8)] assms(7,9)
  by (simp add: log_fs_erase.has_room_def [OF assms(1)] log_fs_flash.padded_def [OF log_fs_erase.axioms(1) [OF assms(1)]])

text \<open>Two records in the first two slots of page 1: the second one erases the first.\<close>

definition second_record :: "sim at45d log_fs_t" where
  "second_record = (log_fs_reset log_fs_cfg_repo sim_blank)\<lparr>rec_adr_wr := \<lparr>adr_page = 1, adr_offset = 19\<rparr>\<rparr>"

theorem log_fs_record_wr_on_driver_witness:
  "\<exists>s1 s2 s3. log_fs_record_wr log_fs_cfg_repo (at45d_flash at45d_cfg_repo (sim_dev at45d_cfg_repo)) second_record [1, 2, 3] 3 =
       Some (LOG_FS_ERR_NONE, s1) \<and>
     log_fs_record_block_rd log_fs_cfg_repo (at45d_flash at45d_cfg_repo (sim_dev at45d_cfg_repo)) s1 1 19 = Some (True, s2) \<and>
     rb_data (record_block s2) = [1, 2, 3] @ replicate 10 0xFF \<and>
     log_fs_record_block_rd log_fs_cfg_repo (at45d_flash at45d_cfg_repo (sim_dev at45d_cfg_repo)) s1 1 4 = Some (False, s3)"
proof -
  have inv: "drv_ok (sim_ok at45d_cfg_repo) sim_busy (flash second_record) \<and>
      img_ok at45d_cfg_repo (sim_mem (chip (flash second_record)))"
    using sim_blank_ok by (simp add: second_record_def log_fs_reset_def)
  have c: "sizeof_rec_block log_fs_cfg_repo = 15" "LOG_FS_CFG_REC_DATA_SIZE log_fs_cfg_repo = 13"
    "LOG_FS_RECORDS_PER_PAGE log_fs_cfg_repo = 17" "LOG_FS_REC_OFFSET_FIRST = 4" "in_range log_fs_cfg_repo 1"
    by (simp_all add: sizeof_rec_block_def log_fs_cfg_repo_def LOG_FS_RECORDS_PER_PAGE_def LOG_FS_REC_PAGE_DATA_SIZE_def
        sizeof_page_header_def LOG_FS_REC_OFFSET_FIRST_def in_range_def)
  have a: "rec_adr_wr second_record = \<lparr>adr_page = 1, adr_offset = 19\<rparr>"
    by (simp add: second_record_def)
  obtain s1 s2 where "log_fs_record_wr log_fs_cfg_repo (at45d_flash at45d_cfg_repo (sim_dev at45d_cfg_repo)) second_record [1, 2, 3] 3 =
       Some (LOG_FS_ERR_NONE, s1)"
     "log_fs_record_block_rd log_fs_cfg_repo (at45d_flash at45d_cfg_repo (sim_dev at45d_cfg_repo)) s1 1 19 = Some (True, s2)"
     "rb_data (record_block s2) = [1, 2, 3] @ replicate 10 0xFF"
     and o: "\<forall>j < 17. j \<noteq> 1 \<longrightarrow> (\<exists>s3. log_fs_record_block_rd log_fs_cfg_repo (at45d_flash at45d_cfg_repo (sim_dev at45d_cfg_repo))
        s1 1 (of_nat (4 + j * 15)) = Some (False, s3))"
    using log_fs_record_wr_on_driver [OF repo_log.log_fs_erase_axioms inv a c(5), of 1 3 "[1, 2, 3]" 3] by (auto simp: c)
  then show ?thesis using o [rule_format, of 0] by auto
qed

text \<open>C12. The driver of the repository. On every flash whose writes erase the rest of the page, as those
  of \<^verbatim>\<open>at45d_wr_page_offset\<close> do, the second write of \<^verbatim>\<open>log_fs_file_block_wr\<close> destroys the page header that
  the first one stored: the function reports success, the page is free afterwards, and
  \<^verbatim>\<open>log_fs_file_block_rd\<close> does not find the file.\<close>

theorem log_fs_file_block_lost_on_driver:
  assumes "log_fs_erase fl psize npages finv img C" "finv (flash s)" "unat page < npages" "13 \<le> psize"
  shows "\<exists>s1 s2. log_fs_file_block_wr fl s page = Some (True, s1) \<and>
     page_kind (img (flash s1) (unat page)) = LOG_FS_MARKER_FREE \<and> log_fs_file_block_rd fl s1 page = Some (False, s2)"
  by (rule log_fs_erase.file_block_lost [OF assms])

theorem log_fs_file_block_lost_on_driver_witness:
  "\<exists>s1 s2. log_fs_file_block_wr (at45d_flash at45d_cfg_repo (sim_dev at45d_cfg_repo)) (log_fs_reset log_fs_cfg_repo sim_blank) 0 =
       Some (True, s1) \<and>
     log_fs_file_block_rd (at45d_flash at45d_cfg_repo (sim_dev at45d_cfg_repo)) s1 0 = Some (False, s2)"
proof -
  have "drv_ok (sim_ok at45d_cfg_repo) sim_busy (flash (log_fs_reset log_fs_cfg_repo sim_blank)) \<and>
      img_ok at45d_cfg_repo (sim_mem (chip (flash (log_fs_reset log_fs_cfg_repo sim_blank))))"
    using sim_blank_ok by (simp add: log_fs_reset_def)
  from log_fs_file_block_lost_on_driver [OF repo_log.log_fs_erase_axioms this, of 0] show ?thesis by auto
qed

end
