(* ===== verification/Nmea.thy ===== *)
theory Nmea
  imports Prelude
begin

text \<open>
  The GPS sentence receiver and parser of \<^verbatim>\<open>src/nmea.c\<close>. A \<^verbatim>\<open>char *\<close> into the receive buffer is the rest
  of the buffer from that position on, up to the end of the array; reading past the array is \<open>None\<close>.
  The two callbacks of \<^verbatim>\<open>nmea_init\<close> are code of the application: a call is recorded as an event, with
  what the callback can see. The function that sends a byte appends to a list.

  Contents: the data, one definition per function in the order of the file. The proofs are in
  \<open>Nmea_Facts\<close>.
\<close>

section \<open>Data\<close>

datatype nmea_rx_state_t = NMEA_RX_STATE_START | NMEA_RX_STATE_PAYLOAD | NMEA_RX_STATE_CHECKSUM1
  | NMEA_RX_STATE_CHECKSUM2 | NMEA_RX_STATE_END_CR | NMEA_RX_STATE_END_LF

definition NMEA_BUFFER_SIZE :: nat where "NMEA_BUFFER_SIZE = 128"

text \<open>Signed fields are kept as 16-bit words; \<open>sint\<close> reads them.\<close>

record nmea_data_t =
  utc_time :: u32
  utc_time_fraction :: u16
  delay_from_PPS :: u8
  latitude :: u16
  latitude_fraction :: u16
  longitude :: u16
  longitude_fraction :: u16
  altitude :: u16
  altitude_fraction :: u8
  heading :: u16
  heading_fraction :: u8
  speed :: u8
  speed_fraction :: u8
  sattelites_used :: u8
  hdop :: u8
  hdop_fraction :: u8
  gga_valid_flag :: bool
  vtg_valid_flag :: bool

record GPS_COORD_ts =
  degrees :: u8
  minutes :: u8
  minutes_fraction :: u8
  orientation :: u8

record rmc_t =
  utc_hour :: u8
  utc_min :: u8
  utc_sec :: u8
  utc_date :: u8
  utc_month :: u8
  utc_year :: u8
  rmc_latitude :: GPS_COORD_ts
  rmc_longitude :: GPS_COORD_ts
  rmc_data_valid :: bool

datatype nmea_event = ValidStr "u8 list" | ValidGpsData nmea_data_t rmc_t

record nmea_t =
  nmea_data :: nmea_data_t
  rmc :: rmc_t
  nmea_tx_byte_fn :: bool
  nmea_rx_buffer :: "u8 list"
  nmea_rx_index :: u16
  nmea_rx_checksum :: u8
  nmea_rx_state :: nmea_rx_state_t
  nmea_rx_data_char :: u8
  nmea_new_char :: bool
  events :: "nmea_event list"

text \<open>The characters the code names.\<close>

abbreviation NUL :: u8 where "NUL \<equiv> 0x00"
abbreviation LF :: u8 where "LF \<equiv> 0x0A"
abbreviation CR :: u8 where "CR \<equiv> 0x0D"
abbreviation SPACE :: u8 where "SPACE \<equiv> 0x20"
abbreviation DOLLAR :: u8 where "DOLLAR \<equiv> 0x24"
abbreviation STAR :: u8 where "STAR \<equiv> 0x2A"
abbreviation COMMA :: u8 where "COMMA \<equiv> 0x2C"
abbreviation MINUS :: u8 where "MINUS \<equiv> 0x2D"
abbreviation DOT :: u8 where "DOT \<equiv> 0x2E"
abbreviation ASCII_0 :: u8 where "ASCII_0 \<equiv> 0x30"
abbreviation ASCII_A :: u8 where "ASCII_A \<equiv> 0x41"

section \<open>Local functions\<close>

definition UART0_IRQHandler :: "u8 \<Rightarrow> nmea_t \<Rightarrow> nmea_t" where
  "UART0_IRQHandler received s = s\<lparr>nmea_rx_data_char := received, nmea_new_char := True\<rparr>"

definition nmea_tx_byte :: "nmea_t \<Rightarrow> u8 \<Rightarrow> u8 list" where
  "nmea_tx_byte s data = (if nmea_tx_byte_fn s then [data] else [])"

definition nmea_cmp_nibble_with_hex_ascii :: "u8 \<Rightarrow> u8 \<Rightarrow> bool" where
  "nmea_cmp_nibble_with_hex_ascii nibble asc =
     (let nibble = (if nibble \<le> 9 then nibble + ASCII_0 else nibble + (ASCII_A - 10)) in nibble = asc)"

definition at_end :: "u8 \<Rightarrow> bool" where
  "at_end b \<longleftrightarrow> b = COMMA \<or> b = DOT \<or> b = NUL"

text \<open>The loop shared by the unsigned parsers: \<^verbatim>\<open>value = value * 10 + (*buffer++ - '0')\<close> in the width of
  the result, blanks skipped.\<close>

fun parse_uint :: "u8 list \<Rightarrow> 'a::len word \<Rightarrow> (u8 list \<times> 'a word) option" where
  "parse_uint [] v = None"
| "parse_uint (b # bs) v =
     (if at_end b then Some (b # bs, v)
      else if b = SPACE then parse_uint bs v
      else parse_uint bs (v * 10 + (ucast b - 48)))"

definition nmea_parse_str_to_u32 :: "u8 list \<Rightarrow> (u8 list \<times> u32) option" where
  "nmea_parse_str_to_u32 buffer = parse_uint buffer 0"

definition nmea_parse_str_to_u16 :: "u8 list \<Rightarrow> (u8 list \<times> u16) option" where
  "nmea_parse_str_to_u16 buffer = parse_uint buffer 0"

definition nmea_parse_str_to_u8 :: "u8 list \<Rightarrow> (u8 list \<times> u8) option" where
  "nmea_parse_str_to_u8 buffer = parse_uint buffer 0"

fun parse_s16 :: "u8 list \<Rightarrow> bool \<Rightarrow> u16 \<Rightarrow> (u8 list \<times> bool \<times> u16) option" where
  "parse_s16 [] neg v = None"
| "parse_s16 (b # bs) neg v =
     (if at_end b then Some (b # bs, neg, v)
      else if b = SPACE then parse_s16 bs neg v
      else if b = MINUS then parse_s16 bs True v
      else parse_s16 bs neg (v * 10 + (ucast b - 48)))"

definition nmea_parse_str_to_s16 :: "u8 list \<Rightarrow> (u8 list \<times> u16) option" where
  "nmea_parse_str_to_s16 buffer =
     do { (buffer, neg, v) \<leftarrow> parse_s16 buffer False 0; Some (buffer, if neg then v * -1 else v) }"

text \<open>The fraction parsers: at most \<open>precision\<close> digits, then the missing ones as zeros.\<close>

fun parse_fraction :: "u8 list \<Rightarrow> 'a::len word \<Rightarrow> nat \<Rightarrow> (u8 list \<times> 'a word) option" where
  "parse_fraction [] v precision = None"
| "parse_fraction (b # bs) v precision =
     (if at_end b \<or> precision = 0 then Some (b # bs, v * 10 ^ precision)
      else if b = SPACE then parse_fraction bs v precision
      else parse_fraction bs (v * 10 + (ucast b - 48)) (precision - 1))"

definition nmea_parse_str_fraction_to_u16 :: "u8 list \<Rightarrow> nat \<Rightarrow> (u8 list \<times> u16) option" where
  "nmea_parse_str_fraction_to_u16 buffer precision = parse_fraction buffer 0 precision"

definition nmea_parse_str_fraction_to_u8 :: "u8 list \<Rightarrow> nat \<Rightarrow> (u8 list \<times> u8) option" where
  "nmea_parse_str_fraction_to_u8 buffer precision = parse_fraction buffer 0 precision"

fun nmea_find_next_param :: "u8 list \<Rightarrow> u8 list option" where
  "nmea_find_next_param [] = None"
| "nmea_find_next_param (b # bs) =
     (if b = COMMA then Some bs else if b = NUL then Some (b # bs) else nmea_find_next_param bs)"

text \<open>\<^verbatim>\<open>if (*buffer == '.') { buffer++; buffer = fraction(buffer, &field, precision); }\<close>: the field keeps its
  value when there is no dot.\<close>

definition opt_fraction ::
  "(u8 list \<Rightarrow> nat \<Rightarrow> (u8 list \<times> 'a) option) \<Rightarrow> nat \<Rightarrow> 'a \<Rightarrow> u8 list \<Rightarrow> (u8 list \<times> 'a) option" where
  "opt_fraction parse precision old buffer =
     do { b \<leftarrow> c_nth buffer 0; if b = DOT then parse (tl buffer) precision else Some (buffer, old) }"

section \<open>Sentences\<close>

definition nmea_rx_gga :: "nmea_t \<Rightarrow> u8 list \<Rightarrow> nmea_t option" where
  "nmea_rx_gga s buffer =
     do {
       let d = (nmea_data s)\<lparr>gga_valid_flag := False, latitude_fraction := 0, longitude_fraction := 0\<rparr>;
       (buffer, v) \<leftarrow> nmea_parse_str_to_u32 buffer;
       let d = d\<lparr>utc_time := v\<rparr>;
       (buffer, v) \<leftarrow> opt_fraction nmea_parse_str_fraction_to_u16 3 (utc_time_fraction d) buffer;
       let d = d\<lparr>utc_time_fraction := v\<rparr>;
       buffer \<leftarrow> nmea_find_next_param buffer;
       (buffer, v) \<leftarrow> nmea_parse_str_to_u16 buffer;
       let d = d\<lparr>latitude := v\<rparr>;
       (buffer, v) \<leftarrow> opt_fraction nmea_parse_str_fraction_to_u16 4 (latitude_fraction d) buffer;
       let d = d\<lparr>latitude_fraction := v\<rparr>;
       buffer \<leftarrow> nmea_find_next_param buffer;
       b \<leftarrow> c_nth buffer 0;
       let d = (if b = 0x53 then d\<lparr>latitude := latitude d * -1\<rparr> else d);
       buffer \<leftarrow> nmea_find_next_param buffer;
       (buffer, v) \<leftarrow> nmea_parse_str_to_u16 buffer;
       let d = d\<lparr>longitude := v\<rparr>;
       (buffer, v) \<leftarrow> opt_fraction nmea_parse_str_fraction_to_u16 4 (longitude_fraction d) buffer;
       let d = d\<lparr>longitude_fraction := v\<rparr>;
       buffer \<leftarrow> nmea_find_next_param buffer;
       b \<leftarrow> c_nth buffer 0;
       let d = (if b = 0x57 then d\<lparr>longitude := longitude d * -1\<rparr> else d);
       buffer \<leftarrow> nmea_find_next_param buffer;
       b \<leftarrow> c_nth buffer 0;
       let d = (if b = 0x31 then d\<lparr>gga_valid_flag := True\<rparr> else d);
       buffer \<leftarrow> nmea_find_next_param buffer;
       (buffer, v) \<leftarrow> nmea_parse_str_to_u8 buffer;
       let d = d\<lparr>sattelites_used := v\<rparr>;
       buffer \<leftarrow> nmea_find_next_param buffer;
       (buffer, v) \<leftarrow> nmea_parse_str_to_u8 buffer;
       let d = d\<lparr>hdop := v\<rparr>;
       (buffer, v) \<leftarrow> opt_fraction nmea_parse_str_fraction_to_u8 1 (hdop_fraction d) buffer;
       let d = d\<lparr>hdop_fraction := v\<rparr>;
       buffer \<leftarrow> nmea_find_next_param buffer;
       (buffer, v) \<leftarrow> nmea_parse_str_to_s16 buffer;
       let d = d\<lparr>altitude := v\<rparr>;
       (buffer, v) \<leftarrow> opt_fraction nmea_parse_str_fraction_to_u8 2 (altitude_fraction d) buffer;
       let d = d\<lparr>altitude_fraction := v\<rparr>;
       let d = d\<lparr>gga_valid_flag := True\<rparr>;
       Some (if gga_valid_flag d \<or> vtg_valid_flag d
             then s\<lparr>nmea_data := d\<lparr>gga_valid_flag := False, vtg_valid_flag := False\<rparr>,
                    events := events s @ [ValidGpsData d (rmc s)]\<rparr>
             else s\<lparr>nmea_data := d\<rparr>)
     }"

text \<open>Six parameters are skipped between heading and speed.\<close>

fun skip_params :: "nat \<Rightarrow> u8 list \<Rightarrow> u8 list option" where
  "skip_params 0 buffer = Some buffer"
| "skip_params (Suc n) buffer = do { buffer \<leftarrow> nmea_find_next_param buffer; skip_params n buffer }"

definition nmea_rx_vtg :: "nmea_t \<Rightarrow> u8 list \<Rightarrow> nmea_t option" where
  "nmea_rx_vtg s buffer =
     do {
       let d = nmea_data s;
       (buffer, v) \<leftarrow> nmea_parse_str_to_u16 buffer;
       let d = d\<lparr>heading := v\<rparr>;
       (buffer, v) \<leftarrow> opt_fraction nmea_parse_str_fraction_to_u8 2 (heading_fraction d) buffer;
       let d = d\<lparr>heading_fraction := v\<rparr>;
       buffer \<leftarrow> skip_params 6 buffer;
       (buffer, v) \<leftarrow> nmea_parse_str_to_u8 buffer;
       let d = d\<lparr>speed := v\<rparr>;
       (buffer, v) \<leftarrow> opt_fraction nmea_parse_str_fraction_to_u8 2 (speed_fraction d) buffer;
       let d = d\<lparr>speed_fraction := v\<rparr>;
       let d = d\<lparr>vtg_valid_flag := True\<rparr>;
       Some (if gga_valid_flag d \<or> vtg_valid_flag d
             then s\<lparr>nmea_data := d\<lparr>gga_valid_flag := False, vtg_valid_flag := False\<rparr>,
                    events := events s @ [ValidGpsData d (rmc s)]\<rparr>
             else s\<lparr>nmea_data := d\<rparr>)
     }"

text \<open>\<^verbatim>\<open>((*buffer + k - '0') * 10) + (*buffer + k + 1 - '0')\<close>: the additions are to the character under the
  pointer, not to the pointer. The result is stored in 8 bits.\<close>

definition rmc_two :: "u8 \<Rightarrow> u8 \<Rightarrow> u8" where
  "rmc_two b k = (b + k - ASCII_0) * 10 + (b + (k + 1) - ASCII_0)"

definition rmc_three :: "u8 \<Rightarrow> u8 \<Rightarrow> u8" where
  "rmc_three b k = (b + k - ASCII_0) * 100 + (b + (k + 1) - ASCII_0) * 10 + (b + (k + 2) - ASCII_0)"

definition nmea_rx_rmc :: "nmea_t \<Rightarrow> u8 list \<Rightarrow> nmea_t option" where
  "nmea_rx_rmc s buffer =
     do {
       b \<leftarrow> c_nth buffer 0;
       let r = (rmc s)\<lparr>utc_hour := rmc_two b 0 - 4, utc_min := rmc_two b 2, utc_sec := rmc_two b 4\<rparr>;
       buffer \<leftarrow> skip_params 2 buffer;
       b \<leftarrow> c_nth buffer 0;
       let la = (rmc_latitude r)\<lparr>degrees := rmc_two b 0, minutes := rmc_two b 2, minutes_fraction := rmc_three b 5\<rparr>;
       buffer \<leftarrow> nmea_find_next_param buffer;
       b \<leftarrow> c_nth buffer 0;
       let la = la\<lparr>orientation := b\<rparr>;
       buffer \<leftarrow> nmea_find_next_param buffer;
       b \<leftarrow> c_nth buffer 0;
       let lo = (rmc_longitude r)\<lparr>degrees := rmc_three b 0, minutes := rmc_two b 3, minutes_fraction := rmc_three b 6\<rparr>;
       buffer \<leftarrow> nmea_find_next_param buffer;
       b \<leftarrow> c_nth buffer 0;
       let lo = lo\<lparr>orientation := b\<rparr>;
       buffer \<leftarrow> skip_params 4 buffer;
       b \<leftarrow> c_nth buffer 0;
       let r = r\<lparr>rmc_latitude := la, rmc_longitude := lo,
                 utc_date := rmc_two b 0, utc_month := rmc_two b 2, utc_year := rmc_two b 4, rmc_data_valid := True\<rparr>;
       let d = nmea_data s;
       Some (if gga_valid_flag d \<or> vtg_valid_flag d \<or> rmc_data_valid r
             then s\<lparr>nmea_data := d\<lparr>gga_valid_flag := False, vtg_valid_flag := False\<rparr>,
                    rmc := r\<lparr>rmc_data_valid := False\<rparr>, events := events s @ [ValidGpsData d r]\<rparr>
             else s\<lparr>rmc := r\<rparr>)
     }"

text \<open>The string handed to the callback is the buffer up to its terminating zero. \<^verbatim>\<open>strncmp\<close> of three
  characters.\<close>

definition starts_with :: "u8 list \<Rightarrow> u8 list \<Rightarrow> bool" where
  "starts_with lit buffer \<longleftrightarrow> take (length lit) buffer = lit"

definition nmea_on_rx_frame :: "nmea_t \<Rightarrow> u8 list \<Rightarrow> nmea_t option" where
  "nmea_on_rx_frame s buffer =
     do {
       let s = s\<lparr>events := events s @ [ValidStr (takeWhile (\<lambda>b. b \<noteq> NUL) buffer)]\<rparr>;
       b \<leftarrow> c_nth buffer 0;
       if b \<noteq> 0x47 then Some s
       else do {
         b \<leftarrow> c_nth buffer 1;
         if b \<noteq> 0x50 then Some s
         else do {
           let buffer = drop 2 buffer;
           if starts_with [0x47, 0x47, 0x41] buffer then nmea_rx_gga s (drop 4 buffer)
           else if starts_with [0x56, 0x54, 0x47] buffer then nmea_rx_vtg s (drop 4 buffer)
           else if starts_with [0x52, 0x4D, 0x43] buffer then nmea_rx_rmc s (drop 4 buffer)
           else Some s
         }
       }
     }"

section \<open>Global functions\<close>

text \<open>The argument \<^verbatim>\<open>tx_byte\<close> is not used by the code: bytes always go to the UART.\<close>

definition nmea_init :: "nmea_t \<Rightarrow> nmea_t" where
  "nmea_init s =
     s\<lparr>nmea_tx_byte_fn := True, nmea_rx_state := NMEA_RX_STATE_START, nmea_rx_index := 0,
       nmea_data := (nmea_data s)\<lparr>gga_valid_flag := False, vtg_valid_flag := False\<rparr>,
       rmc := (rmc s)\<lparr>rmc_data_valid := False\<rparr>\<rparr>"

definition nmea_on_rx_byte :: "nmea_t \<Rightarrow> u8 \<Rightarrow> nmea_t option" where
  "nmea_on_rx_byte s data =
     (let reset = (\<lambda>s. Some (s\<lparr>nmea_rx_state := NMEA_RX_STATE_START\<rparr>)) in
      case nmea_rx_state s of
        NMEA_RX_STATE_START \<Rightarrow>
          if data \<noteq> DOLLAR then reset s
          else Some (s\<lparr>nmea_rx_state := NMEA_RX_STATE_PAYLOAD, nmea_rx_checksum := 0, nmea_rx_index := 0\<rparr>)
      | NMEA_RX_STATE_PAYLOAD \<Rightarrow>
          if data = DOLLAR \<or> data = CR \<or> data = LF \<or> data \<ge> 0x80 then reset s
          else if data = STAR then Some (s\<lparr>nmea_rx_state := NMEA_RX_STATE_CHECKSUM1\<rparr>)
          else do {
            let s = s\<lparr>nmea_rx_checksum := nmea_rx_checksum s XOR data\<rparr>;
            buf \<leftarrow> c_upd (nmea_rx_buffer s) (unat (nmea_rx_index s)) data;
            let s = s\<lparr>nmea_rx_buffer := buf, nmea_rx_index := nmea_rx_index s + 1\<rparr>;
            if unat (nmea_rx_index s) \<ge> NMEA_BUFFER_SIZE - 1 then reset s else Some s
          }
      | NMEA_RX_STATE_CHECKSUM1 \<Rightarrow>
          if \<not> nmea_cmp_nibble_with_hex_ascii (drop_bit 4 (nmea_rx_checksum s) AND 0x0F) data then reset s
          else Some (s\<lparr>nmea_rx_state := NMEA_RX_STATE_CHECKSUM2\<rparr>)
      | NMEA_RX_STATE_CHECKSUM2 \<Rightarrow>
          if \<not> nmea_cmp_nibble_with_hex_ascii (nmea_rx_checksum s AND 0x0F) data then reset s
          else Some (s\<lparr>nmea_rx_state := NMEA_RX_STATE_END_CR\<rparr>)
      | NMEA_RX_STATE_END_CR \<Rightarrow>
          if data \<noteq> CR then reset s else Some (s\<lparr>nmea_rx_state := NMEA_RX_STATE_END_LF\<rparr>)
      | NMEA_RX_STATE_END_LF \<Rightarrow>
          if data \<noteq> LF then reset s
          else do {
            buf \<leftarrow> c_upd (nmea_rx_buffer s) (unat (nmea_rx_index s)) NUL;
            s \<leftarrow> nmea_on_rx_frame (s\<lparr>nmea_rx_buffer := buf\<rparr>) buf;
            reset s
          })"

text \<open>The bytes sent for a frame (a C string, without its terminating zero).\<close>

definition nmea_tx_frame :: "nmea_t \<Rightarrow> u8 list \<Rightarrow> u8 list" where
  "nmea_tx_frame s frame =
     (let checksum = foldl (XOR) DOLLAR frame;
          hi = drop_bit 4 checksum AND 0x0F;
          lo = checksum AND 0x0F;
          out = frame @ [STAR]
            @ [if checksum < 0xA0 then hi + ASCII_0 else hi + (ASCII_A - 10)]
            @ [if lo < 0x0A then lo + ASCII_0 else lo + (ASCII_A - 10)]
            @ [CR, LF]
      in concat (map (nmea_tx_byte s) out))"

definition gps :: "nmea_t \<Rightarrow> nmea_t option" where
  "gps s =
     (if nmea_new_char s
      then do { s \<leftarrow> nmea_on_rx_byte s (nmea_rx_data_char s); Some (s\<lparr>nmea_new_char := False\<rparr>) }
      else Some s)"

end
