(* ===== verification/Nmea_Facts.thy ===== *)
theory Nmea_Facts
  imports Nmea
begin

text \<open>
  Proofs about the GPS receiver: it never leaves its buffer whatever it receives, a well-formed frame is
  delivered and nothing else is, a frame sent by \<^verbatim>\<open>nmea_tx_frame\<close> is received, and what the sentence
  parsers compute.
\<close>

named_theorems nmea_safe \<open>parsers that stay inside a terminated buffer\<close>

section \<open>Parsing stays inside a terminated buffer\<close>

definition terminated :: "u8 list \<Rightarrow> bool" where
  "terminated bs \<longleftrightarrow> bs \<noteq> [] \<and> last bs = NUL"

lemma terminated_Cons: "terminated (b # bs) \<Longrightarrow> b \<noteq> NUL \<Longrightarrow> terminated bs"
  by (cases bs) (auto simp: terminated_def)

lemma terminated_drop: "terminated bs \<Longrightarrow> n < length bs \<Longrightarrow> terminated (drop n bs)"
  by (simp add: terminated_def)

lemma parse_uint_safe: "terminated bs \<Longrightarrow> \<exists>bs' v'. parse_uint bs v = Some (bs', v') \<and> terminated bs'"
  by (induction bs v rule: parse_uint.induct) (auto simp: at_end_def dest: terminated_Cons simp: terminated_def [of "[]"])

lemma parse_s16_safe: "terminated bs \<Longrightarrow> \<exists>bs' n v'. parse_s16 bs neg v = Some (bs', n, v') \<and> terminated bs'"
  by (induction bs neg v rule: parse_s16.induct) (auto simp: at_end_def dest: terminated_Cons simp: terminated_def [of "[]"])

lemma parse_fraction_safe: "terminated bs \<Longrightarrow> \<exists>bs' v'. parse_fraction bs v p = Some (bs', v') \<and> terminated bs'"
  by (induction bs v p rule: parse_fraction.induct) (auto simp: at_end_def dest: terminated_Cons simp: terminated_def [of "[]"])

lemma find_next_safe: "terminated bs \<Longrightarrow> \<exists>bs'. nmea_find_next_param bs = Some bs' \<and> terminated bs'"
  by (induction bs rule: nmea_find_next_param.induct) (auto dest: terminated_Cons simp: terminated_def [of "[]"])

text \<open>Continuation rules: what follows a parser may assume a terminated rest.\<close>

lemma bind_uint [nmea_safe]:
  assumes "terminated bs" "\<And>b v. terminated b \<Longrightarrow> \<exists>s. k b v = Some s \<and> Q s"
  shows "\<exists>s. (parse_uint bs v0 \<bind> case_prod k) = Some s \<and> Q s"
  using parse_uint_safe [OF assms(1), of v0] assms(2) by fastforce

lemma bind_s16 [nmea_safe]:
  assumes "terminated bs" "\<And>b v. terminated b \<Longrightarrow> \<exists>s. k b v = Some s \<and> Q s"
  shows "\<exists>s. (nmea_parse_str_to_s16 bs \<bind> case_prod k) = Some s \<and> Q s"
  using parse_s16_safe [OF assms(1), of False 0] assms(2) by (fastforce simp: nmea_parse_str_to_s16_def)

lemma bind_next [nmea_safe]:
  assumes "terminated bs" "\<And>b. terminated b \<Longrightarrow> \<exists>s. k b = Some s \<and> Q s"
  shows "\<exists>s. (nmea_find_next_param bs \<bind> k) = Some s \<and> Q s"
  using find_next_safe [OF assms(1)] assms(2) by fastforce

lemma skip_params_safe: "terminated bs \<Longrightarrow> \<exists>bs'. skip_params n bs = Some bs' \<and> terminated bs'"
proof (induction n arbitrary: bs)
  case (Suc n)
  then show ?case using find_next_safe [OF Suc.prems] by fastforce
qed simp

lemma bind_skip [nmea_safe]:
  assumes "terminated bs" "\<And>b. terminated b \<Longrightarrow> \<exists>s. k b = Some s \<and> Q s"
  shows "\<exists>s. (skip_params n bs \<bind> k) = Some s \<and> Q s"
  using skip_params_safe [OF assms(1), of n] assms(2) by fastforce

lemma bind_hd [nmea_safe]:
  assumes "terminated bs" "\<And>b. \<exists>s. k b = Some s \<and> Q s"
  shows "\<exists>s. (c_nth bs 0 \<bind> k) = Some s \<and> Q s"
  using assms by (simp add: c_nth_def terminated_def)

lemma bind_opt_fraction [nmea_safe]:
  assumes "terminated bs" "\<And>b v. terminated b \<Longrightarrow> \<exists>s. k b v = Some s \<and> Q s"
  shows "\<exists>s. (opt_fraction (\<lambda>b p. parse_fraction b v0 p) n old bs \<bind> case_prod k) = Some s \<and> Q s"
proof -
  obtain b r where bs: "bs = b # r" using assms(1) by (cases bs) (auto simp: terminated_def)
  show ?thesis
  proof (cases "b = DOT")
    case True
    then have "terminated r" using assms(1) bs terminated_Cons [of b r] by simp
    from parse_fraction_safe [OF this, of v0 n] show ?thesis using assms(2) bs True
      by (fastforce simp: opt_fraction_def c_nth_def)
  next
    case False
    then show ?thesis using assms bs by (simp add: opt_fraction_def c_nth_def)
  qed
qed

lemmas parser_defs = nmea_parse_str_to_u32_def nmea_parse_str_to_u16_def nmea_parse_str_to_u8_def
  nmea_parse_str_fraction_to_u16_def [abs_def] nmea_parse_str_fraction_to_u8_def [abs_def]

text \<open>What a sentence changes: the data, and one event that hands them to the application.\<close>

definition reports :: "nmea_t \<Rightarrow> nmea_t \<Rightarrow> bool" where
  "reports s s' \<longleftrightarrow> (\<exists>d r d' r'. s' = s\<lparr>nmea_data := d', rmc := r', events := events s @ [ValidGpsData d r]\<rparr>)"

lemma reports_data [simp]: "reports s (s\<lparr>nmea_data := d', events := events s @ [ValidGpsData d r]\<rparr>)"
  unfolding reports_def by (intro exI [of _ d] exI [of _ r] exI [of _ d'] exI [of _ "rmc s"]) simp

lemma reports_rmc [simp]: "reports s (s\<lparr>nmea_data := d', rmc := r', events := events s @ [ValidGpsData d r]\<rparr>)"
  unfolding reports_def by blast

lemma gga_reports:
  assumes "terminated bs"
  shows "\<exists>s'. nmea_rx_gga s bs = Some s' \<and> reports s s'"
  unfolding nmea_rx_gga_def parser_defs Let_def
  by (intro nmea_safe assms; assumption?) auto

lemma vtg_reports:
  assumes "terminated bs"
  shows "\<exists>s'. nmea_rx_vtg s bs = Some s' \<and> reports s s'"
  unfolding nmea_rx_vtg_def parser_defs Let_def
  by (intro nmea_safe assms; assumption?) auto

lemma rmc_reports:
  assumes "terminated bs"
  shows "\<exists>s'. nmea_rx_rmc s bs = Some s' \<and> reports s s'"
  unfolding nmea_rx_rmc_def Let_def
  by (intro nmea_safe assms; assumption?) auto

text \<open>After a frame: the string event, and at most one data event.\<close>

definition delivered :: "u8 list \<Rightarrow> nmea_t \<Rightarrow> nmea_t \<Rightarrow> bool" where
  "delivered str s s' \<longleftrightarrow> (\<exists>d r es. s' = s\<lparr>nmea_data := d, rmc := r, events := events s @ ValidStr str # es\<rparr> \<and>
     (es = [] \<or> (\<exists>d r. es = [ValidGpsData d r])))"

lemma reports_delivered:
  assumes "reports (s\<lparr>events := events s @ [ValidStr str]\<rparr>) s'"
  shows "delivered str s s'"
proof -
  obtain d r d' r' where "s' = s\<lparr>nmea_data := d', rmc := r', events := events s @ ValidStr str # [ValidGpsData d r]\<rparr>"
    using assms by (auto simp: reports_def)
  then show ?thesis unfolding delivered_def by blast
qed

lemma delivered_str [simp]: "delivered str s (s\<lparr>events := events s @ [ValidStr str]\<rparr>)"
  unfolding delivered_def by (intro exI [of _ "nmea_data s"] exI [of _ "rmc s"] exI [of _ "[]"]) simp

lemma rx_frame_delivers:
  assumes "terminated bs" "6 < length bs"
  shows "\<exists>s'. nmea_on_rx_frame s bs = Some s' \<and> delivered (takeWhile (\<lambda>b. b \<noteq> NUL) bs) s s'"
proof -
  have t: "terminated (drop 4 (drop 2 bs))" using terminated_drop [OF assms(1), of 6] assms(2) by simp
  have n: "c_nth bs 0 = Some (bs ! 0)" "c_nth bs 1 = Some (bs ! 1)"
    using assms(2) by (auto simp: c_nth_def)
  let ?s = "s\<lparr>events := events s @ [ValidStr (takeWhile (\<lambda>b. b \<noteq> NUL) bs)]\<rparr>"
  show ?thesis
    using gga_reports [OF t, of ?s] vtg_reports [OF t, of ?s] rmc_reports [OF t, of ?s]
    by (auto simp: nmea_on_rx_frame_def n n [unfolded One_nat_def] reports_delivered Let_def)
qed

section \<open>The receiver\<close>

definition rx_inv :: "nmea_t \<Rightarrow> bool" where
  "rx_inv s \<longleftrightarrow> length (nmea_rx_buffer s) = 128 \<and> nmea_rx_buffer s ! 127 = NUL \<and>
     (nmea_rx_state s \<noteq> NMEA_RX_STATE_START \<longrightarrow> unat (nmea_rx_index s) < 127)"

lemma rx_byte_keeps_inv:
  assumes "rx_inv s"
  shows "\<exists>s'. nmea_on_rx_byte s data = Some s' \<and> rx_inv s'"
proof (cases "nmea_rx_state s")
  case NMEA_RX_STATE_PAYLOAD
  then have i: "unat (nmea_rx_index s) < 127" using assms by (simp add: rx_inv_def)
  then have "unat (nmea_rx_index s + 1) = Suc (unat (nmea_rx_index s))" by (simp add: unat_Suc_small)
  then show ?thesis using assms i NMEA_RX_STATE_PAYLOAD
    by (auto simp: nmea_on_rx_byte_def rx_inv_def c_upd_def NMEA_BUFFER_SIZE_def Let_def)
next
  case NMEA_RX_STATE_END_LF
  then have i: "unat (nmea_rx_index s) < 127" using assms by (simp add: rx_inv_def)
  let ?b = "(nmea_rx_buffer s)[unat (nmea_rx_index s) := NUL]"
  have len: "length (nmea_rx_buffer s) = 128" "nmea_rx_buffer s ! 127 = NUL" using assms by (auto simp: rx_inv_def)
  have last: "last ?b = NUL" using i len by (subst last_conv_nth) auto
  then have "terminated ?b" using len by (auto simp: terminated_def)
  then obtain s' where "nmea_on_rx_frame (s\<lparr>nmea_rx_buffer := ?b\<rparr>) ?b = Some s'"
      "delivered (takeWhile (\<lambda>b. b \<noteq> NUL) ?b) (s\<lparr>nmea_rx_buffer := ?b\<rparr>) s'"
    using rx_frame_delivers [of ?b "s\<lparr>nmea_rx_buffer := ?b\<rparr>"] len by auto
  then show ?thesis using assms i NMEA_RX_STATE_END_LF len
    by (auto simp: nmea_on_rx_byte_def rx_inv_def c_upd_def Let_def delivered_def)
qed (use assms in \<open>auto simp: nmea_on_rx_byte_def rx_inv_def Let_def\<close>)

text \<open>Any sequence of received bytes.\<close>

fun nmea_rx :: "nmea_t \<Rightarrow> u8 list \<Rightarrow> nmea_t option" where
  "nmea_rx s [] = Some s"
| "nmea_rx s (b # bs) = do { s \<leftarrow> nmea_on_rx_byte s b; nmea_rx s bs }"

lemma rx_keeps_inv: "rx_inv s \<Longrightarrow> \<exists>s'. nmea_rx s bs = Some s' \<and> rx_inv s'"
proof (induction bs arbitrary: s)
  case (Cons b bs)
  then show ?case using rx_byte_keeps_inv [OF Cons.prems, of b] by fastforce
qed simp

lemma nmea_rx_append: "nmea_rx s (xs @ ys) = do { s \<leftarrow> nmea_rx s xs; nmea_rx s ys }"
proof (induction xs arbitrary: s)
  case (Cons x xs)
  then show ?case by (cases "nmea_on_rx_byte s x") auto
qed simp


section \<open>Frames\<close>

definition checksum :: "u8 list \<Rightarrow> u8" where
  "checksum p = foldl (XOR) 0 p"

definition hex_char :: "u8 \<Rightarrow> u8" where
  "hex_char n = (if n \<le> 9 then n + ASCII_0 else n + (ASCII_A - 10))"

definition payload_ok :: "u8 list \<Rightarrow> bool" where
  "payload_ok p \<longleftrightarrow> length p < 127 \<and> (\<forall>b\<in>set p. b \<noteq> DOLLAR \<and> b \<noteq> STAR \<and> b \<noteq> CR \<and> b \<noteq> LF \<and> b < 0x80)"

definition check_digits :: "u8 list \<Rightarrow> u8 list" where
  "check_digits p = [hex_char (drop_bit 4 (checksum p) AND 0x0F), hex_char (checksum p AND 0x0F)]"

lemma cmp_nibble: "nmea_cmp_nibble_with_hex_ascii n c \<longleftrightarrow> c = hex_char n"
  by (auto simp: nmea_cmp_nibble_with_hex_ascii_def hex_char_def Let_def)

lemma rx_payload:
  assumes "rx_inv s" "nmea_rx_state s = NMEA_RX_STATE_PAYLOAD" "unat (nmea_rx_index s) + length p < 127"
    "\<forall>b\<in>set p. b \<noteq> DOLLAR \<and> b \<noteq> STAR \<and> b \<noteq> CR \<and> b \<noteq> LF \<and> b < 0x80"
  shows "nmea_rx s p = Some (s\<lparr>nmea_rx_checksum := foldl (XOR) (nmea_rx_checksum s) p,
     nmea_rx_buffer := take (unat (nmea_rx_index s)) (nmea_rx_buffer s) @ p @ drop (unat (nmea_rx_index s) + length p) (nmea_rx_buffer s),
     nmea_rx_index := nmea_rx_index s + of_nat (length p)\<rparr>)"
  using assms
proof (induction p arbitrary: s)
  case (Cons b p)
  let ?i = "unat (nmea_rx_index s)"
  have len: "length (nmea_rx_buffer s) = 128" "nmea_rx_buffer s ! 127 = NUL" using Cons.prems(1) by (auto simp: rx_inv_def)
  let ?s1 = "s\<lparr>nmea_rx_checksum := nmea_rx_checksum s XOR b, nmea_rx_buffer := (nmea_rx_buffer s)[?i := b], nmea_rx_index := nmea_rx_index s + 1\<rparr>"
  have i1: "unat (nmea_rx_index s + 1) = Suc ?i" using Cons.prems(3) by (simp add: unat_Suc_small)
  have step: "nmea_on_rx_byte s b = Some ?s1"
  proof -
    have "b \<in> set (b # p)" by simp
    with Cons.prems(4) have "b \<noteq> DOLLAR \<and> b \<noteq> STAR \<and> b \<noteq> CR \<and> b \<noteq> LF \<and> b < 0x80" by (rule bspec)
    then have "b \<noteq> DOLLAR" "b \<noteq> STAR" "b \<noteq> CR" "b \<noteq> LF" "\<not> 0x80 \<le> b" by (simp_all add: not_le)
    moreover have "?i < 128" "\<not> 127 \<le> Suc ?i" using Cons.prems(3) by auto
    ultimately show ?thesis
      using Cons.prems(2) len(1) by (simp add: nmea_on_rx_byte_def c_upd_def NMEA_BUFFER_SIZE_def i1)
  qed
  have "rx_inv ?s1" using Cons.prems len i1 by (auto simp: rx_inv_def)
  moreover have "unat (nmea_rx_index ?s1) + length p < 127" using Cons.prems(3) i1 by simp
  moreover have "\<forall>x\<in>set p. x \<noteq> DOLLAR \<and> x \<noteq> STAR \<and> x \<noteq> CR \<and> x \<noteq> LF \<and> x < 0x80" using Cons.prems(4) by simp
  ultimately have ih: "nmea_rx ?s1 p = Some (?s1\<lparr>nmea_rx_checksum := foldl (XOR) (nmea_rx_checksum ?s1) p,
     nmea_rx_buffer := take (unat (nmea_rx_index ?s1)) (nmea_rx_buffer ?s1) @ p @ drop (unat (nmea_rx_index ?s1) + length p) (nmea_rx_buffer ?s1),
     nmea_rx_index := nmea_rx_index ?s1 + of_nat (length p)\<rparr>)"
    using Cons.IH [of ?s1] Cons.prems(2) by simp
  have buf: "take (Suc ?i) ((nmea_rx_buffer s)[?i := b]) @ p @ drop (Suc ?i + length p) ((nmea_rx_buffer s)[?i := b]) =
      take ?i (nmea_rx_buffer s) @ (b # p) @ drop (?i + length (b # p)) (nmea_rx_buffer s)"
    using Cons.prems(3) len by (simp add: take_Suc_conv_app_nth)
  have idx: "nmea_rx_index s + 1 + of_nat (length p) = nmea_rx_index s + of_nat (length (b # p))" by simp
  show ?case using ih buf idx by (simp add: step i1)
qed simp

lemma rx_start:
  assumes "nmea_rx_state s = NMEA_RX_STATE_START"
  shows "nmea_on_rx_byte s DOLLAR = Some (s\<lparr>nmea_rx_state := NMEA_RX_STATE_PAYLOAD, nmea_rx_checksum := 0, nmea_rx_index := 0\<rparr>)"
  using assms by (simp add: nmea_on_rx_byte_def Let_def)

text \<open>The state after the start character, the payload and the star.\<close>

lemma rx_body:
  assumes "rx_inv s" "nmea_rx_state s = NMEA_RX_STATE_START" "payload_ok p"
  shows "\<exists>s'. nmea_rx s (DOLLAR # p @ [STAR]) = Some s' \<and> rx_inv s' \<and> nmea_rx_state s' = NMEA_RX_STATE_CHECKSUM1 \<and>
     nmea_rx_checksum s' = checksum p \<and> unat (nmea_rx_index s') = length p \<and> take (length p) (nmea_rx_buffer s') = p \<and>
     events s' = events s"
proof -
  let ?s1 = "s\<lparr>nmea_rx_state := NMEA_RX_STATE_PAYLOAD, nmea_rx_checksum := 0, nmea_rx_index := 0\<rparr>"
  have inv1: "rx_inv ?s1" using assms(1) by (auto simp: rx_inv_def)
  have lp: "length p < 127" using assms(3) by (simp add: payload_ok_def)
  then have u: "unat (of_nat (length p) :: u16) = length p" by (simp add: unsigned_of_nat take_bit_eq_mod)
  let ?s2 = "?s1\<lparr>nmea_rx_checksum := checksum p, nmea_rx_buffer := p @ drop (length p) (nmea_rx_buffer s), nmea_rx_index := of_nat (length p)\<rparr>"
  have r2: "nmea_rx ?s1 p = Some ?s2" using rx_payload [OF inv1] assms(3) by (simp add: payload_ok_def checksum_def)
  have star: "nmea_on_rx_byte ?s2 STAR = Some (?s2\<lparr>nmea_rx_state := NMEA_RX_STATE_CHECKSUM1\<rparr>)"
    by (simp add: nmea_on_rx_byte_def Let_def)
  have "nmea_rx s (DOLLAR # p @ [STAR]) = Some (?s2\<lparr>nmea_rx_state := NMEA_RX_STATE_CHECKSUM1\<rparr>)"
    using r2 star by (simp add: rx_start [OF assms(2)] nmea_rx_append)
  moreover have "rx_inv (?s2\<lparr>nmea_rx_state := NMEA_RX_STATE_CHECKSUM1\<rparr>)"
    using assms(1) lp u by (auto simp: rx_inv_def nth_append)
  ultimately show ?thesis using u by auto
qed

lemma rx_tail_bad:
  assumes "nmea_rx_state s = NMEA_RX_STATE_CHECKSUM1" "rx_inv s"
    "[c1, c2] \<noteq> [hex_char (drop_bit 4 (nmea_rx_checksum s) AND 0x0F), hex_char (nmea_rx_checksum s AND 0x0F)]"
  shows "\<exists>s'. nmea_rx s [c1, c2, CR, LF] = Some s' \<and> rx_inv s' \<and> nmea_rx_state s' = NMEA_RX_STATE_START \<and> events s' = events s"
  using assms by (auto simp: nmea_on_rx_byte_def Let_def cmp_nibble rx_inv_def)

lemma rx_tail_good:
  assumes "nmea_rx_state s = NMEA_RX_STATE_CHECKSUM1" "rx_inv s" "unat (nmea_rx_index s) = length p"
    "take (length p) (nmea_rx_buffer s) = p" "nmea_rx_checksum s = checksum p"
  shows "\<exists>s' es. nmea_rx s (check_digits p @ [CR, LF]) = Some s' \<and> rx_inv s' \<and> nmea_rx_state s' = NMEA_RX_STATE_START \<and>
     events s' = events s @ ValidStr (takeWhile (\<lambda>b. b \<noteq> NUL) p) # es \<and> (es = [] \<or> (\<exists>d r. es = [ValidGpsData d r]))"
proof -
  let ?b = "(nmea_rx_buffer s)[length p := NUL]" and ?s1 = "s\<lparr>nmea_rx_state := NMEA_RX_STATE_END_LF\<rparr>"
  have len: "length (nmea_rx_buffer s) = 128" "nmea_rx_buffer s ! 127 = NUL" "length p < 127"
    using assms(1-3) by (auto simp: rx_inv_def)
  have st: "nmea_rx s (check_digits p @ [CR]) = Some ?s1"
    using assms(1,5) by (simp add: check_digits_def nmea_on_rx_byte_def Let_def cmp_nibble)
  have "last ?b = NUL" using len by (subst last_conv_nth) auto
  then have t: "terminated ?b" using len by (auto simp: terminated_def)
  have "?b = p @ NUL # drop (Suc (length p)) (nmea_rx_buffer s)" using assms(4) len by (simp add: upd_conv_take_nth_drop)
  then have str: "takeWhile (\<lambda>b. b \<noteq> NUL) ?b = takeWhile (\<lambda>b. b \<noteq> NUL) p" by (simp add: takeWhile_tail)
  obtain s2 where s2: "nmea_on_rx_frame (?s1\<lparr>nmea_rx_buffer := ?b\<rparr>) ?b = Some s2"
      "delivered (takeWhile (\<lambda>b. b \<noteq> NUL) p) (?s1\<lparr>nmea_rx_buffer := ?b\<rparr>) s2"
    using rx_frame_delivers [OF t, of "?s1\<lparr>nmea_rx_buffer := ?b\<rparr>"] len str by auto
  have "nmea_rx s (check_digits p @ [CR, LF]) = do { s \<leftarrow> nmea_rx s (check_digits p @ [CR]); nmea_rx s [LF] }"
    using nmea_rx_append [of s "check_digits p @ [CR]" "[LF]"] by simp
  also have "\<dots> = Some (s2\<lparr>nmea_rx_state := NMEA_RX_STATE_START\<rparr>)"
    using s2(1) len assms(3) by (simp add: st nmea_on_rx_byte_def c_upd_def Let_def)
  finally have fin: "nmea_rx s (check_digits p @ [CR, LF]) = Some (s2\<lparr>nmea_rx_state := NMEA_RX_STATE_START\<rparr>)" .
  from s2(2) obtain d r es where s2d: "s2 = ?s1\<lparr>nmea_rx_buffer := ?b, nmea_data := d, rmc := r,
      events := events s @ ValidStr (takeWhile (\<lambda>b. b \<noteq> NUL) p) # es\<rparr>" "es = [] \<or> (\<exists>d r. es = [ValidGpsData d r])"
    by (auto simp: delivered_def)
  have "rx_inv (s2\<lparr>nmea_rx_state := NMEA_RX_STATE_START\<rparr>)" using len by (simp add: s2d(1) rx_inv_def)
  then show ?thesis unfolding fin using s2d by auto
qed

lemma foldl_xor: "foldl (XOR) (a XOR b) p = a XOR foldl (XOR) b p" for a b :: u8
  by (induction p arbitrary: b) (simp_all add: xor.assoc)

lemma high_digit: "(c < 0xA0) = (drop_bit 4 c AND 0x0F \<le> 9)" for c :: u8
proof -
  have "(0x0F :: u8) = mask 4" by (simp add: mask_eq_exp_minus_1)
  then have "drop_bit 4 c AND 0x0F = take_bit 4 (drop_bit 4 c)" by (simp add: take_bit_eq_mask)
  then have "unat (drop_bit 4 c AND 0x0F) = unat c div 16"
    using unat_u8_lt [of c] by (simp add: take_bit_eq_mod drop_bit_eq_div unat_div unat_mod)
  then show ?thesis by (auto simp: word_less_nat_alt word_le_nat_alt)
qed

lemma tx_frame_bytes:
  assumes "nmea_tx_byte_fn s"
  shows "nmea_tx_frame s (DOLLAR # p) = DOLLAR # p @ STAR # check_digits p @ [CR, LF]"
proof -
  have c: "foldl (XOR) DOLLAR (DOLLAR # p) = checksum p" by (simp add: checksum_def)
  have b: "nmea_tx_byte s = (\<lambda>x. [x])" using assms by (simp add: nmea_tx_byte_def fun_eq_iff)
  have l: "(n < 0x0A) = (n \<le> 9)" for n :: u8 by (auto simp: word_less_nat_alt word_le_nat_alt)
  show ?thesis unfolding nmea_tx_frame_def Let_def c b check_digits_def hex_char_def high_digit l by simp
qed

end
