(* ===== verification/Nmea_Props.thy ===== *)
theory Nmea_Props
  imports Nmea_Facts
begin

text \<open>
  The properties of the GPS receiver: the interrupt handler and the polling loop as a step relation whose
  every reachable state can be polled safely, the frames that are accepted, the round trip with the sender,
  the number parsers, and two properties that show where the sentence parser departs from the protocol.
\<close>

section \<open>Interrupts and polling\<close>

text \<open>The UART interrupt may come at any time between two runs of \<^verbatim>\<open>gps()\<close>.\<close>

inductive gps_step :: "nmea_t \<Rightarrow> nmea_t \<Rightarrow> bool" where
  irq: "gps_step s (UART0_IRQHandler b s)"
| poll: "gps s = Some s' \<Longrightarrow> gps_step s s'"

inductive_cases gps_stepE: "gps_step s s'"

lemma gps_keeps_inv:
  assumes "rx_inv s"
  shows "\<exists>s'. gps s = Some s' \<and> rx_inv s'"
  using rx_byte_keeps_inv [OF assms, of "nmea_rx_data_char s"] assms
  by (auto simp: gps_def rx_inv_def)

lemma irq_keeps_inv: "rx_inv s \<Longrightarrow> rx_inv (UART0_IRQHandler b s)"
  by (auto simp: UART0_IRQHandler_def rx_inv_def)

lemma gps_steps_keep_inv: "gps_step\<^sup>*\<^sup>* s s' \<Longrightarrow> rx_inv s \<Longrightarrow> rx_inv s'"
proof (induction rule: rtranclp_induct)
  case (step s1 s2)
  then show ?case using gps_keeps_inv [of s1] by (auto elim!: gps_stepE intro: irq_keeps_inv)
qed

text \<open>A static buffer is all zeros before \<^verbatim>\<open>nmea_init\<close> is called.\<close>

lemma init_inv: "nmea_rx_buffer s = replicate 128 NUL \<Longrightarrow> rx_inv (nmea_init s)"
  by (simp add: rx_inv_def nmea_init_def)

text \<open>C13. Memory safety of the receiver. Start the module with the static buffer all zeros, then let the
  receive interrupt and the polling function run in any order with any received bytes: in every reachable
  state the polling function returns (no access outside the 128-byte buffer, neither when a byte is stored
  nor by any of the sentence parsers, whatever the sentence), and the buffer keeps its length and its last
  byte zero.\<close>

theorem nmea_receiver_safe:
  assumes "nmea_rx_buffer s0 = replicate 128 NUL" "gps_step\<^sup>*\<^sup>* (nmea_init s0) s"
  shows "\<exists>s'. gps s = Some s' \<and> length (nmea_rx_buffer s') = 128 \<and> nmea_rx_buffer s' ! 127 = NUL"
  using gps_keeps_inv [OF gps_steps_keep_inv [OF assms(2) init_inv [OF assms(1)]]] by (auto simp: rx_inv_def)

text \<open>When each byte is polled before the next interrupt, the pair of functions is the receiver itself.\<close>

lemma irq_poll:
  "gps (UART0_IRQHandler b s) =
     map_option (\<lambda>s. s\<lparr>nmea_new_char := False\<rparr>) (nmea_on_rx_byte (UART0_IRQHandler b s) b)"
  by (cases "nmea_on_rx_byte (UART0_IRQHandler b s) b") (auto simp: gps_def UART0_IRQHandler_def)

section \<open>Frames\<close>

text \<open>C14. A received frame is accepted exactly when its check digits are right. The receiver waits for a
  start character and gets a dollar sign, a payload of fewer than 127 bytes without control characters, a
  star, two characters and the line end. It ends up waiting for the next start character; if the two
  characters are the upper-case hexadecimal digits of the exclusive-or of the payload, the payload (up to a
  zero byte) is delivered once to the string callback, followed by at most one data callback; otherwise
  neither callback is called.\<close>

theorem nmea_frame_accepted_iff_checksum:
  assumes "rx_inv s" "nmea_rx_state s = NMEA_RX_STATE_START" "payload_ok p"
  shows "\<exists>s' es. nmea_rx s (DOLLAR # p @ [STAR, c1, c2, CR, LF]) = Some s' \<and> rx_inv s' \<and>
     nmea_rx_state s' = NMEA_RX_STATE_START \<and> events s' = events s @ es \<and>
     (if [c1, c2] = check_digits p
      then \<exists>es'. es = ValidStr (takeWhile (\<lambda>b. b \<noteq> NUL) p) # es' \<and> (es' = [] \<or> (\<exists>d r. es' = [ValidGpsData d r]))
      else es = [])"
proof -
  obtain s1 where s1: "nmea_rx s (DOLLAR # p @ [STAR]) = Some s1" "rx_inv s1" "nmea_rx_state s1 = NMEA_RX_STATE_CHECKSUM1"
      "nmea_rx_checksum s1 = checksum p" "unat (nmea_rx_index s1) = length p" "take (length p) (nmea_rx_buffer s1) = p"
      "events s1 = events s"
    using rx_body [OF assms] by blast
  have run: "nmea_rx s (DOLLAR # p @ [STAR, c1, c2, CR, LF]) = nmea_rx s1 [c1, c2, CR, LF]"
    using s1(1) nmea_rx_append [of s "DOLLAR # p @ [STAR]" "[c1, c2, CR, LF]"] by simp
  show ?thesis
  proof (cases "[c1, c2] = check_digits p")
    case True
    then have "[c1, c2, CR, LF] = check_digits p @ [CR, LF]" by (metis append_Cons append_Nil)
    moreover obtain s2 es where "nmea_rx s1 (check_digits p @ [CR, LF]) = Some s2" "rx_inv s2"
        "nmea_rx_state s2 = NMEA_RX_STATE_START" "events s2 = events s1 @ ValidStr (takeWhile (\<lambda>b. b \<noteq> NUL) p) # es"
        "es = [] \<or> (\<exists>d r. es = [ValidGpsData d r])"
      using rx_tail_good [OF s1(3,2,5,6,4)] by blast
    ultimately show ?thesis unfolding run if_P [OF True] s1(7) by metis
  next
    case False
    then have "[c1, c2] \<noteq> [hex_char (drop_bit 4 (nmea_rx_checksum s1) AND 0x0F), hex_char (nmea_rx_checksum s1 AND 0x0F)]"
      by (simp add: check_digits_def s1(4))
    then show ?thesis unfolding run if_not_P [OF False]
      using rx_tail_bad [OF s1(3,2)] s1(7) by fastforce
  qed
qed

text \<open>A concrete receiver for the witnesses.\<close>

definition nmea_data0 :: nmea_data_t where
  "nmea_data0 = \<lparr>utc_time = 0, utc_time_fraction = 0, delay_from_PPS = 0, latitude = 0, latitude_fraction = 0,
     longitude = 0, longitude_fraction = 0, altitude = 0, altitude_fraction = 0, heading = 0,
     heading_fraction = 0, speed = 0, speed_fraction = 0, sattelites_used = 0, hdop = 0, hdop_fraction = 0,
     gga_valid_flag = False, vtg_valid_flag = False\<rparr>"

definition rmc0 :: rmc_t where
  "rmc0 = (let c = \<lparr>degrees = 0, minutes = 0, minutes_fraction = 0, orientation = 0\<rparr> in
     \<lparr>utc_hour = 0, utc_min = 0, utc_sec = 0, utc_date = 0, utc_month = 0, utc_year = 0,
      rmc_latitude = c, rmc_longitude = c, rmc_data_valid = False\<rparr>)"

definition nmea0 :: nmea_t where
  "nmea0 = \<lparr>nmea_data = nmea_data0, rmc = rmc0, nmea_tx_byte_fn = False, nmea_rx_buffer = replicate 128 NUL,
     nmea_rx_index = 0, nmea_rx_checksum = 0, nmea_rx_state = NMEA_RX_STATE_START, nmea_rx_data_char = 0,
     nmea_new_char = False, events = []\<rparr>"

lemma nmea0_ready [simp]: "rx_inv (nmea_init nmea0)" "nmea_rx_state (nmea_init nmea0) = NMEA_RX_STATE_START"
  "nmea_tx_byte_fn (nmea_init nmea0)" "events (nmea_init nmea0) = []" "nmea_rx_buffer nmea0 = replicate 128 NUL"
  by (simp_all add: init_inv nmea0_def) (simp_all add: nmea_init_def rx_inv_def)

theorem nmea_receiver_safe_witness:
  "\<exists>s'. gps (UART0_IRQHandler DOLLAR (nmea_init nmea0)) = Some s' \<and> length (nmea_rx_buffer s') = 128 \<and>
     nmea_rx_buffer s' ! 127 = NUL"
  by (rule nmea_receiver_safe [of nmea0]) (auto intro: gps_step.irq)

theorem nmea_frame_accepted_iff_checksum_witness:
  "\<exists>s' es. nmea_rx (nmea_init nmea0) [DOLLAR, 0x41, 0x42, STAR, 0x30, 0x33, CR, LF] = Some s' \<and> rx_inv s' \<and>
     nmea_rx_state s' = NMEA_RX_STATE_START \<and> events s' = ValidStr [0x41, 0x42] # es"
proof -
  have "[0x30, 0x33] = check_digits [0x41, 0x42]"
    by (simp add: check_digits_def checksum_def hex_char_def)
  moreover have "payload_ok [0x41, 0x42]" by (simp add: payload_ok_def)
  ultimately show ?thesis
    using nmea_frame_accepted_iff_checksum [of "nmea_init nmea0" "[0x41, 0x42]" "0x30" "0x33"] by auto
qed

text \<open>C15. Round trip. The bytes that \<^verbatim>\<open>nmea_tx_frame\<close> sends for a string that starts with a dollar sign are
  accepted by a waiting receiver, which delivers exactly the characters after the dollar sign, and waits
  for the next frame.\<close>

theorem nmea_tx_rx_roundtrip:
  assumes "nmea_tx_byte_fn sender" "rx_inv s" "nmea_rx_state s = NMEA_RX_STATE_START" "payload_ok p" "NUL \<notin> set p"
  shows "\<exists>s' es. nmea_rx s (nmea_tx_frame sender (DOLLAR # p)) = Some s' \<and> rx_inv s' \<and>
     nmea_rx_state s' = NMEA_RX_STATE_START \<and> events s' = events s @ ValidStr p # es"
proof -
  obtain s1 where s1: "nmea_rx s (DOLLAR # p @ [STAR]) = Some s1" "rx_inv s1" "nmea_rx_state s1 = NMEA_RX_STATE_CHECKSUM1"
      "nmea_rx_checksum s1 = checksum p" "unat (nmea_rx_index s1) = length p" "take (length p) (nmea_rx_buffer s1) = p"
      "events s1 = events s"
    using rx_body [OF assms(2-4)] by blast
  have "nmea_rx s (nmea_tx_frame sender (DOLLAR # p)) = nmea_rx s1 (check_digits p @ [CR, LF])"
    using s1(1) nmea_rx_append [of s "DOLLAR # p @ [STAR]" "check_digits p @ [CR, LF]"]
    by (simp add: tx_frame_bytes [OF assms(1)])
  moreover have "takeWhile (\<lambda>b. b \<noteq> NUL) p = p" using assms(5) by (auto simp: takeWhile_eq_all_conv)
  ultimately show ?thesis using rx_tail_good [OF s1(3,2,5,6,4)] s1(7) by auto
qed

theorem nmea_tx_rx_roundtrip_witness:
  "\<exists>s' es. nmea_rx (nmea_init nmea0) (nmea_tx_frame (nmea_init nmea0) [DOLLAR, 0x50, 0x53]) = Some s' \<and>
     rx_inv s' \<and> nmea_rx_state s' = NMEA_RX_STATE_START \<and> events s' = [] @ ValidStr [0x50, 0x53] # es"
  using nmea_tx_rx_roundtrip [of "nmea_init nmea0" "nmea_init nmea0" "[0x50, 0x53]"]
  by (simp add: payload_ok_def)

section \<open>Numbers\<close>

definition digit_char :: "nat \<Rightarrow> u8" where
  "digit_char d = of_nat d + ASCII_0"

definition decimal :: "nat list \<Rightarrow> nat" where
  "decimal ds = foldl (\<lambda>n d. n * 10 + d) 0 ds"

definition digits_ok :: "nat list \<Rightarrow> bool" where
  "digits_ok ds \<longleftrightarrow> (\<forall>d\<in>set ds. d < 10)"

lemma digit_char_props:
  assumes "d < 10"
  shows "\<not> at_end (digit_char d)" "digit_char d \<noteq> SPACE" "ucast (digit_char d) - 48 = (of_nat d :: 'a::len word)"
proof -
  have "d \<in> {0,1,2,3,4,5,6,7,8,9}" using assms by auto
  then show "\<not> at_end (digit_char d)" "digit_char d \<noteq> SPACE" by (auto simp: digit_char_def at_end_def)
  have "unat (digit_char d) = d + 48" using assms by (simp add: digit_char_def unat_word_ariths unat_of_nat)
  then have "(ucast (digit_char d) :: 'a word) = of_nat (d + 48)" by (metis of_nat_unat)
  then show "ucast (digit_char d) - 48 = (of_nat d :: 'a word)" by simp
qed

lemma parse_uint_digits:
  assumes "digits_ok ds" "at_end t"
  shows "parse_uint (map digit_char ds @ t # rest) (of_nat v) =
     Some (t # rest, of_nat (foldl (\<lambda>n d. n * 10 + d) v ds) :: 'a::len word)"
  using assms(1)
proof (induction ds arbitrary: v)
  case Nil
  then show ?case using assms(2) by simp
next
  case (Cons d ds)
  then have "d < 10" "digits_ok ds" by (auto simp: digits_ok_def)
  then show ?case using Cons.IH [of "v * 10 + d"]
    by (simp add: digit_char_props algebra_simps)
qed

lemma parse_fraction_digits:
  assumes "digits_ok ds" "at_end t"
  shows "parse_fraction (map digit_char ds @ t # rest) (of_nat v) prec =
     Some (map digit_char (drop prec ds) @ t # rest,
       of_nat (foldl (\<lambda>n d. n * 10 + d) v (take prec ds) * 10 ^ (prec - length ds)) :: 'a::len word)"
  using assms(1)
proof (induction ds arbitrary: v prec)
  case Nil
  then show ?case using assms(2) by simp
next
  case (Cons d ds)
  then have d: "d < 10" "digits_ok ds" by (auto simp: digits_ok_def)
  show ?case
  proof (cases prec)
    case (Suc n)
    then show ?thesis using d Cons.IH [of "v * 10 + d" n]
      by (simp add: digit_char_props algebra_simps)
  qed simp
qed

lemma parse_decimal_uint:
  assumes "digits_ok ds" "at_end t"
  shows "parse_uint (map digit_char ds @ t # rest) 0 = Some (t # rest, of_nat (decimal ds))"
  using parse_uint_digits [OF assms, of rest 0] by (simp add: decimal_def)

lemma parse_decimal_fraction:
  assumes "digits_ok ds" "at_end t"
  shows "parse_fraction (map digit_char ds @ t # rest) 0 prec =
     Some (map digit_char (drop prec ds) @ t # rest, of_nat (decimal (take prec ds)) * 10 ^ (prec - length ds))"
  using parse_fraction_digits [OF assms, of rest 0 prec] by (simp add: decimal_def)

lemma of_nat_mod_word: "(of_nat (n mod 2 ^ LENGTH('a)) :: 'a::len word) = of_nat n"
  by (simp add: word_unat_eq_iff unat_of_nat)

text \<open>The number parsers on a decimal number that a comma, a dot or the end of the string follows. The
  integer parsers stop at the separator with the number modulo two to the width of the result; the fraction
  parsers take at most the given number of digits, leave the others unread, and scale a shorter fraction.\<close>

theorem nmea_parse_decimal:
  assumes "digits_ok ds" "at_end t"
  shows "nmea_parse_str_to_u32 (map digit_char ds @ t # rest) = Some (t # rest, of_nat (decimal ds mod 2 ^ 32)) \<and>
    nmea_parse_str_to_u16 (map digit_char ds @ t # rest) = Some (t # rest, of_nat (decimal ds mod 2 ^ 16)) \<and>
    nmea_parse_str_to_u8 (map digit_char ds @ t # rest) = Some (t # rest, of_nat (decimal ds mod 2 ^ 8)) \<and>
    nmea_parse_str_fraction_to_u16 (map digit_char ds @ t # rest) prec =
       Some (map digit_char (drop prec ds) @ t # rest, of_nat (decimal (take prec ds) * 10 ^ (prec - length ds))) \<and>
    nmea_parse_str_fraction_to_u8 (map digit_char ds @ t # rest) prec =
       Some (map digit_char (drop prec ds) @ t # rest, of_nat (decimal (take prec ds) * 10 ^ (prec - length ds)))"
  using of_nat_mod_word [where 'a = 32, of "decimal ds"] of_nat_mod_word [where 'a = 16, of "decimal ds"]
    of_nat_mod_word [where 'a = 8, of "decimal ds"]
  by (simp add: parser_defs parse_decimal_uint [OF assms] parse_decimal_fraction [OF assms])

theorem nmea_parse_decimal_witness:
  "nmea_parse_str_to_u8 [0x33, 0x30, 0x30, COMMA] = Some ([COMMA], 44) \<and>
   nmea_parse_str_fraction_to_u16 [0x35, NUL] 3 = Some ([NUL], 500)"
  using nmea_parse_decimal [of "[3, 0, 0]" COMMA "[]"] nmea_parse_decimal [of "[5]" NUL "[]" 3]
  by (simp add: digits_ok_def at_end_def digit_char_def decimal_def)

section \<open>Where the sentence parser departs from the protocol\<close>

lemma find_next_skips:
  "COMMA \<notin> set p \<Longrightarrow> NUL \<notin> set p \<Longrightarrow> nmea_find_next_param (p @ COMMA # rest) = Some rest"
  by (induction p) auto

text \<open>The time of an RMC sentence is read from its first character alone: two sentences that agree in that
  character and after the time field leave the receiver in the same state, whatever the other digits of
  the hours, minutes and seconds are; the hour becomes eleven times the first digit plus one, less four.\<close>

theorem nmea_rmc_time_first_char_only:
  assumes "COMMA \<notin> set (b # p)" "NUL \<notin> set (b # p)" "COMMA \<notin> set q" "NUL \<notin> set q"
  shows "nmea_rx_rmc s (b # p @ COMMA # rest) = nmea_rx_rmc s (b # q @ COMMA # rest) \<and>
    (\<forall>s'. nmea_rx_rmc s (b # p @ COMMA # rest) = Some s' \<longrightarrow> utc_hour (rmc s') = (b - ASCII_0) * 11 + 1 - 4)"
proof -
  have f: "nmea_find_next_param (b # p @ COMMA # rest) = Some rest" "nmea_find_next_param (b # q @ COMMA # rest) = Some rest"
    using find_next_skips [of "b # p" rest] find_next_skips [of "b # q" rest] assms by auto
  have sk: "skip_params 2 (b # p @ COMMA # rest) = skip_params 1 rest" "skip_params 2 (b # q @ COMMA # rest) = skip_params 1 rest"
    using f by (simp_all add: numeral_2_eq_2)
  have "nmea_rx_rmc s (b # p @ COMMA # rest) = nmea_rx_rmc s (b # q @ COMMA # rest)"
    by (simp add: nmea_rx_rmc_def c_nth_def sk)
  moreover have "utc_hour (rmc s') = (b - ASCII_0) * 11 + 1 - 4" if "nmea_rx_rmc s (b # p @ COMMA # rest) = Some s'" for s'
    using that by (auto simp: nmea_rx_rmc_def c_nth_def sk rmc_two_def Let_def algebra_simps split: Option.bind_splits)
  ultimately show ?thesis by blast
qed

text \<open>Time field \<^verbatim>\<open>093519\<close> and \<^verbatim>\<open>012345\<close>: nine o'clock is read as one o'clock.\<close>

theorem nmea_rmc_time_first_char_only_witness:
  "nmea_rx_rmc nmea0 ([0x30, 0x39, 0x33, 0x35, 0x31, 0x39] @ COMMA # [NUL])
   = nmea_rx_rmc nmea0 ([0x30, 0x31, 0x32, 0x33, 0x34, 0x35] @ COMMA # [NUL])"
  using nmea_rmc_time_first_char_only [of "0x30" "[0x39, 0x33, 0x35, 0x31, 0x39]" "[0x31, 0x32, 0x33, 0x34, 0x35]" nmea0 "[NUL]"]
  by simp

text \<open>Every GGA sentence is reported as a valid position, also one whose fix field says that there is no
  fix: for any terminated sentence body the data callback is called exactly once, with the flag of valid
  GGA data set, and both flags are clear afterwards.\<close>

theorem nmea_gga_always_valid:
  assumes "terminated buffer"
  shows "\<exists>s' d. nmea_rx_gga s buffer = Some s' \<and> events s' = events s @ [ValidGpsData d (rmc s)] \<and> gga_valid_flag d \<and>
     \<not> gga_valid_flag (nmea_data s') \<and> \<not> vtg_valid_flag (nmea_data s')"
proof -
  have "\<exists>s'. nmea_rx_gga s buffer = Some s' \<and> (\<exists>d. events s' = events s @ [ValidGpsData d (rmc s)] \<and> gga_valid_flag d \<and>
     \<not> gga_valid_flag (nmea_data s') \<and> \<not> vtg_valid_flag (nmea_data s'))"
    unfolding nmea_rx_gga_def parser_defs Let_def
    by (intro nmea_safe assms; assumption?) auto
  then show ?thesis by blast
qed

text \<open>The body \<^verbatim>\<open>1,2,N,3,E,0\<close>, whose fix field is zero.\<close>

theorem nmea_gga_always_valid_witness:
  "\<exists>s' d. nmea_rx_gga nmea0 [0x31, COMMA, 0x32, COMMA, 0x4E, COMMA, 0x33, COMMA, 0x45, COMMA, 0x30, NUL] = Some s' \<and>
     events s' = events nmea0 @ [ValidGpsData d (rmc nmea0)] \<and> gga_valid_flag d \<and>
     \<not> gga_valid_flag (nmea_data s') \<and> \<not> vtg_valid_flag (nmea_data s')"
  by (rule nmea_gga_always_valid) (simp add: terminated_def)

end
