(* ===== verification/Rtc_Calendar.thy ===== *)
theory Rtc_Calendar
  imports Prelude
begin

text \<open>
  The calendar of \<^verbatim>\<open>src/LPC_RTC_CALENDAR.c\<close>: conversion between dates and seconds, the day of the week, the
  compiler's date strings and formatted output. The peripheral is not modelled: \<^verbatim>\<open>lpcrtc_setDateTime\<close>
  yields the values it hands to \<^verbatim>\<open>Chip_RTC_SetFullTime\<close>, and \<^verbatim>\<open>lpcrtc_getDateTime\<close> gets the values that
  \<^verbatim>\<open>Chip_RTC_GetFullTime\<close> reads.

  Text is a HOL string without the terminating zero. Appending to the static buffer fails when the text and
  its zero do not fit. A table read outside the table is \<open>None\<close>. C computes in \<^verbatim>\<open>int\<close> and \<^verbatim>\<open>long\<close> (32 bits)
  and stores in the declared width: where the intermediate result may be negative or exceed the width the
  definitions use \<^typ>\<open>int\<close> and one final \<open>word_of_int\<close>.
\<close>

section \<open>Data\<close>

record LPCRTCDateTime =
  dt_year :: u16
  dt_month :: u8
  dt_day :: u8
  dt_hour :: u8
  dt_minute :: u8
  dt_second :: u8
  dt_dayOfWeek :: u8
  dt_unixtime :: u32

text \<open>The registers of the peripheral, each read and written as a 32-bit value.\<close>

record RTC_TIME_T =
  rtc_SECOND :: u32
  rtc_MINUTE :: u32
  rtc_HOUR :: u32
  rtc_DAYOFWEEK :: u32
  rtc_DAYOFMONTH :: u32
  rtc_MONTH :: u32
  rtc_YEAR :: u32

definition daysArray :: "u8 list" where
  "daysArray = [31, 28, 31, 30, 31, 30, 31, 31, 30, 31, 30, 31]"

definition dowArray :: "u8 list" where
  "dowArray = [0, 3, 2, 5, 0, 3, 5, 1, 4, 6, 2, 4]"

text \<open>\<^verbatim>\<open>a[month - 1]\<close>.\<close>

definition at_month :: "u8 list \<Rightarrow> u8 \<Rightarrow> u8 option" where
  "at_month a month = (if month = 0 then None else c_nth a (unat month - 1))"

section \<open>Arithmetic on dates\<close>

definition bcd2dec :: "u8 \<Rightarrow> u8" where
  "bcd2dec bcd = (bcd div 16) * 10 + (bcd mod 16)"

definition dec2bcd :: "u8 \<Rightarrow> u8" where
  "dec2bcd dec = (dec div 10) * 16 + (dec mod 10)"

definition hour12 :: "u8 \<Rightarrow> u8" where
  "hour12 hour24 = (if hour24 = 0 then 12 else if hour24 > 12 then hour24 - 12 else hour24)"

text \<open>The code computes in a signed \<^verbatim>\<open>long\<close> of 32 bits. Its largest value is reached in the year 2068; beyond it the
  overflow is undefined in C and a wrap-around here, as the compiler for the target does it. The result is then
  used as an unsigned number.\<close>

definition time2long :: "u16 \<Rightarrow> u8 \<Rightarrow> u8 \<Rightarrow> u8 \<Rightarrow> u32" where
  "time2long days hours minutes seconds =
     ((ucast days * 24 + ucast hours) * 60 + ucast minutes) * 60 + ucast seconds"

definition isLeapYear :: "u16 \<Rightarrow> bool" where
  "isLeapYear year \<longleftrightarrow> year mod 4 = 0"

definition daysInMonth :: "u16 \<Rightarrow> u8 \<Rightarrow> u8 option" where
  "daysInMonth year month =
     do { days \<leftarrow> at_month daysArray month; Some (if month = 2 \<and> isLeapYear year then days + 1 else days) }"

text \<open>\<^verbatim>\<open>for (i = 1; i < month; ++i) days16 += daysArray[i - 1]\<close>.\<close>

fun add_months :: "nat list \<Rightarrow> u16 \<Rightarrow> u16 option" where
  "add_months [] days16 = Some days16"
| "add_months (i # is) days16 = do { n \<leftarrow> at_month daysArray (of_nat i); add_months is (days16 + ucast n) }"

definition date2days :: "u16 \<Rightarrow> u8 \<Rightarrow> u8 \<Rightarrow> u16 option" where
  "date2days year month day =
     do {
       let year = year - 2000;
       days16 \<leftarrow> add_months [1 ..< unat month] (ucast day);
       let days16 = (if month = 2 \<and> isLeapYear year then days16 + 1 else days16);
       Some (word_of_int (uint days16 + 365 * uint year + (uint year + 3) div 4 - 1))
     }"

definition dayInYear :: "u16 \<Rightarrow> u8 \<Rightarrow> u8 \<Rightarrow> u16 option" where
  "dayInYear year month day =
     do { fromDate \<leftarrow> date2days year 1 1; toDate \<leftarrow> date2days year month day; Some (toDate - fromDate) }"

definition RTC_EPOCH :: u32 where "RTC_EPOCH = 946681200"

definition unixtime :: "LPCRTCDateTime \<Rightarrow> u32 option" where
  "unixtime t =
     do {
       days \<leftarrow> date2days (dt_year t) (dt_month t) (dt_day t);
       Some (time2long days (dt_hour t) (dt_minute t) (dt_second t) + RTC_EPOCH)
     }"

definition dow :: "u16 \<Rightarrow> u8 \<Rightarrow> u8 \<Rightarrow> u8 option" where
  "dow y m d =
     do {
       let y = (if m < 3 then y - 1 else y);
       k \<leftarrow> at_month dowArray m;
       let w = (uint y + uint y div 4 - uint y div 100 + uint y div 400 + uint k + uint d) mod 7;
       Some (if w = 0 then 7 else word_of_int w)
     }"

section \<open>Setting and reading the clock\<close>

text \<open>\<^verbatim>\<open>DS3231_initialize\<close>: the date it stores in its argument.\<close>

definition DS3231_initialize :: LPCRTCDateTime where
  "DS3231_initialize = \<lparr>dt_year = 2000, dt_month = 1, dt_day = 1, dt_hour = 0, dt_minute = 0, dt_second = 0,
     dt_dayOfWeek = 6, dt_unixtime = RTC_EPOCH\<rparr>"

definition lpcrtc_setDateTime :: "u16 \<Rightarrow> u8 \<Rightarrow> u8 \<Rightarrow> u8 \<Rightarrow> u8 \<Rightarrow> u8 \<Rightarrow> RTC_TIME_T option" where
  "lpcrtc_setDateTime year month day hour minute second =
     do {
       w \<leftarrow> dow year month day;
       Some \<lparr>rtc_SECOND = ucast second, rtc_MINUTE = ucast minute, rtc_HOUR = ucast hour, rtc_DAYOFWEEK = ucast w,
             rtc_DAYOFMONTH = ucast day, rtc_MONTH = ucast month, rtc_YEAR = ucast year\<rparr>
     }"

definition lpcrtc_getDateTime :: "RTC_TIME_T \<Rightarrow> LPCRTCDateTime \<Rightarrow> LPCRTCDateTime option" where
  "lpcrtc_getDateTime rtcTime t =
     do {
       let t = t\<lparr>dt_second := ucast (rtc_SECOND rtcTime), dt_minute := ucast (rtc_MINUTE rtcTime),
                 dt_hour := ucast (rtc_HOUR rtcTime), dt_dayOfWeek := ucast (rtc_DAYOFWEEK rtcTime),
                 dt_day := ucast (rtc_DAYOFMONTH rtcTime), dt_month := ucast (rtc_MONTH rtcTime),
                 dt_year := ucast (rtc_YEAR rtcTime)\<rparr>;
       u \<leftarrow> unixtime t;
       Some (t\<lparr>dt_unixtime := u\<rparr>)
     }"

text \<open>The two loops of \<^verbatim>\<open>lpcrtc_setDateTime_word\<close>: the year with its remaining days, then the month.\<close>

definition leap_day :: "u16 \<Rightarrow> u16" where
  "leap_day year = (if year mod 4 = 0 then 1 else 0)"

lemma leap_day_le: "unat (leap_day year) \<le> 1"
  by (simp add: leap_day_def)

lemma unat_year_length: "unat (365 + leap_day year) = 365 + unat (leap_day year)"
  by (simp add: leap_day_def)

function year_loop :: "u16 \<Rightarrow> u16 \<Rightarrow> u16 \<times> u16" where
  "year_loop year days =
     (if days < 365 + leap_day year then (year, days) else year_loop (year + 1) (days - (365 + leap_day year)))"
  by auto
termination
  by (relation "measure (\<lambda>(year, days). unat days)")
    (auto simp: word_nat unat_year_length not_less)

function month_loop :: "bool \<Rightarrow> u8 \<Rightarrow> u16 \<Rightarrow> (u8 \<times> u16) option" where
  "month_loop leap month days =
     (case at_month daysArray month of
        None \<Rightarrow> None
      | Some n \<Rightarrow>
          let daysPerMonth = (if leap \<and> month = 2 then n + 1 else n) in
          if days < ucast daysPerMonth then Some (month, days)
          else month_loop leap (month + 1) (days - ucast daysPerMonth))"
  by auto
termination
proof (relation "measure (\<lambda>(leap, month, days). 13 - unat month)")
  fix leap and month :: u8 and days :: u16 and n x
  assume "at_month daysArray month = Some n"
  then have "unat month < 13" by (auto simp: at_month_def c_nth_def daysArray_def word_nat split: if_splits)
  then have "unat (month + 1) = Suc (unat month)" by (simp add: unat_Suc_small)
  then show "((leap, month + 1, days - ucast x), leap, month, days) \<in> measure (\<lambda>(leap, month, days). 13 - unat month)"
    using \<open>unat month < 13\<close> by simp
qed simp

declare year_loop.simps [simp del] month_loop.simps [simp del]

definition lpcrtc_setDateTime_word :: "u32 \<Rightarrow> RTC_TIME_T option" where
  "lpcrtc_setDateTime_word t =
     do {
       let t = t - RTC_EPOCH;
       let second = ucast (t mod 60);
       let t = t div 60;
       let minute = ucast (t mod 60);
       let t = t div 60;
       let hour = ucast (t mod 24);
       let days = ucast (t div 24);
       let (year, days) = year_loop 0 days;
       (month, days) \<leftarrow> month_loop (year mod 4 = 0) 1 days;
       lpcrtc_setDateTime (year + 2000) month (ucast (days + 1)) hour minute second
     }"

definition code_of :: "char \<Rightarrow> u8" where
  "code_of c = of_char c"

text \<open>\<^verbatim>\<open>conv2d(p)\<close> on the text from \<^verbatim>\<open>p\<close> on.\<close>

definition conv2d :: "string \<Rightarrow> u8 option" where
  "conv2d p =
     do {
       a \<leftarrow> c_nth p 0;
       b \<leftarrow> c_nth p 1;
       let v = (if code_of (CHR ''0'') \<le> code_of a \<and> code_of a \<le> code_of (CHR ''9'') then code_of a - code_of (CHR ''0'') else 0);
       Some (10 * v + code_of b - code_of (CHR ''0''))
     }"

text \<open>With any other first letter the month stays uninitialised; the model fails there.\<close>

definition month_of_name :: "string \<Rightarrow> u8 option" where
  "month_of_name date =
     do {
       c0 \<leftarrow> c_nth date 0; c1 \<leftarrow> c_nth date 1; c2 \<leftarrow> c_nth date 2;
       if c0 = CHR ''J'' then Some (if c1 = CHR ''a'' then 1 else if c2 = CHR ''n'' then 6 else 7)
       else if c0 = CHR ''F'' then Some 2
       else if c0 = CHR ''A'' then Some (if c2 = CHR ''r'' then 4 else 8)
       else if c0 = CHR ''M'' then Some (if c2 = CHR ''r'' then 3 else 5)
       else if c0 = CHR ''S'' then Some 9
       else if c0 = CHR ''O'' then Some 10
       else if c0 = CHR ''N'' then Some 11
       else if c0 = CHR ''D'' then Some 12
       else None
     }"

definition lpcrtc_setDateTime_array :: "string \<Rightarrow> string \<Rightarrow> RTC_TIME_T option" where
  "lpcrtc_setDateTime_array date time =
     do {
       year \<leftarrow> conv2d (drop 9 date);
       month \<leftarrow> month_of_name date;
       day \<leftarrow> conv2d (drop 4 date);
       hour \<leftarrow> conv2d time;
       minute \<leftarrow> conv2d (drop 3 time);
       second \<leftarrow> conv2d (drop 6 time);
       lpcrtc_setDateTime (ucast year + 2000) month day hour minute second
     }"

section \<open>Formatted output\<close>

text \<open>\<^verbatim>\<open>%d\<close> and \<^verbatim>\<open>%02d\<close> of \<^verbatim>\<open>sprintf\<close>.\<close>

definition digit :: "nat \<Rightarrow> char" where
  "digit d = char_of (48 + d)"

fun show_nat :: "nat \<Rightarrow> string" where
  "show_nat n = (if n < 10 then [digit n] else show_nat (n div 10) @ [digit (n mod 10)])"

declare show_nat.simps [simp del]

definition show_int :: "int \<Rightarrow> string" where
  "show_int i = (if i < 0 then CHR ''-'' # show_nat (nat (- i)) else show_nat (nat i))"

definition show_02 :: "int \<Rightarrow> string" where
  "show_02 i = (let s = show_int i in if length s < 2 then CHR ''0'' # s else s)"

definition strDayOfWeek :: "u8 \<Rightarrow> string" where
  "strDayOfWeek dayOfWeek =
     (if dayOfWeek = 1 then ''Monday''
      else if dayOfWeek = 2 then ''Tuesday''
      else if dayOfWeek = 3 then ''Wednesday''
      else if dayOfWeek = 4 then ''Thursday''
      else if dayOfWeek = 5 then ''Friday''
      else if dayOfWeek = 6 then ''Saturday''
      else if dayOfWeek = 7 then ''Sunday''
      else ''Unknown'')"

definition strMonth :: "u8 \<Rightarrow> string" where
  "strMonth month =
     (if month = 1 then ''January''
      else if month = 2 then ''February''
      else if month = 3 then ''March''
      else if month = 4 then ''April''
      else if month = 5 then ''May''
      else if month = 6 then ''June''
      else if month = 7 then ''July''
      else if month = 8 then ''August''
      else if month = 9 then ''September''
      else if month = 10 then ''October''
      else if month = 11 then ''November''
      else if month = 12 then ''December''
      else ''Unknown'')"

definition strAmPm :: "u8 \<Rightarrow> bool \<Rightarrow> string" where
  "strAmPm hour uppercase =
     (if hour < 12 then (if uppercase then ''AM'' else ''am'') else (if uppercase then ''PM'' else ''pm''))"

definition strDaySufix :: "u8 \<Rightarrow> string" where
  "strDaySufix day =
     (if day mod 10 = 1 then ''st'' else if day mod 10 = 2 then ''nd'' else if day mod 10 = 3 then ''rd'' else ''th'')"

text \<open>\<^verbatim>\<open>strcat(buffer, s)\<close> into the static \<^verbatim>\<open>char buffer[255]\<close>.\<close>

definition FORMAT_BUFFER :: nat where "FORMAT_BUFFER = 255"

definition format_cat :: "string \<Rightarrow> string \<Rightarrow> string option" where
  "format_cat buffer s = (if length buffer + length s < FORMAT_BUFFER then Some (buffer @ s) else None)"

text \<open>The text that one character of the format stands for.\<close>

definition format_field :: "LPCRTCDateTime \<Rightarrow> char \<Rightarrow> string option" where
  "format_field dt c =
     (if c = CHR ''d'' then Some (show_02 (uint (dt_day dt)))
      else if c = CHR ''j'' then Some (show_int (uint (dt_day dt)))
      else if c = CHR ''l'' then Some (strDayOfWeek (dt_dayOfWeek dt))
      else if c = CHR ''D'' then Some (take 3 (strDayOfWeek (dt_dayOfWeek dt)))
      else if c = CHR ''N'' then Some (show_int (uint (dt_dayOfWeek dt)))
      else if c = CHR ''w'' then Some (show_int ((uint (dt_dayOfWeek dt) + 7) mod 7))
      else if c = CHR ''z'' then do { n \<leftarrow> dayInYear (dt_year dt) (dt_month dt) (dt_day dt); Some (show_int (uint n)) }
      else if c = CHR ''S'' then Some (strDaySufix (dt_day dt))
      else if c = CHR ''m'' then Some (show_02 (uint (dt_month dt)))
      else if c = CHR ''n'' then Some (show_int (uint (dt_month dt)))
      else if c = CHR ''F'' then Some (strMonth (dt_month dt))
      else if c = CHR ''M'' then Some (take 3 (strMonth (dt_month dt)))
      else if c = CHR ''t'' then do { n \<leftarrow> daysInMonth (dt_year dt) (dt_month dt); Some (show_int (uint n)) }
      else if c = CHR ''Y'' then Some (show_int (uint (dt_year dt)))
      else if c = CHR ''y'' then Some (show_02 (uint (dt_year dt) - 2000))
      else if c = CHR ''L'' then Some (show_int (if isLeapYear (dt_year dt) then 1 else 0))
      else if c = CHR ''H'' then Some (show_02 (uint (dt_hour dt)))
      else if c = CHR ''G'' then Some (show_int (uint (dt_hour dt)))
      else if c = CHR ''h'' then Some (show_02 (uint (hour12 (dt_hour dt))))
      else if c = CHR ''g'' then Some (show_int (uint (hour12 (dt_hour dt))))
      else if c = CHR ''A'' then Some (strAmPm (dt_hour dt) True)
      else if c = CHR ''a'' then Some (strAmPm (dt_hour dt) False)
      else if c = CHR ''i'' then Some (show_02 (uint (dt_minute dt)))
      else if c = CHR ''s'' then Some (show_02 (uint (dt_second dt)))
      else if c = CHR ''U'' then Some (show_int (uint (dt_unixtime dt)))
      else Some [c])"

fun format_loop :: "string \<Rightarrow> LPCRTCDateTime \<Rightarrow> string \<Rightarrow> string option" where
  "format_loop [] dt buffer = Some buffer"
| "format_loop (c # dateFormat) dt buffer =
     do { s \<leftarrow> format_field dt c; buffer \<leftarrow> format_cat buffer s; format_loop dateFormat dt buffer }"

definition lpcrtc_dateFormat :: "string \<Rightarrow> LPCRTCDateTime \<Rightarrow> string option" where
  "lpcrtc_dateFormat dateFormat dt = format_loop dateFormat dt []"

end
