(* ===== verification/Rtc_Facts.thy ===== *)
theory Rtc_Facts
  imports Rtc_Calendar
begin

text \<open>
  The Gregorian calendar as a reference (sums of year and month lengths), the loops of the calendar against
  it, and the properties of the clock: setting from seconds, reading back, the day of the week, the
  compiler's date strings and formatted output.
\<close>

section \<open>The reference calendar\<close>

definition greg_leap :: "nat \<Rightarrow> bool" where
  "greg_leap y \<longleftrightarrow> y mod 4 = 0 \<and> (y mod 100 \<noteq> 0 \<or> y mod 400 = 0)"

definition month_len :: "bool \<Rightarrow> nat \<Rightarrow> nat" where
  "month_len leap m = (if m \<in> {4, 6, 9, 11} then 30 else if m = 2 then (if leap then 29 else 28) else 31)"

text \<open>Days from 1 January 2000 to the given date.\<close>

definition days_of_date :: "nat \<Rightarrow> nat \<Rightarrow> nat \<Rightarrow> nat" where
  "days_of_date y m d =
     (\<Sum>i = 2000..<y. if greg_leap i then 366 else 365) + (\<Sum>i = 1..<m. month_len (greg_leap y) i) + (d - 1)"

definition date_ok :: "nat \<Rightarrow> nat \<Rightarrow> nat \<Rightarrow> bool" where
  "date_ok y m d \<longleftrightarrow> 2000 \<le> y \<and> y \<le> 2099 \<and> 1 \<le> m \<and> m \<le> 12 \<and> 1 \<le> d \<and> d \<le> month_len (greg_leap y) m"

definition seconds_of_date :: "nat \<Rightarrow> nat \<Rightarrow> nat \<Rightarrow> nat \<Rightarrow> nat \<Rightarrow> nat \<Rightarrow> nat" where
  "seconds_of_date y m d h mi s = ((days_of_date y m d * 24 + h) * 60 + mi) * 60 + s"

definition cum :: "bool \<Rightarrow> nat \<Rightarrow> nat" where
  "cum leap m = (\<Sum>i = 1..<m. month_len leap i)"

lemma cum_Suc: "1 \<le> m \<Longrightarrow> cum leap (Suc m) = cum leap m + month_len leap m"
  by (simp add: cum_def)

lemma cum_1 [simp]: "cum leap 1 = 0" "cum leap (Suc 0) = 0"
  by (simp_all add: cum_def)

lemma nat_upto_12: "1 \<le> m \<Longrightarrow> m \<le> 12 \<Longrightarrow> m \<in> {1, 2, 3, 4, 5, 6, 7, 8, 9, 10, 11, 12::nat}"
  by (simp, presburger)

lemma cum_table:
  "cum leap 1 = 0" "cum leap 2 = 31" "cum leap 3 = 59 + of_bool leap" "cum leap 4 = 90 + of_bool leap"
  "cum leap 5 = 120 + of_bool leap" "cum leap 6 = 151 + of_bool leap" "cum leap 7 = 181 + of_bool leap"
  "cum leap 8 = 212 + of_bool leap" "cum leap 9 = 243 + of_bool leap" "cum leap 10 = 273 + of_bool leap"
  "cum leap 11 = 304 + of_bool leap" "cum leap 12 = 334 + of_bool leap" "cum leap 13 = 365 + of_bool leap"
  by (simp_all add: cum_def month_len_def numeral_eq_Suc)

lemma greg_leap_20xx: "n < 100 \<Longrightarrow> greg_leap (2000 + n) \<longleftrightarrow> n mod 4 = 0"
proof -
  assume "n < 100"
  then have "(2000 + n) mod 100 = n" "(2000 + n) mod 400 = n" by (simp_all add: mod_add_eq [symmetric, of 2000 n])
  moreover have "(2000 + n) mod 4 = n mod 4" by presburger
  ultimately show ?thesis by (auto simp: greg_leap_def)
qed

text \<open>Days before year \<open>2000 + n\<close>.\<close>

definition year_days :: "nat \<Rightarrow> nat" where
  "year_days n = 365 * n + (n + 3) div 4"

lemma year_days_Suc: "year_days (Suc n) = year_days n + 365 + of_bool (n mod 4 = 0)"
  unfolding year_days_def by (cases "n mod 4 = 0") (auto, presburger+)

lemma sum_years: "n \<le> 100 \<Longrightarrow> (\<Sum>i = 2000..<2000 + n. if greg_leap i then 366 else 365) = year_days n"
proof (induction n)
  case (Suc n)
  have "{2000..<2000 + Suc n} = insert (2000 + n) {2000..<2000 + n}" by auto
  then show ?case using Suc greg_leap_20xx [of n] by (simp add: year_days_Suc)
qed (simp add: year_days_def)

lemma days_of_date_20xx:
  assumes "n < 100"
  shows "days_of_date (2000 + n) m d = year_days n + cum (n mod 4 = 0) m + (d - 1)"
  using assms by (simp add: days_of_date_def sum_years greg_leap_20xx cum_def)

section \<open>Tables and loops\<close>

lemma at_month_daysArray:
  assumes "1 \<le> m" "m \<le> 12"
  shows "at_month daysArray (of_nat m) = Some (of_nat (month_len False m))"
  using nat_upto_12 [OF assms] by (auto simp: at_month_def daysArray_def c_nth_def month_len_def)

lemma month_len_bounds: "28 \<le> month_len leap m" "month_len leap m \<le> 31"
  by (auto simp: month_len_def)

lemma unat_small16: "n < 65536 \<Longrightarrow> unat (of_nat n :: u16) = n"
  by (simp add: unat_of_nat)

lemma unat_small8: "n < 256 \<Longrightarrow> unat (of_nat n :: u8) = n"
  by (simp add: unat_of_nat)

lemma ucast_8_16: "n < 256 \<Longrightarrow> (ucast (of_nat n :: u8) :: u16) = of_nat n"
  by (metis of_nat_unat unat_small8)

lemma leap_day_of_nat: "n < 65536 \<Longrightarrow> leap_day (of_nat n) = of_bool (n mod 4 = 0)"
proof -
  assume "n < 65536"
  then have "unat (of_nat n mod 4 :: u16) = n mod 4" by (simp add: unat_mod unat_small16)
  then have "(of_nat n mod 4 = (0::u16)) \<longleftrightarrow> n mod 4 = 0" by (metis unat_0 unat_eq_zero)
  then show ?thesis by (simp add: leap_day_def)
qed

lemma year_loop_run:
  assumes "year_days n + d < 65536"
  shows "\<exists>n' d'. year_loop (of_nat n) (of_nat d) = (of_nat n', of_nat d') \<and> year_days n + d = year_days n' + d' \<and>
     d' < 365 + of_bool (n' mod 4 = 0) \<and> n \<le> n'"
  using assms
proof (induction d arbitrary: n rule: less_induct)
  case (less d)
  have n: "n < 65536" "d < 65536" using less.prems by (auto simp: year_days_def)
  have "unat (365 + leap_day (of_nat n)) = 365 + of_bool (n mod 4 = 0)"
    using n(1) by (simp add: unat_year_length leap_day_of_nat)
  moreover have "365 + leap_day (of_nat n) = of_nat (365 + of_bool (n mod 4 = 0))" using n(1) by (simp add: leap_day_of_nat)
  ultimately have c: "(of_nat d < 365 + leap_day (of_nat n)) = (d < 365 + of_bool (n mod 4 = 0))"
    using n(2) by (simp add: word_less_nat_alt unat_small16)
  show ?case
  proof (cases "d < 365 + of_bool (n mod 4 = 0)")
    case True
    then show ?thesis using c by (subst year_loop.simps) auto
  next
    case False
    let ?l = "365 + of_bool (n mod 4 = 0) :: nat"
    have "(of_nat d :: u16) - (365 + leap_day (of_nat n)) = of_nat (d - ?l)"
      using False n(1) by (simp add: leap_day_of_nat of_nat_diff)
    then have "year_loop (of_nat n) (of_nat d) = year_loop (of_nat (Suc n)) (of_nat (d - ?l))"
      using c False by (subst year_loop.simps) (simp add: add.commute)
    moreover have "year_days (Suc n) + (d - ?l) = year_days n + d" using False by (simp add: year_days_Suc)
    moreover have "d - ?l < d" using False by simp
    ultimately show ?thesis using less.IH [of "d - ?l" "Suc n"] less.prems by fastforce
  qed
qed

lemma month_loop_run:
  assumes "1 \<le> m" "m \<le> 12" "cum leap m + d < 365 + of_bool leap"
  shows "\<exists>m' d'. month_loop leap (of_nat m) (of_nat d) = Some (of_nat m', of_nat d') \<and> cum leap m + d = cum leap m' + d' \<and>
     d' < month_len leap m' \<and> m \<le> m' \<and> m' \<le> 12"
  using assms
proof (induction "12 - m" arbitrary: m d rule: less_induct)
  case less
  let ?l = "month_len leap m"
  have len: "(if leap \<and> (of_nat m :: u8) = 2 then of_nat (month_len False m) + 1 else of_nat (month_len False m)) = (of_nat ?l :: u8)"
  proof -
    have "((of_nat m :: u8) = 2) = (m = 2)"
      using less.prems(2) by (simp add: word_unat_eq_iff unat_small8)
    then show ?thesis by (auto simp: month_len_def)
  qed
  have u: "(ucast (of_nat ?l :: u8) :: u16) = of_nat ?l" using month_len_bounds(2) [of leap m] by (simp add: ucast_8_16)
  have d: "d < 65536" using less.prems(3) by (cases leap) auto
  have "unat (of_nat ?l :: u16) = ?l" using month_len_bounds(2) [of leap m] by (simp add: unat_small16)
  then have c: "((of_nat d :: u16) < of_nat ?l) = (d < ?l)" using d by (simp add: word_less_nat_alt unat_small16)
  have step: "month_loop leap (of_nat m) (of_nat d) =
      (if d < ?l then Some (of_nat m, of_nat d) else month_loop leap (of_nat (Suc m)) (of_nat d - of_nat ?l))"
    by (subst month_loop.simps) (simp add: at_month_daysArray [OF less.prems(1,2)] Let_def len u c add.commute)
  show ?case
  proof (cases "d < ?l")
    case True
    then show ?thesis using less.prems step by auto
  next
    case False
    have "m \<noteq> 12" using False less.prems(3) cum_table(12) [of leap] by (auto simp: month_len_def)
    then have m: "Suc m \<le> 12" "12 - Suc m < 12 - m" using less.prems(2) by auto
    have cum: "cum leap (Suc m) + (d - ?l) = cum leap m + d" using False cum_Suc [OF less.prems(1), of leap] by simp
    have "(of_nat d :: u16) - of_nat ?l = of_nat (d - ?l)" using False by (simp add: of_nat_diff)
    then have "month_loop leap (of_nat m) (of_nat d) = month_loop leap (of_nat (Suc m)) (of_nat (d - ?l))"
      using step False by simp
    then show ?thesis using less.hyps [OF m(2) _ m(1), of "d - ?l"] less.prems(3) cum by (metis Suc_leD le_SucI le_add1 plus_1_eq_Suc)
  qed
qed

section \<open>Dates to days\<close>

lemma add_months_sum:
  "1 \<le> k \<Longrightarrow> m \<le> 13 \<Longrightarrow> add_months [k..<m] v = Some (v + of_nat (\<Sum>i = k..<m. month_len False i))"
proof (induction "m - k" arbitrary: k v)
  case (Suc x)
  then have k: "k < m" "k \<le> 12" by auto
  have "(ucast (of_nat (month_len False k) :: u8) :: u16) = of_nat (month_len False k)"
    using month_len_bounds(2) [of False k] by (simp add: ucast_8_16)
  then show ?case using Suc.hyps(1) [of "Suc k"] Suc.hyps(2) Suc.prems k
    by (simp add: upt_conv_Cons at_month_daysArray sum.atLeast_Suc_lessThan)
qed simp

lemma cum_leap: "m \<le> 13 \<Longrightarrow> cum leap m = cum False m + of_bool (leap \<and> 2 < m)"
proof (induction m)
  case (Suc m)
  then show ?case by (cases "1 \<le> m") (auto simp: cum_Suc month_len_def cum_def)
qed (simp add: cum_def)

lemma cum_bound: "m \<le> 13 \<Longrightarrow> cum leap m \<le> 366"
proof -
  assume "m \<le> 13"
  then have "cum leap m \<le> cum leap 13" unfolding cum_def by (intro sum_mono2) auto
  then show ?thesis by (cases leap) (simp_all add: cum_table)
qed

lemma year_days_bound: "n < 100 \<Longrightarrow> year_days n \<le> 36160"
  by (auto simp: year_days_def)

lemma of_nat_eq_small: "n < 256 \<Longrightarrow> k < 256 \<Longrightarrow> ((of_nat n :: u8) = of_nat k) = (n = k)"
  by (simp add: word_unat_eq_iff unat_small8)

lemma isLeapYear_of_nat: "n < 65536 \<Longrightarrow> isLeapYear (of_nat n) = (n mod 4 = 0)"
  using leap_day_of_nat [of n] by (auto simp: isLeapYear_def leap_day_def split: if_splits)

lemma date2days_of_nat:
  assumes "n < 100" "1 \<le> m" "m \<le> 12" "1 \<le> d" "d \<le> 31"
  shows "date2days (of_nat (2000 + n)) (of_nat m) (of_nat d) =
     Some (of_nat (year_days n + cum False m + of_bool (m = 2 \<and> n mod 4 = 0) + (d - 1)))"
proof -
  have y: "(of_nat (2000 + n) :: u16) - 2000 = of_nat n" by simp
  have um: "unat (of_nat m :: u8) = m" using assms(3) by (simp add: unat_small8)
  have a: "add_months [1..<m] (ucast (of_nat d :: u8)) = Some (of_nat (d + cum False m))"
    using assms by (simp add: add_months_sum ucast_8_16 cum_def)
  have m2: "((of_nat m :: u8) = 2) = (m = 2)" using of_nat_eq_small [of m 2] assms(3) by simp
  let ?k = "d + cum False m + of_bool (m = 2 \<and> n mod 4 = 0)"
  have "?k < 65536" using cum_bound [of m False] assms(3,5) by (cases "m = 2 \<and> n mod 4 = 0") auto
  then have k: "uint (of_nat ?k :: u16) = int ?k" by (simp only: uint_nat unat_small16)
  have un: "uint (of_nat n :: u16) = int n" using assms(1) by (simp add: uint_nat unat_small16)
  have l: "isLeapYear (of_nat n) = (n mod 4 = 0)" using assms(1) by (simp add: isLeapYear_of_nat)
  have "date2days (of_nat (2000 + n)) (of_nat m) (of_nat d) = Some (word_of_int (uint (of_nat ?k :: u16) + 365 * int n + (int n + 3) div 4 - 1))"
    unfolding date2days_def Let_def y um a m2 l un by (simp add: un)
  also have "uint (of_nat ?k :: u16) + 365 * int n + (int n + 3) div 4 - 1 = int (year_days n + cum False m + of_bool (m = 2 \<and> n mod 4 = 0) + (d - 1))"
    unfolding k year_days_def using assms(4) by (simp add: of_nat_diff zdiv_int)
  finally show ?thesis by simp
qed

text \<open>Against the calendar: one day too many in February of a leap year, one too few after it.\<close>

lemma date2days_calendar:
  assumes "date_ok y m d"
  shows "\<exists>k. date2days (of_nat y) (of_nat m) (of_nat d) = Some (of_nat k) \<and> k < 65536 \<and>
     k + of_bool (greg_leap y \<and> 2 < m) = days_of_date y m d + of_bool (greg_leap y \<and> m = 2)"
proof -
  define n where "n = y - 2000"
  have y: "y = 2000 + n" "n < 100" using assms by (auto simp: n_def date_ok_def)
  have md: "1 \<le> m" "m \<le> 12" "1 \<le> d" "d \<le> 31"
    using assms month_len_bounds(2) [of "greg_leap y" m] by (auto simp: date_ok_def)
  let ?k = "year_days n + cum False m + of_bool (m = 2 \<and> n mod 4 = 0) + (d - 1)"
  have "?k < 65536" using year_days_bound [OF y(2)] cum_bound [of m False] md by (cases "m = 2 \<and> n mod 4 = 0") auto
  moreover have "?k + of_bool (greg_leap y \<and> 2 < m) = days_of_date y m d + of_bool (greg_leap y \<and> m = 2)"
    using md(2) cum_leap [of m "n mod 4 = 0"] by (simp add: y(1) days_of_date_20xx [OF y(2)] greg_leap_20xx [OF y(2)] conj_commute)
  ultimately show ?thesis using date2days_of_nat [OF y(2) md] unfolding y(1) by blast
qed

section \<open>The day of the week\<close>

lemma dow_mod: "(if E mod 7 = 0 then 7 else E mod 7) = (E - 1) mod 7 + 1" for E :: int
  by presburger

lemma at_month_dowArray:
  assumes "1 \<le> m" "m \<le> 12"
  shows "at_month dowArray (of_nat m) = Some (of_nat ([0, 3, 2, 5, 0, 3, 5, 1, 4, 6, 2, 4] ! (m - 1)))"
  using nat_upto_12 [OF assms] by (auto simp: at_month_def dowArray_def c_nth_def)

lemma year_quarter: "(n + 3) div 4 + of_bool (n mod 4 = 0) = n div 4 + (1::nat)"
  by (cases "n mod 4 = 0") (auto, presburger+)

lemma dow_shift:
  assumes "1 \<le> m" "m \<le> 12" "1 \<le> d" "k = [0, 3, 2, 5, 0, 3, 5, 1, 4, 6, 2, 4] ! (m - 1)"
    "y' = (if m < 3 then 1999 + n else 2000 + n)"
  shows "\<exists>c. year_days n + cum (n mod 4 = 0) m + (d - 1) + 5 + 7 * c = y' + y' div 4 + k + d - 16 + 7 * (52 * n)"
proof -
  have q: "(1999 + n) div 4 = 499 + (n + 3) div 4" "(2000 + n) div 4 = 500 + n div 4" by presburger+
  let ?c = "(2478 + of_bool (2 < m) + k - cum False m) div 7"
  have "year_days n + cum (n mod 4 = 0) m + (d - 1) + 5 + 7 * ?c = y' + y' div 4 + k + d - 16 + 7 * (52 * n)"
    using nat_upto_12 [OF assms(1,2)] year_quarter [of n] assms(3) unfolding insert_iff empty_iff
    by (elim disjE) (simp_all add: assms(4,5) q cum_table year_days_def)
  then show ?thesis by blast
qed

lemma century_shift: "1999 \<le> y \<Longrightarrow> y \<le> 2099 \<Longrightarrow> y div 100 = y div 400 + (15::nat)"
proof (cases "y = 1999")
  case False
  assume "1999 \<le> y" "y \<le> 2099"
  then have "y div 100 = 20" "y div 400 = 5" using False by (intro div_nat_eqI; simp)+
  then show ?thesis by simp
qed simp

lemma dow_calendar:
  assumes "date_ok y m d"
  shows "dow (of_nat y) (of_nat m) (of_nat d) = Some (of_nat ((days_of_date y m d + 5) mod 7 + 1))"
proof -
  define n where "n = y - 2000"
  have y: "y = 2000 + n" "n < 100" using assms by (auto simp: n_def date_ok_def)
  have md: "1 \<le> m" "m \<le> 12" "1 \<le> d" "d \<le> 31"
    using assms month_len_bounds(2) [of "greg_leap y" m] by (auto simp: date_ok_def)
  define y' where "y' = (if m < 3 then 1999 + n else 2000 + n)"
  define k :: nat where "k = [0, 3, 2, 5, 0, 3, 5, 1, 4, 6, 2, 4] ! (m - 1)"
  have "k \<le> 6" using nat_upto_12 [OF md(1,2)] by (auto simp: k_def)
  have lt: "((of_nat m :: u8) < 3) = (m < 3)" using md(2) by (simp add: word_less_nat_alt unat_small8)
  have yw: "(if (of_nat m :: u8) < 3 then of_nat y - 1 else of_nat y) = (of_nat y' :: u16)"
    by (simp add: lt y'_def y(1))
  have uy: "uint (of_nat y' :: u16) = int y'" using y(2) by (simp add: y'_def uint_nat unat_small16)
  have uk: "uint (of_nat k :: u8) = int k" using \<open>k \<le> 6\<close> by (simp add: uint_nat unat_small8)
  have ud: "uint (of_nat d :: u8) = int d" using md(4) by (simp add: uint_nat unat_small8)
  let ?E = "int y' + int y' div 4 - int y' div 100 + int y' div 400 + int k + int d"
  have "y' div 100 = y' div 400 + 15" using century_shift [of y'] y(2) by (simp add: y'_def)
  then have "int y' div 100 = int y' div 400 + 15" by (metis of_nat_add of_nat_numeral zdiv_int)
  then have E: "?E = int (y' + y' div 4 + k + d) - 15" by (simp add: zdiv_int)
  have X: "(?E - 1) mod 7 = int ((days_of_date y m d + 5) mod 7)"
  proof -
    have "\<exists>c. days_of_date y m d + 5 + 7 * c = y' + y' div 4 + k + d - 16 + 7 * (52 * n)"
      unfolding y(1) days_of_date_20xx [OF y(2)] by (rule dow_shift [OF md(1-3) k_def y'_def])
    then have "(days_of_date y m d + 5) mod 7 = (y' + y' div 4 + k + d - 16) mod 7" by (metis mod_mult_self2)
    then show ?thesis unfolding E by (simp add: y'_def of_nat_diff zmod_int)
  qed
  have "dow (of_nat y) (of_nat m) (of_nat d) = Some (if ?E mod 7 = 0 then 7 else word_of_int (?E mod 7))"
    unfolding dow_def yw at_month_dowArray [OF md(1,2), folded k_def] Let_def by (simp add: uy uk ud)
  also have "(if ?E mod 7 = 0 then 7 else word_of_int (?E mod 7)) = (word_of_int (if ?E mod 7 = 0 then 7 else ?E mod 7) :: u8)"
    by simp
  also have "\<dots> = of_nat ((days_of_date y m d + 5) mod 7 + 1)"
    unfolding dow_mod X by simp
  finally show ?thesis .
qed

end
