(* ===== verification/Rtc_Props.thy ===== *)
theory Rtc_Props
  imports Rtc_Facts
begin

text \<open>
  The properties of the clock: every second from 2000 to 2099 is turned into the right calendar date and
  weekday, reading the clock back and where that is a day off, the strings of the compiler, and formatted
  output with its buffer.
\<close>

section \<open>Words and numbers\<close>

lemma ucast_of_nat:
  "n < 2 ^ LENGTH('a) \<Longrightarrow> (ucast (of_nat n :: 'a::len word) :: 'b::len word) = of_nat n"
proof -
  assume "n < 2 ^ LENGTH('a)"
  then have "unat (of_nat n :: 'a word) = n" by (simp add: unat_of_nat)
  then show ?thesis by (metis of_nat_unat)
qed

lemma div_mod_of_nat:
  "n < 4294967296 \<Longrightarrow> k < 4294967296 \<Longrightarrow> (of_nat n :: u32) div of_nat k = of_nat (n div k)"
  "n < 4294967296 \<Longrightarrow> k < 4294967296 \<Longrightarrow> (of_nat n :: u32) mod of_nat k = of_nat (n mod k)"
proof -
  have u: "j < 4294967296 \<Longrightarrow> unat (of_nat j :: u32) = j" for j by (simp add: unat_of_nat)
  assume nk: "n < 4294967296" "k < 4294967296"
  have "n div k < 4294967296" "n mod k < 4294967296"
    using nk(1) div_le_dividend [of n k] mod_less_eq_dividend [of n k] by linarith+
  then show "(of_nat n :: u32) div of_nat k = of_nat (n div k)" "(of_nat n :: u32) mod of_nat k = of_nat (n mod k)"
    using nk by (simp_all add: word_unat_eq_iff unat_div unat_mod u)
qed

section \<open>Setting the clock\<close>

lemma year_days_mono: "m \<le> n \<Longrightarrow> year_days m \<le> year_days n"
  by (auto simp: year_days_def intro!: add_mono div_le_mono)

text \<open>The two loops on a number of days before the year 2100.\<close>

lemma loops_date:
  assumes "D < 36525"
  shows "\<exists>y m d. date_ok y m d \<and> days_of_date y m d = D \<and>
     (let (year, days) = year_loop 0 (of_nat D) in
      do { (month, days) \<leftarrow> month_loop (year mod 4 = 0) 1 days; Some (year + 2000, month, ucast (days + 1)) })
     = Some (of_nat y, of_nat m, of_nat d :: u8)"
proof -
  obtain n d where n: "year_loop 0 (of_nat D) = (of_nat n, of_nat d)" "D = year_days n + d" "d < 365 + of_bool (n mod 4 = 0)"
    using year_loop_run [of 0 D] assms by (auto simp: year_days_def)
  have "n < 100"
  proof (rule ccontr)
    assume "\<not> n < 100"
    then have "year_days 100 \<le> year_days n" by (intro year_days_mono) simp
    then show False using n(2) assms by (simp add: year_days_def)
  qed
  have leap: "((of_nat n :: u16) mod 4 = 0) = (n mod 4 = 0)"
    using isLeapYear_of_nat [of n] \<open>n < 100\<close> by (simp add: isLeapYear_def)
  obtain m r where m: "month_loop (n mod 4 = 0) 1 (of_nat d) = Some (of_nat m, of_nat r)"
      "d = cum (n mod 4 = 0) m + r" "r < month_len (n mod 4 = 0) m" "1 \<le> m" "m \<le> 12"
    using month_loop_run [of 1 "n mod 4 = 0" d] n(3) by auto
  have r: "Suc r < 65536" using m(3) month_len_bounds(2) [of "n mod 4 = 0" m] by simp
  have "of_nat r + 1 = (of_nat (Suc r) :: u16)" by simp
  moreover have "(ucast (of_nat (Suc r) :: u16) :: u8) = of_nat (Suc r)" using r by (intro ucast_of_nat) simp
  ultimately have "(ucast (of_nat r + 1 :: u16) :: u8) = of_nat (Suc r)" by metis
  then have "(let (year, days) = year_loop 0 (of_nat D) in
      do { (month, days) \<leftarrow> month_loop (year mod 4 = 0) 1 days; Some (year + 2000, month, ucast (days + 1)) })
     = Some (of_nat (2000 + n), of_nat m, of_nat (Suc r) :: u8)"
    by (simp add: n(1) leap m(1) add.commute)
  moreover have "date_ok (2000 + n) m (Suc r)"
    using \<open>n < 100\<close> m by (simp add: date_ok_def greg_leap_20xx)
  moreover have "days_of_date (2000 + n) m (Suc r) = D"
    using days_of_date_20xx [OF \<open>n < 100\<close>, of m "Suc r"] n(2) m(2) by simp
  ultimately show ?thesis by blast
qed

definition rtc_range :: "u32 \<Rightarrow> bool" where
  "rtc_range t \<longleftrightarrow> unat (t - RTC_EPOCH) < 36525 * 86400"

lemma set_word_date:
  assumes "rtc_range t"
  shows "\<exists>y m d h mi s. date_ok y m d \<and> h < 24 \<and> mi < 60 \<and> s < 60 \<and>
     seconds_of_date y m d h mi s = unat (t - RTC_EPOCH) \<and>
     lpcrtc_setDateTime_word t = lpcrtc_setDateTime (of_nat y) (of_nat m) (of_nat d) (of_nat h) (of_nat mi) (of_nat s)"
proof -
  define N where "N = unat (t - RTC_EPOCH)"
  have t: "t - RTC_EPOCH = of_nat N" by (simp add: N_def)
  have N: "N < 36525 * 86400" using assms by (simp add: rtc_range_def N_def)
  let ?D = "N div 60 div 60 div 24"
  have "?D < 36525" using N by (simp add: div_mult2_eq [symmetric] less_mult_imp_div_less)
  then obtain y m d where ymd: "date_ok y m d" "days_of_date y m d = ?D"
      "(let (year, days) = year_loop 0 (of_nat ?D) in
        do { (month, days) \<leftarrow> month_loop (year mod 4 = 0) 1 days; Some (year + 2000, month, ucast (days + 1)) })
       = Some (of_nat y, of_nat m, of_nat d :: u8)"
    using loops_date by blast
  have small: "N < 4294967296" "N div 60 < 4294967296" "N div 60 div 60 < 4294967296" "?D < 4294967296"
    using N by (simp_all add: div_mult2_eq [symmetric] less_mult_imp_div_less)
  have s: "(ucast ((of_nat N :: u32) mod 60) :: u8) = of_nat (N mod 60)"
    using div_mod_of_nat(2) [of N 60] small(1) ucast_of_nat [where 'a = 32 and 'b = 8, of "N mod 60"] by simp
  have t1: "(of_nat N :: u32) div 60 = of_nat (N div 60)" using div_mod_of_nat(1) [of N 60] small(1) by simp
  have mi: "(ucast ((of_nat (N div 60) :: u32) mod 60) :: u8) = of_nat (N div 60 mod 60)"
    using div_mod_of_nat(2) [of "N div 60" 60] small(2) ucast_of_nat [where 'a = 32 and 'b = 8, of "N div 60 mod 60"] by simp
  have t2: "(of_nat (N div 60) :: u32) div 60 = of_nat (N div 60 div 60)"
    using div_mod_of_nat(1) [of "N div 60" 60] small(2) by simp
  have h: "(ucast ((of_nat (N div 60 div 60) :: u32) mod 24) :: u8) = of_nat (N div 60 div 60 mod 24)"
    using div_mod_of_nat(2) [of "N div 60 div 60" 24] small(3) ucast_of_nat [where 'a = 32 and 'b = 8, of "N div 60 div 60 mod 24"] by simp
  have D: "(ucast ((of_nat (N div 60 div 60) :: u32) div 24) :: u16) = of_nat ?D"
    using div_mod_of_nat(1) [of "N div 60 div 60" 24] small(3,4) ucast_of_nat [where 'a = 32 and 'b = 16, of ?D] by simp
  have "lpcrtc_setDateTime_word t = lpcrtc_setDateTime (of_nat y) (of_nat m) (of_nat d)
      (of_nat (N div 60 div 60 mod 24)) (of_nat (N div 60 mod 60)) (of_nat (N mod 60))"
    using ymd(3) unfolding lpcrtc_setDateTime_word_def Let_def t s t1 mi t2 h D
    by (auto split: prod.splits Option.bind_splits)
  moreover have "seconds_of_date y m d (N div 60 div 60 mod 24) (N div 60 mod 60) (N mod 60) = N"
    unfolding seconds_of_date_def ymd(2) by (simp add: div_mult_mod_eq)
  ultimately show ?thesis using ymd(1) unfolding N_def [symmetric] by (metis mod_less_divisor zero_less_numeral)
qed

text \<open>What the registers get.\<close>

definition rtc_value :: "nat \<Rightarrow> nat \<Rightarrow> nat \<Rightarrow> nat \<Rightarrow> nat \<Rightarrow> nat \<Rightarrow> RTC_TIME_T" where
  "rtc_value y m d h mi s =
     \<lparr>rtc_SECOND = of_nat s, rtc_MINUTE = of_nat mi, rtc_HOUR = of_nat h,
      rtc_DAYOFWEEK = of_nat ((days_of_date y m d + 5) mod 7 + 1),
      rtc_DAYOFMONTH = of_nat d, rtc_MONTH = of_nat m, rtc_YEAR = of_nat y\<rparr>"

lemma date_ok_small: "date_ok y m d \<Longrightarrow> y < 65536 \<and> m < 256 \<and> d < 256"
  using month_len_bounds(2) [of "greg_leap y" m] by (auto simp: date_ok_def)

lemma setDateTime_value:
  assumes "date_ok y m d" "h < 24" "mi < 60" "s < 60"
  shows "lpcrtc_setDateTime (of_nat y) (of_nat m) (of_nat d) (of_nat h) (of_nat mi) (of_nat s) = Some (rtc_value y m d h mi s)"
proof -
  have "(days_of_date y m d + 5) mod 7 + 1 < 256"
    using mod_less_divisor [of 7 "days_of_date y m d + 5"] by linarith
  then have w: "(ucast (of_nat ((days_of_date y m d + 5) mod 7 + 1) :: u8) :: u32) = of_nat ((days_of_date y m d + 5) mod 7 + 1)"
    by (intro ucast_of_nat) simp
  show ?thesis using assms(2-4) date_ok_small [OF assms(1)]
    by (simp only: lpcrtc_setDateTime_def dow_calendar [OF assms(1)] w bind.bind_lunit)
      (simp add: rtc_value_def ucast_of_nat)
qed

text \<open>C16. Setting the clock from a number of seconds. For every 32-bit value that lies at most 100 years
  after the code's epoch, \<^verbatim>\<open>lpcrtc_setDateTime_word\<close> terminates, stays inside its tables and writes the date
  of the Gregorian calendar whose distance from 1 January 2000, 0:00:00 is exactly that number of seconds,
  with every field in its range and the right day of the week (1 for Monday to 7 for Sunday).\<close>

theorem rtc_set_word_correct:
  assumes "rtc_range t"
  shows "\<exists>r y m d h mi s. lpcrtc_setDateTime_word t = Some r \<and> r = rtc_value y m d h mi s \<and>
     date_ok y m d \<and> h < 24 \<and> mi < 60 \<and> s < 60 \<and> seconds_of_date y m d h mi s = unat (t - RTC_EPOCH)"
  using set_word_date [OF assms] setDateTime_value by metis

text \<open>29 February 2024, 12:00:00, a Thursday.\<close>

theorem rtc_set_word_correct_witness:
  "\<exists>r y m d h mi s. lpcrtc_setDateTime_word 1709204400 = Some r \<and> r = rtc_value y m d h mi s \<and>
     date_ok y m d \<and> h < 24 \<and> mi < 60 \<and> s < 60 \<and> seconds_of_date y m d h mi s = 762523200"
  using rtc_set_word_correct [of 1709204400] by (simp add: rtc_range_def RTC_EPOCH_def)

section \<open>Reading the clock\<close>

lemma time2long_of_nat:
  assumes "k < 65536" "h < 24" "mi < 60" "s < 60"
  shows "time2long (of_nat k) (of_nat h) (of_nat mi) (of_nat s) = of_nat (((k * 24 + h) * 60 + mi) * 60 + s)"
  using assms by (simp add: time2long_def ucast_of_nat)

text \<open>How far the seconds computed from a date are off.\<close>

definition leap_error :: "u16 \<Rightarrow> u8 \<Rightarrow> u32" where
  "leap_error year month =
     (if greg_leap (unat year) then if month = 2 then 86400 else if month > 2 then - 86400 else 0 else 0)"

lemma day_shift:
  "k + b = D + a \<Longrightarrow> ((k * 24 + h) * 60 + mi) * 60 + s + e = ((D * 24 + h) * 60 + mi) * 60 + s + e + (a * 86400 - b * 86400)"
  for k b D a h mi s e :: u32
proof -
  assume "k + b = D + a"
  then have "(k + b) * 86400 = (D + a) * 86400" by (simp only:)
  then show ?thesis by (simp add: algebra_simps)
qed

lemma unixtime_value:
  assumes "date_ok y m d" "h < 24" "mi < 60" "s < 60"
    "dt_year t = of_nat y" "dt_month t = of_nat m" "dt_day t = of_nat d" "dt_hour t = of_nat h" "dt_minute t = of_nat mi"
    "dt_second t = of_nat s"
  shows "unixtime t = Some (of_nat (seconds_of_date y m d h mi s) + RTC_EPOCH + leap_error (of_nat y) (of_nat m))"
proof -
  obtain k where k: "date2days (of_nat y) (of_nat m) (of_nat d) = Some (of_nat k)" "k < 65536"
      "k + of_bool (greg_leap y \<and> 2 < m) = days_of_date y m d + of_bool (greg_leap y \<and> m = 2)"
    using date2days_calendar [OF assms(1)] by blast
  have sm: "y < 65536" "m < 256" using date_ok_small [OF assms(1)] by auto
  have le: "leap_error (of_nat y) (of_nat m) = of_bool (greg_leap y \<and> m = 2) * 86400 - of_bool (greg_leap y \<and> 2 < m) * 86400"
    using sm by (auto simp: leap_error_def unat_small16 unat_small8 word_unat_eq_iff [of "of_nat m"] word_less_nat_alt)
  have "(of_nat (k + of_bool (greg_leap y \<and> 2 < m)) :: u32) = of_nat (days_of_date y m d + of_bool (greg_leap y \<and> m = 2))"
    using k(3) by simp
  then have "(of_nat k :: u32) + of_bool (greg_leap y \<and> 2 < m) = of_nat (days_of_date y m d) + of_bool (greg_leap y \<and> m = 2)"
    by (simp only: of_nat_add of_nat_of_bool)
  from day_shift [OF this, of "of_nat h" "of_nat mi" "of_nat s" RTC_EPOCH]
  have "(of_nat (((k * 24 + h) * 60 + mi) * 60 + s) :: u32) + RTC_EPOCH = of_nat (seconds_of_date y m d h mi s) + RTC_EPOCH +
      (of_bool (greg_leap y \<and> m = 2) * 86400 - of_bool (greg_leap y \<and> 2 < m) * 86400)"
    unfolding seconds_of_date_def by (simp only: of_nat_add of_nat_mult of_nat_numeral)
  then show ?thesis
    using time2long_of_nat [OF k(2) assms(2-4)] by (simp only: unixtime_def assms(5-) k(1) le bind.bind_lunit)
qed

lemma getDateTime_value:
  assumes "date_ok y m d" "h < 24" "mi < 60" "s < 60"
  shows "\<exists>t'. lpcrtc_getDateTime (rtc_value y m d h mi s) t0 = Some t' \<and>
     dt_unixtime t' = of_nat (seconds_of_date y m d h mi s) + RTC_EPOCH + leap_error (of_nat y) (of_nat m) \<and>
     dt_year t' = of_nat y \<and> dt_month t' = of_nat m"
proof -
  have v: "ucast (rtc_YEAR (rtc_value y m d h mi s)) = (of_nat y :: u16)" "ucast (rtc_MONTH (rtc_value y m d h mi s)) = (of_nat m :: u8)"
    "ucast (rtc_DAYOFMONTH (rtc_value y m d h mi s)) = (of_nat d :: u8)" "ucast (rtc_HOUR (rtc_value y m d h mi s)) = (of_nat h :: u8)"
    "ucast (rtc_MINUTE (rtc_value y m d h mi s)) = (of_nat mi :: u8)" "ucast (rtc_SECOND (rtc_value y m d h mi s)) = (of_nat s :: u8)"
    using date_ok_small [OF assms(1)] assms(2-4) by (simp_all add: rtc_value_def ucast_of_nat)
  show ?thesis
    unfolding lpcrtc_getDateTime_def Let_def v using unixtime_value [OF assms] by simp
qed

text \<open>C17. Setting the clock from seconds and reading it back while the registers still hold what was written
  gives the same number of seconds, except in leap years: there the result is one day too large in February
  and one day too small from March to December.\<close>

theorem rtc_unixtime_roundtrip:
  assumes "rtc_range t"
  shows "\<exists>r t'. lpcrtc_setDateTime_word t = Some r \<and> lpcrtc_getDateTime r t0 = Some t' \<and>
     dt_unixtime t' = t + leap_error (dt_year t') (dt_month t')"
proof -
  obtain y m d h mi s where v: "date_ok y m d" "h < 24" "mi < 60" "s < 60"
      "seconds_of_date y m d h mi s = unat (t - RTC_EPOCH)"
      "lpcrtc_setDateTime_word t = Some (rtc_value y m d h mi s)"
    using set_word_date [OF assms] setDateTime_value by metis
  have "t = of_nat (seconds_of_date y m d h mi s) + RTC_EPOCH" using v(5) by simp
  then show ?thesis using getDateTime_value [OF v(1-4), of t0] v(6) by auto
qed

theorem rtc_unixtime_roundtrip_witness:
  "\<exists>r t'. lpcrtc_setDateTime_word 1709204400 = Some r \<and> lpcrtc_getDateTime r DS3231_initialize = Some t' \<and>
     dt_unixtime t' = 1709204400 + leap_error (dt_year t') (dt_month t')"
  using rtc_unixtime_roundtrip [of 1709204400] by (simp add: rtc_range_def RTC_EPOCH_def)

section \<open>The strings of the compiler\<close>

text \<open>\<^verbatim>\<open>__DATE__\<close> and \<^verbatim>\<open>__TIME__\<close> as the C standard defines them: \<^verbatim>\<open>Mmm dd yyyy\<close>, a day below ten with a blank in
  place of the first digit, and \<^verbatim>\<open>hh:mm:ss\<close>.\<close>

definition two :: "nat \<Rightarrow> string" where
  "two n = [digit (n div 10), digit (n mod 10)]"

definition date_macro :: "nat \<Rightarrow> nat \<Rightarrow> nat \<Rightarrow> string" where
  "date_macro y m d =
     [''Jan'', ''Feb'', ''Mar'', ''Apr'', ''May'', ''Jun'', ''Jul'', ''Aug'', ''Sep'', ''Oct'', ''Nov'', ''Dec''] ! (m - 1)
     @ '' '' @ (if d < 10 then [CHR '' '', digit d] else two d) @ '' '' @ two (y div 100) @ two (y mod 100)"

definition time_macro :: "nat \<Rightarrow> nat \<Rightarrow> nat \<Rightarrow> string" where
  "time_macro h mi s = two h @ '':'' @ two mi @ '':'' @ two s"

lemma digit_chars: "digit 0 = CHR ''0''" "digit (Suc 0) = CHR ''1''" "digit 2 = CHR ''2''"
  by (simp_all add: digit_def char_of_def bit_0)

lemma code_of_digit: "d < 10 \<Longrightarrow> code_of (digit d) = 48 + of_nat d"
proof -
  assume "d < 10"
  then have "of_char (digit d) = (48 + d :: nat)" by (simp add: digit_def)
  then show ?thesis unfolding code_of_def by (metis of_nat_add of_nat_numeral of_nat_of_char)
qed

lemma conv2d_two: "n < 100 \<Longrightarrow> conv2d (two n @ rest) = Some (of_nat n)"
proof -
  assume n: "n < 100"
  have ab: "n div 10 < 10" "n mod 10 < 10" using n by auto
  have z: "code_of (CHR ''0'') = 48" "code_of (CHR ''9'') = 57" by (simp_all add: code_of_def)
  have "48 \<le> (48 + of_nat (n div 10) :: u8)" "(48 + of_nat (n div 10) :: u8) \<le> 57"
    using ab(1) by (simp_all add: word_le_nat_alt unat_word_ariths unat_of_nat)
  then have "conv2d (two n @ rest) = Some (10 * of_nat (n div 10) + of_nat (n mod 10))"
    by (simp add: conv2d_def two_def c_nth_def code_of_digit [OF ab(1)] code_of_digit [OF ab(2)] z)
  also have "10 * of_nat (n div 10) + of_nat (n mod 10) = (of_nat n :: u8)"
    by (metis mult_div_mod_eq of_nat_add of_nat_mult of_nat_numeral)
  finally show ?thesis .
qed

lemma conv2d_blank: "d < 10 \<Longrightarrow> conv2d ([CHR '' '', digit d] @ rest) = Some (of_nat d)"
  by (simp add: conv2d_def c_nth_def code_of_digit) (simp add: code_of_def)

lemma month_of_macro:
  assumes "1 \<le> m" "m \<le> 12"
  shows "month_of_name (date_macro y m d) = Some (of_nat m)"
  using nat_upto_12 [OF assms] unfolding insert_iff empty_iff
  by (elim disjE) (simp_all add: month_of_name_def date_macro_def c_nth_def)

lemma date_macro_parts:
  assumes "1 \<le> m" "m \<le> 12"
  shows "drop 4 (date_macro y m d) = (if d < 10 then [CHR '' '', digit d] else two d) @ '' '' @ two (y div 100) @ two (y mod 100)"
    "drop 9 (date_macro y m d) = two (y mod 100)"
  using nat_upto_12 [OF assms] unfolding insert_iff empty_iff
  by (elim disjE; simp add: date_macro_def two_def)+

text \<open>The date and time strings of the compiler are read back. For every date from 2000 to 2099 and every
  time of day, \<^verbatim>\<open>lpcrtc_setDateTime_array\<close> on \<^verbatim>\<open>__DATE__\<close> and \<^verbatim>\<open>__TIME__\<close> of that moment writes exactly that date
  and time and its day of the week.\<close>

theorem rtc_compile_time_roundtrip:
  assumes "date_ok y m d" "h < 24" "mi < 60" "s < 60"
  shows "lpcrtc_setDateTime_array (date_macro y m d) (time_macro h mi s) = Some (rtc_value y m d h mi s)"
proof -
  have m: "1 \<le> m" "m \<le> 12" "d < 100" "2000 \<le> y" "y \<le> 2099"
    using assms(1) month_len_bounds(2) [of "greg_leap y" m] by (auto simp: date_ok_def)
  have "conv2d (drop 9 (date_macro y m d)) = Some (of_nat (y mod 100))"
    using conv2d_two [of "y mod 100" "[]"] by (simp add: date_macro_parts [OF m(1,2)])
  moreover have "conv2d (drop 4 (date_macro y m d)) = Some (of_nat d)"
    using conv2d_two [OF m(3)] conv2d_blank [of d] by (simp add: date_macro_parts [OF m(1,2)])
  moreover have "conv2d (time_macro h mi s) = Some (of_nat h)"
    using conv2d_two [of h] assms(2) by (simp add: time_macro_def)
  moreover have "conv2d (drop 3 (time_macro h mi s)) = Some (of_nat mi)"
    using conv2d_two [of mi "'':'' @ two s"] assms(3) by (simp add: time_macro_def two_def)
  moreover have "conv2d (drop 6 (time_macro h mi s)) = Some (of_nat s)"
    using conv2d_two [of s "[]"] assms(4) by (simp add: time_macro_def two_def)
  moreover have "(ucast (of_nat (y mod 100) :: u8) :: u16) + 2000 = of_nat y"
  proof -
    define z where "z = y mod 100"
    have "z < 100" by (simp add: z_def)
    then have "(ucast (of_nat z :: u8) :: u16) = of_nat z" by (intro ucast_of_nat) simp
    moreover have "y div 100 = 20" using m(4,5) by (intro div_nat_eqI) auto
    then have "y = z + 2000" unfolding z_def using div_mult_mod_eq [of y 100] by simp
    then have "(of_nat y :: u16) = of_nat z + 2000" by simp
    ultimately show ?thesis by (simp add: z_def [symmetric])
  qed
  ultimately show ?thesis using setDateTime_value [OF assms] month_of_macro [OF m(1,2)]
    by (simp add: lpcrtc_setDateTime_array_def)
qed

theorem rtc_compile_time_roundtrip_witness:
  "lpcrtc_setDateTime_array (date_macro 2020 2 7) (time_macro 8 5 59) = Some (rtc_value 2020 2 7 8 5 59)"
  by (rule rtc_compile_time_roundtrip) (simp_all add: date_ok_def greg_leap_def month_len_def)

section \<open>Formatted output\<close>

lemma format_field_total:
  assumes "1 \<le> unat (dt_month dt)" "unat (dt_month dt) \<le> 12"
  shows "\<exists>s. format_field dt c = Some s"
proof -
  have am: "at_month daysArray (dt_month dt) = Some (of_nat (month_len False (unat (dt_month dt))))"
    using at_month_daysArray [OF assms] by simp
  have "add_months [1..<unat (dt_month dt)] v = Some (v + of_nat (\<Sum>i = 1..<unat (dt_month dt). month_len False i))" for v
    using assms by (intro add_months_sum) auto
  then show ?thesis by (simp add: format_field_def dayInYear_def daysInMonth_def date2days_def am Let_def)
qed

lemma format_loop_run:
  assumes "\<And>c. \<exists>s. format_field dt c = Some s" "length buffer < 255"
  shows "format_loop fmt dt buffer =
     (let out = buffer @ concat (map (the \<circ> format_field dt) fmt) in if length out < 255 then Some out else None)"
  using assms(2)
proof (induction fmt arbitrary: buffer)
  case (Cons c fmt)
  obtain s where s: "format_field dt c = Some s" using assms(1) by blast
  show ?case
  proof (cases "length buffer + length s < 255")
    case True
    then show ?thesis using Cons.IH [of "buffer @ s"] by (simp add: s format_cat_def FORMAT_BUFFER_def)
  next
    case False
    then show ?thesis by (simp add: s format_cat_def FORMAT_BUFFER_def Let_def)
  qed
qed simp

text \<open>Formatted output. For a date with a month from 1 to 12 \<^verbatim>\<open>lpcrtc_dateFormat\<close> returns the texts of the
  format characters one after the other if they and the terminating zero fit into the static buffer of 255
  bytes; otherwise, and only then, it writes past the end of the buffer.\<close>

theorem rtc_date_format:
  assumes "1 \<le> unat (dt_month dt)" "unat (dt_month dt) \<le> 12"
  shows "lpcrtc_dateFormat fmt dt =
     (let out = concat (map (the \<circ> format_field dt) fmt) in if length out < 255 then Some out else None)"
  unfolding lpcrtc_dateFormat_def
  using format_loop_run [of dt "[]" fmt] format_field_total [OF assms] by simp

text \<open>The initial date as \<^verbatim>\<open>D d/m/y\<close>, and a format of 255 blanks that overflows the buffer.\<close>

theorem rtc_date_format_witness:
  "lpcrtc_dateFormat ''D d/m/Y'' DS3231_initialize = Some ''Sat 01/01/2000'' \<and>
   lpcrtc_dateFormat (replicate 255 (CHR '' '')) DS3231_initialize = None"
proof -
  have m: "1 \<le> unat (dt_month DS3231_initialize)" "unat (dt_month DS3231_initialize) \<le> 12"
    by (simp_all add: DS3231_initialize_def)
  have f: "format_field DS3231_initialize (CHR '' '') = Some '' ''" by (simp add: format_field_def)
  have "concat (map (the \<circ> format_field DS3231_initialize) (replicate n (CHR '' ''))) = replicate n (CHR '' '')" for n
    by (induction n) (simp_all add: f)
  moreover have "concat (map (the \<circ> format_field DS3231_initialize) ''D d/m/Y'') = ''Sat 01/01/2000''"
    by (simp add: format_field_def DS3231_initialize_def strDayOfWeek_def show_02_def show_int_def show_nat.simps digit_chars)
  ultimately show ?thesis by (simp add: rtc_date_format [OF m] Let_def)
qed

end
