(* ===== verification/Cli.thy ===== *)
theory Cli
  imports Prelude
begin

text \<open>
  The command line interpreter: \<^verbatim>\<open>src/Cli/vt100.c\<close> and \<^verbatim>\<open>src/Cli/cli.c\<close> in the configuration of
  \<^verbatim>\<open>inc/Cli/cli_cfg.h\<close>.

  The state is one record. A pointer into the line buffer is an offset. The command tree is a value; a pointer
  to a list item is its path from the root list (two groups do not share a list, so equal pointers have equal
  paths), and one past the last item is the terminator. Command handlers are code of the application: a
  parameter \<open>call\<close> that gets the arguments and the state. The characters sent to the terminal through
  \<^verbatim>\<open>xputc\<close> are a list; the prompt, which shows the time of day, is a parameter. An access outside an array,
  a null pointer and a loop that does not end are \<open>None\<close>.
\<close>

section \<open>Configuration and data\<close>

definition CLI_CFG_ARGV_MAX :: nat where "CLI_CFG_ARGV_MAX = 16"
definition CLI_CFG_LINE_LENGTH_MAX :: nat where "CLI_CFG_LINE_LENGTH_MAX = 64"
definition CLI_CFG_TREE_DEPTH_MAX :: nat where "CLI_CFG_TREE_DEPTH_MAX = 10"
definition CLI_CFG_HISTORY_SIZE :: nat where "CLI_CFG_HISTORY_SIZE = 64"
definition CLI_CFG_NAME_STR_MAX_SIZE :: u8 where "CLI_CFG_NAME_STR_MAX_SIZE = 16"
definition CLI_CFG_PARAM_STR_MAX_SIZE :: u8 where "CLI_CFG_PARAM_STR_MAX_SIZE = 42"

abbreviation CH_NUL :: u8 where "CH_NUL \<equiv> 0x00"
abbreviation CH_SPACE :: u8 where "CH_SPACE \<equiv> 0x20"
abbreviation CH_QUOTE :: u8 where "CH_QUOTE \<equiv> 0x22"
abbreviation CH_HASH :: u8 where "CH_HASH \<equiv> 0x23"
abbreviation VT100_CHAR_BEL :: u8 where "VT100_CHAR_BEL \<equiv> 0x07"
abbreviation VT100_CHAR_BS :: u8 where "VT100_CHAR_BS \<equiv> 0x08"
abbreviation VT100_CHAR_TAB :: u8 where "VT100_CHAR_TAB \<equiv> 0x09"
abbreviation VT100_CHAR_LF :: u8 where "VT100_CHAR_LF \<equiv> 0x0A"
abbreviation VT100_CHAR_CR :: u8 where "VT100_CHAR_CR \<equiv> 0x0D"
abbreviation VT100_CHAR_ESC :: u8 where "VT100_CHAR_ESC \<equiv> 0x1B"

datatype vt100_state_t = VT100_CHAR_NORMAL | VT100_CHAR_INVALID | VT100_ESC_SEQ_BUSY | VT100_ESC_SEQ_ARROW_UP
  | VT100_ESC_SEQ_ARROW_DN | VT100_ESC_SEQ_ARROW_LEFT | VT100_ESC_SEQ_ARROW_RIGHT

record cli_cmd_t =
  cmd_name :: ctext
  argc_min :: u8
  argc_max :: u8
  cmd_param :: ctext
  cmd_help :: ctext

datatype 'h cli_item = Cmd 'h cli_cmd_t | Group ctext "'h cli_item list"

fun item_name :: "'h cli_item \<Rightarrow> ctext" where
  "item_name (Cmd h c) = cmd_name c"
| "item_name (Group n l) = n"

type_synonym cmd_ptr = "nat list"

text \<open>The union of converted argument values, with the member that was written last; the members for
  floating-point numbers are left out.\<close>

datatype cli_argv_val_t = Val_unset | Val_u8 u8 | Val_u16 u16 | Val_u32 u32 | Val_s8 u8 | Val_s16 u16 | Val_s32 u32

record cli =
  vt100_state :: u8
  cli_line_buf :: ctext
  cli_line_buf_index :: u8
  cli_autocomplete_start_index :: u8
  cli_autocomplete_end_index :: u8
  cli_hist_circ_buf :: ctext
  cli_hist_index_last :: u8
  cli_hist_index_now :: u8
  cli_argv :: "nat list"
  cli_tree :: "cmd_ptr list"
  cli_tree_index :: u8
  cli_cmd_list_item :: cmd_ptr
  cli_argv_val :: cli_argv_val_t
  out :: ctext

definition xputc :: "u8 \<Rightarrow> cli \<Rightarrow> cli" where
  "xputc c s = s\<lparr>out := out s @ [c]\<rparr>"

definition xputs :: "ctext \<Rightarrow> cli \<Rightarrow> cli" where
  "xputs t s = s\<lparr>out := out s @ t\<rparr>"

section \<open>The terminal\<close>

definition vt100_init :: "cli \<Rightarrow> cli" where
  "vt100_init s =
     xputc 0x68 (xputc 0x37 (xputc 0x5B (xputc VT100_CHAR_ESC (xputc 0x63 (xputc VT100_CHAR_ESC (s\<lparr>vt100_state := 0\<rparr>))))))"

definition vt100_on_rx_char :: "u8 \<Rightarrow> cli \<Rightarrow> vt100_state_t \<times> cli" where
  "vt100_on_rx_char data s =
     (if vt100_state s = 0 then
        if data = VT100_CHAR_ESC then (VT100_ESC_SEQ_BUSY, s\<lparr>vt100_state := vt100_state s + 1\<rparr>)
        else if data \<ge> 0x80 then (VT100_CHAR_INVALID, s)
        else (VT100_CHAR_NORMAL, s)
      else if vt100_state s = 1 then
        if data = 0x5B then (VT100_ESC_SEQ_BUSY, s\<lparr>vt100_state := vt100_state s + 1\<rparr>)
        else (VT100_ESC_SEQ_BUSY, s\<lparr>vt100_state := 0\<rparr>)
      else if vt100_state s = 2 then
        (if data = 0x41 then VT100_ESC_SEQ_ARROW_UP
         else if data = 0x42 then VT100_ESC_SEQ_ARROW_DN
         else if data = 0x43 then VT100_ESC_SEQ_ARROW_LEFT
         else if data = 0x44 then VT100_ESC_SEQ_ARROW_RIGHT
         else VT100_CHAR_INVALID, s\<lparr>vt100_state := 0\<rparr>)
      else (VT100_CHAR_INVALID, s\<lparr>vt100_state := 0\<rparr>))"

definition vt100_clr_screen :: "cli \<Rightarrow> cli" where
  "vt100_clr_screen s = xputc 0x4A (xputc 0x32 (xputc 0x5B (xputc VT100_CHAR_ESC s)))"

definition vt100_erase_line :: "cli \<Rightarrow> cli" where
  "vt100_erase_line s = xputc 0x4B (xputc 0x32 (xputc 0x5B (xputc VT100_CHAR_ESC s)))"

fun del_chars :: "nat \<Rightarrow> cli \<Rightarrow> cli" where
  "del_chars 0 s = s"
| "del_chars (Suc n) s = del_chars n (xputc VT100_CHAR_BS (xputc CH_SPACE (xputc VT100_CHAR_BS s)))"

definition vt100_del_chars :: "u8 \<Rightarrow> cli \<Rightarrow> cli" where
  "vt100_del_chars nr_of_chars s = del_chars (unat nr_of_chars) s"

section \<open>The command tree\<close>

text \<open>Dereferencing an item pointer: \<open>None\<close> outside the tree, \<open>Some None\<close> for the terminator of a list.\<close>

fun item_at :: "'h cli_item list \<Rightarrow> cmd_ptr \<Rightarrow> 'h cli_item option option" where
  "item_at items [] = None"
| "item_at items [i] = (if i < length items then Some (Some (items ! i)) else if i = length items then Some None else None)"
| "item_at items (i # j # p) =
     (if i < length items then case items ! i of Cmd h c \<Rightarrow> None | Group n l \<Rightarrow> item_at l (j # p) else None)"

definition next_ptr :: "cmd_ptr \<Rightarrow> cmd_ptr" where
  "next_ptr p = butlast p @ [Suc (last p)]"

definition cli_cmd_get_item :: "'h cli_item list \<Rightarrow> cmd_ptr \<Rightarrow> cli \<Rightarrow> (bool \<times> cli) option" where
  "cli_cmd_get_item root p s = do { it \<leftarrow> item_at root p; Some (it \<noteq> None, s\<lparr>cli_cmd_list_item := p\<rparr>) }"

definition cli_cmd_item_get_root :: "'h cli_item list \<Rightarrow> cli \<Rightarrow> (bool \<times> cli) option" where
  "cli_cmd_item_get_root root s =
     do {
       tree \<leftarrow> c_upd (cli_tree s) 0 [0];
       cli_cmd_get_item root [0] (s\<lparr>cli_tree_index := 0, cli_tree := tree\<rparr>)
     }"

definition cli_cmd_item_get_parent :: "'h cli_item list \<Rightarrow> cli \<Rightarrow> (bool \<times> cli) option" where
  "cli_cmd_item_get_parent root s =
     (if cli_tree_index s = 0 then Some (False, s)
      else do {
        let s = s\<lparr>cli_tree_index := cli_tree_index s - 1\<rparr>;
        p \<leftarrow> c_nth (cli_tree s) (unat (cli_tree_index s));
        cli_cmd_get_item root p s
      })"

definition cli_cmd_item_get_child :: "'h cli_item list \<Rightarrow> cli \<Rightarrow> (bool \<times> cli) option" where
  "cli_cmd_item_get_child root s =
     do {
       it \<leftarrow> item_at root (cli_cmd_list_item s);
       case it of
         Some (Group n l) \<Rightarrow>
           if unat (cli_tree_index s) \<ge> CLI_CFG_TREE_DEPTH_MAX - 1 then Some (False, s)
           else do {
             let s = s\<lparr>cli_tree_index := cli_tree_index s + 1\<rparr>;
             let p = cli_cmd_list_item s @ [0];
             tree \<leftarrow> c_upd (cli_tree s) (unat (cli_tree_index s)) p;
             cli_cmd_get_item root p (s\<lparr>cli_tree := tree\<rparr>)
           }
       | _ \<Rightarrow> Some (False, s)
     }"

definition cli_cmd_item_get_first :: "'h cli_item list \<Rightarrow> cli \<Rightarrow> (bool \<times> cli) option" where
  "cli_cmd_item_get_first root s =
     (if cli_tree_index s = 0 then do {
        tree \<leftarrow> c_upd (cli_tree s) 0 [0];
        cli_cmd_get_item root [0] (s\<lparr>cli_tree := tree\<rparr>)
      }
      else do {
        p \<leftarrow> c_nth (cli_tree s) (unat (cli_tree_index s - 1));
        (_, s) \<leftarrow> cli_cmd_get_item root p s;
        it \<leftarrow> item_at root p;
        case it of
          Some (Group n l) \<Rightarrow> do {
            tree \<leftarrow> c_upd (cli_tree s) (unat (cli_tree_index s)) (p @ [0]);
            cli_cmd_get_item root (p @ [0]) (s\<lparr>cli_tree := tree\<rparr>)
          }
        | _ \<Rightarrow> None
      })"

definition cli_cmd_item_get_next :: "'h cli_item list \<Rightarrow> cli \<Rightarrow> (bool \<times> cli) option" where
  "cli_cmd_item_get_next root s =
     do {
       it \<leftarrow> item_at root (cli_cmd_list_item s);
       if it = None then Some (False, s)
       else do {
         p \<leftarrow> c_nth (cli_tree s) (unat (cli_tree_index s));
         tree \<leftarrow> c_upd (cli_tree s) (unat (cli_tree_index s)) (next_ptr p);
         cli_cmd_get_item root (next_ptr p) (s\<lparr>cli_tree := tree\<rparr>)
       }
     }"

section \<open>Splitting the line into arguments\<close>

text \<open>\<^verbatim>\<open>while(*str == ' ') *str++ = '\0'\<close>, and moving to the first character that satisfies a condition.\<close>

partial_function (option) skip_spaces :: "ctext \<Rightarrow> nat \<Rightarrow> (ctext \<times> nat) option" where
  "skip_spaces buf str =
     do {
       c \<leftarrow> c_nth buf str;
       if c = CH_SPACE then skip_spaces (buf[str := CH_NUL]) (str + 1) else Some (buf, str)
     }"

partial_function (option) move_to :: "(u8 \<Rightarrow> bool) \<Rightarrow> ctext \<Rightarrow> nat \<Rightarrow> nat option" where
  "move_to stop buf str = do { c \<leftarrow> c_nth buf str; if stop c then Some str else move_to stop buf (str + 1) }"

partial_function (option) args_loop :: "ctext \<Rightarrow> nat \<Rightarrow> nat list \<Rightarrow> bool \<Rightarrow> (ctext \<times> nat list) option" where
  "args_loop buf str argv quote_flag =
     do {
       (buf, str) \<leftarrow> skip_spaces buf str;
       c \<leftarrow> c_nth buf str;
       if c = CH_NUL then Some (buf, argv)
       else if length argv \<ge> CLI_CFG_ARGV_MAX then Some (buf, argv)
       else do {
         let (str, quote_flag) = (if c = CH_QUOTE then (str + 1, True) else (str, quote_flag));
         let argv = argv @ [str];
         (buf, str) \<leftarrow>
           (if quote_flag then do {
              str \<leftarrow> move_to (\<lambda>c. c = CH_QUOTE \<or> c = CH_NUL) buf str;
              c \<leftarrow> c_nth buf str;
              if c = CH_QUOTE then Some (buf[str := CH_NUL], str + 1) else Some (buf, str)
            }
            else Some (buf, str));
         str \<leftarrow> move_to (\<lambda>c. c = CH_SPACE \<or> c = CH_NUL) buf str;
         args_loop buf str argv quote_flag
       }
     }"

definition cli_cmd_line_to_args :: "cli \<Rightarrow> cli option" where
  "cli_cmd_line_to_args s =
     do {
       buf \<leftarrow> c_upd (cli_line_buf s) (unat (cli_line_buf_index s)) CH_NUL;
       (buf, argv) \<leftarrow> args_loop buf 0 [] False;
       Some (s\<lparr>cli_line_buf := buf, cli_argv := argv\<rparr>)
     }"

text \<open>The string at an offset of the line buffer.\<close>

definition str_at :: "ctext \<Rightarrow> nat \<Rightarrow> ctext option" where
  "str_at buf p = (if CH_NUL \<in> set (drop p buf) then Some (takeWhile (\<lambda>c. c \<noteq> CH_NUL) (drop p buf)) else None)"

section \<open>History\<close>

definition cli_hist_circ_buf_index_next :: "u8 \<Rightarrow> u8" where
  "cli_hist_circ_buf_index_next index = (if unat index \<ge> CLI_CFG_HISTORY_SIZE - 1 then 0 else index + 1)"

definition cli_hist_circ_buf_index_prev :: "u8 \<Rightarrow> u8" where
  "cli_hist_circ_buf_index_prev index = (if index = 0 then of_nat (CLI_CFG_HISTORY_SIZE - 1) else index - 1)"

partial_function (option) hist_copy_loop :: "cli \<Rightarrow> u8 \<Rightarrow> u8 \<Rightarrow> (cli \<times> u8) option" where
  "hist_copy_loop s i j =
     do {
       data \<leftarrow> c_nth (cli_hist_circ_buf s) (unat j);
       if data = CH_NUL then Some (s, i)
       else do {
         let s = xputc data s;
         buf \<leftarrow> c_upd (cli_line_buf s) (unat i) data;
         hist_copy_loop (s\<lparr>cli_line_buf := buf\<rparr>) (i + 1) (cli_hist_circ_buf_index_next j)
       }
     }"

definition cli_hist_copy :: "cli \<Rightarrow> cli option" where
  "cli_hist_copy s =
     do {
       (s, i) \<leftarrow> hist_copy_loop (vt100_del_chars (cli_line_buf_index s) s) 0 (cli_hist_index_now s);
       Some (s\<lparr>cli_line_buf_index := i\<rparr>)
     }"

text \<open>Does the line equal the end of the history?\<close>

partial_function (option) hist_dup :: "ctext \<Rightarrow> ctext \<Rightarrow> u8 \<Rightarrow> u8 \<Rightarrow> bool option" where
  "hist_dup line hist i j =
     do {
       let i = i - 1;
       let j = cli_hist_circ_buf_index_prev j;
       a \<leftarrow> c_nth line (unat i);
       b \<leftarrow> c_nth hist (unat j);
       if a \<noteq> b then Some False else if i = 0 then Some True else hist_dup line hist i j
     }"

text \<open>The append loop (at least one round) and the loop that clears what is left of the oldest command.\<close>

partial_function (option) hist_append :: "ctext \<Rightarrow> u8 \<Rightarrow> ctext \<Rightarrow> u8 \<Rightarrow> u8 \<Rightarrow> (ctext \<times> u8) option" where
  "hist_append line n hist i j =
     do {
       let j = cli_hist_circ_buf_index_next j;
       c \<leftarrow> c_nth line (unat i);
       hist \<leftarrow> c_upd hist (unat j) c;
       let i = i + 1;
       if i < n then hist_append line n hist i j else Some (hist, j)
     }"

partial_function (option) hist_eat :: "ctext \<Rightarrow> u8 \<Rightarrow> ctext option" where
  "hist_eat hist j =
     do {
       c \<leftarrow> c_nth hist (unat j);
       if c = CH_NUL then Some hist
       else hist_eat (hist[unat j := CH_NUL]) (cli_hist_circ_buf_index_next j)
     }"

definition cli_hist_save_cmd :: "cli \<Rightarrow> cli option" where
  "cli_hist_save_cmd s =
     (if cli_line_buf_index s = 0 then Some (s\<lparr>cli_hist_index_now := cli_hist_index_last s\<rparr>)
      else do {
        dup \<leftarrow> hist_dup (cli_line_buf s) (cli_hist_circ_buf s) (cli_line_buf_index s) (cli_hist_index_last s);
        if dup then Some (s\<lparr>cli_hist_index_now := cli_hist_index_last s\<rparr>)
        else do {
          (hist, j) \<leftarrow> hist_append (cli_line_buf s) (cli_line_buf_index s) (cli_hist_circ_buf s) 0 (cli_hist_index_last s);
          let j = cli_hist_circ_buf_index_next j;
          hist \<leftarrow> hist_eat hist j;
          Some (s\<lparr>cli_hist_circ_buf := hist, cli_hist_index_last := j, cli_hist_index_now := j\<rparr>)
        }
      })"

partial_function (option) hist_back :: "ctext \<Rightarrow> u8 \<Rightarrow> u8 option" where
  "hist_back hist i =
     do { c \<leftarrow> c_nth hist (unat i); if c = CH_NUL then Some i else hist_back hist (cli_hist_circ_buf_index_prev i) }"

partial_function (option) hist_forward :: "ctext \<Rightarrow> u8 \<Rightarrow> u8 option" where
  "hist_forward hist i =
     do { c \<leftarrow> c_nth hist (unat i); if c = CH_NUL then Some i else hist_forward hist (cli_hist_circ_buf_index_next i) }"

definition cli_hist_load_older_cmd :: "cli \<Rightarrow> cli option" where
  "cli_hist_load_older_cmd s =
     do {
       let i = cli_hist_circ_buf_index_prev (cli_hist_index_now s);
       if i = cli_hist_index_last s then Some s
       else do {
         let i = cli_hist_circ_buf_index_prev i;
         c \<leftarrow> c_nth (cli_hist_circ_buf s) (unat i);
         if c = CH_NUL then Some s
         else do {
           i \<leftarrow> hist_back (cli_hist_circ_buf s) i;
           cli_hist_copy (s\<lparr>cli_hist_index_now := cli_hist_circ_buf_index_next i\<rparr>)
         }
       }
     }"

definition cli_hist_load_newer_cmd :: "cli \<Rightarrow> cli option" where
  "cli_hist_load_newer_cmd s =
     do {
       i \<leftarrow> hist_forward (cli_hist_circ_buf s) (cli_hist_index_now s);
       let i = (if i \<noteq> cli_hist_index_last s then cli_hist_circ_buf_index_next i else i);
       cli_hist_copy (s\<lparr>cli_hist_index_now := i\<rparr>)
     }"

section \<open>Autocomplete\<close>

definition cli_autocomplete_reset :: "'h cli_item list \<Rightarrow> cli \<Rightarrow> cli option" where
  "cli_autocomplete_reset root s =
     do {
       (_, s) \<leftarrow> cli_cmd_item_get_root root
         (s\<lparr>cli_autocomplete_start_index := 0, cli_autocomplete_end_index := cli_line_buf_index s\<rparr>);
       Some s
     }"

text \<open>\<^verbatim>\<open>cli_cmd_list_item->cmd->name\<close> with its terminating zero; fails on a terminator, whose \<^verbatim>\<open>cmd\<close> is null.\<close>

definition cur_name :: "'h cli_item list \<Rightarrow> cli \<Rightarrow> ctext option" where
  "cur_name root s = do { it \<leftarrow> item_at root (cli_cmd_list_item s); it \<leftarrow> it; Some (item_name it @ [CH_NUL]) }"

definition next_or_first :: "'h cli_item list \<Rightarrow> cli \<Rightarrow> cli option" where
  "next_or_first root s =
     do {
       (more, s) \<leftarrow> cli_cmd_item_get_next root s;
       if more then Some s else do { (_, s) \<leftarrow> cli_cmd_item_get_first root s; Some s }
     }"

text \<open>The inner loop. The flag is set where the code returns \<^verbatim>\<open>FALSE\<close>.\<close>

partial_function (option) ac_match ::
  "'h cli_item list \<Rightarrow> cli \<Rightarrow> u8 \<Rightarrow> ctext \<Rightarrow> (cli \<times> u8 \<times> ctext \<times> bool) option" where
  "ac_match root s i name =
     (if \<not> i < cli_autocomplete_end_index s then Some (s, i, name, False)
      else do {
        line_char \<leftarrow> c_nth (cli_line_buf s) (unat i);
        let i = i + 1;
        name_char \<leftarrow> c_nth name 0;
        let name = tl name;
        if name_char = CH_NUL \<and> line_char = CH_SPACE then do {
          it \<leftarrow> item_at root (cli_cmd_list_item s);
          case it of
            Some (Cmd h c) \<Rightarrow> Some (s, i, name, True)
          | _ \<Rightarrow> do {
              (_, s) \<leftarrow> cli_cmd_item_get_child root s;
              name \<leftarrow> cur_name root s;
              Some (s\<lparr>cli_autocomplete_start_index := i\<rparr>, i, name, False)
            }
        }
        else if line_char \<noteq> name_char then do {
          s \<leftarrow> next_or_first root s;
          Some (s, cli_autocomplete_start_index s, name, False)
        }
        else ac_match root s i name
      })"

text \<open>The outer loop: \<open>None\<close> as the second component is \<^verbatim>\<open>return FALSE\<close>.\<close>

partial_function (option) ac_loop ::
  "'h cli_item list \<Rightarrow> cmd_ptr \<Rightarrow> cli \<Rightarrow> u8 \<Rightarrow> (cli \<times> (u8 \<times> ctext) option) option" where
  "ac_loop root cmd_start s i =
     do {
       name \<leftarrow> cur_name root s;
       (s, i, name, failed) \<leftarrow> ac_match root s i name;
       if failed then Some (s, None)
       else if i \<ge> cli_autocomplete_end_index s then Some (s, Some (i, name))
       else do {
         p \<leftarrow> c_nth (cli_tree s) (unat (cli_tree_index s));
         if p = cmd_start then Some (s, None) else ac_loop root cmd_start s i
       }
     }"

fun ac_fill :: "ctext \<Rightarrow> cli \<Rightarrow> u8 \<Rightarrow> (cli \<times> u8) option" where
  "ac_fill [] s i = None"
| "ac_fill (c # name) s i =
     (if c = CH_NUL then Some (s, i)
      else if unat i \<ge> CLI_CFG_LINE_LENGTH_MAX - 1 then Some (s, i)
      else do {
        buf \<leftarrow> c_upd (cli_line_buf s) (unat i) c;
        ac_fill name (xputc c (s\<lparr>cli_line_buf := buf\<rparr>)) (i + 1)
      })"

definition cli_autocomplete :: "'h cli_item list \<Rightarrow> cli \<Rightarrow> (bool \<times> cli) option" where
  "cli_autocomplete root s =
     do {
       cmd_start \<leftarrow> c_nth (cli_tree s) (unat (cli_tree_index s));
       (s, r) \<leftarrow> ac_loop root cmd_start s (cli_autocomplete_start_index s);
       case r of
         None \<Rightarrow> Some (False, s)
       | Some (i, name) \<Rightarrow> do {
           let s = vt100_del_chars (cli_line_buf_index s - cli_autocomplete_end_index s) s;
           (s, i) \<leftarrow> ac_fill name s i;
           s \<leftarrow> next_or_first root (s\<lparr>cli_line_buf_index := i\<rparr>);
           Some (True, s)
         }
     }"

section \<open>Executing a command\<close>

text \<open>The search: the second component is the command found, or \<open>None\<close> after the error message.\<close>

partial_function (option) exe_find :: "'h cli_item list \<Rightarrow> cli \<Rightarrow> (cli \<times> ('h \<times> cli_cmd_t) option) option" where
  "exe_find root s =
     do {
       it \<leftarrow> item_at root (cli_cmd_list_item s);
       if it = None \<or> unat (cli_tree_index s) \<ge> length (cli_argv s)
       then Some (xputs (ascii ''Error! Command not found'' @ [VT100_CHAR_LF]) s, None)
       else do {
         it \<leftarrow> it;
         p \<leftarrow> c_nth (cli_argv s) (unat (cli_tree_index s));
         arg \<leftarrow> str_at (cli_line_buf s) p;
         if arg = item_name it then
           case it of
             Cmd h c \<Rightarrow> Some (xputs (ascii '' OK'' @ [VT100_CHAR_LF]) s, Some (h, c))
           | Group n l \<Rightarrow> do { (_, s) \<leftarrow> cli_cmd_item_get_child root s; exe_find root s }
         else do { (_, s) \<leftarrow> cli_cmd_item_get_next root s; exe_find root s }
       }
     }"

fun strs_at :: "ctext \<Rightarrow> nat list \<Rightarrow> ctext list option" where
  "strs_at buf [] = Some []"
| "strs_at buf (p # ps) = do { a \<leftarrow> str_at buf p; as \<leftarrow> strs_at buf ps; Some (a # as) }"

definition cli_cmd_exe ::
  "('h \<Rightarrow> ctext list \<Rightarrow> cli \<Rightarrow> (ctext option \<times> cli) option) \<Rightarrow> 'h cli_item list \<Rightarrow> cli \<Rightarrow> cli option" where
  "cli_cmd_exe call root s =
     do {
       s \<leftarrow> cli_cmd_line_to_args s;
       if cli_argv s = [] then Some s
       else do {
         c \<leftarrow> c_nth (cli_line_buf s) (hd (cli_argv s));
         if c = CH_HASH then Some s
         else do {
           (_, s) \<leftarrow> cli_cmd_item_get_root root s;
           (s, found) \<leftarrow> exe_find root s;
           case found of
             None \<Rightarrow> Some s
           | Some (h, c) \<Rightarrow> do {
               let argv = drop (unat (cli_tree_index s) + 1) (cli_argv s);
               if length argv < unat (argc_min c) \<or> length argv > unat (argc_max c)
               then Some (xputs (ascii ''Error! Number of parameters incorrect'' @ [VT100_CHAR_LF]) s)
               else do {
                 args \<leftarrow> strs_at (cli_line_buf s) argv;
                 (report, s) \<leftarrow> call h args s;
                 case report of
                   None \<Rightarrow> Some s
                 | Some str \<Rightarrow> Some (xputc VT100_CHAR_LF (xputs str s))
               }
             }
         }
       }
     }"

section \<open>The interpreter\<close>

text \<open>\<^verbatim>\<open>cli_init\<close>: the greeting is a parameter.\<close>

definition cli_init :: "'h cli_item list \<Rightarrow> ctext \<Rightarrow> ctext \<Rightarrow> cli \<Rightarrow> cli option" where
  "cli_init root greeting prompt s =
     do {
       let s = s\<lparr>cli_hist_circ_buf := map (\<lambda>_. CH_NUL) (cli_hist_circ_buf s), cli_hist_index_last := 0,
                 cli_hist_index_now := 0, cli_line_buf_index := 0\<rparr>;
       s \<leftarrow> cli_autocomplete_reset root s;
       Some (xputs prompt (xputs greeting (vt100_init s)))
     }"

definition cli_on_rx_char ::
  "('h \<Rightarrow> ctext list \<Rightarrow> cli \<Rightarrow> (ctext option \<times> cli) option) \<Rightarrow> 'h cli_item list \<Rightarrow> ctext \<Rightarrow> u8 \<Rightarrow> cli \<Rightarrow> cli option" where
  "cli_on_rx_char call root prompt data s =
     (let (st, s) = vt100_on_rx_char data s in
      case st of
        VT100_CHAR_NORMAL \<Rightarrow>
          if data = VT100_CHAR_CR then do {
            s \<leftarrow> cli_hist_save_cmd (xputc VT100_CHAR_LF s);
            s \<leftarrow> cli_cmd_exe call root s;
            s \<leftarrow> cli_autocomplete_reset root (s\<lparr>cli_line_buf_index := 0\<rparr>);
            Some (xputs prompt s)
          }
          else if data = VT100_CHAR_BS then
            if cli_line_buf_index s > 0
            then cli_autocomplete_reset root (vt100_del_chars 1 (s\<lparr>cli_line_buf_index := cli_line_buf_index s - 1\<rparr>))
            else Some (xputc VT100_CHAR_BEL s)
          else if data = VT100_CHAR_TAB then do {
            (ok, s) \<leftarrow> cli_autocomplete root s;
            Some (if ok then s else xputc VT100_CHAR_BEL s)
          }
          else if data < 0x20 then Some s
          else if unat (cli_line_buf_index s) < CLI_CFG_LINE_LENGTH_MAX - 1 then do {
            buf \<leftarrow> c_upd (cli_line_buf s) (unat (cli_line_buf_index s)) data;
            s \<leftarrow> cli_autocomplete_reset root (s\<lparr>cli_line_buf := buf, cli_line_buf_index := cli_line_buf_index s + 1\<rparr>);
            Some (xputc data s)
          }
          else Some (xputc VT100_CHAR_BEL s)
      | VT100_ESC_SEQ_ARROW_UP \<Rightarrow> cli_hist_load_older_cmd s
      | VT100_ESC_SEQ_ARROW_DN \<Rightarrow> cli_hist_load_newer_cmd s
      | _ \<Rightarrow> Some s)"

section \<open>The help command\<close>

definition pad_to :: "u8 \<Rightarrow> u8 \<Rightarrow> cli \<Rightarrow> cli" where
  "pad_to len width s = xputs (replicate (unat width - unat len) CH_SPACE) s"

text \<open>The names from the root to the current item, with the number of characters.\<close>

fun help_names :: "'h cli_item list \<Rightarrow> nat list \<Rightarrow> u8 \<Rightarrow> cli \<Rightarrow> (u8 \<times> cli) option" where
  "help_names root [] len s = Some (len, s)"
| "help_names root (i # is) len s =
     do {
       p \<leftarrow> c_nth (cli_tree s) i;
       (_, s) \<leftarrow> cli_cmd_get_item root p s;
       name \<leftarrow> cur_name root s;
       let name = butlast name;
       help_names root is (len + (of_nat (length name) + 1)) (xputc CH_SPACE (xputs name s))
     }"

definition help_line :: "'h cli_item list \<Rightarrow> cli \<Rightarrow> cli option" where
  "help_line root s =
     do {
       (len, s) \<leftarrow> help_names root [0 ..< Suc (unat (cli_tree_index s))] 0 s;
       let s = pad_to len CLI_CFG_NAME_STR_MAX_SIZE s;
       it \<leftarrow> item_at root (cli_cmd_list_item s);
       case it of
         Some (Cmd h c) \<Rightarrow> do {
           let s = xputs (cmd_param c) s;
           let s = pad_to (of_nat (length (cmd_param c))) CLI_CFG_PARAM_STR_MAX_SIZE s;
           Some (xputc VT100_CHAR_LF (xputs (cmd_help c) (xputs (ascii '' : '') s)))
         }
       | _ \<Rightarrow> None
     }"

partial_function (option) help_loop :: "'h cli_item list \<Rightarrow> ctext list \<Rightarrow> bool \<Rightarrow> cli \<Rightarrow> cli option" where
  "help_loop root argv line_break s =
     do {
       it \<leftarrow> item_at root (cli_cmd_list_item s);
       case it of
         None \<Rightarrow>
           if cli_tree_index s = 0 then Some s
           else do {
             (_, s) \<leftarrow> cli_cmd_item_get_parent root s;
             (_, s) \<leftarrow> cli_cmd_item_get_next root s;
             help_loop root argv True s
           }
       | Some (Cmd h c) \<Rightarrow> do {
           p \<leftarrow> c_nth (cli_tree s) 0;
           (_, s) \<leftarrow> cli_cmd_get_item root p s;
           name \<leftarrow> cur_name root s;
           (line_break, s) \<leftarrow>
             (if argv = [] \<or> take (length (hd argv)) (butlast name) = hd argv then do {
                let (line_break, s) = (if argv = [] \<and> line_break then (False, xputc VT100_CHAR_LF s) else (line_break, s));
                s \<leftarrow> help_line root s;
                Some (line_break, s)
              }
              else Some (line_break, s));
           (_, s) \<leftarrow> cli_cmd_item_get_next root s;
           help_loop root argv line_break s
         }
       | Some (Group n l) \<Rightarrow> do {
           (_, s) \<leftarrow> cli_cmd_item_get_child root s;
           help_loop root argv True s
         }
     }"

definition cli_cmd_help_fn :: "'h cli_item list \<Rightarrow> ctext list \<Rightarrow> cli \<Rightarrow> cli option" where
  "cli_cmd_help_fn root argv s =
     do { (_, s) \<leftarrow> cli_cmd_item_get_root root s; help_loop root argv False s }"

section \<open>Converting arguments\<close>

text \<open>An argument of the command that is being executed.\<close>

definition cmd_arg :: "u8 \<Rightarrow> cli \<Rightarrow> ctext option" where
  "cmd_arg argv_index s =
     do {
       let argv_index = argv_index + (cli_tree_index s + 1);
       _ \<leftarrow> c_assert (unat argv_index < CLI_CFG_ARGV_MAX);
       p \<leftarrow> c_nth (cli_argv s) (unat argv_index);
       str_at (cli_line_buf s) p
     }"

text \<open>The series of options, up to the empty one that ends it.\<close>

fun find_option :: "ctext \<Rightarrow> ctext list \<Rightarrow> u8 \<Rightarrow> u8" where
  "find_option a [] index = 0xff"
| "find_option a (opt # opts) index =
     (if opt = [] then 0xff else if a = opt then index else find_option a opts (index + 1))"

definition cli_util_argv_to_option :: "u8 \<Rightarrow> ctext list \<Rightarrow> cli \<Rightarrow> u8 option" where
  "cli_util_argv_to_option argv_index options s =
     do { a \<leftarrow> cmd_arg argv_index s; Some (find_option a options 0) }"

text \<open>\<^verbatim>\<open>strtoul\<close> and \<^verbatim>\<open>strtol\<close> with base 0: leading white space, a sign, \<^verbatim>\<open>0x\<close> for base 16 and \<^verbatim>\<open>0\<close> for base 8. The
  result is the sign, the number and the rest of the text, or \<open>None\<close> when there is no number.\<close>

definition digit_val :: "u8 \<Rightarrow> nat option" where
  "digit_val c =
     (if 0x30 \<le> c \<and> c \<le> 0x39 then Some (unat c - 48)
      else if 0x41 \<le> c \<and> c \<le> 0x5A then Some (unat c - 55)
      else if 0x61 \<le> c \<and> c \<le> 0x7A then Some (unat c - 87)
      else None)"

definition is_digit :: "nat \<Rightarrow> u8 \<Rightarrow> bool" where
  "is_digit base c = (case digit_val c of None \<Rightarrow> False | Some d \<Rightarrow> d < base)"

definition is_white :: "u8 \<Rightarrow> bool" where
  "is_white c \<longleftrightarrow> c = CH_SPACE \<or> 0x09 \<le> c \<and> c \<le> 0x0D"

definition number :: "nat \<Rightarrow> ctext \<Rightarrow> nat" where
  "number base ds = foldl (\<lambda>n c. n * base + (case digit_val c of None \<Rightarrow> 0 | Some d \<Rightarrow> d)) 0 ds"

definition strto :: "ctext \<Rightarrow> (bool \<times> nat \<times> ctext) option" where
  "strto str =
     (let str = dropWhile is_white str;
          (neg, str) = (case str of [] \<Rightarrow> (False, str)
                          | c # r \<Rightarrow> if c = 0x2D then (True, r) else if c = 0x2B then (False, r) else (False, str));
          (base, str) =
            (if take 1 str = [0x30] \<and> (take 1 (drop 1 str) = [0x78] \<or> take 1 (drop 1 str) = [0x58]) \<and>
                (\<exists>c\<in>set (take 1 (drop 2 str)). is_digit 16 c)
             then (16, drop 2 str)
             else if take 1 str = [0x30] then (8, str) else (10, str));
          ds = takeWhile (is_digit base) str
      in if ds = [] then None else Some (neg, number base ds, drop (length ds) str))"

text \<open>The 32-bit results, with the values that stand for an overflow.\<close>

definition strtoul_val :: "bool \<Rightarrow> nat \<Rightarrow> u32" where
  "strtoul_val neg n = (if n > 4294967295 then 4294967295 else if neg then - of_nat n else of_nat n)"

definition strtol_val :: "bool \<Rightarrow> nat \<Rightarrow> int" where
  "strtol_val neg n = (if neg then max (- 2147483648) (- int n) else min 2147483647 (int n))"

definition argv_unsigned :: "u8 \<Rightarrow> u32 \<Rightarrow> u32 \<Rightarrow> (u32 \<Rightarrow> cli_argv_val_t) \<Rightarrow> cli \<Rightarrow> (bool \<times> cli) option" where
  "argv_unsigned argv_index lo hi val s =
     do {
       a \<leftarrow> cmd_arg argv_index s;
       case strto a of
         None \<Rightarrow> Some (False, s)
       | Some (neg, n, end) \<Rightarrow>
           if end \<noteq> [] then Some (False, s)
           else let i = strtoul_val neg n in
             if i \<ge> lo \<and> i \<le> hi then Some (True, s\<lparr>cli_argv_val := val i\<rparr>) else Some (False, s)
     }"

definition cli_util_argv_to_u8 :: "u8 \<Rightarrow> u8 \<Rightarrow> u8 \<Rightarrow> cli \<Rightarrow> (bool \<times> cli) option" where
  "cli_util_argv_to_u8 argv_index lo hi s = argv_unsigned argv_index (ucast lo) (ucast hi) (\<lambda>i. Val_u8 (ucast i)) s"

definition cli_util_argv_to_u16 :: "u8 \<Rightarrow> u16 \<Rightarrow> u16 \<Rightarrow> cli \<Rightarrow> (bool \<times> cli) option" where
  "cli_util_argv_to_u16 argv_index lo hi s = argv_unsigned argv_index (ucast lo) (ucast hi) (\<lambda>i. Val_u16 (ucast i)) s"

definition cli_util_argv_to_u32 :: "u8 \<Rightarrow> u32 \<Rightarrow> u32 \<Rightarrow> cli \<Rightarrow> (bool \<times> cli) option" where
  "cli_util_argv_to_u32 argv_index lo hi s = argv_unsigned argv_index lo hi Val_u32 s"

definition argv_signed :: "u8 \<Rightarrow> int \<Rightarrow> int \<Rightarrow> (int \<Rightarrow> cli_argv_val_t) \<Rightarrow> cli \<Rightarrow> (bool \<times> cli) option" where
  "argv_signed argv_index lo hi val s =
     do {
       a \<leftarrow> cmd_arg argv_index s;
       case strto a of
         None \<Rightarrow> Some (False, s)
       | Some (neg, n, end) \<Rightarrow>
           if end \<noteq> [] then Some (False, s)
           else let i = strtol_val neg n in
             if i \<ge> lo \<and> i \<le> hi then Some (True, s\<lparr>cli_argv_val := val i\<rparr>) else Some (False, s)
     }"

definition cli_util_argv_to_s8 :: "u8 \<Rightarrow> u8 \<Rightarrow> u8 \<Rightarrow> cli \<Rightarrow> (bool \<times> cli) option" where
  "cli_util_argv_to_s8 argv_index lo hi s = argv_signed argv_index (sint lo) (sint hi) (\<lambda>i. Val_s8 (word_of_int i)) s"

definition cli_util_argv_to_s16 :: "u8 \<Rightarrow> u16 \<Rightarrow> u16 \<Rightarrow> cli \<Rightarrow> (bool \<times> cli) option" where
  "cli_util_argv_to_s16 argv_index lo hi s = argv_signed argv_index (sint lo) (sint hi) (\<lambda>i. Val_s16 (word_of_int i)) s"

definition cli_util_argv_to_s32 :: "u8 \<Rightarrow> u32 \<Rightarrow> u32 \<Rightarrow> cli \<Rightarrow> (bool \<times> cli) option" where
  "cli_util_argv_to_s32 argv_index lo hi s = argv_signed argv_index (sint lo) (sint hi) (\<lambda>i. Val_s32 (word_of_int i)) s"

section \<open>Dumping memory\<close>

definition hex_digit :: "u8 \<Rightarrow> u8" where
  "hex_digit n = (if n < 10 then 0x30 + n else 0x37 + n)"

definition hex_cell :: "u8 \<Rightarrow> ctext" where
  "hex_cell b = [hex_digit (b div 16), hex_digit (b mod 16), CH_SPACE]"

definition text_cell :: "u8 \<Rightarrow> u8" where
  "text_cell b = (if b \<ge> 32 \<and> b \<le> 127 then b else 0x2E)"

definition disp_row :: "u8 list \<Rightarrow> ctext" where
  "disp_row data =
     concat (map hex_cell data) @ concat (replicate (16 - length data) [CH_SPACE, CH_SPACE, CH_SPACE]) @
     map text_cell data @ replicate (16 - length data) CH_SPACE @ [VT100_CHAR_LF]"

function disp_rows :: "u8 list \<Rightarrow> ctext" where
  "disp_rows data = (if data = [] then [] else disp_row (take 16 data) @ disp_rows (drop 16 data))"
  by auto
termination
  by (relation "measure length") auto

declare disp_rows.simps [simp del]

definition cli_util_disp_buf :: "u8 list \<Rightarrow> cli \<Rightarrow> cli" where
  "cli_util_disp_buf data s = xputs (disp_rows data) s"

end
