(* ===== verification/Cli_History.thy ===== *)
theory Cli_History
  imports Cli "HOL-Library.Sublist"
begin

text \<open>
  The command history. The circular buffer is viewed from the place after the last saved command, as the list
  of its characters in the order they were written; each loop of the code is one list operation on that view.
  The abstract history is the list of remembered commands: saving appends one and forgets as many of the
  oldest as the space needs, the arrow keys walk through the list.
\<close>

section \<open>Indices and rotated views\<close>

lemma hist_next: "unat j < 64 \<Longrightarrow> unat (cli_hist_circ_buf_index_next j) = Suc (unat j) mod 64"
  by (auto simp: cli_hist_circ_buf_index_next_def CLI_CFG_HISTORY_SIZE_def unat_Suc_small mod_Suc)

lemma hist_prev: "unat j < 64 \<Longrightarrow> unat (cli_hist_circ_buf_index_prev j) = (unat j + 63) mod 64"
proof (cases "j = 0")
  case False
  assume j: "unat j < 64"
  have "1 \<le> j" using False by (simp add: word_le_nat_alt unat_gt_0 Suc_le_eq)
  then have "unat (j - 1) = unat j - 1" using unat_sub_ge [of 1 j] by simp
  moreover have "unat j \<noteq> 0" using False by (simp add: unat_eq_zero)
  then have "(unat j + 63) mod 64 = unat j - 1" using j by (cases "unat j") simp_all
  ultimately show ?thesis using False by (simp add: cli_hist_circ_buf_index_prev_def)
qed (simp add: cli_hist_circ_buf_index_prev_def CLI_CFG_HISTORY_SIZE_def)

lemma hist_next_lt [simp]: "unat j < 64 \<Longrightarrow> unat (cli_hist_circ_buf_index_next j) < 64"
  by (simp add: hist_next)

lemma hist_prev_lt [simp]: "unat j < 64 \<Longrightarrow> unat (cli_hist_circ_buf_index_prev j) < 64"
  by (simp add: hist_prev)

text \<open>The view of the buffer from an index on.\<close>

definition from_ix :: "ctext \<Rightarrow> u8 \<Rightarrow> ctext" where
  "from_ix h j = rotate (unat j) h"

lemma length_from_ix [simp]: "length (from_ix h j) = length h"
  by (simp add: from_ix_def)

lemma set_from_ix [simp]: "set (from_ix h j) = set h"
  by (simp add: from_ix_def)

lemma from_ix_nth: "length h = 64 \<Longrightarrow> unat j < 64 \<Longrightarrow> h ! unat j = hd (from_ix h j)"
  unfolding from_ix_def by (subst hd_rotate_conv_nth) auto

lemma from_ix_next: "length h = 64 \<Longrightarrow> unat j < 64 \<Longrightarrow> from_ix h (cli_hist_circ_buf_index_next j) = rotate1 (from_ix h j)"
  by (simp add: from_ix_def hist_next) (metis rotate_Suc rotate_conv_mod)

lemma rotate1_inj: "rotate1 xs = rotate1 ys \<Longrightarrow> xs = ys"
  by (cases xs; cases ys) auto

lemma from_ix_prev:
  "length h = 64 \<Longrightarrow> unat j < 64 \<Longrightarrow> from_ix h j = rotate1 (from_ix h (cli_hist_circ_buf_index_prev j))"
proof -
  assume h: "length h = 64" "unat j < 64"
  have "from_ix h (cli_hist_circ_buf_index_prev j) = rotate (unat j + 63) h"
    using h by (simp add: from_ix_def hist_prev) (metis rotate_conv_mod)
  then have "rotate1 (from_ix h (cli_hist_circ_buf_index_prev j)) = rotate (unat j + 64) h"
    by (simp add: add.commute flip: rotate_Suc)
  also have "\<dots> = rotate (unat j) h" using h by (metis mod_add_self2 rotate_conv_mod)
  finally show ?thesis by (simp add: from_ix_def)
qed

lemma from_ix_upd:
  assumes "length h = 64" "unat j < 64"
  shows "from_ix (h[unat j := c]) j = c # tl (from_ix h j)"
proof -
  have "from_ix h j = drop (unat j) h @ take (unat j) h" "from_ix (h[unat j := c]) j = drop (unat j) (h[unat j := c]) @ take (unat j) (h[unat j := c])"
    using assms by (simp_all add: from_ix_def rotate_drop_take)
  moreover have "drop (unat j) h = h ! unat j # drop (Suc (unat j)) h" using assms by (simp add: Cons_nth_drop_Suc)
  moreover have "drop (unat j) (h[unat j := c]) = c # drop (Suc (unat j)) h" using assms by (simp flip: Cons_nth_drop_Suc)
  ultimately show ?thesis by simp
qed

text \<open>Reading and stepping on a view that is known.\<close>

lemma view_read: "from_ix h j = x # xs \<Longrightarrow> length h = 64 \<Longrightarrow> unat j < 64 \<Longrightarrow> c_nth h (unat j) = Some x"
  by (simp add: c_nth_def from_ix_nth)

lemma view_next: "from_ix h j = x # xs \<Longrightarrow> length h = 64 \<Longrightarrow> unat j < 64 \<Longrightarrow>
   from_ix h (cli_hist_circ_buf_index_next j) = xs @ [x]"
  by (simp add: from_ix_next)

lemma view_prev: "from_ix h j = xs @ [x] \<Longrightarrow> length h = 64 \<Longrightarrow> unat j < 64 \<Longrightarrow>
   from_ix h (cli_hist_circ_buf_index_prev j) = x # xs"
  by (rule rotate1_inj) (simp flip: from_ix_prev)

lemma view_write: "from_ix h j = x # xs \<Longrightarrow> length h = 64 \<Longrightarrow> unat j < 64 \<Longrightarrow> from_ix (h[unat j := c]) j = c # xs"
  by (simp add: from_ix_upd)

section \<open>The loops\<close>

lemma hist_forward_run:
  assumes "length h = 64" "unat j < 64" "from_ix h j = w @ CH_NUL # ys" "CH_NUL \<notin> set w"
  shows "\<exists>i. hist_forward h j = Some i \<and> unat i < 64 \<and> from_ix h i = CH_NUL # ys @ w"
  using assms(2-4)
proof (induction w arbitrary: j ys)
  case Nil
  then show ?case using assms(1) by (subst hist_forward.simps) (simp add: view_read)
next
  case (Cons c w)
  have v: "from_ix h (cli_hist_circ_buf_index_next j) = w @ CH_NUL # ys @ [c]" using Cons.prems assms(1) by (simp add: view_next)
  have "hist_forward h j = hist_forward h (cli_hist_circ_buf_index_next j)"
    using Cons.prems assms(1) by (subst hist_forward.simps) (simp add: view_read)
  then show ?case using Cons.IH [OF _ v] Cons.prems by simp
qed

lemma hist_back_run:
  assumes "length h = 64" "unat j < 64" "rotate1 (from_ix h j) = ys @ CH_NUL # w" "CH_NUL \<notin> set w"
  shows "\<exists>i. hist_back h j = Some i \<and> unat i < 64 \<and> from_ix h i = CH_NUL # w @ ys"
  using assms(2-4)
proof (induction w arbitrary: j ys rule: rev_induct)
  case Nil
  have "from_ix h j = CH_NUL # ys" by (rule rotate1_inj) (simp add: Nil.prems(2))
  then show ?case using assms(1) Nil.prems by (subst hist_back.simps) (simp add: view_read)
next
  case (snoc c w)
  have v: "from_ix h j = c # ys @ CH_NUL # w" by (rule rotate1_inj) (simp add: snoc.prems(2))
  have "rotate1 (from_ix h (cli_hist_circ_buf_index_prev j)) = (c # ys) @ CH_NUL # w"
    using from_ix_prev [OF assms(1) snoc.prems(1)] v by simp
  moreover have "hist_back h j = hist_back h (cli_hist_circ_buf_index_prev j)"
    using v assms(1) snoc.prems by (subst hist_back.simps) (simp add: view_read)
  ultimately show ?case using snoc.IH [of "cli_hist_circ_buf_index_prev j" "c # ys"] snoc.prems by simp
qed

lemma hist_eat_run:
  assumes "length h = 64" "unat j < 64" "from_ix h j = w @ CH_NUL # ys" "CH_NUL \<notin> set w"
  shows "\<exists>h'. hist_eat h j = Some h' \<and> length h' = 64 \<and> from_ix h' j = replicate (length w) CH_NUL @ CH_NUL # ys"
  using assms
proof (induction w arbitrary: h j ys)
  case Nil
  then show ?case by (subst hist_eat.simps) (simp add: view_read)
next
  case (Cons c w)
  let ?h = "h[unat j := CH_NUL]" and ?j = "cli_hist_circ_buf_index_next j"
  have "from_ix ?h j = CH_NUL # w @ CH_NUL # ys" using Cons.prems by (simp add: view_write)
  then have "from_ix ?h ?j = w @ CH_NUL # ys @ [CH_NUL]" using Cons.prems by (simp add: view_next)
  then obtain h' where h': "hist_eat ?h ?j = Some h'" "length h' = 64"
      "from_ix h' ?j = replicate (length w) CH_NUL @ CH_NUL # ys @ [CH_NUL]"
    using Cons.IH [of ?h ?j "ys @ [CH_NUL]"] Cons.prems by auto
  have "rotate1 (from_ix h' j) = rotate1 (CH_NUL # replicate (length w) CH_NUL @ CH_NUL # ys)"
    using h' from_ix_next [of h' j] Cons.prems by simp
  moreover have "hist_eat h j = hist_eat ?h ?j" using Cons.prems by (subst hist_eat.simps) (simp add: view_read)
  ultimately show ?case using h' rotate1_inj by fastforce
qed

lemma hist_append_run:
  assumes "length h = 64" "unat j < 64" "i < n" "n \<le> length line" "n \<le> 63"
    "rotate1 (from_ix h j) = old @ ys" "length old = n - i"
  shows "\<exists>h' j'. hist_append line (of_nat n) h (of_nat i) j = Some (h', j') \<and> length h' = 64 \<and> unat j' < 64 \<and>
     rotate1 (from_ix h' j') = ys @ take (n - i) (drop i line)"
  using assms
proof (induction "n - i" arbitrary: h j i old ys)
  case (Suc k)
  let ?j = "cli_hist_circ_buf_index_next j"
  obtain o1 old1 where old: "old = o1 # old1" using Suc.prems by (cases old) auto
  have v: "from_ix h ?j = o1 # old1 @ ys" using Suc.prems by (simp add: from_ix_next old)
  have u: "unat (of_nat i :: u8) = i" "unat (of_nat n :: u8) = n" using Suc.prems by (simp_all add: unat_of_nat)
  let ?h = "h[unat ?j := line ! i]"
  have w: "from_ix ?h ?j = line ! i # old1 @ ys" using v Suc.prems by (simp add: view_write)
  have i1: "of_nat i + 1 = (of_nat (Suc i) :: u8)" by simp
  have c: "((of_nat (Suc i) :: u8) < of_nat n) = (Suc i < n)"
    using Suc.prems u(2) by (simp only: word_less_nat_alt unat_of_nat) simp
  have step: "hist_append line (of_nat n) h (of_nat i) j =
      (if Suc i < n then hist_append line (of_nat n) ?h (of_nat (Suc i)) ?j else Some (?h, ?j))"
    using Suc.prems by (subst hist_append.simps) (simp only: Let_def c_nth_def c_upd_def u i1 c; simp)
  have li: "drop i line = line ! i # drop (Suc i) line" using Suc.prems by (simp add: Cons_nth_drop_Suc)
  show ?case
  proof (cases "Suc i < n")
    case True
    have "rotate1 (from_ix ?h ?j) = old1 @ ys @ [line ! i]" using w by simp
    then have "\<exists>h' j'. hist_append line (of_nat n) ?h (of_nat (Suc i)) ?j = Some (h', j') \<and> length h' = 64 \<and> unat j' < 64 \<and>
        rotate1 (from_ix h' j') = (ys @ [line ! i]) @ take (n - Suc i) (drop (Suc i) line)"
      using Suc.hyps(1) [of "Suc i" ?h ?j old1 "ys @ [line ! i]"] Suc.hyps(2) Suc.prems True old by simp
    moreover have "n - i = Suc (n - Suc i)" using Suc.prems by simp
    ultimately show ?thesis using step True li by simp
  next
    case False
    then have n1: "n - i = 1" using Suc.prems by simp
    then have "old1 = []" using Suc.prems(7) old by simp
    then show ?thesis using step False li w Suc.prems n1 by simp
  qed
qed simp

lemma hist_dup_run:
  assumes "length h = 64" "unat j < 64" "0 < n" "n \<le> length line" "n \<le> 63"
    "from_ix h j = ys @ zs" "length zs = n"
  shows "hist_dup line h (of_nat n) j = Some (take n line = zs)"
  using assms
proof (induction n arbitrary: j ys zs)
  case (Suc n)
  let ?j = "cli_hist_circ_buf_index_prev j"
  obtain z zs1 where zs: "zs = zs1 @ [z]" using Suc.prems by (cases zs rule: rev_cases) auto
  have v: "from_ix h ?j = z # ys @ zs1" using Suc.prems zs by (simp add: view_prev)
  have n1: "(of_nat (Suc n) :: u8) - 1 = of_nat n" by simp
  have u: "unat (of_nat n :: u8) = n" using Suc.prems by (simp add: unat_of_nat)
  have z0: "((of_nat n :: u8) = 0) = (n = 0)" using u by (metis unat_0 unat_eq_zero)
  have step: "hist_dup line h (of_nat (Suc n)) j =
      (if line ! n \<noteq> z then Some False else if n = 0 then Some True else hist_dup line h (of_nat n) ?j)"
    using Suc.prems view_read [OF v Suc.prems(1)] by (subst hist_dup.simps) (simp only: Let_def n1 u z0 c_nth_def; simp)
  have t: "take (Suc n) line = take n line @ [line ! n]" using Suc.prems by (simp add: take_Suc_conv_app_nth)
  show ?case
  proof (cases "n = 0")
    case True
    then show ?thesis using step t zs Suc.prems by auto
  next
    case False
    then have "hist_dup line h (of_nat n) ?j = Some (take n line = zs1)"
      using Suc.IH [of ?j "z # ys" zs1] Suc.prems v zs by simp
    then show ?thesis using step False t zs by auto
  qed
qed simp

lemma hist_copy_run:
  assumes "length (cli_hist_circ_buf s) = 64" "unat j < 64" "from_ix (cli_hist_circ_buf s) j = w @ CH_NUL # ys" "CH_NUL \<notin> set w"
    "i + length w \<le> length (cli_line_buf s)" "i + length w < 256"
  shows "hist_copy_loop s (of_nat i) j =
     Some (s\<lparr>cli_line_buf := take i (cli_line_buf s) @ w @ drop (i + length w) (cli_line_buf s), out := out s @ w\<rparr>, of_nat (i + length w))"
  using assms
proof (induction w arbitrary: s i j ys)
  case Nil
  then show ?case by (subst hist_copy_loop.simps) (simp add: view_read)
next
  case (Cons c w)
  let ?j = "cli_hist_circ_buf_index_next j" and ?s = "s\<lparr>out := out s @ [c], cli_line_buf := (cli_line_buf s)[i := c]\<rparr>"
  have v: "from_ix (cli_hist_circ_buf s) ?j = w @ CH_NUL # ys @ [c]" using Cons.prems by (simp add: view_next)
  have u: "unat (of_nat i :: u8) = i" using Cons.prems by (simp add: unat_of_nat)
  have i1: "of_nat i + 1 = (of_nat (Suc i) :: u8)" by simp
  have "hist_copy_loop s (of_nat i) j = hist_copy_loop ?s (of_nat (Suc i)) ?j"
    using Cons.prems by (subst hist_copy_loop.simps) (simp add: view_read xputc_def c_upd_def u i1)
  also have "\<dots> = Some (?s\<lparr>cli_line_buf := take (Suc i) (cli_line_buf ?s) @ w @ drop (Suc i + length w) (cli_line_buf ?s), out := out ?s @ w\<rparr>, of_nat (Suc i + length w))"
    using Cons.IH [of ?s ?j "ys @ [c]" "Suc i"] Cons.prems v by simp
  also have "take (Suc i) (cli_line_buf ?s) @ w @ drop (Suc i + length w) (cli_line_buf ?s) =
      take i (cli_line_buf s) @ (c # w) @ drop (i + length (c # w)) (cli_line_buf s)"
    using Cons.prems overwrite_step [of i "cli_line_buf s" c w] by simp
  finally show ?case by simp
qed

section \<open>The abstract history\<close>

text \<open>The space that commands take with their terminating zeros, and the newest commands that fit.\<close>

definition space :: "ctext list \<Rightarrow> nat" where
  "space cs = sum_list (map (\<lambda>c. Suc (length c)) cs)"

fun fit :: "nat \<Rightarrow> ctext list \<Rightarrow> ctext list" where
  "fit k [] = []"
| "fit k (c # cs) = (if space (c # cs) \<le> k then c # cs else fit k cs)"

definition layout :: "nat \<Rightarrow> ctext list \<Rightarrow> ctext" where
  "layout z cs = replicate z CH_NUL @ concat (map (\<lambda>c. c @ [CH_NUL]) cs)"

definition cmds_ok :: "ctext list \<Rightarrow> bool" where
  "cmds_ok cs \<longleftrightarrow> (\<forall>c\<in>set cs. c \<noteq> [] \<and> CH_NUL \<notin> set c)"

definition hist_rep :: "cli \<Rightarrow> ctext list \<Rightarrow> bool" where
  "hist_rep s cs \<longleftrightarrow> length (cli_hist_circ_buf s) = 64 \<and> unat (cli_hist_index_last s) < 64 \<and> cmds_ok cs \<and> space cs \<le> 64 \<and>
     rotate1 (from_ix (cli_hist_circ_buf s) (cli_hist_index_last s)) = layout (64 - space cs) cs"

lemma space_simps [simp]: "space [] = 0" "space (c # cs) = Suc (length c) + space cs" "space (cs @ ds) = space cs + space ds"
  by (simp_all add: space_def)

lemma length_layout [simp]: "length (layout z cs) = z + space cs"
  by (induction cs) (simp_all add: layout_def space_def)

lemma layout_snoc: "layout z (cs @ [c]) = layout z cs @ c @ [CH_NUL]"
  by (simp add: layout_def)

lemma fit_all: "space cs \<le> k \<Longrightarrow> fit k cs = cs"
  by (cases cs) simp_all

lemma space_fit: "space (fit k cs) \<le> k"
  by (induction cs) simp_all

lemma set_fit: "set (fit k cs) \<subseteq> set cs"
  by (induction cs) auto

lemma cmds_ok_fit: "cmds_ok cs \<Longrightarrow> cmds_ok (fit k cs)"
  using set_fit [of k cs] by (auto simp: cmds_ok_def)

text \<open>Overwriting the first \<open>n\<close> characters and clearing the rest of a command that is cut.\<close>

lemma layout_evict:
  assumes "n < z + space cs" "cmds_ok cs"
  shows "\<exists>w ys. drop n (layout z cs) = w @ CH_NUL # ys \<and> CH_NUL \<notin> set w \<and>
     replicate (length w) CH_NUL @ ys = layout (z + space cs - 1 - n - space (fit (z + space cs - 1 - n) cs)) (fit (z + space cs - 1 - n) cs)"
  using assms
proof (induction cs arbitrary: z n)
  case Nil
  then have "drop n (layout z []) = [] @ CH_NUL # replicate (z - Suc n) CH_NUL"
    by (simp add: layout_def) (metis Suc_diff_Suc replicate_Suc)
  then show ?case using Nil by (intro exI [of _ "[]"] exI [of _ "replicate (z - Suc n) CH_NUL"]) (simp add: layout_def)
next
  case (Cons c cs)
  let ?rest = "concat (map (\<lambda>c. c @ [CH_NUL]) cs)"
  consider (blank) "n < z" | (cut) "z \<le> n" "n - z \<le> length c" | (later) "z \<le> n" "length c < n - z" by linarith
  then show ?case
  proof cases
    case blank
    then have "drop n (layout z (c # cs)) = [] @ CH_NUL # replicate (z - Suc n) CH_NUL @ concat (map (\<lambda>c. c @ [CH_NUL]) (c # cs))"
      by (simp add: layout_def) (metis Suc_diff_Suc append_Cons replicate_Suc)
    moreover have "fit (z + space (c # cs) - 1 - n) (c # cs) = c # cs" using blank by (intro fit_all) simp
    ultimately show ?thesis using blank
      by (intro exI [of _ "[]"] exI [of _ "replicate (z - Suc n) CH_NUL @ concat (map (\<lambda>c. c @ [CH_NUL]) (c # cs))"]) (simp add: layout_def)
  next
    case cut
    then have "drop n (layout z (c # cs)) = drop (n - z) c @ CH_NUL # ?rest" by (simp add: layout_def)
    moreover have "fit (z + space (c # cs) - 1 - n) (c # cs) = cs" using cut by (simp add: fit_all)
    moreover have "CH_NUL \<notin> set (drop (n - z) c)" using Cons.prems(2) by (auto simp: cmds_ok_def dest: in_set_dropD)
    ultimately show ?thesis using cut
      by (intro exI [of _ "drop (n - z) c"] exI [of _ ?rest]) (simp add: layout_def)
  next
    case later
    then have d: "drop n (layout z (c # cs)) = drop (n - z - Suc (length c)) (layout 0 cs)"
    proof -
      have "layout z (c # cs) = (replicate z CH_NUL @ c @ [CH_NUL]) @ layout 0 cs" by (simp add: layout_def)
      moreover have "length (replicate z CH_NUL @ c @ [CH_NUL]) = z + Suc (length c)" by simp
      ultimately show ?thesis using later by (simp only: drop_append) simp
    qed
    have "fit (z + space (c # cs) - 1 - n) (c # cs) = fit (z + space (c # cs) - 1 - n) cs"
    proof -
      have "\<not> space (c # cs) \<le> z + space (c # cs) - 1 - n" using later Cons.prems(1) by simp
      then show ?thesis by (simp only: fit.simps if_False)
    qed
    moreover have "0 + space cs - 1 - (n - z - Suc (length c)) = z + space (c # cs) - 1 - n" using later Cons.prems(1) by simp
    ultimately show ?thesis using Cons.IH [of "n - z - Suc (length c)" 0] Cons.prems later d by (simp add: cmds_ok_def)
  qed
qed

lemma layout_last: "0 < z + space cs \<Longrightarrow> layout z cs = butlast (layout z cs) @ [CH_NUL]"
proof -
  assume z: "0 < z + space cs"
  then have "layout z cs \<noteq> []" by (metis length_0_conv length_layout less_numeral_extra(3))
  moreover have "last (layout z cs) = CH_NUL"
    using z by (cases cs rule: rev_cases) (auto simp: layout_def last_append)
  ultimately show ?thesis by (metis append_butlast_last_id)
qed

lemma rotate1_zero: "from_ix h j = CH_NUL # xs \<longleftrightarrow> rotate1 (from_ix h j) = xs @ [CH_NUL]"
  using rotate1_inj [of "from_ix h j" "CH_NUL # xs"] by auto

text \<open>The view from the last zero on.\<close>

lemma rep_view:
  assumes "hist_rep s cs"
  shows "from_ix (cli_hist_circ_buf s) (cli_hist_index_last s) = CH_NUL # butlast (layout (64 - space cs) cs)"
proof -
  have "0 < 64 - space cs + space cs" using assms by (simp add: hist_rep_def)
  from layout_last [OF this] have "rotate1 (from_ix (cli_hist_circ_buf s) (cli_hist_index_last s)) =
      rotate1 (CH_NUL # butlast (layout (64 - space cs) cs))"
    using assms unfolding hist_rep_def by simp
  then show ?thesis by (rule rotate1_inj)
qed

text \<open>The command line as a text.\<close>

definition cli_line :: "cli \<Rightarrow> ctext" where
  "cli_line s = take (unat (cli_line_buf_index s)) (cli_line_buf s)"

definition line_ok :: "cli \<Rightarrow> bool" where
  "line_ok s \<longleftrightarrow> length (cli_line_buf s) = 64 \<and> unat (cli_line_buf_index s) \<le> 63 \<and> CH_NUL \<notin> set (cli_line s)"

lemma line_ok_facts:
  assumes "line_ok s"
  shows "length (cli_line s) = unat (cli_line_buf_index s)" "of_nat (length (cli_line s)) = cli_line_buf_index s"
    "length (cli_line s) \<le> 63" "length (cli_line s) \<le> length (cli_line_buf s)"
    "take (length (cli_line s)) (cli_line_buf s) = cli_line s"
  using assms by (auto simp: line_ok_def cli_line_def min_def)

lemma suffix_after_zero:
  assumes "CH_NUL \<notin> set line" "pre = [] \<or> last pre = CH_NUL"
  shows "suffix line (pre @ c) \<longleftrightarrow> suffix line c"
proof
  assume "suffix line (pre @ c)"
  then consider "suffix line c" | l where "line = l @ c" "suffix l pre" by (auto simp: suffix_append)
  then show "suffix line c"
  proof cases
    case (2 l)
    then have "l = []" using assms by (cases l rule: rev_cases) (auto simp: suffix_def)
    then show ?thesis using 2 by simp
  qed
qed (simp add: suffix_appendI)

lemma layout_end: "layout z cs = [] \<or> last (layout z cs) = CH_NUL"
  using layout_last [of z cs] by (cases "0 < z + space cs") (metis snoc_eq_iff_butlast, simp add: layout_def space_def)

text \<open>A line counts as a duplicate when the last command ends with it.\<close>

definition is_dup :: "ctext \<Rightarrow> ctext list \<Rightarrow> bool" where
  "is_dup line cs \<longleftrightarrow> cs \<noteq> [] \<and> suffix line (last cs)"

lemma dup_layout:
  assumes "line \<noteq> []" "CH_NUL \<notin> set line"
  shows "suffix line (butlast (layout z cs)) \<longleftrightarrow> is_dup line cs"
proof (cases cs rule: rev_cases)
  case Nil
  have "set (butlast (layout z [])) \<subseteq> {CH_NUL}" by (auto simp: layout_def dest: in_set_butlastD)
  then have "\<not> suffix line (butlast (layout z []))" using assms set_mono_suffix [of line] by (cases line) fastforce+
  then show ?thesis using Nil by (simp add: is_dup_def)
next
  case (snoc ds c)
  then have "butlast (layout z cs) = layout z ds @ c" by (simp add: layout_snoc butlast_append)
  then show ?thesis using suffix_after_zero [OF assms(2) layout_end] snoc by (simp add: is_dup_def)
qed

lemma suffix_iff_drop: "length ys \<le> length xs \<Longrightarrow> suffix ys xs \<longleftrightarrow> ys = drop (length xs - length ys) xs"
  using suffix_drop [of "length xs - length ys" xs] by (auto simp: suffix_def)

lemma hist_dup_rep:
  assumes "hist_rep s cs" "line_ok s" "cli_line s \<noteq> []"
  shows "hist_dup (cli_line_buf s) (cli_hist_circ_buf s) (cli_line_buf_index s) (cli_hist_index_last s) = Some (is_dup (cli_line s) cs)"
proof -
  let ?n = "length (cli_line s)" and ?B = "butlast (layout (64 - space cs) cs)"
  have sp: "space cs \<le> 64" "length (cli_hist_circ_buf s) = 64" "unat (cli_hist_index_last s) < 64"
    using assms(1) by (auto simp: hist_rep_def)
  have B: "length ?B = 63" using sp by simp
  note lf = line_ok_facts [OF assms(2)]
  have v: "from_ix (cli_hist_circ_buf s) (cli_hist_index_last s) = (CH_NUL # take (63 - ?n) ?B) @ drop (63 - ?n) ?B"
    by (simp add: rep_view [OF assms(1)])
  have ld: "length (drop (63 - ?n) ?B) = ?n" using B lf(3) by simp
  have "0 < ?n" using assms(3) by simp
  from hist_dup_run [OF sp(2,3) this lf(4,3) v ld]
  have "hist_dup (cli_line_buf s) (cli_hist_circ_buf s) (of_nat ?n) (cli_hist_index_last s) =
      Some (take ?n (cli_line_buf s) = drop (63 - ?n) ?B)" .
  moreover have "(cli_line s = drop (63 - ?n) ?B) \<longleftrightarrow> suffix (cli_line s) ?B"
    using suffix_iff_drop [of "cli_line s" ?B] B lf(3) by simp
  ultimately show ?thesis using dup_layout [OF assms(3)] assms(2) lf(2,5) by (simp add: line_ok_def)
qed

lemma save_new:
  assumes "hist_rep s cs" "line_ok s" "cli_line s \<noteq> []" "\<not> is_dup (cli_line s) cs"
  shows "\<exists>h j. cli_hist_save_cmd s = Some (s\<lparr>cli_hist_circ_buf := h, cli_hist_index_last := j, cli_hist_index_now := j\<rparr>) \<and>
     hist_rep (s\<lparr>cli_hist_circ_buf := h, cli_hist_index_last := j, cli_hist_index_now := j\<rparr>)
       (fit (63 - length (cli_line s)) cs @ [cli_line s])"
proof -
  let ?n = "length (cli_line s)" and ?V = "layout (64 - space cs) cs"
  have sp: "space cs \<le> 64" "length (cli_hist_circ_buf s) = 64" "unat (cli_hist_index_last s) < 64" "cmds_ok cs"
    "rotate1 (from_ix (cli_hist_circ_buf s) (cli_hist_index_last s)) = take ?n ?V @ drop ?n ?V"
    using assms(1) by (auto simp: hist_rep_def)
  note lf = line_ok_facts [OF assms(2)]
  have V: "length ?V = 64" using sp by simp
  have "0 < ?n" using assms(3) by simp
  then obtain h1 j1 where h1: "hist_append (cli_line_buf s) (of_nat ?n) (cli_hist_circ_buf s) (of_nat 0) (cli_hist_index_last s) = Some (h1, j1)"
      "length h1 = 64" "unat j1 < 64" "rotate1 (from_ix h1 j1) = drop ?n ?V @ take (?n - 0) (drop 0 (cli_line_buf s))"
    using hist_append_run [OF sp(2,3) \<open>0 < ?n\<close> lf(4,3) sp(5)] V lf(3) by auto
  have "?n < 64 - space cs + space cs" using lf(3) sp(1) by simp
  from layout_evict [OF this sp(4)] obtain w ys where w: "drop ?n ?V = w @ CH_NUL # ys" "CH_NUL \<notin> set w"
      "replicate (length w) CH_NUL @ ys = layout (63 - ?n - space (fit (63 - ?n) cs)) (fit (63 - ?n) cs)"
    using sp(1) by auto
  let ?j = "cli_hist_circ_buf_index_next j1"
  have "from_ix h1 ?j = w @ CH_NUL # (ys @ cli_line s)"
    using h1 w(1) lf(5) by (simp add: from_ix_next)
  then obtain h2 where h2: "hist_eat h1 ?j = Some h2" "length h2 = 64"
      "from_ix h2 ?j = replicate (length w) CH_NUL @ CH_NUL # ys @ cli_line s"
    using hist_eat_run [OF h1(2) hist_next_lt [OF h1(3)] _ w(2)] by blast
  let ?s = "s\<lparr>cli_hist_circ_buf := h2, cli_hist_index_last := ?j, cli_hist_index_now := ?j\<rparr>"
  have "rotate1 (from_ix h2 ?j) = (replicate (length w) CH_NUL @ ys) @ cli_line s @ [CH_NUL]"
    unfolding h2(3) by (cases w) (simp_all add: replicate_append_same)
  also have "\<dots> = layout (64 - space (fit (63 - ?n) cs @ [cli_line s])) (fit (63 - ?n) cs @ [cli_line s])"
    unfolding w(3) layout_snoc using lf(3) space_fit [of "63 - ?n" cs] by (simp add: add.commute)
  finally have "hist_rep ?s (fit (63 - ?n) cs @ [cli_line s])"
    using h2(2) h1(3) cmds_ok_fit [OF sp(4)] assms(2,3) space_fit [of "63 - ?n" cs] lf(3)
    by (auto simp: hist_rep_def cmds_ok_def line_ok_def)
  moreover have "cli_hist_save_cmd s = Some ?s"
  proof -
    have "cli_line_buf_index s \<noteq> 0" using assms(3) lf(1) by auto
    then show ?thesis using hist_dup_rep [OF assms(1-3)] assms(4) h1(1) h2(1) lf(2) by (simp add: cli_hist_save_cmd_def Let_def)
  qed
  ultimately show ?thesis by blast
qed

text \<open>The abstract operation: an empty line and a line that the last command ends with are not saved; of the
  older commands those stay that fit beside the new one.\<close>

definition hist_save :: "ctext \<Rightarrow> ctext list \<Rightarrow> ctext list" where
  "hist_save line cs = (if line = [] \<or> is_dup line cs then cs else fit (63 - length line) cs @ [line])"

lemma save_refines:
  assumes "hist_rep s cs" "line_ok s"
  shows "\<exists>s'. cli_hist_save_cmd s = Some s' \<and> hist_rep s' (hist_save (cli_line s) cs) \<and>
     cli_hist_index_now s' = cli_hist_index_last s' \<and> cli_line_buf s' = cli_line_buf s \<and> cli_line_buf_index s' = cli_line_buf_index s"
proof -
  note lf = line_ok_facts [OF assms(2)]
  consider (empty) "cli_line s = []" | (dup) "cli_line s \<noteq> []" "is_dup (cli_line s) cs" | (new) "cli_line s \<noteq> []" "\<not> is_dup (cli_line s) cs"
    by blast
  then show ?thesis
  proof cases
    case empty
    then have "cli_line_buf_index s = 0" using lf(2) by simp
    then show ?thesis using assms(1) empty by (simp add: cli_hist_save_cmd_def hist_rep_def hist_save_def)
  next
    case dup
    then have "cli_line_buf_index s \<noteq> 0" using lf(1) by auto
    then show ?thesis using assms(1) dup hist_dup_rep [OF assms dup(1)] by (simp add: cli_hist_save_cmd_def hist_rep_def hist_save_def)
  next
    case new
    then show ?thesis using save_new [OF assms new] by (auto simp: hist_save_def)
  qed
qed

section \<open>Recalling the newest command\<close>

lemma del_chars_out: "\<exists>o'. del_chars n s = s\<lparr>out := o'\<rparr>"
proof (induction n arbitrary: s)
  case (Suc n)
  obtain o1 where "del_chars n (xputc VT100_CHAR_BS (xputc CH_SPACE (xputc VT100_CHAR_BS s))) =
      (xputc VT100_CHAR_BS (xputc CH_SPACE (xputc VT100_CHAR_BS s)))\<lparr>out := o1\<rparr>"
    using Suc.IH by blast
  then show ?case by (intro exI [of _ o1]) (simp add: xputc_def)
next
  case 0
  show ?case by (intro exI [of _ "out s"]) simp
qed

lemma hist_copy_shows:
  assumes "length (cli_hist_circ_buf s) = 64" "unat (cli_hist_index_now s) < 64" "length (cli_line_buf s) = 64"
    "from_ix (cli_hist_circ_buf s) (cli_hist_index_now s) = w @ CH_NUL # ys" "CH_NUL \<notin> set w"
  shows "\<exists>buf o'. cli_hist_copy s = Some (s\<lparr>cli_line_buf := buf, out := o', cli_line_buf_index := of_nat (length w)\<rparr>) \<and>
     length buf = 64 \<and> take (length w) buf = w \<and> length w \<le> 63"
proof -
  obtain o1 where o1: "vt100_del_chars (cli_line_buf_index s) s = s\<lparr>out := o1\<rparr>"
    unfolding vt100_del_chars_def using del_chars_out by blast
  have "length (w @ CH_NUL # ys) = 64" using assms(1) by (metis assms(4) length_from_ix)
  then have w: "length w \<le> 63" by simp
  have "hist_copy_loop (s\<lparr>out := o1\<rparr>) (of_nat 0) (cli_hist_index_now s) =
      Some (s\<lparr>out := o1\<rparr>\<lparr>cli_line_buf := take 0 (cli_line_buf (s\<lparr>out := o1\<rparr>)) @ w @ drop (0 + length w) (cli_line_buf (s\<lparr>out := o1\<rparr>)),
        out := out (s\<lparr>out := o1\<rparr>) @ w\<rparr>, of_nat (0 + length w))"
    using assms w by (intro hist_copy_run) auto
  then have "cli_hist_copy s = Some (s\<lparr>cli_line_buf := w @ drop (length w) (cli_line_buf s), out := o1 @ w, cli_line_buf_index := of_nat (length w)\<rparr>)"
    by (simp add: cli_hist_copy_def o1)
  then show ?thesis using w assms(3) by auto
qed

lemma recall_newest:
  assumes "hist_rep s cs" "cs \<noteq> []" "cli_hist_index_now s = cli_hist_index_last s" "length (cli_line_buf s) = 64"
  shows "\<exists>s'. cli_hist_load_older_cmd s = Some s' \<and> hist_rep s' cs \<and>
     (if length (last cs) = 1 then s' = s else cli_line s' = last cs \<and> line_ok s')"
proof -
  let ?h = "cli_hist_circ_buf s" and ?l = "cli_hist_index_last s"
  let ?p1 = "cli_hist_circ_buf_index_prev ?l" and ?p2 = "cli_hist_circ_buf_index_prev (cli_hist_circ_buf_index_prev ?l)"
  have h: "length ?h = 64" "unat ?l < 64" "cmds_ok cs" using assms(1) by (auto simp: hist_rep_def)
  obtain ds c where cs: "cs = ds @ [c]" using assms(2) by (cases cs rule: rev_cases) auto
  define pre where "pre = layout (64 - space cs) ds"
  have pre: "pre = [] \<or> (\<exists>p. pre = p @ [CH_NUL])"
    using layout_end [of "64 - space cs" ds] unfolding pre_def by (metis append_butlast_last_id)
  have v: "from_ix ?h ?l = CH_NUL # pre @ c"
    using rep_view [OF assms(1)] by (simp add: cs layout_snoc butlast_append pre_def)
  have ok: "c \<noteq> []" "CH_NUL \<notin> set c" using h(3) by (auto simp: cs cmds_ok_def)
  have ne: "?p1 \<noteq> ?l"
  proof
    assume "?p1 = ?l"
    then have "(unat ?l + 63) mod 64 = unat ?l" using hist_prev [OF h(2)] by simp
    then show False using h(2) by (cases "unat ?l = 0") (auto simp: mod_if split: if_splits)
  qed
  obtain c1 x where c: "c = c1 @ [x]" using ok by (cases c rule: rev_cases) auto
  have v1: "from_ix ?h ?p1 = x # CH_NUL # pre @ c1" using v h by (intro view_prev) (auto simp: c)
  show ?thesis
  proof (cases c1 rule: rev_cases)
    case Nil
    then have "pre \<noteq> []" using v h(1) c length_from_ix [of ?h ?l] by auto
    then obtain p where "pre = p @ [CH_NUL]" using pre by blast
    then have "from_ix ?h ?p2 = CH_NUL # x # CH_NUL # p" using v1 h Nil by (intro view_prev) auto
    then have "cli_hist_load_older_cmd s = Some s"
      using assms(3) ne h by (simp add: cli_hist_load_older_cmd_def Let_def view_read)
    then show ?thesis using assms(1) Nil by (simp add: cs c)
  next
    case (snoc c2 y)
    have v2: "from_ix ?h ?p2 = y # x # CH_NUL # pre @ c2" using v1 h snoc by (intro view_prev) auto
    have y: "y \<noteq> CH_NUL" "CH_NUL \<notin> set (c2 @ [y])" using ok snoc by (auto simp: c)
    obtain ys where ys: "rotate1 (from_ix ?h ?p2) = ys @ CH_NUL # c2 @ [y]" "ys @ [CH_NUL] = x # CH_NUL # pre"
      using pre v2 by (elim disjE exE) (auto intro: that [of "[x]"] that [of "x # CH_NUL # p" for p])
    obtain i where i: "hist_back ?h ?p2 = Some i" "unat i < 64" "from_ix ?h i = CH_NUL # (c2 @ [y]) @ ys"
      using hist_back_run [OF h(1) _ ys(1) y(2)] h(2) by auto
    let ?s = "s\<lparr>cli_hist_index_now := cli_hist_circ_buf_index_next i\<rparr>"
    have "from_ix ?h (cli_hist_circ_buf_index_next i) = (c2 @ [y]) @ ys @ [CH_NUL]" using i h by (simp add: view_next)
    then have "from_ix ?h (cli_hist_circ_buf_index_next i) = c @ CH_NUL # pre" using ys(2) by (simp add: c snoc)
    then obtain buf o' where cp: "cli_hist_copy ?s = Some (?s\<lparr>cli_line_buf := buf, out := o', cli_line_buf_index := of_nat (length c)\<rparr>)"
        "length buf = 64" "take (length c) buf = c" "length c \<le> 63"
      using hist_copy_shows [of ?s c pre] h i(2) assms(4) ok by auto
    have "cli_hist_load_older_cmd s = cli_hist_copy ?s"
      using assms(3) ne h y(1) i(1) by (simp add: cli_hist_load_older_cmd_def Let_def view_read [OF v2])
    moreover have "unat (of_nat (length c) :: u8) = length c" using cp(4) by (simp add: unat_of_nat)
    ultimately show ?thesis using cp assms(1) ok snoc
      by (auto simp: cs c hist_rep_def cli_line_def line_ok_def)
  qed
qed

end
