(* ===== verification/Cli_Args.thy ===== *)
theory Cli_Args
  imports Cli_History
begin

text \<open>
  Splitting the command line: the loop that writes zeros into the line buffer and collects pointers against a
  function on texts, and the search for the command against a lookup in the tree.
\<close>

section \<open>The arguments of a line\<close>

text \<open>The reference: blanks separate arguments, an argument that starts with a quote extends to the next quote,
  and what follows that quote up to the next blank is dropped. The flag is what the code remembers from one
  argument to the next.\<close>

definition ltrim :: "ctext \<Rightarrow> ctext" where
  "ltrim line = dropWhile (\<lambda>c. c = CH_SPACE) line"

definition upto_ch :: "u8 \<Rightarrow> ctext \<Rightarrow> ctext" where
  "upto_ch x ys = takeWhile (\<lambda>c. c \<noteq> x) ys"

definition from_ch :: "u8 \<Rightarrow> ctext \<Rightarrow> ctext" where
  "from_ch x ys = dropWhile (\<lambda>c. c \<noteq> x) ys"

lemma length_from_ch: "length (from_ch x ys) \<le> length ys"
  by (simp add: from_ch_def length_dropWhile_le)

lemma length_ltrim: "length (ltrim ys) \<le> length ys"
  by (simp add: ltrim_def length_dropWhile_le)

lemma ltrim_hd: "ltrim line \<noteq> [] \<Longrightarrow> hd (ltrim line) \<noteq> CH_SPACE"
  unfolding ltrim_def using hd_dropWhile [of "\<lambda>c. c = CH_SPACE" line] by simp

lemma from_ch_shorter: "ltrim line \<noteq> [] \<Longrightarrow> length (from_ch CH_SPACE (ltrim line)) < length line"
proof -
  assume y: "ltrim line \<noteq> []"
  then obtain a ys where a: "ltrim line = a # ys" "a \<noteq> CH_SPACE" using ltrim_hd [OF y] by (cases "ltrim line") auto
  then show ?thesis using length_ltrim [of line] length_from_ch [of CH_SPACE ys] by (simp add: from_ch_def)
qed

lemma from_ch_tl_shorter: "ys \<noteq> [] \<Longrightarrow> length ys \<le> n \<Longrightarrow> length (from_ch CH_SPACE (tl (from_ch CH_QUOTE ys))) < n"
  using length_from_ch [of CH_SPACE "tl (from_ch CH_QUOTE ys)"] length_from_ch [of CH_QUOTE ys]
  by (cases ys; cases "from_ch CH_QUOTE ys") auto

lemma from_ch_quote_shorter:
  assumes "ltrim line \<noteq> []" "ys = (if hd (ltrim line) = CH_QUOTE then tl (ltrim line) else ltrim line)"
  shows "length (from_ch CH_SPACE (tl (from_ch CH_QUOTE ys))) < length line"
proof (cases "ys = []")
  case True
  then show ?thesis using assms(1) length_ltrim [of line] by (cases line) (auto simp: from_ch_def)
next
  case False
  moreover have "length ys \<le> length line" using assms(2) length_ltrim [of line] by (cases "ltrim line") auto
  ultimately show ?thesis by (rule from_ch_tl_shorter)
qed

function args :: "bool \<Rightarrow> ctext \<Rightarrow> ctext list" where
  "args q line =
     (let ys = ltrim line in
      if ys = [] then []
      else if q \<or> hd ys = CH_QUOTE
      then let ys = (if hd ys = CH_QUOTE then tl ys else ys)
           in upto_ch CH_QUOTE ys # args True (from_ch CH_SPACE (tl (from_ch CH_QUOTE ys)))
      else upto_ch CH_SPACE ys # args False (from_ch CH_SPACE ys))"
  by pat_completeness auto

termination
  by (relation "measure (\<lambda>(q, line). length line)") (auto simp: from_ch_shorter from_ch_quote_shorter)

declare args.simps [simp del]

section \<open>The loops\<close>

lemma skip_spaces_run:
  assumes "r = [] \<or> hd r \<noteq> CH_SPACE"
  shows "skip_spaces (pre @ replicate k CH_SPACE @ r @ CH_NUL # junk) (length pre) =
     Some (pre @ replicate k CH_NUL @ r @ CH_NUL # junk, length pre + k)"
proof (induction k arbitrary: pre)
  case 0
  then show ?case using assms by (subst skip_spaces.simps) (cases r; simp add: c_nth_def nth_append)
next
  case (Suc k)
  show ?case using Suc.IH [of "pre @ [CH_NUL]"]
    by (subst skip_spaces.simps) (simp add: c_nth_def nth_append list_update_append)
qed

lemma move_to_run:
  assumes "\<forall>c\<in>set w. \<not> stop c" "stop x"
  shows "move_to stop (pre @ w @ x # rest) (length pre) = Some (length pre + length w)"
  using assms(1)
proof (induction w arbitrary: pre)
  case Nil
  then show ?case using assms(2) by (subst move_to.simps) (simp add: c_nth_def nth_append)
next
  case (Cons c w)
  then show ?case using Cons.IH [of "pre @ [c]"] by (subst move_to.simps) (simp add: c_nth_def nth_append)
qed

lemma str_at_append: "CH_NUL \<notin> set w \<Longrightarrow> str_at (pre @ w @ CH_NUL # rest) (length pre) = Some w"
proof -
  assume "CH_NUL \<notin> set w"
  then have "\<forall>x\<in>set w. x \<noteq> CH_NUL" by blast
  then show ?thesis by (simp add: str_at_def takeWhile_append2)
qed

text \<open>What the loop makes of the rest of a line: the part before it stays, the rest keeps its length, the first
  blank becomes a zero, and the new pointers point to the arguments.\<close>

definition args_result :: "bool \<Rightarrow> ctext \<Rightarrow> ctext \<Rightarrow> ctext \<Rightarrow> nat list \<Rightarrow> (ctext \<times> nat list) option \<Rightarrow> bool" where
  "args_result q pre line junk argv r \<longleftrightarrow>
     (\<exists>line' ps. r = Some (pre @ line' @ CH_NUL # junk, argv @ ps) \<and> length line' = length line \<and>
        (line \<noteq> [] \<and> hd line = CH_SPACE \<longrightarrow> hd line' = CH_NUL) \<and>
        strs_at (pre @ line' @ CH_NUL # junk) ps = Some (take (16 - length argv) (args q line)))"

lemma ltrim_decomp: "\<exists>k. line = replicate k CH_SPACE @ ltrim line"
proof (induction line)
  case (Cons c line)
  then obtain k where "line = replicate k CH_SPACE @ ltrim line" by blast
  then show ?case by (cases "c = CH_SPACE") (auto simp: ltrim_def intro: exI [of _ "Suc k"] exI [of _ 0])
qed (simp add: ltrim_def)

lemma args_result_cons:
  assumes "args_result q' (pre @ mid) zs junk (argv @ [length pre + length m0]) r" "length argv < 16" "CH_NUL \<notin> set w"
    "mid = m0 @ w \<and> (zs = [] \<or> hd zs = CH_SPACE) \<or> (\<exists>v. mid = m0 @ w @ CH_NUL # v)"
    "length line = length mid + length zs" "args q line = w # args q' zs"
    "line \<noteq> [] \<and> hd line = CH_SPACE \<longrightarrow> mid \<noteq> [] \<and> hd mid = CH_NUL"
  shows "args_result q pre line junk argv r"
proof -
  obtain l ps where r: "r = Some ((pre @ mid) @ l @ CH_NUL # junk, (argv @ [length pre + length m0]) @ ps)" "length l = length zs"
      "zs \<noteq> [] \<and> hd zs = CH_SPACE \<longrightarrow> hd l = CH_NUL"
      "strs_at ((pre @ mid) @ l @ CH_NUL # junk) ps = Some (take (16 - length (argv @ [length pre + length m0])) (args q' zs))"
    using assms(1) unfolding args_result_def by blast
  have "\<exists>rest. (pre @ mid) @ l @ CH_NUL # junk = (pre @ m0) @ w @ CH_NUL # rest"
  proof -
    from assms(4) consider (word) "mid = m0 @ w" "zs = [] \<or> hd zs = CH_SPACE" | (quoted) v where "mid = m0 @ w @ CH_NUL # v" by blast
    then show ?thesis
    proof cases
      case word
      then show ?thesis using r(2,3) by (cases l) auto
    qed auto
  qed
  then obtain rest where "(pre @ mid) @ l @ CH_NUL # junk = (pre @ m0) @ w @ CH_NUL # rest" by blast
  then have "str_at ((pre @ mid) @ l @ CH_NUL # junk) (length pre + length m0) = Some w"
    using str_at_append [OF assms(3), of "pre @ m0" rest] by simp
  moreover have "16 - length argv = Suc (16 - length (argv @ [length pre + length m0]))" using assms(2) by simp
  ultimately have "strs_at ((pre @ mid) @ l @ CH_NUL # junk) ((length pre + length m0) # ps) = Some (take (16 - length argv) (args q line))"
    using r(4) assms(6) by simp
  moreover have "line \<noteq> [] \<and> hd line = CH_SPACE \<longrightarrow> hd (mid @ l) = CH_NUL" using assms(7) by auto
  ultimately show ?thesis unfolding args_result_def using r(1,2) assms(5)
    by (intro exI [of _ "mid @ l"] exI [of _ "(length pre + length m0) # ps"]) simp
qed

lemma from_upto: "ys = upto_ch x ys @ from_ch x ys"
  by (simp add: upto_ch_def from_ch_def)

lemma from_ch_cases: "from_ch x ys = [] \<or> (\<exists>r. from_ch x ys = x # r)"
proof (cases "from_ch x ys")
  case (Cons a r)
  then have "a = x" using hd_dropWhile [of "\<lambda>c. c \<noteq> x" ys] by (simp add: from_ch_def)
  then show ?thesis using Cons by simp
qed simp

lemma set_upto: "c \<in> set (upto_ch x ys) \<Longrightarrow> c \<in> set ys \<and> c \<noteq> x"
  unfolding upto_ch_def by (metis set_takeWhileD)

lemma set_from: "c \<in> set (from_ch x ys) \<Longrightarrow> c \<in> set ys"
  unfolding from_ch_def by (metis set_dropWhileD)

text \<open>The part of the loop after the guards.\<close>

definition args_word :: "ctext \<Rightarrow> nat \<Rightarrow> nat list \<Rightarrow> bool \<Rightarrow> u8 \<Rightarrow> (ctext \<times> nat list) option" where
  "args_word buf str argv q c =
     do {
       let (str, quote_flag) = (if c = CH_QUOTE then (str + 1, True) else (str, q));
       let argv = argv @ [str];
       (buf, str) \<leftarrow>
         (if quote_flag then do {
            str \<leftarrow> move_to (\<lambda>c. c = CH_QUOTE \<or> c = CH_NUL) buf str;
            c \<leftarrow> c_nth buf str;
            if c = CH_QUOTE then Some (buf[str := CH_NUL], str + 1) else Some (buf, str)
          }
          else Some (buf, str));
       str \<leftarrow> move_to (\<lambda>c. c = CH_SPACE \<or> c = CH_NUL) buf str;
       args_loop buf str argv quote_flag
     }"

text \<open>A word up to a blank, and a quoted text.\<close>

lemma word_end:
  assumes "CH_NUL \<notin> set ys"
  shows "move_to (\<lambda>c. c = x \<or> c = CH_NUL) (pre @ ys @ CH_NUL # junk) (length pre) = Some (length pre + length (upto_ch x ys))"
proof -
  have w: "\<forall>c\<in>set (upto_ch x ys). \<not> (c = x \<or> c = CH_NUL)" using assms set_upto [of _ x ys] by blast
  have "pre @ ys @ CH_NUL # junk = pre @ upto_ch x ys @ from_ch x ys @ CH_NUL # junk" by (metis append.assoc from_upto)
  moreover obtain y rest where "from_ch x ys @ CH_NUL # junk = y # rest" "y = x \<or> y = CH_NUL"
    using from_ch_cases [of x ys] by (elim disjE exE) auto
  ultimately show ?thesis using move_to_run [OF w, of y pre rest] by simp
qed

text \<open>After the end of a quoted text.\<close>

definition args_tail :: "ctext \<Rightarrow> nat \<Rightarrow> nat list \<Rightarrow> (ctext \<times> nat list) option" where
  "args_tail buf str argv =
     do {
       c \<leftarrow> c_nth buf str;
       (buf, str) \<leftarrow> (if c = CH_QUOTE then Some (buf[str := CH_NUL], str + 1) else Some (buf, str));
       str \<leftarrow> move_to (\<lambda>c. c = CH_SPACE \<or> c = CH_NUL) buf str;
       args_loop buf str argv True
     }"

lemma args_word_quoted:
  assumes "q \<or> c = CH_QUOTE" "str1 = (if c = CH_QUOTE then str + 1 else str)"
    "move_to (\<lambda>c. c = CH_QUOTE \<or> c = CH_NUL) buf str1 = Some e"
  shows "args_word buf str argv q c = args_tail buf e (argv @ [str1])"
proof -
  have "(if c = CH_QUOTE then (str + 1, True) else (str, q)) = (str1, True)" using assms(1,2) by auto
  then show ?thesis unfolding args_word_def args_tail_def using assms(3) by (simp del: One_nat_def)
qed

lemma args_tail_run:
  assumes "CH_NUL \<notin> set ys"
  shows "\<exists>mid. args_tail (pre @ ys @ CH_NUL # junk) (length pre + length (upto_ch CH_QUOTE ys)) argv =
       args_loop ((pre @ mid) @ from_ch CH_SPACE (tl (from_ch CH_QUOTE ys)) @ CH_NUL # junk) (length (pre @ mid)) argv True \<and>
     length ys = length mid + length (from_ch CH_SPACE (tl (from_ch CH_QUOTE ys))) \<and>
     (mid = upto_ch CH_QUOTE ys \<and> from_ch CH_SPACE (tl (from_ch CH_QUOTE ys)) = [] \<or> (\<exists>v. mid = upto_ch CH_QUOTE ys @ CH_NUL # v))"
proof -
  let ?w = "upto_ch CH_QUOTE ys"
  have y: "ys = ?w @ from_ch CH_QUOTE ys" by (rule from_upto)
  from from_ch_cases [of CH_QUOTE ys] show ?thesis
  proof
    assume r: "from_ch CH_QUOTE ys = []"
    then have "ys = ?w" using y by simp
    moreover have "c_nth (pre @ ys @ CH_NUL # junk) (length pre + length ys) = Some CH_NUL" by (simp add: c_nth_def nth_append)
    moreover have "move_to (\<lambda>c. c = CH_SPACE \<or> c = CH_NUL) (pre @ ys @ CH_NUL # junk) (length pre + length ys) = Some (length pre + length ys)"
      using word_end [of "[]" CH_SPACE "pre @ ys" junk] by (simp add: upto_ch_def)
    ultimately have "args_tail (pre @ ys @ CH_NUL # junk) (length pre + length ?w) argv = args_loop (pre @ ys @ CH_NUL # junk) (length pre + length ys) argv True"
      by (simp add: args_tail_def)
    moreover have "from_ch CH_SPACE (tl (from_ch CH_QUOTE ys)) = []" unfolding r by (simp add: from_ch_def)
    ultimately show ?thesis using \<open>ys = ?w\<close> by (intro exI [of _ ys]) simp
  next
    assume "\<exists>r. from_ch CH_QUOTE ys = CH_QUOTE # r"
    then obtain r where r: "from_ch CH_QUOTE ys = CH_QUOTE # r" by blast
    let ?v = "upto_ch CH_SPACE r" and ?zs = "from_ch CH_SPACE r"
    have ys: "ys = ?w @ CH_QUOTE # r" using y r by simp
    have r0: "CH_NUL \<notin> set r" using assms ys by (metis Un_iff list.set_intros(2) set_append)
    have buf: "pre @ ys @ CH_NUL # junk = pre @ ?w @ CH_QUOTE # r @ CH_NUL # junk" using ys by (metis append.assoc append_Cons)
    have rd: "c_nth (pre @ ?w @ CH_QUOTE # r @ CH_NUL # junk) (length pre + length ?w) = Some CH_QUOTE" by (simp add: c_nth_def nth_append)
    have up: "(pre @ ?w @ CH_QUOTE # r @ CH_NUL # junk)[length pre + length ?w := CH_NUL] = (pre @ ?w @ [CH_NUL]) @ r @ CH_NUL # junk"
      by (simp add: list_update_append)
    have mv: "move_to (\<lambda>c. c = CH_SPACE \<or> c = CH_NUL) ((pre @ ?w @ [CH_NUL]) @ r @ CH_NUL # junk) (length (pre @ ?w @ [CH_NUL])) =
        Some (length (pre @ ?w @ [CH_NUL]) + length ?v)"
      by (rule word_end [OF r0])
    have "args_tail (pre @ ?w @ CH_QUOTE # r @ CH_NUL # junk) (length pre + length ?w) argv =
        args_loop ((pre @ ?w @ [CH_NUL]) @ r @ CH_NUL # junk) (length (pre @ ?w @ [CH_NUL]) + length ?v) argv True"
      unfolding args_tail_def rd using mv by (simp add: up)
    also have "(pre @ ?w @ [CH_NUL]) @ r @ CH_NUL # junk = (pre @ ?w @ CH_NUL # ?v) @ ?zs @ CH_NUL # junk"
      using from_upto [of r CH_SPACE] by (metis append.assoc append_Cons append_Nil)
    finally have "args_tail (pre @ ys @ CH_NUL # junk) (length pre + length ?w) argv =
        args_loop ((pre @ ?w @ CH_NUL # ?v) @ ?zs @ CH_NUL # junk) (length (pre @ ?w @ CH_NUL # ?v)) argv True"
      unfolding buf by (simp add: add.assoc)
    moreover have "length ys = length (?w @ CH_NUL # ?v) + length ?zs"
      using arg_cong [OF ys, of length] arg_cong [OF from_upto [of r CH_SPACE], of length] by simp
    ultimately show ?thesis unfolding r by (intro exI [of _ "?w @ CH_NUL # ?v"]) simp
  qed
qed

lemma args_step:
  assumes "ltrim line \<noteq> []" "CH_NUL \<notin> set (ltrim line)"
    "\<And>zs q pre argv. length zs < length line \<Longrightarrow> CH_NUL \<notin> set zs \<Longrightarrow>
       args_result q pre zs junk argv (args_loop (pre @ zs @ CH_NUL # junk) (length pre) argv q)"
    "length line = k + length (ltrim line)" "line \<noteq> [] \<and> hd line = CH_SPACE \<longrightarrow> 0 < k" "length argv < 16"
  shows "args_result q pre line junk argv
     (args_word (pre @ replicate k CH_NUL @ ltrim line @ CH_NUL # junk) (length pre + k) argv q (hd (ltrim line)))"
proof (cases "q \<or> hd (ltrim line) = CH_QUOTE")
  case False
  let ?ys = "ltrim line" let ?w = "upto_ch CH_SPACE ?ys" and ?zs = "from_ch CH_SPACE ?ys"
  let ?pre = "pre @ replicate k CH_NUL"
  have mv: "move_to (\<lambda>c. c = CH_SPACE \<or> c = CH_NUL) (?pre @ ?ys @ CH_NUL # junk) (length ?pre) = Some (length ?pre + length ?w)"
    by (rule word_end [OF assms(2)])
  have buf: "?pre @ ?ys @ CH_NUL # junk = (pre @ replicate k CH_NUL @ ?w) @ ?zs @ CH_NUL # junk"
    by (metis append.assoc from_upto)
  have aw: "args_word (pre @ replicate k CH_NUL @ ?ys @ CH_NUL # junk) (length pre + k) argv q (hd ?ys) =
      args_loop ((pre @ replicate k CH_NUL @ ?w) @ ?zs @ CH_NUL # junk) (length (pre @ replicate k CH_NUL @ ?w)) (argv @ [length pre + k]) False"
  proof -
    have "args_word (?pre @ ?ys @ CH_NUL # junk) (length ?pre) argv q (hd ?ys) =
        args_loop (?pre @ ?ys @ CH_NUL # junk) (length ?pre + length ?w) (argv @ [length ?pre]) False"
      using False mv by (simp add: args_word_def)
    then show ?thesis unfolding buf [symmetric] by (simp add: add.assoc)
  qed
  have z: "length ?zs < length line" "CH_NUL \<notin> set ?zs" "CH_NUL \<notin> set ?w"
    using from_ch_shorter [OF assms(1)] set_from assms(2) set_upto by blast+
  have ih: "args_result False (pre @ replicate k CH_NUL @ ?w) ?zs junk (argv @ [length pre + length (replicate k CH_NUL)])
      (args_loop ((pre @ replicate k CH_NUL @ ?w) @ ?zs @ CH_NUL # junk) (length (pre @ replicate k CH_NUL @ ?w)) (argv @ [length pre + k]) False)"
    using assms(3) [OF z(1,2), of False "pre @ replicate k CH_NUL @ ?w" "argv @ [length pre + k]"] by simp
  have "length ?ys = length ?w + length ?zs" by (metis from_upto length_append)
  moreover have "args q line = ?w # args False ?zs" using False assms(1) by (subst args.simps) (simp add: Let_def)
  moreover have "?zs = [] \<or> hd ?zs = CH_SPACE" using from_ch_cases [of CH_SPACE ?ys] by auto
  ultimately show ?thesis unfolding aw
    using assms(4-6) z(3) by (intro args_result_cons [OF ih]) (auto simp: hd_append)
next
  case True
  let ?ys = "ltrim line"
  define d where "d = (if hd ?ys = CH_QUOTE then [CH_QUOTE] else [])"
  define ys where "ys = (if hd ?ys = CH_QUOTE then tl ?ys else ?ys)"
  define w where "w = upto_ch CH_QUOTE ys"
  define zs where "zs = from_ch CH_SPACE (tl (from_ch CH_QUOTE ys))"
  let ?m0 = "replicate k CH_NUL @ d"
  have dys: "?ys = d @ ys" using assms(1) by (cases ?ys) (auto simp: d_def ys_def)
  have ys0: "CH_NUL \<notin> set ys" using assms(2) dys by (metis Un_iff set_append)
  have z: "length zs < length line" "CH_NUL \<notin> set zs" "CH_NUL \<notin> set w"
    using from_ch_quote_shorter [OF assms(1) ys_def] ys0 set_upto [of CH_NUL CH_QUOTE ys]
      set_from [of CH_NUL CH_SPACE "tl (from_ch CH_QUOTE ys)"] in_set_tlD [of CH_NUL "from_ch CH_QUOTE ys"] set_from [of CH_NUL CH_QUOTE ys]
    unfolding zs_def w_def by blast+
  have ar: "args q line = w # args True zs" using True assms(1) by (simp add: args.simps [of q line] Let_def w_def zs_def ys_def)
  have buf: "pre @ replicate k CH_NUL @ ?ys @ CH_NUL # junk = (pre @ ?m0) @ ys @ CH_NUL # junk" by (simp add: dys)
  have mv: "move_to (\<lambda>c. c = CH_QUOTE \<or> c = CH_NUL) ((pre @ ?m0) @ ys @ CH_NUL # junk) (length (pre @ ?m0)) = Some (length (pre @ ?m0) + length w)"
    unfolding w_def by (rule word_end [OF ys0])
  have aw: "args_word (pre @ replicate k CH_NUL @ ?ys @ CH_NUL # junk) (length pre + k) argv q (hd ?ys) =
      args_tail ((pre @ ?m0) @ ys @ CH_NUL # junk) (length (pre @ ?m0) + length w) (argv @ [length (pre @ ?m0)])"
    unfolding buf using True by (intro args_word_quoted [OF _ _ mv]) (auto simp: d_def)
  obtain mid1 where m1: "args_tail ((pre @ ?m0) @ ys @ CH_NUL # junk) (length (pre @ ?m0) + length w) (argv @ [length (pre @ ?m0)]) =
        args_loop (((pre @ ?m0) @ mid1) @ zs @ CH_NUL # junk) (length ((pre @ ?m0) @ mid1)) (argv @ [length (pre @ ?m0)]) True"
      "length ys = length mid1 + length zs" "mid1 = w \<and> zs = [] \<or> (\<exists>v. mid1 = w @ CH_NUL # v)"
    using args_tail_run [OF ys0, of "pre @ ?m0" junk] unfolding w_def [symmetric] zs_def [symmetric] by blast
  define mid where "mid = ?m0 @ mid1"
  have pm: "(pre @ ?m0) @ mid1 = pre @ mid" by (simp add: mid_def)
  have mid: "args_tail ((pre @ ?m0) @ ys @ CH_NUL # junk) (length (pre @ ?m0) + length w) (argv @ [length (pre @ ?m0)]) =
        args_loop ((pre @ mid) @ zs @ CH_NUL # junk) (length (pre @ mid)) (argv @ [length (pre @ ?m0)]) True"
      "length ?ys + k = length mid + length zs" "mid = ?m0 @ w \<and> zs = [] \<or> (\<exists>v. mid = ?m0 @ w @ CH_NUL # v)"
    using m1(1)[unfolded pm] m1(2,3) arg_cong [OF dys, of length] by (auto simp: mid_def)
  have ih: "args_result True (pre @ mid) zs junk (argv @ [length pre + length ?m0])
      (args_loop ((pre @ mid) @ zs @ CH_NUL # junk) (length (pre @ mid)) (argv @ [length (pre @ ?m0)]) True)"
    using assms(3) [OF z(1,2), of True "pre @ mid" "argv @ [length (pre @ ?m0)]"] by simp
  have "line \<noteq> [] \<and> hd line = CH_SPACE \<longrightarrow> mid \<noteq> [] \<and> hd mid = CH_NUL"
    using assms(5) mid(3) by (cases k) auto
  then show ?thesis unfolding aw mid(1)
    using assms(4,6) z(3) mid(2,3) ar by (intro args_result_cons [OF ih]) auto
qed

lemma args_loop_run:
  assumes "CH_NUL \<notin> set line"
  shows "args_result q pre line junk argv (args_loop (pre @ line @ CH_NUL # junk) (length pre) argv q)"
  using assms
proof (induction line arbitrary: q pre argv rule: length_induct)
  case (1 line)
  let ?ys = "ltrim line"
  obtain k where k: "line = replicate k CH_SPACE @ ?ys" using ltrim_decomp by blast
  let ?buf = "pre @ replicate k CH_NUL @ ?ys @ CH_NUL # junk"
  have sk: "skip_spaces (pre @ line @ CH_NUL # junk) (length pre) = Some (?buf, length pre + k)"
    using skip_spaces_run [of ?ys pre k junk] ltrim_hd [of line] k by (metis append.assoc)
  have hd0: "line \<noteq> [] \<and> hd line = CH_SPACE \<longrightarrow> 0 < k" using k ltrim_hd [of line] by (cases k) auto
  have ys0: "CH_NUL \<notin> set ?ys" using "1.prems" k by (metis Un_iff set_append)
  have rd: "c_nth ?buf (length pre + k) = Some (hd (?ys @ [CH_NUL]))" by (cases ?ys) (simp_all add: c_nth_def nth_append)
  show ?case
  proof (cases "?ys = []")
    case True
    then have "args_loop (pre @ line @ CH_NUL # junk) (length pre) argv q = Some (?buf, argv)"
      using rd by (subst args_loop.simps) (simp add: sk)
    moreover have "args q line = []" using True by (simp add: args.simps [of q line])
    moreover have "length (replicate k CH_NUL) = length line" using k True by (metis append_Nil2 length_replicate)
    moreover have "line \<noteq> [] \<and> hd line = CH_SPACE \<longrightarrow> hd (replicate k CH_NUL) = CH_NUL" using hd0 by (cases k) auto
    ultimately show ?thesis using True unfolding args_result_def
      by (intro exI [of _ "replicate k CH_NUL"] exI [of _ "[]"]) simp
  next
    case False
    then have h: "hd (?ys @ [CH_NUL]) = hd ?ys" "hd ?ys \<noteq> CH_NUL" using ys0 by (cases ?ys; auto)+
    show ?thesis
    proof (cases "16 \<le> length argv")
      case True
      then have "args_loop (pre @ line @ CH_NUL # junk) (length pre) argv q = Some (?buf, argv)"
        using rd h by (subst args_loop.simps) (simp add: sk CLI_CFG_ARGV_MAX_def)
      moreover have "length (replicate k CH_NUL @ ?ys) = length line" by (metis k length_append length_replicate)
      moreover have "line \<noteq> [] \<and> hd line = CH_SPACE \<longrightarrow> hd (replicate k CH_NUL @ ?ys) = CH_NUL" using hd0 by (cases k) auto
      ultimately show ?thesis using True unfolding args_result_def
        by (intro exI [of _ "replicate k CH_NUL @ ?ys"] exI [of _ "[]"]) simp
    next
      case argc: False
      have "length line = k + length ?ys" by (metis k length_append length_replicate)
      note step = args_step [OF False ys0 _ this hd0]
      have loop: "args_loop (pre @ line @ CH_NUL # junk) (length pre) argv q =
          args_word ?buf (length pre + k) argv q (hd ?ys)"
        using rd h argc by (subst args_loop.simps) (simp add: sk CLI_CFG_ARGV_MAX_def args_word_def)
      show ?thesis unfolding loop using "1.IH" argc "1.prems" by (intro step) auto
    qed
  qed
qed

text \<open>The arguments of the command line.\<close>

lemma line_to_args_run:
  assumes "line_ok s"
  shows "\<exists>s'. cli_cmd_line_to_args s = Some s' \<and> s' = s\<lparr>cli_line_buf := cli_line_buf s', cli_argv := cli_argv s'\<rparr> \<and>
     length (cli_line_buf s') = 64 \<and> strs_at (cli_line_buf s') (cli_argv s') = Some (take 16 (args False (cli_line s)))"
proof -
  let ?n = "unat (cli_line_buf_index s)" and ?junk = "drop (Suc (unat (cli_line_buf_index s))) (cli_line_buf s)"
  have l: "length (cli_line_buf s) = 64" "?n \<le> 63" "CH_NUL \<notin> set (cli_line s)" using assms by (auto simp: line_ok_def)
  have "c_upd (cli_line_buf s) ?n CH_NUL = Some ([] @ cli_line s @ CH_NUL # ?junk)"
    using l by (simp add: c_upd_def cli_line_def upd_conv_take_nth_drop)
  moreover obtain line' ps where "args_loop ([] @ cli_line s @ CH_NUL # ?junk) (length ([] :: ctext)) [] False = Some ([] @ line' @ CH_NUL # ?junk, [] @ ps)"
      "length line' = length (cli_line s)"
      "strs_at ([] @ line' @ CH_NUL # ?junk) ps = Some (take (16 - length ([] :: nat list)) (args False (cli_line s)))"
    using args_loop_run [OF l(3), of False "[]" ?junk "[]"] unfolding args_result_def by blast
  ultimately show ?thesis using l line_ok_facts(1) [OF assms]
    by (auto simp: cli_cmd_line_to_args_def)
qed

end
