(* ===== verification/Cli_Search.thy ===== *)
theory Cli_Search
  imports Cli_Args
begin

text \<open>
  Walking the command tree: the search of \<^verbatim>\<open>cli_cmd_exe\<close> against a recursive lookup, and the loop of
  \<^verbatim>\<open>cli_autocomplete\<close>, which does not end when a word after a group name matches nothing in the group.
\<close>

section \<open>The tree\<close>

fun list_at :: "'h cli_item list \<Rightarrow> cmd_ptr \<Rightarrow> 'h cli_item list option" where
  "list_at items [] = Some items"
| "list_at items (i # p) =
     (if i < length items then case items ! i of Cmd h c \<Rightarrow> None | Group n l \<Rightarrow> list_at l p else None)"

lemma item_at_list:
  "list_at root path = Some l \<Longrightarrow> i \<le> length l \<Longrightarrow> item_at root (path @ [i]) = Some (if i < length l then Some (l ! i) else None)"
proof (induction root path rule: list_at.induct)
  case (2 items j p)
  then show ?case by (cases p) (auto split: if_splits cli_item.splits)
qed auto

lemma list_at_snoc:
  "list_at root path = Some l \<Longrightarrow> i < length l \<Longrightarrow> l ! i = Group n l' \<Longrightarrow> list_at root (path @ [i]) = Some l'"
  by (induction root path rule: list_at.induct) (auto split: if_splits cli_item.splits)

text \<open>No command lies more than \<open>d\<close> groups deep.\<close>

fun depth_le :: "nat \<Rightarrow> 'h cli_item list \<Rightarrow> bool" where
  "depth_le 0 l = (\<forall>i\<in>set l. case i of Cmd h c \<Rightarrow> True | Group n l' \<Rightarrow> False)"
| "depth_le (Suc d) l = (\<forall>i\<in>set l. case i of Cmd h c \<Rightarrow> True | Group n l' \<Rightarrow> depth_le d l')"

text \<open>The first item with the name of the argument decides; groups consume one argument each.\<close>

fun lookup :: "'h cli_item list \<Rightarrow> ctext list \<Rightarrow> ('h \<times> cli_cmd_t \<times> ctext list) option" where
  "lookup items [] = None"
| "lookup items (a # as) =
     (case find (\<lambda>it. item_name it = a) items of
        None \<Rightarrow> None
      | Some (Cmd h c) \<Rightarrow> Some (h, c, as)
      | Some (Group n l) \<Rightarrow> lookup l as)"

text \<open>The search stands at item \<open>i\<close> of the list at \<open>path\<close>.\<close>

definition at_item :: "cmd_ptr \<Rightarrow> nat \<Rightarrow> cli \<Rightarrow> bool" where
  "at_item path i s \<longleftrightarrow> length (cli_tree s) = 10 \<and> unat (cli_tree_index s) = length path \<and> length path < 10 \<and>
     cli_tree s ! length path = path @ [i] \<and> cli_cmd_list_item s = path @ [i]"

text \<open>What the walk may change.\<close>

definition same_but_tree :: "cli \<Rightarrow> cli \<Rightarrow> bool" where
  "same_but_tree s s' \<longleftrightarrow>
     s' = s\<lparr>cli_tree := cli_tree s', cli_tree_index := cli_tree_index s', cli_cmd_list_item := cli_cmd_list_item s'\<rparr>"

lemma same_but_tree_refl: "same_but_tree s s"
  by (simp add: same_but_tree_def)

lemma same_but_tree_trans: "same_but_tree s s1 \<Longrightarrow> same_but_tree s1 s2 \<Longrightarrow> same_but_tree s s2"
  by (cases s; cases s1; cases s2) (simp add: same_but_tree_def)

lemma same_but_tree_sel:
  assumes "same_but_tree s s'"
  shows "cli_line_buf s' = cli_line_buf s" "cli_argv s' = cli_argv s" "out s' = out s" "cli_line_buf_index s' = cli_line_buf_index s"
    "cli_autocomplete_start_index s' = cli_autocomplete_start_index s" "cli_autocomplete_end_index s' = cli_autocomplete_end_index s"
  using assms by (cases s; cases s'; simp add: same_but_tree_def)+

lemma get_root_run:
  assumes "length (cli_tree s) = 10"
  shows "\<exists>s'. cli_cmd_item_get_root root s = Some (root \<noteq> [], s') \<and> at_item [] 0 s' \<and> same_but_tree s s'"
  using assms by (auto simp: cli_cmd_item_get_root_def cli_cmd_get_item_def c_upd_def at_item_def same_but_tree_def nth_list_update)

lemma get_next_run:
  assumes "at_item path i s" "list_at root path = Some l" "i < length l"
  shows "\<exists>s'. cli_cmd_item_get_next root s = Some (Suc i < length l, s') \<and> at_item path (Suc i) s' \<and> same_but_tree s s'"
proof -
  have it: "item_at root (path @ [i]) = Some (Some (l ! i))" "item_at root (path @ [Suc i]) = Some (if Suc i < length l then Some (l ! Suc i) else None)"
    using item_at_list [OF assms(2), of i] item_at_list [OF assms(2), of "Suc i"] assms(3) by auto
  then show ?thesis using assms(1)
    by (auto simp: cli_cmd_item_get_next_def cli_cmd_get_item_def c_upd_def c_nth_def at_item_def same_but_tree_def next_ptr_def nth_list_update)
qed

lemma get_child_run:
  assumes "at_item path i s" "list_at root path = Some l" "i < length l" "l ! i = Group n l'" "length path < 9"
  shows "\<exists>s'. cli_cmd_item_get_child root s = Some (l' \<noteq> [], s') \<and> at_item (path @ [i]) 0 s' \<and> same_but_tree s s' \<and>
     cli_tree s' ! length path = path @ [i]"
proof -
  have it: "item_at root (path @ [i]) = Some (Some (Group n l'))" "item_at root ((path @ [i]) @ [0]) = Some (if 0 < length l' then Some (l' ! 0) else None)"
    using item_at_list [OF assms(2), of i] item_at_list [OF list_at_snoc [OF assms(2-4)], of 0] assms(3,4) by auto
  have u: "unat (cli_tree_index s + 1) = Suc (length path)"
    using assms(1,5) unat_Suc_small [of "cli_tree_index s"] by (simp add: at_item_def)
  show ?thesis using assms(1,5) it u
    by (auto simp: cli_cmd_item_get_child_def cli_cmd_get_item_def c_upd_def at_item_def same_but_tree_def CLI_CFG_TREE_DEPTH_MAX_def nth_list_update Let_def)
qed

section \<open>The search for a command\<close>

lemma strs_at_nth: "strs_at buf ps = Some as \<Longrightarrow> length ps = length as \<and> (\<forall>k < length as. str_at buf (ps ! k) = Some (as ! k))"
proof (induction ps arbitrary: as)
  case (Cons p ps)
  then obtain a as' where "str_at buf p = Some a" "strs_at buf ps = Some as'" "as = a # as'"
    by (auto split: Option.bind_splits)
  then show ?case using Cons.IH [of as'] by (auto simp: nth_Cons split: nat.splits)
qed simp

lemma strs_at_drop: "strs_at buf ps = Some as \<Longrightarrow> strs_at buf (drop n ps) = Some (drop n as)"
proof (induction ps arbitrary: as n)
  case (Cons p ps)
  then show ?case by (cases n) (auto split: Option.bind_splits)
qed simp

definition found_result :: "ctext list \<Rightarrow> cli \<Rightarrow> ('h \<times> cli_cmd_t \<times> ctext list) option \<Rightarrow> (cli \<times> ('h \<times> cli_cmd_t) option) option \<Rightarrow> bool" where
  "found_result as s r res \<longleftrightarrow>
     (\<exists>s1. same_but_tree s s1 \<and>
       (case r of
          None \<Rightarrow> res = Some (xputs (ascii ''Error! Command not found'' @ [VT100_CHAR_LF]) s1, None)
        | Some (h, c, rest) \<Rightarrow> res = Some (xputs (ascii '' OK'' @ [VT100_CHAR_LF]) s1, Some (h, c)) \<and>
            unat (cli_tree_index s1) < length as \<and> rest = drop (Suc (unat (cli_tree_index s1))) as))"

lemma found_result_step: "found_result as s1 r res \<Longrightarrow> same_but_tree s s1 \<Longrightarrow> found_result as s r res"
  unfolding found_result_def using same_but_tree_trans by blast

lemma exe_find_run:
  assumes "strs_at (cli_line_buf s) (cli_argv s) = Some as" "at_item path i s" "list_at root path = Some l" "i \<le> length l"
    "depth_le (9 - length path) l"
  shows "found_result as s (lookup (drop i l) (drop (length path) as)) (exe_find root s)"
  using assms
proof (induction "length as - length path" arbitrary: path l s i rule: less_induct)
  case less
  note outer = less.hyps
  show ?case using less.prems
  proof (induction "length l - i" arbitrary: s i)
    case 0
    then have "item_at root (cli_cmd_list_item s) = Some None" using item_at_list [OF 0(4), of i] by (simp add: at_item_def)
    then have "exe_find root s = Some (xputs (ascii ''Error! Command not found'' @ [VT100_CHAR_LF]) s, None)"
      by (subst exe_find.simps) simp
    moreover have "lookup (drop i l) (drop (length path) as) = None" using 0 by (cases "drop (length path) as") simp_all
    ultimately show ?case using same_but_tree_refl by (auto simp: found_result_def)
  next
    case (Suc k)
    let ?d = "length path"
    have il: "i < length l" using Suc.hyps(2) by simp
    have pos: "cli_cmd_list_item s = path @ [i]" "unat (cli_tree_index s) = ?d" using Suc.prems(2) by (auto simp: at_item_def)
    have it: "item_at root (cli_cmd_list_item s) = Some (Some (l ! i))" using item_at_list [OF Suc.prems(3), of i] il pos(1) by simp
    have dl: "drop i l = l ! i # drop (Suc i) l" using il by (simp add: Cons_nth_drop_Suc)
    have la: "length (cli_argv s) = length as" using strs_at_nth [OF Suc.prems(1)] by simp
    show ?case
    proof (cases "?d < length as")
      case False
      then have "exe_find root s = Some (xputs (ascii ''Error! Command not found'' @ [VT100_CHAR_LF]) s, None)"
        using it la pos(2) by (subst exe_find.simps) simp
      then show ?thesis using False same_but_tree_refl by (auto simp: found_result_def)
    next
      case True
      have arg: "str_at (cli_line_buf s) (cli_argv s ! ?d) = Some (as ! ?d)" using strs_at_nth [OF Suc.prems(1)] True by simp
      have da: "drop ?d as = as ! ?d # drop (Suc ?d) as" using True by (simp add: Cons_nth_drop_Suc)
      have step: "exe_find root s =
          (if as ! ?d = item_name (l ! i) then
             case l ! i of
               Cmd h c \<Rightarrow> Some (xputs (ascii '' OK'' @ [VT100_CHAR_LF]) s, Some (h, c))
             | Group n l \<Rightarrow> do { (_, s) \<leftarrow> cli_cmd_item_get_child root s; exe_find root s }
           else do { (_, s) \<leftarrow> cli_cmd_item_get_next root s; exe_find root s })"
        using it la pos(2) True arg by (subst exe_find.simps) (simp add: c_nth_def)
      show ?thesis
      proof (cases "as ! ?d = item_name (l ! i)")
        case False
        obtain s1 where s1: "cli_cmd_item_get_next root s = Some (Suc i < length l, s1)" "at_item path (Suc i) s1" "same_but_tree s s1"
          using get_next_run [OF Suc.prems(2,3) il] by blast
        have "found_result as s1 (lookup (drop (Suc i) l) (drop ?d as)) (exe_find root s1)"
          using Suc.hyps(1) [of "Suc i" s1] Suc.hyps(2) Suc.prems s1 same_but_tree_sel [OF s1(3)] il by simp
        moreover have "lookup (drop i l) (drop ?d as) = lookup (drop (Suc i) l) (drop ?d as)" using False by (simp add: dl da)
        ultimately show ?thesis using step False s1 found_result_step by simp
      next
        case name: True
        show ?thesis
        proof (cases "l ! i")
          case (Cmd h c)
          then show ?thesis unfolding found_result_def using step name same_but_tree_refl True pos(2)
            by (intro exI [of _ s]) (simp add: dl da)
        next
          case (Group n l')
          have "l ! i \<in> set l" using il by simp
          then obtain d' where d': "9 - ?d = Suc d'" "depth_le d' l'" using Suc.prems(5) Group by (cases "9 - ?d") fastforce+
          from d'(1) have "?d < 9" by simp
          then obtain s1 where s1: "cli_cmd_item_get_child root s = Some (l' \<noteq> [], s1)" "at_item (path @ [i]) 0 s1" "same_but_tree s s1"
            using get_child_run [OF Suc.prems(2,3) il Group] by blast
          have "9 - length (path @ [i]) = d'" "length as - length (path @ [i]) < length as - ?d" using d'(1) True by simp_all
          then have "found_result as s1 (lookup (drop 0 l') (drop (length (path @ [i])) as)) (exe_find root s1)"
            using outer [of "path @ [i]" s1 0 l'] True Suc.prems(1) s1 same_but_tree_sel [OF s1(3)] d'(2) list_at_snoc [OF Suc.prems(3) il Group] by simp
          moreover have "lookup (drop i l) (drop ?d as) = lookup l' (drop (Suc ?d) as)" using name Group by (simp add: dl da)
          ultimately show ?thesis using step name Group s1 found_result_step by simp
        qed
      qed
    qed
  qed
qed

section \<open>Autocomplete\<close>

text \<open>The typed word.\<close>

definition ac_word :: "nat \<Rightarrow> cli \<Rightarrow> ctext" where
  "ac_word i s = drop i (take (unat (cli_autocomplete_end_index s)) (cli_line_buf s))"

definition ac_ok :: "cli \<Rightarrow> bool" where
  "ac_ok s \<longleftrightarrow> length (cli_line_buf s) = 64 \<and> unat (cli_autocomplete_end_index s) \<le> 63"

lemma ac_word_Cons:
  assumes "ac_ok s" "ac_word i s = a # L"
  shows "(of_nat i :: u8) < cli_autocomplete_end_index s" "c_nth (cli_line_buf s) (unat (of_nat i :: u8)) = Some a"
    "ac_word (Suc i) s = L" "(of_nat i :: u8) + 1 = of_nat (Suc i)"
proof -
  let ?T = "take (unat (cli_autocomplete_end_index s)) (cli_line_buf s)"
  have "i < length ?T" using assms(2) unfolding ac_word_def by (metis drop_all linorder_not_less list.distinct(1))
  moreover then have "?T ! i = a \<and> drop (Suc i) ?T = L" using assms(2) unfolding ac_word_def by (metis Cons_nth_drop_Suc list.inject)
  ultimately have i: "i < unat (cli_autocomplete_end_index s)" "i < 64" "cli_line_buf s ! i = a" "drop (Suc i) ?T = L"
    using assms(1) by (auto simp: ac_ok_def)
  then have "unat (of_nat i :: u8) = i" by (simp add: unat_of_nat)
  then show "(of_nat i :: u8) < cli_autocomplete_end_index s" "c_nth (cli_line_buf s) (unat (of_nat i :: u8)) = Some a"
    using i assms(1) by (auto simp: word_less_nat_alt c_nth_def ac_ok_def)
  show "ac_word (Suc i) s = L" using i(4) by (simp add: ac_word_def)
qed simp

lemma ac_match_mismatch:
  assumes "ac_ok s" "ac_word i s = L" "CH_NUL \<notin> set L" "CH_SPACE \<notin> set N" "CH_NUL \<notin> set N" "\<not> prefix L N" "\<forall>r. L \<noteq> N @ CH_SPACE # r"
  shows "\<exists>nm. ac_match root s (of_nat i) (N @ [CH_NUL]) =
     do { s' \<leftarrow> next_or_first root s; Some (s', cli_autocomplete_start_index s', nm, False) }"
  using assms
proof (induction N arbitrary: i L)
  case Nil
  then obtain a L' where L: "L = a # L'" by (cases L) auto
  then have "a \<noteq> CH_NUL" "a \<noteq> CH_SPACE" using Nil.prems by auto
  then show ?case using ac_word_Cons [of s i a L'] Nil.prems L by (subst ac_match.simps) (auto simp: c_nth_def [of "[CH_NUL]"])
next
  case (Cons b N)
  obtain a L' where L: "L = a # L'" using Cons.prems(6) by (cases L) auto
  note w = ac_word_Cons [OF Cons.prems(1) Cons.prems(2) [unfolded L]]
  have b: "b \<noteq> CH_NUL" "b \<noteq> CH_SPACE" using Cons.prems(4,5) by auto
  show ?case
  proof (cases "a = b")
    case False
    then show ?thesis using w b by (subst ac_match.simps) (auto simp: c_nth_def [of "b # _"])
  next
    case True
    then have "ac_match root s (of_nat i) ((b # N) @ [CH_NUL]) = ac_match root s (of_nat (Suc i)) (N @ [CH_NUL])"
      using w b by (subst ac_match.simps) (simp add: c_nth_def [of "b # _"] add.commute)
    then show ?thesis using Cons.IH [OF Cons.prems(1) w(3)] Cons.prems L True by simp
  qed
qed

lemma ac_match_group:
  assumes "ac_ok s" "ac_word i s = N @ CH_SPACE # w" "CH_NUL \<notin> set N" "item_at root (cli_cmd_list_item s) = Some (Some (Group n l))"
  shows "ac_match root s (of_nat i) (N @ [CH_NUL]) =
     do {
       (_, s) \<leftarrow> cli_cmd_item_get_child root s;
       name \<leftarrow> cur_name root s;
       Some (s\<lparr>cli_autocomplete_start_index := of_nat (Suc (i + length N))\<rparr>, of_nat (Suc (i + length N)), name, False)
     }"
  using assms
proof (induction N arbitrary: i)
  case Nil
  then show ?case using ac_word_Cons [of s i CH_SPACE w] by (subst ac_match.simps) (simp add: c_nth_def [of "[CH_NUL]"] add.commute Let_def)
next
  case (Cons b N)
  note w = ac_word_Cons [OF Cons.prems(1) Cons.prems(2) [unfolded append_Cons]]
  have "b \<noteq> CH_NUL" using Cons.prems(3) by auto
  then have "ac_match root s (of_nat i) ((b # N) @ [CH_NUL]) = ac_match root s (of_nat (Suc i)) (N @ [CH_NUL])"
    using w by (subst ac_match.simps) (simp add: c_nth_def [of "b # _"] add.commute)
  then show ?case using Cons.IH [OF Cons.prems(1) w(3)] Cons.prems by simp
qed

text \<open>The next item, from the last one back to the first.\<close>

lemma next_or_first_root:
  assumes "at_item [] j s" "Suc j < length root"
  shows "\<exists>s'. next_or_first root s = Some s' \<and> at_item [] (Suc j) s' \<and> same_but_tree s s'"
  using get_next_run [OF assms(1), of root root] assms(2) by (auto simp: next_or_first_def)

lemma next_or_first_child:
  assumes "at_item [g] q s" "cli_tree s ! 0 = [g]" "g < length root" "root ! g = Group n l" "q < length l"
  shows "\<exists>s' q'. next_or_first root s = Some s' \<and> at_item [g] q' s' \<and> cli_tree s' ! 0 = [g] \<and> q' < length l \<and> same_but_tree s s'"
proof -
  have l: "list_at root [g] = Some l" using assms(3,4) by simp
  have p: "length (cli_tree s) = 10" "unat (cli_tree_index s) = 1" "cli_tree s ! 1 = [g, q]" "cli_cmd_list_item s = [g, q]"
    using assms(1) by (auto simp: at_item_def)
  then have ti: "cli_tree_index s = 1" by (metis unat_1 word_unat_eq_iff)
  have it: "item_at root [g, q] = Some (Some (l ! q))" "item_at root [g, Suc q] = Some (if Suc q < length l then Some (l ! Suc q) else None)"
      "item_at root [g] = Some (Some (Group n l))" "item_at root [g, 0] = Some (Some (l ! 0))"
    using item_at_list [OF l, of q] item_at_list [OF l, of "Suc q"] item_at_list [OF l, of 0] assms(3-5) by auto
  show ?thesis
  proof (cases "Suc q < length l")
    case True
    then show ?thesis using p ti it assms(2)
      by (auto simp: next_or_first_def cli_cmd_item_get_next_def cli_cmd_get_item_def c_nth_def c_upd_def next_ptr_def at_item_def same_but_tree_def)
  next
    case False
    then show ?thesis using p ti it assms(2,5)
      by (auto simp: next_or_first_def cli_cmd_item_get_next_def cli_cmd_item_get_first_def cli_cmd_get_item_def c_nth_def c_upd_def next_ptr_def at_item_def same_but_tree_def)
  qed
qed

text \<open>Inside the group, at a word that no item of the group starts with.\<close>

definition stuck :: "'h cli_item list \<Rightarrow> nat \<Rightarrow> 'h cli_item list \<Rightarrow> nat \<Rightarrow> cli \<Rightarrow> bool" where
  "stuck root g l k s \<longleftrightarrow> (\<exists>q. at_item [g] q s \<and> q < length l) \<and> cli_tree s ! 0 = [g] \<and> ac_ok s \<and>
     cli_autocomplete_start_index s = of_nat k \<and> CH_NUL \<notin> set (ac_word k s) \<and> CH_SPACE \<notin> set (ac_word k s) \<and>
     (\<forall>it\<in>set l. \<not> prefix (ac_word k s) (item_name it))"

definition names_ok :: "'h cli_item list \<Rightarrow> bool" where
  "names_ok l \<longleftrightarrow> (\<forall>it\<in>set l. CH_SPACE \<notin> set (item_name it) \<and> CH_NUL \<notin> set (item_name it))"

lemma stuck_step:
  assumes "stuck root g l k s" "g < length root" "root ! g = Group n l" "names_ok l"
  shows "\<exists>s' nm nm'. cur_name root s = Some nm \<and> ac_match root s (of_nat k) nm = Some (s', of_nat k, nm', False) \<and> stuck root g l k s' \<and>
     (of_nat k :: u8) < cli_autocomplete_end_index s' \<and> (\<exists>q. c_nth (cli_tree s') (unat (cli_tree_index s')) = Some [g, q])"
proof -
  obtain q where q: "at_item [g] q s" "q < length l" using assms(1) by (auto simp: stuck_def)
  let ?L = "ac_word k s" and ?N = "item_name (l ! q)"
  have st: "cli_tree s ! 0 = [g]" "ac_ok s" "cli_autocomplete_start_index s = of_nat k" "CH_NUL \<notin> set ?L" "CH_SPACE \<notin> set ?L" "\<not> prefix ?L ?N"
    using assms(1) q(2) by (auto simp: stuck_def)
  have N: "CH_SPACE \<notin> set ?N" "CH_NUL \<notin> set ?N" using assms(4) q(2) by (auto simp: names_ok_def)
  have nr: "\<forall>r. ?L \<noteq> ?N @ CH_SPACE # r" using st(5) by (metis in_set_conv_decomp)
  have l: "list_at root [g] = Some l" using assms(2,3) by simp
  have nm: "cur_name root s = Some (?N @ [CH_NUL])"
    using q item_at_list [OF l, of q] by (simp add: cur_name_def at_item_def)
  obtain nm' where m: "ac_match root s (of_nat k) (?N @ [CH_NUL]) =
      do { s' \<leftarrow> next_or_first root s; Some (s', cli_autocomplete_start_index s', nm', False) }"
    using ac_match_mismatch [OF st(2) refl st(4) N st(6) nr] by blast
  obtain s' q' where s': "next_or_first root s = Some s'" "at_item [g] q' s'" "cli_tree s' ! 0 = [g]" "q' < length l" "same_but_tree s s'"
    using next_or_first_child [OF q(1) st(1) assms(2,3) q(2)] by blast
  note sel = same_but_tree_sel [OF s'(5)]
  have w: "ac_word k s' = ?L" "ac_ok s'" using sel st(2) by (auto simp: ac_word_def ac_ok_def)
  obtain a L' where "?L = a # L'" using st(6) by (cases ?L) auto
  then have "(of_nat k :: u8) < cli_autocomplete_end_index s'" using ac_word_Cons(1) [OF w(2), of k a L'] w(1) by simp
  moreover have "stuck root g l k s'" using assms(1) s' sel w by (auto simp: stuck_def)
  moreover have "c_nth (cli_tree s') (unat (cli_tree_index s')) = Some [g, q']" using s'(2) by (simp add: at_item_def c_nth_def)
  ultimately show ?thesis using nm m s'(1) sel(5) st(3) by auto
qed

lemma stuck_never_returns:
  assumes "g < length root" "root ! g = Group n l" "names_ok l" "stuck root g l k s" "length cmd_start = 1"
  shows "ac_loop root cmd_start s (of_nat k) = None"
proof -
  have never: "root' = root \<longrightarrow> c = cmd_start \<longrightarrow> stuck root g l k s \<longrightarrow> i = of_nat k \<longrightarrow> False"
    if "ac_loop root' c s i = Some r" for root' c s i r
  proof (rule ac_loop.raw_induct [where P = "\<lambda>root' c s i r. root' = root \<longrightarrow> c = cmd_start \<longrightarrow> stuck root g l k s \<longrightarrow> i = of_nat k \<longrightarrow> False", OF _ that])
    fix f root' c s i r
    assume ih: "\<And>root' c s i r. f root' c s i = Some r \<Longrightarrow> root' = root \<longrightarrow> c = cmd_start \<longrightarrow> stuck root g l k s \<longrightarrow> i = of_nat k \<longrightarrow> False"
      and body: "do {
         name \<leftarrow> cur_name root' s;
         (s, i, name, failed) \<leftarrow> ac_match root' s i name;
         if failed then Some (s, None)
         else if i \<ge> cli_autocomplete_end_index s then Some (s, Some (i, name))
         else do {
           p \<leftarrow> c_nth (cli_tree s) (unat (cli_tree_index s));
           if p = c then Some (s, None) else f root' c s i
         }
       } = Some r"
    show "root' = root \<longrightarrow> c = cmd_start \<longrightarrow> stuck root g l k s \<longrightarrow> i = of_nat k \<longrightarrow> False"
    proof (intro impI)
      assume eq: "root' = root" "c = cmd_start" "stuck root g l k s" "i = of_nat k"
      obtain s' nm nm' q where s': "cur_name root s = Some nm" "ac_match root s (of_nat k) nm = Some (s', of_nat k, nm', False)"
          "stuck root g l k s'" "(of_nat k :: u8) < cli_autocomplete_end_index s'" "c_nth (cli_tree s') (unat (cli_tree_index s')) = Some [g, q]"
        using stuck_step [OF eq(3) assms(1-3)] by blast
      have "[g, q] \<noteq> cmd_start" using assms(5) by auto
      moreover have "\<not> cli_autocomplete_end_index s' \<le> of_nat k" using s'(4) by (simp add: not_le)
      ultimately have "f root cmd_start s' (of_nat k) = Some r" using body s' unfolding eq(1,2,4) by simp
      then show False using ih [of root cmd_start s' "of_nat k" r] s'(3) by blast
    qed
  qed
  show ?thesis
  proof (cases "ac_loop root cmd_start s (of_nat k)")
    case (Some r)
    then show ?thesis using never [OF Some] assms(4) by blast
  qed
qed

text \<open>The loop makes any number of complete rounds.\<close>

fun ac_rounds :: "'h cli_item list \<Rightarrow> cmd_ptr \<Rightarrow> nat \<Rightarrow> cli \<Rightarrow> u8 \<Rightarrow> (cli \<times> u8) option" where
  "ac_rounds root cmd_start 0 s i = Some (s, i)"
| "ac_rounds root cmd_start (Suc m) s i =
     do {
       name \<leftarrow> cur_name root s;
       (s, i, name, failed) \<leftarrow> ac_match root s i name;
       if failed \<or> i \<ge> cli_autocomplete_end_index s then None
       else do {
         p \<leftarrow> c_nth (cli_tree s) (unat (cli_tree_index s));
         if p = cmd_start then None else ac_rounds root cmd_start m s i
       }
     }"

lemma stuck_rounds:
  assumes "g < length root" "root ! g = Group n l" "names_ok l" "stuck root g l k s" "length cmd_start = 1"
  shows "ac_rounds root cmd_start m s (of_nat k) \<noteq> None"
  using assms(4)
proof (induction m arbitrary: s)
  case (Suc m)
  obtain s' nm nm' q where s': "cur_name root s = Some nm" "ac_match root s (of_nat k) nm = Some (s', of_nat k, nm', False)"
      "stuck root g l k s'" "(of_nat k :: u8) < cli_autocomplete_end_index s'" "c_nth (cli_tree s') (unat (cli_tree_index s')) = Some [g, q]"
    using stuck_step [OF Suc.prems assms(1-3)] by blast
  have "[g, q] \<noteq> cmd_start" using assms(5) by auto
  moreover have "\<not> cli_autocomplete_end_index s' \<le> of_nat k" using s'(4) by (simp add: not_le)
  ultimately have "ac_rounds root cmd_start (Suc m) s (of_nat k) = ac_rounds root cmd_start m s' (of_nat k)"
    using s' by simp
  then show ?case using Suc.IH [OF s'(3)] by simp
qed simp

text \<open>From the start of the line: past the items before the group, then into the group.\<close>

lemma ac_enter_group:
  assumes "at_item [] j s" "cli_autocomplete_start_index s = 0" "ac_ok s" "ac_word 0 s = n @ CH_SPACE # w"
    "CH_NUL \<notin> set w" "CH_SPACE \<notin> set w" "w \<noteq> []" "j \<le> g" "g < length root" "root ! g = Group n l" "l \<noteq> []"
    "names_ok root" "\<forall>i < g. item_name (root ! i) \<noteq> n" "\<forall>it\<in>set l. \<not> prefix w (item_name it)"
  shows "\<exists>s' k r. stuck root g l k s' \<and> ac_loop root [0] s 0 = ac_loop root [0] s' (of_nat k) \<and>
     (\<forall>m. ac_rounds root [0] (r + m) s 0 = ac_rounds root [0] m s' (of_nat k))"
  using assms(1-4,8)
proof (induction "g - j" arbitrary: j s)
  case 0
  then have jg: "j = g" by simp
  have lr: "list_at root [] = Some root" by simp
  have gn: "CH_SPACE \<notin> set n" "CH_NUL \<notin> set n" using assms(9,10,12) nth_mem [of g root] by (fastforce simp: names_ok_def)+
  have it: "item_at root (cli_cmd_list_item s) = Some (Some (Group n l))" using 0 jg assms(9,10) by (simp add: at_item_def)
  obtain s1 where s1: "cli_cmd_item_get_child root s = Some (l \<noteq> [], s1)" "at_item [g] 0 s1" "same_but_tree s s1" "cli_tree s1 ! 0 = [g]"
    using get_child_run [OF 0(2) lr, of n l] assms(9,10) jg by auto
  let ?k = "Suc (length n)" let ?s = "s1\<lparr>cli_autocomplete_start_index := of_nat ?k\<rparr>"
  have nm: "cur_name root s1 = Some (item_name (l ! 0) @ [CH_NUL])"
    using s1(2) assms(9-11) by (simp add: cur_name_def at_item_def)
  have m: "ac_match root s 0 (n @ [CH_NUL]) = Some (?s, of_nat ?k, item_name (l ! 0) @ [CH_NUL], False)"
    using ac_match_group [OF 0(4,5) gn(2) it] s1(1) nm by simp
  note sel = same_but_tree_sel [OF s1(3)]
  have wd: "ac_word ?k ?s = w" using 0(5) sel by (simp add: ac_word_def drop_Suc)
  have ok: "ac_ok ?s" using 0(4) sel by (simp add: ac_ok_def)
  have st: "stuck root g l ?k ?s"
    using s1 wd ok assms(5,6,11,14) by (auto simp: stuck_def at_item_def)
  obtain a w' where "w = a # w'" using assms(7) by (cases w) auto
  then have lt: "(of_nat ?k :: u8) < cli_autocomplete_end_index ?s" using ac_word_Cons(1) [OF ok, of ?k a w'] wd by simp
  then have nle: "\<not> cli_autocomplete_end_index s1 \<le> of_nat ?k" by (simp add: not_le)
  have c: "c_nth (cli_tree ?s) (unat (cli_tree_index ?s)) = Some [g, 0]" "cur_name root s = Some (n @ [CH_NUL])"
    using s1(2) it by (simp_all add: at_item_def c_nth_def cur_name_def)
  have "ac_loop root [0] s 0 = ac_loop root [0] ?s (of_nat ?k)"
    using m nle c by (subst ac_loop.simps) (simp del: of_nat_Suc)
  moreover have "\<forall>m. ac_rounds root [0] (1 + m) s 0 = ac_rounds root [0] m ?s (of_nat ?k)"
    using m nle c by (simp del: of_nat_Suc)
  ultimately have "ac_loop root [0] s 0 = ac_loop root [0] ?s (of_nat ?k)"
      "\<forall>m. ac_rounds root [0] (1 + m) s 0 = ac_rounds root [0] m ?s (of_nat ?k)"
    by blast+
  then show ?case using st by blast
next
  case (Suc x)
  have jg: "j < g" "j < length root" "Suc j < length root" using Suc.hyps(2) assms(9) by auto
  let ?N = "item_name (root ! j)"
  have N: "CH_SPACE \<notin> set ?N" "CH_NUL \<notin> set ?N" "?N \<noteq> n" "CH_SPACE \<notin> set n" "CH_NUL \<notin> set n"
    using assms(9,10,12,13) jg nth_mem [of g root] nth_mem [of j root] by (fastforce simp: names_ok_def)+
  have L: "CH_NUL \<notin> set (n @ CH_SPACE # w)" using N(5) assms(5) by simp
  have np: "\<not> prefix (n @ CH_SPACE # w) ?N" using N(1) by (auto simp: prefix_def)
  have nr: "\<forall>r. n @ CH_SPACE # w \<noteq> ?N @ CH_SPACE # r"
  proof (intro allI notI)
    fix r assume "n @ CH_SPACE # w = ?N @ CH_SPACE # r"
    then have "takeWhile (\<lambda>c. c \<noteq> CH_SPACE) (n @ CH_SPACE # w) = takeWhile (\<lambda>c. c \<noteq> CH_SPACE) (?N @ CH_SPACE # r)" by simp
    moreover have "takeWhile (\<lambda>c. c \<noteq> CH_SPACE) (m @ CH_SPACE # r) = m" if "CH_SPACE \<notin> set m" for m r
      using that by (subst takeWhile_append2) auto
    ultimately show False using N(1,3,4) by simp
  qed
  obtain nm where m: "ac_match root s (of_nat 0) (?N @ [CH_NUL]) =
      do { s' \<leftarrow> next_or_first root s; Some (s', cli_autocomplete_start_index s', nm, False) }"
    using ac_match_mismatch [OF Suc.prems(3,4) L N(1,2) np nr] by blast
  obtain s' where s': "next_or_first root s = Some s'" "at_item [] (Suc j) s'" "same_but_tree s s'"
    using next_or_first_root [OF Suc.prems(1) jg(3)] by blast
  note sel = same_but_tree_sel [OF s'(3)]
  have w: "ac_word 0 s' = n @ CH_SPACE # w" "ac_ok s'" using sel Suc.prems by (auto simp: ac_word_def ac_ok_def)
  obtain a L' where aL: "n @ CH_SPACE # w = a # L'" by (cases n) auto
  have lt: "0 < cli_autocomplete_end_index s'" using ac_word_Cons(1) [OF w(2), of 0 a L'] w(1) aL by simp
  then have nz: "cli_autocomplete_end_index s' \<noteq> 0" by auto
  have c: "c_nth (cli_tree s') (unat (cli_tree_index s')) = Some [Suc j]" "cur_name root s = Some (?N @ [CH_NUL])"
    using s'(2) Suc.prems(1) jg by (simp_all add: at_item_def c_nth_def cur_name_def)
  have step: "ac_loop root [0] s 0 = ac_loop root [0] s' 0"
    using m s'(1) sel(5) Suc.prems(2) nz c by (subst ac_loop.simps) simp
  have step': "\<forall>m. ac_rounds root [0] (Suc m) s 0 = ac_rounds root [0] m s' 0"
    using m s'(1) sel(5) Suc.prems(2) nz c by simp
  obtain s2 k r where "stuck root g l k s2" "ac_loop root [0] s' 0 = ac_loop root [0] s2 (of_nat k)"
      "\<forall>m. ac_rounds root [0] (r + m) s' 0 = ac_rounds root [0] m s2 (of_nat k)"
  proof -
    have "x = g - Suc j" "Suc j \<le> g" "cli_autocomplete_start_index s' = 0" using Suc.hyps(2) jg sel(5) Suc.prems(2) by auto
    then show thesis using Suc.hyps(1) [of "Suc j" s'] s'(2) w that by blast
  qed
  then show ?case using step step' by (intro exI [of _ s2] exI [of _ k] exI [of _ "Suc r"]) (simp del: ac_rounds.simps)
qed

end
