(* ===== verification/Cli_Props.thy ===== *)
theory Cli_Props
  imports Cli_Search
begin

text \<open>
  The properties of the command line interpreter: the history, the arguments of a line, the command that is
  executed, and the key that can hang it.
\<close>

section \<open>History\<close>

text \<open>C18. The command history implements a list of commands. When the circular buffer represents a list, saving
  the current line (at most 63 characters, no zero) returns, stays inside the buffers and leaves a buffer that
  represents the list with the line added at the end and as many of the oldest commands dropped as is needed
  for the rest to fit into 64 characters; an empty line, and a line with which the last command ends, leave the
  list as it is. The line itself is not changed.\<close>

theorem cli_history_refines:
  assumes "hist_rep s cs" "line_ok s"
  shows "\<exists>s'. cli_hist_save_cmd s = Some s' \<and> hist_rep s' (hist_save (cli_line s) cs) \<and>
     cli_hist_index_now s' = cli_hist_index_last s' \<and> cli_line_buf s' = cli_line_buf s \<and> cli_line_buf_index s' = cli_line_buf_index s"
  by (rule save_refines [OF assms])

text \<open>The arrow-up key after a command was saved. With nothing recalled yet it puts the newest command back
  into the line, ready for editing, unless that command is a single character: then the key does nothing, so
  neither that command nor the older ones can be recalled.\<close>

theorem cli_history_recall:
  assumes "hist_rep s cs" "cs \<noteq> []" "cli_hist_index_now s = cli_hist_index_last s" "length (cli_line_buf s) = 64"
  shows "\<exists>s'. cli_hist_load_older_cmd s = Some s' \<and> hist_rep s' cs \<and>
     (if length (last cs) = 1 then s' = s else cli_line s' = last cs \<and> line_ok s')"
  by (rule recall_newest [OF assms])

text \<open>A concrete interpreter: a blank history, the line \<^verbatim>\<open>led on\<close>.\<close>

definition led_on :: ctext where "led_on = [0x6C, 0x65, 0x64, 0x20, 0x6F, 0x6E]"

definition cli0 :: "ctext \<Rightarrow> cli" where
  "cli0 line = \<lparr>vt100_state = 0, cli_line_buf = line @ replicate (64 - length line) CH_NUL, cli_line_buf_index = of_nat (length line),
     cli_autocomplete_start_index = 0, cli_autocomplete_end_index = of_nat (length line),
     cli_hist_circ_buf = replicate 64 CH_NUL, cli_hist_index_last = 0, cli_hist_index_now = 0, cli_argv = [],
     cli_tree = [0] # replicate 9 [], cli_tree_index = 0, cli_cmd_list_item = [0], cli_argv_val = Val_unset, out = []\<rparr>"

lemma cli0_hist: "hist_rep (cli0 line) []"
  by (simp add: hist_rep_def cli0_def from_ix_def layout_def cmds_ok_def)

lemma cli0_line: "length line \<le> 63 \<Longrightarrow> CH_NUL \<notin> set line \<Longrightarrow> line_ok (cli0 line) \<and> cli_line (cli0 line) = line"
  by (simp add: line_ok_def cli_line_def cli0_def unat_of_nat)

lemma led_on_ok: "line_ok (cli0 led_on)" "cli_line (cli0 led_on) = led_on" "length led_on = 6"
  using cli0_line [of led_on] by (simp_all add: led_on_def)

theorem cli_history_refines_witness:
  "\<exists>s'. cli_hist_save_cmd (cli0 led_on) = Some s' \<and> hist_rep s' [led_on] \<and>
     cli_hist_index_now s' = cli_hist_index_last s' \<and> cli_line_buf s' = cli_line_buf (cli0 led_on) \<and>
     cli_line_buf_index s' = cli_line_buf_index (cli0 led_on)"
  using cli_history_refines [OF cli0_hist led_on_ok(1)] led_on_ok(2,3) by (auto simp: hist_save_def is_dup_def split: if_splits)

text \<open>The state after the line was saved, with the six characters at the start of the circular buffer.\<close>

definition cli1 :: cli where
  "cli1 = (cli0 [])\<lparr>cli_hist_circ_buf := CH_NUL # led_on @ replicate 57 CH_NUL, cli_hist_index_last := 7, cli_hist_index_now := 7\<rparr>"

lemma cli1_hist: "hist_rep cli1 [led_on]"
  by code_simp

theorem cli_history_recall_witness:
  "\<exists>s'. cli_hist_load_older_cmd cli1 = Some s' \<and> hist_rep s' [led_on] \<and> cli_line s' = led_on \<and> line_ok s'"
  using cli_history_recall [OF cli1_hist] by (simp add: cli1_def cli0_def led_on_ok(3))

section \<open>Arguments\<close>

text \<open>C19. Splitting the line. For every line without a zero \<^verbatim>\<open>cli_cmd_line_to_args\<close> returns, stays inside the line
  buffer and leaves pointers to exactly the first sixteen arguments that the reference function finds, each
  terminated by a zero. The reference carries the flag of the code from one argument to the next: after a quoted
  argument the rest of the line is read as if every argument were quoted.\<close>

theorem cli_args_split:
  assumes "line_ok s"
  shows "\<exists>s'. cli_cmd_line_to_args s = Some s' \<and> s' = s\<lparr>cli_line_buf := cli_line_buf s', cli_argv := cli_argv s'\<rparr> \<and>
     length (cli_line_buf s') = 64 \<and> strs_at (cli_line_buf s') (cli_argv s') = Some (take 16 (args False (cli_line s)))"
  by (rule line_to_args_run [OF assms])

text \<open>The line \<^verbatim>\<open>"a" b c\<close> has the two arguments \<^verbatim>\<open>a\<close> and \<^verbatim>\<open>b c\<close>.\<close>

lemma args_sticky_quote:
  "args False [CH_QUOTE, 0x61, CH_QUOTE, CH_SPACE, 0x62, CH_SPACE, 0x63] = [[0x61], [0x62, CH_SPACE, 0x63]]"
  by (simp add: args.simps ltrim_def upto_ch_def from_ch_def)

theorem cli_args_split_witness:
  "\<exists>s'. cli_cmd_line_to_args (cli0 [CH_QUOTE, 0x61, CH_QUOTE, CH_SPACE, 0x62, CH_SPACE, 0x63]) = Some s' \<and>
     strs_at (cli_line_buf s') (cli_argv s') = Some [[0x61], [0x62, CH_SPACE, 0x63]]"
  using cli_args_split [of "cli0 [CH_QUOTE, 0x61, CH_QUOTE, CH_SPACE, 0x62, CH_SPACE, 0x63]"]
    cli0_line [of "[CH_QUOTE, 0x61, CH_QUOTE, CH_SPACE, 0x62, CH_SPACE, 0x63]"]
  by (auto simp: args_sticky_quote)

section \<open>Executing a command\<close>

lemma str_at_hd: "str_at buf p = Some a \<Longrightarrow> c_nth buf p = Some (hd (a @ [CH_NUL]))"
proof -
  assume a: "str_at buf p = Some a"
  then have n: "CH_NUL \<in> set (drop p buf)" "a = takeWhile (\<lambda>c. c \<noteq> CH_NUL) (drop p buf)" by (auto simp: str_at_def split: if_splits)
  then obtain x xs where d: "drop p buf = x # xs" by (cases "drop p buf") auto
  then have "p < length buf" "buf ! p = x" by (metis drop_all linorder_not_less list.distinct(1), metis d nth_via_drop)
  then show ?thesis using n d by (auto simp: c_nth_def)
qed

text \<open>What \<^verbatim>\<open>cli_cmd_exe\<close> does once it has looked up the command.\<close>

definition run_found :: "('h \<Rightarrow> ctext list \<Rightarrow> cli \<Rightarrow> (ctext option \<times> cli) option) \<Rightarrow> ('h \<times> cli_cmd_t \<times> ctext list) option \<Rightarrow> cli \<Rightarrow> cli option" where
  "run_found call r s1 =
     (case r of
        None \<Rightarrow> Some s1
      | Some (h, c, rest) \<Rightarrow>
          if length rest < unat (argc_min c) \<or> length rest > unat (argc_max c)
          then Some (xputs (ascii ''Error! Number of parameters incorrect'' @ [VT100_CHAR_LF]) s1)
          else do {
            (report, s2) \<leftarrow> call h rest s1;
            Some (case report of None \<Rightarrow> s2 | Some str \<Rightarrow> xputc VT100_CHAR_LF (xputs str s2))
          })"

text \<open>C20. The command that is executed. For a line that is not empty and not a comment, in a command tree of at
  most ten levels, \<^verbatim>\<open>cli_cmd_exe\<close> finishes its search and does what the lookup in the tree says for the first
  sixteen arguments: no match prints an error and calls nothing; a match prints \<^verbatim>\<open>OK\<close> and, when the number of
  remaining arguments is within the bounds of the command, calls its handler once with exactly the remaining
  arguments and prints the text it returns. The history is not touched before the handler runs.\<close>

theorem cli_exe_dispatch:
  assumes "line_ok s" "length (cli_tree s) = 10" "depth_le 9 root" "args False (cli_line s) = a # as" "take 1 a \<noteq> [CH_HASH]"
  shows "\<exists>s1. cli_cmd_exe call root s = run_found call (lookup root (take 16 (a # as))) s1 \<and>
     out s1 = out s @ (if lookup root (take 16 (a # as)) = None then ascii ''Error! Command not found'' else ascii '' OK'') @ [VT100_CHAR_LF] \<and>
     cli_hist_circ_buf s1 = cli_hist_circ_buf s \<and> cli_hist_index_last s1 = cli_hist_index_last s \<and> cli_hist_index_now s1 = cli_hist_index_now s"
proof -
  define A where "A = take 16 (a # as)"
  obtain sa where sa: "cli_cmd_line_to_args s = Some sa" "sa = s\<lparr>cli_line_buf := cli_line_buf sa, cli_argv := cli_argv sa\<rparr>"
      "strs_at (cli_line_buf sa) (cli_argv sa) = Some A"
    using line_to_args_run [OF assms(1)] unfolding assms(4) A_def by blast
  have ta: "length (cli_tree sa) = 10" using assms(2) by (subst sa(2)) simp
  obtain sb where sb: "cli_cmd_item_get_root root sa = Some (root \<noteq> [], sb)" "at_item [] 0 sb" "same_but_tree sa sb"
    using get_root_run [OF ta] by blast
  have strs: "strs_at (cli_line_buf sb) (cli_argv sb) = Some A" using sa(3) same_but_tree_sel [OF sb(3)] by simp
  obtain s1 where s1: "same_but_tree sb s1"
      "case lookup root A of
          None \<Rightarrow> exe_find root sb = Some (xputs (ascii ''Error! Command not found'' @ [VT100_CHAR_LF]) s1, None)
        | Some (h, c, rest) \<Rightarrow> exe_find root sb = Some (xputs (ascii '' OK'' @ [VT100_CHAR_LF]) s1, Some (h, c)) \<and>
            unat (cli_tree_index s1) < length A \<and> rest = drop (Suc (unat (cli_tree_index s1))) A"
    using exe_find_run [OF strs sb(2), of root root] assms(3) by (auto simp: found_result_def)
  define s1' where "s1' = xputs ((if lookup root A = None then ascii ''Error! Command not found'' else ascii '' OK'') @ [VT100_CHAR_LF]) s1"
  have ne: "cli_argv sa \<noteq> []" "str_at (cli_line_buf sa) (hd (cli_argv sa)) = Some a"
    using sa(3) by (cases "cli_argv sa"; auto simp: A_def split: Option.bind_splits)+
  have hash: "c_nth (cli_line_buf sa) (hd (cli_argv sa)) = Some (hd (a @ [CH_NUL]))" "hd (a @ [CH_NUL]) \<noteq> CH_HASH"
    using str_at_hd [OF ne(2)] assms(5) by (auto simp: hd_append) (cases a; simp)
  have tr: "same_but_tree sa s1" using same_but_tree_trans sb(3) s1(1) by blast
  note sel = same_but_tree_sel [OF tr]
  have rest: "strs_at (cli_line_buf s1') (drop n (cli_argv s1')) = Some (drop n A)" for n
    using strs_at_drop [OF sa(3)] sel by (simp add: s1'_def xputs_def)
  have "cli_cmd_exe call root s = run_found call (lookup root A) s1'"
  proof (cases "lookup root A")
    case None
    then show ?thesis using s1(2) ne hash sb(1) by (simp add: cli_cmd_exe_def sa(1) run_found_def s1'_def)
  next
    case (Some r)
    then obtain h c rs where r: "lookup root A = Some (h, c, rs)" by (cases r) auto
    then have f: "exe_find root sb = Some (s1', Some (h, c))" "rs = drop (Suc (unat (cli_tree_index s1'))) A"
      using s1(2) by (auto simp: s1'_def xputs_def)
    have len: "length (drop (Suc (unat (cli_tree_index s1'))) (cli_argv s1')) = length rs"
      using strs_at_nth [OF rest [of 0, simplified]] f(2) by simp
    show ?thesis using r f(1) ne hash sb(1) rest [of "Suc (unat (cli_tree_index s1'))"] len f(2) [symmetric]
      by (cases "call h rs s1'") (auto simp: cli_cmd_exe_def sa(1) run_found_def Let_def split: option.split)
  qed
  moreover have "cli_hist_circ_buf s1' = cli_hist_circ_buf s \<and> cli_hist_index_last s1' = cli_hist_index_last s \<and>
      cli_hist_index_now s1' = cli_hist_index_now s \<and> out s1 = out s"
    using tr sa(2) by (cases s; cases sa; cases s1) (simp add: s1'_def xputs_def same_but_tree_def)
  ultimately show ?thesis unfolding A_def [symmetric] by (intro exI [of _ s1']) (simp add: s1'_def xputs_def)
qed

text \<open>A tree with the group \<^verbatim>\<open>led\<close> and the command \<^verbatim>\<open>on\<close> in it, which takes no arguments; its handler is named by a
  number and reports nothing.\<close>

definition on_cmd :: cli_cmd_t where
  "on_cmd = \<lparr>cmd_name = [0x6F, 0x6E], argc_min = 0, argc_max = 0, cmd_param = [], cmd_help = []\<rparr>"

definition led_tree :: "nat cli_item list" where
  "led_tree = [Group [0x6C, 0x65, 0x64] [Cmd 7 on_cmd]]"

lemma led_on_args: "args False led_on = [[0x6C, 0x65, 0x64], [0x6F, 0x6E]]"
  by (simp add: led_on_def args.simps ltrim_def upto_ch_def from_ch_def)

theorem cli_exe_dispatch_witness:
  "\<exists>s1. cli_cmd_exe (\<lambda>h as s. if h = 7 \<and> as = [] then Some (None, s) else None) led_tree (cli0 led_on) = Some s1 \<and>
     out s1 = ascii '' OK'' @ [VT100_CHAR_LF]"
proof -
  have t: "length (cli_tree (cli0 led_on)) = 10" "depth_le 9 led_tree" "out (cli0 led_on) = []"
    by (simp_all add: cli0_def led_tree_def eval_nat_numeral)
  show ?thesis
    using cli_exe_dispatch [OF led_on_ok(1) t(1,2), of "[0x6C, 0x65, 0x64]" "[[0x6F, 0x6E]]" "\<lambda>h as s. if h = 7 \<and> as = [] then Some (None, s) else None"]
    by (auto simp: led_on_ok(2) led_on_args led_tree_def run_found_def on_cmd_def t(3))
qed

section \<open>Autocomplete\<close>

text \<open>C21. The TAB key can hang the interpreter. When the line is the name of a group, a blank and a word with which
  no item of the group starts, \<^verbatim>\<open>cli_autocomplete\<close> does not return, so \<^verbatim>\<open>cli_on_rx_char\<close> does not either: the loop
  makes arbitrarily many complete rounds over the items of the group, because it compares its position with
  the item of the root list where it began.\<close>

theorem cli_tab_hangs:
  assumes "at_item [] 0 s" "cli_autocomplete_start_index s = 0" "ac_ok s" "ac_word 0 s = n @ CH_SPACE # w"
    "CH_NUL \<notin> set w" "CH_SPACE \<notin> set w" "w \<noteq> []" "g < length root" "root ! g = Group n l" "l \<noteq> []"
    "names_ok root" "names_ok l" "\<forall>i < g. item_name (root ! i) \<noteq> n" "\<forall>it\<in>set l. \<not> prefix w (item_name it)" "vt100_state s = 0"
  shows "cli_on_rx_char call root prompt VT100_CHAR_TAB s = None \<and> cli_autocomplete root s = None \<and>
     (\<forall>m. \<exists>m' \<ge> m. ac_rounds root [0] m' s (cli_autocomplete_start_index s) \<noteq> None)"
proof -
  obtain s' k r where st: "stuck root g l k s'" "ac_loop root [0] s 0 = ac_loop root [0] s' (of_nat k)"
      "\<forall>m. ac_rounds root [0] (r + m) s 0 = ac_rounds root [0] m s' (of_nat k)"
    using ac_enter_group [OF assms(1-7) _ assms(8-11,13,14)] by blast
  have "cli_autocomplete root s = None"
    using st(2) stuck_never_returns [OF assms(8,9,12) st(1), of "[0]"] assms(1,2)
    by (simp add: cli_autocomplete_def at_item_def c_nth_def)
  moreover have "\<exists>m' \<ge> m. ac_rounds root [0] m' s (cli_autocomplete_start_index s) \<noteq> None" for m
    using st(3) stuck_rounds [OF assms(8,9,12) st(1), of "[0]" m] assms(2) by (intro exI [of _ "r + m"]) simp
  ultimately show ?thesis using assms(15) by (simp add: cli_on_rx_char_def vt100_on_rx_char_def)
qed

text \<open>The line \<^verbatim>\<open>led x\<close> in that tree.\<close>

theorem cli_tab_hangs_witness:
  "cli_on_rx_char (\<lambda>h as s. Some (None, s)) led_tree [] VT100_CHAR_TAB (cli0 [0x6C, 0x65, 0x64, 0x20, 0x78]) = None"
proof -
  let ?s = "cli0 [0x6C, 0x65, 0x64, 0x20, 0x78]"
  have s: "at_item [] 0 ?s" "cli_autocomplete_start_index ?s = 0" "ac_ok ?s" "ac_word 0 ?s = [0x6C, 0x65, 0x64] @ CH_SPACE # [0x78]" "vt100_state ?s = 0"
    by (simp_all add: at_item_def cli0_def ac_ok_def ac_word_def)
  have t: "0 < length led_tree" "led_tree ! 0 = Group [0x6C, 0x65, 0x64] [Cmd 7 on_cmd]" "[Cmd 7 on_cmd] \<noteq> []"
    "names_ok led_tree" "names_ok [Cmd 7 on_cmd]" "\<forall>it\<in>set [Cmd 7 on_cmd]. \<not> prefix [0x78] (item_name it)"
    by (simp_all add: led_tree_def on_cmd_def names_ok_def)
  show ?thesis
    using cli_tab_hangs [OF s(1-4) _ _ _ t(1-5) _ t(6) s(5), of "\<lambda>h as s. Some (None, s)" "[]"] by simp
qed

end
