(* ===== verification/Monitor.thy ===== *)
theory Monitor
  imports Prelude
begin

text \<open>
  The console: \<^verbatim>\<open>src/monitor.c\<close>, character and string output, formatted output, memory dumps, line input and
  the conversion of a number.

  The state is the module's three pointers, the memory that \<^verbatim>\<open>xsprintf\<close> writes to, the bytes each output
  function has been called with, in order, and the bytes the input functions are going to return. An output or
  input function is application code: a value of the type \<open>'d\<close>, called with one byte or for one byte. A string
  argument is the list of its bytes. \<^verbatim>\<open>int\<close>, \<^verbatim>\<open>long\<close> and pointers have 32 bits and plain \<^verbatim>\<open>char\<close> is unsigned, as
  on the target. An argument of the wrong type, a missing one, a write past \<^verbatim>\<open>s[16]\<close> or past the line buffer, a
  null output pointer and an input function that does not return are \<open>None\<close>.
\<close>

section \<open>State and character output\<close>

record 'd mon =
  xfunc_out :: "'d option"
  outptr :: nat
  xmem :: "nat \<Rightarrow> u8"
  sent :: "('d \<times> u8) list"
  xfunc_in :: "'d option"
  incoming :: "'d \<Rightarrow> u8 list"

text \<open>The part of \<^verbatim>\<open>xputc\<close> after the newline test.\<close>

definition xput_raw :: "u8 \<Rightarrow> 'd mon \<Rightarrow> 'd mon" where
  "xput_raw c s =
     (if outptr s \<noteq> 0 then s\<lparr>xmem := (xmem s)(outptr s := c), outptr := outptr s + 1\<rparr>
      else case xfunc_out s of None \<Rightarrow> s | Some d \<Rightarrow> s\<lparr>sent := sent s @ [(d, c)]\<rparr>)"

function xputc :: "u8 \<Rightarrow> 'd mon \<Rightarrow> 'd mon" where
  "xputc c s = xput_raw c (if c = 0x0A then xputc 0x0D s else s)"
  by pat_completeness auto
termination
  by (relation "measure (\<lambda>(c, s). if c = 0x0A then 1 else 0)") auto

declare xputc.simps [simp del]

fun xputs :: "ctext \<Rightarrow> 'd mon \<Rightarrow> 'd mon" where
  "xputs [] s = s"
| "xputs (c # str) s = (if c = 0 then s else xputs str (xputc c s))"

definition xfputs :: "'d option \<Rightarrow> ctext \<Rightarrow> 'd mon \<Rightarrow> 'd mon" where
  "xfputs func str s =
     (let pf = xfunc_out s;
          s = s\<lparr>xfunc_out := func\<rparr>;
          s = xputs str s
      in s\<lparr>xfunc_out := pf\<rparr>)"

section \<open>Formatted output\<close>

text \<open>The variable arguments, and \<^verbatim>\<open>va_arg\<close> at an integer and at a string pointer.\<close>

datatype xarg = AInt u32 | AStr ctext

fun va_int :: "xarg list \<Rightarrow> (u32 \<times> xarg list) option" where
  "va_int (AInt v # arp) = Some (v, arp)"
| "va_int _ = None"

fun va_str :: "xarg list \<Rightarrow> (ctext \<times> xarg list) option" where
  "va_str (AStr p # arp) = Some (p, arp)"
| "va_str _ = None"

text \<open>\<^verbatim>\<open>c = *fmt++\<close>.\<close>

fun fetch :: "ctext \<Rightarrow> u8 \<times> ctext" where
  "fetch [] = (0, [])"
| "fetch (c # fmt) = (c, fmt)"

text \<open>The loop that reads the minimum width.\<close>

definition is_digit :: "u8 \<Rightarrow> bool" where
  "is_digit c \<longleftrightarrow> 0x30 \<le> c \<and> c \<le> 0x39"

fun xv_width :: "u32 \<Rightarrow> u8 \<Rightarrow> ctext \<Rightarrow> u32 \<times> u8 \<times> ctext" where
  "xv_width w c [] = (if is_digit c then (w * 10 + ucast c - 0x30, 0, []) else (w, c, []))"
| "xv_width w c (x # fmt) = (if is_digit c then xv_width (w * 10 + ucast c - 0x30) x fmt else (w, c, x # fmt))"

text \<open>A conversion specification after its percent sign: flags \<open>f\<close>, width \<open>w\<close>, type \<open>c\<close> and the rest.\<close>

definition xv_spec :: "ctext \<Rightarrow> u32 \<times> u32 \<times> u8 \<times> ctext" where
  "xv_spec fmt =
     (let (c, fmt) = fetch fmt;
          (f, c, fmt) = (if c = 0x30 then (1, fetch fmt) else if c = 0x2D then (2, fetch fmt) else (0, c, fmt));
          (w, c, fmt) = xv_width 0 c fmt;
          (f, c, fmt) = (if c = 0x6C \<or> c = 0x4C then (f OR 4, fetch fmt) else (f, c, fmt))
      in (f, w, c, fmt))"

text \<open>\<^verbatim>\<open>while (j++ < w) xputc(d)\<close>.\<close>

function xv_pad :: "u32 \<Rightarrow> u32 \<Rightarrow> u8 \<Rightarrow> 'd mon \<Rightarrow> u32 \<times> 'd mon" where
  "xv_pad j w d s = (if j < w then xv_pad (j + 1) w d (xputc d s) else (j + 1, s))"
  by pat_completeness auto
termination
proof (relation "measure (\<lambda>(j, w, d, s). unat w - unat j)")
  fix j w :: u32 and d :: u8 and s :: "'d mon"
  assume "j < w"
  then have "unat (j + 1) = Suc (unat j)" "unat j < unat w"
    using unat_u32_lt [of w] by (simp_all add: word_less_nat_alt unat_Suc_small)
  then show "((j + 1, w, d, xputc d s), j, w, d, s) \<in> measure (\<lambda>(j, w, d, s). unat w - unat j)"
    by simp
qed simp

declare xv_pad.simps [simp del]

fun xv_len :: "ctext \<Rightarrow> u32" where
  "xv_len [] = 0"
| "xv_len (c # p) = (if c = 0 then 0 else 1 + xv_len p)"

text \<open>The branch of \<^verbatim>\<open>%s\<close>.\<close>

definition xv_string :: "u32 \<Rightarrow> u32 \<Rightarrow> ctext \<Rightarrow> 'd mon \<Rightarrow> 'd mon" where
  "xv_string f w p s =
     (let j = xv_len p;
          (j, s) = (if f AND 2 = 0 then xv_pad j w 0x20 s else (j, s));
          s = xputs p s;
          (j, s) = xv_pad j w 0x20 s
      in s)"

text \<open>The array \<^verbatim>\<open>s[16]\<close> with the index \<open>i\<close>: the elements written so far.\<close>

definition s_put :: "u8 \<Rightarrow> u8 list \<Rightarrow> u8 list option" where
  "s_put x s = (if length s < 16 then Some (s @ [x]) else None)"

definition xv_digit :: "u8 \<Rightarrow> u32 \<Rightarrow> u32 \<Rightarrow> u8" where
  "xv_digit c v r =
     (let d = ucast (v mod r);
          d = (if d > 9 then d + (if c = 0x78 then 0x27 else 0x07) else d)
      in d + 0x30)"

function xv_digits :: "u8 \<Rightarrow> u32 \<Rightarrow> u32 \<Rightarrow> u8 list \<Rightarrow> u8 list option" where
  "xv_digits c v r s =
     (case s_put (xv_digit c v r) s of
        None \<Rightarrow> None
      | Some s \<Rightarrow> if v div r \<noteq> 0 \<and> length s < 16 then xv_digits c (v div r) r s else Some s)"
  by pat_completeness auto
termination
  by (relation "measure (\<lambda>(c, v, r, s). 16 - length s)") (auto simp: s_put_def split: if_splits)

declare xv_digits.simps [simp del]

text \<open>\<^verbatim>\<open>do xputc(s[--i]); while (i)\<close>.\<close>

fun xv_back :: "u8 list \<Rightarrow> nat \<Rightarrow> 'd mon \<Rightarrow> 'd mon" where
  "xv_back s 0 st = st"
| "xv_back s (Suc i) st = xv_back s i (xputc (s ! i) st)"

text \<open>From fetching the integer argument to the end of the loop body; \<open>c\<close> is the type as written, \<open>d\<close> in
  upper case, \<open>r\<close> the radix.\<close>

definition xv_number :: "u32 \<Rightarrow> u32 \<Rightarrow> u8 \<Rightarrow> u8 \<Rightarrow> u32 \<Rightarrow> u32 \<Rightarrow> 'd mon \<Rightarrow> 'd mon option" where
  "xv_number f w c d r v st =
     (let (v, f) = (if d = 0x44 \<and> v AND 0x80000000 \<noteq> 0 then (0 - v, f OR 8) else (v, f))
      in do {
        s \<leftarrow> xv_digits c v r [];
        s \<leftarrow> (if f AND 8 \<noteq> 0 then s_put 0x2D s else Some s);
        let j = of_nat (length s);
        let d = (if f AND 1 \<noteq> 0 then 0x30 else 0x20);
        let (j, st) = (if f AND 2 = 0 then xv_pad j w d st else (j, st));
        let st = xv_back s (length s) st;
        let (j, st) = xv_pad j w 0x20 st;
        Some st
      })"

definition xv_upper :: "u8 \<Rightarrow> u8" where
  "xv_upper c = (if c \<ge> 0x61 then c - 0x20 else c)"

definition xv_radix :: "u8 \<Rightarrow> u32 option" where
  "xv_radix d =
     (if d = 0x42 then Some 2 else if d = 0x4F then Some 8 else if d = 0x44 \<or> d = 0x55 then Some 10
      else if d = 0x58 then Some 16 else None)"

text \<open>The \<^verbatim>\<open>switch\<close> and what follows it.\<close>

definition xv_conv :: "u32 \<Rightarrow> u32 \<Rightarrow> u8 \<Rightarrow> xarg list \<Rightarrow> 'd mon \<Rightarrow> (xarg list \<times> 'd mon) option" where
  "xv_conv f w c arp s =
     (let d = xv_upper c
      in if d = 0x53 then do { (p, arp) \<leftarrow> va_str arp; Some (arp, xv_string f w p s) }
         else if d = 0x43 then do { (v, arp) \<leftarrow> va_int arp; Some (arp, xputc (ucast v) s) }
         else case xv_radix d of
             None \<Rightarrow> Some (arp, xputc c s)
           | Some r \<Rightarrow> do { (v, arp) \<leftarrow> va_int arp; s \<leftarrow> xv_number f w c d r v s; Some (arp, s) })"

lemma length_fetch: "fetch fmt = (c, fmt') \<Longrightarrow> length fmt' \<le> length fmt"
  by (cases fmt) auto

lemma length_xv_width: "xv_width w c fmt = (w', c', fmt') \<Longrightarrow> length fmt' \<le> length fmt"
  by (induction w c fmt rule: xv_width.induct) (auto split: if_splits)

lemma length_xv_spec: "xv_spec fmt = (f, w, c, fmt') \<Longrightarrow> length fmt' \<le> length fmt"
  by (auto simp: xv_spec_def Let_def split: prod.splits if_splits dest!: length_fetch length_xv_width)

function xvprintf :: "ctext \<Rightarrow> xarg list \<Rightarrow> 'd mon \<Rightarrow> 'd mon option" where
  "xvprintf [] arp s = Some s"
| "xvprintf (c # fmt) arp s =
     (if c = 0 then Some s
      else if c \<noteq> 0x25 then xvprintf fmt arp (xputc c s)
      else case xv_spec fmt of (f, w, c, fmt) \<Rightarrow>
        if c = 0 then Some s
        else case xv_conv f w c arp s of None \<Rightarrow> None | Some (arp, s) \<Rightarrow> xvprintf fmt arp s)"
  by pat_completeness auto
termination
  by (relation "measure (\<lambda>(fmt, arp, s). length fmt)") (auto dest: length_xv_spec [OF sym])

declare xvprintf.simps [simp del]

definition xprintf :: "ctext \<Rightarrow> xarg list \<Rightarrow> 'd mon \<Rightarrow> 'd mon option" where
  "xprintf fmt arp s = xvprintf fmt arp s"

definition xsprintf :: "nat \<Rightarrow> ctext \<Rightarrow> xarg list \<Rightarrow> 'd mon \<Rightarrow> 'd mon option" where
  "xsprintf buff fmt arp s =
     do {
       s \<leftarrow> xvprintf fmt arp (s\<lparr>outptr := buff\<rparr>);
       if outptr s = 0 then None
       else Some (s\<lparr>xmem := (xmem s)(outptr s := 0), outptr := 0\<rparr>)
     }"

definition xfprintf :: "'d option \<Rightarrow> ctext \<Rightarrow> xarg list \<Rightarrow> 'd mon \<Rightarrow> 'd mon option" where
  "xfprintf func fmt arp s =
     do {
       let pf = xfunc_out s;
       s \<leftarrow> xvprintf fmt arp (s\<lparr>xfunc_out := func\<rparr>);
       Some (s\<lparr>xfunc_out := pf\<rparr>)
     }"

section \<open>Memory dump\<close>

definition DW_CHAR :: int where "DW_CHAR = 1"
definition DW_SHORT :: int where "DW_SHORT = 2"
definition DW_LONG :: int where "DW_LONG = 4"

text \<open>The loops over the items. The counted loops take the number of rounds left. The two loops
  \<^verbatim>\<open>do ... while (--len)\<close> go on below zero, until the subtraction overflows.\<close>

fun dump_bytes :: "nat \<Rightarrow> nat \<Rightarrow> 'd mon \<Rightarrow> 'd mon option" where
  "dump_bytes bp 0 s = Some s"
| "dump_bytes bp (Suc n) s =
     do { s \<leftarrow> xprintf (ascii '' %02X'') [AInt (ucast (xmem s bp))] s; dump_bytes (bp + 1) n s }"

fun dump_text :: "nat \<Rightarrow> nat \<Rightarrow> 'd mon \<Rightarrow> 'd mon" where
  "dump_text bp 0 s = s"
| "dump_text bp (Suc n) s =
     dump_text (bp + 1) n (xputc (if xmem s bp \<ge> 0x20 \<and> xmem s bp \<le> 0x7E then xmem s bp else 0x2E) s)"

definition mem16 :: "'d mon \<Rightarrow> nat \<Rightarrow> u32" where
  "mem16 s a = ucast (xmem s a) + 256 * ucast (xmem s (a + 1))"

definition mem32 :: "'d mon \<Rightarrow> nat \<Rightarrow> u32" where
  "mem32 s a = mem16 s a + 65536 * mem16 s (a + 2)"

function dump_shorts :: "nat \<Rightarrow> int \<Rightarrow> 'd mon \<Rightarrow> 'd mon option" where
  "dump_shorts sp len s =
     (case xprintf (ascii '' %04X'') [AInt (mem16 s sp)] s of
        None \<Rightarrow> None
      | Some s \<Rightarrow> if len \<le> -2147483648 then None
                  else if len - 1 = 0 then Some s else dump_shorts (sp + 2) (len - 1) s)"
  by pat_completeness auto
termination
  by (relation "measure (\<lambda>(sp, len, s). nat (len + 2147483648))") auto

function dump_longs :: "nat \<Rightarrow> int \<Rightarrow> 'd mon \<Rightarrow> 'd mon option" where
  "dump_longs lp len s =
     (case xprintf (ascii '' %08LX'') [AInt (mem32 s lp)] s of
        None \<Rightarrow> None
      | Some s \<Rightarrow> if len \<le> -2147483648 then None
                  else if len - 1 = 0 then Some s else dump_longs (lp + 4) (len - 1) s)"
  by pat_completeness auto
termination
  by (relation "measure (\<lambda>(lp, len, s). nat (len + 2147483648))") auto

declare dump_shorts.simps [simp del] dump_longs.simps [simp del]

definition put_dump :: "nat \<Rightarrow> u32 \<Rightarrow> int \<Rightarrow> int \<Rightarrow> 'd mon \<Rightarrow> 'd mon option" where
  "put_dump buff addr len width s =
     do {
       s \<leftarrow> xprintf (ascii ''%08lX:'') [AInt addr] s;
       s \<leftarrow> (if width = DW_CHAR then
               do {
                 s \<leftarrow> dump_bytes buff (nat len) s;
                 Some (dump_text buff (nat len) (xputc 0x20 s))
               }
             else if width = DW_SHORT then dump_shorts buff len s
             else if width = DW_LONG then dump_longs buff len s
             else Some s);
       Some (xputc 0x0A s)
     }"

section \<open>Line input\<close>

text \<open>The loop of \<^verbatim>\<open>xgets\<close>, over the bytes that the input function returns; it gives the return value, the
  bytes that are left and the state.\<close>

fun xgets_loop :: "nat \<Rightarrow> int \<Rightarrow> nat \<Rightarrow> u8 list \<Rightarrow> 'd mon \<Rightarrow> (nat \<times> u8 list \<times> 'd mon) option" where
  "xgets_loop buff len i [] s = None"
| "xgets_loop buff len i (c # cs) s =
     (if c = 0 then Some (0, cs, s)
      else if c = 0x0D then Some (1, cs, xputc 0x0A (s\<lparr>xmem := (xmem s)(buff + i := 0)\<rparr>))
      else if c = 0x08 \<and> i \<noteq> 0 then xgets_loop buff len (i - 1) cs (xputc c s)
      else if c \<ge> 0x20 \<and> int i < len - 1
      then xgets_loop buff len (i + 1) cs (xputc c (s\<lparr>xmem := (xmem s)(buff + i := c)\<rparr>))
      else xgets_loop buff len i cs s)"

definition xgets :: "nat \<Rightarrow> int \<Rightarrow> 'd mon \<Rightarrow> (nat \<times> 'd mon) option" where
  "xgets buff len s =
     (case xfunc_in s of
        None \<Rightarrow> Some (0, s)
      | Some d \<Rightarrow>
          do {
            (n, cs, s) \<leftarrow> xgets_loop buff len 0 (incoming s d) s;
            Some (n, s\<lparr>incoming := (incoming s)(d := cs)\<rparr>)
          })"

definition xfgets :: "'d option \<Rightarrow> nat \<Rightarrow> int \<Rightarrow> 'd mon \<Rightarrow> (nat \<times> 'd mon) option" where
  "xfgets func buff len s =
     do {
       let pf = xfunc_in s;
       (n, s) \<leftarrow> xgets buff len (s\<lparr>xfunc_in := func\<rparr>);
       Some (n, s\<lparr>xfunc_in := pf\<rparr>)
     }"

section \<open>Numbers from text\<close>

text \<open>The result is the return value, the text that \<^verbatim>\<open>*str\<close> is left at and \<^verbatim>\<open>*res\<close>.\<close>

fun skip_blanks :: "ctext \<Rightarrow> ctext" where
  "skip_blanks [] = []"
| "skip_blanks (c # str) = (if c = 0x20 then skip_blanks str else c # str)"

definition xa_digit :: "u8 \<Rightarrow> u8" where
  "xa_digit c =
     (let c = (if c \<ge> 0x61 then c - 0x20 else c);
          c = c - 0x30
      in if c \<ge> 17 then c - 7 else c)"

text \<open>In the source a digit found by the subtraction of 7 is also refused when it is at most 9.\<close>

definition xa_refused :: "u8 \<Rightarrow> u8 \<Rightarrow> bool" where
  "xa_refused r c \<longleftrightarrow>
     (let b = (if c \<ge> 0x61 then c - 0x20 else c) - 0x30
      in (b \<ge> 17 \<and> b - 7 \<le> 9) \<or> xa_digit c \<ge> r)"

fun xa_loop :: "u8 \<Rightarrow> u32 \<Rightarrow> ctext \<Rightarrow> u32 option \<times> ctext" where
  "xa_loop r val [] = (Some val, [])"
| "xa_loop r val (c # str) =
     (if c > 0x20 then
        if xa_refused r c then (None, c # str)
        else xa_loop r (val * ucast r + ucast (xa_digit c)) str
      else (Some val, c # str))"

text \<open>From \<^verbatim>\<open>val = 0\<close> to the end.\<close>

definition xa_value :: "bool \<Rightarrow> u8 \<Rightarrow> ctext \<Rightarrow> nat \<times> ctext \<times> u32" where
  "xa_value neg r str =
     (case xa_loop r 0 str of
        (None, str) \<Rightarrow> (0, str, 0)
      | (Some val, str) \<Rightarrow> (1, str, if neg then 0 - val else val))"

definition xatoi :: "ctext \<Rightarrow> nat \<times> ctext \<times> u32" where
  "xatoi str =
     (let str = skip_blanks str;
          c = fst (fetch str);
          (neg, str) = (if c = 0x2D then (True, tl str) else (False, str));
          c = fst (fetch str)
      in if c = 0x30 then
           let str = tl str; c = fst (fetch str)
           in if c = 0x78 then xa_value neg 16 (tl str)
              else if c = 0x62 then xa_value neg 2 (tl str)
              else if c \<le> 0x20 then (1, str, 0)
              else if \<not> is_digit c then (0, str, 0)
              else xa_value neg 8 str
         else if \<not> is_digit c then (0, str, 0)
         else xa_value neg 10 str)"

end
