(* ===== verification/Monitor_Facts.thy ===== *)
theory Monitor_Facts
  imports Monitor
begin

text \<open>
  What the console operations compute: a reference renderer for format strings and the lemmas that take every
  output operation of \<^verbatim>\<open>src/monitor.c\<close> to the text it emits.
\<close>

section \<open>Emitted text\<close>

text \<open>Bytes that reach the destination, after newline expansion.\<close>

definition emit :: "u8 list \<Rightarrow> 'd mon \<Rightarrow> 'd mon" where
  "emit bs s = fold xput_raw bs s"

definition crlf :: "ctext \<Rightarrow> u8 list" where
  "crlf t = concat (map (\<lambda>c. if c = 0x0A then [0x0D, 0x0A] else [c]) t)"

named_theorems emit_simps \<open>output operations as emitted text\<close>

lemma crlf_Nil [simp]: "crlf [] = []"
  and crlf_append [simp]: "crlf (t @ u) = crlf t @ crlf u"
  by (simp_all add: crlf_def)

lemma crlf_id: "0x0A \<notin> set t \<Longrightarrow> crlf t = t"
  by (induction t) (auto simp: crlf_def)

lemma emit_Nil [simp]: "emit [] s = s"
  and emit_emit [emit_simps]: "emit b (emit a s) = emit (a @ b) s"
  by (simp_all add: emit_def)

lemma xputc_emit [emit_simps]: "xputc c s = emit (crlf [c]) s"
  by (simp add: xputc.simps [of c] xputc.simps [of "0x0D"] emit_def crlf_def)

lemma xputs_emit [emit_simps]: "xputs t s = emit (crlf (takeWhile (\<lambda>c. c \<noteq> 0) t)) s"
proof (induction t arbitrary: s)
  case (Cons c t)
  then show ?case by (simp add: emit_simps flip: crlf_append)
qed simp

lemma emit_device:
  "outptr s = 0 \<Longrightarrow> xfunc_out s = Some d \<Longrightarrow> emit bs s = s\<lparr>sent := sent s @ map (Pair d) bs\<rparr>"
  by (induction bs arbitrary: s) (auto simp: emit_def xput_raw_def)

lemma emit_nowhere: "outptr s = 0 \<Longrightarrow> xfunc_out s = None \<Longrightarrow> emit bs s = s"
  by (induction bs arbitrary: s) (auto simp: emit_def xput_raw_def)

definition store :: "nat \<Rightarrow> u8 list \<Rightarrow> (nat \<Rightarrow> u8) \<Rightarrow> nat \<Rightarrow> u8" where
  "store p bs m = (\<lambda>a. if p \<le> a \<and> a < p + length bs then bs ! (a - p) else m a)"

lemma store_Nil [simp]: "store p [] m = m"
  by (auto simp: store_def fun_eq_iff)

lemma store_Cons: "store (Suc p) bs (m(p := b)) = store p (b # bs) m"
  by (auto simp: store_def fun_eq_iff nth_Cons' Suc_le_eq)

lemma store_end: "(store p bs m)(p + length bs := b) = store p (bs @ [b]) m"
  by (auto simp: store_def fun_eq_iff nth_append)

lemma emit_memory:
  "outptr s \<noteq> 0 \<Longrightarrow>
   emit bs s = s\<lparr>xmem := store (outptr s) bs (xmem s), outptr := outptr s + length bs\<rparr>"
proof (induction bs arbitrary: s)
  case (Cons b bs)
  have "emit (b # bs) s = emit bs (xput_raw b s)"
    by (simp add: emit_def)
  then show ?case
    using Cons by (simp add: xput_raw_def fun_upd_def flip: store_Cons)
qed simp

lemma emit_frame [simp]:
  "xfunc_out (emit bs s) = xfunc_out s" "xfunc_in (emit bs s) = xfunc_in s" "incoming (emit bs s) = incoming s"
  by (induction bs arbitrary: s) (auto simp: emit_def xput_raw_def split: option.splits)

section \<open>Padding\<close>

lemma xv_pad_emit:
  "xv_pad j w d s = (max j w + 1, emit (crlf (replicate (unat w - unat j) d)) s)"
proof (induction j w d s rule: xv_pad.induct)
  case (1 j w d s)
  show ?case
  proof (cases "j < w")
    case True
    have j: "unat (j + 1) = Suc (unat j)" "unat j < unat w"
      using True unat_u32_lt [of w] by (simp_all add: word_less_nat_alt unat_Suc_small)
    have "max (j + 1) w = max j w"
      using True j by (simp add: max_def word_le_nat_alt)
    moreover have "unat w - unat j = Suc (unat w - unat (j + 1))"
      using j by simp
    ultimately show ?thesis
      using True 1 [OF True] by (simp add: xv_pad.simps [of j] emit_simps flip: crlf_append)
  next
    case False
    then show ?thesis
      by (auto simp: xv_pad.simps [of j] max_def not_less word_le_nat_alt [symmetric])
  qed
qed

lemma xv_back_emit: "n \<le> length t \<Longrightarrow> xv_back t n s = emit (crlf (rev (take n t))) s"
proof (induction n arbitrary: s)
  case (Suc n)
  have "rev (take (Suc n) t) = t ! n # rev (take n t)"
    using Suc.prems by (simp add: take_Suc_conv_app_nth)
  moreover have "crlf (t ! n # rev (take n t)) = crlf [t ! n] @ crlf (rev (take n t))"
    by (simp flip: crlf_append)
  ultimately show ?case
    using Suc by (simp add: emit_simps)
qed simp

text \<open>A field of at least \<open>w\<close> characters.\<close>

definition justify :: "bool \<Rightarrow> u8 \<Rightarrow> nat \<Rightarrow> ctext \<Rightarrow> ctext" where
  "justify left d w t =
     (if left then t @ replicate (w - length t) 0x20 else replicate (w - length t) d @ t)"

text \<open>The pattern that the string and the number branch share: padding before the text unless the flag says
  left, then padding after it; after padding in front nothing is left to pad.\<close>

lemma pad_around:
  assumes "length t < 2 ^ 32 - 1" and "w \<noteq> -1"
  shows "(case if left then (of_nat (length t), s) else xv_pad (of_nat (length t)) w d s of
            (j, s) \<Rightarrow> snd (xv_pad j w 0x20 (emit (crlf t) s)))
         = emit (crlf (justify left d (unat w) t)) s"
proof -
  let ?j = "of_nat (length t) :: u32"
  have j: "unat ?j = length t"
    using assms(1) by (simp add: unat_of_nat_u32)
  have "unat w \<noteq> 4294967295"
    proof
    assume "unat w = 4294967295"
    then have "of_nat (unat w) = (of_nat 4294967295 :: u32)" by simp
    then show False using assms(2) by simp
  qed
  have m: "unat (max ?j w + 1) = Suc (max (length t) (unat w))"
  proof -
    have "unat (max ?j w) = max (length t) (unat w)"
      using j by (simp add: max_def word_le_nat_alt)
    moreover have "max (length t) (unat w) + 1 < 4294967296"
      using assms(1) \<open>unat w \<noteq> 4294967295\<close> unat_u32_lt [of w] by simp
    ultimately show ?thesis
      by (simp add: unat_Suc_small)
  qed
  show ?thesis
    by (cases left) (simp_all add: xv_pad_emit j m justify_def emit_simps)
qed

section \<open>Numerals\<close>

text \<open>The digits of a number, most significant first, and their characters.\<close>

fun radix :: "nat \<Rightarrow> nat \<Rightarrow> nat list" where
  "radix r n = (if n < r \<or> r < 2 then [n] else radix r (n div r) @ [n mod r])"

declare radix.simps [simp del]

definition digit_char :: "bool \<Rightarrow> nat \<Rightarrow> u8" where
  "digit_char lower k = of_nat (if k < 10 then 0x30 + k else if lower then 0x57 + k else 0x37 + k)"

definition numeral_text :: "bool \<Rightarrow> nat \<Rightarrow> nat \<Rightarrow> ctext" where
  "numeral_text lower r n = map (digit_char lower) (radix r n)"

text \<open>The array of 16 digits keeps the low end of a longer numeral.\<close>

definition last16 :: "'a list \<Rightarrow> 'a list" where
  "last16 t = drop (length t - 16) t"

lemma last16_short [simp]: "length t \<le> 16 \<Longrightarrow> last16 t = t"
  by (simp add: last16_def)

lemma length_last16: "length (last16 t) = min 16 (length t)"
  by (simp add: last16_def)

lemma radix_le: "2 \<le> r \<Longrightarrow> n < r ^ k \<Longrightarrow> 0 < k \<Longrightarrow> length (radix r n) \<le> k"
proof (induction r n arbitrary: k rule: radix.induct)
  case (1 r n)
  show ?case
  proof (cases "n < r")
    case True
    then show ?thesis using 1 by (simp add: radix.simps [of r n])
  next
    case False
    then obtain l where k: "k = Suc l" "0 < l"
      using 1 by (cases k; cases "k - 1") auto
    then have "n div r < r ^ l"
      using 1 by (simp add: less_mult_imp_div_less mult.commute)
    then show ?thesis
      using 1 False k by (simp add: radix.simps [of r n])
  qed
qed

lemma radix_digits: "2 \<le> r \<Longrightarrow> \<forall>k \<in> set (radix r n). k < r"
proof (induction r n rule: radix.induct)
  case (1 r n)
  then show ?case by (simp add: radix.simps [of r n])
qed

lemma radix_nonempty [simp]: "radix r n \<noteq> []"
  by (simp add: radix.simps [of r n])

lemma xv_digit_char:
  assumes "2 \<le> unat r" "unat r \<le> 16"
  shows "xv_digit c v r = digit_char (c = 0x78) (unat v mod unat r)"
proof -
  let ?k = "unat v mod unat r"
  have k: "?k < 16"
    using assms by (meson mod_less_divisor order_less_le_trans not_numeral_le_zero linorder_not_le)
  have u: "ucast (v mod r) = (of_nat ?k :: u8)"
    by (metis of_nat_unat unat_mod)
  have "of_nat ?k > (9 :: u8) \<longleftrightarrow> \<not> ?k < 10"
    using k by (auto simp: word_less_nat_alt unat_of_nat)
  then show ?thesis
    by (simp add: xv_digit_def Let_def u digit_char_def)
qed

lemma xv_digits_numeral:
  "2 \<le> unat r \<Longrightarrow> unat r \<le> 16 \<Longrightarrow> length s < 16 \<Longrightarrow>
   xv_digits c v r s = Some (s @ take (16 - length s) (rev (numeral_text (c = 0x78) (unat r) (unat v))))"
proof (induction c v r s rule: xv_digits.induct)
  case (1 c v r s)
  let ?d = "digit_char (c = 0x78) (unat v mod unat r)"
  have put: "s_put (xv_digit c v r) s = Some (s @ [?d])"
    using "1.prems" by (simp add: s_put_def xv_digit_char)
  have "v div r \<noteq> 0 \<longleftrightarrow> unat (v div r) \<noteq> 0"
    by (simp only: unat_eq_zero)
  then have z: "v div r \<noteq> 0 \<longleftrightarrow> unat r \<le> unat v"
    using "1.prems" by (auto simp: unat_div div_eq_0_iff)
  have n: "rev (numeral_text (c = 0x78) (unat r) (unat v)) =
      ?d # (if unat r \<le> unat v then rev (numeral_text (c = 0x78) (unat r) (unat (v div r))) else [])"
    using "1.prems" by (simp add: numeral_text_def radix.simps [of "unat r" "unat v"] unat_div)
  have l: "16 - length s = Suc (15 - length s)"
    using "1.prems" by simp
  show ?case
    using "1.IH" [OF put] by (simp add: xv_digits.simps [of c v r s] put z n l "1.prems")
qed

section \<open>The reference renderer\<close>

text \<open>The text of an integer: its sign and its numeral, of which at most 16 digits are kept.\<close>

definition number_text :: "bool \<Rightarrow> bool \<Rightarrow> nat \<Rightarrow> u32 \<Rightarrow> ctext" where
  "number_text sgnd lower r v =
     (if sgnd \<and> sint v < 0 then 0x2D # last16 (numeral_text lower r (nat (- sint v)))
      else last16 (numeral_text lower r (unat v)))"

text \<open>A conversion specification, read independently of the code: a flag (a zero, or a minus sign for left), the
  decimal digits of the width, an optional letter for long arguments, then the letter of the conversion. The
  width is a 32-bit number, so it is the decimal number modulo \<open>2\<^sup>3\<^sup>2\<close>.\<close>

record spec =
  zero_fill :: bool
  left_side :: bool
  min_width :: u32

definition decimal :: "ctext \<Rightarrow> nat" where
  "decimal ds = fold (\<lambda>d n. 10 * n + (unat d - 48)) ds 0"

definition decimal_digits :: "ctext \<Rightarrow> ctext" where
  "decimal_digits t = takeWhile (\<lambda>c. c \<in> set (ascii ''0123456789'')) t"

definition spec_of :: "ctext \<Rightarrow> spec \<times> ctext" where
  "spec_of t =
     (let zero = take 1 t = ascii ''0'';
          left = take 1 t = ascii ''-'';
          t = (if zero \<or> left then drop 1 t else t);
          ds = decimal_digits t;
          t = drop (length ds) t
      in (\<lparr>zero_fill = zero, left_side = left, min_width = of_nat (decimal ds)\<rparr>,
          if take 1 t = ascii ''l'' \<or> take 1 t = ascii ''L'' then drop 1 t else t))"

text \<open>The conversions by their letters; any other character stands for itself.\<close>

datatype conversion = AsText | AsCharacter | AsNumber bool nat | AsIs

definition conversion_of :: "u8 \<Rightarrow> conversion" where
  "conversion_of c =
     (if c \<in> set (ascii ''sS'') then AsText
      else if c \<in> set (ascii ''cC'') then AsCharacter
      else if c \<in> set (ascii ''bB'') then AsNumber False 2
      else if c \<in> set (ascii ''oO'') then AsNumber False 8
      else if c \<in> set (ascii ''dD'') then AsNumber True 10
      else if c \<in> set (ascii ''uU'') then AsNumber False 10
      else if c \<in> set (ascii ''xX'') then AsNumber False 16
      else AsIs)"

text \<open>One conversion: its text and the arguments left. The digits above 9 are small letters for a small x only.
  A string of \<open>2\<^sup>3\<^sup>2 - 1\<close> characters or more is outside the contract.\<close>

definition xfield :: "spec \<Rightarrow> u8 \<Rightarrow> xarg list \<Rightarrow> (ctext \<times> xarg list) option" where
  "xfield sp c arp =
     (case (conversion_of c, arp) of
        (AsIs, _) \<Rightarrow> Some ([c], arp)
      | (AsText, AStr p # rest) \<Rightarrow>
          (let t = takeWhile (\<lambda>c. c \<noteq> 0) p
           in if length t < 2 ^ 32 - 1 then Some (justify (left_side sp) 0x20 (unat (min_width sp)) t, rest) else None)
      | (AsCharacter, AInt v # rest) \<Rightarrow> Some ([ucast v], rest)
      | (AsNumber sgnd r, AInt v # rest) \<Rightarrow>
          Some (justify (left_side sp) (if zero_fill sp then 0x30 else 0x20) (unat (min_width sp))
                  (number_text sgnd (c \<in> set (ascii ''x'')) r v), rest)
      | _ \<Rightarrow> None)"

text \<open>The text of a whole format string. A width of \<open>2\<^sup>3\<^sup>2 - 1\<close> is outside the contract.\<close>

lemma spec_of_shorter: "(sp, c # fmt') = spec_of fmt \<Longrightarrow> length fmt' < length fmt"
proof -
  assume "(sp, c # fmt') = spec_of fmt"
  moreover have "length (snd (spec_of fmt)) \<le> length fmt"
    by (simp add: spec_of_def Let_def)
  ultimately show ?thesis
    by (metis snd_conv length_Cons Suc_le_eq)
qed

function xformat :: "ctext \<Rightarrow> xarg list \<Rightarrow> ctext option" where
  "xformat [] arp = Some []"
| "xformat (c # fmt) arp =
     (if c = 0 then Some []
      else if [c] \<noteq> ascii ''%'' then map_option (Cons c) (xformat fmt arp)
      else case spec_of fmt of (sp, t) \<Rightarrow>
        (case t of
           [] \<Rightarrow> Some []
         | c # fmt \<Rightarrow>
             if c = 0 then Some []
             else if min_width sp = -1 then None
             else case xfield sp c arp of
                 None \<Rightarrow> None
               | Some (t, arp) \<Rightarrow> map_option ((@) t) (xformat fmt arp)))"
  by pat_completeness auto
termination
  by (relation "measure (\<lambda>(fmt, arp). length fmt)") (auto dest: spec_of_shorter)

declare xformat.simps [simp del]

section \<open>The code reads specifications as the reference does\<close>

lemma ascii_Nil [simp]: "ascii [] = []"
  by (simp add: ascii_def)

lemma letters:
  "ascii ''%'' = [0x25]" "ascii ''0'' = [0x30]" "ascii ''-'' = [0x2D]" "ascii ''l'' = [0x6C]" "ascii ''L'' = [0x4C]"
  "ascii ''x'' = [0x78]" "ascii ''sS'' = [0x73, 0x53]" "ascii ''cC'' = [0x63, 0x43]" "ascii ''bB'' = [0x62, 0x42]"
  "ascii ''oO'' = [0x6F, 0x4F]" "ascii ''dD'' = [0x64, 0x44]" "ascii ''uU'' = [0x75, 0x55]" "ascii ''xX'' = [0x78, 0x58]"
  "ascii ''0123456789'' = [0x30, 0x31, 0x32, 0x33, 0x34, 0x35, 0x36, 0x37, 0x38, 0x39]"
  by (simp_all add: ascii_def)

lemma is_digit_ascii: "is_digit c \<longleftrightarrow> c \<in> set (ascii ''0123456789'')"
proof
  assume "is_digit c"
  then have "48 \<le> unat c" "unat c \<le> 57"
    by (simp_all add: is_digit_def word_le_nat_alt)
  then have "unat c = 48 \<or> unat c = 49 \<or> unat c = 50 \<or> unat c = 51 \<or> unat c = 52 \<or> unat c = 53 \<or> unat c = 54 \<or>
      unat c = 55 \<or> unat c = 56 \<or> unat c = 57"
    by arith
  then show "c \<in> set (ascii ''0123456789'')"
    by (auto simp: letters word_unat_eq_iff)
qed (auto simp: letters is_digit_def)

lemma of_nat_fold_digits:
  "(of_nat m :: u32) = of_nat n \<Longrightarrow>
   (of_nat (fold (\<lambda>d n. 10 * n + (unat d - 48)) ds m) :: u32) = of_nat (fold (\<lambda>d n. 10 * n + (unat d - 48)) ds n)"
proof (induction ds arbitrary: m n)
  case (Cons d ds)
  then show ?case by (simp del: of_nat_diff)
qed simp

lemma xv_width_decimal:
  assumes "fetch t = (c, rest)"
  shows "xv_width w c rest =
    (of_nat (fold (\<lambda>d n. 10 * n + (unat d - 48)) (decimal_digits t) (unat w)), fetch (drop (length (decimal_digits t)) t))"
  using assms
proof (induction t arbitrary: w c rest)
  case Nil
  then show ?case
    by (simp add: decimal_digits_def is_digit_def)
next
  case (Cons x t)
  then have x: "c = x" "rest = t" by simp_all
  show ?case
  proof (cases "is_digit x")
    case True
    let ?w = "w * 10 + ucast x - 0x30"
    have d: "decimal_digits (x # t) = x # decimal_digits t"
      using True by (simp add: decimal_digits_def is_digit_ascii)
    obtain y u where y: "fetch t = (y, u)" by (cases "fetch t")
    have step: "xv_width w x t = xv_width ?w y u"
      using True y by (cases t) (auto simp: is_digit_def)
    have "48 \<le> unat x"
      using True by (simp add: is_digit_def word_le_nat_alt)
    then have w: "?w = of_nat (10 * unat w + (unat x - 48))"
      by (simp add: of_nat_diff algebra_simps)
    have "(of_nat (unat ?w) :: u32) = of_nat (10 * unat w + (unat x - 48))"
      using w by simp
    note e = of_nat_fold_digits [OF this]
    show ?thesis
      unfolding x step d Cons.IH [OF y, of ?w] by (simp only: e fold_simps length_Cons drop_Suc_Cons)
  next
    case False
    then show ?thesis
      unfolding x by (cases t) (simp_all add: decimal_digits_def is_digit_ascii)
  qed
qed

lemma xv_spec_of:
  assumes "spec_of fmt = (sp, t)" "xv_spec fmt = (f, w, c, fmt')"
  shows "(f AND 1 \<noteq> 0) = zero_fill sp" "(f AND 2 \<noteq> 0) = left_side sp" "w = min_width sp" "fetch t = (c, fmt')"
proof -
  define u where "u = (if take 1 fmt = ascii ''0'' \<or> take 1 fmt = ascii ''-'' then drop 1 fmt else fmt)"
  define v where "v = drop (length (decimal_digits u)) u"
  obtain c0 r0 where c0: "fetch fmt = (c0, r0)" by (cases "fetch fmt")
  obtain c1 r1 where c1: "fetch u = (c1, r1)" by (cases "fetch u")
  obtain c2 r2 where c2: "fetch v = (c2, r2)" by (cases "fetch v")
  have flag: "take 1 fmt = ascii ''0'' \<longleftrightarrow> c0 = 0x30" "take 1 fmt = ascii ''-'' \<longleftrightarrow> c0 = 0x2D"
    using c0 by (cases fmt; auto simp: letters)+
  have long: "take 1 v = ascii ''l'' \<or> take 1 v = ascii ''L'' \<longleftrightarrow> c2 = 0x6C \<or> c2 = 0x4C"
    using c2 by (cases v) (auto simp: letters)
  have u: "fetch u = (if c0 = 0x30 \<or> c0 = 0x2D then fetch r0 else (c0, r0))"
    using c0 flag by (cases fmt) (auto simp: u_def)
  have t0: "t = (if take 1 v = ascii ''l'' \<or> take 1 v = ascii ''L'' then drop 1 v else v)"
    using assms(1) unfolding spec_of_def Let_def u_def [symmetric] v_def [symmetric] by simp
  have t: "fetch t = (if c2 = 0x6C \<or> c2 = 0x4C then fetch r2 else (c2, r2))"
    using c2 long by (cases v) (auto simp: t0)
  have sp: "zero_fill sp = (c0 = 0x30)" "left_side sp = (c0 = 0x2D)" "min_width sp = of_nat (decimal (decimal_digits u))"
    using assms(1) unfolding spec_of_def Let_def u_def [symmetric] unfolding flag by auto
  have w: "xv_width 0 c1 r1 = (of_nat (decimal (decimal_digits u)), c2, r2)"
    using xv_width_decimal [OF c1, of 0] c2 by (simp add: decimal_def v_def)
  have x: "xv_spec fmt = (let f = (if c0 = 0x30 then 1 else if c0 = 0x2D then 2 else 0) in
      (if c2 = 0x6C \<or> c2 = 0x4C then f OR 4 else f, of_nat (decimal (decimal_digits u)), fetch t))"
    using u c1 w t by (auto simp: xv_spec_def c0 Let_def split: prod.splits if_splits)
  show "(f AND 1 \<noteq> 0) = zero_fill sp" "(f AND 2 \<noteq> 0) = left_side sp" "w = min_width sp" "fetch t = (c, fmt')"
    using x assms(2) by (auto simp: sp Let_def split: if_splits)
qed

lemma xv_upper_letter:
  assumes "0x41 \<le> l" "l \<le> 0x5A"
  shows "xv_upper c = l \<longleftrightarrow> c = l + 0x20 \<or> c = l"
proof -
  have "unat (l + 0x20) = unat l + 32" "65 \<le> unat l" "unat l \<le> 90"
    using assms by (simp_all add: word_le_nat_alt unat_word_ariths)
  moreover have "c - 0x20 = l \<longleftrightarrow> c = l + 0x20"
    by (auto simp: algebra_simps)
  ultimately show ?thesis
    by (auto simp: xv_upper_def word_le_nat_alt)
qed

lemma xv_conversion:
  "conversion_of c =
     (if xv_upper c = 0x53 then AsText else if xv_upper c = 0x43 then AsCharacter
      else case xv_radix (xv_upper c) of None \<Rightarrow> AsIs | Some r \<Rightarrow> AsNumber (xv_upper c = 0x44) (unat r))"
  by (simp add: conversion_of_def letters xv_radix_def xv_upper_letter)

lemma xv_len_takeWhile: "xv_len p = of_nat (length (takeWhile (\<lambda>c. c \<noteq> 0) p))"
  by (induction p) auto

lemma xv_string_emit:
  assumes "length (takeWhile (\<lambda>c. c \<noteq> 0) p) < 2 ^ 32 - 1" "w \<noteq> -1"
  shows "xv_string f w p s = emit (crlf (justify (f AND 2 \<noteq> 0) 0x20 (unat w) (takeWhile (\<lambda>c. c \<noteq> 0) p))) s"
  using pad_around [OF assms, of "f AND 2 \<noteq> 0" s "0x20"]
  by (auto simp: xv_string_def Let_def xv_len_takeWhile xputs_emit split: prod.splits if_splits)

lemma negative_bit: "v AND 0x80000000 \<noteq> 0 \<longleftrightarrow> sint v < 0" for v :: u32
proof -
  have "v AND 0x80000000 = v AND push_bit 31 1"
    by (simp add: push_bit_eq_mult)
  also have "\<dots> \<noteq> 0 \<longleftrightarrow> bit v 31"
    by (simp add: bit_iff_and_push_bit_not_eq_0)
  also have "\<dots> \<longleftrightarrow> sint v < 0"
    using bit_last_iff [of v] by simp
  finally show ?thesis .
qed

lemma unat_negated:
  fixes v :: u32
  assumes "sint v < 0"
  shows "unat (0 - v) = nat (- sint v)"
proof -
  have ge: "- sint v \<le> 2 ^ 31"
    using sint_ge [of v] by simp
  have "uint (0 - v) = uint (word_of_int (- sint v) :: u32)"
    by (simp flip: wi_hom_neg)
  also have "\<dots> = (- sint v) mod 2 ^ 32"
    unfolding uint_word_of_int by simp
  also have "\<dots> = - sint v"
    using assms ge by (intro mod_pos_pos_trivial) auto
  finally show ?thesis
    by (simp add: nat_uint_eq flip: nat_uint_eq)
qed

lemma xv_number_emit:
  assumes r: "xv_radix d = Some r" and f: "f AND 8 = 0" and w: "w \<noteq> -1"
  shows "xv_number f w c d r v s =
    Some (emit (crlf (justify (f AND 2 \<noteq> 0) (if f AND 1 \<noteq> 0 then 0x30 else 0x20) (unat w)
                       (number_text (d = 0x44) (c = 0x78) (unat r) v))) s)"
proof -
  define neg where "neg \<longleftrightarrow> d = 0x44 \<and> sint v < 0"
  define v' where "v' = (if neg then 0 - v else v)"
  define f' where "f' = (if neg then f OR 8 else f)"
  let ?n = "numeral_text (c = 0x78) (unat r) (unat v')"
  have r16: "2 \<le> unat r" "unat r \<le> 16"
    using r by (auto simp: xv_radix_def split: if_splits)
  have digits: "xv_digits c v' r [] = Some (rev (last16 ?n))"
    using r16 by (simp add: xv_digits_numeral last16_def take_rev)
  have ten: "length ?n \<le> 10" if neg
  proof -
    have "unat r = 10" "unat v' < 10 ^ 10"
      using r that unat_u32_lt [of v'] by (auto simp: neg_def xv_radix_def)
    then show ?thesis
      by (simp add: numeral_text_def radix_le)
  qed
  define t where "t = number_text (d = 0x44) (c = 0x78) (unat r) v"
  have t: "t = (if neg then 0x2D # last16 ?n else last16 ?n)"
    by (auto simp: t_def number_text_def neg_def v'_def unat_negated [simplified])
  have bits: "f' AND 8 \<noteq> 0 \<longleftrightarrow> neg" "f' AND 1 = f AND 1" "f' AND 2 = f AND 2"
    using f by (simp_all add: f'_def bit.conj_disj_distrib2)
  have put: "(if neg then s_put 0x2D (rev (last16 ?n)) else Some (rev (last16 ?n))) = Some (rev t)"
    using ten by (auto simp: t s_put_def length_last16)
  have vf: "(if d = 0x44 \<and> sint v < 0 then (0 - v, f OR 8) else (v, f)) = (v', f')"
    by (simp add: neg_def v'_def f'_def)
  have len: "length t < 2 ^ 32 - 1"
    by (simp add: t length_last16 min_less_iff_disj)
  have bk: "xv_back (rev t) (length t) s = emit (crlf t) s" for s :: "'a mon"
    by (simp add: xv_back_emit)
  have "xv_number f w c d r v s =
     Some (case if f AND 2 \<noteq> 0 then (of_nat (length t), s)
                else xv_pad (of_nat (length t)) w (if f AND 1 \<noteq> 0 then 0x30 else 0x20) s of
             (j, s) \<Rightarrow> snd (xv_pad j w 0x20 (emit (crlf t) s)))"
    unfolding xv_number_def negative_bit vf Let_def prod.case digits bind.bind_lunit bits put length_rev bk
    by (simp add: case_prod_beta' bk)
  then show ?thesis
    unfolding pad_around [OF len w] unfolding t_def .
qed

lemma xv_spec_flags: "xv_spec fmt = (f, w, c, fmt') \<Longrightarrow> f AND 8 = 0"
  by (auto simp: xv_spec_def Let_def split: prod.splits if_splits)

lemma xv_conv_emit:
  assumes "f AND 8 = 0" "w \<noteq> -1" "(f AND 1 \<noteq> 0) = zero_fill sp" "(f AND 2 \<noteq> 0) = left_side sp" "w = min_width sp"
    "xfield sp c arp = Some (t, arp')"
  shows "xv_conv f w c arp s = Some (arp', emit (crlf t) s)"
proof -
  obtain conv where conv: "conversion_of c = conv" by blast
  show ?thesis
    using assms(6) conv xv_number_emit [OF _ assms(1,2), of "xv_upper c" _ c _ s] xv_string_emit [OF _ assms(2), of _ f s]
    by (cases arp; cases "hd arp"; cases conv)
       (auto simp: xv_conv_def xfield_def Let_def xv_conversion assms(3-5) xputc_emit letters split: if_splits option.splits)
qed

lemma xvprintf_emit: "xformat fmt arp = Some t \<Longrightarrow> xvprintf fmt arp s = Some (emit (crlf t) s)"
proof (induction fmt arp arbitrary: t s rule: xformat.induct)
  case (1 arp)
  then show ?case by (simp add: xformat.simps xvprintf.simps)
next
  case (2 c fmt arp)
  obtain f w c' fmt' where spec: "xv_spec fmt = (f, w, c', fmt')"
    by (cases "xv_spec fmt") auto
  obtain sp r where sp: "spec_of fmt = (sp, r)"
    by (cases "spec_of fmt")
  note agree = xv_spec_of [OF sp spec]
  consider "c = 0" | "c \<noteq> 0" "c \<noteq> 0x25" | "c = 0x25" "c' = 0" | "c = 0x25" "c' \<noteq> 0" "r = c' # fmt'"
    using agree(4) by (cases r) auto
  then show ?case
  proof cases
    case 4
    then obtain u arp' t' where u: "xfield sp c' arp = Some (u, arp')"
        "xformat fmt' arp' = Some t'" "t = u @ t'" "min_width sp \<noteq> -1"
      using "2.prems" sp by (auto simp: xformat.simps(2) letters split: if_splits option.splits)
    then have w: "w \<noteq> -1"
      using agree(3) by auto
    have "xvprintf fmt' arp' (emit (crlf u) s) = Some (emit (crlf t') (emit (crlf u) s))" for s :: "'a mon"
      using "2.IH" sp 4 u by (auto simp: letters)
    then show ?thesis
      using 4 u spec xv_conv_emit [OF xv_spec_flags [OF spec] w agree(1-3) u(1), of s] by (simp add: xvprintf.simps emit_simps)
  next
    case 2
    then show ?thesis
      using "2.prems" "2.IH" by (auto simp: xformat.simps(2) xvprintf.simps emit_simps letters simp flip: crlf_append)
  next
    case 3
    then have "r = [] \<or> (\<exists>r'. r = 0 # r')"
      using agree(4) by (cases r) auto
    then show ?thesis
      using 3 "2.prems" spec sp by (auto simp: xformat.simps(2) xvprintf.simps letters)
  qed (use "2.prems" in \<open>simp add: xformat.simps(2) xvprintf.simps\<close>)
qed

end
