(* ===== verification/Monitor_Props.thy ===== *)
theory Monitor_Props
  imports Monitor_Facts
begin

text \<open>
  The properties of the console module.
\<close>

section \<open>Numbers from text\<close>

text \<open>The text in memory at an address, up to its terminating zero.\<close>

definition text_at :: "(nat \<Rightarrow> u8) \<Rightarrow> nat \<Rightarrow> ctext \<Rightarrow> bool" where
  "text_at m p t \<longleftrightarrow> (\<forall>i < length t. m (p + i) = t ! i \<and> t ! i \<noteq> 0) \<and> m (p + length t) = 0"

lemma text_at_store: "0 \<notin> set t \<Longrightarrow> text_at (store p (t @ [0]) m) p t"
  by (auto simp: text_at_def store_def nth_append) (metis nth_mem)

text \<open>A number ends at the end of the text or at a character up to the blank.\<close>

definition ends :: "ctext \<Rightarrow> bool" where
  "ends t \<longleftrightarrow> (case t of [] \<Rightarrow> True | c # _ \<Rightarrow> c \<le> 0x20)"

text \<open>The test for digits up to 9 after the subtraction of 7 never holds.\<close>

lemma xa_refused_iff: "xa_refused r c \<longleftrightarrow> xa_digit c \<ge> r"
proof -
  have "\<not> b - 7 \<le> 9" if "b \<ge> 17" for b :: u8
    using that by (simp add: word_le_nat_alt unat_sub)
  then show ?thesis
    unfolding xa_refused_def Let_def by blast
qed

lemma digit_char_table:
  "\<forall>l \<in> set [True, False]. \<forall>k \<in> set [0..<16].
     xa_digit (digit_char l k) = of_nat k \<and> digit_char l k > 0x20 \<and> (k < 10 \<longrightarrow> is_digit (digit_char l k)) \<and>
     (digit_char l k = 0x30 \<longleftrightarrow> k = 0) \<and> digit_char l k \<noteq> 0x2D \<and> digit_char l k \<noteq> 0x78"
  by code_simp

lemma digit_char_facts:
  assumes "k < 16"
  shows "xa_digit (digit_char l k) = of_nat k" "digit_char l k > 0x20" "k < 10 \<Longrightarrow> is_digit (digit_char l k)"
    "digit_char l k = 0x30 \<longleftrightarrow> k = 0" "digit_char l k \<noteq> 0x2D" "digit_char l k \<noteq> 0x78"
  using bspec [OF bspec [OF digit_char_table, of l], of k] assms by simp_all

definition horner :: "nat \<Rightarrow> nat list \<Rightarrow> u32 \<Rightarrow> u32" where
  "horner r ks v = fold (\<lambda>k v. v * of_nat r + of_nat k) ks v"

lemma xa_loop_numeral:
  assumes "\<forall>k \<in> set ks. k < r" "r \<le> 16" "ends rest"
  shows "xa_loop (of_nat r) v (map (digit_char l) ks @ rest) = (Some (horner r ks v), rest)"
  using assms(1)
proof (induction ks arbitrary: v)
  case Nil
  then show ?case
    using assms(3) by (cases rest) (auto simp: ends_def horner_def not_less)
next
  case (Cons k ks)
  have k: "k < 16" using Cons.prems assms(2) by simp
  have "\<not> (of_nat k :: u8) \<ge> of_nat r"
    using Cons.prems assms(2) by (simp add: word_le_nat_alt unat_of_nat)
  moreover have "ucast (of_nat r :: u8) = (of_nat r :: u32)" "ucast (of_nat k :: u8) = (of_nat k :: u32)"
    using k assms(2) by (simp_all add: unsigned_of_nat take_bit_nat_eq_self)
  ultimately show ?case
    using Cons by (simp add: digit_char_facts [OF k] xa_refused_iff horner_def)
qed

lemma horner_radix: "2 \<le> r \<Longrightarrow> horner r (radix r n) 0 = of_nat n"
proof (induction r n rule: radix.induct)
  case (1 r n)
  show ?case
  proof (cases "n < r")
    case False
    then have "horner r (radix r n) 0 = of_nat (n div r) * of_nat r + of_nat (n mod r)"
      using 1 by (simp add: radix.simps [of r n] horner_def)
    also have "\<dots> = of_nat (n div r * r + n mod r)"
      by (simp only: of_nat_add of_nat_mult)
    finally show ?thesis
      by (simp only: div_mult_mod_eq)
  qed (use 1 in \<open>simp add: radix.simps [of r n] horner_def\<close>)
qed

lemma hd_radix: "2 \<le> r \<Longrightarrow> n \<noteq> 0 \<Longrightarrow> hd (radix r n) \<noteq> 0"
proof (induction r n rule: radix.induct)
  case (1 r n)
  show ?case
  proof (cases "n < r")
    case False
    then show ?thesis
      using 1 by (simp add: radix.simps [of r n] hd_append div_eq_0_iff)
  qed (use 1 in \<open>simp add: radix.simps [of r n]\<close>)
qed

lemma xa_value_numeral:
  assumes "2 \<le> r" "r \<le> 16" "ends rest"
  shows "xa_value neg (of_nat r) (numeral_text l r n @ rest) = (1, rest, if neg then - of_nat n else of_nat n)"
  using xa_loop_numeral [OF radix_digits [OF assms(1)] assms(2,3), of 0 l n]
  by (simp add: xa_value_def numeral_text_def horner_radix [OF assms(1)])

lemma numeral_text_plain: "2 \<le> r \<Longrightarrow> r \<le> 16 \<Longrightarrow> \<forall>c \<in> set (numeral_text l r n). c > 0x20"
  using radix_digits [of r n] by (auto simp: numeral_text_def intro!: digit_char_facts(2))

lemma xatoi_decimal:
  assumes "ends rest" "n \<noteq> 0"
  shows "xatoi (numeral_text l 10 n @ rest) = (1, rest, of_nat n)"
    and "xatoi (0x2D # numeral_text l 10 n @ rest) = (1, rest, - of_nat n)"
proof -
  obtain k ks where r: "radix 10 n = k # ks"
    by (cases "radix 10 n") auto
  have k: "k \<noteq> 0" "k < 10"
    using hd_radix [of 10 n] radix_digits [of 10 n] assms(2) by (simp_all add: r)
  have t: "numeral_text l 10 n = digit_char l k # map (digit_char l) ks"
    by (simp add: numeral_text_def r)
  have d: "digit_char l k \<noteq> 0x20" "digit_char l k \<noteq> 0x2D" "digit_char l k \<noteq> 0x30" "is_digit (digit_char l k)"
    using k digit_char_facts [of k l] by auto
  show "xatoi (numeral_text l 10 n @ rest) = (1, rest, of_nat n)"
    using xa_value_numeral [of 10 rest False l n] assms d by (simp add: xatoi_def t)
  show "xatoi (0x2D # numeral_text l 10 n @ rest) = (1, rest, - of_nat n)"
    using xa_value_numeral [of 10 rest True l n] assms d by (simp add: xatoi_def t)
qed

lemma xatoi_hex: "ends rest \<Longrightarrow> xatoi (0x30 # 0x78 # numeral_text l 16 n @ rest) = (1, rest, of_nat n)"
  using xa_value_numeral [of 16 rest False l n] by (simp add: xatoi_def)

lemma xatoi_octal: "ends rest \<Longrightarrow> xatoi (0x30 # numeral_text l 8 n @ rest) = (1, rest, of_nat n)"
proof -
  assume e: "ends rest"
  obtain k ks where r: "radix 8 n = k # ks"
    by (cases "radix 8 n") auto
  have k: "k < 8"
    using radix_digits [of 8 n] by (simp add: r)
  then have d: "digit_char l k \<noteq> 0x78" "\<not> digit_char l k \<le> 0x20" "is_digit (digit_char l k)"
    using digit_char_facts [of k l] by (auto simp: not_le)
  have b: "digit_char l k \<noteq> 0x62"
    using d(3) by (auto simp: is_digit_def)
  show ?thesis
    using xa_value_numeral [of 8 rest False l n] e d b by (simp add: xatoi_def numeral_text_def r)
qed

text \<open>A conversion of a long number with no flag and no width.\<close>

lemma spec_of_long: "spec_of (0x6C # t) = (\<lparr>zero_fill = False, left_side = False, min_width = 0\<rparr>, t)"
  by (simp add: spec_of_def decimal_digits_def decimal_def letters)

lemma ascii_percent: "ascii (CHR ''%'' # t) = 0x25 # ascii t"
  and ascii_0x: "ascii (CHR ''0'' # t) = 0x30 # ascii t" "ascii (CHR ''x'' # t) = 0x78 # ascii t"
  and ascii_long: "ascii (CHR ''l'' # t) = 0x6C # ascii t" "ascii ''d'' = [0x64]" "ascii ''X'' = [0x58]" "ascii ''o'' = [0x6F]" "ascii ''b'' = [0x62]"
  by (simp_all add: ascii_def)

text \<open>The formats that write a number so that it can be read back.\<close>

definition number_formats :: "ctext list" where
  "number_formats = [ascii ''%ld'', ascii ''0x%lx'', ascii ''0x%lX'', ascii ''0%lo'']"

lemma number_formats_text:
  "xformat (ascii ''%ld'') [AInt v] = Some (number_text True False 10 v)"
  "xformat (ascii ''0x%lx'') [AInt v] = Some (0x30 # 0x78 # number_text False True 16 v)"
  "xformat (ascii ''0x%lX'') [AInt v] = Some (0x30 # 0x78 # number_text False False 16 v)"
  "xformat (ascii ''0%lo'') [AInt v] = Some (0x30 # number_text False False 8 v)"
  by (simp_all add: ascii_percent ascii_0x ascii_long xformat.simps spec_of_long xfield_def conversion_of_def letters justify_def)

lemma short_numeral:
  assumes "8 \<le> r"
  shows "last16 (numeral_text l r (unat (v :: u32))) = numeral_text l r (unat v)"
proof -
  have "unat v < 8 ^ 16"
    using unat_u32_lt [of v] by simp
  also have "\<dots> \<le> r ^ 16"
    using assms by (rule power_mono) simp
  finally show ?thesis
    using assms by (simp add: numeral_text_def radix_le)
qed

section \<open>Formatted output\<close>

text \<open>C22. \<open>xprintf\<close> sends exactly the text of the format to the current output function, with a carriage return
  before every newline, and \<open>xfprintf\<close> sends it to the function it is given and puts the current function back.
  The text is given by a renderer that reads the format on its own, letter by letter: a flag (a zero for filling
  with zeros, a minus sign for left-justified), a decimal width, an optional l, and s, c, b, o, d, u or x in either
  case for a string, a character and unsigned or (d only) signed numbers to the base 2, 8, 10 or 16; of a numeral
  only the last 16 digits are kept. Formats whose arguments are missing or of the wrong type, a width of
  \<open>2\<^sup>3\<^sup>2 - 1\<close> and strings of that length have no text and are outside the claim.\<close>

theorem xprintf_renders:
  assumes "xformat fmt arp = Some t" and "outptr s = 0" and "xfunc_out s = Some d"
  shows "xprintf fmt arp s = Some (s\<lparr>sent := sent s @ map (Pair d) (crlf t)\<rparr>) \<and>
         xfprintf (Some e) fmt arp s = Some (s\<lparr>sent := sent s @ map (Pair e) (crlf t)\<rparr>)"
  using assms by (simp add: xprintf_def xfprintf_def Let_def xvprintf_emit emit_device)

lemma xsprintf_store:
  assumes "xformat fmt arp = Some t" and "p \<noteq> 0"
  shows "xsprintf p fmt arp s = Some (s\<lparr>xmem := store p (crlf t @ [0]) (xmem s), outptr := 0\<rparr>)"
  using assms by (simp add: xsprintf_def xvprintf_emit emit_memory store_end)

lemma number_text_long:
  "number_text False l 16 v = numeral_text l 16 (unat v)" "number_text False l 8 v = numeral_text l 8 (unat v)"
  "number_text True l 10 v = (if sint v < 0 then 0x2D # numeral_text l 10 (unat (0 - v)) else numeral_text l 10 (unat v))"
proof -
  show "number_text True l 10 v = (if sint v < 0 then 0x2D # numeral_text l 10 (unat (0 - v)) else numeral_text l 10 (unat v))"
    using unat_negated [of v] short_numeral [of 10 l "0 - v"] short_numeral [of 10 l v] by (auto simp: number_text_def)
qed (simp_all add: number_text_def short_numeral)

lemma number_formats_read_back:
  assumes "fmt \<in> set number_formats"
  shows "\<exists>t. xformat fmt [AInt v] = Some t \<and> (\<forall>c \<in> set t. c > 0x20) \<and> xatoi t = (1, [], v)"
proof -
  have e: "ends []" by (simp add: ends_def)
  have dec: "xatoi (number_text True False 10 v) = (1, [], v)"
  proof (cases "v = 0")
    case True
    have "xatoi (number_text True False 10 0) = (1, [], 0)" by code_simp
    then show ?thesis by (simp add: True)
  next
    case False
    then have "unat v \<noteq> 0" "unat (0 - v) \<noteq> 0" by (simp_all only: unat_eq_zero) simp_all
    then show ?thesis
      using xatoi_decimal [OF e, of "unat v" False] xatoi_decimal [OF e, of "unat (0 - v)" False]
      by (simp add: number_text_long)
  qed
  have plain: "c > 0x20" if "c \<in> set (numeral_text l r n)" "r \<in> {8, 10, 16}" for c l r n
    using that numeral_text_plain [of r l n] by auto
  show ?thesis
    using assms dec xatoi_hex [OF e, of _ "unat v"] xatoi_octal [OF e, of _ "unat v"]
    by (auto simp: number_formats_def number_formats_text number_text_long intro: plain)
qed

lemma plain_text: "\<forall>c \<in> set t. c > 0x20 \<Longrightarrow> crlf t = t \<and> 0 \<notin> set t" for t :: ctext
  by (auto intro!: crlf_id)

text \<open>C23. A number that \<open>xsprintf\<close> writes with the format of a signed decimal, a hexadecimal or an octal number is
  read back by \<open>xatoi\<close> as the same 32-bit value, for every value.\<close>

theorem xsprintf_xatoi_roundtrip:
  assumes "p \<noteq> 0" and "fmt \<in> set number_formats"
  shows "\<exists>s' t. xsprintf p fmt [AInt v] s = Some s' \<and> text_at (xmem s') p t \<and> xatoi t = (1, [], v)"
proof -
  obtain t where t: "xformat fmt [AInt v] = Some t" "\<forall>c \<in> set t. c > 0x20" "xatoi t = (1, [], v)"
    using number_formats_read_back [OF assms(2)] by blast
  then show ?thesis
    using xsprintf_store [OF t(1) assms(1), of s] plain_text [OF t(2)] text_at_store [of t p "xmem s"] by auto
qed

text \<open>C24. \<open>xsprintf\<close> writes the text of the format and a terminating zero from the address it is given, and
  leaves every other byte, the output function and the bytes already sent as they were; a null address makes
  it fail.\<close>

theorem xsprintf_writes:
  assumes "xformat fmt arp = Some t"
  shows "xsprintf p fmt arp s = (if p = 0 then None else Some (s\<lparr>xmem := store p (crlf t @ [0]) (xmem s), outptr := 0\<rparr>))"
proof -
  have "outptr (emit bs (s\<lparr>outptr := 0\<rparr>)) = 0" for bs
    by (cases "xfunc_out s") (simp_all add: emit_device emit_nowhere)
  then have "xsprintf 0 fmt arp s = None"
    using assms by (simp add: xsprintf_def xvprintf_emit)
  then show ?thesis
    using xsprintf_store [OF assms, of p s] by simp
qed

section \<open>Line input\<close>

text \<open>The line editor: a backspace takes back the last character, a printable character is added while there is
  room for it, anything else does nothing; and the characters it echoes.\<close>

definition keyed :: "int \<Rightarrow> ctext \<Rightarrow> u8 \<Rightarrow> ctext" where
  "keyed len line c =
     (if c = 0x08 then butlast line else if c \<ge> 0x20 \<and> int (length line) < len - 1 then line @ [c] else line)"

definition echo :: "int \<Rightarrow> ctext \<Rightarrow> u8 \<Rightarrow> ctext" where
  "echo len line c =
     (if c = 0x08 then (if line = [] then [] else [c])
      else if c \<ge> 0x20 \<and> int (length line) < len - 1 then [c] else [])"

definition edited :: "int \<Rightarrow> ctext \<Rightarrow> ctext \<Rightarrow> ctext" where
  "edited len line ks = fold (\<lambda>c line. keyed len line c) ks line"

fun echoed :: "int \<Rightarrow> ctext \<Rightarrow> ctext \<Rightarrow> ctext" where
  "echoed len line [] = []"
| "echoed len line (c # ks) = echo len line c @ echoed len (keyed len line c) ks"

text \<open>The buffer holds the line and nothing else of the memory has changed.\<close>

definition line_in :: "nat \<Rightarrow> int \<Rightarrow> (nat \<Rightarrow> u8) \<Rightarrow> ctext \<Rightarrow> (nat \<Rightarrow> u8) \<Rightarrow> bool" where
  "line_in buff len m0 line m \<longleftrightarrow>
     length line \<le> nat (len - 1) \<and> (\<forall>i < length line. m (buff + i) = line ! i \<and> line ! i \<ge> 0x20) \<and>
     (\<forall>a. a < buff \<or> a \<ge> buff + nat (len - 1) \<longrightarrow> m a = m0 a)"

lemma line_in_back: "line_in buff len m0 line m \<Longrightarrow> line_in buff len m0 (butlast line) m"
  by (auto simp: line_in_def nth_butlast)

lemma line_in_add:
  "line_in buff len m0 line m \<Longrightarrow> c \<ge> 0x20 \<Longrightarrow> int (length line) < len - 1 \<Longrightarrow>
   line_in buff len m0 (line @ [c]) (m(buff + length line := c))"
  by (auto simp: line_in_def nth_append less_Suc_eq)

lemma line_in_end: "line_in buff len m0 line m \<Longrightarrow> text_at (m(buff + length line := 0)) buff line"
  by (auto simp: line_in_def text_at_def)

lemma line_in_frame:
  "line_in buff len m0 line m \<Longrightarrow> a < buff \<or> a \<ge> buff + nat (max len 1) \<Longrightarrow>
   (m(buff + length line := 0)) a = m0 a"
  by (auto simp: line_in_def)

lemma xputc_device:
  "c \<noteq> 0x0A \<Longrightarrow> outptr s = 0 \<Longrightarrow> xfunc_out s = Some d \<Longrightarrow> xputc c s = s\<lparr>sent := sent s @ [(d, c)]\<rparr>"
  by (simp add: xputc_emit crlf_def emit_device)

lemma xgets_loop_keys:
  fixes s :: "'d mon"
  assumes "\<forall>c \<in> set ks. c \<noteq> 0 \<and> c \<noteq> 0x0D" "outptr s = 0" "xfunc_out s = Some d" "line_in buff len m0 line (xmem s)"
  shows "\<exists>m. xgets_loop buff len (length line) (ks @ rest) s =
               xgets_loop buff len (length (edited len line ks)) rest
                 (s\<lparr>xmem := m, sent := sent s @ map (Pair d) (echoed len line ks)\<rparr>) \<and>
             line_in buff len m0 (edited len line ks) m"
  using assms
proof (induction ks arbitrary: line s)
  case Nil
  then show ?case
    by (intro exI [of _ "xmem s"]) (simp add: edited_def)
next
  case (Cons c ks)
  have nl: "c \<noteq> 0x0A" if "c \<ge> 0x20"
    using that by auto
  define s' where "s' = s\<lparr>xmem := if c \<noteq> 0x08 \<and> c \<ge> 0x20 \<and> int (length line) < len - 1
      then (xmem s)(buff + length line := c) else xmem s, sent := sent s @ map (Pair d) (echo len line c)\<rparr>"
  have step: "xgets_loop buff len (length line) ((c # ks) @ rest) s = xgets_loop buff len (length (keyed len line c)) (ks @ rest) s'"
    using Cons.prems by (auto simp: s'_def keyed_def echo_def xputc_device nl)
  have "line_in buff len m0 (keyed len line c) (xmem s')"
    using Cons.prems line_in_back line_in_add by (auto simp: s'_def keyed_def)
  moreover have "outptr s' = 0" "xfunc_out s' = Some d"
    using Cons.prems by (simp_all add: s'_def)
  ultimately show ?case
    using Cons.IH [of s' "keyed len line c"] Cons.prems unfolding step
    by (auto simp: edited_def s'_def)
qed

text \<open>C25. \<open>xgets\<close> returns the line that the received characters spell after editing: the buffer holds it with a
  terminating zero, it has at most \<open>len - 1\<close> characters, no byte outside the buffer changes, every accepted
  character and backspace is echoed, and the input after the carriage return is left for the next call.\<close>

theorem xgets_edits_line:
  assumes "xfunc_in s = Some k" and "incoming s k = ks @ 0x0D # rest" and "\<forall>c \<in> set ks. c \<noteq> 0 \<and> c \<noteq> 0x0D"
    and "outptr s = 0" and "xfunc_out s = Some d"
  shows "\<exists>m. xgets buff len s =
               Some (1, s\<lparr>xmem := m, sent := sent s @ map (Pair d) (echoed len [] ks @ [0x0D, 0x0A]),
                           incoming := (incoming s)(k := rest)\<rparr>) \<and>
             text_at m buff (edited len [] ks) \<and> length (edited len [] ks) \<le> nat (len - 1) \<and>
             (\<forall>a. a < buff \<or> a \<ge> buff + nat (max len 1) \<longrightarrow> m a = xmem s a)"
proof -
  let ?l = "edited len [] ks"
  have "line_in buff len (xmem s) [] (xmem s)"
    by (simp add: line_in_def)
  then obtain m where m: "xgets_loop buff len 0 (ks @ 0x0D # rest) s = xgets_loop buff len (length ?l) (0x0D # rest)
        (s\<lparr>xmem := m, sent := sent s @ map (Pair d) (echoed len [] ks)\<rparr>)" "line_in buff len (xmem s) ?l m"
    using xgets_loop_keys [OF assms(3-5), of buff len "xmem s" "[]" "0x0D # rest"] by auto
  have "xgets_loop buff len 0 (ks @ 0x0D # rest) s =
      Some (1, rest, s\<lparr>xmem := m(buff + length ?l := 0), sent := sent s @ map (Pair d) (echoed len [] ks @ [0x0D, 0x0A])\<rparr>)"
    using assms(4,5) unfolding m(1) by (simp add: xputc_emit crlf_def emit_device)
  then have "xgets buff len s = Some (1, s\<lparr>xmem := m(buff + length ?l := 0),
      sent := sent s @ map (Pair d) (echoed len [] ks @ [0x0D, 0x0A]), incoming := (incoming s)(k := rest)\<rparr>)"
    using assms(1,2) by (simp add: xgets_def)
  then show ?thesis
    using line_in_end [OF m(2)] line_in_frame [OF m(2)] m(2) by (auto simp: line_in_def)
qed

section \<open>Memory dump\<close>

definition hex_field :: "nat \<Rightarrow> u32 \<Rightarrow> ctext" where
  "hex_field n v = justify False 0x30 n (numeral_text False 16 (unat v))"

definition printable :: "u8 \<Rightarrow> u8" where
  "printable b = (if 0x20 \<le> b \<and> b \<le> 0x7E then b else 0x2E)"

text \<open>The columns of a dump line: every item after a blank, and for bytes their characters at the end.\<close>

definition dump_columns :: "int \<Rightarrow> (nat \<Rightarrow> u8) \<Rightarrow> nat \<Rightarrow> nat \<Rightarrow> ctext" where
  "dump_columns width m p n =
     (let b = (\<lambda>a. of_nat (unat (m a)) :: u32)
      in if width = DW_CHAR then
           concat (map (\<lambda>i. 0x20 # hex_field 2 (b (p + i))) [0..<n]) @ 0x20 # map (\<lambda>i. printable (m (p + i))) [0..<n]
         else if width = DW_SHORT then
           concat (map (\<lambda>i. 0x20 # hex_field 4 (b (p + 2 * i) + 256 * b (p + 2 * i + 1))) [0..<n])
         else if width = DW_LONG then
           concat (map (\<lambda>i. 0x20 # hex_field 8 (b (p + 4 * i) + 256 * b (p + 4 * i + 1) +
                     65536 * (b (p + 4 * i + 2) + 256 * b (p + 4 * i + 3)))) [0..<n])
         else [])"

lemma dump_specs:
  "spec_of (ascii ''08lX:'') = (\<lparr>zero_fill = True, left_side = False, min_width = 8\<rparr>, [0x58, 0x3A])"
  "spec_of (ascii ''02X'') = (\<lparr>zero_fill = True, left_side = False, min_width = 2\<rparr>, [0x58])"
  "spec_of (ascii ''04X'') = (\<lparr>zero_fill = True, left_side = False, min_width = 4\<rparr>, [0x58])"
  "spec_of (ascii ''08LX'') = (\<lparr>zero_fill = True, left_side = False, min_width = 8\<rparr>, [0x58])"
  by code_simp+

lemma ascii_blank: "ascii (CHR '' '' # t) = 0x20 # ascii t"
  by (simp add: ascii_def)

lemma dump_formats:
  "xformat (ascii ''%08lX:'') [AInt v] = Some (hex_field 8 v @ [0x3A])"
  "xformat (ascii '' %02X'') [AInt v] = Some (0x20 # hex_field 2 v)"
  "xformat (ascii '' %04X'') [AInt v] = Some (0x20 # hex_field 4 v)"
  "xformat (ascii '' %08LX'') [AInt v] = Some (0x20 # hex_field 8 v)"
  by (simp_all add: ascii_percent ascii_blank xformat.simps dump_specs xfield_def conversion_of_def letters
      hex_field_def number_text_long)

lemma crlf_hex: "crlf (hex_field n v) = hex_field n v"
proof (rule crlf_id)
  have "0x0A \<notin> set (numeral_text False 16 (unat v))"
    using numeral_text_plain [of 16 False "unat v"] by auto
  then show "0x0A \<notin> set (hex_field n v)"
    by (auto simp: hex_field_def justify_def)
qed

lemma crlf_Cons: "c \<noteq> 0x0A \<Longrightarrow> crlf (c # t) = c # crlf t"
  by (simp add: crlf_def)

lemma dump_prints:
  assumes "outptr s = 0" "xfunc_out s = Some d"
  shows "xprintf (ascii ''%08lX:'') [AInt v] s = Some (s\<lparr>sent := sent s @ map (Pair d) (hex_field 8 v @ [0x3A])\<rparr>)"
    "xprintf (ascii '' %02X'') [AInt v] s = Some (s\<lparr>sent := sent s @ map (Pair d) (0x20 # hex_field 2 v)\<rparr>)"
    "xprintf (ascii '' %04X'') [AInt v] s = Some (s\<lparr>sent := sent s @ map (Pair d) (0x20 # hex_field 4 v)\<rparr>)"
    "xprintf (ascii '' %08LX'') [AInt v] s = Some (s\<lparr>sent := sent s @ map (Pair d) (0x20 # hex_field 8 v)\<rparr>)"
  using assms
  by (simp_all add: xprintf_def xvprintf_emit [OF dump_formats(1)] xvprintf_emit [OF dump_formats(2)]
      xvprintf_emit [OF dump_formats(3)] xvprintf_emit [OF dump_formats(4)] emit_device crlf_hex crlf_Cons)

lemma upt_shift: "map (\<lambda>i. g i) [0..<Suc n] = g 0 # map (\<lambda>i. g (Suc i)) [0..<n]"
  by (simp add: map_upt_Suc del: upt_Suc)

lemma dump_bytes_run:
  "outptr s = 0 \<Longrightarrow> xfunc_out s = Some d \<Longrightarrow>
   dump_bytes bp n s = Some (s\<lparr>sent := sent s @ map (Pair d) (concat (map (\<lambda>i. 0x20 # hex_field 2 (ucast (xmem s (bp + i)))) [0..<n]))\<rparr>)"
  by (induction n arbitrary: bp s) (simp_all add: dump_prints upt_shift del: upt_Suc)

lemma dump_text_run:
  "outptr s = 0 \<Longrightarrow> xfunc_out s = Some d \<Longrightarrow>
   dump_text bp n s = s\<lparr>sent := sent s @ map (Pair d) (map (\<lambda>i. printable (xmem s (bp + i))) [0..<n])\<rparr>"
proof (induction n arbitrary: bp s)
  case (Suc n)
  have "printable (xmem s bp) \<noteq> 0x0A"
    by (auto simp: printable_def)
  then have "xputc (printable (xmem s bp)) s = s\<lparr>sent := sent s @ [(d, printable (xmem s bp))]\<rparr>"
    using Suc.prems by (rule xputc_device)
  then show ?case
    using Suc by (simp add: upt_shift printable_def [symmetric] del: upt_Suc)
qed simp

lemma dump_shorts_run:
  "outptr s = 0 \<Longrightarrow> xfunc_out s = Some d \<Longrightarrow>
   dump_shorts p (int (Suc n)) s =
     Some (s\<lparr>sent := sent s @ map (Pair d) (concat (map (\<lambda>i. 0x20 # hex_field 4 (mem16 s (p + 2 * i))) [0..<Suc n]))\<rparr>)"
proof (induction n arbitrary: p s)
  case 0
  then show ?case by (simp add: dump_shorts.simps dump_prints)
next
  case (Suc n)
  let ?s = "s\<lparr>sent := sent s @ map (Pair d) (0x20 # hex_field 4 (mem16 s p))\<rparr>"
  have "dump_shorts p (int (Suc (Suc n))) s = dump_shorts (p + 2) (int (Suc n)) ?s"
    using Suc.prems by (subst dump_shorts.simps) (simp add: dump_prints)
  moreover have "mem16 ?s a = mem16 s a" for a
    by (simp add: mem16_def)
  ultimately show ?case
    using Suc by (simp add: upt_shift [of _ "Suc n"] ac_simps del: upt_Suc)
qed

lemma dump_shorts_endless: "outptr s = 0 \<Longrightarrow> xfunc_out s = Some d \<Longrightarrow> len \<le> 0 \<Longrightarrow> dump_shorts p len s = None"
proof (induction "nat (len + 2147483648)" arbitrary: len p s rule: less_induct)
  case less
  have "dump_shorts (p + 2) (len - 1) (s\<lparr>sent := u\<rparr>) = None" if "len > -2147483648" for u
    using less that by (intro less.hyps) auto
  then show ?case
    using less.prems by (subst dump_shorts.simps) (simp add: dump_prints)
qed

lemma dump_longs_run:
  "outptr s = 0 \<Longrightarrow> xfunc_out s = Some d \<Longrightarrow>
   dump_longs p (int (Suc n)) s =
     Some (s\<lparr>sent := sent s @ map (Pair d) (concat (map (\<lambda>i. 0x20 # hex_field 8 (mem32 s (p + 4 * i))) [0..<Suc n]))\<rparr>)"
proof (induction n arbitrary: p s)
  case 0
  then show ?case by (simp add: dump_longs.simps dump_prints)
next
  case (Suc n)
  let ?s = "s\<lparr>sent := sent s @ map (Pair d) (0x20 # hex_field 8 (mem32 s p))\<rparr>"
  have "dump_longs p (int (Suc (Suc n))) s = dump_longs (p + 4) (int (Suc n)) ?s"
    using Suc.prems by (subst dump_longs.simps) (simp add: dump_prints)
  moreover have "mem32 ?s a = mem32 s a" for a
    by (simp add: mem32_def mem16_def)
  ultimately show ?case
    using Suc by (simp add: upt_shift [of _ "Suc n"] ac_simps del: upt_Suc)
qed

lemma dump_longs_endless: "outptr s = 0 \<Longrightarrow> xfunc_out s = Some d \<Longrightarrow> len \<le> 0 \<Longrightarrow> dump_longs p len s = None"
proof (induction "nat (len + 2147483648)" arbitrary: len p s rule: less_induct)
  case less
  have "dump_longs (p + 4) (len - 1) (s\<lparr>sent := u\<rparr>) = None" if "len > -2147483648" for u
    using less that by (intro less.hyps) auto
  then show ?case
    using less.prems by (subst dump_longs.simps) (simp add: dump_prints)
qed

text \<open>\<open>put_dump\<close> prints one line: the address in eight hexadecimal digits, every item of the memory in its
  full width, for bytes also as characters, and a newline. For items of two or four bytes a count of zero or
  less does not end: the counter runs down until it overflows.\<close>

theorem put_dump_line:
  assumes "outptr s = 0" and "xfunc_out s = Some d"
  shows "put_dump buff addr len width s =
    (if (width = DW_SHORT \<or> width = DW_LONG) \<and> len \<le> 0 then None
     else Some (s\<lparr>sent := sent s @ map (Pair d)
            (hex_field 8 addr @ 0x3A # dump_columns width (xmem s) buff (nat len) @ [0x0D, 0x0A])\<rparr>))"
proof -
  let ?s = "s\<lparr>sent := sent s @ map (Pair d) (hex_field 8 addr @ [0x3A])\<rparr>"
  have nl: "xputc 0x0A u = u\<lparr>sent := sent u @ map (Pair d) [0x0D, 0x0A]\<rparr>" if "outptr u = 0" "xfunc_out u = Some d" for u
    using that by (simp add: xputc_emit crlf_def emit_device)
  have m: "mem16 (s\<lparr>sent := u\<rparr>) a = ucast (xmem s a) + 256 * ucast (xmem s (a + 1))" for u a
    by (simp add: mem16_def)
  have n: "nat (1 + int n) = Suc n" for n
    by simp
  consider "width = DW_CHAR" | "width = DW_SHORT \<or> width = DW_LONG" "len \<le> 0"
    | n where "width = DW_SHORT" "len = int (Suc n)" | n where "width = DW_LONG" "len = int (Suc n)"
    | "width \<noteq> DW_CHAR" "width \<noteq> DW_SHORT" "width \<noteq> DW_LONG"
    by (metis not_le zero_less_imp_eq_int gr0_conv_Suc)
  then show ?thesis
  proof cases
    case 1
    then show ?thesis
      using assms by (simp add: put_dump_def dump_prints dump_bytes_run dump_text_run xputc_device nl dump_columns_def
          DW_CHAR_def DW_SHORT_def DW_LONG_def Let_def)
  next
    case 2
    then show ?thesis
      using assms by (auto simp: put_dump_def dump_prints dump_shorts_endless dump_longs_endless DW_CHAR_def DW_SHORT_def DW_LONG_def)
  next
    case (3 n)
    then show ?thesis
      using assms dump_shorts_run [of ?s d buff n]
      by (simp add: put_dump_def dump_prints nl m n dump_columns_def DW_CHAR_def DW_SHORT_def DW_LONG_def Let_def del: upt_Suc)
  next
    case (4 n)
    then show ?thesis
      using assms dump_longs_run [of ?s d buff n]
      by (simp add: put_dump_def dump_prints nl mem32_def m n dump_columns_def DW_CHAR_def DW_SHORT_def DW_LONG_def Let_def
          add.assoc numeral_3_eq_3 del: upt_Suc)
  next
    case 5
    then show ?thesis
      using assms by (simp add: put_dump_def dump_prints nl dump_columns_def)
  qed
qed

section \<open>Limits\<close>

text \<open>The last \<open>k\<close> binary digits of a number with more than \<open>k\<close> are those of its remainder, with leading zeros.\<close>

definition digits_of :: "nat \<Rightarrow> nat \<Rightarrow> nat list" where
  "digits_of k n = replicate (k - length (radix 2 n)) 0 @ radix 2 n"

lemma radix_step: "2 \<le> r \<Longrightarrow> \<not> n < r \<Longrightarrow> radix r n = radix r (n div r) @ [n mod r]"
  by (simp add: radix.simps [of r n])

lemma last_digits:
  "0 < k \<Longrightarrow> 2 ^ k \<le> n \<Longrightarrow> drop (length (radix 2 n) - k) (radix 2 n) = digits_of k (n mod 2 ^ k)"
proof (induction k arbitrary: n)
  case (Suc k)
  have n2: "\<not> n < 2"
    using Suc.prems one_le_power [of "2 :: nat" k] unfolding power_Suc by linarith
  then have r: "radix 2 n = radix 2 (n div 2) @ [n mod 2]"
    by (intro radix_step) auto
  let ?m = "n mod 2 ^ Suc k"
  have m: "?m div 2 = n div 2 mod 2 ^ k" "?m mod 2 = n mod 2"
    by (simp_all add: mod_mult2_eq)
  show ?case
  proof (cases "k = 0")
    case True
    then show ?thesis
      by (simp add: r digits_of_def radix.simps [of 2 "n mod 2"])
  next
    case False
    have "2 ^ k \<le> n div 2"
      using Suc.prems by simp
    then have IH: "drop (length (radix 2 (n div 2)) - k) (radix 2 (n div 2)) = digits_of k (?m div 2)"
      using Suc.IH False m by simp
    have "digits_of (Suc k) ?m = digits_of k (?m div 2) @ [?m mod 2]"
    proof (cases "?m < 2")
      case True
      then have "?m div 2 = 0" "?m mod 2 = ?m" by simp_all
      moreover have "radix 2 0 = [0]" "radix 2 ?m = [?m]"
        using True by (simp_all add: radix.simps)
      ultimately show ?thesis
        using False by (simp add: digits_of_def flip: replicate_append_same) (cases k; simp add: replicate_append_same)
    next
      case False
      then have "radix 2 ?m = radix 2 (?m div 2) @ [?m mod 2]"
        by (intro radix_step) auto
      then show ?thesis by (simp add: digits_of_def)
    qed
    then show ?thesis
      using IH m(2) by (simp add: r)
  qed
qed simp

lemma binary_text: "xformat (ascii ''%lb'') [AInt v] = Some (last16 (numeral_text False 2 (unat v)))"
  by (simp add: ascii_percent ascii_long xformat.simps spec_of_long xfield_def conversion_of_def letters justify_def number_text_def)

text \<open>A binary number of more than 16 digits is printed without its upper digits: \<open>%lb\<close> shows the low half of
  the value as exactly 16 digits, so two values with the same low half print alike.\<close>

theorem xprintf_binary_low_half:
  assumes "65536 \<le> unat v" and "outptr s = 0" and "xfunc_out s = Some d"
  shows "xprintf (ascii ''%lb'') [AInt v] s =
    Some (s\<lparr>sent := sent s @ map (Pair d) (map (digit_char False) (digits_of 16 (unat v mod 65536)))\<rparr>)"
proof -
  have "last16 (numeral_text False 2 (unat v)) = map (digit_char False) (digits_of 16 (unat v mod 65536))"
    using last_digits [of 16 "unat v"] assms(1) by (simp add: last16_def numeral_text_def drop_map)
  moreover have "crlf (last16 (numeral_text False 2 (unat v))) = last16 (numeral_text False 2 (unat v))"
    using numeral_text_plain [of 2 False "unat v"] plain_text [of "last16 (numeral_text False 2 (unat v))"]
    by (auto simp: last16_def dest: in_set_dropD)
  ultimately show ?thesis
    using assms(2,3) by (simp add: xprintf_def xvprintf_emit [OF binary_text] emit_device)
qed

lemma hex_digit_range:
  "xa_digit c < 16 \<longleftrightarrow> (0x30 \<le> c \<and> c \<le> 0x3F) \<or> (0x41 \<le> c \<and> c \<le> 0x46) \<or> (0x61 \<le> c \<and> c \<le> 0x66)"
proof -
  consider "c \<ge> 0x61" | "c < 0x61" "c \<ge> 0x41" | "c < 0x41" "c \<ge> 0x30" | "c < 0x30"
    by (meson not_le)
  then show ?thesis
  proof cases
    case 1
    have "unat (c - 0x50) = unat c - 0x50" "unat (c - 0x57) = unat c - 0x57"
      using 1 by (simp_all add: word_le_nat_alt unat_sub)
    then show ?thesis
      using 1 by (auto simp: xa_digit_def Let_def word_le_nat_alt word_less_nat_alt)
  next
    case 2
    have "unat (c - 0x30) = unat c - 0x30" "unat (c - 0x37) = unat c - 0x37"
      using 2 by (simp_all add: word_le_nat_alt unat_sub)
    then show ?thesis
      using 2 by (auto simp: xa_digit_def Let_def word_le_nat_alt word_less_nat_alt)
  next
    case 3
    have "unat (c - 0x30) = unat c - 0x30"
      using 3 by (simp add: word_le_nat_alt unat_sub)
    then show ?thesis
      using 3 by (auto simp: xa_digit_def Let_def word_le_nat_alt word_less_nat_alt)
  next
    case 4
    have "unat (c - 0x30) = unat c + 208" "unat (c - 0x37) = unat c + 201"
      using 4 by (simp_all add: word_less_nat_alt unat_sub_if_size word_size)
    then show ?thesis
      using 4 by (auto simp: xa_digit_def Let_def word_le_nat_alt word_less_nat_alt)
  qed
qed

text \<open>After \<open>0x\<close> the conversion takes as a digit every hexadecimal digit, and also the six characters from
  the colon to the question mark, which follow 9 in the character set.\<close>

theorem xatoi_hex_digits:
  "fst (xatoi [0x30, 0x78, c]) = 1 \<longleftrightarrow>
     c \<le> 0x20 \<or> is_digit c \<or> (0x41 \<le> c \<and> c \<le> 0x46) \<or> (0x61 \<le> c \<and> c \<le> 0x66) \<or> (0x3A \<le> c \<and> c \<le> 0x3F)"
proof -
  have r: "fst (xatoi [0x30, 0x78, c]) = 1 \<longleftrightarrow> c \<le> 0x20 \<or> xa_digit c < 16"
    by (simp add: xatoi_def xa_value_def xa_refused_iff not_less not_le)
  show ?thesis
    unfolding r hex_digit_range is_digit_def word_le_nat_alt by auto
qed

section \<open>Witnesses\<close>

text \<open>A console with output function 1, input function 0 and a line being typed with one correction.\<close>

definition mon0 :: "nat mon" where
  "mon0 = \<lparr>xfunc_out = Some 1, outptr = 0, xmem = (\<lambda>a. of_nat a), sent = [], xfunc_in = Some 0,
           incoming = (\<lambda>_. [0x61, 0x63, 0x08, 0x62, 0x07, 0x0D, 0x78])\<rparr>"

lemma mon0_simps: "outptr mon0 = 0" "xfunc_out mon0 = Some 1" "xfunc_in mon0 = Some 0" "sent mon0 = []"
  "incoming mon0 0 = [0x61, 0x63, 0x08, 0x62, 0x07] @ 0x0D # [0x78]"
  by (simp_all add: mon0_def)

lemma format_example:
  "xformat (ascii ''%6d,%3d%%'') [AInt (- 200), AInt 5] = Some (ascii ''  -200,  5%'')"
  by code_simp

theorem xprintf_renders_witness:
  "xprintf (ascii ''%-5u|%05X|%b'') [AInt 42, AInt 0xBE, AInt 5] mon0 =
     Some (mon0\<lparr>sent := map (Pair 1) (ascii ''42   |000BE|101'')\<rparr>)"
proof -
  have "xformat (ascii ''%-5u|%05X|%b'') [AInt 42, AInt 0xBE, AInt 5] = Some (ascii ''42   |000BE|101'')"
    by code_simp
  moreover have "crlf (ascii ''42   |000BE|101'') = ascii ''42   |000BE|101''"
    by code_simp
  ultimately show ?thesis
    using xprintf_renders [OF _ mon0_simps(1,2), of _ _ _ 2] by (simp add: mon0_simps)
qed

theorem xsprintf_writes_witness:
  "xsprintf 100 (ascii ''%6d,%3d%%'') [AInt (- 200), AInt 5] mon0 =
     Some (mon0\<lparr>xmem := store 100 (crlf (ascii ''  -200,  5%'') @ [0]) (xmem mon0), outptr := 0\<rparr>)"
  using xsprintf_writes [OF format_example, of 100 mon0] by simp

theorem xsprintf_xatoi_roundtrip_witness:
  "\<exists>s' t. xsprintf 100 (ascii ''%ld'') [AInt 0x80000000] mon0 = Some s' \<and> text_at (xmem s') 100 t \<and>
          xatoi t = (1, [], 0x80000000)"
  using xsprintf_xatoi_roundtrip [of 100 "ascii ''%ld''" "0x80000000" mon0] by (simp add: number_formats_def)

theorem xgets_edits_line_witness:
  "\<exists>m. xgets 100 8 mon0 = Some (1, mon0\<lparr>xmem := m, sent := map (Pair 1) [0x61, 0x63, 0x08, 0x62, 0x0D, 0x0A],
          incoming := (incoming mon0)(0 := [0x78])\<rparr>) \<and> text_at m 100 [0x61, 0x62]"
proof -
  have e: "echoed 8 [] [0x61, 0x63, 0x08, 0x62, 0x07] = [0x61, 0x63, 0x08, 0x62]"
      "edited 8 [] [0x61, 0x63, 0x08, 0x62, 0x07] = [0x61, 0x62]"
    by (simp_all add: echo_def keyed_def edited_def)
  have "\<forall>c \<in> set [0x61, 0x63, 0x08, 0x62, 0x07]. c \<noteq> 0 \<and> c \<noteq> (0x0D :: u8)"
    by simp
  from xgets_edits_line [OF mon0_simps(3,5) this mon0_simps(1,2), of 100 8] show ?thesis
    unfolding e mon0_simps(4) append_Nil append_Cons by blast
qed

theorem put_dump_line_witness:
  "put_dump 0x41 0x41 1 DW_CHAR mon0 = Some (mon0\<lparr>sent := map (Pair 1) (ascii ''00000041: 41 A'' @ [0x0D, 0x0A])\<rparr>)"
proof -
  have "hex_field 8 0x41 = ascii ''00000041''" "dump_columns DW_CHAR (\<lambda>a. of_nat a) 0x41 1 = ascii '' 41 A''"
    by code_simp+
  then show ?thesis
    using put_dump_line [OF mon0_simps(1,2), of "0x41" "0x41" 1 DW_CHAR]
    by (simp add: mon0_def DW_CHAR_def DW_SHORT_def DW_LONG_def ascii_def)
qed

theorem xprintf_binary_low_half_witness:
  "xprintf (ascii ''%lb'') [AInt 0x12345] mon0 = Some (mon0\<lparr>sent := map (Pair 1) (ascii ''0010001101000101'')\<rparr>)"
proof -
  have "map (digit_char False) (digits_of 16 (unat (0x12345 :: u32) mod 65536)) = ascii ''0010001101000101''"
    by (simp add: digits_of_def radix.simps digit_char_def ascii_def, simp add: numeral_2_eq_2)
  then show ?thesis
    using xprintf_binary_low_half [OF _ mon0_simps(1,2), of "0x12345"] by (simp add: mon0_simps)
qed

end
