(* ===== verification/Esp8266_Text.thy ===== *)
theory Esp8266_Text
  imports Monitor_Props
begin

text \<open>
  The text functions of \<^verbatim>\<open>src/WiFi/esp8266.c\<close>: numbers, network and hardware addresses, escaped strings, the
  search in memory, and what they use of the C string library.

  A character pointer is the text from there to the terminating zero. \<^verbatim>\<open>strtok\<close> gives the separators it skips,
  the token and the rest that begins with the separator it overwrites. \<^verbatim>\<open>int32_t\<close> results are words; their
  arithmetic wraps around.
\<close>

section \<open>Strings\<close>

text \<open>The string that an array holds: the bytes before its first zero.\<close>

definition cstr :: "u8 list \<Rightarrow> ctext" where
  "cstr a = takeWhile (\<lambda>c. c \<noteq> 0) a"

definition strtok :: "u8 \<Rightarrow> ctext \<Rightarrow> (ctext \<times> ctext \<times> ctext) option" where
  "strtok d t =
     (let u = dropWhile (\<lambda>c. c = d) t
      in if u = [] then None
         else Some (takeWhile (\<lambda>c. c = d) t, takeWhile (\<lambda>c. c \<noteq> d) u, dropWhile (\<lambda>c. c \<noteq> d) u))"

text \<open>The position of the first occurrence, as \<^verbatim>\<open>strstr\<close> finds it.\<close>

fun strstr :: "ctext \<Rightarrow> ctext \<Rightarrow> nat option" where
  "strstr [] n = (if n = [] then Some 0 else None)"
| "strstr (c # t) n = (if take (length n) (c # t) = n then Some 0 else map_option Suc (strstr t n))"

section \<open>Numbers\<close>

definition CHARISNUM :: "u8 \<Rightarrow> bool" where
  "CHARISNUM x \<longleftrightarrow> 0x30 \<le> x \<and> x \<le> 0x39"

definition CHAR2NUM :: "u8 \<Rightarrow> int" where
  "CHAR2NUM x = uint x - 0x30"

definition Hex2Num :: "u8 \<Rightarrow> u8" where
  "Hex2Num a =
     (if 0x30 \<le> a \<and> a \<le> 0x39 then a - 0x30
      else if 0x61 \<le> a \<and> a \<le> 0x66 then (a - 0x61) + 10
      else if 0x41 \<le> a \<and> a \<le> 0x46 then (a - 0x41) + 10
      else 0)"

definition CHARISHEXNUM :: "u8 \<Rightarrow> bool" where
  "CHARISHEXNUM a \<longleftrightarrow>
     (if 0x30 \<le> a \<and> a \<le> 0x39 then True
      else if 0x61 \<le> a \<and> a \<le> 0x66 then True
      else if 0x41 \<le> a \<and> a \<le> 0x46 then True
      else False)"

fun pn_loop :: "u32 \<Rightarrow> u8 \<Rightarrow> ctext \<Rightarrow> u32 \<times> u8" where
  "pn_loop acc i [] = (acc, i)"
| "pn_loop acc i (c # ptr) =
     (if CHARISNUM c then pn_loop (10 * acc + word_of_int (CHAR2NUM c)) (i + 1) ptr else (acc, i))"

text \<open>The number and the count of characters that \<^verbatim>\<open>*cnt\<close> gets.\<close>

definition ParseNumber :: "ctext \<Rightarrow> u32 \<times> u8" where
  "ParseNumber ptr =
     (let minus = (fst (fetch ptr) = 0x2D);
          (acc, i) = (if minus then pn_loop 0 1 (tl ptr) else pn_loop 0 0 ptr)
      in (if minus then 0 - acc else acc, i))"

fun ph_loop :: "u32 \<Rightarrow> u8 \<Rightarrow> ctext \<Rightarrow> u32 \<times> u8" where
  "ph_loop acc i [] = (acc, i)"
| "ph_loop acc i (c # ptr) =
     (if CHARISHEXNUM c then ph_loop (push_bit 4 acc + ucast (Hex2Num c)) (i + 1) ptr else (acc, i))"

definition ParseHexNumber :: "ctext \<Rightarrow> u32 \<times> u8" where
  "ParseHexNumber ptr = ph_loop 0 0 ptr"

text \<open>The string in an array of \<open>cap\<close> bytes at address 1; \<open>None\<close> when it does not fit.\<close>

fun str_in :: "nat \<Rightarrow> (nat \<Rightarrow> u8) \<Rightarrow> nat \<Rightarrow> ctext option" where
  "str_in 0 m p = None"
| "str_in (Suc cap) m p = (if m p = 0 then Some [] else map_option (Cons (m p)) (str_in cap m (p + 1)))"

definition blank :: "unit mon" where
  "blank = \<lparr>xfunc_out = None, outptr = 0, xmem = (\<lambda>_. 0), sent = [], xfunc_in = None, incoming = (\<lambda>_. [])\<rparr>"

definition sprintf_in :: "nat \<Rightarrow> ctext \<Rightarrow> xarg list \<Rightarrow> ctext option" where
  "sprintf_in cap fmt arp = do { s \<leftarrow> xsprintf 1 fmt arp blank; str_in cap (xmem s) 1 }"

text \<open>\<open>Int2String\<close> into an array of \<open>cap\<close> bytes.\<close>

definition Int2String :: "nat \<Rightarrow> u32 \<Rightarrow> ctext option" where
  "Int2String cap num = sprintf_in cap (ascii ''%ld'') [AInt num]"

section \<open>Addresses\<close>

lemma strtok_shorter: "strtok d t = Some (sk, tok, rest) \<Longrightarrow> length (tl rest) < length t"
proof -
  assume s: "strtok d t = Some (sk, tok, rest)"
  then have "dropWhile (\<lambda>c. c = d) t \<noteq> []" and r: "rest = dropWhile (\<lambda>c. c \<noteq> d) (dropWhile (\<lambda>c. c = d) t)"
    by (auto simp: strtok_def Let_def split: if_splits)
  then have "0 < length t"
    by (cases t) auto
  moreover have "length rest \<le> length t"
    unfolding r by (meson length_dropWhile_le le_trans)
  ultimately show ?thesis by (simp del: length_greater_0_conv)
qed

function ip_loop :: "nat \<Rightarrow> u8 \<Rightarrow> u8 list \<Rightarrow> ctext \<Rightarrow> u8 list \<times> u8" where
  "ip_loop x i arr t =
     (case strtok 0x2E t of
        None \<Rightarrow> (arr, i)
      | Some (_, tok, rest) \<Rightarrow>
          let (n, c) = ParseNumber tok;
              arr = arr[x := ucast n];
              i = i + c
          in if x + 1 \<ge> 4 then (arr, i) else ip_loop (x + 1) (i + 1) arr (tl rest))"
  by pat_completeness auto
termination
  by (relation "measure (\<lambda>(x, i, arr, t). length t)") (auto dest: strtok_shorter)

declare ip_loop.simps [simp del]

text \<open>\<open>mem\<close> holds the memory from \<open>ip_str\<close> on; 15 bytes of it are copied whatever they are.\<close>

definition ParseIP :: "u8 list \<Rightarrow> u8 list \<Rightarrow> (u8 list \<times> u8) option" where
  "ParseIP mem arr =
     (if length mem < 15 then None
      else Some (ip_loop 0 0 arr (cstr (take 15 mem @ [0]))))"

text \<open>The result is the array, the count and the text as \<^verbatim>\<open>strtok\<close> leaves it.\<close>

function mac_loop :: "nat \<Rightarrow> u8 list \<Rightarrow> u8 \<Rightarrow> ctext \<Rightarrow> u8 list \<times> u8 \<times> u8 list" where
  "mac_loop hexnum arr acc t =
     (case strtok 0x3A t of
        None \<Rightarrow> (arr, acc, t)
      | Some (sk, tok, rest) \<Rightarrow>
          let (n, c) = ParseHexNumber tok;
              arr = arr[hexnum := ucast n];
              acc = acc + c;
              cut = (\<lambda>r. sk @ tok @ (if rest = [] then [] else 0 # r))
          in if hexnum + 1 \<ge> 6 then (arr, acc, cut (tl rest))
             else let (arr, acc, r) = mac_loop (hexnum + 1) arr (acc + 1) (tl rest) in (arr, acc, cut r))"
  by pat_completeness auto
termination
  by (relation "measure (\<lambda>(hexnum, arr, acc, t). length t)") (auto dest: strtok_shorter)

declare mac_loop.simps [simp del]

definition ParseMAC :: "ctext \<Rightarrow> u8 list \<Rightarrow> u8 list \<times> u8 \<times> u8 list" where
  "ParseMAC ptr arr = mac_loop 0 arr 0 ptr"

section \<open>Escaped strings\<close>

definition special :: "u8 \<Rightarrow> bool" where
  "special c \<longleftrightarrow> c = 0x2C \<or> c = 0x22 \<or> c = 0x5C"

fun EscapeString :: "ctext \<Rightarrow> ctext" where
  "EscapeString [] = []"
| "EscapeString (c # str) = (if special c then [0x2F] else []) @ c # EscapeString str"

text \<open>The characters sent.\<close>

fun EscapeStringAndSend :: "ctext \<Rightarrow> u8 list" where
  "EscapeStringAndSend [] = []"
| "EscapeStringAndSend (c # str) = (if special c then [0x5C] else []) @ c # EscapeStringAndSend str"

fun ReverseEscapeString :: "ctext \<Rightarrow> ctext" where
  "ReverseEscapeString [] = []"
| "ReverseEscapeString [c] = [c]"
| "ReverseEscapeString (c # c' # str) =
     (if c = 0x2F \<and> special c' then c' # ReverseEscapeString str else c # ReverseEscapeString (c' # str))"

section \<open>Search in memory\<close>

text \<open>The loop: \<open>n\<close> rounds left, \<open>i\<close> the position.\<close>

fun mm_loop :: "nat \<Rightarrow> nat \<Rightarrow> u8 list \<Rightarrow> u8 list \<Rightarrow> nat option" where
  "mm_loop 0 i hptr nptr = None"
| "mm_loop (Suc n) i hptr nptr =
     (if take (length nptr) (drop i hptr) = nptr then Some i else mm_loop n (i + 1) hptr nptr)"

text \<open>The position of the result in the haystack; \<open>None\<close> is the null pointer.\<close>

definition mem_mem :: "u8 list \<Rightarrow> u8 list \<Rightarrow> nat option" where
  "mem_mem haystack needle =
     (if length needle > length haystack then None
      else if length haystack = length needle \<and> haystack = needle then Some 0
      else mm_loop (length haystack - length needle) 0 haystack needle)"

section \<open>Properties of the text functions\<close>

lemma escaped_head: "EscapeString str = x # r \<Longrightarrow> \<not> special x"
  by (cases str) (auto simp: special_def split: if_splits)

text \<open>An escaped string is turned back into the original: every comma, quotation mark and backslash gets a
  slash before it, a slash of the original is left alone, and still no slash is taken for an escape.\<close>

theorem escape_roundtrip: "ReverseEscapeString (EscapeString str) = str"
proof (induction str)
  case (Cons c str)
  show ?case
  proof (cases "EscapeString str")
    case Nil
    then have "str = []" by (cases str) auto
    then show ?thesis by (simp add: special_def)
  next
    case (Cons x r)
    then show ?thesis
      using Cons.IH escaped_head [OF Cons] by simp
  qed
qed simp

lemma mm_loop_find: "mm_loop n i h nd = find (\<lambda>k. take (length nd) (drop k h) = nd) [i..<i + n]"
proof (induction n arbitrary: i)
  case (Suc n)
  have "[i..<i + Suc n] = i # [Suc i..<Suc i + n]"
    by (simp add: upt_rec)
  then show ?case
    using Suc by simp
qed simp

lemma find_upt_Least: "find P [0..<d] = (if \<exists>i < d. P i then Some (LEAST i. P i) else None)"
proof (cases "\<exists>i < d. P i")
  case True
  then obtain k where k: "find P [0..<d] = Some k"
    by (cases "find P [0..<d]") (auto simp: find_None_iff)
  then have "k < d" "P k" "\<forall>j < k. \<not> P j"
    by (auto simp: find_Some_iff)
  then have "(LEAST i. P i) = k"
    by (intro Least_equality) (auto simp: not_less [symmetric])
  then show ?thesis
    using True k by simp
qed (auto simp: find_None_iff)

text \<open>\<open>mem_mem\<close> returns the first position of the needle, but when the memory is longer than the needle it does
  not look at the last position: a needle at the very end is not found.\<close>

theorem mem_mem_first:
  "mem_mem h n =
     (if h = n then Some 0
      else if \<exists>i < length h - length n. take (length n) (drop i h) = n
      then Some (LEAST i. take (length n) (drop i h) = n) else None)"
proof (cases "length n > length h")
  case True
  then show ?thesis by (auto simp: mem_mem_def)
next
  case False
  then show ?thesis
    using mm_loop_find [of "length h - length n" 0 h n] find_upt_Least [of "\<lambda>k. take (length n) (drop k h) = n"]
    by (simp add: mem_mem_def)
qed

end
