(* ===== verification/Esp8266_Text_Facts.thy ===== *)
theory Esp8266_Text_Facts
  imports Esp8266_Text
begin

text \<open>
  The text functions of the WiFi driver against the texts that the module and the driver exchange: numbers,
  network addresses and hardware addresses are read back as they were written.
\<close>

section \<open>Numbers\<close>

text \<open>A text that does not go on with a digit.\<close>

definition no_digit :: "ctext \<Rightarrow> bool" where
  "no_digit t \<longleftrightarrow> (case t of [] \<Rightarrow> True | c # _ \<Rightarrow> \<not> CHARISNUM c)"

lemma digit_char_num: "k < 10 \<Longrightarrow> CHARISNUM (digit_char l k) \<and> CHAR2NUM (digit_char l k) = int k"
proof -
  assume "k < 10"
  moreover have "\<forall>l \<in> set [True, False]. \<forall>k \<in> set [0..<10]. CHARISNUM (digit_char l k) \<and> CHAR2NUM (digit_char l k) = int k"
    by code_simp
  ultimately show ?thesis by (cases l) simp_all
qed

lemma pn_loop_digits:
  assumes "\<forall>k \<in> set ks. k < 10" "no_digit rest"
  shows "pn_loop acc i (map (digit_char l) ks @ rest) = (horner 10 ks acc, i + of_nat (length ks))"
  using assms(1)
proof (induction ks arbitrary: acc i)
  case Nil
  then show ?case
    using assms(2) by (cases rest) (auto simp: no_digit_def horner_def)
next
  case (Cons k ks)
  then show ?case
    by (simp add: digit_char_num horner_def mult.commute add.assoc add.commute [of 1])
qed

lemma ParseNumber_numeral:
  assumes "no_digit rest"
  shows "ParseNumber (numeral_text l 10 n @ rest) = (of_nat n, of_nat (length (numeral_text l 10 n)))"
    and "ParseNumber (0x2D # numeral_text l 10 n @ rest) = (- of_nat n, of_nat (Suc (length (numeral_text l 10 n))))"
proof -
  have d: "\<forall>k \<in> set (radix 10 n). k < 10"
    by (intro radix_digits) simp
  obtain k ks where r: "radix 10 n = k # ks"
    by (cases "radix 10 n") auto
  have "digit_char l k \<noteq> 0x2D"
    using d digit_char_facts(5) [of k l] by (simp add: r)
  then show "ParseNumber (numeral_text l 10 n @ rest) = (of_nat n, of_nat (length (numeral_text l 10 n)))"
    using pn_loop_digits [OF d assms, of 0 0 l] horner_radix [of 10 n]
    by (simp add: ParseNumber_def numeral_text_def r)
  show "ParseNumber (0x2D # numeral_text l 10 n @ rest) = (- of_nat n, of_nat (Suc (length (numeral_text l 10 n))))"
    using pn_loop_digits [OF d assms, of 0 1 l] horner_radix [of 10 n]
    by (simp add: ParseNumber_def numeral_text_def)
qed

lemma ParseNumber_number:
  assumes "no_digit rest"
  shows "ParseNumber (number_text True False 10 v @ rest) = (v, of_nat (length (number_text True False 10 v)))"
  using ParseNumber_numeral [OF assms, of False] by (simp add: number_text_long)

section \<open>Strings in arrays\<close>

lemma text_at_Cons: "text_at m p (c # t) \<longleftrightarrow> m p = c \<and> c \<noteq> 0 \<and> text_at m (p + 1) t"
  by (auto simp: text_at_def All_less_Suc2)

lemma str_in_text: "text_at m p t \<Longrightarrow> str_in cap m p = (if length t < cap then Some t else None)"
proof (induction t arbitrary: p cap)
  case Nil
  then show ?case by (cases cap) (auto simp: text_at_def)
next
  case (Cons c t)
  then show ?case by (cases cap) (auto simp: text_at_Cons)
qed

lemma sprintf_in_text:
  assumes "xformat fmt arp = Some t" "\<forall>c \<in> set t. c > 0x20"
  shows "sprintf_in cap fmt arp = (if length t < cap then Some t else None)"
  using xsprintf_store [OF assms(1), of 1 blank] str_in_text [OF text_at_store, of t cap 1] plain_text [OF assms(2)]
  by (simp add: sprintf_in_def)

lemma number_text_plain: "\<forall>c \<in> set (number_text True False 10 v). c > 0x20"
  using numeral_text_plain [of 10 False "unat v"] numeral_text_plain [of 10 False "unat (0 - v)"]
  by (auto simp: number_text_long)

lemma Int2String_text:
  "Int2String cap v = (if length (number_text True False 10 v) < cap then Some (number_text True False 10 v) else None)"
  using sprintf_in_text [OF number_formats_text(1) number_text_plain] by (simp add: Int2String_def)

lemma number_text_length: "length (number_text True False 10 v) \<le> 11"
proof -
  have "length (numeral_text False 10 (unat x)) \<le> 10" for x :: u32
    using radix_le [of 10 "unat x" 10] unat_u32_lt [of x] by (simp add: numeral_text_def)
  from this [of v] this [of "0 - v"] show ?thesis
    by (simp add: number_text_long)
qed

text \<open>\<open>Int2String\<close> and \<open>ParseNumber\<close> are inverse: every 32-bit number written into an array of 12 bytes or more
  is read back with the number of its characters, whatever character that is not a digit follows.\<close>

theorem int2string_parse_roundtrip:
  assumes "12 \<le> cap" and "no_digit rest"
  shows "\<exists>t. Int2String cap v = Some t \<and> ParseNumber (t @ rest) = (v, of_nat (length t))"
  using ParseNumber_number [OF assms(2), of v] number_text_length [of v] assms(1) by (simp add: Int2String_text)

section \<open>Hardware addresses\<close>

lemma strtok_token:
  assumes "tok \<noteq> []" "d \<notin> set tok"
  shows "strtok d (tok @ r) = Some ([], tok @ takeWhile (\<lambda>c. c \<noteq> d) r, dropWhile (\<lambda>c. c \<noteq> d) r)"
proof -
  obtain c u where tok: "tok = c # u" "c \<noteq> d" "d \<notin> set u"
    using assms by (cases tok) auto
  then have "takeWhile (\<lambda>c. c \<noteq> d) (u @ r) = u @ takeWhile (\<lambda>c. c \<noteq> d) r"
    "dropWhile (\<lambda>c. c \<noteq> d) (u @ r) = dropWhile (\<lambda>c. c \<noteq> d) r"
    by (auto intro!: takeWhile_append2 dropWhile_append2)
  then show ?thesis
    using tok by (simp add: strtok_def)
qed

lemma digit_char_hex: "k < 16 \<Longrightarrow> CHARISHEXNUM (digit_char True k) \<and> Hex2Num (digit_char True k) = of_nat k \<and> digit_char True k \<noteq> 0x3A"
proof -
  assume "k < 16"
  moreover have "\<forall>k \<in> set [0..<16]. CHARISHEXNUM (digit_char True k) \<and> Hex2Num (digit_char True k) = of_nat k \<and> digit_char True k \<noteq> 0x3A"
    by code_simp
  ultimately show ?thesis by simp
qed

definition hex2 :: "u8 \<Rightarrow> ctext" where
  "hex2 b = [digit_char True (unat b div 16), digit_char True (unat b mod 16)]"

definition no_hex :: "ctext \<Rightarrow> bool" where
  "no_hex t \<longleftrightarrow> (case t of [] \<Rightarrow> True | c # _ \<Rightarrow> \<not> CHARISHEXNUM c)"

lemma hex2_nibbles: "unat b div 16 < 16" "unat b mod 16 < 16" for b :: u8
  using unat_u8_lt [of b] by auto

lemma ParseHexNumber_hex2:
  assumes "no_hex rest"
  shows "\<exists>n. ParseHexNumber (hex2 b @ rest) = (n, 2) \<and> ucast n = b"
proof -
  have "ph_loop n i rest = (n, i)" for n i
    using assms by (cases rest) (auto simp: no_hex_def)
  then have "ParseHexNumber (hex2 b @ rest) = (push_bit 4 (of_nat (unat b div 16)) + of_nat (unat b mod 16), 2)"
    using digit_char_hex [OF hex2_nibbles(1) [of b]] digit_char_hex [OF hex2_nibbles(2) [of b]] hex2_nibbles [of b]
    by (simp add: ParseHexNumber_def hex2_def unsigned_of_nat take_bit_nat_eq_self)
  moreover have "push_bit 4 (of_nat (unat b div 16)) + of_nat (unat b mod 16) = (of_nat (unat b) :: u32)"
  proof -
    have "push_bit 4 (of_nat (unat b div 16)) + of_nat (unat b mod 16) = (of_nat (unat b div 16 * 16 + unat b mod 16) :: u32)"
      by (simp only: push_bit_eq_mult of_nat_add of_nat_mult) simp
    then show ?thesis
      by (simp only: div_mult_mod_eq)
  qed
  ultimately show ?thesis
    by (simp add: ucast_up_ucast_id is_up)
qed

lemma hex2_plain: "hex2 b \<noteq> []" "0x3A \<notin> set (hex2 b)" "\<forall>c \<in> set (hex2 b). c > 0x20"
  using digit_char_hex [OF hex2_nibbles(1) [of b]] digit_char_hex [OF hex2_nibbles(2) [of b]]
    digit_char_facts(2) [OF hex2_nibbles(1) [of b]] digit_char_facts(2) [OF hex2_nibbles(2) [of b]]
  by (auto simp: hex2_def)

lemma hex2_field: "justify False 0x30 2 (numeral_text True 16 (unat b)) = hex2 b" for b :: u8
proof (cases "unat b < 16")
  case True
  then show ?thesis
    by (simp add: justify_def numeral_text_def radix.simps [of 16] hex2_def digit_char_def)
next
  case False
  have "unat b div 16 < 16"
    by (rule hex2_nibbles)
  then have "radix 16 (unat b) = [unat b div 16, unat b mod 16]"
    using False by (simp add: radix.simps [of 16])
  then show ?thesis
    by (simp add: justify_def numeral_text_def hex2_def)
qed

text \<open>The six groups with colons between them.\<close>

fun mac_text :: "u8 list \<Rightarrow> ctext" where
  "mac_text [] = []"
| "mac_text [b] = hex2 b"
| "mac_text (b # bs) = hex2 b @ 0x3A # mac_text bs"

definition mac_result :: "nat \<Rightarrow> u8 list \<Rightarrow> u8 \<Rightarrow> ctext \<Rightarrow> u8 list \<times> u8" where
  "mac_result x arr n t = (let (arr, n, _) = mac_loop x arr n t in (arr, n))"

lemma mac_group:
  assumes "x + 1 < 6"
  shows "mac_result x arr n (hex2 b @ 0x3A # r) = mac_result (x + 1) (arr[x := b]) (n + 3) r"
proof -
  obtain v where v: "ParseHexNumber (hex2 b) = (v, 2)" "ucast v = b"
    using ParseHexNumber_hex2 [of "[]" b] by (auto simp: no_hex_def)
  show ?thesis
    using assms strtok_token [OF hex2_plain(1,2), of b "0x3A # r"] v
    by (simp add: mac_result_def mac_loop.simps [of x] add.assoc split: prod.splits)
qed

lemma mac_last:
  assumes "no_hex r"
  shows "mac_result 5 arr n (hex2 b @ r) = (arr[5 := b], n + 2)"
proof -
  have "no_hex (takeWhile (\<lambda>c. c \<noteq> 0x3A) r)"
    using assms by (cases r) (auto simp: no_hex_def)
  then obtain v where v: "ParseHexNumber (hex2 b @ takeWhile (\<lambda>c. c \<noteq> 0x3A) r) = (v, 2)" "ucast v = b"
    using ParseHexNumber_hex2 by blast
  then show ?thesis
    using strtok_token [OF hex2_plain(1,2), of b r] by (simp add: mac_result_def mac_loop.simps [of 5])
qed

lemma length_6: "length xs = 6 \<longleftrightarrow> (\<exists>a b c d e f. xs = [a, b, c, d, e, f])"
  by (auto simp: eval_nat_numeral length_Suc_conv)

lemma ParseMAC_text:
  assumes "length addr = 6" "length arr = 6" "no_hex rest"
  shows "\<exists>u. ParseMAC (mac_text addr @ rest) arr = (addr, 17, u)"
proof -
  obtain a b c d e f where x: "addr = [a, b, c, d, e, f]"
    using assms(1) by (auto simp: length_6)
  obtain a' b' c' d' e' f' where y: "arr = [a', b', c', d', e', f']"
    using assms(2) by (auto simp: length_6)
  have "mac_result 0 arr 0 (mac_text addr @ rest) = (addr, 17)"
    using mac_group [of 0] mac_group [of 1] mac_group [of 2] mac_group [of 3] mac_group [of 4] mac_last [OF assms(3)]
    by (simp add: x y numeral_2_eq_2 [symmetric])
  then show ?thesis
    by (auto simp: ParseMAC_def mac_result_def split: prod.splits)
qed

definition MAC_FORMAT :: ctext where
  "MAC_FORMAT = ascii ''%02x:%02x:%02x:%02x:%02x:%02x''"

lemma spec_02x: "spec_of (0x30 # 0x32 # 0x78 # rest) = (\<lparr>zero_fill = True, left_side = False, min_width = 2\<rparr>, 0x78 # rest)"
  by (simp add: spec_of_def decimal_digits_def decimal_def letters)

lemma hex_number: "number_text False True 16 (ucast b) = numeral_text True 16 (unat b)" for b :: u8
  using unat_u8_lt [of b] by (simp add: number_text_long unsigned_ucast_eq take_bit_nat_eq_self)

lemma MAC_format_group:
  "xformat (0x25 # 0x30 # 0x32 # 0x78 # fmt) (AInt (ucast b) # arp) = map_option ((@) (hex2 b)) (xformat fmt arp)"
  by (simp add: xformat.simps(2) [of "0x25"] spec_02x xfield_def conversion_of_def letters hex_number hex2_field)

lemma MAC_format_text:
  assumes "length addr = 6"
  shows "xformat MAC_FORMAT (map (\<lambda>b. AInt (ucast b)) addr) = Some (mac_text addr)"
proof -
  obtain a b c d e f where x: "addr = [a, b, c, d, e, f]"
    using assms by (auto simp: length_6)
  have colon: "xformat (0x3A # fmt) arp = map_option (Cons 0x3A) (xformat fmt arp)" for fmt arp
    by (simp add: xformat.simps(2) [of "0x3A"] letters)
  show ?thesis
    by (simp add: x MAC_FORMAT_def ascii_def MAC_format_group colon xformat.simps(1))
qed

lemma mac_text_plain: "\<forall>c \<in> set (mac_text addr). c > 0x20"
proof (induction addr rule: mac_text.induct)
  case (3 b b' bs)
  then show ?case
    using hex2_plain(3) [of b] by auto
qed (auto simp: hex2_plain(3))

lemma mac_text_length: "length addr = 6 \<Longrightarrow> length (mac_text addr) = 17"
  by (auto simp: length_6 hex2_def)

text \<open>A hardware address that \<open>SendMACCommand\<close> formats fits into its array of 21 bytes, and \<open>ParseMAC\<close> reads the
  same six bytes back from it and counts its 17 characters, whatever follows that is not a hexadecimal digit.\<close>

theorem mac_format_parse_roundtrip:
  assumes "length addr = 6" and "length arr = 6" and "no_hex rest"
  shows "\<exists>t u. sprintf_in 21 MAC_FORMAT (map (\<lambda>b. AInt (ucast b)) addr) = Some t \<and> ParseMAC (t @ rest) arr = (addr, 17, u)"
proof -
  have "sprintf_in 21 MAC_FORMAT (map (\<lambda>b. AInt (ucast b)) addr) = Some (mac_text addr)"
    using sprintf_in_text [OF MAC_format_text [OF assms(1)] mac_text_plain, of 21] mac_text_length [OF assms(1)] by simp
  then show ?thesis
    using ParseMAC_text [OF assms] by auto
qed

section \<open>Network addresses\<close>

abbreviation dec :: "u8 \<Rightarrow> ctext" where
  "dec b \<equiv> numeral_text False 10 (unat b)"

definition ip_text :: "u8 \<Rightarrow> u8 \<Rightarrow> u8 \<Rightarrow> u8 \<Rightarrow> ctext" where
  "ip_text a b c d = dec a @ 0x2E # dec b @ 0x2E # dec c @ 0x2E # dec d"

lemma dec_char: "k \<in> set (dec b) \<Longrightarrow> CHARISNUM k"
  using radix_digits [of 10 "unat b"] by (auto simp: numeral_text_def digit_char_num)

lemma dec_plain: "dec b \<noteq> []" "0x2E \<notin> set (dec b)" "0 \<notin> set (dec b)"
  using dec_char [of "0x2E" b] dec_char [of 0 b] by (auto simp: numeral_text_def CHARISNUM_def)

lemma dec_length: "length (dec b) \<le> 3"
  using radix_le [of 10 "unat b" 3] unat_u8_lt [of b] by (simp add: numeral_text_def)

lemma ParseNumber_dec: "no_digit r \<Longrightarrow> ParseNumber (dec b @ r) = (ucast b, of_nat (length (dec b)))"
  using ParseNumber_numeral(1) [of r False "unat b"] by simp

lemma ip_group:
  assumes "x + 1 < 4"
  shows "ip_loop x i arr (dec b @ 0x2E # r) = ip_loop (x + 1) (i + of_nat (length (dec b)) + 1) (arr[x := b]) r"
  using assms strtok_token [OF dec_plain(1,2), of b "0x2E # r"] ParseNumber_dec [of "[]" b]
  by (simp add: ip_loop.simps [of x] no_digit_def ucast_up_ucast_id is_up)

lemma ip_last:
  assumes "no_digit r"
  shows "ip_loop 3 i arr (dec b @ r) = (arr[3 := b], i + of_nat (length (dec b)))"
proof -
  have "no_digit (takeWhile (\<lambda>c. c \<noteq> 0x2E) r)"
    using assms by (cases r) (auto simp: no_digit_def)
  then show ?thesis
    using strtok_token [OF dec_plain(1,2), of b r] by (simp add: ip_loop.simps [of 3] ParseNumber_dec ucast_up_ucast_id is_up)
qed

lemma cstr_append: "0 \<notin> set t \<Longrightarrow> cstr (t @ u) = t @ cstr u"
  by (auto simp: cstr_def intro!: takeWhile_append2)

lemma parse_ip_text:
  assumes "length arr = 4" and "no_digit rest" and "15 \<le> length (ip_text a b c d @ rest)"
  shows "ParseIP (ip_text a b c d @ rest) arr = Some ([a, b, c, d], of_nat (length (ip_text a b c d)))"
proof -
  let ?t = "ip_text a b c d"
  let ?r = "cstr (take (15 - length ?t) rest @ [0])"
  have len: "length ?t \<le> 15"
    using dec_length [of a] dec_length [of b] dec_length [of c] dec_length [of d] by (simp add: ip_text_def)
  have "0 \<notin> set ?t"
    using dec_plain(3) by (auto simp: ip_text_def)
  then have win: "cstr (take 15 (?t @ rest) @ [0]) = ?t @ ?r"
    using len by (simp add: cstr_append)
  have r: "no_digit ?r"
    using assms(2) by (cases rest; cases "15 - length ?t") (auto simp: no_digit_def cstr_def)
  obtain p q u v where arr: "arr = [p, q, u, v]"
    using assms(1) by (auto simp: eval_nat_numeral length_Suc_conv)
  have "ip_loop 0 0 arr (?t @ ?r) = ([a, b, c, d], of_nat (length ?t))"
    using ip_group [of 0] ip_group [of 1] ip_group [of 2] ip_last [OF r]
    by (simp add: ip_text_def arr numeral_2_eq_2 [symmetric] ac_simps)
  then show ?thesis
    using assms(3) unfolding ParseIP_def win by simp
qed

text \<open>\<open>ParseIP\<close> reads the four numbers of a dotted address that is followed by anything but a digit, and counts
  its characters. It looks at 15 bytes, the length of the longest address.\<close>

theorem parse_ip_dotted:
  assumes "length arr = 4" and "no_digit rest" and "15 \<le> length (ip_text a b c d @ rest)"
  shows "ParseIP (ip_text a b c d @ rest) arr = Some ([a, b, c, d], of_nat (length (ip_text a b c d)))"
  using assms by (rule parse_ip_text)

section \<open>Witnesses\<close>

theorem int2string_parse_roundtrip_witness:
  "\<exists>t. Int2String 12 (- 75) = Some t \<and> ParseNumber (t @ [0x2C]) = (- 75, of_nat (length t))"
  using int2string_parse_roundtrip [of 12 "[0x2C]" "- 75"] by (simp add: no_digit_def CHARISNUM_def)

theorem mac_format_parse_roundtrip_witness:
  "\<exists>t u. sprintf_in 21 MAC_FORMAT (map (\<lambda>b. AInt (ucast b)) [0x18 :: u8, 0xFE, 0x34, 0x0A, 0x00, 0x9B]) = Some t \<and>
         ParseMAC (t @ [0x22]) [0, 0, 0, 0, 0, 0] = ([0x18, 0xFE, 0x34, 0x0A, 0x00, 0x9B], 17, u)"
  using mac_format_parse_roundtrip [of "[0x18, 0xFE, 0x34, 0x0A, 0x00, 0x9B]" "[0, 0, 0, 0, 0, 0]" "[0x22]"]
  by (simp add: no_hex_def CHARISHEXNUM_def)

theorem parse_ip_dotted_witness:
  "ParseIP (ip_text 192 168 4 1 @ ascii '',80:GET /'') [0, 0, 0, 0] = Some ([192, 168, 4, 1], 11)"
proof -
  have "length (ip_text 192 168 4 1) = 11"
    by (simp add: ip_text_def numeral_text_def radix.simps)
  then show ?thesis
    using parse_ip_dotted [of "[0, 0, 0, 0]" "ascii '',80:GET /''" 192 168 4 1]
    by (simp add: no_digit_def ascii_def CHARISNUM_def)
qed

end
