(* ===== verification/Esp8266.thy ===== *)
theory Esp8266
  imports Esp8266_Text_Facts Ring_Buffer_Facts
begin

text \<open>
  The WiFi module driver: the data structures of \<^verbatim>\<open>inc/WiFi/esp8266.h\<close>, the handling of received lines and network
  data and the update loop of \<^verbatim>\<open>src/WiFi/esp8266.c\<close>, in the configuration of \<^verbatim>\<open>inc/WiFi/esp8266_conf.h\<close> (one data
  buffer for all connections, no SNTP).

  The structure \<^verbatim>\<open>ESP8266_t\<close>, the static buffers and tables and the outside world are one record. A connection
  pointer is the index of the connection; the pointers to strings of the driver are described at \<open>resp_ptr\<close>. The
  callbacks are the weak functions of the file, which do nothing: a call is noted in \<open>calls\<close>, with the data it
  is given. What the two callbacks for data to be sent put into the buffer is \<open>app_data\<close>. The bytes sent to the
  module are \<open>uart_out\<close>. Interrupts add time and received bytes; those that come while the driver waits are the
  list \<open>ticks\<close>, one element before every round of a waiting loop.

  A read past the end of a received line or of an array, a write outside an array, through a null pointer or to
  a string literal, and waiting beyond the end of \<open>ticks\<close> are \<open>None\<close>.
\<close>

section \<open>Data\<close>

datatype esp_command = CMD_IDLE | CMD_CWQAP | CMD_CWLAP | CMD_CWJAP | CMD_CIUPDATE | CMD_CWMODE | CMD_CIPSERVER
  | CMD_CIPDINFO | CMD_SEND | CMD_CLOSE | CMD_CIPSTART | CMD_CIPMUX | CMD_CWSAP | CMD_ATE | CMD_AT | CMD_RST
  | CMD_RESTORE | CMD_UART | CMD_PING | CMD_CWJAP_GET | CMD_SLEEP | CMD_GSLP | CMD_CIPSTA | CMD_CIPAP | CMD_CIPSTAMAC
  | CMD_CIPAPMAC | CMD_CIPSTO | CMD_CWLIF | CMD_CIPSTATUS | CMD_SENDDATA | CMD_WPS | CMD_AUTOCONN
  | CMD_SSLBUFFERSIZE | CMD_RFPOWER

datatype ESP8266_Result_t = ESP_OK | ESP_ERROR | ESP_DEVICENOTCONNECTED | ESP_TIMEOUT | ESP_LINKNOTVALID
  | ESP_NOHEAP | ESP_WIFINOTCONNECTED | ESP_BUSY | ESP_INVALIDPARAMETERS

definition ESP8266_MAX_CONNECTIONS :: nat where "ESP8266_MAX_CONNECTIONS = 5"
definition ESP8266_MAX_CONNECTEDSTATIONS :: nat where "ESP8266_MAX_CONNECTEDSTATIONS = 10"
definition ESP8266_USARTBUFFER_SIZE :: u32 where "ESP8266_USARTBUFFER_SIZE = 1024"
definition ESP8266_TMPBUFFER_SIZE :: u32 where "ESP8266_TMPBUFFER_SIZE = 512"
definition ESP8266_CONNECTION_BUFFER_SIZE :: nat where "ESP8266_CONNECTION_BUFFER_SIZE = 5842"
definition ESP8266_TIMEOUT :: u32 where "ESP8266_TIMEOUT = 30000"
definition ESP8266_DEFAULT_BAUDRATE :: u32 where "ESP8266_DEFAULT_BAUDRATE = 115200"
definition RECEIVED_SIZE :: nat where "RECEIVED_SIZE = 128"

text \<open>\<^verbatim>\<open>ActiveCommandResponse\<close>: null, a string literal, or the array \<^verbatim>\<open>resp\<close> with its contents.\<close>

datatype resp_ptr = Null | Literal ctext | Resp "u8 list"

datatype conn_type = CONN_TCP | CONN_SSL

text \<open>\<open>DataPtr\<close> tells whether \<^verbatim>\<open>Data\<close> points to \<^verbatim>\<open>ConnectionData\<close> or is null.\<close>

record ESP8266_Connection_t =
  Active :: bool
  Number :: u8
  Client :: bool
  RemotePort :: u16
  RemoteIP :: "u8 list"
  ConnType :: conn_type
  BytesReceived :: u32
  ConnTotalBytes :: u32
  ConnWaitForWrapper :: bool
  WaitingSentRespond :: bool
  DataPtr :: bool
  DataSize :: u16
  LastPart :: bool
  CallDataReceived :: bool
  ContentLength :: u32
  HeadersDone :: bool
  FirstPacket :: bool

definition conn0 :: ESP8266_Connection_t where
  "conn0 = \<lparr>Active = False, Number = 0, Client = False, RemotePort = 0, RemoteIP = [0, 0, 0, 0], ConnType = CONN_TCP,
            BytesReceived = 0, ConnTotalBytes = 0, ConnWaitForWrapper = False, WaitingSentRespond = False,
            DataPtr = False, DataSize = 0, LastPart = False, CallDataReceived = False, ContentLength = 0,
            HeadersDone = False, FirstPacket = False\<rparr>"

record ESP8266_AP_t =
  ApEcn :: u8
  ApSSID :: "u8 list"
  ApRSSI :: u16
  ApMAC :: "u8 list"
  ApChannel :: u8
  ApOffset :: u8
  ApCalibration :: u8

text \<open>The calls of callbacks, with the connection and the data they are given.\<close>

datatype esp_event = DeviceReady | WatchdogReset | WifiConnectedCb | WifiDisconnectedCb | WifiGotIPCb | DHCPTimeout
  | WifiConnectFailed | WifiDetected | WifiIPSet
  | ServerActive int | ServerClosed int | ServerDataSent nat | ServerDataReceived nat "u8 list" | ServerSendData nat
  | ClientConnected int | ClientClosed int | ClientDataSent nat | ClientDataReceived nat "u8 list" | ClientSendData nat
  | ClientError int | ClientTimeout int
  | PingStarted | PingFinished | FirmwareUpdateStatus int | FirmwareUpdateSuccess | FirmwareUpdateError
  | ConnectedStationsDetected

record esp =
  Baudrate :: u32
  ActiveCommand :: esp_command
  ActiveCommandResponse :: resp_ptr
  StartTime :: u32
  Time :: u32
  LastReceivedTime :: u32
  Timeout :: u32
  Connection :: "ESP8266_Connection_t list"
  STAIP :: "u8 list"
  STAGateway :: "u8 list"
  STANetmask :: "u8 list"
  STAMAC :: "u8 list"
  APIP :: "u8 list"
  APGateway :: "u8 list"
  APNetmask :: "u8 list"
  APMAC :: "u8 list"
  SentMode :: u8
  Mode :: u8
  AP_SSID :: "u8 list option"
  AP_Pass :: "u8 list option"
  AP_Ecn :: u8
  AP_Channel :: u8
  AP_MaxConnections :: u8
  AP_Hidden :: u8
  InIPD :: bool
  InPtr :: u16
  PtrTotal :: u16
  ConnNumber :: u8
  IPD_USART :: bool
  PingTime :: u32
  PingSuccess :: bool
  CW_SSID :: "u8 list"
  CW_MAC :: "u8 list"
  CW_Channel :: u8
  CW_RSSI :: u16
  WifiConnectError :: int
  StartConnectionSent :: int
  Stations :: "(u8 list \<times> u8 list) list"
  StationCount :: nat
  TotalBytesReceived :: u32
  TotalBytesSent :: u32
  SendDataConnection :: "nat option"
  STAIPIsSet :: bool
  STANetmaskIsSet :: bool
  STAGatewayIsSet :: bool
  STAMACIsSet :: bool
  APIPIsSet :: bool
  APNetmaskIsSet :: bool
  APGatewayIsSet :: bool
  APMACIsSet :: bool
  WaitForWrapper :: bool
  LastOperationStatus :: bool
  WifiConnected :: bool
  WifiGotIP :: bool
  Result :: ESP8266_Result_t
  TMP_Buffer :: "BUFFER_t option"
  USART_Buffer :: "BUFFER_t option"
  ConnectionData :: "u8 list"
  APs :: "ESP8266_AP_t list"
  APs_Count :: nat
  uart_out :: "u8 list"
  uart_baud :: "u32 list"
  calls :: "esp_event list"
  app_data :: "nat \<Rightarrow> u8 list"
  ticks :: "(u32 \<times> u8 list) list"

text \<open>A callback, and access to a connection by the index in the code.\<close>

definition call :: "esp_event \<Rightarrow> esp \<Rightarrow> esp" where
  "call e s = s\<lparr>calls := calls s @ [e]\<rparr>"

definition conn_at :: "int \<Rightarrow> esp \<Rightarrow> ESP8266_Connection_t option" where
  "conn_at i s = (if 0 \<le> i \<and> nat i < length (Connection s) then Some (Connection s ! nat i) else None)"

definition set_conn :: "int \<Rightarrow> ESP8266_Connection_t \<Rightarrow> esp \<Rightarrow> esp" where
  "set_conn i c s = s\<lparr>Connection := (Connection s)[nat i := c]\<rparr>"

definition ESP8266_RESETCONNECTION :: "ESP8266_Connection_t \<Rightarrow> ESP8266_Connection_t" where
  "ESP8266_RESETCONNECTION c = c\<lparr>Active := False, Client := False, FirstPacket := False, HeadersDone := False\<rparr>"

section \<open>Sending\<close>

definition esp8266_SendString :: "u8 list \<Rightarrow> esp \<Rightarrow> esp" where
  "esp8266_SendString bs s = s\<lparr>uart_out := uart_out s @ bs\<rparr>"

definition ProcessSendData :: "esp \<Rightarrow> esp option" where
  "ProcessSendData s =
     do {
       n \<leftarrow> SendDataConnection s;
       c \<leftarrow> conn_at (int n) s;
       let s = s\<lparr>WaitForWrapper := False, ActiveCommand := CMD_SENDDATA\<rparr>;
       let s = call (if Client c then ClientSendData n else ServerSendData n) s;
       let found = take 2046 (app_data s n);
       s \<leftarrow> (if found = [] then Some s
             else if \<not> DataPtr c then None
             else Some (esp8266_SendString found
                    (s\<lparr>ConnectionData := found @ drop (length found) (ConnectionData s),
                       TotalBytesSent := TotalBytesSent s + of_nat (length found)\<rparr>)));
       let s = esp8266_SendString [0x5C, 0x30] s;
       Some (set_conn (int n) (c\<lparr>WaitingSentRespond := True\<rparr>) s)
     }"

section \<open>Callbacks for received data\<close>

definition data_received :: "nat \<Rightarrow> esp \<Rightarrow> esp" where
  "data_received n s =
     (let c = Connection s ! n
      in if Active c \<and> CallDataReceived c \<and> (Client c \<or> ActiveCommand s = CMD_IDLE) then
           let s = set_conn (int n) (c\<lparr>CallDataReceived := False\<rparr>) s;
               d = take (unat (DataSize c)) (ConnectionData s)
           in call (if Client c then ClientDataReceived n d else ServerDataReceived n d) s
         else s)"

definition CallConnectionCallbacks :: "esp \<Rightarrow> esp" where
  "CallConnectionCallbacks s = fold data_received [0..<ESP8266_MAX_CONNECTIONS] s"

section \<open>Parsing of responses\<close>

text \<open>\<^verbatim>\<open>ptr += n\<close> inside a text, up to its terminating zero.\<close>

definition skip :: "nat \<Rightarrow> ctext \<Rightarrow> ctext option" where
  "skip n t = (if n \<le> length t then Some (drop n t) else None)"

text \<open>\<^verbatim>\<open>while (*ptr && !stop) a[i++] = *ptr++; a[i++] = 0\<close>: the array and the text that is left.\<close>

fun copy_until :: "(ctext \<Rightarrow> bool) \<Rightarrow> ctext \<Rightarrow> u8 list \<Rightarrow> nat \<Rightarrow> (u8 list \<times> ctext) option" where
  "copy_until stop [] a i = map_option (\<lambda>a. (a, [])) (c_upd a i 0)"
| "copy_until stop (c # ptr) a i =
     (if stop (c # ptr) then map_option (\<lambda>a. (a, c # ptr)) (c_upd a i 0)
      else do { a \<leftarrow> c_upd a i c; copy_until stop ptr a (i + 1) })"

definition at_quote_comma_quote :: "ctext \<Rightarrow> bool" where
  "at_quote_comma_quote t \<longleftrightarrow> take 3 t = [0x22, 0x2C, 0x22]"

definition at_quote_comma :: "ctext \<Rightarrow> bool" where
  "at_quote_comma t \<longleftrightarrow> take 2 t = [0x22, 0x2C]"

definition ParseCWSAP :: "ctext \<Rightarrow> esp \<Rightarrow> esp option" where
  "ParseCWSAP line s =
     do {
       ptr \<leftarrow> skip 1 (dropWhile (\<lambda>c. c \<noteq> 0x3A) line);
       a \<leftarrow> AP_SSID s;
       a \<leftarrow> c_upd a 0 0;
       let ptr = (if fst (fetch ptr) = 0x22 then tl ptr else ptr);
       (a, ptr) \<leftarrow> copy_until at_quote_comma_quote ptr a 0;
       ptr \<leftarrow> skip 3 ptr;
       p \<leftarrow> AP_Pass s;
       (p, ptr) \<leftarrow> copy_until at_quote_comma ptr p 0;
       ptr \<leftarrow> skip 2 ptr;
       let (channel, cnt) = ParseNumber ptr;
       ptr \<leftarrow> skip (unat cnt + 1) ptr;
       let (ecn, cnt) = ParseNumber ptr;
       ptr \<leftarrow> skip (unat cnt + 1) ptr;
       let (maxc, cnt) = ParseNumber ptr;
       ptr \<leftarrow> skip (unat cnt + 1) ptr;
       let (hidden, cnt) = ParseNumber ptr;
       Some (s\<lparr>AP_SSID := Some a, AP_Pass := Some p, AP_Channel := ucast channel, AP_Ecn := ucast ecn,
               AP_MaxConnections := ucast maxc, AP_Hidden := ucast hidden\<rparr>)
     }"

text \<open>The text that \<^verbatim>\<open>strtok\<close> goes on with after \<^verbatim>\<open>ParseMAC\<close> has taken its tokens.\<close>

fun mac_left :: "nat \<Rightarrow> ctext \<Rightarrow> ctext" where
  "mac_left 0 t = t"
| "mac_left (Suc n) t = (case strtok 0x3A t of None \<Rightarrow> [] | Some (_, _, rest) \<Rightarrow> mac_left n (tl rest))"

text \<open>A quoted token without its first and last character.\<close>

definition unquote :: "ctext \<Rightarrow> ctext" where
  "unquote tok = butlast (tl tok)"

text \<open>One token of an access point line. The result is the access point and the text the next call of
  \<^verbatim>\<open>strtok\<close> looks at: \<^verbatim>\<open>ParseMAC\<close> has made it forget the line.\<close>

definition cwlap_token :: "nat \<Rightarrow> ctext \<Rightarrow> ctext \<Rightarrow> ESP8266_AP_t \<Rightarrow> (ESP8266_AP_t \<times> ctext) option" where
  "cwlap_token num tok rest ap =
     (if num = 0 then Some (ap\<lparr>ApEcn := ucast (fst (ParseNumber tok))\<rparr>, rest)
      else if num = 1 then
        do {
          let t = unquote tok;
          a \<leftarrow> c_memcpy (ApSSID ap) 0 (t @ [0]) 0 (length t + 1);
          Some (ap\<lparr>ApSSID := a\<rparr>, rest)
        }
      else if num = 2 then Some (ap\<lparr>ApRSSI := ucast (fst (ParseNumber tok))\<rparr>, rest)
      else if num = 3 then
        let t = unquote tok; (mac, _, _) = ParseMAC t (ApMAC ap)
        in Some (ap\<lparr>ApMAC := mac\<rparr>, mac_left 6 t)
      else if num = 4 then Some (ap\<lparr>ApChannel := ucast (fst (ParseNumber tok))\<rparr>, rest)
      else if num = 5 then Some (ap\<lparr>ApOffset := ucast (fst (ParseNumber tok))\<rparr>, rest)
      else if num = 6 then Some (ap\<lparr>ApCalibration := ucast (fst (ParseNumber tok))\<rparr>, rest)
      else Some (ap, rest))"

text \<open>The loop over the tokens; a token has at least one character, so the line bounds the number of rounds.\<close>

fun cwlap_loop :: "nat \<Rightarrow> nat \<Rightarrow> ctext \<Rightarrow> ESP8266_AP_t \<Rightarrow> ESP8266_AP_t option" where
  "cwlap_loop 0 num t ap = Some ap"
| "cwlap_loop (Suc rounds) num t ap =
     (case strtok 0x2C t of
        None \<Rightarrow> Some ap
      | Some (_, tok, rest) \<Rightarrow>
          do { (ap, t) \<leftarrow> cwlap_token num tok (tl rest) ap; cwlap_loop rounds (num + 1) t ap })"

definition ParseCWLAP :: "ctext \<Rightarrow> esp \<Rightarrow> esp option" where
  "ParseCWLAP line s =
     (if APs_Count s \<ge> ESP8266_MAX_CONNECTIONS then Some s
      else do {
        t \<leftarrow> skip 7 line;
        let t = (if fst (fetch t) = 0x28 then tl t else t);
        ap \<leftarrow> c_nth (APs s) (APs_Count s);
        ap \<leftarrow> cwlap_loop (Suc (length t)) 0 t ap;
        Some (s\<lparr>APs := (APs s)[APs_Count s := ap], APs_Count := APs_Count s + 1\<rparr>)
      })"

text \<open>The memory from an offset of the received line on, in the array of 128 bytes; what lies behind the line does
  not matter.\<close>

definition line_mem :: "u8 list \<Rightarrow> nat \<Rightarrow> u8 list" where
  "line_mem R off = drop off (R @ replicate (RECEIVED_SIZE - length R) 0)"

definition starts :: "u8 list \<Rightarrow> ctext \<Rightarrow> bool" where
  "starts R t \<longleftrightarrow> take (length t) (cstr R) = t"

definition ParseCIPSTA :: "u8 list \<Rightarrow> esp \<Rightarrow> esp option" where
  "ParseCIPSTA R s =
     (if starts R (ascii ''+CIPSTA_CUR:ip'') then
        do { (a, _) \<leftarrow> ParseIP (line_mem R 16) (STAIP s); Some (s\<lparr>STAIP := a, STAIPIsSet := True\<rparr>) }
      else if starts R (ascii ''+CIPSTA_CUR:netmask'') then
        do { (a, _) \<leftarrow> ParseIP (line_mem R 21) (STANetmask s); Some (s\<lparr>STANetmask := a, STANetmaskIsSet := True\<rparr>) }
      else if starts R (ascii ''+CIPSTA_CUR:gateway'') then
        do { (a, _) \<leftarrow> ParseIP (line_mem R 21) (STAGateway s); Some (s\<lparr>STAGateway := a, STAGatewayIsSet := True\<rparr>) }
      else if starts R (ascii ''+CIPSTA:ip'') then
        do { (a, _) \<leftarrow> ParseIP (line_mem R 12) (STAIP s); Some (s\<lparr>STAIP := a, STAIPIsSet := True\<rparr>) }
      else if starts R (ascii ''+CIPSTA:netmask'') then
        do { (a, _) \<leftarrow> ParseIP (line_mem R 17) (STANetmask s); Some (s\<lparr>STANetmask := a, STANetmaskIsSet := True\<rparr>) }
      else if starts R (ascii ''+CIPSTA:gateway'') then
        do { (a, _) \<leftarrow> ParseIP (line_mem R 17) (STAGateway s); Some (s\<lparr>STAGateway := a, STAGatewayIsSet := True\<rparr>) }
      else if starts R (ascii ''+CIPAP_CUR:ip'') then
        do { (a, _) \<leftarrow> ParseIP (line_mem R 15) (APIP s); Some (s\<lparr>APIP := a, APIPIsSet := True\<rparr>) }
      else if starts R (ascii ''+CIPAP_CUR:netmask'') then
        do { (a, _) \<leftarrow> ParseIP (line_mem R 20) (APNetmask s); Some (s\<lparr>APNetmask := a, APNetmaskIsSet := True\<rparr>) }
      else if starts R (ascii ''+CIPAP_CUR:gateway'') then
        do { (a, _) \<leftarrow> ParseIP (line_mem R 20) (APGateway s); Some (s\<lparr>APGateway := a, APGatewayIsSet := True\<rparr>) }
      else if starts R (ascii ''+CIPAP:ip'') then
        do { (a, _) \<leftarrow> ParseIP (line_mem R 11) (APIP s); Some (s\<lparr>APIP := a, APIPIsSet := True\<rparr>) }
      else if starts R (ascii ''+CIPAP:netmask'') then
        do { (a, _) \<leftarrow> ParseIP (line_mem R 16) (APNetmask s); Some (s\<lparr>APNetmask := a, APNetmaskIsSet := True\<rparr>) }
      else if starts R (ascii ''+CIPAP:gateway'') then
        do { (a, _) \<leftarrow> ParseIP (line_mem R 16) (APGateway s); Some (s\<lparr>APGateway := a, APGatewayIsSet := True\<rparr>) }
      else Some s)"

definition ParseCWLIF :: "u8 list \<Rightarrow> esp \<Rightarrow> esp option" where
  "ParseCWLIF R s =
     (if StationCount s \<ge> ESP8266_MAX_CONNECTEDSTATIONS then Some s
      else do {
        (ip, mac) \<leftarrow> c_nth (Stations s) (StationCount s);
        (ip, cnt) \<leftarrow> ParseIP (line_mem R 0) ip;
        t \<leftarrow> skip (unat cnt + 1) (cstr R);
        let (mac, _, _) = ParseMAC t mac;
        Some (s\<lparr>Stations := (Stations s)[StationCount s := (ip, mac)], StationCount := StationCount s + 1\<rparr>)
      })"

definition ParseCWJAP :: "ctext \<Rightarrow> esp \<Rightarrow> esp option" where
  "ParseCWJAP line s =
     (if strstr line (ascii ''+CWJAP_'') = None then Some s
      else
        let ptr = dropWhile (\<lambda>c. c \<noteq> 0x22) line
        in if ptr = [] then Some s
           else do {
             (a, ptr) \<leftarrow> copy_until at_quote_comma_quote (tl ptr) (CW_SSID s) 0;
             ptr \<leftarrow> skip 3 ptr;
             let (mac, cnt, ptr) = ParseMAC ptr (CW_MAC s);
             ptr \<leftarrow> skip (unat cnt + 2) ptr;
             let (channel, cnt) = ParseNumber ptr;
             ptr \<leftarrow> skip (unat cnt + 1) ptr;
             let (rssi, cnt) = ParseNumber ptr;
             Some (s\<lparr>CW_SSID := a, CW_MAC := mac, CW_Channel := ucast channel, CW_RSSI := ucast rssi\<rparr>)
           })"

section \<open>A received line\<close>

text \<open>\<open>R\<close> is the line as received, with \<^verbatim>\<open>bufflen\<close> bytes; string functions see it up to its first zero.\<close>

definition line :: "string \<Rightarrow> ctext" where
  "line t = ascii t @ [0x0D, 0x0A]"

definition is_line :: "u8 list \<Rightarrow> ctext \<Rightarrow> bool" where
  "is_line R t \<longleftrightarrow> cstr R = t"

definition resp_text :: "resp_ptr \<Rightarrow> ctext option" where
  "resp_text p = (case p of Null \<Rightarrow> None | Literal t \<Rightarrow> Some t | Resp a \<Rightarrow> Some (cstr a))"

definition resp_strcpy :: "resp_ptr \<Rightarrow> ctext \<Rightarrow> resp_ptr option" where
  "resp_strcpy p t =
     (case p of
        Null \<Rightarrow> None
      | Literal _ \<Rightarrow> None
      | Resp a \<Rightarrow> map_option Resp (c_memcpy a 0 (t @ [0]) 0 (length t + 1)))"

text \<open>Does the line not belong to the active command?\<close>

definition pr_foreign :: "u8 list \<Rightarrow> esp \<Rightarrow> bool option" where
  "pr_foreign R s =
     (if is_line R (line ''OK'') \<or> is_line R (line ''SEND OK'') \<or> is_line R (line ''ERROR'') \<or> is_line R (line ''ready'')
         \<or> is_line R (line ''busy p...'') \<or> starts R (ascii ''+IPD,'')
      then Some False
      else map_option (\<lambda>t. \<not> starts R t) (resp_text (ActiveCommandResponse s)))"

definition pr_reset :: "u8 list \<Rightarrow> esp \<Rightarrow> esp" where
  "pr_reset R s =
     (let s = (if is_line R (line ''ready'') then call DeviceReady s else s)
      in if is_line R (line ''wdt reset'') then call WatchdogReset s else s)"

definition pr_wifi :: "u8 list \<Rightarrow> esp \<Rightarrow> esp" where
  "pr_wifi R s =
     (if is_line R (line ''WIFI CONNECTED'') then call WifiConnectedCb (s\<lparr>WifiConnected := True\<rparr>)
      else if is_line R (line ''WIFI DISCONNECT'') then
        call WifiDisconnectedCb
          (s\<lparr>WifiConnected := False, WifiGotIP := False, CW_SSID := replicate (length (CW_SSID s)) 0,
             CW_MAC := replicate (length (CW_MAC s)) 0, CW_Channel := 0, CW_RSSI := 0,
             Connection := replicate (length (Connection s)) conn0\<rparr>)
      else if is_line R (line ''WIFI GOT IP'') then call WifiGotIPCb (s\<lparr>WifiGotIP := True\<rparr>)
      else if is_line R (ascii ''DHCP TIMEOUT'') then call DHCPTimeout s
      else s)"

definition data_sent :: "nat \<Rightarrow> esp \<Rightarrow> esp" where
  "data_sent n s =
     (let c = Connection s ! n
      in if WaitingSentRespond c then
           call (if Client c then ClientDataSent n else ServerDataSent n) (set_conn (int n) (c\<lparr>WaitingSentRespond := False\<rparr>) s)
         else s)"

definition pr_send_ok :: "u8 list \<Rightarrow> esp \<Rightarrow> esp" where
  "pr_send_ok R s =
     (if strstr (cstr R) (line ''SEND OK'') \<noteq> None then
        fold data_sent [0..<ESP8266_MAX_CONNECTIONS] (s\<lparr>ActiveCommand := CMD_IDLE\<rparr>)
      else s)"

definition end_cipstart :: "esp \<Rightarrow> esp" where
  "end_cipstart s = (if ActiveCommand s = CMD_CIPSTART then s\<lparr>ActiveCommand := CMD_IDLE\<rparr> else s)"

text \<open>\<^verbatim>\<open>x,CONNECT\<close>, with \<open>p\<close> the position of the comma.\<close>

definition pr_opened :: "u8 list \<Rightarrow> nat \<Rightarrow> esp \<Rightarrow> esp option" where
  "pr_opened R p s =
     do {
       let i = CHAR2NUM (R ! (p - 1));
       c \<leftarrow> conn_at i s;
       let s = set_conn i (c\<lparr>Active := True, Number := word_of_int i\<rparr>) s;
       Some (if Client c then call (ClientConnected i) (end_cipstart s) else call (ServerActive i) s)
     }"

text \<open>\<^verbatim>\<open>x,CLOSED\<close>: alone on its line, or at the end of a longer one.\<close>

definition pr_closed :: "u8 list \<Rightarrow> nat \<Rightarrow> esp \<Rightarrow> esp option" where
  "pr_closed R p s =
     do {
       let i = CHAR2NUM (R ! (p - 1));
       if p = 1 then
         do {
           c \<leftarrow> conn_at i s;
           let s = set_conn i (ESP8266_RESETCONNECTION c) s;
           Some (if Active c then call (if Client c then ClientClosed i else ServerClosed i) s else s)
         }
       else do {
         (_, b) \<leftarrow> BUFFER_Write (TMP_Buffer s) (drop (p - 1) R) 10;
         Some (s\<lparr>TMP_Buffer := b\<rparr>)
       }
     }"

text \<open>\<^verbatim>\<open>x,CONNECT FAIL\<close>.\<close>

definition pr_failed :: "u8 list \<Rightarrow> nat \<Rightarrow> esp \<Rightarrow> esp option" where
  "pr_failed R p s =
     do {
       let i = CHAR2NUM (R ! (p - 1));
       c \<leftarrow> conn_at i s;
       let c = (ESP8266_RESETCONNECTION c)\<lparr>Number := word_of_int i\<rparr>;
       let s = set_conn i c s;
       Some (if Client c then call (ClientError i) (end_cipstart s) else s)
     }"

definition pr_connection :: "u8 list \<Rightarrow> esp \<Rightarrow> esp option" where
  "pr_connection R s =
     (let n = length R;
          opened = (if n > 10 then mem_mem (drop (n - 10) R) (line '',CONNECT'') else None);
          closed = (if n > 9 then mem_mem (drop (n - 9) R) (line '',CLOSED'') else None);
          failed = (if n > 16 then strstr (cstr (drop (n - 15) R)) (line '',CONNECT FAIL'') else None)
      in case opened of
           Some p \<Rightarrow> pr_opened R (n - 10 + p) s
         | None \<Rightarrow>
             if strstr (cstr R) (line ''ALREADY CONNECTED'') \<noteq> None then Some s
             else case closed of
                 Some p \<Rightarrow> pr_closed R (n - 9 + p) s
               | None \<Rightarrow> (case failed of Some p \<Rightarrow> pr_failed R (n - 15 + p) s | None \<Rightarrow> Some s))"

section \<open>Network data\<close>

text \<open>The header of a \<^verbatim>\<open>+IPD\<close> line: connection, length, address and port.\<close>

definition ipd_header :: "u8 list \<Rightarrow> bool \<Rightarrow> esp \<Rightarrow> (ESP8266_Connection_t \<times> esp) option" where
  "ipd_header R from_usart s =
     do {
       ch \<leftarrow> c_nth (line_mem R 0) 5;
       let cn = word_of_int (CHAR2NUM ch);
       let s = s\<lparr>InIPD := True, IPD_USART := from_usart, ConnNumber := cn\<rparr>;
       c \<leftarrow> conn_at (uint cn) s;
       t \<leftarrow> skip 7 (cstr R);
       let (bytes, cnt) = ParseNumber t;
       let c = c\<lparr>DataPtr := True, Number := cn, BytesReceived := bytes\<rparr>;
       let c = (if ConnTotalBytes c = 0 then c\<lparr>HeadersDone := False, FirstPacket := True\<rparr> else c\<lparr>FirstPacket := False\<rparr>);
       let c = c\<lparr>ConnTotalBytes := ConnTotalBytes c + bytes\<rparr>;
       let s = s\<lparr>TotalBytesReceived := TotalBytesReceived s + bytes\<rparr>;
       let ipd_ptr = 7 + unat cnt + 1;
       (ip, cnt) \<leftarrow> ParseIP (line_mem R ipd_ptr) (RemoteIP c);
       let ipd_ptr = ipd_ptr + unat cnt + 1;
       t \<leftarrow> skip ipd_ptr (cstr R);
       let (port, _) = ParseNumber t;
       Some (c\<lparr>RemoteIP := ip, RemotePort := ucast port\<rparr>, s)
     }"

text \<open>The data on the line itself, after its colon.\<close>

definition ipd_data :: "u8 list \<Rightarrow> ESP8266_Connection_t \<Rightarrow> esp \<Rightarrow> esp option" where
  "ipd_data R c s =
     do {
       let bytes = BytesReceived c;
       let ipd_ptr = (of_nat (length (takeWhile (\<lambda>c. c \<noteq> 0x3A) R)) + 1 :: u32);
       let blength = (of_nat (length R) :: u32);
       let blength = (if blength - ipd_ptr > bytes then ucast (ucast (bytes + ipd_ptr) :: u16) else blength);
       data \<leftarrow> c_memcpy (ConnectionData s) 0 R (unat ipd_ptr) (unat (blength - ipd_ptr));
       data \<leftarrow> (if blength - ipd_ptr > bytes then c_upd data (unat bytes) 0 else Some data);
       let s = s\<lparr>ConnectionData := data, InPtr := ucast (blength - ipd_ptr), PtrTotal := ucast (blength - ipd_ptr)\<rparr>;
       Some (if ipd_ptr \<ge> bytes
             then set_conn (uint (ConnNumber s)) (c\<lparr>DataSize := ucast ipd_ptr, LastPart := True, CallDataReceived := True\<rparr>)
                    (s\<lparr>InIPD := False\<rparr>)
             else set_conn (uint (ConnNumber s)) c s)
     }"

definition pr_ipd :: "u8 list \<Rightarrow> bool \<Rightarrow> esp \<Rightarrow> esp option" where
  "pr_ipd R from_usart s =
     (if starts R (ascii ''+IPD,'') then do { (c, s) \<leftarrow> ipd_header R from_usart s; ipd_data R c s } else Some s)"

section \<open>The active command\<close>

definition on_ok :: "u8 list \<Rightarrow> esp \<Rightarrow> esp" where
  "on_ok R s = (if is_line R (line ''OK'') then s\<lparr>ActiveCommand := CMD_IDLE\<rparr> else s)"

definition pr_cwjap :: "u8 list \<Rightarrow> esp \<Rightarrow> esp option" where
  "pr_cwjap R s =
     do {
       s \<leftarrow> (if starts R (ascii ''+CWJAP:'') then
               do {
                 r \<leftarrow> resp_strcpy (ActiveCommandResponse s) (line ''FAIL'');
                 ch \<leftarrow> c_nth (line_mem R 0) 7;
                 Some (s\<lparr>ActiveCommandResponse := r, WifiConnectError := CHAR2NUM ch\<rparr>)
               }
             else Some s);
       let s = on_ok R s;
       Some (if is_line R (line ''FAIL'') then call WifiConnectFailed (s\<lparr>ActiveCommand := CMD_IDLE\<rparr>) else s)
     }"

definition pr_cwjap_get :: "u8 list \<Rightarrow> esp \<Rightarrow> esp option" where
  "pr_cwjap_get R s =
     map_option (on_ok R) (if starts R (ascii ''+CWJAP_CUR:'') then ParseCWJAP (cstr R) s else Some s)"

definition pr_cwlap :: "u8 list \<Rightarrow> esp \<Rightarrow> esp option" where
  "pr_cwlap R s =
     do {
       s \<leftarrow> (if starts R (ascii ''+CWLAP:'') then ParseCWLAP (cstr R) s else Some s);
       Some (if is_line R (line ''OK'') then call WifiDetected (s\<lparr>ActiveCommand := CMD_IDLE\<rparr>) else s)
     }"

definition pr_cwsap :: "u8 list \<Rightarrow> esp \<Rightarrow> esp option" where
  "pr_cwsap R s = map_option (on_ok R) (if starts R (ascii ''+CWSAP'') then ParseCWSAP (cstr R) s else Some s)"

definition pr_cipsta :: "u8 list \<Rightarrow> esp \<Rightarrow> esp option" where
  "pr_cipsta R s =
     do {
       s \<leftarrow> (if starts R (ascii ''+CIPSTA'') then ParseCIPSTA R s else Some s);
       Some (if is_line R (line ''OK'') then call WifiIPSet (s\<lparr>ActiveCommand := CMD_IDLE\<rparr>) else s)
     }"

definition pr_cipap :: "u8 list \<Rightarrow> esp \<Rightarrow> esp option" where
  "pr_cipap R s = map_option (on_ok R) (if starts R (ascii ''+CIPAP'') then ParseCIPSTA R s else Some s)"

definition pr_send :: "u8 list \<Rightarrow> esp \<Rightarrow> esp option" where
  "pr_send R s =
     (if is_line R (line ''OK'') then
        do {
          r \<leftarrow> resp_strcpy (ActiveCommandResponse s) (ascii ''SEND OK'');
          Some (s\<lparr>ActiveCommand := CMD_SENDDATA, WaitForWrapper := True, ActiveCommandResponse := r\<rparr>)
        }
      else Some s)"

definition pr_cipstart :: "u8 list \<Rightarrow> esp \<Rightarrow> esp option" where
  "pr_cipstart R s =
     (let s = on_ok R s
      in if is_line R (line ''ERROR'') then
           do {
             c \<leftarrow> conn_at (StartConnectionSent s) s;
             Some (call (ClientError (StartConnectionSent s))
                    (set_conn (StartConnectionSent s) (ESP8266_RESETCONNECTION c) (s\<lparr>ActiveCommand := CMD_IDLE\<rparr>)))
           }
         else Some s)"

definition pr_rst :: "u8 list \<Rightarrow> esp \<Rightarrow> esp" where
  "pr_rst R s =
     (if is_line R (line ''ready'') then s\<lparr>ActiveCommand := CMD_IDLE, LastOperationStatus := True\<rparr> else s)"

definition pr_ping :: "u8 list \<Rightarrow> esp \<Rightarrow> esp" where
  "pr_ping R s =
     (let s = (if fst (fetch R) = 0x2B then s\<lparr>PingTime := fst (ParseNumber (cstr (tl R)))\<rparr> else s)
      in if is_line R (line ''OK'') then call PingFinished (s\<lparr>ActiveCommand := CMD_IDLE, PingSuccess := True\<rparr>)
         else if is_line R (line ''ERROR'') then call PingFinished (s\<lparr>ActiveCommand := CMD_IDLE, PingSuccess := False\<rparr>)
         else s)"

definition pr_stamac :: "u8 list \<Rightarrow> esp \<Rightarrow> esp option" where
  "pr_stamac R s =
     map_option (on_ok R)
       (if starts R (ascii ''+CIPSTAMAC'') then
          do { t \<leftarrow> skip 12 (cstr R); Some (s\<lparr>STAMAC := fst (ParseMAC t (STAMAC s))\<rparr>) }
        else Some s)"

definition pr_apmac :: "u8 list \<Rightarrow> esp \<Rightarrow> esp option" where
  "pr_apmac R s =
     map_option (on_ok R)
       (if starts R (ascii ''+CIPAPMAC'') then
          do { t \<leftarrow> skip 11 (cstr R); Some (s\<lparr>APMAC := fst (ParseMAC t (APMAC s))\<rparr>) }
        else Some s)"

definition pr_ciupdate :: "u8 list \<Rightarrow> esp \<Rightarrow> esp option" where
  "pr_ciupdate R s =
     do {
       s \<leftarrow> (if starts R (ascii ''+CIPUPDATE:'') then
               do {
                 ch \<leftarrow> c_nth (line_mem R 0) 11;
                 let num = CHAR2NUM ch mod 256;
                 Some (call (FirmwareUpdateStatus num) (if num = 4 then s\<lparr>Timeout := 10 * ESP8266_TIMEOUT\<rparr> else s))
               }
             else Some s);
       let s = (if is_line R (line ''OK'') \<or> is_line R (line ''ready'')
                then call FirmwareUpdateSuccess (s\<lparr>ActiveCommand := CMD_IDLE, Timeout := ESP8266_TIMEOUT\<rparr>) else s);
       Some (if is_line R (line ''ERROR'')
             then call FirmwareUpdateError (s\<lparr>ActiveCommand := CMD_IDLE, Timeout := ESP8266_TIMEOUT\<rparr>) else s)
     }"

definition pr_cwlif :: "u8 list \<Rightarrow> esp \<Rightarrow> esp option" where
  "pr_cwlif R s =
     do {
       s \<leftarrow> (if CHARISNUM (fst (fetch R)) then ParseCWLIF R s else Some s);
       Some (if is_line R (line ''OK'') then call ConnectedStationsDetected (s\<lparr>ActiveCommand := CMD_IDLE\<rparr>) else s)
     }"

text \<open>The commands that only wait for OK.\<close>

definition simple_commands :: "esp_command list" where
  "simple_commands = [CMD_CIPSERVER, CMD_CIPMUX, CMD_CIPDINFO, CMD_AT, CMD_UART, CMD_CLOSE, CMD_SLEEP, CMD_GSLP, CMD_CIPSTO,
     CMD_RESTORE, CMD_AUTOCONN, CMD_CWQAP, CMD_SSLBUFFERSIZE, CMD_RFPOWER, CMD_WPS]"

definition pr_command :: "u8 list \<Rightarrow> esp \<Rightarrow> esp option" where
  "pr_command R s =
     (case ActiveCommand s of
        CMD_CWJAP \<Rightarrow> pr_cwjap R s
      | CMD_CWJAP_GET \<Rightarrow> pr_cwjap_get R s
      | CMD_CWLAP \<Rightarrow> pr_cwlap R s
      | CMD_CWSAP \<Rightarrow> pr_cwsap R s
      | CMD_CIPSTA \<Rightarrow> pr_cipsta R s
      | CMD_CIPAP \<Rightarrow> pr_cipap R s
      | CMD_CWMODE \<Rightarrow> Some (if is_line R (line ''OK'') then s\<lparr>ActiveCommand := CMD_IDLE, Mode := SentMode s\<rparr> else s)
      | CMD_SEND \<Rightarrow> pr_send R s
      | CMD_SENDDATA \<Rightarrow> Some s
      | CMD_CIPSTART \<Rightarrow> pr_cipstart R s
      | CMD_RST \<Rightarrow> Some (pr_rst R s)
      | CMD_PING \<Rightarrow> Some (pr_ping R s)
      | CMD_CIPSTAMAC \<Rightarrow> pr_stamac R s
      | CMD_CIPAPMAC \<Rightarrow> pr_apmac R s
      | CMD_CIUPDATE \<Rightarrow> pr_ciupdate R s
      | CMD_CWLIF \<Rightarrow> pr_cwlif R s
      | c \<Rightarrow> Some (if c \<in> set simple_commands then on_ok R s else s))"

text \<open>The flags after the command.\<close>

definition pr_status :: "u8 list \<Rightarrow> esp \<Rightarrow> esp" where
  "pr_status R s =
     (let s = (if is_line R (line ''OK'') then
                 (if ActiveCommand s \<noteq> CMD_SEND \<and> ActiveCommand s \<noteq> CMD_SENDDATA
                  then s\<lparr>LastOperationStatus := True, ActiveCommand := CMD_IDLE\<rparr> else s\<lparr>LastOperationStatus := True\<rparr>)
               else s);
          s = (if is_line R (line ''ERROR'') \<or> is_line R (line ''busy p...'')
               then s\<lparr>LastOperationStatus := False, ActiveCommand := CMD_IDLE\<rparr> else s)
      in if is_line R (line ''SEND OK'') then s\<lparr>ActiveCommand := CMD_IDLE, WaitForWrapper := False\<rparr> else s)"

definition ParseReceived :: "u8 list \<Rightarrow> bool \<Rightarrow> esp \<Rightarrow> esp option" where
  "ParseReceived R from_usart s =
     do {
       let s = s\<lparr>LastReceivedTime := Time s\<rparr>;
       if R = [0x0D, 0x0A] then Some s
       else do {
         foreign \<leftarrow> (if ActiveCommand s \<noteq> CMD_IDLE \<and> from_usart then pr_foreign R s else Some False);
         if foreign then
           do { (_, b) \<leftarrow> BUFFER_WriteString (TMP_Buffer s) (cstr R); Some (s\<lparr>TMP_Buffer := b\<rparr>) }
         else do {
           let s = pr_send_ok R (pr_wifi R (CallConnectionCallbacks (pr_reset R s)));
           s \<leftarrow> pr_connection R s;
           s \<leftarrow> pr_ipd R from_usart s;
           s \<leftarrow> pr_command R s;
           Some (pr_status R s)
         }
       }
     }"

end
