(* ===== verification/Esp8266_Driver.thy ===== *)
theory Esp8266_Driver
  imports Esp8266
begin

text \<open>
  The update function of the WiFi driver, the interrupt, waiting, and the functions of the interface of
  \<^verbatim>\<open>src/WiFi/esp8266.c\<close>.
\<close>

section \<open>Update\<close>

definition up_timeout :: "esp \<Rightarrow> esp option" where
  "up_timeout s =
     (let s = (if Timeout s = 0 then s\<lparr>Timeout := 30000\<rparr> else s)
      in if Time s - StartTime s > Timeout s then
           let lastcmd = ActiveCommand s; s = s\<lparr>ActiveCommand := CMD_IDLE\<rparr>
           in if lastcmd = CMD_CIPSTART then
                do {
                  c \<leftarrow> conn_at (StartConnectionSent s) s;
                  Some (call (ClientTimeout (StartConnectionSent s))
                         (set_conn (StartConnectionSent s) (ESP8266_RESETCONNECTION c) s))
                }
              else Some s
         else Some s)"

text \<open>The wrapper \<open>>\<close> before data are sent. The search in the second buffer is for a sequence of length 0.\<close>

definition find_wrapper :: "esp \<Rightarrow> (int \<times> esp) option" where
  "find_wrapper s =
     do {
       found \<leftarrow> BUFFER_Find (USART_Buffer s) [0x3E, 0x20, 0] 2;
       if found \<ge> 0 then
         if found = 0 then
           do { (_, _, b) \<leftarrow> BUFFER_Read (USART_Buffer s) [0, 0] 2; Some (found, s\<lparr>USART_Buffer := b\<rparr>) }
         else Some (found, s)
       else do {
         found \<leftarrow> BUFFER_Find (TMP_Buffer s) [0x3E, 0x20, 0] 0;
         if found = 0 then
           do { (_, _, b) \<leftarrow> BUFFER_Read (TMP_Buffer s) [0, 0] 2; Some (found, s\<lparr>TMP_Buffer := b\<rparr>) }
         else Some (found, s)
       }
     }"

definition up_wrapper :: "esp \<Rightarrow> esp option" where
  "up_wrapper s =
     (if WaitForWrapper s then
        do { (found, s) \<leftarrow> find_wrapper s; if found \<ge> 0 then ProcessSendData s else Some s }
      else Some s)"

definition up_uart :: "esp \<Rightarrow> esp option" where
  "up_uart s =
     (if ActiveCommand s = CMD_UART \<and> \<not> InIPD s then
        do {
          found \<leftarrow> BUFFER_Find (USART_Buffer s) (line ''OK'' @ [0]) 4;
          Some (if found \<ge> 0
                then s\<lparr>USART_Buffer := BUFFER_Reset (USART_Buffer s), ActiveCommand := CMD_IDLE, LastOperationStatus := True\<rparr>
                else s)
        }
      else Some s)"

text \<open>The loops that take lines from the two buffers. The array \<^verbatim>\<open>Received\<close> is not initialised: of it only what
  \<^verbatim>\<open>BUFFER_ReadString\<close> has stored is used.\<close>

partial_function (option) usart_lines :: "esp \<Rightarrow> esp option" where
  "usart_lines s =
     (if InIPD s then Some s
      else do {
        (n, R, b) \<leftarrow> BUFFER_ReadString (USART_Buffer s) (replicate RECEIVED_SIZE 0) (of_nat RECEIVED_SIZE);
        let s = s\<lparr>USART_Buffer := b\<rparr>;
        if n = 0 then Some s else do { s \<leftarrow> ParseReceived (take (unat n) R) True s; usart_lines s }
      })"

partial_function (option) tmp_lines :: "esp \<Rightarrow> esp option" where
  "tmp_lines s =
     (if InIPD s \<or> ActiveCommand s \<noteq> CMD_IDLE then Some s
      else do {
        (n, R, b) \<leftarrow> BUFFER_ReadString (TMP_Buffer s) (replicate RECEIVED_SIZE 0) (of_nat RECEIVED_SIZE);
        let s = s\<lparr>TMP_Buffer := b\<rparr>;
        if n = 0 then Some s else do { s \<leftarrow> ParseReceived (take (unat n) R) False s; tmp_lines s }
      })"

text \<open>The loop over the bytes of network data, from the buffer that the header came from.\<close>

definition ipd_buffer :: "esp \<Rightarrow> BUFFER_t option" where
  "ipd_buffer s = (if IPD_USART s then USART_Buffer s else TMP_Buffer s)"

definition set_ipd_buffer :: "BUFFER_t option \<Rightarrow> esp \<Rightarrow> esp" where
  "set_ipd_buffer b s = (if IPD_USART s then s\<lparr>USART_Buffer := b\<rparr> else s\<lparr>TMP_Buffer := b\<rparr>)"

partial_function (option) ipd_bytes :: "esp \<Rightarrow> esp option" where
  "ipd_bytes s =
     do {
       c \<leftarrow> conn_at (uint (ConnNumber s)) s;
       if ucast (InPtr s) < BytesReceived c \<and> BUFFER_GetFull (ipd_buffer s) > 0 then
         do {
           (_, d, b) \<leftarrow> BUFFER_Read (ipd_buffer s) [0] 1;
           ch \<leftarrow> c_nth d 0;
           data \<leftarrow> (if DataPtr c then c_upd (ConnectionData s) (unat (InPtr s)) ch else None);
           ipd_bytes (set_ipd_buffer b (s\<lparr>ConnectionData := data, InPtr := InPtr s + 1, PtrTotal := PtrTotal s + 1\<rparr>))
         }
       else Some s
     }"

text \<open>The text in the data buffer: reading it needs a zero in the array.\<close>

definition data_text :: "esp \<Rightarrow> ctext option" where
  "data_text s = (if 0 \<in> set (ConnectionData s) then Some (cstr (ConnectionData s)) else None)"

definition ipd_done :: "esp \<Rightarrow> esp option" where
  "ipd_done s =
     do {
       c \<leftarrow> conn_at (uint (ConnNumber s)) s;
       if ucast (PtrTotal s) \<ge> BytesReceived c then
         do {
           let s = s\<lparr>InIPD := False\<rparr>;
           let c = c\<lparr>DataSize := InPtr s, LastPart := True\<rparr>;
           c \<leftarrow> (if FirstPacket c then
                   do {
                     t \<leftarrow> data_text s;
                     Some (case strstr t (ascii ''Content-Length: '') of
                             None \<Rightarrow> c
                           | Some p \<Rightarrow> c\<lparr>ContentLength := fst (ParseNumber (drop (p + 16) t))\<rparr>)
                   }
                 else Some c);
           Some (set_conn (uint (ConnNumber s)) (c\<lparr>CallDataReceived := True\<rparr>) s)
         }
       else Some s
     }"

definition up_ipd :: "esp \<Rightarrow> esp option" where
  "up_ipd s = (if InIPD s then do { s \<leftarrow> ipd_bytes s; ipd_done s } else Some s)"

definition ret :: "ESP8266_Result_t \<Rightarrow> esp \<Rightarrow> (ESP8266_Result_t \<times> esp) option" where
  "ret st s = Some (st, s\<lparr>Result := st\<rparr>)"

definition ESP8266_Update :: "esp \<Rightarrow> (ESP8266_Result_t \<times> esp) option" where
  "ESP8266_Update s =
     do {
       s \<leftarrow> up_timeout s;
       s \<leftarrow> up_wrapper s;
       s \<leftarrow> up_uart s;
       s \<leftarrow> usart_lines s;
       s \<leftarrow> tmp_lines s;
       s \<leftarrow> up_ipd s;
       ret ESP_OK (CallConnectionCallbacks s)
     }"

section \<open>Interrupts and waiting\<close>

definition ESP8266_TimeUpdate :: "u32 \<Rightarrow> esp \<Rightarrow> esp" where
  "ESP8266_TimeUpdate time_increase s = s\<lparr>Time := Time s + time_increase\<rparr>"

definition ESP8266_DataReceived :: "u8 list \<Rightarrow> u16 \<Rightarrow> esp \<Rightarrow> (u16 \<times> esp) option" where
  "ESP8266_DataReceived ch count s =
     do {
       (n, b) \<leftarrow> BUFFER_Write (USART_Buffer s) ch (ucast count);
       Some (ucast n, s\<lparr>USART_Buffer := b\<rparr>)
     }"

definition UART2_IRQHandler :: "u8 \<Rightarrow> esp \<Rightarrow> esp option" where
  "UART2_IRQHandler received s = map_option snd (ESP8266_DataReceived [received] 1 s)"

fun uart_bytes :: "u8 list \<Rightarrow> esp \<Rightarrow> esp option" where
  "uart_bytes [] s = Some s"
| "uart_bytes (b # bs) s = do { s \<leftarrow> UART2_IRQHandler b s; uart_bytes bs s }"

definition tick :: "u32 \<times> u8 list \<Rightarrow> esp \<Rightarrow> esp option" where
  "tick t s = uart_bytes (snd t) (ESP8266_TimeUpdate (fst t) s)"

text \<open>\<^verbatim>\<open>ESP8266_DELAYMS\<close> from the time \<open>t\<close>; the result is what is left of the ticks.\<close>

fun delay_loop :: "u32 \<Rightarrow> u32 \<Rightarrow> (u32 \<times> u8 list) list \<Rightarrow> esp \<Rightarrow> ((u32 \<times> u8 list) list \<times> esp) option" where
  "delay_loop t x [] s = (if Time s - t < x then None else Some ([], s))"
| "delay_loop t x (k # ks) s =
     (if Time s - t < x then do { s \<leftarrow> tick k s; delay_loop t x ks s } else Some (k # ks, s))"

definition ESP8266_DELAYMS :: "u32 \<Rightarrow> esp \<Rightarrow> esp option" where
  "ESP8266_DELAYMS x s = do { (ks, s) \<leftarrow> delay_loop (Time s) x (ticks s) s; Some (s\<lparr>ticks := ks\<rparr>) }"

fun wait_loop :: "(u32 \<times> u8 list) list \<Rightarrow> esp \<Rightarrow> ((u32 \<times> u8 list) list \<times> esp) option" where
  "wait_loop [] s = None"
| "wait_loop (k # ks) s =
     do {
       s \<leftarrow> tick k s;
       found \<leftarrow> (if WaitForWrapper s then BUFFER_Find (USART_Buffer s) [0x3E, 0x20, 0] 2 else Some (-1));
       if found \<ge> 0 then Some (ks, s\<lparr>WaitForWrapper := False\<rparr>)
       else do {
         (_, s) \<leftarrow> ESP8266_Update s;
         if ActiveCommand s \<noteq> CMD_IDLE then wait_loop ks s else Some (ks, s)
       }
     }"

definition ESP8266_WaitReady :: "esp \<Rightarrow> (ESP8266_Result_t \<times> esp) option" where
  "ESP8266_WaitReady s = do { (ks, s) \<leftarrow> wait_loop (ticks s) s; ret ESP_OK (s\<lparr>ticks := ks\<rparr>) }"

section \<open>Commands\<close>

definition check_idle :: "esp \<Rightarrow> (esp \<Rightarrow> (ESP8266_Result_t \<times> esp) option) \<Rightarrow> (ESP8266_Result_t \<times> esp) option" where
  "check_idle s k = (if ActiveCommand s \<noteq> CMD_IDLE then do { (_, s) \<leftarrow> ESP8266_Update s; ret ESP_BUSY s } else k s)"

definition check_wifi :: "esp \<Rightarrow> (esp \<Rightarrow> (ESP8266_Result_t \<times> esp) option) \<Rightarrow> (ESP8266_Result_t \<times> esp) option" where
  "check_wifi s k = (if \<not> WifiConnected s then ret ESP_WIFINOTCONNECTED s else k s)"

definition SendCommand :: "esp_command \<Rightarrow> ctext option \<Rightarrow> resp_ptr \<Rightarrow> esp \<Rightarrow> (ESP8266_Result_t \<times> esp) option" where
  "SendCommand Command CommandStr StartRespond s =
     check_idle s (\<lambda>s.
       let s = (if Command = CMD_UART then s\<lparr>USART_Buffer := BUFFER_Reset (USART_Buffer s)\<rparr> else s);
           s = (case CommandStr of None \<Rightarrow> s | Some t \<Rightarrow> esp8266_SendString t s)
       in ret ESP_OK (s\<lparr>ActiveCommand := Command, ActiveCommandResponse := StartRespond, StartTime := Time s\<rparr>))"

definition ESP8266_IsReady :: "esp \<Rightarrow> (ESP8266_Result_t \<times> esp) option" where
  "ESP8266_IsReady s = check_idle s (ret ESP_OK)"

text \<open>The parts that the functions of the interface share: sending a command in pieces, the wait for its end and the
  status after it.\<close>

definition send_all :: "u8 list list \<Rightarrow> esp \<Rightarrow> esp" where
  "send_all ts s = fold esp8266_SendString ts s"

definition bind_ok ::
  "(ESP8266_Result_t \<times> esp) option \<Rightarrow> (esp \<Rightarrow> (ESP8266_Result_t \<times> esp) option) \<Rightarrow> (ESP8266_Result_t \<times> esp) option" where
  "bind_ok m k = do { (r, s) \<leftarrow> m; if r \<noteq> ESP_OK then Some (Result s, s) else k s }"

definition wait_status :: "esp \<Rightarrow> (ESP8266_Result_t \<times> esp) option" where
  "wait_status s =
     do { (_, s) \<leftarrow> ESP8266_WaitReady s; ret (if LastOperationStatus s then ESP_OK else ESP_ERROR) s }"

definition EOL :: ctext where "EOL = [0x0D, 0x0A]"

definition ESP8266_SetRFPower :: "u32 \<Rightarrow> esp \<Rightarrow> (ESP8266_Result_t \<times> esp) option" where
  "ESP8266_SetRFPower intval s =
     (if intval > 82 then ret ESP_INVALIDPARAMETERS s
      else check_idle s (\<lambda>s. do {
        num \<leftarrow> Int2String 3 intval;
        bind_ok (SendCommand CMD_RFPOWER None Null (send_all [ascii ''AT+RFPOWER='', num, EOL] s)) ESP8266_Update
      }))"

definition ESP8266_FirmwareUpdate :: "esp \<Rightarrow> (ESP8266_Result_t \<times> esp) option" where
  "ESP8266_FirmwareUpdate s =
     check_wifi s (SendCommand CMD_CIUPDATE (Some (line ''AT+CIUPDATE'')) (Literal (ascii ''+CIPUPDATE:'')))"

text \<open>\<open>esp8266_UART_init\<close> programs a fixed rate.\<close>

definition esp8266_UART_init :: "u32 \<Rightarrow> esp \<Rightarrow> esp" where
  "esp8266_UART_init baudrate s = s\<lparr>uart_baud := uart_baud s @ [115200]\<rparr>"

definition SendUARTCommand :: "u32 \<Rightarrow> ctext \<Rightarrow> esp \<Rightarrow> (ESP8266_Result_t \<times> esp) option" where
  "SendUARTCommand baudrate cmd s =
     check_idle s (\<lambda>s. do {
       baud \<leftarrow> Int2String 8 baudrate;
       bind_ok (SendCommand CMD_UART None (Literal (ascii ''AT+UART''))
                 (send_all [cmd, ascii ''='', baud, line '',8,1,0,0''] s)) (\<lambda>s. do {
         (_, s) \<leftarrow> ESP8266_WaitReady s;
         if \<not> LastOperationStatus s then ret ESP_ERROR s
         else do {
           s \<leftarrow> ESP8266_DELAYMS 5 (s\<lparr>Baudrate := baudrate\<rparr>);
           let s = esp8266_UART_init (Baudrate s) s;
           s \<leftarrow> ESP8266_DELAYMS 5 (s\<lparr>USART_Buffer := BUFFER_Reset (USART_Buffer s)\<rparr>);
           ret ESP_OK (s\<lparr>ActiveCommand := CMD_IDLE\<rparr>)
         }
       })
     })"

definition ESP8266_SetUART :: "u32 \<Rightarrow> esp \<Rightarrow> (ESP8266_Result_t \<times> esp) option" where
  "ESP8266_SetUART baudrate s = SendUARTCommand baudrate (ascii ''AT+UART_CUR'') s"

definition ESP8266_SetUARTDefault :: "u32 \<Rightarrow> esp \<Rightarrow> (ESP8266_Result_t \<times> esp) option" where
  "ESP8266_SetUARTDefault baudrate s = SendUARTCommand baudrate (ascii ''AT+UART_DEF'') s"

definition ESP8266_SetSleepMode :: "u8 \<Rightarrow> esp \<Rightarrow> (ESP8266_Result_t \<times> esp) option" where
  "ESP8266_SetSleepMode SleepMode s =
     check_idle s (\<lambda>s. do {
       (_, s) \<leftarrow> SendCommand CMD_SLEEP None (Literal (ascii ''+SLEEP'')) (send_all [ascii ''AT+SLEEP='', [SleepMode + 0x30], EOL] s);
       ESP8266_WaitReady s
     })"

definition ESP8266_Sleep :: "u32 \<Rightarrow> esp \<Rightarrow> (ESP8266_Result_t \<times> esp) option" where
  "ESP8266_Sleep Milliseconds s =
     check_idle s (\<lambda>s. do {
       tmp \<leftarrow> Int2String 10 Milliseconds;
       (_, s) \<leftarrow> SendCommand CMD_GSLP None Null (send_all [ascii ''AT+GSLP='', tmp, EOL] s);
       ESP8266_WaitReady s
     })"

definition ESP8266_GetAP :: "esp \<Rightarrow> (ESP8266_Result_t \<times> esp) option" where
  "ESP8266_GetAP s = bind_ok (SendCommand CMD_CWSAP (Some (line ''AT+CWSAP?'')) (Literal (ascii ''+CWSAP'')) s) ESP8266_WaitReady"

definition ESP8266_SetMode :: "u8 \<Rightarrow> esp \<Rightarrow> (ESP8266_Result_t \<times> esp) option" where
  "ESP8266_SetMode md s =
     check_idle s (\<lambda>s.
       bind_ok (SendCommand CMD_CWMODE None (Literal (ascii ''AT+CWMODE''))
                 (send_all [ascii ''AT+CWMODE_CUR='', [md + 0x30], EOL] s)) (\<lambda>s. do {
         (_, s) \<leftarrow> ESP8266_WaitReady (s\<lparr>SentMode := md\<rparr>);
         if Mode s \<noteq> md then ret ESP_ERROR s else ESP8266_GetAP s
       }))"

text \<open>The connection argument is its index.\<close>

definition ESP8266_RequestSendData :: "nat \<Rightarrow> esp \<Rightarrow> (ESP8266_Result_t \<times> esp) option" where
  "ESP8266_RequestSendData n s =
     check_idle s (\<lambda>s. do {
       c \<leftarrow> conn_at (int n) s;
       bind_ok (SendCommand CMD_SEND None Null (send_all [ascii ''AT+CIPSENDEX='', [Number c + 0x30], line '',2048''] s)) (\<lambda>s. do {
         c \<leftarrow> conn_at (int n) s;
         let s = set_conn (int n) (c\<lparr>ConnWaitForWrapper := True\<rparr>) s;
         let s = s\<lparr>WaitForWrapper := True, SendDataConnection := Some n\<rparr>;
         Some (Result s, s)
       })
     })"

definition ESP8266_CloseConnection :: "nat \<Rightarrow> esp \<Rightarrow> (ESP8266_Result_t \<times> esp) option" where
  "ESP8266_CloseConnection n s =
     check_idle s (\<lambda>s. do {
       c \<leftarrow> conn_at (int n) s;
       SendCommand CMD_CLOSE None Null (send_all [ascii ''AT+CIPCLOSE='', [Number c + 0x30], EOL] s)
     })"

definition ESP8266_CloseAllConnections :: "esp \<Rightarrow> (ESP8266_Result_t \<times> esp) option" where
  "ESP8266_CloseAllConnections s = SendCommand CMD_CLOSE (Some (line ''AT+CIPCLOSE=5'')) Null s"

definition ESP8266_AllConectionsClosed :: "esp \<Rightarrow> (ESP8266_Result_t \<times> esp) option" where
  "ESP8266_AllConectionsClosed s =
     ret (if list_ex Active (take ESP8266_MAX_CONNECTIONS (Connection s)) then ESP_ERROR else ESP_OK) s"

definition ESP8266_SetMux :: "u8 \<Rightarrow> esp \<Rightarrow> (ESP8266_Result_t \<times> esp) option" where
  "ESP8266_SetMux mux s =
     check_idle s (\<lambda>s. bind_ok (SendCommand CMD_CIPMUX None Null (send_all [ascii ''AT+CIPMUX='', [mux + 0x30], EOL] s)) wait_status)"

definition ESP8266_Setdinfo :: "u8 \<Rightarrow> esp \<Rightarrow> (ESP8266_Result_t \<times> esp) option" where
  "ESP8266_Setdinfo info s =
     check_idle s (\<lambda>s. bind_ok (SendCommand CMD_CIPDINFO None Null (send_all [ascii ''AT+CIPDINFO='', [info + 0x30], EOL] s)) wait_status)"

definition ESP8266_SetWPS :: "u8 \<Rightarrow> esp \<Rightarrow> (ESP8266_Result_t \<times> esp) option" where
  "ESP8266_SetWPS wps s =
     check_idle s (\<lambda>s. bind_ok (SendCommand CMD_WPS None Null (send_all [ascii ''AT+WPS='', [wps + 0x30], EOL] s)) ESP8266_WaitReady)"

definition ESP8266_ServerEnable :: "u16 \<Rightarrow> esp \<Rightarrow> (ESP8266_Result_t \<times> esp) option" where
  "ESP8266_ServerEnable port s =
     check_idle s (\<lambda>s. do {
       port_str \<leftarrow> Int2String 7 (ucast port);
       bind_ok (SendCommand CMD_CIPSERVER None Null (send_all [ascii ''AT+CIPSERVER=1,'', port_str, EOL] s)) wait_status
     })"

definition ESP8266_ServerDisable :: "esp \<Rightarrow> (ESP8266_Result_t \<times> esp) option" where
  "ESP8266_ServerDisable s = bind_ok (SendCommand CMD_CIPSERVER (Some (line ''AT+CIPSERVER=0'')) Null s) wait_status"

definition ESP8266_SetServerTimeout :: "u16 \<Rightarrow> esp \<Rightarrow> (ESP8266_Result_t \<times> esp) option" where
  "ESP8266_SetServerTimeout timeout s =
     check_idle s (\<lambda>s. do {
       timeout_str \<leftarrow> Int2String 7 (ucast timeout);
       bind_ok (SendCommand CMD_CIPSTO None Null (send_all [ascii ''AT+CIPSTO='', timeout_str, EOL] s)) wait_status
     })"

definition ESP8266_WifiDisconnect :: "esp \<Rightarrow> (ESP8266_Result_t \<times> esp) option" where
  "ESP8266_WifiDisconnect s = SendCommand CMD_CWQAP (Some (line ''AT+CWQAP'')) (Literal (ascii ''AT+CWQAP'')) s"

definition wifi_join :: "ctext \<Rightarrow> ctext \<Rightarrow> ctext \<Rightarrow> esp \<Rightarrow> (ESP8266_Result_t \<times> esp) option" where
  "wifi_join cmd ssid pass s =
     check_idle s (\<lambda>s.
       SendCommand CMD_CWJAP None (Literal (ascii ''+CWJAP:''))
         (send_all [cmd @ [0x22], EscapeStringAndSend ssid, [0x22, 0x2C, 0x22], EscapeStringAndSend pass, 0x22 # EOL] s))"

definition ESP8266_WifiConnect :: "ctext \<Rightarrow> ctext \<Rightarrow> esp \<Rightarrow> (ESP8266_Result_t \<times> esp) option" where
  "ESP8266_WifiConnect ssid pass s = wifi_join (ascii ''AT+CWJAP_CUR='') ssid pass s"

definition ESP8266_WifiConnectDefault :: "ctext \<Rightarrow> ctext \<Rightarrow> esp \<Rightarrow> (ESP8266_Result_t \<times> esp) option" where
  "ESP8266_WifiConnectDefault ssid pass s = wifi_join (ascii ''AT+CWJAP_DEF='') ssid pass s"

definition ESP8266_WifiGetConnected :: "esp \<Rightarrow> (ESP8266_Result_t \<times> esp) option" where
  "ESP8266_WifiGetConnected s =
     SendCommand CMD_CWJAP_GET (Some (line ''AT+CWJAP_CUR?'')) (Literal (ascii ''+CWJAP_CUR:'')) s"

section \<open>Addresses, access points and stations\<close>

definition ESP8266_GetSTAIP :: "esp \<Rightarrow> (ESP8266_Result_t \<times> esp) option" where
  "ESP8266_GetSTAIP s =
     do {
       (_, s) \<leftarrow> SendCommand CMD_CIPSTA (Some (line ''AT+CIPSTA_CUR?'')) (Literal (ascii ''+CIPSTA_CUR'')) s;
       let s = (if Result s = ESP_OK then s\<lparr>STAIPIsSet := False, STANetmaskIsSet := False, STAGatewayIsSet := False\<rparr> else s);
       Some (Result s, s)
     }"

definition ESP8266_GetAPIP :: "esp \<Rightarrow> (ESP8266_Result_t \<times> esp) option" where
  "ESP8266_GetAPIP s =
     do {
       (_, s) \<leftarrow> SendCommand CMD_CIPAP (Some (line ''AT+CIPAP_CUR?'')) (Literal (ascii ''+CIPAP_CUR'')) s;
       let s = (if Result s = ESP_OK then s\<lparr>APIPIsSet := False, APNetmaskIsSet := False, APGatewayIsSet := False\<rparr> else s);
       Some (Result s, s)
     }"

definition ESP8266_GetSTAIPBlocking :: "esp \<Rightarrow> (ESP8266_Result_t \<times> esp) option" where
  "ESP8266_GetSTAIPBlocking s = do { (_, s) \<leftarrow> ESP8266_GetSTAIP s; (_, s) \<leftarrow> ESP8266_WaitReady s; ret ESP_OK s }"

definition ESP8266_GetAPIPBlocking :: "esp \<Rightarrow> (ESP8266_Result_t \<times> esp) option" where
  "ESP8266_GetAPIPBlocking s = do { (_, s) \<leftarrow> ESP8266_GetAPIP s; ESP8266_WaitReady s }"

definition ESP8266_GetSTAMAC :: "esp \<Rightarrow> (ESP8266_Result_t \<times> esp) option" where
  "ESP8266_GetSTAMAC s =
     do {
       (_, s) \<leftarrow> SendCommand CMD_CIPSTAMAC (Some (line ''AT+CIPSTAMAC?'')) (Literal (ascii ''+CIPSTAMAC'')) s;
       let s = (if Result s = ESP_OK then s\<lparr>STAMACIsSet := False\<rparr> else s);
       Some (Result s, s)
     }"

definition ESP8266_GetAPMAC :: "esp \<Rightarrow> (ESP8266_Result_t \<times> esp) option" where
  "ESP8266_GetAPMAC s =
     do {
       (_, s) \<leftarrow> SendCommand CMD_CIPAPMAC (Some (line ''AT+CIPAPMAC?'')) (Literal (ascii ''+CIPAPMAC'')) s;
       let s = (if Result s = ESP_OK then s\<lparr>APMACIsSet := False\<rparr> else s);
       Some (Result s, s)
     }"

definition SendMACCommand :: "u8 list \<Rightarrow> ctext \<Rightarrow> esp_command \<Rightarrow> esp \<Rightarrow> (ESP8266_Result_t \<times> esp) option" where
  "SendMACCommand addr cmd command s =
     check_idle s (\<lambda>s. do {
       tmp \<leftarrow> sprintf_in 21 (ascii ''%02x:%02x:%02x:%02x:%02x:%02x'') (map (\<lambda>b. AInt (ucast b)) addr);
       (_, s) \<leftarrow> SendCommand command None Null (send_all [cmd, [0x3D, 0x22], tmp, 0x22 # EOL] s);
       (_, s) \<leftarrow> ESP8266_WaitReady s;
       let s = (if LastOperationStatus s then
                  if command = CMD_CIPSTAMAC then s\<lparr>STAMAC := addr\<rparr> else s\<lparr>APMAC := addr\<rparr>
                else if Result s = ESP_OK then
                  if command = CMD_CIPSTAMAC then s\<lparr>STAMACIsSet := False\<rparr> else s\<lparr>APMACIsSet := False\<rparr>
                else s);
       Some (Result s, s)
     })"

definition ESP8266_SetSTAMAC :: "u8 list \<Rightarrow> esp \<Rightarrow> (ESP8266_Result_t \<times> esp) option" where
  "ESP8266_SetSTAMAC addr s = SendMACCommand addr (ascii ''AT+CIPSTAMAC_CUR'') CMD_CIPSTAMAC s"

definition ESP8266_SetSTAMACDefault :: "u8 list \<Rightarrow> esp \<Rightarrow> (ESP8266_Result_t \<times> esp) option" where
  "ESP8266_SetSTAMACDefault addr s = SendMACCommand addr (ascii ''AT+CIPSTAMAC_DEF'') CMD_CIPSTAMAC s"

definition ESP8266_SetAPMAC :: "u8 list \<Rightarrow> esp \<Rightarrow> (ESP8266_Result_t \<times> esp) option" where
  "ESP8266_SetAPMAC addr s = SendMACCommand addr (ascii ''AT+CIPAPMAC_CUR'') CMD_CIPAPMAC s"

definition ESP8266_SetAPMACDefault :: "u8 list \<Rightarrow> esp \<Rightarrow> (ESP8266_Result_t \<times> esp) option" where
  "ESP8266_SetAPMACDefault addr s = SendMACCommand addr (ascii ''AT+CIPAPMAC_DEF'') CMD_CIPAPMAC s"

definition ESP8266_ListWifiStations :: "esp \<Rightarrow> (ESP8266_Result_t \<times> esp) option" where
  "ESP8266_ListWifiStations s = SendCommand CMD_CWLAP (Some (line ''AT+CWLAP'')) (Literal (ascii ''+CWLAP'')) (s\<lparr>APs_Count := 0\<rparr>)"

text \<open>The configuration of an access point as it is passed to \<^verbatim>\<open>ESP8266_SetAP\<close>.\<close>

record ESP8266_APConfig_t =
  cfg_SSID :: ctext
  cfg_Pass :: ctext
  cfg_Ecn :: u8
  cfg_Channel :: u8
  cfg_MaxConnections :: u8
  cfg_Hidden :: u8

definition ap_config_bad :: "ESP8266_APConfig_t \<Rightarrow> bool" where
  "ap_config_bad c \<longleftrightarrow>
     length (cfg_SSID c) > 64 \<or> length (cfg_Pass c) > 64 \<or> (cfg_Ecn c \<noteq> 0 \<and> length (cfg_Pass c) < 8) \<or> cfg_Ecn c = 1 \<or>
     cfg_MaxConnections c < 1 \<or> cfg_MaxConnections c > 4"

definition set_ap :: "ctext \<Rightarrow> ESP8266_APConfig_t \<Rightarrow> esp \<Rightarrow> (ESP8266_Result_t \<times> esp) option" where
  "set_ap cmd c s =
     check_idle s (\<lambda>s.
       if ap_config_bad c then ret ESP_ERROR s
       else do {
         ch \<leftarrow> Int2String 4 (ucast (cfg_Channel c));
         (_, s) \<leftarrow> SendCommand CMD_CWSAP None Null
           (send_all [cmd @ [0x22], EscapeStringAndSend (cfg_SSID c), [0x22, 0x2C, 0x22], EscapeStringAndSend (cfg_Pass c),
              [0x22, 0x2C], EscapeStringAndSend ch, [0x2C], [cfg_Ecn c + 0x30], [0x2C], [cfg_MaxConnections c + 0x30],
              [0x2C], [cfg_Hidden c + 0x30], EOL] s);
         ESP8266_Update s
       })"

definition ESP8266_SetAP :: "ESP8266_APConfig_t \<Rightarrow> esp \<Rightarrow> (ESP8266_Result_t \<times> esp) option" where
  "ESP8266_SetAP c s = set_ap (ascii ''AT+CWSAP_CUR='') c s"

definition ESP8266_SetAPDefault :: "ESP8266_APConfig_t \<Rightarrow> esp \<Rightarrow> (ESP8266_Result_t \<times> esp) option" where
  "ESP8266_SetAPDefault c s = set_ap (ascii ''AT+CWSAP_DEF='') c s"

text \<open>The expected response is the first number of the own address, in the array \<^verbatim>\<open>resp\<close> of 4 bytes.\<close>

definition ESP8266_GetConnectedStations :: "esp \<Rightarrow> (ESP8266_Result_t \<times> esp) option" where
  "ESP8266_GetConnectedStations s =
     do {
       a \<leftarrow> c_nth (APIP s) 0;
       t \<leftarrow> Int2String 4 (ucast a);
       bind_ok (SendCommand CMD_CWLIF (Some (line ''AT+CWLIF'')) (Resp (t @ replicate (4 - length t) 0)) s)
         (\<lambda>s. let s = s\<lparr>StationCount := 0\<rparr> in Some (Result s, s))
     }"

definition ESP8266_SetAutoConnect :: "u8 \<Rightarrow> esp \<Rightarrow> (ESP8266_Result_t \<times> esp) option" where
  "ESP8266_SetAutoConnect Autoconn s =
     check_idle s (\<lambda>s. do {
       (_, s) \<leftarrow> SendCommand CMD_AUTOCONN None Null (send_all [ascii ''AT+CWAUTOCONN='', [Autoconn + 0x30], EOL] s);
       ESP8266_WaitReady s
     })"

section \<open>Connections as client\<close>

text \<open>The search for a free connection; \<open>None\<close> inside the sum is the error of a second SSL connection.\<close>

fun free_conn :: "conn_type \<Rightarrow> nat \<Rightarrow> ESP8266_Connection_t list \<Rightarrow> nat option option" where
  "free_conn ty i [] = Some None"
| "free_conn ty i (c # cs) =
     (if \<not> Active c then Some (Some i)
      else if ty = CONN_SSL \<and> Client c \<and> ConnType c = CONN_SSL then None
      else free_conn ty (i + 1) cs)"

definition start_client :: "conn_type \<Rightarrow> ctext \<Rightarrow> u16 \<Rightarrow> esp \<Rightarrow> (ESP8266_Result_t \<times> esp) option" where
  "start_client ty location port s =
     check_idle s (\<lambda>s. check_wifi s (\<lambda>s.
       case free_conn ty 0 (take ESP8266_MAX_CONNECTIONS (Connection s)) of
         None \<Rightarrow> ret ESP_ERROR s
       | Some None \<Rightarrow> ret ESP_ERROR s
       | Some (Some i) \<Rightarrow>
           do {
             tmp \<leftarrow> Int2String 6 (ucast port);
             bind_ok (SendCommand CMD_CIPSTART None Null
               (send_all [ascii ''AT+CIPSTART='', [of_nat i + 0x30],
                  0x2C # 0x22 # (if ty = CONN_SSL then ascii ''SSL'' else ascii ''TCP'') @ [0x22, 0x2C, 0x22],
                  location, [0x22, 0x2C], tmp, EOL] s)) (\<lambda>s. do {
               c \<leftarrow> conn_at (int i) s;
               let s = set_conn (int i) (c\<lparr>Active := True, Client := True, ConnType := ty, ConnTotalBytes := 0,
                         Number := of_nat i, DataPtr := True\<rparr>) s;
               ret ESP_OK (s\<lparr>StartConnectionSent := int i\<rparr>)
             })
           }))"

definition ESP8266_StartClientConnectionTCP :: "ctext \<Rightarrow> u16 \<Rightarrow> esp \<Rightarrow> (ESP8266_Result_t \<times> esp) option" where
  "ESP8266_StartClientConnectionTCP location port s = start_client CONN_TCP location port s"

definition ESP8266_StartClientConnectionSSL :: "ctext \<Rightarrow> u16 \<Rightarrow> esp \<Rightarrow> (ESP8266_Result_t \<times> esp) option" where
  "ESP8266_StartClientConnectionSSL location port s = start_client CONN_SSL location port s"

definition ESP8266_SetSSLBufferSize :: "u16 \<Rightarrow> esp \<Rightarrow> (ESP8266_Result_t \<times> esp) option" where
  "ESP8266_SetSSLBufferSize buffersize s =
     check_idle s (\<lambda>s. do {
       buff \<leftarrow> Int2String 6 (ucast buffersize);
       (_, s) \<leftarrow> SendCommand CMD_SSLBUFFERSIZE None Null (send_all [ascii ''AT+CIPSSLSIZE='', buff, EOL] s);
       ESP8266_WaitReady s
     })"

definition ESP8266_Ping :: "ctext \<Rightarrow> esp \<Rightarrow> (ESP8266_Result_t \<times> esp) option" where
  "ESP8266_Ping addr s =
     check_idle s (\<lambda>s. check_wifi s (\<lambda>s. do {
       (r, s) \<leftarrow> SendCommand CMD_PING None (Literal (ascii ''+''))
                 (send_all [ascii ''AT+PING='' @ [0x22], addr, 0x22 # EOL] (s\<lparr>PingSuccess := False\<rparr>));
       let s = (if r = ESP_OK then call PingStarted s else s);
       Some (Result s, s)
     }))"

section \<open>Start and end\<close>

definition ESP8266_RestoreDefault :: "esp \<Rightarrow> (ESP8266_Result_t \<times> esp) option" where
  "ESP8266_RestoreDefault s =
     bind_ok (SendCommand CMD_RESTORE (Some (line ''AT+RESTORE'')) (Literal (line ''ready'')) s) (\<lambda>s. do {
       s \<leftarrow> ESP8266_DELAYMS 2 s;
       (_, s) \<leftarrow> ESP8266_WaitReady (esp8266_UART_init ESP8266_DEFAULT_BAUDRATE s);
       ret ESP_OK (s\<lparr>USART_Buffer := BUFFER_Reset (USART_Buffer s)\<rparr>)
     })"

text \<open>\<^verbatim>\<open>while (f(ESP8266) != ESP_OK);\<close>: a tick before every call.\<close>

partial_function (option) retry :: "(esp \<Rightarrow> (ESP8266_Result_t \<times> esp) option) \<Rightarrow> esp \<Rightarrow> esp option" where
  "retry f s =
     (case ticks s of
        [] \<Rightarrow> None
      | k # ks \<Rightarrow>
          do {
            s \<leftarrow> tick k (s\<lparr>ticks := ks\<rparr>);
            (r, s) \<leftarrow> f s;
            if r = ESP_OK then Some s else retry f s
          })"

definition reset_module :: "esp \<Rightarrow> esp option" where
  "reset_module s =
     do {
       let s = (esp8266_UART_init (Baudrate s) s)\<lparr>Timeout := 1000\<rparr>;
       (_, s) \<leftarrow> SendCommand CMD_RST (Some (line ''AT+RST'')) (Literal (line ''ready'')) s;
       (_, s) \<leftarrow> ESP8266_WaitReady s;
       Some s
     }"

definition ESP8266_Baudrate :: "u32 list" where
  "ESP8266_Baudrate = [9600, 57600, 115200, 921600]"

text \<open>The attempts at the predefined rates.\<close>

fun try_rates :: "u32 list \<Rightarrow> esp \<Rightarrow> esp option" where
  "try_rates [] s = Some s"
| "try_rates (r # rs) s =
     do {
       s \<leftarrow> reset_module s;
       if LastOperationStatus s then Some (s\<lparr>Baudrate := r\<rparr>) else try_rates rs s
     }"

text \<open>The set-up of the module once it answers.\<close>

definition init_settings :: "esp \<Rightarrow> (ESP8266_Result_t \<times> esp) option" where
  "init_settings s =
     do {
       (_, s) \<leftarrow> SendCommand CMD_ATE (Some (line ''ATE0'')) (Literal (ascii ''ATE0'')) s;
       (_, s) \<leftarrow> ESP8266_WaitReady s;
       s \<leftarrow> retry (ESP8266_SetMux 1) s;
       s \<leftarrow> retry (ESP8266_Setdinfo 1) s;
       s \<leftarrow> retry (ESP8266_SetMode 3) s;
       s \<leftarrow> retry ESP8266_GetSTAMAC s;
       s \<leftarrow> retry ESP8266_GetAPMAC s;
       s \<leftarrow> retry ESP8266_GetAPIP s;
       ESP8266_WaitReady s
     }"

definition ESP8266_Init :: "u32 \<Rightarrow> esp \<Rightarrow> (ESP8266_Result_t \<times> esp) option" where
  "ESP8266_Init baudrate s =
     do {
       let s = s\<lparr>Timeout := 0\<rparr>;
       let (r, B) = BUFFER_Init (\<lambda>_. None) ESP8266_TMPBUFFER_SIZE (Some (replicate (unat ESP8266_TMPBUFFER_SIZE) 0));
       let s = s\<lparr>TMP_Buffer := Some B\<rparr>;
       if r \<noteq> 0 then ret ESP_NOHEAP s
       else do {
         let (r, B) = BUFFER_Init (\<lambda>_. None) ESP8266_USARTBUFFER_SIZE (Some (replicate (unat ESP8266_USARTBUFFER_SIZE) 0));
         let s = s\<lparr>USART_Buffer := Some B\<rparr>;
         if r \<noteq> 0 then ret ESP_NOHEAP s
         else do {
           s \<leftarrow> ESP8266_DELAYMS 100 s;
           s \<leftarrow> ESP8266_DELAYMS 100 s;
           s \<leftarrow> reset_module (s\<lparr>Baudrate := baudrate\<rparr>);
           s \<leftarrow> (if \<not> LastOperationStatus s then try_rates ESP8266_Baudrate s else Some s);
           if \<not> LastOperationStatus s then ret ESP_DEVICENOTCONNECTED s
           else do {
             (_, s) \<leftarrow> SendCommand CMD_AT (Some (line ''AT'')) (Literal (line ''OK'')) (s\<lparr>Timeout := ESP8266_TIMEOUT\<rparr>);
             (_, s) \<leftarrow> ESP8266_WaitReady s;
             if \<not> LastOperationStatus s then ret ESP_DEVICENOTCONNECTED s else init_settings s
           }
         }
       }
     }"

definition ESP8266_DeInit :: "esp \<Rightarrow> (ESP8266_Result_t \<times> esp) option" where
  "ESP8266_DeInit s = ret ESP_OK (s\<lparr>TMP_Buffer := BUFFER_Free (TMP_Buffer s), USART_Buffer := BUFFER_Free (USART_Buffer s)\<rparr>)"

end
