(* ===== verification/Esp8266_Wf.thy ===== *)
theory Esp8266_Wf
  imports Esp8266_Driver
begin

text \<open>
  The well-formedness of the WiFi driver's state: the sizes of its tables and arrays and the state of its two
  cyclic buffers, kept by every step of the update function.
\<close>

section \<open>Reading a line from a buffer\<close>

lemma buf_read_string_total:
  assumes "buf_wf B" "unat i + n < length buff" "length buff < 2 ^ 32"
  shows "\<exists>i' buff' B' k. buf_read_string n B buff ch i = Some (i', buff', B') \<and> buf_wf B' \<and> Size B' = Size B \<and>
     StringDelimiter B' = StringDelimiter B \<and> length buff' = length buff \<and> unat i' \<le> unat i + n \<and>
     buf_contents B' = drop k (buf_contents B) \<and> (0 < n \<longrightarrow> 0 < k)"
  using assms
proof (induction n arbitrary: B buff ch i)
  case 0
  then show ?case by (auto intro: exI [of _ 0])
next
  case (Suc n)
  obtain m B1 where r: "BUFFER_Read (Some B) [ch] 1 = Some (m, take (unat m) (buf_contents B) @ drop (unat m) [ch], Some B1)"
      "buf_wf B1" "unat m = min 1 (length (buf_contents B))" "buf_contents B1 = drop (unat m) (buf_contents B)"
      "Size B1 = Size B" "StringDelimiter B1 = StringDelimiter B"
    using BUFFER_Read_spec [OF Suc.prems(1), of 1 "[ch]"] by auto
  then obtain v where v: "BUFFER_Read (Some B) [ch] 1 = Some (m, [v], Some B1)" and c1: "buf_contents B1 = drop 1 (buf_contents B)"
    by (cases "buf_contents B") auto
  have il: "unat i < length buff" using Suc.prems by simp
  have inc: "unat (i + 1) = Suc (unat i)" using Suc.prems by (simp add: unat_Suc_small)
  show ?case
  proof (cases "v = StringDelimiter B")
    case True
    then show ?thesis
      using v r c1 il by (intro exI [of _ i] exI [of _ "buff[unat i := v]"] exI [of _ B1] exI [of _ 1]) (simp add: mem_simps)
  next
    case False
    obtain i' buff' B' k where "buf_read_string n B1 (buff[unat i := v]) v (i + 1) = Some (i', buff', B')" "buf_wf B'"
      "Size B' = Size B1" "StringDelimiter B' = StringDelimiter B1" "length buff' = length buff"
      "unat i' \<le> unat (i + 1) + n" "buf_contents B' = drop k (buf_contents B1)"
      using Suc.IH [OF r(2), of "i + 1" "buff[unat i := v]" v] Suc.prems inc by auto
    then show ?thesis
      using v r(2,5,6) c1 il False inc
      by (intro exI [of _ i'] exI [of _ buff'] exI [of _ B'] exI [of _ "k + 1"]) (simp add: mem_simps)
  qed
qed

text \<open>A driver buffer: initialised, of a fixed size, with the newline as delimiter.\<close>

definition buf_ok :: "u32 \<Rightarrow> BUFFER_t option \<Rightarrow> bool" where
  "buf_ok sz b \<longleftrightarrow> (case b of None \<Rightarrow> False | Some B \<Rightarrow> buf_wf B \<and> Size B = sz \<and> StringDelimiter B = 0x0A)"

definition contents :: "BUFFER_t option \<Rightarrow> u8 list" where
  "contents b = (case b of None \<Rightarrow> [] | Some B \<Rightarrow> buf_contents B)"

lemma buf_ok_Some: "buf_ok sz b \<longleftrightarrow> (\<exists>B. b = Some B \<and> buf_wf B \<and> Size B = sz \<and> StringDelimiter B = 0x0A)"
  by (auto simp: buf_ok_def split: option.splits)

lemma ReadString_ok:
  assumes "buf_ok sz b" "sz \<le> 1024"
  shows "\<exists>n R b'. BUFFER_ReadString b (replicate RECEIVED_SIZE 0) (of_nat RECEIVED_SIZE) = Some (n, R, b') \<and> buf_ok sz b' \<and>
     unat n \<le> 127 \<and> length R = 128 \<and> (n \<noteq> 0 \<longrightarrow> length (contents b') < length (contents b)) \<and>
     (n = 0 \<longrightarrow> b' = b)"
proof -
  obtain B where B: "b = Some B" "buf_wf B" "Size B = sz" "StringDelimiter B = 0x0A"
    using assms(1) by (auto simp: buf_ok_Some)
  have small: "unat (Size B) \<le> 2 ^ 31"
    using assms(2) B(3) by (simp add: word_le_nat_alt)
  obtain pos where pos: "BUFFER_FindElement (Some B) (StringDelimiter B) = Some pos"
    using buf_FindElement_spec [OF B(2) small, of "StringDelimiter B"] by auto
  let ?full = "BUFFER_GetFull (Some B)"
  show ?thesis
  proof (cases "?full = 0 \<or> (pos < 0 \<and> BUFFER_GetFree (Some B) \<noteq> 0 \<and> ?full < 128)")
    case True
    then show ?thesis
      using B pos assms(1) by (simp add: BUFFER_ReadString_def RECEIVED_SIZE_def)
  next
    case False
    have ne: "buf_contents B \<noteq> []"
      using False unat_GetFull [OF B(2)] by (metis length_0_conv unat_eq_zero)
    obtain i R B' k where r: "buf_read_string 127 B (replicate 128 0) 0 0 = Some (i, R, B')" "buf_wf B'" "Size B' = Size B"
        "StringDelimiter B' = StringDelimiter B" "length R = 128" "unat i \<le> 127" "buf_contents B' = drop k (buf_contents B)" "0 < k"
      using buf_read_string_total [OF B(2), of 0 127 "replicate 128 0" 0] by auto
    have i1: "i \<noteq> 127 \<Longrightarrow> unat (i + 1) = Suc (unat i) \<and> Suc (unat i) < 128"
      using r(6) by (auto simp: unat_Suc_small word_unat_eq_iff)
    have shorter: "length (buf_contents B') < length (buf_contents B)"
      using ne r(7,8) by (simp del: length_greater_0_conv add: length_greater_0_conv [symmetric])
    show ?thesis
      using False B pos r i1 shorter
      by (cases "i = 127") (auto simp: BUFFER_ReadString_def RECEIVED_SIZE_def mem_simps buf_ok_def contents_def)
  qed
qed

lemma Write_ok:
  assumes "buf_ok sz b" "unat n \<le> length bs"
  shows "\<exists>m b'. BUFFER_Write b bs n = Some (m, b') \<and> buf_ok sz b' \<and> contents b' = contents b @ take (unat m) bs \<and>
     unat m = min (unat n) (unat sz - 1 - length (contents b))"
proof -
  obtain B where B: "b = Some B" "buf_wf B" "Size B = sz" "StringDelimiter B = 0x0A"
    using assms(1) by (auto simp: buf_ok_Some)
  then show ?thesis
    using BUFFER_Write_spec [OF B(2) assms(2)] by (auto simp: buf_ok_def contents_def buf_room_def)
qed

lemma Read_ok:
  assumes "buf_ok sz b" "unat n \<le> length d"
  shows "\<exists>m b'. BUFFER_Read b d n = Some (m, take (unat m) (contents b) @ drop (unat m) d, b') \<and> buf_ok sz b' \<and>
     contents b' = drop (unat m) (contents b) \<and> unat m = min (unat n) (length (contents b))"
proof -
  obtain B where B: "b = Some B" "buf_wf B" "Size B = sz" "StringDelimiter B = 0x0A"
    using assms(1) by (auto simp: buf_ok_Some)
  then show ?thesis
    using BUFFER_Read_spec [OF B(2) assms(2)] by (auto simp: buf_ok_def contents_def)
qed

lemma Reset_ok: "buf_ok sz b \<Longrightarrow> 0 < sz \<Longrightarrow> buf_ok sz (BUFFER_Reset b)"
  by (auto simp: buf_ok_def BUFFER_Reset_def buf_wf_def buf_mem_def split: option.splits)

section \<open>The invariant\<close>

definition conn_wf :: "ESP8266_Connection_t \<Rightarrow> bool" where
  "conn_wf c \<longleftrightarrow> length (RemoteIP c) = 4"

definition ap_wf :: "ESP8266_AP_t \<Rightarrow> bool" where
  "ap_wf a \<longleftrightarrow> length (ApSSID a) = 20 \<and> length (ApMAC a) = 6"

definition esp_wf :: "esp \<Rightarrow> bool" where
  "esp_wf s \<longleftrightarrow>
     length (Connection s) = ESP8266_MAX_CONNECTIONS \<and> list_all conn_wf (Connection s) \<and>
     length (ConnectionData s) = ESP8266_CONNECTION_BUFFER_SIZE \<and>
     length (STAIP s) = 4 \<and> length (STAGateway s) = 4 \<and> length (STANetmask s) = 4 \<and> length (STAMAC s) = 6 \<and>
     length (APIP s) = 4 \<and> length (APGateway s) = 4 \<and> length (APNetmask s) = 4 \<and> length (APMAC s) = 6 \<and>
     length (CW_SSID s) = 16 \<and> length (CW_MAC s) = 6 \<and>
     length (APs s) = 10 \<and> list_all ap_wf (APs s) \<and>
     length (Stations s) = ESP8266_MAX_CONNECTEDSTATIONS \<and> list_all (\<lambda>(ip, mac). length ip = 4 \<and> length mac = 6) (Stations s) \<and>
     buf_ok ESP8266_TMPBUFFER_SIZE (TMP_Buffer s) \<and> buf_ok ESP8266_USARTBUFFER_SIZE (USART_Buffer s)"

named_theorems wf_keep \<open>operations that keep the well-formedness\<close>

lemma esp_wf_call [simp]: "esp_wf (call e s) = esp_wf s"
  by (simp add: esp_wf_def call_def)

lemma esp_wf_send [simp]: "esp_wf (esp8266_SendString bs s) = esp_wf s"
  by (simp add: esp_wf_def esp8266_SendString_def)

lemma conn_at_wf: "esp_wf s \<Longrightarrow> conn_at i s = Some c \<Longrightarrow> conn_wf c"
  by (auto simp: esp_wf_def conn_at_def list_all_length split: if_splits)

lemma conn_at_wf_imp: "conn_at i s = Some c \<Longrightarrow> esp_wf s \<longrightarrow> conn_wf c"
  using conn_at_wf by blast

lemma list_all_update: "list_all P xs \<Longrightarrow> P x \<Longrightarrow> list_all P (xs[i := x])"
  using set_update_subset_insert [of xs i x] by (auto simp: list_all_iff)

lemma esp_wf_set_conn [wf_keep]: "esp_wf s \<Longrightarrow> conn_wf c \<Longrightarrow> esp_wf (set_conn i c s)"
  by (simp add: esp_wf_def set_conn_def list_all_update)

lemma conn_wf_simps [simp]:
  "conn_wf (c\<lparr>Active := a\<rparr>) = conn_wf c" "conn_wf (c\<lparr>Number := n\<rparr>) = conn_wf c" "conn_wf (c\<lparr>Client := b\<rparr>) = conn_wf c"
  "conn_wf (c\<lparr>RemotePort := p\<rparr>) = conn_wf c" "conn_wf (c\<lparr>ConnType := ty\<rparr>) = conn_wf c"
  "conn_wf (c\<lparr>BytesReceived := v\<rparr>) = conn_wf c" "conn_wf (c\<lparr>ConnTotalBytes := v\<rparr>) = conn_wf c"
  "conn_wf (c\<lparr>ConnWaitForWrapper := b\<rparr>) = conn_wf c" "conn_wf (c\<lparr>WaitingSentRespond := b\<rparr>) = conn_wf c"
  "conn_wf (c\<lparr>DataPtr := b\<rparr>) = conn_wf c" "conn_wf (c\<lparr>DataSize := z\<rparr>) = conn_wf c" "conn_wf (c\<lparr>LastPart := b\<rparr>) = conn_wf c"
  "conn_wf (c\<lparr>CallDataReceived := b\<rparr>) = conn_wf c" "conn_wf (c\<lparr>ContentLength := v\<rparr>) = conn_wf c"
  "conn_wf (c\<lparr>HeadersDone := b\<rparr>) = conn_wf c" "conn_wf (c\<lparr>FirstPacket := b\<rparr>) = conn_wf c"
  "conn_wf (c\<lparr>RemoteIP := ip\<rparr>) = (length ip = 4)" "conn_wf conn0"
  "conn_wf (ESP8266_RESETCONNECTION c) = conn_wf c"
  by (simp_all add: conn_wf_def conn0_def ESP8266_RESETCONNECTION_def)

lemma esp_wf_simps [simp]:
  "esp_wf (s\<lparr>Baudrate := v\<rparr>) = esp_wf s" "esp_wf (s\<lparr>ActiveCommand := cmd\<rparr>) = esp_wf s"
  "esp_wf (s\<lparr>ActiveCommandResponse := p\<rparr>) = esp_wf s" "esp_wf (s\<lparr>StartTime := v\<rparr>) = esp_wf s" "esp_wf (s\<lparr>Time := v\<rparr>) = esp_wf s"
  "esp_wf (s\<lparr>LastReceivedTime := v\<rparr>) = esp_wf s" "esp_wf (s\<lparr>Timeout := v\<rparr>) = esp_wf s"
  "esp_wf (s\<lparr>SentMode := m\<rparr>) = esp_wf s" "esp_wf (s\<lparr>Mode := m\<rparr>) = esp_wf s"
  "esp_wf (s\<lparr>InIPD := b\<rparr>) = esp_wf s" "esp_wf (s\<lparr>InPtr := h\<rparr>) = esp_wf s" "esp_wf (s\<lparr>PtrTotal := h\<rparr>) = esp_wf s"
  "esp_wf (s\<lparr>ConnNumber := m\<rparr>) = esp_wf s" "esp_wf (s\<lparr>IPD_USART := b\<rparr>) = esp_wf s"
  "esp_wf (s\<lparr>PingTime := v\<rparr>) = esp_wf s" "esp_wf (s\<lparr>PingSuccess := b\<rparr>) = esp_wf s"
  "esp_wf (s\<lparr>WifiConnectError := i\<rparr>) = esp_wf s" "esp_wf (s\<lparr>StartConnectionSent := i\<rparr>) = esp_wf s"
  "esp_wf (s\<lparr>StationCount := k\<rparr>) = esp_wf s" "esp_wf (s\<lparr>TotalBytesReceived := v\<rparr>) = esp_wf s"
  "esp_wf (s\<lparr>TotalBytesSent := v\<rparr>) = esp_wf s" "esp_wf (s\<lparr>SendDataConnection := q\<rparr>) = esp_wf s"
  "esp_wf (s\<lparr>WaitForWrapper := b\<rparr>) = esp_wf s" "esp_wf (s\<lparr>LastOperationStatus := b\<rparr>) = esp_wf s"
  "esp_wf (s\<lparr>WifiConnected := b\<rparr>) = esp_wf s" "esp_wf (s\<lparr>WifiGotIP := b\<rparr>) = esp_wf s" "esp_wf (s\<lparr>Result := r\<rparr>) = esp_wf s"
  "esp_wf (s\<lparr>APs_Count := k\<rparr>) = esp_wf s" "esp_wf (s\<lparr>uart_baud := vs\<rparr>) = esp_wf s" "esp_wf (s\<lparr>ticks := ts\<rparr>) = esp_wf s"
  by (simp_all add: esp_wf_def)

lemma esp_wf_more [simp]:
  "esp_wf (s\<lparr>STAIPIsSet := b\<rparr>) = esp_wf s" "esp_wf (s\<lparr>STANetmaskIsSet := b\<rparr>) = esp_wf s"
  "esp_wf (s\<lparr>STAGatewayIsSet := b\<rparr>) = esp_wf s" "esp_wf (s\<lparr>STAMACIsSet := b\<rparr>) = esp_wf s"
  "esp_wf (s\<lparr>APIPIsSet := b\<rparr>) = esp_wf s" "esp_wf (s\<lparr>APNetmaskIsSet := b\<rparr>) = esp_wf s"
  "esp_wf (s\<lparr>APGatewayIsSet := b\<rparr>) = esp_wf s" "esp_wf (s\<lparr>APMACIsSet := b\<rparr>) = esp_wf s"
  "esp_wf (s\<lparr>AP_SSID := o1\<rparr>) = esp_wf s" "esp_wf (s\<lparr>AP_Pass := o1\<rparr>) = esp_wf s" "esp_wf (s\<lparr>AP_Ecn := u\<rparr>) = esp_wf s"
  "esp_wf (s\<lparr>AP_Channel := u\<rparr>) = esp_wf s" "esp_wf (s\<lparr>AP_MaxConnections := u\<rparr>) = esp_wf s"
  "esp_wf (s\<lparr>AP_Hidden := u\<rparr>) = esp_wf s" "esp_wf (s\<lparr>CW_Channel := u\<rparr>) = esp_wf s" "esp_wf (s\<lparr>CW_RSSI := h\<rparr>) = esp_wf s"
  by (simp_all add: esp_wf_def)

text \<open>A fact about an optional result is a fact about the value, if there is one.\<close>

lemma pred_bind: "pred_option P (Option.bind m k) \<longleftrightarrow> pred_option (\<lambda>x. pred_option P (k x)) m"
  by (cases m) auto

lemma pred_bind_le: "pred_option Q m \<Longrightarrow> (\<And>x. Q x \<Longrightarrow> pred_option P (k x)) \<Longrightarrow> pred_option P (Option.bind m k)"
  by (cases m) auto

lemma c_upd_length: "c_upd a i v = Some a' \<Longrightarrow> length a' = length a"
  by (auto simp: c_upd_def split: if_splits)

lemma length_ip_loop: "length (fst (ip_loop x i arr t)) = length arr"
  by (induction x i arr t rule: ip_loop.induct) (subst ip_loop.simps, auto split: option.splits prod.splits simp: Let_def)

lemma length_ParseIP: "ParseIP mem arr = Some (a, c) \<Longrightarrow> length a = length arr"
  using length_ip_loop [of 0 0 arr] by (auto simp: ParseIP_def split: if_splits dest!: arg_cong [of _ _ fst])

lemma length_mac_loop: "length (fst (mac_loop x arr acc t)) = length arr"
  by (induction x arr acc t rule: mac_loop.induct) (subst mac_loop.simps, auto split: option.splits prod.splits simp: Let_def)

lemma length_ParseMAC: "length (fst (ParseMAC t arr)) = length arr"
  by (simp add: ParseMAC_def length_mac_loop)

lemma length_copy_until: "copy_until stop t a i = Some (a', r) \<Longrightarrow> length a' = length a"
  by (induction stop t a i arbitrary: a' r rule: copy_until.induct)
     (auto simp: bind_eq_Some_conv split: if_splits dest: c_upd_length)

lemma esp_wf_fields:
  assumes "esp_wf s"
  shows "length (Connection s) = 5" "length (ConnectionData s) = 5842" "length (STAIP s) = 4" "length (STAGateway s) = 4"
    "length (STANetmask s) = 4" "length (STAMAC s) = 6" "length (APIP s) = 4" "length (APGateway s) = 4"
    "length (APNetmask s) = 4" "length (APMAC s) = 6" "length (CW_SSID s) = 16" "length (CW_MAC s) = 6"
    "length (APs s) = 10" "list_all ap_wf (APs s)" "length (Stations s) = 10"
    "list_all (\<lambda>(ip, mac). length ip = 4 \<and> length mac = 6) (Stations s)"
    "buf_ok ESP8266_TMPBUFFER_SIZE (TMP_Buffer s)" "buf_ok ESP8266_USARTBUFFER_SIZE (USART_Buffer s)" "list_all conn_wf (Connection s)"
  using assms by (simp_all add: esp_wf_def ESP8266_MAX_CONNECTIONS_def ESP8266_CONNECTION_BUFFER_SIZE_def
      ESP8266_MAX_CONNECTEDSTATIONS_def)

lemma esp_wf_arrays:
  "esp_wf s \<Longrightarrow> length a = 4 \<Longrightarrow> esp_wf (s\<lparr>STAIP := a\<rparr>)" "esp_wf s \<Longrightarrow> length a = 4 \<Longrightarrow> esp_wf (s\<lparr>STANetmask := a\<rparr>)"
  "esp_wf s \<Longrightarrow> length a = 4 \<Longrightarrow> esp_wf (s\<lparr>STAGateway := a\<rparr>)" "esp_wf s \<Longrightarrow> length a = 6 \<Longrightarrow> esp_wf (s\<lparr>STAMAC := a\<rparr>)"
  "esp_wf s \<Longrightarrow> length a = 4 \<Longrightarrow> esp_wf (s\<lparr>APIP := a\<rparr>)" "esp_wf s \<Longrightarrow> length a = 4 \<Longrightarrow> esp_wf (s\<lparr>APNetmask := a\<rparr>)"
  "esp_wf s \<Longrightarrow> length a = 4 \<Longrightarrow> esp_wf (s\<lparr>APGateway := a\<rparr>)" "esp_wf s \<Longrightarrow> length a = 6 \<Longrightarrow> esp_wf (s\<lparr>APMAC := a\<rparr>)"
  "esp_wf s \<Longrightarrow> length a = 16 \<Longrightarrow> esp_wf (s\<lparr>CW_SSID := a\<rparr>)" "esp_wf s \<Longrightarrow> length a = 6 \<Longrightarrow> esp_wf (s\<lparr>CW_MAC := a\<rparr>)"
  "esp_wf s \<Longrightarrow> length a = 5842 \<Longrightarrow> esp_wf (s\<lparr>ConnectionData := a\<rparr>)"
  "esp_wf s \<Longrightarrow> buf_ok ESP8266_TMPBUFFER_SIZE b \<Longrightarrow> esp_wf (s\<lparr>TMP_Buffer := b\<rparr>)"
  "esp_wf s \<Longrightarrow> buf_ok ESP8266_USARTBUFFER_SIZE b \<Longrightarrow> esp_wf (s\<lparr>USART_Buffer := b\<rparr>)"
  "esp_wf s \<Longrightarrow> ap_wf ap \<Longrightarrow> esp_wf (s\<lparr>APs := (APs s)[n := ap]\<rparr>)"
  "esp_wf s \<Longrightarrow> length ip = 4 \<Longrightarrow> length mac = 6 \<Longrightarrow> esp_wf (s\<lparr>Stations := (Stations s)[n := (ip, mac)]\<rparr>)"
  by (simp_all add: esp_wf_def list_all_update ESP8266_CONNECTION_BUFFER_SIZE_def)

lemmas parse_lengths = length_ParseIP length_copy_until c_upd_length c_memcpy_length

lemma ParseCWSAP_wf [wf_keep]: "esp_wf s \<Longrightarrow> ParseCWSAP t s = Some s' \<Longrightarrow> esp_wf s'"
  by (auto simp: ParseCWSAP_def Let_def bind_eq_Some_conv case_prod_beta)

lemma ParseCIPSTA_wf [wf_keep]: "esp_wf s \<Longrightarrow> ParseCIPSTA t s = Some s' \<Longrightarrow> esp_wf s'"
  by (auto simp: ParseCIPSTA_def bind_eq_Some_conv split: if_splits intro!: esp_wf_arrays dest!: length_ParseIP simp: esp_wf_fields)

lemma ParseCWLIF_wf [wf_keep]:
  assumes "esp_wf s" "ParseCWLIF t s = Some s'"
  shows "esp_wf s'"
proof -
  have "c_nth (Stations s) k = Some (ip, mac) \<Longrightarrow> length ip = 4 \<and> length mac = 6" for k ip mac
    using esp_wf_fields(16) [OF assms(1)] by (fastforce simp: c_nth_def list_all_length split: if_splits)
  then show ?thesis
    using assms
    by (auto simp: ParseCWLIF_def bind_eq_Some_conv Let_def case_prod_beta length_ParseMAC
        split: if_splits intro!: esp_wf_arrays dest!: length_ParseIP)
qed

lemma ParseCWJAP_wf [wf_keep]: "esp_wf s \<Longrightarrow> ParseCWJAP t s = Some s' \<Longrightarrow> esp_wf s'"
  by (auto simp: ParseCWJAP_def bind_eq_Some_conv Let_def case_prod_beta length_ParseMAC esp_wf_fields
        split: if_splits intro!: esp_wf_arrays dest!: length_copy_until)

lemma cwlap_token_wf: "ap_wf ap \<Longrightarrow> cwlap_token n tok rest ap = Some (ap', r) \<Longrightarrow> ap_wf ap'"
  by (auto simp: cwlap_token_def ap_wf_def Let_def case_prod_beta length_ParseMAC bind_eq_Some_conv split: if_splits
      dest!: c_memcpy_length)

lemma cwlap_loop_wf: "ap_wf ap \<Longrightarrow> cwlap_loop k n t ap = Some ap' \<Longrightarrow> ap_wf ap'"
proof (induction k arbitrary: n t ap)
  case (Suc k)
  then show ?case
    by (auto simp: bind_eq_Some_conv split: option.splits) (metis cwlap_token_wf)
qed simp

lemma ParseCWLAP_wf [wf_keep]:
  assumes "esp_wf s" "ParseCWLAP t s = Some s'"
  shows "esp_wf s'"
proof (cases "APs_Count s \<ge> ESP8266_MAX_CONNECTIONS")
  case True
  then show ?thesis
    using assms by (simp add: ParseCWLAP_def)
next
  case False
  then obtain u ap ap' where "c_nth (APs s) (APs_Count s) = Some ap" "cwlap_loop (Suc (length u)) 0 u ap = Some ap'"
      and s': "s' = s\<lparr>APs := (APs s)[APs_Count s := ap'], APs_Count := APs_Count s + 1\<rparr>"
    using assms(2) by (auto simp: ParseCWLAP_def bind_eq_Some_conv Let_def simp del: cwlap_loop.simps)
  moreover have "c_nth (APs s) k = Some ap \<Longrightarrow> ap_wf ap" for k ap
    using esp_wf_fields(14) [OF assms(1)] by (auto simp: c_nth_def list_all_length split: if_splits)
  ultimately have "ap_wf ap'"
    using cwlap_loop_wf by blast
  then show ?thesis
    unfolding s' using esp_wf_arrays(14) [OF assms(1)] by simp
qed

section \<open>A line keeps the invariant\<close>

lemma fold_wf: "(\<And>n s. esp_wf s \<Longrightarrow> n \<in> set ns \<Longrightarrow> esp_wf (f n s)) \<Longrightarrow> esp_wf s \<Longrightarrow> esp_wf (fold f ns s)"
  by (induction ns arbitrary: s) auto

lemma conn_nth_wf: "esp_wf s \<Longrightarrow> n < 5 \<Longrightarrow> conn_wf (Connection s ! n)"
  using esp_wf_fields(1,19) by (auto simp: list_all_length)

lemma CallConnectionCallbacks_wf [wf_keep]: "esp_wf s \<Longrightarrow> esp_wf (CallConnectionCallbacks s)"
  unfolding CallConnectionCallbacks_def
  by (rule fold_wf) (auto simp: data_received_def Let_def ESP8266_MAX_CONNECTIONS_def conn_nth_wf intro!: esp_wf_set_conn)

lemma pr_send_ok_wf [wf_keep]: "esp_wf s \<Longrightarrow> esp_wf (pr_send_ok R s)"
  unfolding pr_send_ok_def
  by (auto simp: data_sent_def Let_def ESP8266_MAX_CONNECTIONS_def conn_nth_wf intro!: esp_wf_set_conn fold_wf)

lemma pr_reset_wf [wf_keep]: "esp_wf s \<Longrightarrow> esp_wf (pr_reset R s)"
  by (simp add: pr_reset_def)

lemma pr_wifi_wf [wf_keep]: "esp_wf s \<Longrightarrow> esp_wf (pr_wifi R s)"
  by (auto simp: pr_wifi_def esp_wf_def list_all_length call_def)

lemma end_cipstart_wf [simp]: "esp_wf (end_cipstart s) = esp_wf s"
  by (simp add: end_cipstart_def)

lemma pr_closed_wf:
  assumes "esp_wf s" "9 < length R" "p = length R - 9 + q" "q = 0" "pr_closed R p s = Some s'"
  shows "esp_wf s'"
proof -
  obtain m b where "BUFFER_Write (TMP_Buffer s) (drop (p - 1) R) 10 = Some (m, b)" "buf_ok ESP8266_TMPBUFFER_SIZE b"
    using Write_ok [OF esp_wf_fields(17) [OF assms(1)], of 10 "drop (p - 1) R"] assms(2-4) by auto
  then show ?thesis
    using assms(1,5) by (auto simp: pr_closed_def Let_def bind_eq_Some_conv conn_at_wf split: if_splits
        intro!: esp_wf_arrays esp_wf_set_conn)
qed

lemma mem_mem_exact: "mem_mem h n = Some p \<Longrightarrow> length h = length n \<Longrightarrow> p = 0"
  by (auto simp: mem_mem_def split: if_splits)

lemma pr_connection_wf [wf_keep]:
  assumes "esp_wf s" "pr_connection R s = Some s'"
  shows "esp_wf s'"
proof -
  have opened: "pr_opened R p s = Some s' \<Longrightarrow> esp_wf s'" for p
    using assms(1) by (auto simp: pr_opened_def Let_def bind_eq_Some_conv conn_at_wf intro!: esp_wf_set_conn)
  have failed: "pr_failed R p s = Some s' \<Longrightarrow> esp_wf s'" for p
    using assms(1) by (auto simp: pr_failed_def Let_def bind_eq_Some_conv conn_at_wf intro!: esp_wf_set_conn)
  have closed: "mem_mem (drop (length R - 9) R) (line '',CLOSED'') = Some q \<Longrightarrow> 9 < length R \<Longrightarrow>
      pr_closed R (length R - 9 + q) s = Some s' \<Longrightarrow> esp_wf s'" for q
    using pr_closed_wf [OF assms(1) _ refl] mem_mem_exact [of "drop (length R - 9) R" "line '',CLOSED''" q]
    by (auto simp: line_def ascii_def)
  show ?thesis
    using assms opened failed closed by (auto simp: pr_connection_def Let_def split: option.splits if_splits)
qed

lemma pr_ipd_wf [wf_keep]:
  assumes "esp_wf s" "pr_ipd R u s = Some s'"
  shows "esp_wf s'"
proof -
  have header: "esp_wf s1 \<and> conn_wf c" if "ipd_header R u s = Some (c, s1)" for c s1
    using that assms(1)
    by (auto simp: ipd_header_def Let_def case_prod_beta bind_eq_Some_conv conn_wf_def
        dest!: length_ParseIP conn_at_wf_imp split: if_splits)
  have data: "esp_wf s2" if "esp_wf s1" "conn_wf c" "ipd_data R c s1 = Some s2" for c s1 s2
    using that
    by (auto simp: ipd_data_def Let_def bind_eq_Some_conv esp_wf_fields
        dest!: c_memcpy_length c_upd_length intro!: esp_wf_set_conn esp_wf_arrays split: if_splits)
  show ?thesis
    using assms header data by (auto simp: pr_ipd_def bind_eq_Some_conv split: if_splits)
qed

lemma on_ok_wf [simp]: "esp_wf (on_ok R s) = esp_wf s"
  by (simp add: on_ok_def)

lemma pr_command_wf [wf_keep]:
  assumes "esp_wf s" "pr_command R s = Some s'"
  shows "esp_wf s'"
  using assms
  by (auto simp: pr_command_def pr_cwjap_def pr_cwjap_get_def pr_cwlap_def pr_cwsap_def pr_cipsta_def pr_cipap_def pr_send_def
      pr_cipstart_def pr_rst_def pr_ping_def pr_stamac_def pr_apmac_def pr_ciupdate_def pr_cwlif_def Let_def bind_eq_Some_conv
      length_ParseMAC esp_wf_fields
      split: esp_command.splits if_splits intro!: esp_wf_set_conn esp_wf_arrays
      dest!: conn_at_wf_imp dest: ParseCWJAP_wf ParseCWLAP_wf ParseCWSAP_wf ParseCIPSTA_wf ParseCWLIF_wf)

lemma pr_status_wf [wf_keep]: "esp_wf s \<Longrightarrow> esp_wf (pr_status R s)"
  by (simp add: pr_status_def Let_def)

lemma WriteString_ok:
  assumes "buf_ok sz b" "length t < 2 ^ 32" "BUFFER_WriteString b t = Some (m, b')"
  shows "buf_ok sz b'"
  using assms(3) Write_ok [OF assms(1), of "of_nat (length t)" "t @ [0]"] unat_of_nat_u32 [of "length t"] assms(2)
  by (auto simp: BUFFER_WriteString_def)

lemma ParseReceived_wf [wf_keep]:
  assumes "esp_wf s" "length R < 2 ^ 32" "ParseReceived R u s = Some s'"
  shows "esp_wf s'"
proof -
  have "length (cstr R) < 2 ^ 32"
    using assms(2) length_takeWhile_le [of "\<lambda>c. c \<noteq> 0" R] by (simp add: cstr_def)
  then have foreign: "BUFFER_WriteString (TMP_Buffer s) (cstr R) = Some (m, b) \<Longrightarrow> buf_ok ESP8266_TMPBUFFER_SIZE b" for m b
    using WriteString_ok [OF esp_wf_fields(17) [OF assms(1)]] by blast
  have start: "esp_wf (pr_send_ok R (pr_wifi R (CallConnectionCallbacks (pr_reset R (s\<lparr>LastReceivedTime := t\<rparr>)))))" for t
    using assms(1) by (intro pr_send_ok_wf pr_wifi_wf CallConnectionCallbacks_wf pr_reset_wf) simp
  have rest: "esp_wf s'" if "esp_wf s1"
      "do { s \<leftarrow> pr_connection R s1; s \<leftarrow> pr_ipd R u s; s \<leftarrow> pr_command R s; Some (pr_status R s) } = Some s'" for s1
    using that by (clarsimp simp: bind_eq_Some_conv) (metis pr_status_wf pr_command_wf pr_ipd_wf pr_connection_wf)
  show ?thesis
    using assms(1,3) foreign rest [OF start]
    by (auto simp: ParseReceived_def Let_def bind_eq_Some_conv [of "if _ then _ else _"]
        bind_eq_Some_conv [of "BUFFER_WriteString _ _"] split: if_splits
        intro!: esp_wf_arrays)
qed

section \<open>The update function keeps the invariant\<close>

lemma usart_step_wf:
  assumes "esp_wf s" "BUFFER_ReadString (USART_Buffer s) (replicate RECEIVED_SIZE 0) (of_nat RECEIVED_SIZE) = Some (n, R, b)"
  shows "esp_wf (s\<lparr>USART_Buffer := b\<rparr>)"
    "ParseReceived (take (unat n) R) True (s\<lparr>USART_Buffer := b\<rparr>) = Some s' \<Longrightarrow> esp_wf s'"
proof -
  have r: "buf_ok ESP8266_USARTBUFFER_SIZE b" "length R = 128"
    using ReadString_ok [OF esp_wf_fields(18) [OF assms(1)]] assms(2) by (auto simp: ESP8266_USARTBUFFER_SIZE_def)
  then show wf: "esp_wf (s\<lparr>USART_Buffer := b\<rparr>)"
    by (simp add: esp_wf_arrays assms(1))
  show "ParseReceived (take (unat n) R) True (s\<lparr>USART_Buffer := b\<rparr>) = Some s' \<Longrightarrow> esp_wf s'"
    using ParseReceived_wf [OF wf, of "take (unat n) R"] r by auto
qed

lemma tmp_step_wf:
  assumes "esp_wf s" "BUFFER_ReadString (TMP_Buffer s) (replicate RECEIVED_SIZE 0) (of_nat RECEIVED_SIZE) = Some (n, R, b)"
  shows "esp_wf (s\<lparr>TMP_Buffer := b\<rparr>)"
    "ParseReceived (take (unat n) R) False (s\<lparr>TMP_Buffer := b\<rparr>) = Some s' \<Longrightarrow> esp_wf s'"
proof -
  have r: "buf_ok ESP8266_TMPBUFFER_SIZE b" "length R = 128"
    using ReadString_ok [OF esp_wf_fields(17) [OF assms(1)]] assms(2) by (auto simp: ESP8266_TMPBUFFER_SIZE_def)
  then show wf: "esp_wf (s\<lparr>TMP_Buffer := b\<rparr>)"
    by (simp add: esp_wf_arrays assms(1))
  show "ParseReceived (take (unat n) R) False (s\<lparr>TMP_Buffer := b\<rparr>) = Some s' \<Longrightarrow> esp_wf s'"
    using ParseReceived_wf [OF wf, of "take (unat n) R"] r by auto
qed

lemma usart_lines_wf:
  assumes "usart_lines s = Some s'" "esp_wf s"
  shows "esp_wf s'"
proof -
  have "esp_wf s \<longrightarrow> esp_wf s'"
    by (rule usart_lines.raw_induct [where P = "\<lambda>s s'. esp_wf s \<longrightarrow> esp_wf s'", OF _ assms(1)])
       (auto simp: bind_eq_Some_conv Let_def split: if_splits dest: usart_step_wf)
  then show ?thesis using assms(2) by blast
qed

lemma tmp_lines_wf:
  assumes "tmp_lines s = Some s'" "esp_wf s"
  shows "esp_wf s'"
proof -
  have "esp_wf s \<longrightarrow> esp_wf s'"
    by (rule tmp_lines.raw_induct [where P = "\<lambda>s s'. esp_wf s \<longrightarrow> esp_wf s'", OF _ assms(1)])
       (auto simp: bind_eq_Some_conv Let_def split: if_splits dest: tmp_step_wf)
  then show ?thesis using assms(2) by blast
qed

lemma set_ipd_buffer_wf:
  assumes "esp_wf s" "BUFFER_Read (ipd_buffer s) [0] 1 = Some (m, d, b)"
  shows "esp_wf (set_ipd_buffer b s)"
  using assms Read_ok [OF esp_wf_fields(17) [OF assms(1)], of 1 "[0]"] Read_ok [OF esp_wf_fields(18) [OF assms(1)], of 1 "[0]"]
  by (auto simp: set_ipd_buffer_def ipd_buffer_def intro!: esp_wf_arrays split: if_splits)

lemma ipd_step_wf:
  assumes "esp_wf s" "BUFFER_Read (ipd_buffer s) [0] 1 = Some (m, d, b)" "length data = length (ConnectionData s)"
  shows "esp_wf (set_ipd_buffer b (s\<lparr>ConnectionData := data, InPtr := i, PtrTotal := j\<rparr>))"
proof -
  have "esp_wf (set_ipd_buffer b s\<lparr>ConnectionData := data\<rparr>)"
    using set_ipd_buffer_wf [OF assms(1,2)] assms(1,3) by (intro esp_wf_arrays) (auto simp: esp_wf_fields)
  then show ?thesis by (cases "IPD_USART s") (simp_all add: set_ipd_buffer_def esp_wf_def)
qed

lemma ipd_bytes_wf:
  assumes "ipd_bytes s = Some s'" "esp_wf s"
  shows "esp_wf s'"
proof -
  have "esp_wf s \<longrightarrow> esp_wf s'"
    by (rule ipd_bytes.raw_induct [where P = "\<lambda>s s'. esp_wf s \<longrightarrow> esp_wf s'", OF _ assms(1)])
       (auto simp: bind_eq_Some_conv Let_def split: if_splits dest!: c_upd_length dest: ipd_step_wf)
  then show ?thesis using assms(2) by blast
qed

lemma up_timeout_wf: "esp_wf s \<Longrightarrow> up_timeout s = Some s' \<Longrightarrow> esp_wf s'"
  by (auto simp: up_timeout_def Let_def bind_eq_Some_conv split: if_splits intro!: esp_wf_set_conn dest!: conn_at_wf_imp)

lemma ProcessSendData_wf: "esp_wf s \<Longrightarrow> ProcessSendData s = Some s' \<Longrightarrow> esp_wf s'"
  by (auto simp: ProcessSendData_def Let_def bind_eq_Some_conv esp_wf_fields split: if_splits
      intro!: esp_wf_set_conn esp_wf_arrays dest!: conn_at_wf_imp)

lemma find_wrapper_wf:
  assumes "esp_wf s" "find_wrapper s = Some (found, s')"
  shows "esp_wf s'"
proof -
  have u: "BUFFER_Read (USART_Buffer s) [0, 0] 2 = Some (m, d, b) \<Longrightarrow> buf_ok ESP8266_USARTBUFFER_SIZE b" for m d b
    using Read_ok [OF esp_wf_fields(18) [OF assms(1)], of 2 "[0, 0]"] by auto
  have t: "BUFFER_Read (TMP_Buffer s) [0, 0] 2 = Some (m, d, b) \<Longrightarrow> buf_ok ESP8266_TMPBUFFER_SIZE b" for m d b
    using Read_ok [OF esp_wf_fields(17) [OF assms(1)], of 2 "[0, 0]"] by auto
  show ?thesis
    using assms u t by (auto simp: find_wrapper_def bind_eq_Some_conv split: if_splits intro!: esp_wf_arrays)
qed

lemma up_wrapper_wf: "esp_wf s \<Longrightarrow> up_wrapper s = Some s' \<Longrightarrow> esp_wf s'"
  by (auto simp: up_wrapper_def bind_eq_Some_conv split: if_splits dest: find_wrapper_wf ProcessSendData_wf [OF find_wrapper_wf])

lemma up_uart_wf: "esp_wf s \<Longrightarrow> up_uart s = Some s' \<Longrightarrow> esp_wf s'"
  using Reset_ok [OF esp_wf_fields(18)]
  by (auto simp: up_uart_def bind_eq_Some_conv ESP8266_USARTBUFFER_SIZE_def split: if_splits intro!: esp_wf_arrays)

lemma ipd_done_wf: "esp_wf s \<Longrightarrow> ipd_done s = Some s' \<Longrightarrow> esp_wf s'"
  by (auto simp: ipd_done_def Let_def bind_eq_Some_conv split: if_splits option.splits intro!: esp_wf_set_conn dest!: conn_at_wf_imp)

lemma up_ipd_wf: "esp_wf s \<Longrightarrow> up_ipd s = Some s' \<Longrightarrow> esp_wf s'"
  by (auto simp: up_ipd_def bind_eq_Some_conv split: if_splits dest: ipd_done_wf ipd_bytes_wf)

lemma Update_wf:
  assumes "esp_wf s" "ESP8266_Update s = Some (r, s')"
  shows "esp_wf s'"
  using assms by (clarsimp simp: ESP8266_Update_def bind_eq_Some_conv ret_def)
    (metis CallConnectionCallbacks_wf up_ipd_wf tmp_lines_wf usart_lines_wf up_uart_wf up_wrapper_wf up_timeout_wf)

end
