(* ===== verification/Esp8266_Reach.thy ===== *)
theory Esp8266_Reach
  imports Esp8266_Wf
begin

text \<open>
  The states of the WiFi driver that any order of interrupts and returning calls of the interface can produce,
  and what holds in all of them: the sizes of the tables and the state of the two cyclic buffers.
\<close>

section \<open>Interrupts and waiting\<close>

lemma uart_bytes_run:
  assumes "esp_wf s"
  shows "\<exists>b'. uart_bytes bs s = Some (s\<lparr>USART_Buffer := b'\<rparr>) \<and> buf_ok ESP8266_USARTBUFFER_SIZE b' \<and>
      contents b' = contents (USART_Buffer s) @ take (1023 - length (contents (USART_Buffer s))) bs"
  using assms
proof (induction bs arbitrary: s)
  case Nil
  then show ?case by (intro exI [of _ "USART_Buffer s"]) (simp add: esp_wf_fields)
next
  case (Cons c bs)
  obtain m b where w: "BUFFER_Write (USART_Buffer s) [c] 1 = Some (m, b)" "buf_ok ESP8266_USARTBUFFER_SIZE b"
      "contents b = contents (USART_Buffer s) @ take (unat m) [c]"
      "unat m = min 1 (unat ESP8266_USARTBUFFER_SIZE - 1 - length (contents (USART_Buffer s)))"
    using Write_ok [OF esp_wf_fields(18) [OF Cons.prems], of 1 "[c]"] by auto
  obtain b' where "uart_bytes bs (s\<lparr>USART_Buffer := b\<rparr>) = Some (s\<lparr>USART_Buffer := b'\<rparr>)" "buf_ok ESP8266_USARTBUFFER_SIZE b'"
      "contents b' = contents b @ take (1023 - length (contents b)) bs"
    using Cons.IH [OF esp_wf_arrays(13) [OF Cons.prems w(2)]] by auto
  then show ?case
    using w by (intro exI [of _ b'])
      (auto simp: UART2_IRQHandler_def ESP8266_DataReceived_def ESP8266_USARTBUFFER_SIZE_def min_def take_Cons' split: if_splits)
qed

lemma tick_run:
  assumes "esp_wf s"
  shows "\<exists>b. tick k s = Some (s\<lparr>Time := Time s + fst k, USART_Buffer := b\<rparr>) \<and> buf_ok ESP8266_USARTBUFFER_SIZE b \<and>
      contents b = contents (USART_Buffer s) @ take (1023 - length (contents (USART_Buffer s))) (snd k)"
  using uart_bytes_run [of "ESP8266_TimeUpdate (fst k) s" "snd k"] assms by (auto simp: tick_def ESP8266_TimeUpdate_def)

lemma tick_total:
  assumes "esp_wf s"
  shows "\<exists>s'. tick k s = Some s' \<and> esp_wf s' \<and>
     contents (USART_Buffer s') = contents (USART_Buffer s) @ take (1023 - length (contents (USART_Buffer s))) (snd k)"
  using tick_run [OF assms, of k] esp_wf_arrays(13) assms by fastforce

lemma tick_wf: "esp_wf s \<Longrightarrow> tick k s = Some s' \<Longrightarrow> esp_wf s'"
  using tick_total [of s k] by auto

lemma delay_loop_wf: "esp_wf s \<Longrightarrow> delay_loop t x ks s = Some (ks', s') \<Longrightarrow> esp_wf s'"
  by (induction t x ks s rule: delay_loop.induct) (auto simp: bind_eq_Some_conv split: if_splits dest: tick_wf)

lemma DELAYMS_wf: "esp_wf s \<Longrightarrow> ESP8266_DELAYMS x s = Some s' \<Longrightarrow> esp_wf s'"
  by (auto simp: ESP8266_DELAYMS_def bind_eq_Some_conv dest: delay_loop_wf)

lemma wait_loop_wf: "esp_wf s \<Longrightarrow> wait_loop ks s = Some (ks', s') \<Longrightarrow> esp_wf s'"
proof (induction ks arbitrary: s)
  case (Cons k ks)
  obtain s1 found where s1: "esp_wf s1" and w: "(if found \<ge> (0 :: int) then Some (ks, s1\<lparr>WaitForWrapper := False\<rparr>)
      else do { (_, s) \<leftarrow> ESP8266_Update s1; if ActiveCommand s \<noteq> CMD_IDLE then wait_loop ks s else Some (ks, s) }) = Some (ks', s')"
    using Cons.prems tick_wf [of s k] by (auto simp: bind_eq_Some_conv [of "tick _ _"] bind_eq_Some_conv [of "if _ then _ else _"])
  show ?case
  proof (cases "found \<ge> 0")
    case False
    then obtain r s2 where "esp_wf s2" "(if ActiveCommand s2 \<noteq> CMD_IDLE then wait_loop ks s2 else Some (ks, s2)) = Some (ks', s')"
      using w s1 by (auto simp: bind_eq_Some_conv dest: Update_wf)
    then show ?thesis
      using Cons.IH by (auto split: if_splits)
  qed (use w s1 in auto)
qed simp

section \<open>The functions of the interface\<close>

text \<open>A call of the interface leaves a well-formed state, if it returns.\<close>

definition keeps :: "(ESP8266_Result_t \<times> esp) option \<Rightarrow> bool" where
  "keeps m \<longleftrightarrow> (\<forall>r s. m = Some (r, s) \<longrightarrow> esp_wf s)"

lemma keeps_ret [intro!]: "esp_wf s \<Longrightarrow> keeps (ret r s)"
  by (auto simp: keeps_def ret_def)

lemma keeps_Some [intro!]: "esp_wf s \<Longrightarrow> keeps (Some (r, s))"
  by (auto simp: keeps_def)

lemma keeps_if [intro!]: "(b \<Longrightarrow> keeps m) \<Longrightarrow> (\<not> b \<Longrightarrow> keeps m') \<Longrightarrow> keeps (if b then m else m')"
  by simp

lemma keeps_bind: "keeps m \<Longrightarrow> (\<And>r s. esp_wf s \<Longrightarrow> keeps (k (r, s))) \<Longrightarrow> keeps (Option.bind m k)"
  unfolding keeps_def by (auto simp: bind_eq_Some_conv)

lemma keeps_bind_text: "(\<And>t. keeps (k t)) \<Longrightarrow> keeps (Option.bind (m :: ctext option) k)"
  by (auto simp: keeps_def bind_eq_Some_conv)

lemma keeps_bind_byte: "(\<And>t. keeps (k t)) \<Longrightarrow> keeps (Option.bind (m :: u8 option) k)"
  by (auto simp: keeps_def bind_eq_Some_conv)

lemma keeps_bind_conn: "esp_wf s \<Longrightarrow> (\<And>c. conn_wf c \<Longrightarrow> keeps (k c)) \<Longrightarrow> keeps (Option.bind (conn_at i s) k)"
  by (auto simp: keeps_def bind_eq_Some_conv dest: conn_at_wf)

lemma keeps_bind_delay: "esp_wf s \<Longrightarrow> (\<And>s. esp_wf s \<Longrightarrow> keeps (k s)) \<Longrightarrow> keeps (Option.bind (ESP8266_DELAYMS x s) k)"
  by (auto simp: keeps_def bind_eq_Some_conv dest: DELAYMS_wf)

lemma keeps_Update: "esp_wf s \<Longrightarrow> keeps (ESP8266_Update s)"
  by (auto simp: keeps_def dest: Update_wf)

lemma keeps_WaitReady: "esp_wf s \<Longrightarrow> keeps (ESP8266_WaitReady s)"
  by (auto simp: keeps_def ESP8266_WaitReady_def bind_eq_Some_conv ret_def dest: wait_loop_wf)

lemma keeps_check_idle: "esp_wf s \<Longrightarrow> (\<And>s. esp_wf s \<Longrightarrow> keeps (k s)) \<Longrightarrow> keeps (check_idle s k)"
  unfolding check_idle_def by (auto intro!: keeps_bind keeps_Update)

lemma keeps_check_wifi: "esp_wf s \<Longrightarrow> (\<And>s. esp_wf s \<Longrightarrow> keeps (k s)) \<Longrightarrow> keeps (check_wifi s k)"
  unfolding check_wifi_def by auto

lemma keeps_bind_ok: "keeps m \<Longrightarrow> (\<And>s. esp_wf s \<Longrightarrow> keeps (k s)) \<Longrightarrow> keeps (bind_ok m k)"
  unfolding bind_ok_def by (auto intro!: keeps_bind)

lemma wf_reset_usart: "esp_wf s \<Longrightarrow> esp_wf (s\<lparr>USART_Buffer := BUFFER_Reset (USART_Buffer s)\<rparr>)"
  using Reset_ok [OF esp_wf_fields(18)] by (intro esp_wf_arrays) (simp_all add: ESP8266_USARTBUFFER_SIZE_def)

lemma keeps_SendCommand: "esp_wf s \<Longrightarrow> keeps (SendCommand cmd t resp s)"
  unfolding SendCommand_def
  by (rule keeps_check_idle) (auto simp: Let_def wf_reset_usart split: option.splits)

lemma wf_send_all [simp]: "esp_wf (send_all ts s) = esp_wf s"
  by (induction ts arbitrary: s) (simp_all add: send_all_def)

lemma keeps_wait_status: "esp_wf s \<Longrightarrow> keeps (wait_status s)"
  unfolding wait_status_def by (auto intro!: keeps_bind keeps_WaitReady)

lemmas keeps_rules = keeps_bind keeps_bind_text keeps_bind_byte keeps_bind_conn keeps_bind_delay keeps_Update keeps_WaitReady
  keeps_check_idle keeps_check_wifi keeps_bind_ok keeps_SendCommand keeps_wait_status esp_wf_set_conn

lemma wf_UART_init [simp]: "esp_wf (esp8266_UART_init b s) = esp_wf s"
  by (simp add: esp8266_UART_init_def)

text \<open>The functions that the application calls. A hardware address has six bytes.\<close>

inductive_set esp_api :: "(esp \<Rightarrow> (ESP8266_Result_t \<times> esp) option) set" where
  "ESP8266_Update \<in> esp_api" | "ESP8266_WaitReady \<in> esp_api" | "ESP8266_IsReady \<in> esp_api"
| "ESP8266_SetRFPower p \<in> esp_api" | "ESP8266_FirmwareUpdate \<in> esp_api"
| "ESP8266_SetUART baud \<in> esp_api" | "ESP8266_SetUARTDefault baud \<in> esp_api"
| "ESP8266_SetSleepMode md \<in> esp_api" | "ESP8266_Sleep ms \<in> esp_api" | "ESP8266_GetAP \<in> esp_api" | "ESP8266_SetMode md \<in> esp_api"
| "ESP8266_RequestSendData n \<in> esp_api" | "ESP8266_CloseConnection n \<in> esp_api" | "ESP8266_CloseAllConnections \<in> esp_api"
| "ESP8266_AllConectionsClosed \<in> esp_api" | "ESP8266_SetMux md \<in> esp_api" | "ESP8266_Setdinfo md \<in> esp_api" | "ESP8266_SetWPS md \<in> esp_api"
| "ESP8266_ServerEnable port \<in> esp_api" | "ESP8266_ServerDisable \<in> esp_api" | "ESP8266_SetServerTimeout port \<in> esp_api"
| "ESP8266_WifiDisconnect \<in> esp_api" | "ESP8266_WifiConnect ssid pass \<in> esp_api" | "ESP8266_WifiConnectDefault ssid pass \<in> esp_api"
| "ESP8266_WifiGetConnected \<in> esp_api" | "ESP8266_GetSTAIP \<in> esp_api" | "ESP8266_GetAPIP \<in> esp_api"
| "ESP8266_GetSTAIPBlocking \<in> esp_api" | "ESP8266_GetAPIPBlocking \<in> esp_api" | "ESP8266_GetSTAMAC \<in> esp_api" | "ESP8266_GetAPMAC \<in> esp_api"
| "length mac = 6 \<Longrightarrow> ESP8266_SetSTAMAC mac \<in> esp_api" | "length mac = 6 \<Longrightarrow> ESP8266_SetSTAMACDefault mac \<in> esp_api"
| "length mac = 6 \<Longrightarrow> ESP8266_SetAPMAC mac \<in> esp_api" | "length mac = 6 \<Longrightarrow> ESP8266_SetAPMACDefault mac \<in> esp_api"
| "ESP8266_ListWifiStations \<in> esp_api" | "ESP8266_SetAP cfg \<in> esp_api" | "ESP8266_SetAPDefault cfg \<in> esp_api"
| "ESP8266_GetConnectedStations \<in> esp_api" | "ESP8266_SetAutoConnect md \<in> esp_api"
| "ESP8266_StartClientConnectionTCP location port \<in> esp_api" | "ESP8266_StartClientConnectionSSL location port \<in> esp_api"
| "ESP8266_SetSSLBufferSize port \<in> esp_api" | "ESP8266_Ping location \<in> esp_api" | "ESP8266_RestoreDefault \<in> esp_api"

lemma keeps_MAC: "esp_wf s \<Longrightarrow> length addr = 6 \<Longrightarrow> keeps (SendMACCommand addr cmd command s)"
  unfolding SendMACCommand_def by (intro keeps_rules) (auto simp: Let_def intro!: keeps_rules esp_wf_arrays)

lemma keeps_SetMode: "esp_wf s \<Longrightarrow> keeps (ESP8266_SetMode md s)"
  unfolding ESP8266_SetMode_def ESP8266_GetAP_def by (auto intro!: keeps_rules)

lemma keeps_start_client: "esp_wf s \<Longrightarrow> keeps (start_client ty location port s)"
  unfolding start_client_def by (auto simp: Let_def intro!: keeps_rules split: option.splits)

lemma keeps_addresses: 
  assumes "esp_wf s"
  shows "keeps (ESP8266_GetSTAIP s)" "keeps (ESP8266_GetAPIP s)" "keeps (ESP8266_GetSTAMAC s)" "keeps (ESP8266_GetAPMAC s)"
  unfolding ESP8266_GetSTAIP_def ESP8266_GetAPIP_def ESP8266_GetSTAMAC_def ESP8266_GetAPMAC_def
  using assms by (auto simp: Let_def intro!: keeps_rules)

lemma api_wf:
  assumes "f \<in> esp_api" "esp_wf s"
  shows "keeps (f s)"
  using assms
  by (induction rule: esp_api.induct)
   (auto simp: ESP8266_GetConnectedStations_def ESP8266_IsReady_def ESP8266_SetRFPower_def ESP8266_FirmwareUpdate_def ESP8266_SetUART_def ESP8266_SetUARTDefault_def
    SendUARTCommand_def ESP8266_SetSleepMode_def ESP8266_Sleep_def ESP8266_GetAP_def ESP8266_RequestSendData_def
    ESP8266_CloseConnection_def ESP8266_CloseAllConnections_def ESP8266_AllConectionsClosed_def ESP8266_SetMux_def
    ESP8266_Setdinfo_def ESP8266_SetWPS_def ESP8266_ServerEnable_def ESP8266_ServerDisable_def ESP8266_SetServerTimeout_def
    ESP8266_WifiDisconnect_def ESP8266_WifiConnect_def ESP8266_WifiConnectDefault_def wifi_join_def ESP8266_WifiGetConnected_def
    ESP8266_GetSTAIPBlocking_def ESP8266_GetAPIPBlocking_def ESP8266_SetSTAMAC_def ESP8266_SetSTAMACDefault_def
    ESP8266_SetAPMAC_def ESP8266_SetAPMACDefault_def ESP8266_ListWifiStations_def ESP8266_SetAP_def ESP8266_SetAPDefault_def
    set_ap_def ESP8266_SetAutoConnect_def ESP8266_StartClientConnectionTCP_def ESP8266_StartClientConnectionSSL_def
    ESP8266_SetSSLBufferSize_def ESP8266_Ping_def ESP8266_RestoreDefault_def Let_def wf_reset_usart
    intro!: keeps_rules keeps_MAC keeps_SetMode keeps_start_client keeps_addresses)

section \<open>Initialisation\<close>

text \<open>The memory that the application gives to \<^verbatim>\<open>ESP8266_Init\<close>: any contents, of the sizes of the structure.\<close>

definition esp_memory :: "esp \<Rightarrow> bool" where
  "esp_memory s \<longleftrightarrow> (\<exists>t u. esp_wf (s\<lparr>TMP_Buffer := t, USART_Buffer := u\<rparr>))"

lemma keepsD: "keeps m \<Longrightarrow> m = Some (r, s) \<Longrightarrow> esp_wf s"
  by (simp add: keeps_def)

lemma retry_wf:
  assumes "retry f s = Some s'" "\<And>s. esp_wf s \<Longrightarrow> keeps (f s)" "esp_wf s"
  shows "esp_wf s'"
proof -
  have "(\<forall>s. esp_wf s \<longrightarrow> keeps (f s)) \<longrightarrow> esp_wf s \<longrightarrow> esp_wf s'"
  proof (rule retry.raw_induct [where P = "\<lambda>f s s'. (\<forall>s. esp_wf s \<longrightarrow> keeps (f s)) \<longrightarrow> esp_wf s \<longrightarrow> esp_wf s'", OF _ assms(1)])
    fix rec :: "(esp \<Rightarrow> (ESP8266_Result_t \<times> esp) option) \<Rightarrow> esp \<Rightarrow> esp option" and f s s'
    assume IH: "\<And>f s s'. rec f s = Some s' \<Longrightarrow> (\<forall>s. esp_wf s \<longrightarrow> keeps (f s)) \<longrightarrow> esp_wf s \<longrightarrow> esp_wf s'"
      and e: "(case ticks s of [] \<Rightarrow> None | k # ks \<Rightarrow> do { s \<leftarrow> tick k (s\<lparr>ticks := ks\<rparr>); (r, s) \<leftarrow> f s;
            if r = ESP_OK then Some s else rec f s }) = Some s'"
    show "(\<forall>s. esp_wf s \<longrightarrow> keeps (f s)) \<longrightarrow> esp_wf s \<longrightarrow> esp_wf s'"
    proof (intro impI)
      assume f: "\<forall>s. esp_wf s \<longrightarrow> keeps (f s)" and wf: "esp_wf s"
      obtain k ks s1 r s2 where "tick k (s\<lparr>ticks := ks\<rparr>) = Some s1" "f s1 = Some (r, s2)"
          and last: "(if r = ESP_OK then Some s2 else rec f s2) = Some s'"
        using e by (auto simp: bind_eq_Some_conv split: list.splits)
      then have "esp_wf s2"
        using tick_wf [of "s\<lparr>ticks := ks\<rparr>" k s1] wf f keepsD by auto
      then show "esp_wf s'"
        using last IH f by (auto split: if_splits)
    qed
  qed
  then show ?thesis using assms(2,3) by blast
qed

lemma reset_module_wf:
  assumes "esp_wf s" "reset_module s = Some s'"
  shows "esp_wf s'"
proof -
  have "keeps (map_option (\<lambda>s. (ESP_OK, s)) (reset_module s))"
    unfolding reset_module_def Let_def map_option_bind comp_def
    by (auto simp: assms(1) map_option_bind intro!: keeps_rules)
  then show ?thesis using assms(2) by (auto simp: keeps_def)
qed

lemma try_rates_wf: "esp_wf s \<Longrightarrow> try_rates rs s = Some s' \<Longrightarrow> esp_wf s'"
proof (induction rs arbitrary: s)
  case (Cons r rs)
  then obtain s1 where "reset_module s = Some s1" "(if LastOperationStatus s1 then Some (s1\<lparr>Baudrate := r\<rparr>) else try_rates rs s1) = Some s'"
    by (auto simp: bind_eq_Some_conv)
  then show ?case
    using Cons reset_module_wf [of s s1] by (auto split: if_splits)
qed simp

lemma keeps_bind_state:
  assumes "\<And>s. m = Some s \<Longrightarrow> esp_wf s" "\<And>s. esp_wf s \<Longrightarrow> keeps (k s)"
  shows "keeps (Option.bind m k)"
  using assms by (cases m) (simp_all add: keeps_def)

lemma keeps_bind_retry:
  assumes "esp_wf s" "\<And>s. esp_wf s \<Longrightarrow> keeps (f s)" "\<And>s. esp_wf s \<Longrightarrow> keeps (k s)"
  shows "keeps (Option.bind (retry f s) k)"
  using retry_wf [OF _ assms(2,1)] assms(3) by (rule keeps_bind_state)

lemma keeps_init_settings: "esp_wf s \<Longrightarrow> keeps (init_settings s)"
  unfolding init_settings_def
  by (auto intro!: keeps_rules keeps_bind_retry keeps_SetMode keeps_addresses simp: ESP8266_SetMux_def ESP8266_Setdinfo_def)

lemma BUFFER_Init_ok:
  assumes "0 < sz"
  shows "\<exists>B. BUFFER_Init (\<lambda>_. None) sz (Some (replicate (unat sz) 0)) = (0, B) \<and> buf_ok sz (Some B) \<and> contents (Some B) = []"
  using assms
  by (auto simp: BUFFER_Init_def buf_ok_def buf_wf_def buf_mem_def contents_def buf_contents_def ring_view_def word_less_nat_alt)

lemma keeps_reset_bind:
  assumes "esp_wf s" "\<And>s. esp_wf s \<Longrightarrow> keeps (k s)"
  shows "keeps (Option.bind (reset_module s) k)"
  using reset_module_wf [OF assms(1)] assms(2) by (rule keeps_bind_state)

lemma keeps_rates_bind:
  assumes "esp_wf s" "\<And>s. esp_wf s \<Longrightarrow> keeps (k s)"
  shows "keeps (Option.bind (if b then try_rates rs s else Some s) k)"
  by (rule keeps_bind_state) (use assms try_rates_wf [OF assms(1)] in \<open>auto split: if_splits\<close>)

lemma keeps_Init:
  assumes "esp_memory s"
  shows "keeps (ESP8266_Init baudrate s)"
proof -
  obtain B where B: "BUFFER_Init (\<lambda>_. None) ESP8266_TMPBUFFER_SIZE (Some (replicate (unat ESP8266_TMPBUFFER_SIZE) 0)) = (0, B)"
      "buf_ok ESP8266_TMPBUFFER_SIZE (Some B)"
    using BUFFER_Init_ok [of ESP8266_TMPBUFFER_SIZE] by (auto simp: ESP8266_TMPBUFFER_SIZE_def)
  obtain C where C: "BUFFER_Init (\<lambda>_. None) ESP8266_USARTBUFFER_SIZE (Some (replicate (unat ESP8266_USARTBUFFER_SIZE) 0)) = (0, C)"
      "buf_ok ESP8266_USARTBUFFER_SIZE (Some C)"
    using BUFFER_Init_ok [of ESP8266_USARTBUFFER_SIZE] by (auto simp: ESP8266_USARTBUFFER_SIZE_def)
  have "esp_wf (s\<lparr>Timeout := 0, TMP_Buffer := Some B, USART_Buffer := Some C\<rparr>)"
    using assms B(2) C(2) unfolding esp_memory_def esp_wf_def by auto
  then show ?thesis
    unfolding ESP8266_Init_def Let_def B(1) C(1)
    by (auto intro!: keeps_rules keeps_reset_bind keeps_rates_bind keeps_init_settings)
qed

section \<open>Reachable states\<close>

text \<open>The module is initialised on memory of any contents; then calls of the interface, interrupts between the calls
  and at the steps of the waits inside a call (their \<open>ticks\<close>) and changes of the environment follow in any order.
  Only calls that return belong to a run: one that writes outside an array or follows a null pointer is \<open>None\<close> and
  ends it. Such calls exist (\<^verbatim>\<open>ParseCWJAP\<close> with a name of 16 characters, for one), so the lemma below is no claim
  that they do not.\<close>

inductive esp_run :: "esp \<Rightarrow> bool" where
  init: "esp_memory s \<Longrightarrow> ESP8266_Init baudrate s = Some (r, s') \<Longrightarrow> esp_run s'"
| api: "esp_run s \<Longrightarrow> f \<in> esp_api \<Longrightarrow> f s = Some (r, s') \<Longrightarrow> esp_run s'"
| interrupt: "esp_run s \<Longrightarrow> tick k s = Some s' \<Longrightarrow> esp_run s'"
| environment: "esp_run s \<Longrightarrow> esp_run (s\<lparr>ticks := ks, app_data := d\<rparr>)"

lemma run_wf: "esp_run s \<Longrightarrow> esp_wf s"
proof (induction rule: esp_run.induct)
  case (init s baudrate r s')
  then show ?case using keepsD [OF keeps_Init] by blast
next
  case (api s f r s')
  then show ?case using keepsD [OF api_wf] by blast
next
  case (interrupt s k s')
  then show ?case using tick_wf by blast
next
  case (environment s ks d)
  then show ?case by (simp add: esp_wf_def)
qed

end
