(* ===== verification/Esp8266_Silent.thy ===== *)
theory Esp8266_Silent
  imports Esp8266_Reach
begin

text \<open>
  The WiFi driver with a module that does not answer: every wait ends at the time-out, and what the functions
  report then.
\<close>

section \<open>Waiting for a silent module\<close>

text \<open>Nothing received and nothing left to do.\<close>

definition quiet :: "esp \<Rightarrow> bool" where
  "quiet s \<longleftrightarrow> esp_wf s \<and> contents (USART_Buffer s) = [] \<and> contents (TMP_Buffer s) = [] \<and> \<not> InIPD s \<and> \<not> WaitForWrapper s \<and>
     list_all (\<lambda>c. \<not> CallDataReceived c) (Connection s)"

lemma send_all_out: "send_all ts s = s\<lparr>uart_out := uart_out s @ concat ts\<rparr>"
  by (induction ts arbitrary: s) (simp_all add: send_all_def esp8266_SendString_def)

lemma quiet_simps [simp]:
  "quiet (s\<lparr>Time := v\<rparr>) = quiet s" "quiet (s\<lparr>ticks := ks\<rparr>) = quiet s" "quiet (s\<lparr>Result := r\<rparr>) = quiet s"
  "quiet (s\<lparr>ActiveCommand := c\<rparr>) = quiet s" "quiet (s\<lparr>ActiveCommandResponse := p\<rparr>) = quiet s" "quiet (s\<lparr>StartTime := v\<rparr>) = quiet s"
  "quiet (s\<lparr>Timeout := v\<rparr>) = quiet s" "quiet (s\<lparr>Baudrate := v\<rparr>) = quiet s" "quiet (esp8266_SendString bs s) = quiet s"
  "quiet (esp8266_UART_init b s) = quiet s" "quiet (s\<lparr>uart_out := bs\<rparr>) = quiet s" "quiet (s\<lparr>uart_baud := vs\<rparr>) = quiet s"
  by (simp_all add: quiet_def esp_wf_def esp8266_SendString_def esp8266_UART_init_def)

lemma callbacks_quiet: "quiet s \<Longrightarrow> CallConnectionCallbacks s = s"
proof -
  assume q: "quiet s"
  have "data_received n s = s" if "n < 5" for n
    using q that esp_wf_fields(1) by (auto simp: quiet_def data_received_def Let_def list_all_length)
  then have "fold data_received ns s = s" if "set ns \<subseteq> {..<5}" for ns
    using that by (induction ns) auto
  then show ?thesis
    by (simp add: CallConnectionCallbacks_def ESP8266_MAX_CONNECTIONS_def lessThan_atLeast0)
qed

lemma ReadString_empty:
  assumes "buf_ok sz b" "sz \<le> 1024" "contents b = []"
  shows "\<exists>R. BUFFER_ReadString b (replicate RECEIVED_SIZE 0) (of_nat RECEIVED_SIZE) = Some (0, R, b)"
  using ReadString_ok [OF assms(1,2)] assms(3) by auto

lemma lines_quiet: "quiet s \<Longrightarrow> usart_lines s = Some s \<and> tmp_lines s = Some s"
  using ReadString_empty [of ESP8266_USARTBUFFER_SIZE "USART_Buffer s"] ReadString_empty [of ESP8266_TMPBUFFER_SIZE "TMP_Buffer s"]
    esp_wf_fields(17,18) [of s]
  by (subst usart_lines.simps, subst tmp_lines.simps)
     (auto simp: quiet_def ESP8266_USARTBUFFER_SIZE_def ESP8266_TMPBUFFER_SIZE_def)

text \<open>A call of the update function: the command ends when its time is over.\<close>

lemma Update_quiet:
  assumes "quiet s" "ActiveCommand s \<notin> {CMD_CIPSTART, CMD_UART}" "Timeout s \<noteq> 0"
  shows "ESP8266_Update s = Some (ESP_OK, s\<lparr>ActiveCommand :=
           (if Time s - StartTime s > Timeout s then CMD_IDLE else ActiveCommand s), Result := ESP_OK\<rparr>)"
proof -
  let ?s = "s\<lparr>ActiveCommand := (if Time s - StartTime s > Timeout s then CMD_IDLE else ActiveCommand s)\<rparr>"
  have "up_timeout s = Some ?s"
    using assms(2,3) by (simp add: up_timeout_def)
  moreover have "quiet ?s" using assms(1) by simp
  moreover have "up_wrapper ?s = Some ?s" "up_uart ?s = Some ?s" "up_ipd ?s = Some ?s"
    using assms by (simp_all add: up_wrapper_def up_uart_def up_ipd_def quiet_def)
  ultimately show ?thesis
    using lines_quiet [of ?s] callbacks_quiet [of ?s] by (simp add: ESP8266_Update_def ret_def)
qed

lemma tick_silent: "tick (d, []) s = Some (s\<lparr>Time := Time s + d\<rparr>)"
  by (simp add: tick_def ESP8266_TimeUpdate_def)

text \<open>The waiting loop, with a tick of one millisecond before every round: it ends one millisecond after the time-out.\<close>

lemma wait_loop_silent:
  assumes "quiet s" "ActiveCommand s \<notin> {CMD_IDLE, CMD_CIPSTART, CMD_UART}" "unat (Time s - StartTime s) + n = unat (Timeout s)"
    "Timeout s \<noteq> 0" "unat (Timeout s) < 2 ^ 32 - 1"
  shows "wait_loop (replicate (Suc n) (1, []) @ ks) s =
           Some (ks, s\<lparr>Time := StartTime s + Timeout s + 1, ActiveCommand := CMD_IDLE, Result := ESP_OK\<rparr>)"
  using assms
proof (induction n arbitrary: s)
  case 0
  then have t: "Time s = StartTime s + Timeout s"
    by (metis add.right_neutral add.commute diff_add_cancel word_unat_eq_iff)
  have "Timeout s + 1 > Timeout s"
    using 0 unat_Suc_small [of "Timeout s"] by (simp add: word_less_nat_alt)
  then show ?case
    using 0 t by (simp add: tick_silent Update_quiet quiet_def [of s] algebra_simps)
next
  case (Suc n)
  let ?s = "s\<lparr>Time := Time s + 1, Result := ESP_OK\<rparr>"
  have le: "unat (Time s - StartTime s) < unat (Timeout s)" using Suc.prems by simp
  then have "unat (Time s - StartTime s + 1) = Suc (unat (Time s - StartTime s))"
    by (intro unat_Suc_small) (use unat_lt_pow [of "Timeout s"] in simp)
  then have d: "unat (Time s + 1 - StartTime s) = Suc (unat (Time s - StartTime s))"
    by (simp add: algebra_simps)
  then have "\<not> Time s + 1 - StartTime s > Timeout s"
    using le by (simp add: word_less_nat_alt)
  then have "ESP8266_Update (s\<lparr>Time := Time s + 1\<rparr>) = Some (ESP_OK, ?s)"
    using Suc.prems by (subst Update_quiet) auto
  then show ?case
    using Suc.IH [of ?s] Suc.prems d by (simp add: tick_silent quiet_def [of s])
qed

lemma WaitReady_silent:
  assumes "quiet s" "ActiveCommand s \<notin> {CMD_IDLE, CMD_CIPSTART, CMD_UART}" "Time s = StartTime s" "Timeout s \<noteq> 0"
    "unat (Timeout s) < 2 ^ 32 - 1" "ticks s = replicate (unat (Timeout s) + 1) (1, []) @ ks"
  shows "ESP8266_WaitReady s =
    Some (ESP_OK, s\<lparr>Time := Time s + Timeout s + 1, ActiveCommand := CMD_IDLE, ticks := ks, Result := ESP_OK\<rparr>)"
  using wait_loop_silent [OF assms(1,2) _ assms(4,5), of "unat (Timeout s)" ks] assms(3,6)
  by (simp add: ESP8266_WaitReady_def ret_def)

section \<open>Commands to a silent module\<close>

text \<open>C29. A command that needs a confirmation (here \<open>ESP8266_SetMux\<close>) reports success when the module does not answer at
  all, if the command before it was successful: the flag \<open>LastOperationStatus\<close> is not cleared before a command and
  not changed by a time-out. The wait itself does end, one millisecond after the time-out.\<close>

theorem esp_mux_timeout_is_ok:
  assumes "quiet s" "ActiveCommand s = CMD_IDLE" "LastOperationStatus s" "Timeout s \<noteq> 0" "unat (Timeout s) < 2 ^ 32 - 1"
    and "ticks s = replicate (unat (Timeout s) + 1) (1, []) @ ks"
  shows "\<exists>s'. ESP8266_SetMux mux s = Some (ESP_OK, s') \<and> Time s' = Time s + Timeout s + 1 \<and> ticks s' = ks \<and>
    uart_out s' = uart_out s @ ascii ''AT+CIPMUX='' @ [mux + 0x30, 0x0D, 0x0A]"
  using assms
  by (simp add: ESP8266_SetMux_def check_idle_def bind_ok_def SendCommand_def send_all_out ret_def wait_status_def
      WaitReady_silent EOL_def)

text \<open>The silent module for \<^verbatim>\<open>ESP8266_DELAYMS\<close>.\<close>

lemma delay_loop_silent:
  "unat (Time s - t) + n = unat x \<Longrightarrow>
   delay_loop t x (replicate n (1, []) @ ks) s = Some (ks, s\<lparr>Time := t + x\<rparr>)"
proof (induction n arbitrary: s)
  case 0
  then have "Time s = t + x"
    by (metis add.right_neutral add.commute diff_add_cancel word_unat_eq_iff)
  then show ?case by (cases ks) auto
next
  case (Suc n)
  have "unat (Time s - t + 1) = Suc (unat (Time s - t))"
    by (intro unat_Suc_small) (use Suc.prems unat_lt_pow [of x] in simp)
  then show ?case
    using Suc.prems Suc.IH [of "s\<lparr>Time := Time s + 1\<rparr>"] by (simp add: tick_silent word_less_nat_alt algebra_simps)
qed

lemma DELAYMS_silent:
  "ticks s = replicate (unat x) (1, []) @ ks \<Longrightarrow> ESP8266_DELAYMS x s = Some (s\<lparr>Time := Time s + x, ticks := ks\<rparr>)"
  using delay_loop_silent [of s "Time s" "unat x" x ks] by (simp add: ESP8266_DELAYMS_def)

text \<open>One attempt to reset the module.\<close>

lemma reset_module_silent:
  assumes "quiet s" "ActiveCommand s = CMD_IDLE" "ticks s = replicate 1001 (1, []) @ ks"
  shows "\<exists>s'. reset_module s = Some s' \<and> quiet s' \<and> ActiveCommand s' = CMD_IDLE \<and> ticks s' = ks \<and>
    LastOperationStatus s' = LastOperationStatus s \<and> Time s' = Time s + 1001 \<and>
    uart_baud s' = uart_baud s @ [115200] \<and> uart_out s' = uart_out s @ line ''AT+RST''"
  using assms
  by (simp add: reset_module_def SendCommand_def check_idle_def ret_def WaitReady_silent esp8266_UART_init_def
      esp8266_SendString_def)

lemma try_rates_silent:
  assumes "quiet s" "ActiveCommand s = CMD_IDLE" "\<not> LastOperationStatus s" "ticks s = replicate (length rs * 1001) (1, []) @ ks"
  shows "\<exists>s'. try_rates rs s = Some s' \<and> quiet s' \<and> ActiveCommand s' = CMD_IDLE \<and> ticks s' = ks \<and> \<not> LastOperationStatus s' \<and>
    uart_baud s' = uart_baud s @ replicate (length rs) 115200 \<and>
    uart_out s' = uart_out s @ concat (replicate (length rs) (line ''AT+RST''))"
  using assms
proof (induction rs arbitrary: s)
  case (Cons r rs)
  have "ticks s = replicate 1001 (1, []) @ replicate (length rs * 1001) (1, []) @ ks"
    using Cons.prems(4) by (simp add: replicate_add [symmetric] del: append_assoc
        add: append_assoc [symmetric])
  then obtain s1 where "reset_module s = Some s1" "quiet s1" "ActiveCommand s1 = CMD_IDLE" "\<not> LastOperationStatus s1"
      "ticks s1 = replicate (length rs * 1001) (1, []) @ ks" "uart_baud s1 = uart_baud s @ [115200]"
      "uart_out s1 = uart_out s @ line ''AT+RST''"
    using reset_module_silent [OF Cons.prems(1,2)] Cons.prems(3) by blast
  then show ?case
    using Cons.IH [of s1] by auto
qed simp

text \<open>Memory filled with zeroes, as for a variable of the program, with empty buffers.\<close>

definition ap0 :: ESP8266_AP_t where
  "ap0 = \<lparr>ApEcn = 0, ApSSID = replicate 20 0, ApRSSI = 0, ApMAC = replicate 6 0, ApChannel = 0, ApOffset = 0, ApCalibration = 0\<rparr>"

definition esp0 :: esp where
  "esp0 = \<lparr>Baudrate = 0, ActiveCommand = CMD_IDLE, ActiveCommandResponse = Null, StartTime = 0, Time = 0, LastReceivedTime = 0,
     Timeout = 0, Connection = replicate 5 conn0, STAIP = replicate 4 0, STAGateway = replicate 4 0, STANetmask = replicate 4 0,
     STAMAC = replicate 6 0, APIP = replicate 4 0, APGateway = replicate 4 0, APNetmask = replicate 4 0, APMAC = replicate 6 0,
     SentMode = 0, Mode = 0, AP_SSID = None, AP_Pass = None, AP_Ecn = 0, AP_Channel = 0, AP_MaxConnections = 0, AP_Hidden = 0,
     InIPD = False, InPtr = 0, PtrTotal = 0, ConnNumber = 0, IPD_USART = False, PingTime = 0, PingSuccess = False,
     CW_SSID = replicate 16 0, CW_MAC = replicate 6 0, CW_Channel = 0, CW_RSSI = 0, WifiConnectError = 0, StartConnectionSent = 0,
     Stations = replicate 10 (replicate 4 0, replicate 6 0), StationCount = 0, TotalBytesReceived = 0, TotalBytesSent = 0,
     SendDataConnection = None, STAIPIsSet = False, STANetmaskIsSet = False, STAGatewayIsSet = False, STAMACIsSet = False,
     APIPIsSet = False, APNetmaskIsSet = False, APGatewayIsSet = False, APMACIsSet = False, WaitForWrapper = False,
     LastOperationStatus = False, WifiConnected = False, WifiGotIP = False, Result = ESP_OK,
     TMP_Buffer = Some (snd (BUFFER_Init (\<lambda>_. None) ESP8266_TMPBUFFER_SIZE (Some (replicate (unat ESP8266_TMPBUFFER_SIZE) 0)))),
     USART_Buffer = Some (snd (BUFFER_Init (\<lambda>_. None) ESP8266_USARTBUFFER_SIZE (Some (replicate (unat ESP8266_USARTBUFFER_SIZE) 0)))),
     ConnectionData = replicate 5842 0, APs = replicate 10 ap0, APs_Count = 0, uart_out = [], uart_baud = [], calls = [],
     app_data = (\<lambda>_. []), ticks = []\<rparr>"

lemma init_buffers:
  "buf_ok ESP8266_TMPBUFFER_SIZE (TMP_Buffer esp0) \<and> contents (TMP_Buffer esp0) = []"
  "buf_ok ESP8266_USARTBUFFER_SIZE (USART_Buffer esp0) \<and> contents (USART_Buffer esp0) = []"
  using BUFFER_Init_ok [of ESP8266_TMPBUFFER_SIZE] BUFFER_Init_ok [of ESP8266_USARTBUFFER_SIZE]
  by (auto simp: esp0_def ESP8266_TMPBUFFER_SIZE_def ESP8266_USARTBUFFER_SIZE_def)

lemma quiet_esp0: "quiet esp0"
  using init_buffers
  by (simp add: quiet_def esp_wf_def esp0_def list_all_length conn_wf_def ap_wf_def conn0_def ap0_def
      ESP8266_MAX_CONNECTIONS_def ESP8266_CONNECTION_BUFFER_SIZE_def ESP8266_MAX_CONNECTEDSTATIONS_def)

theorem esp_mux_timeout_is_ok_witness:
  "\<exists>s'. ESP8266_SetMux 1 (esp0\<lparr>LastOperationStatus := True, Timeout := 2, ticks := replicate 3 (1, [])\<rparr>) = Some (ESP_OK, s') \<and>
     Time s' = 3 \<and> ticks s' = [] \<and> uart_out s' = ascii ''AT+CIPMUX=1'' @ [0x0D, 0x0A]"
proof -
  have q: "quiet (esp0\<lparr>LastOperationStatus := True, Timeout := 2, ticks := replicate 3 (1, [])\<rparr>)"
    using quiet_esp0 by (simp add: quiet_def)
  show ?thesis
    using esp_mux_timeout_is_ok [OF q, of "[]" 1] by (simp add: esp0_def ascii_def)
qed

lemma init_no_module:
  assumes "esp_memory s" "ActiveCommand s = CMD_IDLE" "\<not> LastOperationStatus s" "\<not> InIPD s" "\<not> WaitForWrapper s"
    and "list_all (\<lambda>c. \<not> CallDataReceived c) (Connection s)" and "ticks s = replicate 5205 (1, []) @ ks"
  shows "\<exists>s'. ESP8266_Init baudrate s = Some (ESP_DEVICENOTCONNECTED, s') \<and> ticks s' = ks \<and>
    uart_baud s' = uart_baud s @ replicate 5 115200 \<and> uart_out s' = uart_out s @ concat (replicate 5 (line ''AT+RST''))"
proof -
  obtain B where B: "BUFFER_Init (\<lambda>_. None) ESP8266_TMPBUFFER_SIZE (Some (replicate (unat ESP8266_TMPBUFFER_SIZE) 0)) = (0, B)"
      "buf_ok ESP8266_TMPBUFFER_SIZE (Some B)" "contents (Some B) = []"
    using BUFFER_Init_ok [of ESP8266_TMPBUFFER_SIZE] by (auto simp: ESP8266_TMPBUFFER_SIZE_def)
  obtain C where C: "BUFFER_Init (\<lambda>_. None) ESP8266_USARTBUFFER_SIZE (Some (replicate (unat ESP8266_USARTBUFFER_SIZE) 0)) = (0, C)"
      "buf_ok ESP8266_USARTBUFFER_SIZE (Some C)" "contents (Some C) = []"
    using BUFFER_Init_ok [of ESP8266_USARTBUFFER_SIZE] by (auto simp: ESP8266_USARTBUFFER_SIZE_def)
  let ?s = "s\<lparr>Timeout := 0, TMP_Buffer := Some B, USART_Buffer := Some C\<rparr>"
  have q: "quiet ?s"
    using assms B(2,3) C(2,3) unfolding esp_memory_def quiet_def esp_wf_def by auto
  have t: "ticks s = replicate 100 (1, []) @ replicate 100 (1, []) @ replicate 1001 (1, []) @ replicate (length ESP8266_Baudrate * 1001) (1, []) @ ks"
    using assms(7) by (simp add: ESP8266_Baudrate_def replicate_add [symmetric] del: append_assoc add: append_assoc [symmetric])
  let ?ks = "replicate 1001 (1, []) @ replicate (length ESP8266_Baudrate * 1001) (1, []) @ ks"
  let ?d = "?s\<lparr>Time := Time s + 100, ticks := replicate 100 (1, []) @ ?ks\<rparr>"
  let ?e = "?s\<lparr>Time := Time s + 200, ticks := ?ks\<rparr>"
  let ?r = "?e\<lparr>Baudrate := baudrate\<rparr>"
  have d: "ESP8266_DELAYMS 100 ?s = Some ?d" "ESP8266_DELAYMS 100 ?d = Some ?e"
    using DELAYMS_silent [of ?s 100] DELAYMS_silent [of ?d 100] t by simp_all
  obtain s1 where s1: "reset_module ?r = Some s1" "quiet s1" "ActiveCommand s1 = CMD_IDLE" "\<not> LastOperationStatus s1"
      "ticks s1 = replicate (length ESP8266_Baudrate * 1001) (1, []) @ ks" "uart_baud s1 = uart_baud s @ [115200]"
      "uart_out s1 = uart_out s @ line ''AT+RST''"
    using reset_module_silent [of ?r] q assms(2,3) by auto
  obtain s2 where s2: "try_rates ESP8266_Baudrate s1 = Some s2" "ticks s2 = ks" "\<not> LastOperationStatus s2"
      "uart_baud s2 = uart_baud s1 @ replicate (length ESP8266_Baudrate) 115200"
      "uart_out s2 = uart_out s1 @ concat (replicate (length ESP8266_Baudrate) (line ''AT+RST''))"
    using try_rates_silent [OF s1(2,3,4,5)] by blast
  have "length ESP8266_Baudrate = 4" by (simp add: ESP8266_Baudrate_def)
  then have "uart_baud s2 = uart_baud s @ replicate 5 115200" "uart_out s2 = uart_out s @ concat (replicate 5 (line ''AT+RST''))"
    using s1(6,7) s2(4,5) by (simp_all add: numeral_eq_Suc)
  then show ?thesis
    using s1(4) s2(2,3) by (simp only: ESP8266_Init_def Let_def B(1) C(1) prod.case) (simp add: d s1(1) s2(1) ret_def)
qed

text \<open>C28. With a module that never answers, \<open>ESP8266_Init\<close> on cleared memory comes to an end: it waits 200 milliseconds,
  sends the reset command five times with a time-out of one second each and reports that there is no device. All
  five attempts set the serial port to 115200 baud, whatever rate the caller asks for: the list of rates is never
  tried.\<close>

theorem esp_init_no_module:
  assumes "esp_memory s" "ActiveCommand s = CMD_IDLE" "\<not> LastOperationStatus s" "\<not> InIPD s" "\<not> WaitForWrapper s"
    and "list_all (\<lambda>c. \<not> CallDataReceived c) (Connection s)" and "ticks s = replicate 5205 (1, []) @ ks"
  shows "\<exists>s'. ESP8266_Init baudrate s = Some (ESP_DEVICENOTCONNECTED, s') \<and> ticks s' = ks \<and>
    uart_baud s' = uart_baud s @ replicate 5 115200 \<and> uart_out s' = uart_out s @ concat (replicate 5 (line ''AT+RST''))"
  using assms by (rule init_no_module)

lemma memory_esp0: "esp_memory (esp0\<lparr>ticks := ks\<rparr>)"
  unfolding esp_memory_def
  by (rule exI [of _ "TMP_Buffer esp0"], rule exI [of _ "USART_Buffer esp0"]) (use quiet_esp0 in \<open>simp add: quiet_def\<close>)

theorem esp_init_no_module_witness:
  "\<exists>s'. ESP8266_Init 9600 (esp0\<lparr>ticks := replicate 5205 (1, [])\<rparr>) = Some (ESP_DEVICENOTCONNECTED, s') \<and> ticks s' = [] \<and>
     uart_baud s' = replicate 5 115200 \<and> uart_out s' = concat (replicate 5 (line ''AT+RST''))"
proof -
  have "list_all (\<lambda>c. \<not> CallDataReceived c) (Connection esp0)"
    using quiet_esp0 by (simp add: quiet_def)
  then show ?thesis
    using esp_init_no_module [OF memory_esp0, of "replicate 5205 (1, [])" "[]" 9600] by (simp add: esp0_def)
qed

end
