(* ===== verification/Esp8266_Data.thy ===== *)
theory Esp8266_Data
  imports Esp8266_Silent
begin

text \<open>
  Network data in the WiFi driver: from the bytes that the interrupt stores, over the line with the header and the
  loop that collects the data, to the callback of the application.
\<close>

section \<open>The line that is read\<close>

lemma buf_read_string_plain:
  assumes "buf_wf B" "buf_contents B = L @ rest" "StringDelimiter B \<notin> set L" "unat i + length L < length buff" "length buff < 2 ^ 32"
  shows "\<exists>B'. buf_read_string (length L) B buff ch i =
      Some (i + of_nat (length L), take (unat i) buff @ L @ drop (unat i + length L) buff, B') \<and> buf_contents B' = rest"
  using assms
proof (induction L arbitrary: B buff ch i)
  case Nil
  then show ?case by simp
next
  case (Cons v L)
  obtain m B' where r: "BUFFER_Read (Some B) [ch] 1 = Some (m, [v], Some B')" "buf_wf B'"
    "buf_contents B' = L @ rest" "StringDelimiter B' = StringDelimiter B"
    using buf_read_one [OF Cons.prems(1), of ch] Cons.prems(2) by auto
  have inc: "unat (i + 1) = Suc (unat i)" using Cons.prems by (simp add: unat_Suc_small)
  have il: "unat i < length buff" using Cons.prems by simp
  obtain B'' where IH: "buf_read_string (length L) B' (buff[unat i := v]) v (i + 1) = Some (i + 1 + of_nat (length L),
      take (unat (i + 1)) (buff[unat i := v]) @ L @ drop (unat (i + 1) + length L) (buff[unat i := v]), B'')" "buf_contents B'' = rest"
    using Cons.IH [of B' "i + 1" "buff[unat i := v]" v] Cons.prems r inc by auto
  then show ?case
    using r il inc Cons.prems(3) overwrite_step [OF il, of v L] by (auto simp: mem_simps add.assoc)
qed

text \<open>The line at the head of a stream: up to the newline, at most 127 bytes.\<close>

definition first_line :: "u8 list \<Rightarrow> u8 list" where
  "first_line t = take (min 127 (length (takeWhile (\<lambda>c. c \<noteq> 0x0A) t) + 1)) t"

text \<open>Whether the driver reads the line already.\<close>

definition has_line :: "u8 list \<Rightarrow> bool" where
  "has_line t \<longleftrightarrow> 0x0A \<in> set t \<or> 128 \<le> length t"

lemma ReadString_none:
  assumes "buf_ok sz b" "129 \<le> sz" "sz \<le> 1024" "\<not> has_line (contents b)"
  shows "\<exists>R. BUFFER_ReadString b (replicate RECEIVED_SIZE 0) (of_nat RECEIVED_SIZE) = Some (0, R, b)"
proof -
  obtain B where B: "b = Some B" "buf_wf B" "Size B = sz" "StringDelimiter B = 0x0A" "contents b = buf_contents B"
    using assms(1) by (auto simp: buf_ok_Some contents_def)
  have "unat (Size B) \<le> 2 ^ 31"
    using assms(3) B(3) by (simp add: word_le_nat_alt)
  then have "BUFFER_FindElement (Some B) 0x0A = Some (- 1)"
    using buf_FindElement_spec [OF B(2)] assms(4) B(5) by (simp add: has_line_def)
  moreover have "BUFFER_GetFull (Some B) < 128"
    using unat_GetFull [OF B(2)] assms(4) B(5) by (simp add: has_line_def word_less_nat_alt)
  moreover have "buf_room B \<noteq> 0"
    using assms(2,4) B(3,5) by (simp add: buf_room_def has_line_def word_le_nat_alt)
  then have "BUFFER_GetFree (Some B) \<noteq> 0"
    using unat_GetFree [OF B(2)] by auto
  ultimately show ?thesis
    using B(1,4) by (simp add: BUFFER_ReadString_def RECEIVED_SIZE_def)
qed

lemma ReadString_line:
  assumes "buf_ok sz b" "sz \<le> 1024" "has_line (contents b)"
  shows "\<exists>n R b'. BUFFER_ReadString b (replicate RECEIVED_SIZE 0) (of_nat RECEIVED_SIZE) = Some (n, R, b') \<and> buf_ok sz b' \<and>
    n \<noteq> 0 \<and> take (unat n) R = first_line (contents b) \<and> contents b' = drop (length (first_line (contents b))) (contents b)"
proof -
  obtain B where B: "b = Some B" "buf_wf B" "Size B = sz" "StringDelimiter B = 0x0A" "contents b = buf_contents B"
    using assms(1) by (auto simp: buf_ok_Some contents_def)
  let ?t = "buf_contents B" and ?p = "length (takeWhile (\<lambda>c. c \<noteq> 0x0A) (buf_contents B))"
  have small: "unat (Size B) \<le> 2 ^ 31"
    using assms(2) B(3) by (simp add: word_le_nat_alt)
  have find: "BUFFER_FindElement (Some B) 0x0A = Some (if 0x0A \<in> set ?t then int ?p else - 1)"
    by (rule buf_FindElement_spec [OF B(2) small])
  have full: "BUFFER_GetFull (Some B) \<noteq> 0" "128 \<le> length ?t \<Longrightarrow> \<not> BUFFER_GetFull (Some B) < 128"
    using unat_GetFull [OF B(2)] assms(3) B(5) by (auto simp: has_line_def word_less_nat_alt)
  obtain i R B' where r: "buf_read_string 127 B (replicate 128 0) 0 0 = Some (i, R, B')" "buf_wf B'" "Size B' = Size B"
      "StringDelimiter B' = StringDelimiter B" "length R = 128" "unat i \<le> 127"
    using buf_read_string_total [OF B(2), of 0 127 "replicate 128 0" 0] by auto
  have start: "BUFFER_ReadString b (replicate RECEIVED_SIZE 0) (of_nat RECEIVED_SIZE) =
      do { (i, buff) \<leftarrow> (if i = 127 then map_option (Pair i) (c_upd R (unat i) 0)
              else map_option (Pair (i + 1)) (c_upd R (unat (i + 1)) 0)); Some (i, buff, Some B') }"
    using B(1,4) find full assms(3) r(1) B(5) by (auto simp: BUFFER_ReadString_def RECEIVED_SIZE_def has_line_def)
  have ok: "buf_ok sz (Some B')" "contents (Some B') = buf_contents B'"
    using r B by (simp_all add: buf_ok_def contents_def)
  show ?thesis
  proof (cases "0x0A \<in> set ?t \<and> ?p < 127")
    case True
    then have e: "i = of_nat ?p" "R = take (Suc ?p) ?t @ drop (Suc ?p) (replicate 128 0)" "buf_contents B' = drop (Suc ?p) ?t"
      using buf_read_string_delim [OF B(2) _ refl, of 127 0 "replicate 128 0" 0] r(1) B(4) by auto
    have i: "unat i = ?p" "i \<noteq> 127" "unat (i + 1) = Suc ?p"
      using True e(1) by (auto simp: unat_of_nat_u32 unat_Suc_small word_unat_eq_iff)
    have "Suc ?p \<le> length ?t"
      using True length_takeWhile_lt [of "0x0A" ?t] by (simp add: Suc_le_eq)
    moreover have "min 127 (?p + 1) = Suc ?p" using True by simp
    ultimately have "first_line ?t = take (Suc ?p) ?t" "take (Suc ?p) (R[Suc ?p := 0]) = take (Suc ?p) ?t" "length (first_line ?t) = Suc ?p"
      by (simp_all add: first_line_def e(2))
    moreover have "BUFFER_ReadString b (replicate RECEIVED_SIZE 0) (of_nat RECEIVED_SIZE) = Some (i + 1, R[Suc ?p := 0], Some B')"
      using start i r(5) True by (simp add: mem_simps)
    moreover have "i + 1 \<noteq> 0"
      using i(3) by (metis nat.distinct(1) unat_0)
    ultimately show ?thesis
      using i(3) ok e(3) B(5) by metis
  next
    case False
    have long: "127 \<le> length ?t"
      using False assms(3) B(5) length_takeWhile_le [of "\<lambda>c. c \<noteq> 0x0A" ?t] by (auto simp: has_line_def)
    have "?p = length ?t" if "0x0A \<notin> set ?t"
      using that by (intro arg_cong [of _ _ length] takeWhile_eq_all_conv [THEN iffD2]) auto
    then have "127 \<le> ?p"
      using False long by (cases "0x0A \<in> set ?t") simp_all
    then have "take 127 ?t = take 127 (takeWhile (\<lambda>c. c \<noteq> 0x0A) ?t)"
      by (metis append_Nil2 append_take_drop_id diff_is_0_eq take0 take_append takeWhile_dropWhile_id)
    then have nl: "0x0A \<notin> set (take 127 ?t)"
      using set_takeWhileD [of "0x0A" "\<lambda>c. c \<noteq> 0x0A" ?t] by (metis in_set_takeD)
    have "i = 127" "R = take 127 ?t @ [0]" "buf_contents B' = drop 127 ?t"
      using buf_read_string_plain [OF B(2), of "take 127 ?t" "drop 127 ?t" 0 "replicate 128 0" 0] nl r(1) B(4) min.absorb2 [OF long]
      by auto
    then show ?thesis
      using start ok long \<open>127 \<le> ?p\<close> r(5) B(5) by (simp add: mem_simps first_line_def)
  qed
qed

section \<open>The header\<close>

text \<open>The header of network data as the module sends it with connection information switched on.\<close>

definition ipd_text :: "nat \<Rightarrow> nat \<Rightarrow> u8 \<times> u8 \<times> u8 \<times> u8 \<Rightarrow> nat \<Rightarrow> ctext" where
  "ipd_text i n addr port = (case addr of (a, b, c, d) \<Rightarrow>
     ascii ''+IPD,'' @ [0x30 + of_nat i, 0x2C] @ numeral_text False 10 n @ [0x2C] @ ip_text a b c d @ [0x2C] @
     numeral_text False 10 port @ [0x3A])"

lemma numeral_no_zero: "0 \<notin> set (numeral_text False 10 n)" "0x3A \<notin> set (numeral_text False 10 n)" "numeral_text False 10 n \<noteq> []"
proof -
  have "k < 10 \<Longrightarrow> CHARISNUM (digit_char False k)" for k using digit_char_num by blast
  then have "c \<in> set (numeral_text False 10 n) \<Longrightarrow> CHARISNUM c" for c
    using radix_digits [of 10 n] by (auto simp: numeral_text_def)
  from this [of 0] this [of "0x3A"] show "0 \<notin> set (numeral_text False 10 n)" "0x3A \<notin> set (numeral_text False 10 n)"
    by (auto simp: CHARISNUM_def)
  show "numeral_text False 10 n \<noteq> []" by (simp add: numeral_text_def)
qed

lemma ip_text_plain: "0 \<notin> set (ip_text a b c d)" "0x3A \<notin> set (ip_text a b c d)"
  using numeral_no_zero by (auto simp: ip_text_def)

lemma digit_plain: "i < 5 \<Longrightarrow> 0x30 + of_nat i \<noteq> (0 :: u8) \<and> 0x30 + of_nat i \<noteq> (0x3A :: u8) \<and> CHAR2NUM (0x30 + of_nat i) = int i"
proof -
  assume "i < 5"
  then have "i \<in> set [0..<5]" by simp
  moreover have "\<forall>i \<in> set [0..<5]. 0x30 + of_nat i \<noteq> (0 :: u8) \<and> 0x30 + of_nat i \<noteq> (0x3A :: u8) \<and> CHAR2NUM (0x30 + of_nat i) = int i"
    by code_simp
  ultimately show ?thesis by blast
qed

lemma ipd_text_plain:
  assumes "i < 5"
  shows "0 \<notin> set (ipd_text i n addr port)" "takeWhile (\<lambda>c. c \<noteq> 0x3A) (ipd_text i n addr port @ r) = butlast (ipd_text i n addr port)"
proof -
  obtain a b c d where addr: "addr = (a, b, c, d)" by (metis prod_cases4)
  show "0 \<notin> set (ipd_text i n addr port)"
    using digit_plain [OF assms] numeral_no_zero ip_text_plain by (auto simp: ipd_text_def addr ascii_def)
  let ?t = "ascii ''+IPD,'' @ [0x30 + of_nat i, 0x2C] @ numeral_text False 10 n @ [0x2C] @ ip_text a b c d @ [0x2C] @ numeral_text False 10 port"
  have "\<forall>c \<in> set ?t. c \<noteq> 0x3A"
    using digit_plain [OF assms] numeral_no_zero ip_text_plain by (auto simp: ascii_def)
  then have "takeWhile (\<lambda>c. c \<noteq> 0x3A) (?t @ [0x3A] @ r) = ?t @ takeWhile (\<lambda>c. c \<noteq> 0x3A) ([0x3A] @ r)"
    by (intro takeWhile_append2) auto
  moreover have "ipd_text i n addr port = ?t @ [0x3A]"
    by (simp add: ipd_text_def addr)
  ultimately show "takeWhile (\<lambda>c. c \<noteq> 0x3A) (ipd_text i n addr port @ r) = butlast (ipd_text i n addr port)"
    by (simp only: append_assoc) (simp add: butlast_append)
qed

lemma numeral_length: "n < 2 ^ 32 \<Longrightarrow> length (numeral_text False 10 n) \<le> 10"
  using radix_le [of 10 n 10] by (simp add: numeral_text_def)

text \<open>The connection after the header.\<close>

definition conn_header :: "nat \<Rightarrow> nat \<Rightarrow> u8 \<times> u8 \<times> u8 \<times> u8 \<Rightarrow> nat \<Rightarrow> ESP8266_Connection_t \<Rightarrow> ESP8266_Connection_t" where
  "conn_header i n addr port c = (case addr of (a1, a2, a3, a4) \<Rightarrow>
     c\<lparr>DataPtr := True, Number := of_nat i, BytesReceived := of_nat n,
       HeadersDone := (HeadersDone c \<and> ConnTotalBytes c \<noteq> 0), FirstPacket := (ConnTotalBytes c = 0),
       ConnTotalBytes := ConnTotalBytes c + of_nat n, RemoteIP := [a1, a2, a3, a4], RemotePort := of_nat port\<rparr>)"

lemma line_mem_append: "k = length p \<Longrightarrow> line_mem (p @ q) k = q @ replicate (128 - length (p @ q)) 0"
  by (simp add: line_mem_def RECEIVED_SIZE_def)

lemma skip_append: "k = length p \<Longrightarrow> skip k (p @ q) = Some q"
  by (simp add: skip_def)

lemma ipd_header_parse:
  assumes "R = ipd_text i n addr port @ d1" "length R \<le> 128" "i < 5" "n < 2 ^ 32" "port < 2 ^ 16" "esp_wf s"
  shows "ipd_header R u s = Some (conn_header i n addr port (Connection s ! i),
    s\<lparr>InIPD := True, IPD_USART := u, ConnNumber := of_nat i, TotalBytesReceived := TotalBytesReceived s + of_nat n\<rparr>)"
proof -
  obtain a b c d where addr: "addr = (a, b, c, d)" by (metis prod_cases4)
  let ?n = "numeral_text False 10 n" and ?p = "numeral_text False 10 port"
  have R: "R = ascii ''+IPD,'' @ [0x30 + of_nat i, 0x2C] @ ?n @ [0x2C] @ ip_text a b c d @ [0x2C] @ ?p @ [0x3A] @ d1"
    using assms(1) by (simp add: ipd_text_def addr)
  have cs: "cstr R = ascii ''+IPD,'' @ [0x30 + of_nat i, 0x2C] @ ?n @ [0x2C] @ ip_text a b c d @ [0x2C] @ ?p @ [0x3A] @ cstr d1"
    using cstr_append [OF ipd_text_plain(1) [OF assms(3)], of n addr port d1] assms(1) by (simp add: ipd_text_def addr)
  have sk: "skip 7 (cstr R) = Some (?n @ [0x2C] @ ip_text a b c d @ [0x2C] @ ?p @ [0x3A] @ cstr d1)"
    by (simp add: skip_def cs ascii_def)
  have ln: "length ?n \<le> 10" "unat (of_nat (length ?n) :: u8) = length ?n"
    using numeral_length [OF assms(4)] by (simp_all add: unat_of_nat)
  have l15: "length (ip_text a b c d) \<le> 15"
    using dec_length [of a] dec_length [of b] dec_length [of c] dec_length [of d] by (simp add: ip_text_def)
  then have li: "unat (of_nat (length (ip_text a b c d)) :: u8) = length (ip_text a b c d)"
    by (simp add: unat_of_nat)
  have pn: "ParseNumber (?n @ 0x2C # t) = (of_nat n, of_nat (length ?n))"
    "ParseNumber (?p @ 0x3A # t) = (of_nat port, of_nat (length ?p))" for t
    by (simp_all add: ParseNumber_numeral no_digit_def CHARISNUM_def)
  have nth5: "c_nth (line_mem R 0) 5 = Some (0x30 + of_nat i)"
    by (simp add: line_mem_def c_nth_def R ascii_def)
  have cn: "uint (of_nat i :: u8) = int i" "word_of_int (int i) = (of_nat i :: u8)"
    using assms(3) by (simp_all add: unsigned_of_nat take_bit_nat_eq_self)
  have mem: "line_mem R (8 + length ?n) = ip_text a b c d @ [0x2C] @ ?p @ [0x3A] @ d1 @ replicate (128 - length R) 0"
    using line_mem_append [of "8 + length ?n" "ascii ''+IPD,'' @ [0x30 + of_nat i, 0x2C] @ ?n @ [0x2C]"] by (simp add: R ascii_def)
  have "length (line_mem R (8 + length ?n)) = 128 - (8 + length ?n)"
    using assms(2) by (simp add: line_mem_def RECEIVED_SIZE_def)
  then have ip: "length arr = 4 \<Longrightarrow> ParseIP (line_mem R (8 + length ?n)) arr = Some ([a, b, c, d], of_nat (length (ip_text a b c d)))" for arr
    using parse_ip_text [of arr "[0x2C] @ ?p @ [0x3A] @ d1 @ replicate (128 - length R) 0" a b c d] ln(1)
    unfolding mem by (simp add: no_digit_def CHARISNUM_def)
  have sk2: "skip (9 + (length ?n + length (ip_text a b c d))) (cstr R) = Some (?p @ [0x3A] @ cstr d1)"
    using skip_append [of "9 + (length ?n + length (ip_text a b c d))"
        "ascii ''+IPD,'' @ [0x30 + of_nat i, 0x2C] @ ?n @ [0x2C] @ ip_text a b c d @ [0x2C]"] by (simp add: cs ascii_def)
  have conn: "conn_at (int i) s' = Some (Connection s ! i)" if "Connection s' = Connection s" for s'
    using that assms(3) esp_wf_fields(1) [OF assms(6)] by (simp add: conn_at_def)
  have rip: "length (RemoteIP (Connection s ! i)) = 4"
    using conn_nth_wf [OF assms(6,3)] by (simp add: conn_wf_def)
  have pt: "ucast (of_nat port :: u32) = (of_nat port :: u16)"
    using assms(5) by (simp add: word_unat_eq_iff unsigned_ucast_eq unsigned_of_nat take_bit_nat_eq_self)
  show ?thesis
    using ip [OF rip]
    by (simp add: pt ipd_header_def nth5 digit_plain [OF assms(3)] cn conn sk pn ln li sk2 conn_header_def addr Let_def)
qed

lemma ipd_data_line:
  fixes n :: nat and d1 :: "u8 list"
  defines "m \<equiv> min n (length d1)"
  assumes "R = hdr @ d1" "takeWhile (\<lambda>c. c \<noteq> 0x3A) R = butlast hdr" "hdr \<noteq> []" "length R \<le> 128" "n \<le> 5842"
    "BytesReceived c = of_nat n" "esp_wf s"
  shows "ipd_data R c s =
    (let s = s\<lparr>ConnectionData := take m d1 @ drop m (ConnectionData s), InPtr := of_nat m, PtrTotal := of_nat m\<rparr>
     in if n \<le> length hdr
        then Some (set_conn (uint (ConnNumber s)) (c\<lparr>DataSize := of_nat (length hdr), LastPart := True, CallDataReceived := True\<rparr>)
                    (s\<lparr>InIPD := False\<rparr>))
        else Some (set_conn (uint (ConnNumber s)) c s))"
proof -
  let ?h = "length hdr" and ?l = "length d1"
  have h: "(of_nat (length (takeWhile (\<lambda>c. c \<noteq> 0x3A) R)) + 1 :: u32) = of_nat ?h"
    using assms(3,4) by (cases hdr) simp_all
  have sz: "?h + ?l \<le> 128" using assms(2,5) by simp
  have d: "(of_nat (length R) :: u32) - of_nat ?h = of_nat ?l"
    using assms(2) by simp
  have gt: "((of_nat ?l :: u32) > of_nat n) = (n < ?l)"
    using sz assms(6) by (simp add: word_less_nat_alt unat_of_nat_u32)
  have tr: "ucast (ucast (of_nat n + of_nat ?h :: u32) :: u16) = (of_nat n + of_nat ?h :: u32)"
    using sz assms(6) by (simp add: word_unat_eq_iff unsigned_ucast_eq unsigned_of_nat take_bit_nat_eq_self flip: of_nat_add)
  have le: "\<not> (of_nat m :: u32) > of_nat n"
    using sz assms(6) by (simp add: m_def word_less_nat_alt unat_of_nat_u32)
  have cp: "c_memcpy (ConnectionData s) 0 R (unat (of_nat ?h :: u32)) (unat (of_nat m :: u32)) = Some (take m d1 @ drop m (ConnectionData s))"
    using sz assms(2,6) esp_wf_fields(2) [OF assms(8)] by (simp add: c_memcpy_def unat_of_nat_u32 m_def)
  have ge: "((of_nat ?h :: u32) \<ge> of_nat n) = (n \<le> ?h)"
    using sz assms(6) by (simp add: word_le_nat_alt unat_of_nat_u32)
  have uc: "ucast (of_nat k :: u32) = (of_nat k :: u16)" if "k < 65536" for k
    using that by (simp add: word_unat_eq_iff unsigned_ucast_eq unsigned_of_nat take_bit_nat_eq_self)
  have mh: "ucast (of_nat m :: u32) = (of_nat m :: u16)" "ucast (of_nat ?h :: u32) = (of_nat ?h :: u16)"
    using sz assms(6) by (auto intro!: uc simp: m_def)
  show ?thesis
  proof (cases "n < ?l")
    case True
    then have "m = n" by (simp add: m_def)
    then show ?thesis
      using True cp le mh by (simp add: ipd_data_def Let_def h d gt tr ge assms(7))
  next
    case False
    then have "m = ?l" by (simp add: m_def)
    then show ?thesis
      using False cp le mh by (simp add: ipd_data_def Let_def h d gt ge assms(7))
  qed
qed

text \<open>A line whose text could be taken for another message of the module: the driver looks for these in every line,
  also in one that holds network data.\<close>

definition no_message :: "u8 list \<Rightarrow> bool" where
  "no_message R \<longleftrightarrow> strstr (cstr R) (line ''SEND OK'') = None \<and>
     list_all (\<lambda>t. drop (length R - length t) R \<noteq> t) [line '',CONNECT'', line '',CLOSED'', line '',CONNECT FAIL'']"

lemma callbacks_none:
  assumes "esp_wf s" "list_all (\<lambda>c. \<not> CallDataReceived c) (Connection s)"
  shows "CallConnectionCallbacks s = s"
proof -
  have "data_received n s = s" if "n < 5" for n
    using assms that esp_wf_fields(1) by (auto simp: data_received_def Let_def list_all_length)
  then have "fold data_received ns s = s" if "set ns \<subseteq> {..<5}" for ns
    using that by (induction ns) auto
  then show ?thesis
    by (simp add: CallConnectionCallbacks_def ESP8266_MAX_CONNECTIONS_def lessThan_atLeast0)
qed

lemma mem_mem_same: "length h = length n \<Longrightarrow> mem_mem h n = (if h = n then Some 0 else None)"
  by (simp add: mem_mem_def)

lemma strstr_at: "strstr t n = Some p \<Longrightarrow> p + length n \<le> length t \<and> take (length n) (drop p t) = n"
proof (induction t arbitrary: p)
  case (Cons c t)
  show ?case
  proof (cases "take (length n) (c # t) = n")
    case True
    then have "length n \<le> length (c # t)" by (metis length_take min.cobounded1)
    then show ?thesis using Cons.prems True by auto
  next
    case False
    then show ?thesis using Cons by auto
  qed
qed (simp split: if_splits)

lemma strstr_long:
  assumes "length n \<ge> length t" "strstr t n \<noteq> None"
  shows "t = n"
proof -
  obtain p where p: "p + length n \<le> length t" "take (length n) (drop p t) = n"
    using assms(2) strstr_at by blast
  then have "p = 0" using assms(1) by simp
  then show ?thesis using p(2) assms(1) by simp
qed

lemma connection_none:
  assumes "no_message R"
  shows "pr_connection R s = Some s"
proof -
  have l: "length (line '',CONNECT'') = 10" "length (line '',CLOSED'') = 9" "length (line '',CONNECT FAIL'') = 15"
    by (simp_all add: line_def ascii_def)
  have "strstr (cstr (drop (length R - 15) R)) (line '',CONNECT FAIL'') = None" if "length R > 16"
  proof (rule ccontr)
    assume a: "strstr (cstr (drop (length R - 15) R)) (line '',CONNECT FAIL'') \<noteq> None"
    have le: "length (cstr (drop (length R - 15) R)) \<le> 15"
      using length_takeWhile_le [of "\<lambda>c. c \<noteq> 0" "drop (length R - 15) R"] that by (simp add: cstr_def)
    have eq: "cstr (drop (length R - 15) R) = line '',CONNECT FAIL''"
      using strstr_long [OF _ a] le l(3) by simp
    then have "length (cstr (drop (length R - 15) R)) = length (drop (length R - 15) R)"
      using that l(3) by simp
    then have "cstr (drop (length R - 15) R) = drop (length R - 15) R"
      unfolding cstr_def by (metis append_take_drop_id take_all_iff order_refl takeWhile_eq_take)
    then show False
      using eq assms l by (simp add: no_message_def)
  qed
  then show ?thesis
    using assms l by (simp add: pr_connection_def no_message_def mem_mem_same Let_def)
qed

lemma not_line_plus:
  assumes "R = 0x2B # r"
  shows "t \<in> {''OK'', ''SEND OK'', ''ERROR'', ''ready'', ''busy p...'', ''wdt reset'', ''WIFI CONNECTED'', ''WIFI DISCONNECT'', ''WIFI GOT IP''}
    \<Longrightarrow> \<not> is_line R (line t)" "\<not> is_line R (ascii ''DHCP TIMEOUT'')"
  using assms by (auto simp: is_line_def line_def ascii_def cstr_def)

lemma ParseReceived_ipd:
  assumes "R = 0x2B # r" "no_message R" "ActiveCommand s = CMD_IDLE" "esp_wf s" "list_all (\<lambda>c. \<not> CallDataReceived c) (Connection s)"
    and "\<And>s'. pr_ipd R u (s\<lparr>LastReceivedTime := Time s\<rparr>) = Some s' \<Longrightarrow> ActiveCommand s' = CMD_IDLE"
  shows "ParseReceived R u s = pr_ipd R u (s\<lparr>LastReceivedTime := Time s\<rparr>)"
proof -
  let ?s = "s\<lparr>LastReceivedTime := Time s\<rparr>"
  note nl = not_line_plus [OF assms(1)]
  have "pr_send_ok R (pr_wifi R (CallConnectionCallbacks (pr_reset R ?s))) = ?s"
    using assms(2,4,5) by (simp add: pr_send_ok_def pr_wifi_def pr_reset_def nl callbacks_none no_message_def)
  moreover have "pr_command R s' = Some s' \<and> pr_status R s' = s'" if "ActiveCommand s' = CMD_IDLE" for s'
    using that by (simp add: pr_command_def simple_commands_def pr_status_def nl)
  ultimately show ?thesis
    using assms(1,2,3,6) connection_none [of R]
    by (cases "pr_ipd R u ?s") (simp_all add: ParseReceived_def)
qed

section \<open>Collecting the data\<close>

text \<open>The state while \<open>n\<close> bytes for the connection \<open>i\<close> are collected, with \<open>k\<close> of them in place.\<close>

definition collecting :: "nat \<Rightarrow> nat \<Rightarrow> nat \<Rightarrow> esp \<Rightarrow> bool" where
  "collecting i n k s \<longleftrightarrow> esp_wf s \<and> InIPD s \<and> IPD_USART s \<and> i < 5 \<and> ConnNumber s = of_nat i \<and> n \<le> 5842 \<and> k \<le> n \<and>
     DataPtr (Connection s ! i) \<and> BytesReceived (Connection s ! i) = of_nat n \<and> InPtr s = of_nat k \<and> PtrTotal s = of_nat k"

lemma collecting_conn:
  assumes "collecting i n k s"
  shows "conn_at (uint (ConnNumber s)) s = Some (Connection s ! i)" "unat (InPtr s) = k" "unat (PtrTotal s) = k"
    "unat (BytesReceived (Connection s ! i)) = n"
proof -
  have "uint (ConnNumber s) = int i"
    using assms by (simp add: collecting_def unsigned_of_nat take_bit_nat_eq_self)
  then show "conn_at (uint (ConnNumber s)) s = Some (Connection s ! i)"
    using assms esp_wf_fields(1) by (simp add: collecting_def conn_at_def)
  show "unat (InPtr s) = k" "unat (PtrTotal s) = k" "unat (BytesReceived (Connection s ! i)) = n"
    using assms by (simp_all add: collecting_def unsigned_of_nat take_bit_nat_eq_self)
qed

lemma collecting_more:
  assumes "collecting i n k s"
  shows "(ucast (InPtr s) < BytesReceived (Connection s ! i)) = (k < n)" "(ucast (PtrTotal s) \<ge> BytesReceived (Connection s ! i)) = (n = k)"
proof -
  have "k \<le> 5842" "k \<le> n" using assms by (simp_all add: collecting_def)
  then show "(ucast (InPtr s) < BytesReceived (Connection s ! i)) = (k < n)"
    "(ucast (PtrTotal s) \<ge> BytesReceived (Connection s ! i)) = (n = k)"
    using collecting_conn [OF assms] by (auto simp: word_less_nat_alt word_le_nat_alt unsigned_ucast_eq take_bit_nat_eq_self)
qed

lemma ipd_bytes_run:
  assumes "collecting i n k s" "m = min (n - k) (length (contents (USART_Buffer s)))"
  shows "\<exists>b. ipd_bytes s = Some (s\<lparr>
      ConnectionData := take k (ConnectionData s) @ take m (contents (USART_Buffer s)) @ drop (k + m) (ConnectionData s),
      InPtr := of_nat (k + m), PtrTotal := of_nat (k + m), USART_Buffer := b\<rparr>) \<and>
    buf_ok ESP8266_USARTBUFFER_SIZE b \<and> contents b = drop m (contents (USART_Buffer s))"
  using assms
proof (induction m arbitrary: s k)
  case 0
  have ok: "buf_ok ESP8266_USARTBUFFER_SIZE (USART_Buffer s)"
    using 0 by (simp add: collecting_def esp_wf_fields)
  then have "BUFFER_GetFull (USART_Buffer s) > 0 \<longleftrightarrow> contents (USART_Buffer s) \<noteq> []"
    using unat_GetFull by (auto simp: buf_ok_Some contents_def word_less_nat_alt)
  then have "ipd_bytes s = Some s"
    using 0 collecting_more(1) [OF "0.prems"(1)] collecting_conn(1) [OF "0.prems"(1)]
    by (subst ipd_bytes.simps) (auto simp: ipd_buffer_def collecting_def min_def split: if_splits)
  then show ?case
    using 0 ok by (intro exI [of _ "USART_Buffer s"]) (auto simp: collecting_def)
next
  case (Suc m)
  let ?D = "ConnectionData s" and ?d = "contents (USART_Buffer s)"
  have wf: "esp_wf s" and k: "k < n" "n \<le> 5842" and u: "IPD_USART s" "DataPtr (Connection s ! i)" and D: "length ?D = 5842"
    using Suc.prems esp_wf_fields(2) by (auto simp: collecting_def)
  obtain v rest where d: "?d = v # rest"
    using Suc.prems(2) by (cases ?d) auto
  obtain q b where b: "BUFFER_Read (USART_Buffer s) [0] 1 = Some (q, [v], b)" "buf_ok ESP8266_USARTBUFFER_SIZE b" "contents b = rest"
    using Read_ok [OF esp_wf_fields(18) [OF wf], of 1 "[0]"] d by auto
  have full: "BUFFER_GetFull (USART_Buffer s) > 0"
    using esp_wf_fields(18) [OF wf] d unat_GetFull by (auto simp: buf_ok_Some contents_def word_less_nat_alt)
  have lt: "ucast (InPtr s) < BytesReceived (Connection s ! i)"
    using collecting_more(1) [OF Suc.prems(1)] k by simp
  let ?s = "s\<lparr>ConnectionData := ?D[k := v], InPtr := of_nat (Suc k), PtrTotal := of_nat (Suc k), USART_Buffer := b\<rparr>"
  have "InPtr s + 1 = of_nat (Suc k)" "PtrTotal s + 1 = of_nat (Suc k)"
    using Suc.prems(1) by (simp_all add: collecting_def)
  then have step: "ipd_bytes s = ipd_bytes ?s"
    using collecting_conn(1,2) [OF Suc.prems(1)] full lt b(1) u k D
    by (subst ipd_bytes.simps) (simp add: ipd_buffer_def set_ipd_buffer_def mem_simps add.commute)
  have "esp_wf ?s"
    using wf b(2) D by (simp add: esp_wf_arrays)
  then have col: "collecting i n (Suc k) ?s"
    using Suc.prems(1) k by (simp add: collecting_def)
  have "m = min (n - Suc k) (length (contents (USART_Buffer ?s)))"
    using Suc.prems(2) d k(1) b(3) by simp
  then obtain b' where "ipd_bytes ?s = Some (?s\<lparr>
      ConnectionData := take (Suc k) (?D[k := v]) @ take m rest @ drop (Suc k + m) (?D[k := v]),
      InPtr := of_nat (Suc k + m), PtrTotal := of_nat (Suc k + m), USART_Buffer := b'\<rparr>)"
      "buf_ok ESP8266_USARTBUFFER_SIZE b'" "contents b' = drop m rest"
    using Suc.IH [OF col] b(3) by auto
  moreover have "take (Suc k) (?D[k := v]) = take k ?D @ [v]"
    using k D by (simp add: take_Suc_conv_app_nth)
  ultimately show ?case
    using step d by (intro exI [of _ b']) simp
qed

end
