(* ===== verification/Esp8266_Deliver.thy ===== *)
theory Esp8266_Deliver
  imports Esp8266_Data
begin

text \<open>
  The delivery of network data to the application: the update function called after every interrupt, for any
  division of the received bytes into pieces.
\<close>

section \<open>One call of the update function\<close>

definition idle :: "esp \<Rightarrow> bool" where
  "idle s \<longleftrightarrow> esp_wf s \<and> ActiveCommand s = CMD_IDLE \<and> \<not> WaitForWrapper s \<and> contents (TMP_Buffer s) = []"

definition no_pending :: "esp \<Rightarrow> bool" where
  "no_pending s \<longleftrightarrow> list_all (\<lambda>c. \<not> CallDataReceived c) (Connection s)"

definition set_timeout :: "esp \<Rightarrow> esp" where
  "set_timeout s = s\<lparr>Timeout := (if Timeout s = 0 then 30000 else Timeout s)\<rparr>"

lemma set_timeout_simps [simp]:
  "USART_Buffer (set_timeout s) = USART_Buffer s" "TMP_Buffer (set_timeout s) = TMP_Buffer s" "InIPD (set_timeout s) = InIPD s"
  "ActiveCommand (set_timeout s) = ActiveCommand s" "WaitForWrapper (set_timeout s) = WaitForWrapper s" "calls (set_timeout s) = calls s"
  "Connection (set_timeout s) = Connection s" "ConnectionData (set_timeout s) = ConnectionData s" "Time (set_timeout s) = Time s"
  "TotalBytesReceived (set_timeout s) = TotalBytesReceived s" "esp_wf (set_timeout s) = esp_wf s"
  by (simp_all add: set_timeout_def)

lemma set_timeout_preds [simp]:
  "idle (set_timeout s) = idle s" "no_pending (set_timeout s) = no_pending s" "collecting i n k (set_timeout s) = collecting i n k s"
  by (simp_all add: idle_def no_pending_def) (simp add: set_timeout_def collecting_def)

text \<open>The steps of the update function after the lines of the serial port.\<close>

definition rest_of_update :: "esp \<Rightarrow> (ESP8266_Result_t \<times> esp) option" where
  "rest_of_update s = do { s \<leftarrow> tmp_lines s; s \<leftarrow> up_ipd s; ret ESP_OK (CallConnectionCallbacks s) }"

lemma idle_again: "ActiveCommand s = CMD_IDLE \<Longrightarrow> s\<lparr>ActiveCommand := CMD_IDLE\<rparr> = s"
  by (cases s) simp

lemma Update_idle:
  assumes "idle s"
  shows "ESP8266_Update s = do { s \<leftarrow> usart_lines (set_timeout s); rest_of_update s }"
proof -
  have "up_timeout s = Some (set_timeout s)"
    using assms idle_again [of "set_timeout s"] by (simp add: up_timeout_def idle_def set_timeout_def Let_def)
  moreover have "up_wrapper (set_timeout s) = Some (set_timeout s)" "up_uart (set_timeout s) = Some (set_timeout s)"
    using assms by (simp_all add: up_wrapper_def up_uart_def idle_def set_timeout_def)
  ultimately show ?thesis
    by (simp add: ESP8266_Update_def rest_of_update_def)
qed

lemma tmp_lines_idle: "idle s \<Longrightarrow> tmp_lines s = Some s"
  using ReadString_empty [of ESP8266_TMPBUFFER_SIZE "TMP_Buffer s"] esp_wf_fields(17) [of s]
  by (subst tmp_lines.simps) (auto simp: idle_def ESP8266_TMPBUFFER_SIZE_def)

text \<open>Nothing to do while the line is not complete.\<close>

lemma Update_waiting:
  assumes "idle s" "no_pending s" "\<not> InIPD s" "\<not> has_line (contents (USART_Buffer s))"
  shows "ESP8266_Update s = Some (ESP_OK, set_timeout s\<lparr>Result := ESP_OK\<rparr>)"
proof -
  have i: "idle (set_timeout s)" using assms(1) by simp
  have "usart_lines (set_timeout s) = Some (set_timeout s)"
    using ReadString_none [of ESP8266_USARTBUFFER_SIZE "USART_Buffer s"] assms esp_wf_fields(18) [of s]
    by (subst usart_lines.simps) (auto simp: idle_def ESP8266_USARTBUFFER_SIZE_def set_timeout_def)
  moreover have "CallConnectionCallbacks (set_timeout s) = set_timeout s"
    using assms by (intro callbacks_none) (simp_all add: idle_def no_pending_def set_timeout_def)
  ultimately show ?thesis
    using assms(3) by (simp add: Update_idle [OF assms(1)] rest_of_update_def tmp_lines_idle [OF i] up_ipd_def ret_def)
qed

text \<open>One connection with data for the application.\<close>

definition deliver :: "nat \<Rightarrow> ESP8266_Connection_t \<Rightarrow> u8 list \<Rightarrow> esp_event" where
  "deliver i c d = (if Client c then ClientDataReceived i d else ServerDataReceived i d)"

lemma callbacks_one:
  assumes "esp_wf s" "no_pending s" "i < 5" "ActiveCommand s = CMD_IDLE" "Active c" "CallDataReceived c"
  shows "CallConnectionCallbacks (set_conn (int i) c s) =
    call (deliver i c (take (unat (DataSize c)) (ConnectionData s))) (set_conn (int i) (c\<lparr>CallDataReceived := False\<rparr>) s)"
proof -
  let ?s = "set_conn (int i) c s" and ?e = "set_conn (int i) (c\<lparr>CallDataReceived := False\<rparr>) s"
  have len: "length (Connection s) = 5" using esp_wf_fields(1) [OF assms(1)] .
  have before: "fold data_received ns ?s = ?s" if "set ns \<subseteq> {..<i}" for ns
    using that
  proof (induction ns)
    case (Cons n ns)
    then have "data_received n ?s = ?s"
      using assms(2,3) len by (auto simp: data_received_def set_conn_def Let_def no_pending_def list_all_length)
    then show ?case using Cons by simp
  qed simp
  have at: "data_received i ?s = call (deliver i c (take (unat (DataSize c)) (ConnectionData s))) ?e"
    using assms len by (simp add: data_received_def set_conn_def deliver_def Let_def call_def)
  have after: "fold data_received ns (call e ?e) = call e ?e" if "set ns \<subseteq> {..<5}" for ns e
    using that
  proof (induction ns)
    case (Cons n ns)
    then have "data_received n (call e ?e) = call e ?e"
      using assms(2,3) len by (auto simp: data_received_def set_conn_def Let_def no_pending_def list_all_length call_def nth_list_update)
    then show ?case using Cons by simp
  qed simp
  have split: "[0..<5] = [0..<i] @ i # [Suc i..<5]"
    using assms(3) upt_add_eq_append [of 0 i "5 - i"] upt_conv_Cons [of i 5] by (simp only: le_add_diff_inverse less_imp_le le0)
  show ?thesis
    using before [of "[0..<i]"] at after [of "[Suc i..<5]"]
    unfolding CallConnectionCallbacks_def ESP8266_MAX_CONNECTIONS_def split by (simp add: subset_eq)
qed

section \<open>The stages of a packet\<close>

text \<open>\<open>k\<close> bytes of the data are in place; all of them have been handed over. The state \<open>s0\<close> is the one before the packet.\<close>

definition ipd_part :: "nat \<Rightarrow> u8 list \<Rightarrow> nat \<Rightarrow> esp \<Rightarrow> esp \<Rightarrow> bool" where
  "ipd_part i payload k s0 s \<longleftrightarrow> idle s \<and> no_pending s \<and> collecting i (length payload) k s \<and>
     take k (ConnectionData s) = take k payload \<and> ConnectionData s ! 5841 = 0 \<and> calls s = calls s0 \<and>
     Active (Connection s ! i) \<and> Client (Connection s ! i) = Client (Connection s0 ! i)"

definition ipd_end :: "nat \<Rightarrow> u8 list \<Rightarrow> esp \<Rightarrow> esp \<Rightarrow> bool" where
  "ipd_end i payload s0 s \<longleftrightarrow> idle s \<and> no_pending s \<and> \<not> InIPD s \<and> contents (USART_Buffer s) = [] \<and>
     calls s = calls s0 @ [deliver i (Connection s0 ! i) payload]"

text \<open>The end of a packet.\<close>

lemma ipd_done_end:
  assumes "collecting i n n s" "no_pending s" "ConnectionData s ! 5841 = 0" "n < 5842" "ActiveCommand s = CMD_IDLE" "Active (Connection s ! i)"
  shows "\<exists>c. ipd_done s = Some (set_conn (int i) c (s\<lparr>InIPD := False\<rparr>)) \<and> conn_wf c \<and>
    CallConnectionCallbacks (set_conn (int i) c (s\<lparr>InIPD := False\<rparr>)) =
      call (deliver i (Connection s ! i) (take n (ConnectionData s))) (set_conn (int i) (c\<lparr>CallDataReceived := False\<rparr>) (s\<lparr>InIPD := False\<rparr>))"
proof -
  have wf: "esp_wf s" "i < 5" using assms(1) by (simp_all add: collecting_def)
  have "0 \<in> set (ConnectionData s)"
    using nth_mem [of 5841 "ConnectionData s"] assms(3) esp_wf_fields(2) [OF wf(1)] by simp
  then have tx: "data_text (s\<lparr>InIPD := False\<rparr>) \<noteq> None" by (simp add: data_text_def)
  have cn: "uint (ConnNumber s) = int i"
    using assms(1) by (simp add: collecting_def unsigned_of_nat take_bit_nat_eq_self)
  let ?c = "\<lambda>v. (Connection s ! i)\<lparr>DataSize := InPtr s, LastPart := True, ContentLength := v, CallDataReceived := True\<rparr>"
  obtain t where t: "data_text (s\<lparr>InIPD := False\<rparr>) = Some t" using tx by blast
  let ?v = "if FirstPacket (Connection s ! i) then (case strstr t (ascii ''Content-Length: '') of None \<Rightarrow> ContentLength (Connection s ! i)
      | Some p \<Rightarrow> fst (ParseNumber (drop (p + 16) t))) else ContentLength (Connection s ! i)"
  define v where "v = ?v"
  have v: "ipd_done s = Some (set_conn (int i) (?c v) (s\<lparr>InIPD := False\<rparr>))"
    unfolding v_def using collecting_conn(1) [OF assms(1)] collecting_more(2) [OF assms(1)] t cn
    by (cases "strstr t (ascii ''Content-Length: '')") (simp_all add: ipd_done_def Let_def)
  show ?thesis
    using v callbacks_one [of "s\<lparr>InIPD := False\<rparr>" i "?c v"] assms wf conn_nth_wf [OF wf] collecting_conn(2) [OF assms(1)]
    by (intro exI [of _ "?c v"]) (simp add: no_pending_def deliver_def)
qed

lemma collect_update:
  assumes "idle s" "no_pending s" "collecting i (length payload) k s" "k + length d \<le> length payload" "length payload < 5842"
    "contents (USART_Buffer s) = d" "take (k + length d) payload = take k (ConnectionData s) @ d" "ConnectionData s ! 5841 = 0"
    "calls s = calls s0" "Active (Connection s ! i)" "Client (Connection s ! i) = Client (Connection s0 ! i)"
  shows "\<exists>s'. rest_of_update s = Some (ESP_OK, s') \<and> contents (USART_Buffer s') = [] \<and>
    (if k + length d < length payload then ipd_part i payload (k + length d) s0 s' else ipd_end i payload s0 s')"
proof -
  let ?n = "length payload" and ?k = "k + length d" and ?D = "ConnectionData s"
  have wf: "esp_wf s" and D: "length ?D = 5842" and ipd: "InIPD s" using assms(3) esp_wf_fields(2) by (simp_all add: collecting_def)
  let ?D' = "take k ?D @ d @ drop ?k ?D"
  obtain b where b: "ipd_bytes s = Some (s\<lparr>ConnectionData := ?D', InPtr := of_nat ?k, PtrTotal := of_nat ?k, USART_Buffer := b\<rparr>)"
      "buf_ok ESP8266_USARTBUFFER_SIZE b" "contents b = []"
    using ipd_bytes_run [OF assms(3), of "length d"] assms(4,6) by auto
  let ?s = "s\<lparr>ConnectionData := ?D', InPtr := of_nat ?k, PtrTotal := of_nat ?k, USART_Buffer := b\<rparr>"
  have wfs: "esp_wf ?s"
    using wf b(2) D assms(4,5) by (simp add: esp_wf_arrays)
  have col: "collecting i ?n ?k ?s"
    using assms(3,4) wfs by (simp add: collecting_def)
  have D': "take ?k ?D' = take ?k payload" "?D' ! 5841 = 0"
    using assms(4,5,7,8) D by (auto simp: nth_append)
  have tmp: "tmp_lines s = Some s" using ipd by (subst tmp_lines.simps) simp
  have idle: "idle ?s" "no_pending ?s" using assms(1,2) wfs by (simp_all add: idle_def no_pending_def)
  show ?thesis
  proof (cases "?k < ?n")
    case True
    then have "ipd_done ?s = Some ?s"
      using collecting_conn(1) [OF col] collecting_more(2) [OF col] by (simp add: ipd_done_def)
    moreover have "CallConnectionCallbacks ?s = ?s"
      using callbacks_none [OF wfs] idle(2) by (simp add: no_pending_def)
    ultimately have "rest_of_update s = Some (ESP_OK, ?s\<lparr>Result := ESP_OK\<rparr>)"
      using ipd b(1) by (simp add: rest_of_update_def tmp up_ipd_def ret_def)
    moreover have "ipd_part i payload ?k s0 (?s\<lparr>Result := ESP_OK\<rparr>)"
      using idle col D' assms(9,10,11) unfolding ipd_part_def by (simp add: idle_def no_pending_def collecting_def)
    ultimately show ?thesis
      using True b(3) by simp
  next
    case False
    then have kn: "?k = ?n" using assms(4) by simp
    then obtain c where c: "ipd_done ?s = Some (set_conn (int i) c (?s\<lparr>InIPD := False\<rparr>))" "conn_wf c"
      "CallConnectionCallbacks (set_conn (int i) c (?s\<lparr>InIPD := False\<rparr>)) =
         call (deliver i (Connection s ! i) (take ?n ?D')) (set_conn (int i) (c\<lparr>CallDataReceived := False\<rparr>) (?s\<lparr>InIPD := False\<rparr>))"
      using ipd_done_end [of i ?n ?s] col idle D' assms(5,10) by (auto simp: idle_def)
    define e where "e = (call (deliver i (Connection s ! i) (take ?n ?D'))
        (set_conn (int i) (c\<lparr>CallDataReceived := False\<rparr>) (?s\<lparr>InIPD := False\<rparr>)))\<lparr>Result := ESP_OK\<rparr>"
    have "rest_of_update s = Some (ESP_OK, e)"
      using ipd b(1) c by (simp add: rest_of_update_def tmp up_ipd_def ret_def e_def)
    moreover have "esp_wf e"
      using wfs c(2) by (simp add: esp_wf_set_conn e_def)
    moreover have "take ?n ?D' = payload"
      using D'(1) kn by simp
    then have "calls e = calls s0 @ [deliver i (Connection s0 ! i) payload]"
      using assms(9,11) by (simp add: e_def call_def set_conn_def deliver_def del: take_append)
    moreover have "ActiveCommand e = CMD_IDLE" "\<not> WaitForWrapper e" "contents (TMP_Buffer e) = []" "no_pending e" "\<not> InIPD e"
      "contents (USART_Buffer e) = []"
      using idle b(3) by (simp_all add: idle_def no_pending_def e_def call_def set_conn_def list_all_update)
    ultimately show ?thesis
      using kn by (simp add: ipd_end_def idle_def)
  qed
qed

section \<open>The header arrives\<close>

lemma first_line_header:
  assumes "w @ r = hdr @ payload" "has_line w" "0x0A \<notin> set hdr" "length hdr \<le> 100"
  shows "\<exists>d1 d2. first_line w = hdr @ d1 \<and> w = hdr @ d1 @ d2 \<and> payload = d1 @ d2 @ r \<and> length (hdr @ d1) \<le> 127"
proof -
  have "\<exists>w'. w = hdr @ w'"
  proof (rule ccontr)
    assume "\<nexists>w'. w = hdr @ w'"
    then obtain x where "hdr = w @ x" "x \<noteq> []"
      using assms(1) by (auto simp: append_eq_append_conv2)
    then show False
      using assms(2,3,4) by (auto simp: has_line_def)
  qed
  then obtain w' where w: "w = hdr @ w'" by blast
  have "takeWhile (\<lambda>c. c \<noteq> 0x0A) (hdr @ w') = hdr @ takeWhile (\<lambda>c. c \<noteq> 0x0A) w'"
    using assms(3) by (intro takeWhile_append2) auto
  then have "first_line w = hdr @ take (min 127 (length hdr + length (takeWhile (\<lambda>c. c \<noteq> 0x0A) w') + 1) - length hdr) w'"
    using assms(4) by (simp add: first_line_def w)
  moreover have "length (first_line w) \<le> 127"
    by (simp add: first_line_def)
  ultimately show ?thesis
    using assms(1) w by (metis append_assoc append_take_drop_id same_append_eq)
qed

lemma first_line_prefix: "has_line w \<Longrightarrow> first_line (w @ r) = first_line w"
proof (cases "0x0A \<in> set w")
  case True
  then have "takeWhile (\<lambda>c. c \<noteq> 0x0A) (w @ r) = takeWhile (\<lambda>c. c \<noteq> 0x0A) w"
    by (auto simp: takeWhile_append)
  moreover have "length (takeWhile (\<lambda>c. c \<noteq> 0x0A) w) < length w"
    using True by (simp add: length_takeWhile_lt)
  ultimately show ?thesis
    by (simp add: first_line_def)
next
  case False
  assume h: "has_line w"
  have "takeWhile (\<lambda>c. c \<noteq> 0x0A) (w @ r) = w @ takeWhile (\<lambda>c. c \<noteq> 0x0A) r"
    using False by (auto intro!: takeWhile_append2)
  moreover have "length (takeWhile (\<lambda>c. c \<noteq> 0x0A) w) = length w"
    using False by (intro arg_cong [of _ _ length] takeWhile_eq_all_conv [THEN iffD2]) auto
  ultimately show ?thesis
    using h False by (simp add: first_line_def has_line_def)
qed

lemma ipd_text_short: "n < 2 ^ 32 \<Longrightarrow> port < 2 ^ 16 \<Longrightarrow> length (ipd_text i n addr port) \<le> 40"
proof -
  assume a: "n < 2 ^ 32" "port < 2 ^ 16"
  obtain a b c d where addr: "addr = (a, b, c, d)" by (metis prod_cases4)
  have "length (numeral_text False 10 port) \<le> 5"
    using a radix_le [of 10 port 5] by (simp add: numeral_text_def)
  then show ?thesis
    using numeral_length [OF a(1)] dec_length [of a] dec_length [of b] dec_length [of c] dec_length [of d]
    by (simp add: ipd_text_def addr ip_text_def ascii_def)
qed

lemma header_update:
  assumes "idle s" "no_pending s" "\<not> InIPD s" "contents (USART_Buffer s) = hdr @ d1 @ d2" "has_line (hdr @ d1 @ d2)"
    and line: "first_line (hdr @ d1 @ d2) = hdr @ d1" "no_message (hdr @ d1)" "length (hdr @ d1) \<le> 127"
    and hdr: "hdr = ipd_text i n addr port" "i < 5" "n < 5842" "length hdr < n" "length d1 \<le> n" "port < 2 ^ 16"
    and start: "Active (Connection s ! i)" "ConnectionData s ! 5841 = 0"
  shows "\<exists>s1. usart_lines (set_timeout s) = Some s1 \<and> idle s1 \<and> no_pending s1 \<and> collecting i n (length d1) s1 \<and>
    contents (USART_Buffer s1) = d2 \<and> take (length d1) (ConnectionData s1) = d1 \<and> ConnectionData s1 ! 5841 = 0 \<and> calls s1 = calls s \<and>
    Active (Connection s1 ! i) \<and> Client (Connection s1 ! i) = Client (Connection s ! i)"
proof -
  let ?R = "hdr @ d1"
  have wf: "esp_wf s" using assms(1) by (simp add: idle_def)
  obtain m R b where r: "BUFFER_ReadString (USART_Buffer s) (replicate RECEIVED_SIZE 0) (of_nat RECEIVED_SIZE) = Some (m, R, b)"
      "buf_ok ESP8266_USARTBUFFER_SIZE b" "m \<noteq> 0" "take (unat m) R = ?R" "contents b = d2"
    using ReadString_line [OF esp_wf_fields(18) [OF wf]] assms(4,5) line(1) by (auto simp: ESP8266_USARTBUFFER_SIZE_def)
  define t where "t = (set_timeout s)\<lparr>USART_Buffer := b, LastReceivedTime := Time s\<rparr>"
  have wft: "esp_wf t"
    using wf r(2) by (simp add: t_def set_timeout_def esp_wf_arrays)
  let ?c = "conn_header i n addr port (Connection s ! i)"
  let ?t = "t\<lparr>InIPD := True, IPD_USART := True, ConnNumber := of_nat i, TotalBytesReceived := TotalBytesReceived s + of_nat n\<rparr>"
  have head: "ipd_header ?R True t = Some (?c, ?t)"
    using ipd_header_parse [OF _ _ hdr(2) _ hdr(6) wft, of ?R n addr d1] hdr(1,3) line(3)
    by (simp add: t_def set_timeout_def)
  define s1 where "s1 = set_conn (int i) ?c (?t\<lparr>ConnectionData := d1 @ drop (length d1) (ConnectionData s),
      InPtr := of_nat (length d1), PtrTotal := of_nat (length d1)\<rparr>)"
  have hdr0: "hdr \<noteq> []" using hdr(1) by (auto simp: ipd_text_def ascii_def split: prod.splits)
  have cn: "uint (of_nat i :: u8) = int i" using hdr(2) by (simp add: unsigned_of_nat take_bit_nat_eq_self)
  have D: "ConnectionData ?t = ConnectionData s" "length (ConnectionData s) = 5842"
    using esp_wf_fields(2) [OF wf] by (simp_all add: t_def set_timeout_def)
  have br: "BytesReceived ?c = of_nat n" "Active ?c = Active (Connection s ! i)" "Client ?c = Client (Connection s ! i)"
      "DataPtr ?c" "CallDataReceived ?c = CallDataReceived (Connection s ! i)" "conn_wf ?c"
    by (simp_all add: conn_header_def conn_wf_def split: prod.splits)
  have "ipd_data ?R ?c ?t = Some s1"
    using ipd_data_line [of ?R hdr d1 n ?c ?t] ipd_text_plain(2) [OF hdr(2), of n addr port d1] hdr hdr0 line(3) wft br(1) D(1)
    by (simp add: min_def s1_def cn)
  moreover have "starts ?R (ascii ''+IPD,'')"
    using cstr_append [OF ipd_text_plain(1) [OF hdr(2)], of n addr port d1]
    by (simp add: starts_def hdr(1)) (simp add: ipd_text_def ascii_def split: prod.splits)
  ultimately have ipd: "pr_ipd ?R True t = Some s1"
    using head by (simp add: pr_ipd_def)
  have "esp_wf (?t\<lparr>ConnectionData := d1 @ drop (length d1) (ConnectionData s)\<rparr>)"
    using wft D hdr(3,5) by (intro esp_wf_arrays) simp_all
  then have "esp_wf s1"
    unfolding s1_def by (intro esp_wf_set_conn br(6)) simp
  moreover have "\<not> CallDataReceived (Connection s ! i)"
    using assms(2) hdr(2) esp_wf_fields(1) [OF wf] by (simp add: no_pending_def list_all_length)
  ultimately have s1: "idle s1" "no_pending s1" "InIPD s1"
    using assms(1,2) br(5) by (simp_all add: s1_def idle_def no_pending_def set_conn_def t_def list_all_update)
  obtain x where plus: "?R = 0x2B # x" using hdr(1) by (auto simp: ipd_text_def ascii_def split: prod.splits)
  have parse: "ParseReceived ?R True (set_timeout s\<lparr>USART_Buffer := b\<rparr>) = Some s1"
    using ParseReceived_ipd [OF plus line(2), of "set_timeout s\<lparr>USART_Buffer := b\<rparr>" True] ipd assms(1,2) s1(1) wf r(2)
    by (simp add: t_def idle_def no_pending_def esp_wf_arrays)
  have "usart_lines (set_timeout s) = Some s1"
    using r assms(3) parse s1(3) by (simp add: usart_lines.simps [of "set_timeout s"] usart_lines.simps [of s1])
  moreover have "collecting i n (length d1) s1"
    using s1 hdr br D esp_wf_fields(1) [OF wf] unfolding collecting_def
    by (simp add: idle_def s1_def set_conn_def t_def)
  moreover have "contents (USART_Buffer s1) = d2" "take (length d1) (ConnectionData s1) = d1" "ConnectionData s1 ! 5841 = 0" "calls s1 = calls s"
    using r(5) start(2) D(2) hdr(3,5) by (simp_all add: s1_def set_conn_def t_def nth_append)
  moreover have "Active (Connection s1 ! i)" "Client (Connection s1 ! i) = Client (Connection s ! i)"
    using start(1) br hdr(2) esp_wf_fields(1) [OF wf] by (simp_all add: s1_def set_conn_def t_def)
  ultimately show ?thesis
    using s1 by blast
qed

section \<open>Delivery\<close>

text \<open>An interrupt with some bytes, then a call of the update function.\<close>

definition feed :: "u32 \<times> u8 list \<Rightarrow> esp \<Rightarrow> esp option" where
  "feed k s = do { s \<leftarrow> tick k s; (_, s) \<leftarrow> ESP8266_Update s; Some s }"

fun feeds :: "(u32 \<times> u8 list) list \<Rightarrow> esp \<Rightarrow> esp option" where
  "feeds [] s = Some s"
| "feeds (k # ks) s = do { s \<leftarrow> feed k s; feeds ks s }"

text \<open>Packets for which the driver works: longer than their header, shorter than the data buffer, with a first line
  that the driver reads and does not take for another message.\<close>

definition good_packet :: "nat \<Rightarrow> u8 \<times> u8 \<times> u8 \<times> u8 \<Rightarrow> nat \<Rightarrow> u8 list \<Rightarrow> bool" where
  "good_packet i addr port payload \<longleftrightarrow> i < 5 \<and> port < 2 ^ 16 \<and> length payload < 5842 \<and>
     (let hdr = ipd_text i (length payload) addr port
      in length hdr < length payload \<and> has_line (hdr @ payload) \<and> no_message (first_line (hdr @ payload)))"

text \<open>The state after the bytes \<open>got\<close> of header and data.\<close>

definition ipd_stage :: "nat \<Rightarrow> u8 list \<Rightarrow> u8 list \<Rightarrow> esp \<Rightarrow> u8 list \<Rightarrow> esp \<Rightarrow> bool" where
  "ipd_stage i hdr payload s0 got s \<longleftrightarrow>
     (if \<not> has_line got
      then idle s \<and> no_pending s \<and> \<not> InIPD s \<and> contents (USART_Buffer s) = got \<and> Connection s = Connection s0 \<and>
           ConnectionData s = ConnectionData s0 \<and> calls s = calls s0
      else if length got < length (hdr @ payload)
      then contents (USART_Buffer s) = [] \<and> ipd_part i payload (length got - length hdr) s0 s
      else ipd_end i payload s0 s)"

lemma ipd_text_no_newline: "i < 5 \<Longrightarrow> 0x0A \<notin> set (ipd_text i n addr port)"
proof -
  assume i: "i < 5"
  have "k < 10 \<Longrightarrow> CHARISNUM (digit_char False k)" for k using digit_char_num by blast
  then have num: "c \<in> set (numeral_text False 10 n) \<Longrightarrow> CHARISNUM c" for c n
    using radix_digits [of 10 n] by (auto simp: numeral_text_def)
  have "\<forall>i \<in> set [0..<5]. 0x30 + of_nat i \<noteq> (0x0A :: u8)" by code_simp
  then have "0x30 + of_nat i \<noteq> (0x0A :: u8)" using i by simp
  then show ?thesis
    using num [of "0x0A"] by (auto simp: ipd_text_def ip_text_def ascii_def CHARISNUM_def split: prod.splits)
qed

lemma good_packetD:
  assumes "good_packet i addr port payload" "hdr = ipd_text i (length payload) addr port"
  shows "i < 5" "port < 2 ^ 16" "length payload < 5842" "length hdr < length payload" "has_line (hdr @ payload)"
    "no_message (first_line (hdr @ payload))" "0x0A \<notin> set hdr" "length hdr \<le> 100"
proof -
  show g: "i < 5" "port < 2 ^ 16" "length payload < 5842" "length hdr < length payload" "has_line (hdr @ payload)"
      "no_message (first_line (hdr @ payload))"
    using assms(1) unfolding good_packet_def assms(2) by (simp_all add: Let_def)
  show "0x0A \<notin> set hdr" "length hdr \<le> 100"
    using ipd_text_no_newline [OF g(1), of "length payload" addr port] ipd_text_short [of "length payload" port i addr] g(2,3) assms(2)
    by simp_all
qed

text \<open>The update function when the line with the header is complete, and while the data arrive.\<close>

lemma stage_header:
  assumes "good_packet i addr port payload" "hdr = ipd_text i (length payload) addr port"
    and "Active (Connection s0 ! i)" "ConnectionData s0 ! 5841 = 0"
    and u: "idle u" "no_pending u" "\<not> InIPD u" "Connection u = Connection s0" "ConnectionData u = ConnectionData s0" "calls u = calls s0"
    and "contents (USART_Buffer u) = w" "has_line w" "w @ r = hdr @ payload"
  shows "\<exists>s'. ESP8266_Update u = Some (ESP_OK, s') \<and> ipd_stage i hdr payload s0 w s'"
proof -
  note g = good_packetD [OF assms(1,2)]
  obtain d1 d2 where d: "first_line w = hdr @ d1" "w = hdr @ d1 @ d2" "payload = d1 @ d2 @ r" "length (hdr @ d1) \<le> 127"
    using first_line_header [OF assms(13,12) g(7,8)] by blast
  have "no_message (hdr @ d1)"
    using g(6) first_line_prefix [OF assms(12), of r] d(1) assms(13) by simp
  then obtain s1 where s1: "usart_lines (set_timeout u) = Some s1" "idle s1" "no_pending s1" "collecting i (length payload) (length d1) s1"
      "contents (USART_Buffer s1) = d2" "take (length d1) (ConnectionData s1) = d1" "ConnectionData s1 ! 5841 = 0" "calls s1 = calls u"
      "Active (Connection s1 ! i)" "Client (Connection s1 ! i) = Client (Connection u ! i)"
    using header_update [of u hdr d1 d2 i "length payload" addr port] u d assms(2,3,4,11,12) g(1-4) by auto
  obtain s' where "rest_of_update s1 = Some (ESP_OK, s')" "contents (USART_Buffer s') = []"
      "if length d1 + length d2 < length payload then ipd_part i payload (length d1 + length d2) s0 s' else ipd_end i payload s0 s'"
    using collect_update [OF s1(2,3,4), of d2 s0] s1 u d(3) g(3) by auto
  then show ?thesis
    using Update_idle [OF u(1)] s1(1) assms(12) d(2,3) by (auto simp: ipd_stage_def split: if_splits)
qed

lemma stage_part:
  assumes "good_packet i addr port payload" "hdr = ipd_text i (length payload) addr port"
    and "ipd_part i payload (length got - length hdr) s0 u" "contents (USART_Buffer u) = w"
    and "has_line got" "(got @ w) @ r = hdr @ payload"
  shows "\<exists>s'. ESP8266_Update u = Some (ESP_OK, s') \<and> ipd_stage i hdr payload s0 (got @ w) s'"
proof -
  note g = good_packetD [OF assms(1,2)]
  obtain d1 d2 where d: "got = hdr @ d1 @ d2" "payload = d1 @ d2 @ w @ r"
    using first_line_header [of got "w @ r" hdr payload] assms(5,6) g(7,8) by auto
  let ?k = "length (d1 @ d2)"
  have p: "idle u" "no_pending u" "collecting i (length payload) ?k u" "take ?k (ConnectionData u) = d1 @ d2"
      "ConnectionData u ! 5841 = 0" "calls u = calls s0" "Active (Connection u ! i)" "Client (Connection u ! i) = Client (Connection s0 ! i)"
    using assms(3) d by (auto simp: ipd_part_def)
  have "InIPD u" using p(3) by (simp add: collecting_def)
  then have us: "usart_lines (set_timeout u) = Some (set_timeout u)" by (simp add: usart_lines.simps [of "set_timeout u"])
  have pre: "idle (set_timeout u)" "no_pending (set_timeout u)" "collecting i (length payload) ?k (set_timeout u)"
      "?k + length w \<le> length payload"
    using p(1,2,3) d(2) by simp_all
  have "take (?k + length w) payload = take ?k (ConnectionData (set_timeout u)) @ w"
    unfolding set_timeout_simps p(4) using d(2) by simp
  then obtain s' where "rest_of_update (set_timeout u) = Some (ESP_OK, s')" "contents (USART_Buffer s') = []"
      "if ?k + length w < length payload then ipd_part i payload (?k + length w) s0 s' else ipd_end i payload s0 s'"
    using collect_update [OF pre g(3), of s0] p(5-8) assms(4) by auto
  moreover have "has_line (got @ w)" using assms(5) by (auto simp: has_line_def)
  ultimately show ?thesis
    using Update_idle [OF p(1)] us d by (auto simp: ipd_stage_def add.assoc split: if_splits)
qed

lemma feed_step:
  assumes "good_packet i addr port payload" "hdr = ipd_text i (length payload) addr port"
    and "Active (Connection s0 ! i)" "ConnectionData s0 ! 5841 = 0"
    and "ipd_stage i hdr payload s0 got s" "(got @ snd k) @ r = hdr @ payload" "length (snd k) \<le> 895"
  shows "\<exists>s'. feed k s = Some s' \<and> ipd_stage i hdr payload s0 (got @ snd k) s'"
proof -
  have wf: "esp_wf s"
    using assms(5) by (auto simp: ipd_stage_def idle_def ipd_part_def ipd_end_def split: if_splits)
  obtain b where t: "tick k s = Some (s\<lparr>Time := Time s + fst k, USART_Buffer := b\<rparr>)" "buf_ok ESP8266_USARTBUFFER_SIZE b"
      "contents b = contents (USART_Buffer s) @ take (1023 - length (contents (USART_Buffer s))) (snd k)"
    using tick_run [OF wf] by blast
  define u where "u = s\<lparr>Time := Time s + fst k, USART_Buffer := b\<rparr>"
  have wfu: "esp_wf u" using wf t(2) by (simp add: u_def esp_wf_arrays)
  have u: "Connection u = Connection s" "ConnectionData u = ConnectionData s" "calls u = calls s" "InIPD u = InIPD s"
      "idle s \<Longrightarrow> idle u" "no_pending u = no_pending s" "ipd_part i payload q s0 s \<Longrightarrow> ipd_part i payload q s0 u" for q
    using wfu by (simp_all add: u_def idle_def no_pending_def ipd_part_def collecting_def)
  have feed: "feed k s = map_option snd (ESP8266_Update u)"
    by (cases "ESP8266_Update u") (auto simp: feed_def t(1) u_def [symmetric])
  have early: "idle u \<and> no_pending u \<and> \<not> InIPD u \<and> Connection u = Connection s0 \<and> ConnectionData u = ConnectionData s0 \<and>
      calls u = calls s0 \<and> contents (USART_Buffer u) = got @ snd k" if "\<not> has_line got"
  proof -
    have "length (snd k) \<le> 1023 - length got" using that assms(7) by (simp add: has_line_def) linarith
    then show ?thesis using that assms(5) t(3) u by (simp add: ipd_stage_def) (simp add: u_def)
  qed
  have still: "ESP8266_Update u = Some (ESP_OK, set_timeout u\<lparr>Result := ESP_OK\<rparr>)"
    if "idle u" "no_pending u" "\<not> InIPD u" "\<not> has_line (contents (USART_Buffer u))"
    using that by (rule Update_waiting)
  consider (wait) "\<not> has_line got" "\<not> has_line (got @ snd k)" | (header) "\<not> has_line got" "has_line (got @ snd k)"
    | (part) "has_line got" "length got < length (hdr @ payload)" | (finished) "has_line got" "\<not> length got < length (hdr @ payload)"
    by blast
  then show ?thesis
  proof cases
    case wait
    then show ?thesis
      using still early [OF wait(1)] feed by (auto simp: ipd_stage_def idle_def no_pending_def)
  next
    case header
    then show ?thesis
      using stage_header [OF assms(1-4), of u "got @ snd k" r] early [OF header(1)] assms(6) feed by auto
  next
    case part
    then have "contents (USART_Buffer u) = snd k" "ipd_part i payload (length got - length hdr) s0 u"
      using assms(5,7) t(3) u(7) by (simp_all add: ipd_stage_def u_def)
    then show ?thesis
      using stage_part [OF assms(1,2) _ _ part(1) assms(6), of s0 u] feed by auto
  next
    case finished
    then have e: "ipd_end i payload s0 s"
      using assms(5) by (simp add: ipd_stage_def)
    have "length got + length (snd k) \<le> length (hdr @ payload)"
      unfolding assms(6) [symmetric] by simp
    then have "length (snd k) = 0" using finished(2) by linarith
    then have nil: "snd k = []" by simp
    then have "contents (USART_Buffer u) = []" "idle u" "no_pending u" "\<not> InIPD u"
      using e t(3) u by (simp_all add: ipd_end_def) (simp add: u_def)
    then show ?thesis
      using still u(1,3) e finished feed nil by (simp add: ipd_stage_def ipd_end_def idle_def no_pending_def has_line_def)
  qed
qed

lemma feeds_stage:
  assumes "good_packet i addr port payload" "hdr = ipd_text i (length payload) addr port"
    and "Active (Connection s0 ! i)" "ConnectionData s0 ! 5841 = 0" "list_all (\<lambda>k. length (snd k) \<le> 895) ks"
    and "ipd_stage i hdr payload s0 got s" "got @ concat (map snd ks) @ r = hdr @ payload"
  shows "\<exists>s'. feeds ks s = Some s' \<and> ipd_stage i hdr payload s0 (got @ concat (map snd ks)) s'"
  using assms(5-)
proof (induction ks arbitrary: got s)
  case (Cons k ks)
  obtain s1 where s1: "feed k s = Some s1" "ipd_stage i hdr payload s0 (got @ snd k) s1"
    using feed_step [OF assms(1-4) Cons.prems(2), of k "concat (map snd ks) @ r"] Cons.prems(1,3) by auto
  then show ?case
    using Cons.IH [of "got @ snd k" s1] Cons.prems by auto
qed simp

text \<open>As long as there is neither a newline nor 128 bytes, nothing happens: the bytes wait in the buffer.\<close>

lemma has_line_prefix: "has_line t \<Longrightarrow> has_line (t @ r)"
  by (auto simp: has_line_def)

lemma feeds_waiting:
  assumes "idle s" "no_pending s" "\<not> InIPD s" "\<not> has_line (contents (USART_Buffer s) @ concat (map snd ks))"
  shows "\<exists>s'. feeds ks s = Some s' \<and> calls s' = calls s \<and>
    contents (USART_Buffer s') = contents (USART_Buffer s) @ concat (map snd ks)"
  using assms
proof (induction ks arbitrary: s)
  case (Cons k ks)
  let ?t = "contents (USART_Buffer s) @ snd k"
  have wf: "esp_wf s" using Cons.prems(1) by (simp add: idle_def)
  have line: "\<not> has_line ?t"
    using Cons.prems(4) has_line_prefix [of ?t "concat (map snd ks)"] by auto
  then have "length (snd k) \<le> 1023 - length (contents (USART_Buffer s))"
    by (simp add: has_line_def) linarith
  then obtain b where b: "tick k s = Some (s\<lparr>Time := Time s + fst k, USART_Buffer := b\<rparr>)" "buf_ok ESP8266_USARTBUFFER_SIZE b"
      "contents b = ?t"
    using tick_run [OF wf, of k] by auto
  let ?u = "s\<lparr>Time := Time s + fst k, USART_Buffer := b\<rparr>"
  let ?v = "set_timeout ?u\<lparr>Result := ESP_OK\<rparr>"
  have u: "idle ?u" "no_pending ?u" "\<not> InIPD ?u" "\<not> has_line (contents (USART_Buffer ?u))"
    using Cons.prems wf b line by (simp_all add: idle_def no_pending_def esp_wf_arrays)
  have "feed k s = Some ?v"
    using Update_waiting [OF u] b(1) by (simp add: feed_def)
  moreover have "idle ?v" "no_pending ?v" "\<not> InIPD ?v"
    using u by (simp_all add: idle_def no_pending_def)
  ultimately show ?case
    using Cons.IH [of ?v] Cons.prems(4) b(3) by simp
qed simp

text \<open>C26. A packet of network data in an idle driver with an empty buffer (nothing pending, the last byte of the data
  buffer zero), sent by the module to an open connection and divided by the interrupts into pieces of at most 895
  bytes. If it is a good packet, the update function calls the callback of the connection exactly once, with exactly
  the bytes of the packet, and the driver is idle again. A good packet has a payload that is longer than its header
  and shorter than 5842 bytes, contains a newline or has 128 bytes or more together with its header, and its first
  line (up to the newline, at most 127 bytes) has none of the messages of the module in it. A packet without a
  newline and with less than 128 bytes together with its header is not delivered: no callback is called, and header
  and data stay in the buffer until other bytes arrive.\<close>

theorem esp_data_delivered:
  assumes "idle s" "no_pending s" "\<not> InIPD s" "contents (USART_Buffer s) = []" "Active (Connection s ! i)" "ConnectionData s ! 5841 = 0"
    and "list_all (\<lambda>k. length (snd k) \<le> 895) ks" and "concat (map snd ks) = ipd_text i (length payload) addr port @ payload"
  shows "(good_packet i addr port payload \<longrightarrow>
      (\<exists>s'. feeds ks s = Some s' \<and> calls s' = calls s @ [deliver i (Connection s ! i) payload] \<and>
        idle s' \<and> no_pending s' \<and> \<not> InIPD s' \<and> contents (USART_Buffer s') = [])) \<and>
    (i < 5 \<and> 0x0A \<notin> set payload \<and> length (ipd_text i (length payload) addr port @ payload) < 128 \<longrightarrow>
      (\<exists>s'. feeds ks s = Some s' \<and> calls s' = calls s \<and>
        contents (USART_Buffer s') = ipd_text i (length payload) addr port @ payload))"
proof (intro conjI impI)
  let ?hdr = "ipd_text i (length payload) addr port"
  assume good: "good_packet i addr port payload"
  have "ipd_stage i ?hdr payload s [] s"
    using assms(1-4) by (simp add: ipd_stage_def has_line_def)
  then obtain s' where "feeds ks s = Some s'" "ipd_stage i ?hdr payload s (?hdr @ payload) s'"
    using feeds_stage [OF good refl assms(5,6,7), of "[]" s "[]"] assms(8) by auto
  then show "\<exists>s'. feeds ks s = Some s' \<and> calls s' = calls s @ [deliver i (Connection s ! i) payload] \<and>
      idle s' \<and> no_pending s' \<and> \<not> InIPD s' \<and> contents (USART_Buffer s') = []"
    using good by (auto simp: ipd_stage_def ipd_end_def good_packet_def Let_def)
next
  let ?hdr = "ipd_text i (length payload) addr port"
  assume "i < 5 \<and> 0x0A \<notin> set payload \<and> length (?hdr @ payload) < 128"
  then have "\<not> has_line (?hdr @ payload)"
    using ipd_text_no_newline by (auto simp: has_line_def)
  then show "\<exists>s'. feeds ks s = Some s' \<and> calls s' = calls s \<and> contents (USART_Buffer s') = ?hdr @ payload"
    using feeds_waiting [OF assms(1-3), of ks] assms(4,8) by simp
qed

text \<open>A packet of 40 bytes from 192.168.4.2, in three pieces.\<close>

definition sample_payload :: "u8 list" where
  "sample_payload = replicate 20 0x41 @ [0, 0x3A, 0x0D, 0x0A] @ replicate 16 0x42"

lemma sample_header: "ipd_text 0 40 (192, 168, 4, 2) 80 = ascii ''+IPD,0,40,192.168.4.2,80:''"
  by (simp add: ipd_text_def ip_text_def numeral_text_def radix.simps digit_char_def ascii_def)

lemma sample_good: "good_packet 0 (192, 168, 4, 2) 80 sample_payload"
proof -
  have "length sample_payload = 40" by (simp add: sample_payload_def)
  moreover have "has_line (ascii ''+IPD,0,40,192.168.4.2,80:'' @ sample_payload)"
    by (simp add: has_line_def sample_payload_def)
  moreover have "no_message (first_line (ascii ''+IPD,0,40,192.168.4.2,80:'' @ sample_payload))"
    by code_simp
  ultimately show ?thesis
    by (simp add: good_packet_def sample_header) (simp add: ascii_def)
qed

lemma sample_idle:
  "idle (esp0\<lparr>Connection := (Connection esp0)[0 := conn0\<lparr>Active := True\<rparr>]\<rparr>)"
  "no_pending (esp0\<lparr>Connection := (Connection esp0)[0 := conn0\<lparr>Active := True\<rparr>]\<rparr>)"
proof -
  have "esp_wf (set_conn 0 (conn0\<lparr>Active := True\<rparr>) esp0)"
    using quiet_esp0 by (intro esp_wf_set_conn) (simp_all add: quiet_def)
  then show "idle (esp0\<lparr>Connection := (Connection esp0)[0 := conn0\<lparr>Active := True\<rparr>]\<rparr>)"
    using quiet_esp0 by (simp add: idle_def quiet_def set_conn_def) (simp add: esp0_def)
  show "no_pending (esp0\<lparr>Connection := (Connection esp0)[0 := conn0\<lparr>Active := True\<rparr>]\<rparr>)"
    using quiet_esp0 by (simp add: no_pending_def quiet_def list_all_update conn0_def)
qed

lemma three_pieces: "take 7 t @ take 30 (drop 7 t) @ drop 37 t = t"
  using append_take_drop_id [of 7 t] append_take_drop_id [of 30 "drop 7 t"] by (simp add: add.commute)

theorem esp_data_delivered_witness:
  "let s = esp0\<lparr>Connection := (Connection esp0)[0 := conn0\<lparr>Active := True\<rparr>]\<rparr>;
       t = ipd_text 0 40 (192, 168, 4, 2) 80 @ sample_payload
   in (\<exists>s'. feeds [(1, take 7 t), (20, take 30 (drop 7 t)), (5, drop 37 t)] s = Some s' \<and> calls s' = [ServerDataReceived 0 sample_payload]) \<and>
     (\<exists>s'. feeds [(1, ipd_text 0 5 (192, 168, 4, 2) 80 @ ascii ''hello'')] s = Some s' \<and> calls s' = [])"
proof -
  let ?s = "esp0\<lparr>Connection := (Connection esp0)[0 := conn0\<lparr>Active := True\<rparr>]\<rparr>" and ?t = "ipd_text 0 40 (192, 168, 4, 2) 80 @ sample_payload"
  have len: "length sample_payload = 40" by (simp add: sample_payload_def)
  have cat: "concat (map snd [(1 :: u32, take 7 ?t), (20, take 30 (drop 7 ?t)), (5, drop 37 ?t)]) = ?t"
    using three_pieces [of ?t] by (simp del: take_append drop_append)
  have "length ?t \<le> 895"
    using ipd_text_short [of 40 80 0 "(192, 168, 4, 2)"] len by simp
  then have "list_all (\<lambda>k. length (snd k) \<le> 895) [(1 :: u32, take 7 ?t), (20, take 30 (drop 7 ?t)), (5, drop 37 ?t)]"
    by (simp del: take_append drop_append) linarith
  then have good: "\<exists>s'. feeds [(1, take 7 ?t), (20, take 30 (drop 7 ?t)), (5, drop 37 ?t)] ?s = Some s' \<and> calls s' = [ServerDataReceived 0 sample_payload]"
    using esp_data_delivered [OF sample_idle _ _ _ _ _ cat [folded len]] sample_good quiet_esp0 len
    by (auto simp: quiet_def esp0_def conn0_def deliver_def)
  define h where "h = ipd_text 0 5 (192, 168, 4, 2) 80"
  have "length h \<le> 40"
    using ipd_text_short [of 5 80 0 "(192, 168, 4, 2)"] by (simp add: h_def)
  moreover have hello: "length (ascii ''hello'') = 5" "0x0A \<notin> set (ascii ''hello'')"
    by (simp_all add: ascii_def)
  moreover have "\<not> InIPD ?s" "contents (USART_Buffer ?s) = []" "Active (Connection ?s ! 0)" "ConnectionData ?s ! 5841 = 0" "calls ?s = []"
    using quiet_esp0 by (simp_all add: quiet_def) (simp_all add: esp0_def)
  ultimately have "\<exists>s'. feeds [(1, h @ ascii ''hello'')] ?s = Some s' \<and> calls s' = []"
    using esp_data_delivered [OF sample_idle, of 0 "[(1, h @ ascii ''hello'')]" "ascii ''hello''" "(192, 168, 4, 2)" 80,
        unfolded hello(1) h_def [symmetric]]
    by (auto simp del: feeds.simps)
  then have "\<exists>s'. feeds [(1, ipd_text 0 5 (192, 168, 4, 2) 80 @ ascii ''hello'')] ?s = Some s' \<and> calls s' = []"
    by (simp only: h_def)
  with good show ?thesis by (simp add: Let_def del: feeds.simps)
qed

end
