(* ===== verification/Esp8266_Lists.thy ===== *)
theory Esp8266_Lists
  imports Esp8266_Silent
begin

text \<open>
  The two lists that the module reports line by line: the stations connected to its access point
  (\<^verbatim>\<open>ParseCWLIF\<close>) and the access points it has found (\<^verbatim>\<open>ParseCWLAP\<close>). For lines in the format of the module
  the theorem gives the tables after the whole answer, however many lines it has.
\<close>

section \<open>The lines of the module\<close>











section \<open>Stations\<close>








section \<open>Access points\<close>




lemma mac_left_Nil [simp]: "mac_left n [] = []"
  by (cases n) (simp_all add: strtok_def)











section \<open>The answers\<close>





end
