(* ===== verification/Ds3231.thy ===== *)
theory Ds3231
  imports Rtc_Props
begin

text \<open>
  The DS3231 clock driver of \<^verbatim>\<open>src/Elegoo/DS3231.c\<close>. Its calendar arithmetic, its conversion of texts and its date
  formatter are verbatim copies of those of \<^verbatim>\<open>src/LPC_RTC_CALENDAR.c\<close>, so the definitions of theory
  \<open>Rtc_Calendar\<close> are used for them. The I2C functions of the chip library are the parameter \<open>I\<close>: what they do
  to a bus state, the number of bytes sent or left, and the bytes received. A byte that is not received leaves
  a local variable uninitialised; using it is \<open>None\<close>.
\<close>

section \<open>Bus and driver state\<close>

datatype I2C_ID_T = I2C0 | I2C1 | I2C2

record 'd i2c_if =
  Chip_I2C_MasterSend :: "I2C_ID_T \<Rightarrow> u8 \<Rightarrow> u8 list \<Rightarrow> 'd \<Rightarrow> nat \<times> 'd"
  Chip_I2C_MasterTransfer :: "I2C_ID_T \<Rightarrow> u8 \<Rightarrow> u8 list \<Rightarrow> 'd \<Rightarrow> nat \<times> 'd"
  Chip_I2C_MasterCmdRead :: "I2C_ID_T \<Rightarrow> u8 \<Rightarrow> u8 \<Rightarrow> nat \<Rightarrow> 'd \<Rightarrow> u8 list \<times> 'd"

record 'd ds3231 =
  i2cx :: I2C_ID_T
  ds_buffer :: string
  i2c_bus :: 'd

type_synonym RTCDateTime = LPCRTCDateTime

record RTCAlarmTime =
  al_day :: u8
  al_hour :: u8
  al_minute :: u8
  al_second :: u8

definition DS3231_ADDRESS :: u8 where "DS3231_ADDRESS = 0x68"

definition DS3231_REG_TIME :: u8 where "DS3231_REG_TIME = 0x00"
definition DS3231_REG_ALARM_1 :: u8 where "DS3231_REG_ALARM_1 = 0x07"
definition DS3231_REG_ALARM_2 :: u8 where "DS3231_REG_ALARM_2 = 0x0B"
definition DS3231_REG_CONTROL :: u8 where "DS3231_REG_CONTROL = 0x0E"
definition DS3231_REG_STATUS :: u8 where "DS3231_REG_STATUS = 0x0F"
definition DS3231_REG_TEMPERATURE :: u8 where "DS3231_REG_TEMPERATURE = 0x11"

lemmas ds_regs_def = DS3231_REG_TIME_def DS3231_REG_ALARM_1_def DS3231_REG_ALARM_2_def DS3231_REG_CONTROL_def
  DS3231_REG_STATUS_def DS3231_REG_TEMPERATURE_def

text \<open>The enumerations are bytes: a variable of the C type can hold a value that is not listed.\<close>

definition DS3231_1HZ :: u8 where "DS3231_1HZ = 0"
definition DS3231_4096HZ :: u8 where "DS3231_4096HZ = 1"
definition DS3231_8192HZ :: u8 where "DS3231_8192HZ = 2"
definition DS3231_32768HZ :: u8 where "DS3231_32768HZ = 3"

definition DS3231_EVERY_SECOND :: u8 where "DS3231_EVERY_SECOND = 0b00001111"
definition DS3231_MATCH_S :: u8 where "DS3231_MATCH_S = 0b00001110"
definition DS3231_MATCH_M_S :: u8 where "DS3231_MATCH_M_S = 0b00001100"
definition DS3231_MATCH_H_M_S :: u8 where "DS3231_MATCH_H_M_S = 0b00001000"
definition DS3231_MATCH_DT_H_M_S :: u8 where "DS3231_MATCH_DT_H_M_S = 0b00000000"
definition DS3231_MATCH_DY_H_M_S :: u8 where "DS3231_MATCH_DY_H_M_S = 0b00010000"

definition DS3231_EVERY_MINUTE :: u8 where "DS3231_EVERY_MINUTE = 0b00001110"
definition DS3231_MATCH_M :: u8 where "DS3231_MATCH_M = 0b00001100"
definition DS3231_MATCH_H_M :: u8 where "DS3231_MATCH_H_M = 0b00001000"
definition DS3231_MATCH_DT_H_M :: u8 where "DS3231_MATCH_DT_H_M = 0b00000000"
definition DS3231_MATCH_DY_H_M :: u8 where "DS3231_MATCH_DY_H_M = 0b00010000"

lemmas ds_modes_def = DS3231_EVERY_SECOND_def DS3231_MATCH_S_def DS3231_MATCH_M_S_def DS3231_MATCH_H_M_S_def
  DS3231_MATCH_DT_H_M_S_def DS3231_MATCH_DY_H_M_S_def DS3231_EVERY_MINUTE_def DS3231_MATCH_M_def DS3231_MATCH_H_M_def
  DS3231_MATCH_DT_H_M_def DS3231_MATCH_DY_H_M_def

section \<open>Registers\<close>

definition ds_send :: "'d i2c_if \<Rightarrow> u8 list \<Rightarrow> 'd ds3231 \<Rightarrow> nat \<times> 'd ds3231" where
  "ds_send I buff s =
     (let (n, d) = Chip_I2C_MasterSend I (i2cx s) DS3231_ADDRESS buff (i2c_bus s) in (n, s\<lparr>i2c_bus := d\<rparr>))"

definition ds_cmd_read :: "'d i2c_if \<Rightarrow> u8 \<Rightarrow> nat \<Rightarrow> 'd ds3231 \<Rightarrow> u8 list \<times> 'd ds3231" where
  "ds_cmd_read I reg n s =
     (let (values, d) = Chip_I2C_MasterCmdRead I (i2cx s) DS3231_ADDRESS reg n (i2c_bus s) in (values, s\<lparr>i2c_bus := d\<rparr>))"

definition writeRegister8 :: "'d i2c_if \<Rightarrow> u8 \<Rightarrow> u8 \<Rightarrow> 'd ds3231 \<Rightarrow> 'd ds3231" where
  "writeRegister8 I reg value s = snd (ds_send I [reg, value] s)"

definition readRegister8 :: "'d i2c_if \<Rightarrow> u8 \<Rightarrow> 'd ds3231 \<Rightarrow> (u8 \<times> 'd ds3231) option" where
  "readRegister8 I reg s =
     (let (values, s) = ds_cmd_read I reg 1 s in do { value \<leftarrow> c_nth values 0; Some (value, s) })"

section \<open>Control and status\<close>

definition DS3231_isReady :: u8 where
  "DS3231_isReady = 1"

definition DS3231_enableOutput :: "'d i2c_if \<Rightarrow> bool \<Rightarrow> 'd ds3231 \<Rightarrow> 'd ds3231 option" where
  "DS3231_enableOutput I enabled s =
     do {
       (value, s) \<leftarrow> readRegister8 I DS3231_REG_CONTROL s;
       let value = value AND 0b11111011;
       let value = value OR push_bit 2 (of_bool (\<not> enabled));
       Some (writeRegister8 I DS3231_REG_CONTROL value s)
     }"

definition DS3231_setBattery :: "'d i2c_if \<Rightarrow> bool \<Rightarrow> bool \<Rightarrow> 'd ds3231 \<Rightarrow> 'd ds3231 option" where
  "DS3231_setBattery I timeBattery squareBattery s =
     do {
       (value, s) \<leftarrow> readRegister8 I DS3231_REG_CONTROL s;
       let value = (if squareBattery then value OR 0b01000000 else value AND 0b10111111);
       let value = (if timeBattery then value AND 0b01111011 else value OR 0b10000000);
       Some (writeRegister8 I DS3231_REG_CONTROL value s)
     }"

definition DS3231_isOutput :: "'d i2c_if \<Rightarrow> 'd ds3231 \<Rightarrow> (bool \<times> 'd ds3231) option" where
  "DS3231_isOutput I s =
     do {
       (value, s) \<leftarrow> readRegister8 I DS3231_REG_CONTROL s;
       let value = value AND 0b00000100;
       let value = drop_bit 2 value;
       Some (value = 0, s)
     }"

definition DS3231_setOutput :: "'d i2c_if \<Rightarrow> u8 \<Rightarrow> 'd ds3231 \<Rightarrow> 'd ds3231 option" where
  "DS3231_setOutput I mode s =
     do {
       (value, s) \<leftarrow> readRegister8 I DS3231_REG_CONTROL s;
       let value = value AND 0b11100111;
       let value = value OR push_bit 3 mode;
       Some (writeRegister8 I DS3231_REG_CONTROL value s)
     }"

definition DS3231_getOutput :: "'d i2c_if \<Rightarrow> 'd ds3231 \<Rightarrow> (u8 \<times> 'd ds3231) option" where
  "DS3231_getOutput I s =
     do {
       (value, s) \<leftarrow> readRegister8 I DS3231_REG_CONTROL s;
       let value = value AND 0b00011000;
       let value = drop_bit 3 value;
       Some (value, s)
     }"

definition DS3231_enable32kHz :: "'d i2c_if \<Rightarrow> bool \<Rightarrow> 'd ds3231 \<Rightarrow> 'd ds3231 option" where
  "DS3231_enable32kHz I enabled s =
     do {
       (value, s) \<leftarrow> readRegister8 I DS3231_REG_STATUS s;
       let value = value AND 0b11110111;
       let value = value OR push_bit 3 (of_bool enabled);
       Some (writeRegister8 I DS3231_REG_STATUS value s)
     }"

definition DS3231_is32kHz :: "'d i2c_if \<Rightarrow> 'd ds3231 \<Rightarrow> (bool \<times> 'd ds3231) option" where
  "DS3231_is32kHz I s =
     do {
       (value, s) \<leftarrow> readRegister8 I DS3231_REG_STATUS s;
       let value = value AND 0b00001000;
       let value = drop_bit 3 value;
       Some (value \<noteq> 0, s)
     }"

text \<open>\<^verbatim>\<open>do {} while ((readRegister8(DS3231_REG_CONTROL) & 0b00100000) != 0)\<close>.\<close>

partial_function (option) conversion_loop :: "'d i2c_if \<Rightarrow> 'd ds3231 \<Rightarrow> 'd ds3231 option" where
  "conversion_loop I s =
     do {
       (value, s) \<leftarrow> readRegister8 I DS3231_REG_CONTROL s;
       if value AND 0b00100000 \<noteq> 0 then conversion_loop I s else Some s
     }"

declare conversion_loop.simps [code]

definition DS3231_forceConversion :: "'d i2c_if \<Rightarrow> 'd ds3231 \<Rightarrow> 'd ds3231 option" where
  "DS3231_forceConversion I s =
     do {
       (value, s) \<leftarrow> readRegister8 I DS3231_REG_CONTROL s;
       let value = value OR 0b00100000;
       let s = writeRegister8 I DS3231_REG_CONTROL value s;
       conversion_loop I s
     }"

text \<open>The temperature in quarters of a degree: the value that is divided by \<^verbatim>\<open>4.0f\<close>, which is exact. The two bytes
  start as zero.\<close>

definition DS3231_readTemperature :: "'d i2c_if \<Rightarrow> 'd ds3231 \<Rightarrow> int \<times> 'd ds3231" where
  "DS3231_readTemperature I s =
     (let (values, s) = ds_cmd_read I DS3231_REG_TEMPERATURE 2 s;
          bytes = values @ drop (length values) [0, 0]
      in (drop_bit 6 (push_bit 8 (uint (bytes ! 0)) OR uint (bytes ! 1)), s))"

section \<open>Time\<close>

definition DS3231_initialize_i2c :: "'d i2c_if \<Rightarrow> I2C_ID_T \<Rightarrow> 'd ds3231 \<Rightarrow> (bool \<times> RTCDateTime \<times> 'd ds3231) option" where
  "DS3231_initialize_i2c I i2cid s =
     do {
       let s = s\<lparr>i2cx := i2cid\<rparr>;
       s \<leftarrow> DS3231_setBattery I True False s;
       let t = \<lparr>dt_year = 2000, dt_month = 1, dt_day = 1, dt_hour = 0, dt_minute = 0, dt_second = 0,
                dt_dayOfWeek = 6, dt_unixtime = 946681200\<rparr>;
       let (n, s) = ds_send I [if ds_buffer s = [] then 0 else code_of (hd (ds_buffer s))] s;
       Some (n \<noteq> 0, t, s)
     }"

definition DS3231_setDateTime ::
  "'d i2c_if \<Rightarrow> u16 \<Rightarrow> u8 \<Rightarrow> u8 \<Rightarrow> u8 \<Rightarrow> u8 \<Rightarrow> u8 \<Rightarrow> 'd ds3231 \<Rightarrow> (bool \<times> 'd ds3231) option" where
  "DS3231_setDateTime I year month day hour minute second s =
     do {
       w \<leftarrow> dow year month day;
       let buf = [DS3231_REG_TIME, dec2bcd second, dec2bcd minute, dec2bcd hour, dec2bcd w, dec2bcd day,
                  dec2bcd month, dec2bcd (ucast (year - 2000))];
       let (txSz, d) = Chip_I2C_MasterTransfer I (i2cx s) DS3231_ADDRESS buf (i2c_bus s);
       Some (txSz = 0, s\<lparr>i2c_bus := d\<rparr>)
     }"

definition DS3231_setDateTime_word :: "'d i2c_if \<Rightarrow> u32 \<Rightarrow> 'd ds3231 \<Rightarrow> 'd ds3231 option" where
  "DS3231_setDateTime_word I t s =
     do {
       let t = t - 946681200;
       let second = ucast (t mod 60);
       let t = t div 60;
       let minute = ucast (t mod 60);
       let t = t div 60;
       let hour = ucast (t mod 24);
       let days = ucast (t div 24);
       let (year, days) = year_loop 0 days;
       (month, days) \<leftarrow> month_loop (year mod 4 = 0) 1 days;
       let day = ucast (days + 1);
       (_, s) \<leftarrow> DS3231_setDateTime I (year + 2000) month day hour minute second s;
       Some s
     }"

definition DS3231_setDateTime_array :: "'d i2c_if \<Rightarrow> string \<Rightarrow> string \<Rightarrow> 'd ds3231 \<Rightarrow> 'd ds3231 option" where
  "DS3231_setDateTime_array I date time s =
     do {
       year \<leftarrow> conv2d (drop 9 date);
       month \<leftarrow> month_of_name date;
       day \<leftarrow> conv2d (drop 4 date);
       hour \<leftarrow> conv2d time;
       minute \<leftarrow> conv2d (drop 3 time);
       second \<leftarrow> conv2d (drop 6 time);
       (_, s) \<leftarrow> DS3231_setDateTime I (ucast year + 2000) month day hour minute second s;
       Some s
     }"

definition DS3231_getDateTime :: "'d i2c_if \<Rightarrow> RTCDateTime \<Rightarrow> 'd ds3231 \<Rightarrow> (nat \<times> RTCDateTime \<times> 'd ds3231) option" where
  "DS3231_getDateTime I t s =
     do {
       let (values, s) = ds_cmd_read I DS3231_REG_TIME 7 s;
       v0 \<leftarrow> c_nth values 0; v1 \<leftarrow> c_nth values 1; v2 \<leftarrow> c_nth values 2; v3 \<leftarrow> c_nth values 3;
       v4 \<leftarrow> c_nth values 4; v5 \<leftarrow> c_nth values 5; v6 \<leftarrow> c_nth values 6;
       let t = t\<lparr>dt_second := bcd2dec v0, dt_minute := bcd2dec v1, dt_hour := bcd2dec v2, dt_dayOfWeek := bcd2dec v3,
                 dt_day := bcd2dec v4, dt_month := bcd2dec v5, dt_year := ucast (bcd2dec v6) + 2000\<rparr>;
       u \<leftarrow> unixtime t;
       Some (length values, t\<lparr>dt_unixtime := u\<rparr>, s)
     }"

section \<open>Alarms\<close>

definition DS3231_armAlarm1 :: "'d i2c_if \<Rightarrow> bool \<Rightarrow> 'd ds3231 \<Rightarrow> 'd ds3231 option" where
  "DS3231_armAlarm1 I armed s =
     do {
       (value, s) \<leftarrow> readRegister8 I DS3231_REG_CONTROL s;
       let value = (if armed then value OR 0b00000001 else value AND 0b11111110);
       Some (writeRegister8 I DS3231_REG_CONTROL value s)
     }"

definition DS3231_isArmed1 :: "'d i2c_if \<Rightarrow> 'd ds3231 \<Rightarrow> (bool \<times> 'd ds3231) option" where
  "DS3231_isArmed1 I s =
     do { (value, s) \<leftarrow> readRegister8 I DS3231_REG_CONTROL s; let value = value AND 0b00000001; Some (value \<noteq> 0, s) }"

definition DS3231_clearAlarm1 :: "'d i2c_if \<Rightarrow> 'd ds3231 \<Rightarrow> 'd ds3231 option" where
  "DS3231_clearAlarm1 I s =
     do {
       (value, s) \<leftarrow> readRegister8 I DS3231_REG_STATUS s;
       let value = value AND 0b11111110;
       Some (writeRegister8 I DS3231_REG_STATUS value s)
     }"

definition DS3231_isAlarm1 :: "'d i2c_if \<Rightarrow> bool \<Rightarrow> 'd ds3231 \<Rightarrow> (bool \<times> 'd ds3231) option" where
  "DS3231_isAlarm1 I clear s =
     do {
       (alarm, s) \<leftarrow> readRegister8 I DS3231_REG_STATUS s;
       let alarm = alarm AND 0b00000001;
       s \<leftarrow> (if alarm \<noteq> 0 \<and> clear then DS3231_clearAlarm1 I s else Some s);
       Some (alarm \<noteq> 0, s)
     }"

text \<open>The bytes of the alarm registers for a mode; an unknown mode leaves the four values as they are.\<close>

definition alarm1_fields :: "u8 \<Rightarrow> u8 \<Rightarrow> u8 \<Rightarrow> u8 \<Rightarrow> u8 \<Rightarrow> u8 list" where
  "alarm1_fields mode second minute hour dydw =
     (if mode = DS3231_EVERY_SECOND then
        [second OR 0b10000000, minute OR 0b10000000, hour OR 0b10000000, dydw OR 0b10000000]
      else if mode = DS3231_MATCH_S then
        [second AND 0b01111111, minute OR 0b10000000, hour OR 0b10000000, dydw OR 0b10000000]
      else if mode = DS3231_MATCH_M_S then
        [second AND 0b01111111, minute AND 0b01111111, hour OR 0b10000000, dydw OR 0b10000000]
      else if mode = DS3231_MATCH_H_M_S then
        [second AND 0b01111111, minute AND 0b01111111, hour AND 0b01111111, dydw OR 0b10000000]
      else if mode = DS3231_MATCH_DT_H_M_S then
        [second AND 0b01111111, minute AND 0b01111111, hour AND 0b01111111, dydw AND 0b01111111]
      else if mode = DS3231_MATCH_DY_H_M_S then
        [second AND 0b01111111, minute AND 0b01111111, hour AND 0b01111111, (dydw AND 0b01111111) OR 0b01000000]
      else [second, minute, hour, dydw])"

definition DS3231_setAlarm1 ::
  "'d i2c_if \<Rightarrow> u8 \<Rightarrow> u8 \<Rightarrow> u8 \<Rightarrow> u8 \<Rightarrow> u8 \<Rightarrow> bool \<Rightarrow> 'd ds3231 \<Rightarrow> 'd ds3231 option" where
  "DS3231_setAlarm1 I dydw hour minute second mode armed s =
     do {
       let (_, s) = ds_send I (DS3231_REG_ALARM_1 #
                      alarm1_fields mode (dec2bcd second) (dec2bcd minute) (dec2bcd hour) (dec2bcd dydw)) s;
       s \<leftarrow> DS3231_armAlarm1 I armed s;
       DS3231_clearAlarm1 I s
     }"

text \<open>Both \<^verbatim>\<open>DS3231_getAlarm1\<close> and \<^verbatim>\<open>DS3231_getAlarm2\<close>, for their register.\<close>

definition get_alarm :: "'d i2c_if \<Rightarrow> u8 \<Rightarrow> 'd ds3231 \<Rightarrow> (RTCAlarmTime \<times> 'd ds3231) option" where
  "get_alarm I reg s =
     do {
       let (values, s) = ds_cmd_read I reg 4 s;
       v0 \<leftarrow> c_nth values 0; v1 \<leftarrow> c_nth values 1; v2 \<leftarrow> c_nth values 2; v3 \<leftarrow> c_nth values 3;
       Some (\<lparr>al_day = bcd2dec (v0 AND 0b01111111), al_hour = bcd2dec (v1 AND 0b01111111),
              al_minute = bcd2dec (v2 AND 0b01111111), al_second = bcd2dec (v3 AND 0b01111111)\<rparr>, s)
     }"

definition DS3231_getAlarm1 :: "'d i2c_if \<Rightarrow> 'd ds3231 \<Rightarrow> (RTCAlarmTime \<times> 'd ds3231) option" where
  "DS3231_getAlarm1 I s = get_alarm I DS3231_REG_ALARM_1 s"

text \<open>Both \<^verbatim>\<open>DS3231_getAlarmType1\<close> and \<^verbatim>\<open>DS3231_getAlarmType2\<close>.\<close>

definition get_alarm_type :: "'d i2c_if \<Rightarrow> u8 \<Rightarrow> 'd ds3231 \<Rightarrow> (u8 \<times> 'd ds3231) option" where
  "get_alarm_type I reg s =
     do {
       let (values, s) = ds_cmd_read I reg 4 s;
       v0 \<leftarrow> c_nth values 0; v1 \<leftarrow> c_nth values 1; v2 \<leftarrow> c_nth values 2; v3 \<leftarrow> c_nth values 3;
       let mode = bcd2dec (drop_bit 6 (v3 AND 0b01000000));
       let mode = mode OR bcd2dec (drop_bit 5 (v2 AND 0b01000000));
       let mode = mode OR bcd2dec (drop_bit 4 (v1 AND 0b01000000));
       let mode = mode OR bcd2dec (drop_bit 3 (v0 AND 0b01000000));
       let mode = mode OR bcd2dec (drop_bit 1 (v0 AND 0b00100000));
       Some (mode, s)
     }"

definition DS3231_getAlarmType1 :: "'d i2c_if \<Rightarrow> 'd ds3231 \<Rightarrow> (u8 \<times> 'd ds3231) option" where
  "DS3231_getAlarmType1 I s = get_alarm_type I DS3231_REG_ALARM_1 s"

definition DS3231_getAlarm2 :: "'d i2c_if \<Rightarrow> 'd ds3231 \<Rightarrow> (RTCAlarmTime \<times> 'd ds3231) option" where
  "DS3231_getAlarm2 I s = get_alarm I DS3231_REG_ALARM_2 s"

definition DS3231_getAlarmType2 :: "'d i2c_if \<Rightarrow> 'd ds3231 \<Rightarrow> (u8 \<times> 'd ds3231) option" where
  "DS3231_getAlarmType2 I s = get_alarm_type I DS3231_REG_ALARM_2 s"

definition DS3231_armAlarm2 :: "'d i2c_if \<Rightarrow> bool \<Rightarrow> 'd ds3231 \<Rightarrow> 'd ds3231 option" where
  "DS3231_armAlarm2 I armed s =
     do {
       (value, s) \<leftarrow> readRegister8 I DS3231_REG_CONTROL s;
       let value = (if armed then value OR 0b00000010 else value AND 0b11111101);
       Some (writeRegister8 I DS3231_REG_CONTROL value s)
     }"

definition DS3231_isArmed2 :: "'d i2c_if \<Rightarrow> 'd ds3231 \<Rightarrow> (bool \<times> 'd ds3231) option" where
  "DS3231_isArmed2 I s =
     do {
       (value, s) \<leftarrow> readRegister8 I DS3231_REG_CONTROL s;
       let value = value AND 0b00000010;
       let value = drop_bit 1 value;
       Some (value \<noteq> 0, s)
     }"

definition DS3231_clearAlarm2 :: "'d i2c_if \<Rightarrow> 'd ds3231 \<Rightarrow> 'd ds3231 option" where
  "DS3231_clearAlarm2 I s =
     do {
       (value, s) \<leftarrow> readRegister8 I DS3231_REG_STATUS s;
       let value = value AND 0b11111101;
       Some (writeRegister8 I DS3231_REG_STATUS value s)
     }"

definition DS3231_isAlarm2 :: "'d i2c_if \<Rightarrow> bool \<Rightarrow> 'd ds3231 \<Rightarrow> (bool \<times> 'd ds3231) option" where
  "DS3231_isAlarm2 I clear s =
     do {
       (alarm, s) \<leftarrow> readRegister8 I DS3231_REG_STATUS s;
       let alarm = alarm AND 0b00000010;
       s \<leftarrow> (if alarm \<noteq> 0 \<and> clear then DS3231_clearAlarm2 I s else Some s);
       Some (alarm \<noteq> 0, s)
     }"

definition alarm2_fields :: "u8 \<Rightarrow> u8 \<Rightarrow> u8 \<Rightarrow> u8 \<Rightarrow> u8 list" where
  "alarm2_fields mode minute hour dydw =
     (if mode = DS3231_EVERY_MINUTE then [minute OR 0b10000000, hour OR 0b10000000, dydw OR 0b10000000]
      else if mode = DS3231_MATCH_M then [minute AND 0b01111111, hour OR 0b10000000, dydw OR 0b10000000]
      else if mode = DS3231_MATCH_H_M then [minute AND 0b01111111, hour AND 0b01111111, dydw OR 0b10000000]
      else if mode = DS3231_MATCH_DT_H_M then [minute AND 0b01111111, hour AND 0b01111111, dydw AND 0b01111111]
      else if mode = DS3231_MATCH_DY_H_M then
        [minute AND 0b01111111, hour AND 0b01111111, (dydw AND 0b01111111) OR 0b01000000]
      else [minute, hour, dydw])"

definition DS3231_setAlarm2 ::
  "'d i2c_if \<Rightarrow> u8 \<Rightarrow> u8 \<Rightarrow> u8 \<Rightarrow> u8 \<Rightarrow> bool \<Rightarrow> 'd ds3231 \<Rightarrow> 'd ds3231 option" where
  "DS3231_setAlarm2 I dydw hour minute mode armed s =
     do {
       let (_, s) = ds_send I (DS3231_REG_ALARM_2 #
                      alarm2_fields mode (dec2bcd minute) (dec2bcd hour) (dec2bcd dydw)) s;
       s \<leftarrow> DS3231_armAlarm2 I armed s;
       DS3231_clearAlarm2 I s
     }"

section \<open>Formatted output\<close>

definition DS3231_dateFormat :: "string \<Rightarrow> RTCDateTime \<Rightarrow> 'd ds3231 \<Rightarrow> 'd ds3231 option" where
  "DS3231_dateFormat dateFormat dt s = do { b \<leftarrow> format_loop dateFormat dt []; Some (s\<lparr>ds_buffer := b\<rparr>) }"

definition alarm_format_field :: "RTCAlarmTime \<Rightarrow> char \<Rightarrow> string" where
  "alarm_format_field dt c =
     (if c = CHR ''d'' then show_02 (uint (al_day dt))
      else if c = CHR ''j'' then show_int (uint (al_day dt))
      else if c = CHR ''l'' then strDayOfWeek (al_day dt)
      else if c = CHR ''D'' then take 3 (strDayOfWeek (al_day dt))
      else if c = CHR ''N'' then show_int (uint (al_day dt))
      else if c = CHR ''w'' then show_int ((uint (al_day dt) + 7) mod 7)
      else if c = CHR ''S'' then strDaySufix (al_day dt)
      else if c = CHR ''H'' then show_02 (uint (al_hour dt))
      else if c = CHR ''G'' then show_int (uint (al_hour dt))
      else if c = CHR ''h'' then show_02 (uint (hour12 (al_hour dt)))
      else if c = CHR ''g'' then show_int (uint (hour12 (al_hour dt)))
      else if c = CHR ''A'' then strAmPm (al_hour dt) True
      else if c = CHR ''a'' then strAmPm (al_hour dt) False
      else if c = CHR ''i'' then show_02 (uint (al_minute dt))
      else if c = CHR ''s'' then show_02 (uint (al_second dt))
      else [c])"

fun alarm_format_loop :: "string \<Rightarrow> RTCAlarmTime \<Rightarrow> string \<Rightarrow> string option" where
  "alarm_format_loop [] dt buffer = Some buffer"
| "alarm_format_loop (c # dateFormat) dt buffer =
     do { buffer \<leftarrow> format_cat buffer (alarm_format_field dt c); alarm_format_loop dateFormat dt buffer }"

definition DS3231_Alarm_dateFormat :: "string \<Rightarrow> RTCAlarmTime \<Rightarrow> 'd ds3231 \<Rightarrow> 'd ds3231 option" where
  "DS3231_Alarm_dateFormat dateFormat dt s =
     do { b \<leftarrow> alarm_format_loop dateFormat dt []; Some (s\<lparr>ds_buffer := b\<rparr>) }"

end
