(* ===== verification/Ds3231_Chip.thy ===== *)
theory Ds3231_Chip
  imports Ds3231
begin

text \<open>
  The DS3231 driver against its chip. The data sheet's account of the registers is the locale \<open>ds3231_chip\<close>: what
  a write stores and what the chip may change by itself between two accesses (time, temperature, alarm flags, the end
  of a conversion). The extensions \<open>ds3231_steady\<close> (no second passes during the calls) and \<open>ds3231_conv\<close> (a
  temperature conversion ends) carry what only some of the functions need. A simulated register file satisfies all.
\<close>

section \<open>The register file\<close>

text \<open>What register \<open>i\<close> holds after \<open>new\<close> is written over \<open>old\<close>: unused bits read as zero, the flags of the status
  register (oscillator stopped, alarm 2, alarm 1) can only be cleared, the busy bit and the temperature are
  read-only.\<close>

definition ds_store :: "nat \<Rightarrow> u8 \<Rightarrow> u8 \<Rightarrow> u8" where
  "ds_store i new old =
     (if i \<le> 2 then new AND 0x7F
      else if i = 3 then new AND 0x07
      else if i = 4 then new AND 0x3F
      else if i = 5 then new AND 0x9F
      else if i = 15 then (new AND old AND 0x83) OR (new AND 0x08) OR (old AND 0x04)
      else if i = 17 \<or> i = 18 then old else new)"

definition wr_regs :: "nat \<Rightarrow> u8 list \<Rightarrow> u8 list \<Rightarrow> u8 list" where
  "wr_regs reg vs r =
     map (\<lambda>i. if reg \<le> i \<and> i < reg + length vs then ds_store i (vs ! (i - reg)) (r ! i) else r ! i) [0..<19]"

text \<open>The changes the chip makes by itself: the alarm and aging registers stay, a conversion may end, alarm flags may
  appear; time and temperature are free.\<close>

definition chip_evolves :: "u8 list \<Rightarrow> u8 list \<Rightarrow> bool" where
  "chip_evolves r r' \<longleftrightarrow> length r' = 19 \<and> (\<forall>i \<in> {7..<14}. r' ! i = r ! i) \<and> r' ! 16 = r ! 16 \<and>
     (r' ! 14 = r ! 14 \<or> r' ! 14 = r ! 14 AND 0xDF) \<and> r' ! 15 AND 0x08 = r ! 15 AND 0x08 \<and>
     r ! 15 AND r' ! 15 AND 0x83 = r ! 15 AND 0x83"

locale ds3231_chip =
  fixes I :: "'d i2c_if" and bus :: I2C_ID_T and regs :: "'d \<Rightarrow> u8 list" and ok :: "'d \<Rightarrow> bool"
  assumes ok_regs: "ok d \<Longrightarrow> length (regs d) = 19"
    and send_count: "ok d \<Longrightarrow> fst (Chip_I2C_MasterSend I bus DS3231_ADDRESS (reg # vs) d) = Suc (length vs)"
    and send_ok: "ok d \<Longrightarrow> ok (snd (Chip_I2C_MasterSend I bus DS3231_ADDRESS (reg # vs) d))"
    and send_regs: "ok d \<Longrightarrow> vs = [] \<or> unat reg + length vs \<le> 19 \<Longrightarrow>
      chip_evolves (wr_regs (unat reg) vs (regs d)) (regs (snd (Chip_I2C_MasterSend I bus DS3231_ADDRESS (reg # vs) d)))"
    and transfer_count: "ok d \<Longrightarrow> fst (Chip_I2C_MasterTransfer I bus DS3231_ADDRESS (reg # vs) d) = 0"
    and transfer_ok: "ok d \<Longrightarrow> ok (snd (Chip_I2C_MasterTransfer I bus DS3231_ADDRESS (reg # vs) d))"
    and transfer_regs: "ok d \<Longrightarrow> vs = [] \<or> unat reg + length vs \<le> 19 \<Longrightarrow>
      chip_evolves (wr_regs (unat reg) vs (regs d)) (regs (snd (Chip_I2C_MasterTransfer I bus DS3231_ADDRESS (reg # vs) d)))"
    and read_bytes: "ok d \<Longrightarrow> unat reg + n \<le> 19 \<Longrightarrow>
      fst (Chip_I2C_MasterCmdRead I bus DS3231_ADDRESS reg n d) = take n (drop (unat reg) (regs d))"
    and read_ok: "ok d \<Longrightarrow> ok (snd (Chip_I2C_MasterCmdRead I bus DS3231_ADDRESS reg n d))"
    and read_regs: "ok d \<Longrightarrow> chip_evolves (regs d) (regs (snd (Chip_I2C_MasterCmdRead I bus DS3231_ADDRESS reg n d)))"

text \<open>No second passes: the time registers change only when they are written.\<close>

locale ds3231_steady = ds3231_chip +
  assumes transfer_time: "ok d \<Longrightarrow> unat reg + length vs \<le> 19 \<Longrightarrow>
      take 7 (regs (snd (Chip_I2C_MasterTransfer I bus DS3231_ADDRESS (reg # vs) d))) = take 7 (wr_regs (unat reg) vs (regs d))"

text \<open>Each time the control register is read during a conversion, the end of the conversion comes nearer.\<close>

locale ds3231_conv = ds3231_chip +
  fixes conv_left :: "'d \<Rightarrow> nat"
  assumes conv_progress: "ok d \<Longrightarrow> regs (snd (Chip_I2C_MasterCmdRead I bus DS3231_ADDRESS reg n d)) ! 14 AND 0x20 = 0 \<or>
      conv_left (snd (Chip_I2C_MasterCmdRead I bus DS3231_ADDRESS reg n d)) < conv_left d"

lemma length_wr_regs [simp]: "length (wr_regs reg vs r) = 19"
  by (simp add: wr_regs_def)

lemma wr_regs_nth:
  "i < 19 \<Longrightarrow> wr_regs reg vs r ! i =
     (if reg \<le> i \<and> i < reg + length vs then ds_store i (vs ! (i - reg)) (r ! i) else r ! i)"
  by (simp add: wr_regs_def)

lemma wr_regs_nil: "length r = 19 \<Longrightarrow> wr_regs reg [] r = r"
  by (rule nth_equalityI) (auto simp: wr_regs_nth)

lemma chip_evolves_length: "chip_evolves r r' \<Longrightarrow> length r' = 19"
  by (simp add: chip_evolves_def)

lemma chip_evolves_refl: "length r = 19 \<Longrightarrow> chip_evolves r r"
  by (simp add: chip_evolves_def and.left_idem)

section \<open>A simulated register file\<close>

text \<open>The time stands still; a conversion ends after three further accesses.\<close>

record ds_sim =
  sim_regs :: "u8 list"
  sim_conv :: nat

definition sim_ok :: "ds_sim \<Rightarrow> bool" where
  "sim_ok d \<longleftrightarrow> length (sim_regs d) = 19"

definition sim_write :: "u8 list \<Rightarrow> ds_sim \<Rightarrow> ds_sim" where
  "sim_write buff d =
     (case buff of [] \<Rightarrow> d
      | reg # vs \<Rightarrow> d\<lparr>sim_regs := wr_regs (unat reg) vs (sim_regs d), sim_conv := 3\<rparr>)"

definition sim_read :: "u8 \<Rightarrow> nat \<Rightarrow> ds_sim \<Rightarrow> u8 list \<times> ds_sim" where
  "sim_read reg n d =
     (take n (drop (unat reg) (sim_regs d)),
      if sim_conv d = 0 then d\<lparr>sim_regs := (sim_regs d)[14 := sim_regs d ! 14 AND 0xDF]\<rparr> else d\<lparr>sim_conv := sim_conv d - 1\<rparr>)"

definition sim_i2c :: "ds_sim i2c_if" where
  "sim_i2c =
     \<lparr>Chip_I2C_MasterSend = (\<lambda>bus adr buff d. if adr = DS3231_ADDRESS then (length buff, sim_write buff d) else (0, d)),
      Chip_I2C_MasterTransfer = (\<lambda>bus adr buff d. if adr = DS3231_ADDRESS then (0, sim_write buff d) else (length buff, d)),
      Chip_I2C_MasterCmdRead = (\<lambda>bus adr reg n d. if adr = DS3231_ADDRESS then sim_read reg n d else ([], d))\<rparr>"

lemma sim_read_evolves: "sim_ok d \<Longrightarrow> chip_evolves (sim_regs d) (sim_regs (snd (sim_read reg n d)))"
  by (auto simp: sim_ok_def sim_read_def chip_evolves_def and.left_idem)

lemma sim_read_bytes: "fst (sim_read reg n d) = take n (drop (unat reg) (sim_regs d))"
  by (simp add: sim_read_def)

lemma sim_read_ok: "sim_ok d \<Longrightarrow> sim_ok (snd (sim_read reg n d))"
  by (simp add: sim_read_def sim_ok_def)

lemma sim_conv_ends: "sim_ok d \<Longrightarrow> sim_regs (snd (sim_read reg n d)) ! 14 AND 0x20 = 0 \<or> sim_conv (snd (sim_read reg n d)) < sim_conv d"
  by (auto simp: sim_ok_def sim_read_def and.assoc)

interpretation sim: ds3231_chip sim_i2c bus sim_regs sim_ok for bus
  by unfold_locales
    (auto simp: sim_i2c_def sim_write_def sim_read_evolves sim_read_bytes sim_read_ok chip_evolves_refl, auto simp: sim_ok_def)

interpretation sim: ds3231_steady sim_i2c bus sim_regs sim_ok for bus
  by unfold_locales (auto simp: sim_i2c_def sim_write_def)

interpretation sim: ds3231_conv sim_i2c bus sim_regs sim_ok sim_conv for bus
  by unfold_locales (use sim_conv_ends in \<open>auto simp: sim_i2c_def\<close>)

section \<open>Single registers\<close>

text \<open>The driver is attached to the bus on which the chip answers.\<close>

definition ds_ready :: "I2C_ID_T \<Rightarrow> ('d \<Rightarrow> bool) \<Rightarrow> 'd ds3231 \<Rightarrow> bool" where
  "ds_ready bus ok s \<longleftrightarrow> i2cx s = bus \<and> ok (i2c_bus s)"

context ds3231_chip
begin

lemma ready_length: "ds_ready bus ok s \<Longrightarrow> length (regs (i2c_bus s)) = 19"
  by (simp add: ds_ready_def ok_regs)

lemma read_register:
  assumes "ds_ready bus ok s" "unat reg < 19"
  shows "\<exists>s'. readRegister8 I reg s = Some (regs (i2c_bus s) ! unat reg, s') \<and> ds_ready bus ok s' \<and>
    chip_evolves (regs (i2c_bus s)) (regs (i2c_bus s')) \<and> i2c_bus s' = snd (Chip_I2C_MasterCmdRead I bus DS3231_ADDRESS reg 1 (i2c_bus s))"
proof -
  have "fst (Chip_I2C_MasterCmdRead I bus DS3231_ADDRESS reg 1 (i2c_bus s)) = [regs (i2c_bus s) ! unat reg]"
    using assms read_bytes [of "i2c_bus s" reg 1] ready_length [OF assms(1)] by (simp add: ds_ready_def take_Suc_conv_app_nth)
  then show ?thesis
    using assms(1) read_ok [of "i2c_bus s" reg 1] read_regs [of "i2c_bus s" reg 1]
    by (auto simp: readRegister8_def ds_cmd_read_def ds_ready_def c_nth_def split: prod.splits)
qed

lemma read_block:
  assumes "ds_ready bus ok s" "unat reg + n \<le> 19"
  shows "\<exists>s'. ds_cmd_read I reg n s = (take n (drop (unat reg) (regs (i2c_bus s))), s') \<and> ds_ready bus ok s' \<and>
    chip_evolves (regs (i2c_bus s)) (regs (i2c_bus s'))"
  using assms read_bytes [of "i2c_bus s" reg n] read_ok [of "i2c_bus s" reg n] read_regs [of "i2c_bus s" reg n]
  by (auto simp: ds_cmd_read_def ds_ready_def split: prod.splits)

lemma send_block:
  assumes "ds_ready bus ok s" "vs = [] \<or> unat reg + length vs \<le> 19"
  shows "\<exists>s'. ds_send I (reg # vs) s = (Suc (length vs), s') \<and> ds_ready bus ok s' \<and>
    chip_evolves (wr_regs (unat reg) vs (regs (i2c_bus s))) (regs (i2c_bus s'))"
  using assms send_count [of "i2c_bus s" reg vs] send_ok [of "i2c_bus s" reg vs] send_regs [of "i2c_bus s" vs reg]
  by (auto simp: ds_send_def ds_ready_def split: prod.splits)

lemma write_register:
  assumes "ds_ready bus ok s" "unat reg < 19"
  shows "ds_ready bus ok (writeRegister8 I reg v s) \<and>
    chip_evolves (wr_regs (unat reg) [v] (regs (i2c_bus s))) (regs (i2c_bus (writeRegister8 I reg v s)))"
  using send_block [OF assms(1), of "[v]" reg] assms(2) by (auto simp: writeRegister8_def)

end

end
