(* ===== verification/Ds3231_Props.thy ===== *)
theory Ds3231_Props
  imports Ds3231_Chip
begin

text \<open>
  Properties of the DS3231 driver: the settings it makes as updates of an abstract configuration, setting and reading
  the time, when the alarms fire, the end of a forced conversion, and where the alarm functions and the
  temperature go wrong.
\<close>

section \<open>Settings\<close>

record ds_settings =
  runs_on_battery :: bool
  square_on_battery :: bool
  square_rate :: u8
  square_output :: bool
  alarm1_armed :: bool
  alarm2_armed :: bool
  output_32kHz :: bool

definition reg_settings :: "u8 \<Rightarrow> u8 \<Rightarrow> ds_settings" where
  "reg_settings control status =
     \<lparr>runs_on_battery = (control AND 0x80 = 0), square_on_battery = (control AND 0x40 \<noteq> 0),
      square_rate = drop_bit 3 (control AND 0x18), square_output = (control AND 0x04 = 0),
      alarm1_armed = (control AND 0x01 \<noteq> 0), alarm2_armed = (control AND 0x02 \<noteq> 0),
      output_32kHz = (status AND 0x08 \<noteq> 0)\<rparr>"

definition settings_of :: "u8 list \<Rightarrow> ds_settings" where
  "settings_of r = reg_settings (r ! 14) (r ! 15)"

lemmas mask_simps = bit.conj_disj_distrib2 and.assoc

lemma settings_evolve: "chip_evolves r r' \<Longrightarrow> settings_of r' = settings_of r"
  by (auto simp: chip_evolves_def settings_of_def reg_settings_def mask_simps)

definition alarm_regs :: "u8 list \<Rightarrow> u8 list" where
  "alarm_regs r = take 7 (drop 7 r)"

lemma alarm_regs_eqI: "length r = 19 \<Longrightarrow> length r' = 19 \<Longrightarrow> (\<And>i. 7 \<le> i \<Longrightarrow> i < 14 \<Longrightarrow> r' ! i = r ! i) \<Longrightarrow> alarm_regs r' = alarm_regs r"
  by (rule nth_equalityI) (simp_all add: alarm_regs_def)

lemma alarm_regs_evolve: "chip_evolves r r' \<Longrightarrow> length r = 19 \<Longrightarrow> alarm_regs r' = alarm_regs r"
  by (rule alarm_regs_eqI) (auto simp: chip_evolves_def)

lemma alarm_regs_write: "14 \<le> reg \<Longrightarrow> length r = 19 \<Longrightarrow> alarm_regs (wr_regs reg vs r) = alarm_regs r"
  by (rule alarm_regs_eqI) (auto simp: wr_regs_nth)

lemma alarm_regs_modify:
  "chip_evolves r r1 \<Longrightarrow> chip_evolves (wr_regs reg vs r1) r' \<Longrightarrow> length r = 19 \<Longrightarrow> 14 \<le> reg \<Longrightarrow> alarm_regs r' = alarm_regs r"
  by (simp add: alarm_regs_evolve alarm_regs_write chip_evolves_length)

lemma control_settings:
  assumes "chip_evolves r r1" "chip_evolves (wr_regs 14 [v] r1) r'"
  shows "settings_of r' = reg_settings v (r ! 15)"
  using assms settings_evolve [OF assms(2)]
  by (simp add: settings_of_def wr_regs_nth ds_store_def reg_settings_def chip_evolves_def)

lemma status_settings:
  assumes "chip_evolves r r1" "chip_evolves (wr_regs 15 [v] r1) r'"
  shows "settings_of r' = reg_settings (r ! 14) v"
  using settings_evolve [OF assms(2)] settings_evolve [OF assms(1)]
  by (simp add: settings_of_def wr_regs_nth ds_store_def reg_settings_def mask_simps)

lemma drop_masked:
  "drop_bit 2 v AND 1 = 0 \<longleftrightarrow> v AND 4 = 0" "drop_bit 3 v AND 1 = 0 \<longleftrightarrow> v AND 8 = 0"
  "drop_bit (Suc 0) v AND 1 = 0 \<longleftrightarrow> v AND 2 = 0" for v :: u8
  using and_exp_eq_0_iff_not_bit [of v 1] and_exp_eq_0_iff_not_bit [of v 2] and_exp_eq_0_iff_not_bit [of v 3]
  by (simp_all add: bit_iff_odd_drop_bit and_one_eq even_iff_mod_2_eq_zero)

text \<open>What each setting function writes.\<close>

lemma control_values:
  "reg_settings ((c AND 0b11111011) OR push_bit 2 (of_bool (\<not> e))) t = (reg_settings c t)\<lparr>square_output := e\<rparr>"
  "m < 4 \<Longrightarrow> reg_settings ((c AND 0b11100111) OR push_bit 3 m) t = (reg_settings c t)\<lparr>square_rate := m\<rparr>"
  "reg_settings (if e then c OR 0b00000001 else c AND 0b11111110) t = (reg_settings c t)\<lparr>alarm1_armed := e\<rparr>"
  "reg_settings (if e then c OR 0b00000010 else c AND 0b11111101) t = (reg_settings c t)\<lparr>alarm2_armed := e\<rparr>"
  "reg_settings c ((t AND 0b11110111) OR push_bit 3 (of_bool e)) = (reg_settings c t)\<lparr>output_32kHz := e\<rparr>"
proof -
  show "m < 4 \<Longrightarrow> reg_settings ((c AND 0b11100111) OR push_bit 3 m) t = (reg_settings c t)\<lparr>square_rate := m\<rparr>"
  proof -
    assume "m < 4"
    then have "m = 0 \<or> m = 1 \<or> m = 2 \<or> m = 3" by (simp add: word_less_nat_alt word_unat_eq_iff) linarith
    then show ?thesis by (elim disjE) (simp_all add: reg_settings_def mask_simps)
  qed
qed (simp_all add: reg_settings_def mask_simps)

lemma battery_values:
  "reg_settings (if b then w AND 0b01111011 else w OR 0b10000000) t =
     (reg_settings w t)\<lparr>runs_on_battery := b, square_output := b \<or> square_output (reg_settings w t)\<rparr>"
  "reg_settings (if q then c OR 0b01000000 else c AND 0b10111111) t = (reg_settings c t)\<lparr>square_on_battery := q\<rparr>"
  by (simp_all add: reg_settings_def mask_simps)

text \<open>The outcome of a setting function: it returns and updates the settings with \<open>f\<close>; of a query: it returns the
  part \<open>f\<close> of the settings and changes nothing. Both leave the alarm times alone.\<close>

definition ds_updates ::
  "I2C_ID_T \<Rightarrow> ('d \<Rightarrow> u8 list) \<Rightarrow> ('d \<Rightarrow> bool) \<Rightarrow> 'd ds3231 \<Rightarrow> 'd ds3231 option \<Rightarrow> (ds_settings \<Rightarrow> ds_settings) \<Rightarrow> bool" where
  "ds_updates bus regs ok s r f \<longleftrightarrow>
     (\<exists>s'. r = Some s' \<and> ds_ready bus ok s' \<and>
       settings_of (regs (i2c_bus s')) = f (settings_of (regs (i2c_bus s))) \<and>
       alarm_regs (regs (i2c_bus s')) = alarm_regs (regs (i2c_bus s)))"

definition ds_reports ::
  "I2C_ID_T \<Rightarrow> ('d \<Rightarrow> u8 list) \<Rightarrow> ('d \<Rightarrow> bool) \<Rightarrow> 'd ds3231 \<Rightarrow> ('a \<times> 'd ds3231) option \<Rightarrow> (ds_settings \<Rightarrow> 'a) \<Rightarrow> bool" where
  "ds_reports bus regs ok s r f \<longleftrightarrow>
     (\<exists>s'. r = Some (f (settings_of (regs (i2c_bus s))), s') \<and> ds_ready bus ok s' \<and>
       settings_of (regs (i2c_bus s')) = settings_of (regs (i2c_bus s)) \<and>
       alarm_regs (regs (i2c_bus s')) = alarm_regs (regs (i2c_bus s)))"

context ds3231_chip
begin

lemma modify_control:
  assumes "ds_ready bus ok s"
  shows "\<exists>s1. readRegister8 I DS3231_REG_CONTROL s = Some (regs (i2c_bus s) ! 14, s1) \<and>
     ds_ready bus ok (writeRegister8 I DS3231_REG_CONTROL v s1) \<and>
     settings_of (regs (i2c_bus (writeRegister8 I DS3231_REG_CONTROL v s1))) = reg_settings v (regs (i2c_bus s) ! 15) \<and>
     alarm_regs (regs (i2c_bus (writeRegister8 I DS3231_REG_CONTROL v s1))) = alarm_regs (regs (i2c_bus s))"
proof -
  have u: "unat DS3231_REG_CONTROL = 14" by (simp add: ds_regs_def)
  obtain s1 where s1: "readRegister8 I DS3231_REG_CONTROL s = Some (regs (i2c_bus s) ! 14, s1)" "ds_ready bus ok s1"
      "chip_evolves (regs (i2c_bus s)) (regs (i2c_bus s1))"
    using read_register [OF assms, of DS3231_REG_CONTROL] u by auto
  show ?thesis using s1 write_register [OF s1(2), of DS3231_REG_CONTROL v] control_settings [OF s1(3)] u
      alarm_regs_modify [OF s1(3) _ ready_length [OF assms]] by auto
qed

lemma modify_status:
  assumes "ds_ready bus ok s"
  shows "\<exists>s1. readRegister8 I DS3231_REG_STATUS s = Some (regs (i2c_bus s) ! 15, s1) \<and>
     ds_ready bus ok (writeRegister8 I DS3231_REG_STATUS v s1) \<and>
     settings_of (regs (i2c_bus (writeRegister8 I DS3231_REG_STATUS v s1))) = reg_settings (regs (i2c_bus s) ! 14) v \<and>
     alarm_regs (regs (i2c_bus (writeRegister8 I DS3231_REG_STATUS v s1))) = alarm_regs (regs (i2c_bus s))"
proof -
  have u: "unat DS3231_REG_STATUS = 15" by (simp add: ds_regs_def)
  obtain s1 where s1: "readRegister8 I DS3231_REG_STATUS s = Some (regs (i2c_bus s) ! 15, s1)" "ds_ready bus ok s1"
      "chip_evolves (regs (i2c_bus s)) (regs (i2c_bus s1))"
    using read_register [OF assms, of DS3231_REG_STATUS] u by auto
  show ?thesis using s1 write_register [OF s1(2), of DS3231_REG_STATUS v] status_settings [OF s1(3)] u
      alarm_regs_modify [OF s1(3) _ ready_length [OF assms]] by auto
qed

lemma updates_control:
  assumes "ds_ready bus ok s" "\<And>c t. reg_settings (g c) t = f (reg_settings c t)"
  shows "ds_updates bus regs ok s
    (do { (value, s) \<leftarrow> readRegister8 I DS3231_REG_CONTROL s; Some (writeRegister8 I DS3231_REG_CONTROL (g value) s) }) f"
  using modify_control [OF assms(1), of "g (regs (i2c_bus s) ! 14)"] assms(2)
  by (auto simp: ds_updates_def settings_of_def)

lemma updates_status:
  assumes "ds_ready bus ok s" "\<And>c t. reg_settings c (g t) = f (reg_settings c t)"
  shows "ds_updates bus regs ok s
    (do { (value, s) \<leftarrow> readRegister8 I DS3231_REG_STATUS s; Some (writeRegister8 I DS3231_REG_STATUS (g value) s) }) f"
  using modify_status [OF assms(1), of "g (regs (i2c_bus s) ! 15)"] assms(2)
  by (auto simp: ds_updates_def settings_of_def)

lemma reports_register:
  assumes "ds_ready bus ok s" "unat reg < 19" "f (settings_of (regs (i2c_bus s))) = g (regs (i2c_bus s) ! unat reg)"
  shows "ds_reports bus regs ok s (do { (value, s) \<leftarrow> readRegister8 I reg s; Some (g value, s) }) f"
  using read_register [OF assms(1,2)] settings_evolve alarm_regs_evolve ready_length [OF assms(1)] assms(3)
  by (auto simp: ds_reports_def)

lemmas updates_simps = DS3231_enableOutput_def DS3231_setBattery_def DS3231_setOutput_def DS3231_enable32kHz_def
  DS3231_armAlarm1_def DS3231_armAlarm2_def

lemma settings_updates:
  assumes "ds_ready bus ok s"
  shows "ds_updates bus regs ok s (DS3231_enableOutput I e s) (\<lambda>c. c\<lparr>square_output := e\<rparr>)"
    "m < 4 \<Longrightarrow> ds_updates bus regs ok s (DS3231_setOutput I m s) (\<lambda>c. c\<lparr>square_rate := m\<rparr>)"
    "ds_updates bus regs ok s (DS3231_enable32kHz I e s) (\<lambda>c. c\<lparr>output_32kHz := e\<rparr>)"
    "ds_updates bus regs ok s (DS3231_armAlarm1 I e s) (\<lambda>c. c\<lparr>alarm1_armed := e\<rparr>)"
    "ds_updates bus regs ok s (DS3231_armAlarm2 I e s) (\<lambda>c. c\<lparr>alarm2_armed := e\<rparr>)"
    "ds_updates bus regs ok s (DS3231_setBattery I e q s)
       (\<lambda>c. c\<lparr>runs_on_battery := e, square_on_battery := q, square_output := e \<or> square_output c\<rparr>)"
  unfolding updates_simps Let_def
  by (rule updates_control updates_status, rule assms, simp add: control_values battery_values)+

lemma settings_reports:
  assumes "ds_ready bus ok s"
  shows "ds_reports bus regs ok s (DS3231_isOutput I s) square_output"
    "ds_reports bus regs ok s (DS3231_getOutput I s) square_rate"
    "ds_reports bus regs ok s (DS3231_is32kHz I s) output_32kHz"
    "ds_reports bus regs ok s (DS3231_isArmed1 I s) alarm1_armed"
    "ds_reports bus regs ok s (DS3231_isArmed2 I s) alarm2_armed"
  unfolding DS3231_isOutput_def DS3231_getOutput_def DS3231_is32kHz_def DS3231_isArmed1_def DS3231_isArmed2_def Let_def
  by (rule reports_register, rule assms, simp add: ds_regs_def,
      simp add: ds_regs_def settings_of_def reg_settings_def drop_masked)+

lemma clear_alarms:
  assumes "ds_ready bus ok s"
  shows "ds_updates bus regs ok s (DS3231_clearAlarm1 I s) (\<lambda>c. c)" "ds_updates bus regs ok s (DS3231_clearAlarm2 I s) (\<lambda>c. c)"
  unfolding DS3231_clearAlarm1_def DS3231_clearAlarm2_def Let_def
  by (rule updates_status, rule assms, simp add: reg_settings_def mask_simps)+

end

section \<open>Binary coded decimals\<close>

lemma table_u8: "list_all (\<lambda>n. P (word_of_nat n)) [0..<k] \<Longrightarrow> unat (x :: u8) < k \<Longrightarrow> P x"
  by (drule list_all_iff [THEN iffD1, THEN bspec, of _ _ "unat x"]) simp_all

lemma bcd_table:
  "list_all (\<lambda>n. bcd2dec (dec2bcd (word_of_nat n)) = word_of_nat n) [0..<100]"
  "list_all (\<lambda>n. dec2bcd (word_of_nat n) AND 0x7F = dec2bcd (word_of_nat n) \<and> dec2bcd (word_of_nat n) AND 0x80 = 0) [0..<80]"
  "list_all (\<lambda>n. dec2bcd (word_of_nat n) AND 0x3F = dec2bcd (word_of_nat n) \<and> dec2bcd (word_of_nat n) AND 0x40 = 0) [0..<40]"
  "list_all (\<lambda>n. dec2bcd (word_of_nat n) AND 0x9F = dec2bcd (word_of_nat n) \<and> dec2bcd (word_of_nat n) AND 0x20 = 0) [0..<20]"
  "list_all (\<lambda>n. dec2bcd (word_of_nat n) AND 0x07 = dec2bcd (word_of_nat n) \<and> dec2bcd (word_of_nat n) AND 0x0F = dec2bcd (word_of_nat n)) [0..<8]"
  by code_simp+

lemma bcd_roundtrip: "x < 100 \<Longrightarrow> bcd2dec (dec2bcd x) = x"
  using table_u8 [OF bcd_table(1), of x] by (simp add: word_less_nat_alt)

lemma dec2bcd_inj: "x < 100 \<Longrightarrow> y < 100 \<Longrightarrow> dec2bcd x = dec2bcd y \<longleftrightarrow> x = y"
  by (metis bcd_roundtrip)

lemma bcd_masks:
  "x < 80 \<Longrightarrow> dec2bcd x AND 0x7F = dec2bcd x" "x < 80 \<Longrightarrow> dec2bcd x AND 0x80 = 0"
  "x < 40 \<Longrightarrow> dec2bcd x AND 0x3F = dec2bcd x" "x < 40 \<Longrightarrow> dec2bcd x AND 0x40 = 0"
  "x < 20 \<Longrightarrow> dec2bcd x AND 0x9F = dec2bcd x" "x < 20 \<Longrightarrow> dec2bcd x AND 0x20 = 0"
  "x < 8 \<Longrightarrow> dec2bcd x AND 0x07 = dec2bcd x" "x < 8 \<Longrightarrow> dec2bcd x AND 0x0F = dec2bcd x"
  using table_u8 [OF bcd_table(2), of x] table_u8 [OF bcd_table(3), of x] table_u8 [OF bcd_table(4), of x] table_u8 [OF bcd_table(5), of x]
  by (simp_all add: word_less_nat_alt)

section \<open>Setting and reading the time\<close>

text \<open>The bytes of a date in the order of the registers.\<close>

definition time_bytes :: "nat \<Rightarrow> nat \<Rightarrow> nat \<Rightarrow> nat \<Rightarrow> nat \<Rightarrow> nat \<Rightarrow> u8 list" where
  "time_bytes y m d h mi sec =
     [dec2bcd (of_nat sec), dec2bcd (of_nat mi), dec2bcd (of_nat h), dec2bcd (of_nat ((days_of_date y m d + 5) mod 7 + 1)),
      dec2bcd (of_nat d), dec2bcd (of_nat m), dec2bcd (of_nat (y - 2000))]"

lemma of_nat_less_u8: "n < k \<Longrightarrow> k < 256 \<Longrightarrow> (of_nat n :: u8) < of_nat k"
  by (simp add: word_less_nat_alt unat_small8)

lemma date_fields:
  assumes "date_ok y m d" "h < 24" "mi < 60" "sec < 60"
  shows "(of_nat sec :: u8) < 80" "(of_nat mi :: u8) < 80" "(of_nat h :: u8) < 80" "(of_nat ((days_of_date y m d + 5) mod 7 + 1) :: u8) < 8"
    "(of_nat d :: u8) < 40" "(of_nat m :: u8) < 20" "(of_nat (y - 2000) :: u8) < 100"
proof -
  have "d < 40" "m < 20" "y - 2000 < 100"
    using assms(1) month_len_bounds(2) [of "greg_leap y" m] by (auto simp: date_ok_def)
  moreover have "(days_of_date y m d + 5) mod 7 + 1 < 8" using mod_less_divisor [of 7 "days_of_date y m d + 5"] by linarith
  ultimately show "(of_nat sec :: u8) < 80" "(of_nat mi :: u8) < 80" "(of_nat h :: u8) < 80"
    "(of_nat ((days_of_date y m d + 5) mod 7 + 1) :: u8) < 8" "(of_nat d :: u8) < 40" "(of_nat m :: u8) < 20" "(of_nat (y - 2000) :: u8) < 100"
    using assms(2-4) of_nat_less_u8 [of _ 80] of_nat_less_u8 [of _ 8] of_nat_less_u8 [of _ 40] of_nat_less_u8 [of _ 20] of_nat_less_u8 [of _ 100]
    by (simp_all del: of_nat_Suc of_nat_add)
qed

lemma store_time_bytes:
  assumes "date_ok y m d" "h < 24" "mi < 60" "sec < 60" "length r = 19"
  shows "take 7 (wr_regs 0 (time_bytes y m d h mi sec) r) = time_bytes y m d h mi sec"
proof -
  have "[0..<7] = [0, 1, 2, 3, 4, 5, 6::nat]" by code_simp
  moreover have "take 7 [0..<19] = [0..<7::nat]" by simp
  ultimately show ?thesis using date_fields [OF assms(1-4)]
    by (simp add: wr_regs_def take_map time_bytes_def ds_store_def bcd_masks del: upt_rec_numeral)
qed

lemma year_byte: "date_ok y m d \<Longrightarrow> (ucast (of_nat y - 2000 :: u16) :: u8) = of_nat (y - 2000)"
proof -
  assume "date_ok y m d"
  then have "(of_nat y - 2000 :: u16) = of_nat (y - 2000)" "y - 2000 < 100" by (auto simp: date_ok_def of_nat_diff)
  then show ?thesis using ucast_of_nat [where 'a = 16 and 'b = 8, of "y - 2000"] by simp
qed

lemma byte_year: "date_ok y m d \<Longrightarrow> ucast (of_nat (y - 2000) :: u8) + 2000 = (of_nat y :: u16)"
proof -
  assume "date_ok y m d"
  then have "y - 2000 < 256" "2000 + (y - 2000) = y" by (auto simp: date_ok_def)
  then show ?thesis using ucast_8_16 [of "y - 2000"] by (metis add.commute of_nat_add of_nat_numeral)
qed

context ds3231_steady
begin

lemma set_time:
  assumes "ds_ready bus ok s" "date_ok y m d" "h < 24" "mi < 60" "sec < 60"
  shows "\<exists>s'. DS3231_setDateTime I (of_nat y) (of_nat m) (of_nat d) (of_nat h) (of_nat mi) (of_nat sec) s = Some (True, s') \<and>
     ds_ready bus ok s' \<and> take 7 (regs (i2c_bus s')) = time_bytes y m d h mi sec"
proof -
  let ?d = "Chip_I2C_MasterTransfer I bus DS3231_ADDRESS (DS3231_REG_TIME # time_bytes y m d h mi sec) (i2c_bus s)"
  have o: "ok (i2c_bus s)" "i2cx s = bus" using assms(1) by (auto simp: ds_ready_def)
  have l: "length (time_bytes y m d h mi sec) = 7" "unat DS3231_REG_TIME = 0" by (simp_all add: time_bytes_def ds_regs_def)
  have "take 7 (regs (snd ?d)) = time_bytes y m d h mi sec"
    using transfer_time [OF o(1), of DS3231_REG_TIME "time_bytes y m d h mi sec"] store_time_bytes [OF assms(2-) ok_regs [OF o(1)]] l by simp
  moreover have "fst ?d = 0" "ok (snd ?d)" using transfer_count [OF o(1)] transfer_ok [OF o(1)] by auto
  ultimately show ?thesis
    by (auto simp: DS3231_setDateTime_def dow_calendar [OF assms(2)] year_byte [OF assms(2)] o(2) time_bytes_def ds_ready_def split: prod.splits)
qed

end

context ds3231_chip
begin

lemma get_time:
  assumes "ds_ready bus ok s" "take 7 (regs (i2c_bus s)) = time_bytes y m d h mi sec" "date_ok y m d" "h < 24" "mi < 60" "sec < 60"
  shows "\<exists>s'. DS3231_getDateTime I t s = Some (7, \<lparr>dt_year = of_nat y, dt_month = of_nat m, dt_day = of_nat d, dt_hour = of_nat h,
      dt_minute = of_nat mi, dt_second = of_nat sec, dt_dayOfWeek = of_nat ((days_of_date y m d + 5) mod 7 + 1),
      dt_unixtime = of_nat (seconds_of_date y m d h mi sec) + RTC_EPOCH + leap_error (of_nat y) (of_nat m)\<rparr>, s') \<and> ds_ready bus ok s'"
proof -
  obtain s' where s': "ds_cmd_read I DS3231_REG_TIME 7 s = (time_bytes y m d h mi sec, s')" "ds_ready bus ok s'"
    using read_block [OF assms(1), of DS3231_REG_TIME 7] assms(2) by (auto simp: ds_regs_def)
  have lt: "x < 80 \<Longrightarrow> x < (100 :: u8)" "x < 40 \<Longrightarrow> x < (100 :: u8)" "x < 20 \<Longrightarrow> x < (100 :: u8)" "x < 8 \<Longrightarrow> x < (100 :: u8)" for x
    by (simp_all add: word_less_nat_alt)
  note f = date_fields [OF assms(3-6)]
  show ?thesis using s'(2) f(1-3) [THEN lt(1)] f(4) [THEN lt(4)] f(5) [THEN lt(2)] f(6) [THEN lt(3)] f(7)
    by (simp add: DS3231_getDateTime_def s'(1) time_bytes_def c_nth_def bcd_roundtrip byte_year [OF assms(3)]
        unixtime_value [OF assms(3-6)] del: of_nat_Suc of_nat_add)
qed

end

text \<open>Setting the time from seconds or from the compiler's date strings is setting the date that the functions for the
  internal clock compute.\<close>

definition ds_set_rtc :: "'d i2c_if \<Rightarrow> RTC_TIME_T \<Rightarrow> 'd ds3231 \<Rightarrow> 'd ds3231 option" where
  "ds_set_rtc I r s =
     do { (_, s) \<leftarrow> DS3231_setDateTime I (ucast (rtc_YEAR r)) (ucast (rtc_MONTH r)) (ucast (rtc_DAYOFMONTH r)) (ucast (rtc_HOUR r))
            (ucast (rtc_MINUTE r)) (ucast (rtc_SECOND r)) s; Some s }"

lemma set_rtc:
  "do { r \<leftarrow> lpcrtc_setDateTime year month day hour minute second; ds_set_rtc I r s } =
   do { (_, s) \<leftarrow> DS3231_setDateTime I year month day hour minute second s; Some s }"
  by (cases "dow year month day")
    (simp_all add: lpcrtc_setDateTime_def ds_set_rtc_def DS3231_setDateTime_def ucast_up_ucast_id is_up)

lemma set_word_rtc: "DS3231_setDateTime_word I t s = do { r \<leftarrow> lpcrtc_setDateTime_word t; ds_set_rtc I r s }"
  unfolding DS3231_setDateTime_word_def lpcrtc_setDateTime_word_def RTC_EPOCH_def Let_def
  by (auto simp: set_rtc split: prod.splits Option.bind_splits)

lemma set_array_rtc: "DS3231_setDateTime_array I date time s = do { r \<leftarrow> lpcrtc_setDateTime_array date time; ds_set_rtc I r s }"
  unfolding DS3231_setDateTime_array_def lpcrtc_setDateTime_array_def
  by (auto simp: set_rtc split: prod.splits Option.bind_splits)

definition ds_sim0 :: "ds_sim ds3231" where
  "ds_sim0 = \<lparr>i2cx = I2C0, ds_buffer = [], i2c_bus = \<lparr>sim_regs = replicate 19 0, sim_conv = 0\<rparr>\<rparr>"

lemma ds_sim0_ready: "ds_ready I2C0 sim_ok ds_sim0"
  by (simp add: ds_ready_def ds_sim0_def sim_ok_def)

text \<open>C30. Setting the DS3231 clock and reading it in the same second. For every date of the years 2000 to 2099 and every
  time of day \<^verbatim>\<open>DS3231_setDateTime\<close> reports success, and \<^verbatim>\<open>DS3231_getDateTime\<close> then receives seven bytes and returns exactly
  this date and time, with the day of the week of the Gregorian calendar. The seconds since the epoch are
  right except in leap years, where they are one day too large in February and one day too small after it.\<close>

theorem ds3231_set_get_time:
  assumes "ds3231_steady I bus regs ok" "ds_ready bus ok s" "date_ok y m d" "h < 24" "mi < 60" "sec < 60"
  shows "\<exists>s1 s2. DS3231_setDateTime I (of_nat y) (of_nat m) (of_nat d) (of_nat h) (of_nat mi) (of_nat sec) s = Some (True, s1) \<and>
     DS3231_getDateTime I t s1 = Some (7, \<lparr>dt_year = of_nat y, dt_month = of_nat m, dt_day = of_nat d, dt_hour = of_nat h,
       dt_minute = of_nat mi, dt_second = of_nat sec, dt_dayOfWeek = of_nat ((days_of_date y m d + 5) mod 7 + 1),
       dt_unixtime = of_nat (seconds_of_date y m d h mi sec) + RTC_EPOCH + leap_error (of_nat y) (of_nat m)\<rparr>, s2)"
  using ds3231_steady.set_time [OF assms] ds3231_chip.get_time [OF ds3231_steady.axioms(1) [OF assms(1)] _ _ assms(3-6), of _ t]
  by blast

theorem ds3231_set_get_time_witness:
  "\<exists>s1 s2. DS3231_setDateTime sim_i2c (of_nat 2024) (of_nat 2) (of_nat 29) (of_nat 23) (of_nat 59) (of_nat 58) ds_sim0 = Some (True, s1) \<and>
     DS3231_getDateTime sim_i2c DS3231_initialize s1 = Some (7, \<lparr>dt_year = of_nat 2024, dt_month = of_nat 2, dt_day = of_nat 29, dt_hour = of_nat 23,
       dt_minute = of_nat 59, dt_second = of_nat 58, dt_dayOfWeek = of_nat ((days_of_date 2024 2 29 + 5) mod 7 + 1),
       dt_unixtime = of_nat (seconds_of_date 2024 2 29 23 59 58) + RTC_EPOCH + leap_error (of_nat 2024) (of_nat 2)\<rparr>, s2)"
proof -
  have "date_ok 2024 2 29" by (simp add: date_ok_def month_len_def greg_leap_def)
  then show ?thesis
    by (rule ds3231_set_get_time [OF sim.ds3231_steady_axioms ds_sim0_ready]) simp_all
qed

text \<open>C31. The settings of the DS3231. Each setting function returns and changes exactly one part of the chip's settings
  (output of the square wave, its rate, the 32 kHz output, the two alarm interrupts), each query function returns that
  part, and neither touches the alarm times. \<^verbatim>\<open>DS3231_setBattery\<close> is the exception: switching the
  clock to run on the battery also switches the square wave output on.\<close>

theorem ds3231_settings:
  assumes "ds3231_chip I bus regs ok" "ds_ready bus ok s"
  shows "ds_updates bus regs ok s (DS3231_enableOutput I e s) (\<lambda>c. c\<lparr>square_output := e\<rparr>) \<and>
    (m < 4 \<longrightarrow> ds_updates bus regs ok s (DS3231_setOutput I m s) (\<lambda>c. c\<lparr>square_rate := m\<rparr>)) \<and>
    ds_updates bus regs ok s (DS3231_enable32kHz I e s) (\<lambda>c. c\<lparr>output_32kHz := e\<rparr>) \<and>
    ds_updates bus regs ok s (DS3231_armAlarm1 I e s) (\<lambda>c. c\<lparr>alarm1_armed := e\<rparr>) \<and>
    ds_updates bus regs ok s (DS3231_armAlarm2 I e s) (\<lambda>c. c\<lparr>alarm2_armed := e\<rparr>) \<and>
    ds_updates bus regs ok s (DS3231_setBattery I e q s)
      (\<lambda>c. c\<lparr>runs_on_battery := e, square_on_battery := q, square_output := e \<or> square_output c\<rparr>) \<and>
    ds_reports bus regs ok s (DS3231_isOutput I s) square_output \<and>
    ds_reports bus regs ok s (DS3231_getOutput I s) square_rate \<and>
    ds_reports bus regs ok s (DS3231_is32kHz I s) output_32kHz \<and>
    ds_reports bus regs ok s (DS3231_isArmed1 I s) alarm1_armed \<and>
    ds_reports bus regs ok s (DS3231_isArmed2 I s) alarm2_armed"
  using ds3231_chip.settings_updates [OF assms] ds3231_chip.settings_reports [OF assms] by blast

theorem ds3231_settings_witness:
  "ds_updates I2C0 sim_regs sim_ok ds_sim0 (DS3231_setOutput sim_i2c DS3231_8192HZ ds_sim0) (\<lambda>c. c\<lparr>square_rate := DS3231_8192HZ\<rparr>)"
  using ds3231_settings [OF sim.ds3231_chip_axioms ds_sim0_ready, of _ DS3231_8192HZ] by (simp add: DS3231_8192HZ_def)

section \<open>Alarms\<close>

text \<open>The data sheet's rule: a field takes part in the comparison when its bit 7 is clear; bit 6 of the last byte selects the
  day of the week instead of the day of the month.\<close>

definition alarm_hit :: "u8 \<Rightarrow> u8 \<Rightarrow> bool" where
  "alarm_hit a t \<longleftrightarrow> a AND 0x80 \<noteq> 0 \<or> a AND 0x7F = t"

definition alarm_day_hit :: "u8 \<Rightarrow> u8 \<Rightarrow> u8 \<Rightarrow> bool" where
  "alarm_day_hit a wd d \<longleftrightarrow> a AND 0x80 \<noteq> 0 \<or> (if a AND 0x40 \<noteq> 0 then a AND 0x0F = wd else a AND 0x3F = d)"

definition alarm1_fires :: "u8 list \<Rightarrow> u8 \<Rightarrow> u8 \<Rightarrow> u8 \<Rightarrow> u8 \<Rightarrow> u8 \<Rightarrow> bool" where
  "alarm1_fires a wd d h mi sec \<longleftrightarrow>
     alarm_hit (a ! 0) (dec2bcd sec) \<and> alarm_hit (a ! 1) (dec2bcd mi) \<and> alarm_hit (a ! 2) (dec2bcd h) \<and>
     alarm_day_hit (a ! 3) (dec2bcd wd) (dec2bcd d)"

text \<open>When an alarm of the given mode is due, as the names of the modes say.\<close>

definition alarm1_due :: "u8 \<Rightarrow> u8 \<Rightarrow> u8 \<Rightarrow> u8 \<Rightarrow> u8 \<Rightarrow> u8 \<Rightarrow> u8 \<Rightarrow> u8 \<Rightarrow> u8 \<Rightarrow> u8 \<Rightarrow> bool" where
  "alarm1_due mode dydw hour minute second wd d h mi sec \<longleftrightarrow>
     mode = DS3231_EVERY_SECOND \<or> (second = sec \<and>
       (mode = DS3231_MATCH_S \<or> (minute = mi \<and>
         (mode = DS3231_MATCH_M_S \<or> (hour = h \<and>
           (mode = DS3231_MATCH_H_M_S \<or> dydw = (if mode = DS3231_MATCH_DY_H_M_S then wd else d)))))))"

definition alarm1_modes :: "u8 list" where
  "alarm1_modes = [DS3231_EVERY_SECOND, DS3231_MATCH_S, DS3231_MATCH_M_S, DS3231_MATCH_H_M_S, DS3231_MATCH_DT_H_M_S, DS3231_MATCH_DY_H_M_S]"

definition alarm_time_ok :: "u8 \<Rightarrow> u8 \<Rightarrow> u8 \<Rightarrow> u8 \<Rightarrow> u8 \<Rightarrow> bool" where
  "alarm_time_ok wd d h mi sec \<longleftrightarrow> 1 \<le> wd \<and> wd \<le> 7 \<and> 1 \<le> d \<and> d \<le> 31 \<and> h < 24 \<and> mi < 60 \<and> sec < 60"

lemma alarm_hits:
  assumes "x < 80" "y < 80"
  shows "alarm_hit (dec2bcd x AND 0x7F) (dec2bcd y) \<longleftrightarrow> x = y" "alarm_hit (dec2bcd x OR 0x80) t"
  using assms dec2bcd_inj [of x y] by (auto simp: alarm_hit_def bcd_masks mask_simps word_less_nat_alt)

lemma alarm_day_hits:
  "x < 40 \<Longrightarrow> d < 40 \<Longrightarrow> alarm_day_hit (dec2bcd x AND 0x7F) wd (dec2bcd d) \<longleftrightarrow> x = d"
  "x < 8 \<Longrightarrow> w < 8 \<Longrightarrow> alarm_day_hit ((dec2bcd x AND 0x7F) OR 0x40) (dec2bcd w) t \<longleftrightarrow> x = w"
  "alarm_day_hit (y OR 0x80) wd t"
proof -
  show "alarm_day_hit (y OR 0x80) wd t" by (simp add: alarm_day_hit_def mask_simps)
  show "alarm_day_hit (dec2bcd x AND 0x7F) wd (dec2bcd d) \<longleftrightarrow> x = d" if "x < 40" "d < 40"
    using that dec2bcd_inj [of x d] bcd_masks(2-4) [of x] by (auto simp: alarm_day_hit_def mask_simps word_less_nat_alt)
  show "alarm_day_hit ((dec2bcd x AND 0x7F) OR 0x40) (dec2bcd w) t \<longleftrightarrow> x = w" if "x < 8" "w < 8"
    using that dec2bcd_inj [of x w] bcd_masks(2,8) [of x] by (auto simp: alarm_day_hit_def mask_simps word_less_nat_alt)
qed

lemma alarm1_fields_fire:
  assumes "alarm_time_ok wd d h mi sec" "alarm_time_ok wd' d' hour minute second" "mode \<in> set alarm1_modes"
    "dydw = (if mode = DS3231_MATCH_DY_H_M_S then wd' else d')"
  shows "alarm1_fires (alarm1_fields mode (dec2bcd second) (dec2bcd minute) (dec2bcd hour) (dec2bcd dydw)) wd d h mi sec \<longleftrightarrow>
     alarm1_due mode dydw hour minute second wd d h mi sec"
proof -
  have lt: "wd < 8" "d < 40" "h < 80" "mi < 80" "sec < 80" "wd' < 8" "d' < 40" "hour < 80" "minute < 80" "second < 80"
    using assms(1,2) by (simp_all add: alarm_time_ok_def word_le_nat)
  show ?thesis using assms(3) lt
    by (auto simp: alarm1_modes_def alarm1_fires_def alarm1_fields_def alarm1_due_def ds_modes_def assms(4) alarm_hits alarm_day_hits)
qed

context ds3231_chip
begin

lemma set_alarm1:
  assumes "ds_ready bus ok s"
  shows "\<exists>s'. DS3231_setAlarm1 I dydw hour minute second mode armed s = Some s' \<and> ds_ready bus ok s' \<and>
     take 4 (alarm_regs (regs (i2c_bus s'))) = alarm1_fields mode (dec2bcd second) (dec2bcd minute) (dec2bcd hour) (dec2bcd dydw) \<and>
     settings_of (regs (i2c_bus s')) = (settings_of (regs (i2c_bus s)))\<lparr>alarm1_armed := armed\<rparr>"
proof -
  let ?vs = "alarm1_fields mode (dec2bcd second) (dec2bcd minute) (dec2bcd hour) (dec2bcd dydw)"
  have l: "length ?vs = 4" "unat DS3231_REG_ALARM_1 = 7" by (simp_all add: alarm1_fields_def ds_regs_def)
  obtain s1 where s1: "ds_send I (DS3231_REG_ALARM_1 # ?vs) s = (5, s1)" "ds_ready bus ok s1"
      "chip_evolves (wr_regs 7 ?vs (regs (i2c_bus s))) (regs (i2c_bus s1))"
    using send_block [OF assms, of ?vs DS3231_REG_ALARM_1] l by auto
  have a: "take 4 (alarm_regs (regs (i2c_bus s1))) = ?vs"
    unfolding alarm_regs_evolve [OF s1(3) length_wr_regs]
    by (rule nth_equalityI) (simp_all add: alarm_regs_def wr_regs_nth ds_store_def l)
  have t: "settings_of (regs (i2c_bus s1)) = settings_of (regs (i2c_bus s))"
    unfolding settings_evolve [OF s1(3)] by (simp add: settings_of_def wr_regs_nth l)
  obtain s2 where s2: "DS3231_armAlarm1 I armed s1 = Some s2" "ds_ready bus ok s2"
      "settings_of (regs (i2c_bus s2)) = (settings_of (regs (i2c_bus s1)))\<lparr>alarm1_armed := armed\<rparr>"
      "alarm_regs (regs (i2c_bus s2)) = alarm_regs (regs (i2c_bus s1))"
    using settings_updates(4) [OF s1(2)] by (auto simp: ds_updates_def)
  show ?thesis using clear_alarms(1) [OF s2(2)] by (auto simp: DS3231_setAlarm1_def s1(1) s2 ds_updates_def a t)
qed

lemma set_alarm2:
  assumes "ds_ready bus ok s"
  shows "\<exists>s'. DS3231_setAlarm2 I dydw hour minute mode armed s = Some s' \<and> ds_ready bus ok s' \<and>
     drop 4 (alarm_regs (regs (i2c_bus s'))) = alarm2_fields mode (dec2bcd minute) (dec2bcd hour) (dec2bcd dydw) \<and>
     settings_of (regs (i2c_bus s')) = (settings_of (regs (i2c_bus s)))\<lparr>alarm2_armed := armed\<rparr>"
proof -
  let ?vs = "alarm2_fields mode (dec2bcd minute) (dec2bcd hour) (dec2bcd dydw)"
  have l: "length ?vs = 3" "unat DS3231_REG_ALARM_2 = 11" by (simp_all add: alarm2_fields_def ds_regs_def)
  obtain s1 where s1: "ds_send I (DS3231_REG_ALARM_2 # ?vs) s = (4, s1)" "ds_ready bus ok s1"
      "chip_evolves (wr_regs 11 ?vs (regs (i2c_bus s))) (regs (i2c_bus s1))"
    using send_block [OF assms, of ?vs DS3231_REG_ALARM_2] l by auto
  have a: "drop 4 (alarm_regs (regs (i2c_bus s1))) = ?vs"
    unfolding alarm_regs_evolve [OF s1(3) length_wr_regs]
    by (rule nth_equalityI) (simp_all add: alarm_regs_def wr_regs_nth ds_store_def l)
  have t: "settings_of (regs (i2c_bus s1)) = settings_of (regs (i2c_bus s))"
    unfolding settings_evolve [OF s1(3)] by (simp add: settings_of_def wr_regs_nth l)
  obtain s2 where s2: "DS3231_armAlarm2 I armed s1 = Some s2" "ds_ready bus ok s2"
      "settings_of (regs (i2c_bus s2)) = (settings_of (regs (i2c_bus s1)))\<lparr>alarm2_armed := armed\<rparr>"
      "alarm_regs (regs (i2c_bus s2)) = alarm_regs (regs (i2c_bus s1))"
    using settings_updates(5) [OF s1(2)] by (auto simp: ds_updates_def)
  show ?thesis using clear_alarms(2) [OF s2(2)] by (auto simp: DS3231_setAlarm2_def s1(1) s2 ds_updates_def a t)
qed

lemma read_alarm1:
  assumes "ds_ready bus ok s"
  shows "\<exists>s'. ds_cmd_read I DS3231_REG_ALARM_1 4 s = (take 4 (alarm_regs (regs (i2c_bus s))), s') \<and> ds_ready bus ok s' \<and>
    alarm_regs (regs (i2c_bus s')) = alarm_regs (regs (i2c_bus s))"
  using read_block [OF assms, of DS3231_REG_ALARM_1 4] alarm_regs_evolve [OF _ ready_length [OF assms]]
  by (auto simp: ds_regs_def alarm_regs_def)

end

text \<open>C32. Alarm 1 of the DS3231. After \<^verbatim>\<open>DS3231_setAlarm1\<close> with one of its six modes and values in their ranges, the chip's
  comparison of the alarm registers with the time holds exactly at the times that the mode asks for, whatever the
  time; the alarm interrupt is on or off as requested and no other setting has changed.\<close>

theorem ds3231_alarm1_due:
  assumes "ds3231_chip I bus regs ok" "ds_ready bus ok s" "mode \<in> set alarm1_modes"
    "alarm_time_ok wd' d' hour minute second" "dydw = (if mode = DS3231_MATCH_DY_H_M_S then wd' else d')"
  shows "\<exists>s'. DS3231_setAlarm1 I dydw hour minute second mode armed s = Some s' \<and>
     settings_of (regs (i2c_bus s')) = (settings_of (regs (i2c_bus s)))\<lparr>alarm1_armed := armed\<rparr> \<and>
     (\<forall>wd d h mi sec. alarm_time_ok wd d h mi sec \<longrightarrow>
        alarm1_fires (take 4 (alarm_regs (regs (i2c_bus s')))) wd d h mi sec =
        alarm1_due mode dydw hour minute second wd d h mi sec)"
  using ds3231_chip.set_alarm1 [OF assms(1,2), of dydw hour minute second mode armed] alarm1_fields_fire [OF _ assms(4,3,5)]
  by metis

theorem ds3231_alarm1_due_witness:
  "\<exists>s'. DS3231_setAlarm1 sim_i2c 3 6 30 0 DS3231_MATCH_DY_H_M_S True ds_sim0 = Some s' \<and>
     settings_of (sim_regs (i2c_bus s')) = (settings_of (sim_regs (i2c_bus ds_sim0)))\<lparr>alarm1_armed := True\<rparr> \<and>
     alarm1_fires (take 4 (alarm_regs (sim_regs (i2c_bus s')))) 3 17 6 30 0"
proof -
  have t: "alarm_time_ok 3 1 6 30 0" "alarm_time_ok 3 17 6 30 0" by (simp_all add: alarm_time_ok_def)
  have m: "DS3231_MATCH_DY_H_M_S \<in> set alarm1_modes" by (simp add: alarm1_modes_def)
  have "alarm1_due DS3231_MATCH_DY_H_M_S 3 6 30 0 3 17 6 30 0" by (simp add: alarm1_due_def)
  then show ?thesis
    using ds3231_alarm1_due [OF sim.ds3231_chip_axioms ds_sim0_ready m t(1), of 3 True] t(2) by auto
qed

text \<open>Reading alarm 1 back. Whatever the mode (other than the one for a day of the week), \<^verbatim>\<open>DS3231_getAlarm1\<close> after
  \<^verbatim>\<open>DS3231_setAlarm1\<close> returns the four values in the reverse order: the second as the day, the minute as the hour, the
  hour as the minute and the day as the second. \<^verbatim>\<open>DS3231_getAlarmType1\<close> does not return the mode: for
  a second below 20 and a minute below 40 it is \<^verbatim>\<open>DS3231_MATCH_DT_H_M_S\<close> for every mode.\<close>

theorem ds3231_get_alarm1_reversed:
  assumes "ds3231_chip I bus regs ok" "ds_ready bus ok s" "mode \<noteq> DS3231_MATCH_DY_H_M_S"
    "alarm_time_ok wd dydw hour minute second"
  shows "\<exists>s1 s2. DS3231_setAlarm1 I dydw hour minute second mode armed s = Some s1 \<and>
     DS3231_getAlarm1 I s1 = Some (\<lparr>al_day = second, al_hour = minute, al_minute = hour, al_second = dydw\<rparr>, s2) \<and>
     (second < 20 \<and> minute < 40 \<longrightarrow> (\<exists>s3. DS3231_getAlarmType1 I s2 = Some (DS3231_MATCH_DT_H_M_S, s3)))"
proof -
  obtain s1 where s1: "DS3231_setAlarm1 I dydw hour minute second mode armed s = Some s1" "ds_ready bus ok s1"
      "take 4 (alarm_regs (regs (i2c_bus s1))) = alarm1_fields mode (dec2bcd second) (dec2bcd minute) (dec2bcd hour) (dec2bcd dydw)"
    using ds3231_chip.set_alarm1 [OF assms(1,2)] by blast
  obtain s2 where s2: "ds_cmd_read I DS3231_REG_ALARM_1 4 s1 = (take 4 (alarm_regs (regs (i2c_bus s1))), s2)" "ds_ready bus ok s2"
      "alarm_regs (regs (i2c_bus s2)) = alarm_regs (regs (i2c_bus s1))"
    using ds3231_chip.read_alarm1 [OF assms(1) s1(2)] by blast
  obtain s3 where s3: "ds_cmd_read I DS3231_REG_ALARM_1 4 s2 = (take 4 (alarm_regs (regs (i2c_bus s1))), s3)"
    using ds3231_chip.read_alarm1 [OF assms(1) s2(2)] s2(3) by auto
  have lt: "dydw < 40" "dydw < 80" "dydw < 100" "hour < 80" "hour < 40" "hour < 100" "minute < 80" "minute < 100" "second < 80" "second < 100"
    using assms(4) by (simp_all add: alarm_time_ok_def word_le_nat)
  have "DS3231_getAlarm1 I s1 = Some (\<lparr>al_day = second, al_hour = minute, al_minute = hour, al_second = dydw\<rparr>, s2)"
    using lt assms(3) by (simp add: DS3231_getAlarm1_def get_alarm_def s2(1) s1(3) alarm1_fields_def c_nth_def mask_simps bcd_masks bcd_roundtrip)
  moreover have "DS3231_getAlarmType1 I s2 = Some (DS3231_MATCH_DT_H_M_S, s3)" if "second < 20" "minute < 40"
    using that lt assms(3) bcd_masks(4,6) [of second]
    by (simp add: DS3231_getAlarmType1_def get_alarm_type_def s3 s1(3) alarm1_fields_def c_nth_def mask_simps bcd_masks
        bcd2dec_def DS3231_MATCH_DT_H_M_S_def word_less_nat_alt del: drop_bit_and)
  ultimately show ?thesis using s1(1) by blast
qed

theorem ds3231_get_alarm1_reversed_witness:
  "\<exists>s1 s2. DS3231_setAlarm1 sim_i2c 17 6 30 5 DS3231_MATCH_H_M_S True ds_sim0 = Some s1 \<and>
     DS3231_getAlarm1 sim_i2c s1 = Some (\<lparr>al_day = 5, al_hour = 30, al_minute = 6, al_second = 17\<rparr>, s2) \<and>
     (\<exists>s3. DS3231_getAlarmType1 sim_i2c s2 = Some (DS3231_MATCH_DT_H_M_S, s3))"
proof -
  have "alarm_time_ok 1 17 6 30 5" by (simp add: alarm_time_ok_def)
  then show ?thesis
    using ds3231_get_alarm1_reversed [OF sim.ds3231_chip_axioms ds_sim0_ready, of DS3231_MATCH_H_M_S 1 17 6 30 5 True]
    by (simp add: ds_modes_def)
qed

text \<open>Alarm 2 has no seconds; the chip compares it when the seconds are zero.\<close>

definition alarm2_fires :: "u8 list \<Rightarrow> u8 \<Rightarrow> u8 \<Rightarrow> u8 \<Rightarrow> u8 \<Rightarrow> bool" where
  "alarm2_fires a wd d h mi \<longleftrightarrow>
     alarm_hit (a ! 0) (dec2bcd mi) \<and> alarm_hit (a ! 1) (dec2bcd h) \<and> alarm_day_hit (a ! 2) (dec2bcd wd) (dec2bcd d)"

definition alarm2_due :: "u8 \<Rightarrow> u8 \<Rightarrow> u8 \<Rightarrow> u8 \<Rightarrow> u8 \<Rightarrow> u8 \<Rightarrow> u8 \<Rightarrow> u8 \<Rightarrow> bool" where
  "alarm2_due mode dydw hour minute wd d h mi \<longleftrightarrow>
     mode = DS3231_EVERY_MINUTE \<or> (minute = mi \<and>
       (mode = DS3231_MATCH_M \<or> (hour = h \<and>
         (mode = DS3231_MATCH_H_M \<or> dydw = (if mode = DS3231_MATCH_DY_H_M then wd else d)))))"

definition alarm2_modes :: "u8 list" where
  "alarm2_modes = [DS3231_EVERY_MINUTE, DS3231_MATCH_M, DS3231_MATCH_H_M, DS3231_MATCH_DT_H_M, DS3231_MATCH_DY_H_M]"

lemma alarm2_fields_fire:
  assumes "alarm_time_ok wd d h mi 0" "alarm_time_ok wd' d' hour minute 0" "mode \<in> set alarm2_modes"
    "dydw = (if mode = DS3231_MATCH_DY_H_M then wd' else d')"
  shows "alarm2_fires (alarm2_fields mode (dec2bcd minute) (dec2bcd hour) (dec2bcd dydw)) wd d h mi \<longleftrightarrow>
     alarm2_due mode dydw hour minute wd d h mi"
proof -
  have lt: "wd < 8" "d < 40" "h < 80" "mi < 80" "wd' < 8" "d' < 40" "hour < 80" "minute < 80"
    using assms(1,2) by (simp_all add: alarm_time_ok_def word_le_nat)
  show ?thesis using assms(3) lt
    by (auto simp: alarm2_modes_def alarm2_fires_def alarm2_fields_def alarm2_due_def ds_modes_def assms(4) alarm_hits alarm_day_hits)
qed

lemma ds3231_alarm2_due:
  assumes "ds3231_chip I bus regs ok" "ds_ready bus ok s" "mode \<in> set alarm2_modes"
    "alarm_time_ok wd' d' hour minute 0" "dydw = (if mode = DS3231_MATCH_DY_H_M then wd' else d')"
  shows "\<exists>s'. DS3231_setAlarm2 I dydw hour minute mode armed s = Some s' \<and>
     settings_of (regs (i2c_bus s')) = (settings_of (regs (i2c_bus s)))\<lparr>alarm2_armed := armed\<rparr> \<and>
     (\<forall>wd d h mi. alarm_time_ok wd d h mi 0 \<longrightarrow>
        alarm2_fires (drop 4 (alarm_regs (regs (i2c_bus s')))) wd d h mi = alarm2_due mode dydw hour minute wd d h mi)"
  using ds3231_chip.set_alarm2 [OF assms(1,2), of dydw hour minute mode armed] alarm2_fields_fire [OF _ assms(4,3,5)]
  by metis

text \<open>Clearing one alarm flag keeps the other one when it was already set as the status was read. When it comes up
  between the read and the write it is lost: the driver then writes a zero over it.\<close>

context ds3231_chip
begin

lemma clear_keeps_other:
  assumes "ds_ready bus ok s" "regs (i2c_bus s) ! 15 AND 0x02 \<noteq> 0"
  shows "\<exists>s'. DS3231_clearAlarm1 I s = Some s' \<and> ds_ready bus ok s' \<and> regs (i2c_bus s') ! 15 AND 0x02 \<noteq> 0"
proof -
  let ?v = "regs (i2c_bus s) ! 15"
  have u: "unat DS3231_REG_STATUS = 15" by (simp add: ds_regs_def)
  obtain s1 where s1: "readRegister8 I DS3231_REG_STATUS s = Some (?v, s1)" "ds_ready bus ok s1"
      "chip_evolves (regs (i2c_bus s)) (regs (i2c_bus s1))"
    using read_register [OF assms(1), of DS3231_REG_STATUS] u by auto
  let ?w = "regs (i2c_bus s1) ! 15" and ?s' = "writeRegister8 I DS3231_REG_STATUS (?v AND 0xFE) s1"
  have e: "chip_evolves (wr_regs 15 [?v AND 0xFE] (regs (i2c_bus s1))) (regs (i2c_bus ?s'))" "ds_ready bus ok ?s'"
    using write_register [OF s1(2), of DS3231_REG_STATUS] u by auto
  have b: "x AND 0x02 \<noteq> 0 \<longleftrightarrow> bit x 1" for x :: u8
    using and_exp_eq_0_iff_not_bit [of x 1] by simp
  have flag: "bit y 1" if "bit x 1" "x AND y AND 0x83 = x AND 0x83" for x y :: u8
    using that bit_and_iff [of x "y AND 0x83" 1] by (simp add: bit_and_iff)
  have "bit ?w 1" using flag [of ?v ?w] assms(2) s1(3) by (simp add: b chip_evolves_def)
  then have "bit (ds_store 15 (?v AND 0xFE) ?w) 1" using assms(2) by (simp add: b ds_store_def bit_simps)
  then have "bit (regs (i2c_bus ?s') ! 15) 1"
    using flag [of "ds_store 15 (?v AND 0xFE) ?w" "regs (i2c_bus ?s') ! 15"] e(1) by (simp add: chip_evolves_def wr_regs_nth)
  then show ?thesis using e(2) by (auto simp: DS3231_clearAlarm1_def s1(1) b)
qed

end

definition race_i2c :: "ds_sim i2c_if" where
  "race_i2c = sim_i2c\<lparr>Chip_I2C_MasterCmdRead := (\<lambda>bus adr reg n d.
     let (vs, d) = sim_read reg n d in (vs, d\<lparr>sim_regs := (sim_regs d)[15 := sim_regs d ! 15 OR 0x02]\<rparr>))\<rparr>"

lemma clear_alarm_race:
  "\<exists>s1 s'. readRegister8 race_i2c DS3231_REG_STATUS ds_sim0 = Some (0, s1) \<and> sim_regs (i2c_bus s1) ! 15 AND 0x02 \<noteq> 0 \<and>
     DS3231_clearAlarm1 race_i2c ds_sim0 = Some s' \<and> sim_regs (i2c_bus s') ! 15 AND 0x02 = 0"
  by (simp add: race_i2c_def sim_i2c_def sim_read_def sim_write_def ds_sim0_def DS3231_clearAlarm1_def readRegister8_def writeRegister8_def
      ds_send_def ds_cmd_read_def ds_regs_def DS3231_ADDRESS_def c_nth_def wr_regs_nth ds_store_def)

section \<open>Temperature\<close>

context ds3231_conv
begin

lemma conversion_step:
  assumes "ds_ready bus ok s"
  shows "\<exists>s1. readRegister8 I DS3231_REG_CONTROL s = Some (regs (i2c_bus s) ! 14, s1) \<and> ds_ready bus ok s1 \<and>
     chip_evolves (regs (i2c_bus s)) (regs (i2c_bus s1)) \<and>
     (regs (i2c_bus s1) ! 14 AND 0x20 = 0 \<or> conv_left (i2c_bus s1) < conv_left (i2c_bus s))"
proof -
  have u: "unat DS3231_REG_CONTROL = 14" by (simp add: ds_regs_def)
  have "ok (i2c_bus s)" using assms by (simp add: ds_ready_def)
  from conv_progress [OF this, of DS3231_REG_CONTROL 1] show ?thesis
    using read_register [OF assms, of DS3231_REG_CONTROL] u by auto
qed

lemma conversion_over:
  assumes "ds_ready bus ok s" "regs (i2c_bus s) ! 14 AND 0x20 = 0"
  shows "\<exists>s'. conversion_loop I s = Some s' \<and> ds_ready bus ok s' \<and> regs (i2c_bus s') ! 14 AND 0x20 = 0"
proof -
  obtain s1 where s1: "readRegister8 I DS3231_REG_CONTROL s = Some (regs (i2c_bus s) ! 14, s1)" "ds_ready bus ok s1"
      "chip_evolves (regs (i2c_bus s)) (regs (i2c_bus s1))"
    using conversion_step [OF assms(1)] by blast
  have "regs (i2c_bus s1) ! 14 AND 0x20 = 0" using s1(3) assms(2) by (auto simp: chip_evolves_def mask_simps)
  then show ?thesis using assms(2) s1(1,2) by (subst conversion_loop.simps) simp
qed

lemma conversion_loop_ends:
  "ds_ready bus ok s \<Longrightarrow> \<exists>s'. conversion_loop I s = Some s' \<and> ds_ready bus ok s' \<and> regs (i2c_bus s') ! 14 AND 0x20 = 0"
proof (induction "conv_left (i2c_bus s)" arbitrary: s rule: less_induct)
  case less
  show ?case
  proof (cases "regs (i2c_bus s) ! 14 AND 0x20 = 0")
    case True
    then show ?thesis using conversion_over less.prems by blast
  next
    case False
    obtain s1 where s1: "readRegister8 I DS3231_REG_CONTROL s = Some (regs (i2c_bus s) ! 14, s1)" "ds_ready bus ok s1"
        "regs (i2c_bus s1) ! 14 AND 0x20 = 0 \<or> conv_left (i2c_bus s1) < conv_left (i2c_bus s)"
      using conversion_step [OF less.prems] by blast
    have "conversion_loop I s = conversion_loop I s1" using False s1(1) by (subst conversion_loop.simps) simp
    then show ?thesis using s1(2,3) conversion_over [OF s1(2)] less.hyps [OF _ s1(2)] by auto
  qed
qed

end

text \<open>A forced temperature conversion ends. \<^verbatim>\<open>DS3231_forceConversion\<close> starts a conversion and polls the chip; on a chip
  that comes nearer to the end of a conversion with every poll it returns, and the conversion is over.\<close>

theorem ds3231_force_conversion_ends:
  assumes "ds3231_conv I bus regs ok conv_left" "ds_ready bus ok s"
  shows "\<exists>s'. DS3231_forceConversion I s = Some s' \<and> ds_ready bus ok s' \<and> regs (i2c_bus s') ! 14 AND 0x20 = 0"
proof -
  obtain s1 where s1: "readRegister8 I DS3231_REG_CONTROL s = Some (regs (i2c_bus s) ! 14, s1)"
      "ds_ready bus ok (writeRegister8 I DS3231_REG_CONTROL (regs (i2c_bus s) ! 14 OR 0x20) s1)"
    using ds3231_chip.modify_control [OF ds3231_conv.axioms(1) [OF assms(1)] assms(2)] by blast
  then show ?thesis using ds3231_conv.conversion_loop_ends [OF assms(1) s1(2)] by (simp add: DS3231_forceConversion_def)
qed

theorem ds3231_force_conversion_ends_witness:
  "\<exists>s'. DS3231_forceConversion sim_i2c ds_sim0 = Some s' \<and> ds_ready I2C0 sim_ok s' \<and> sim_regs (i2c_bus s') ! 14 AND 0x20 = 0"
  by (rule ds3231_force_conversion_ends [OF sim.ds3231_conv_axioms ds_sim0_ready])

text \<open>The chip stores a temperature of \<open>T\<close> quarters of a degree as a ten-bit number in two's complement, the upper eight bits
  first. The driver does not extend the sign: a temperature below zero is read 256 degrees too high.\<close>

definition temperature_bytes :: "int \<Rightarrow> u8 list" where
  "temperature_bytes T = [word_of_int (T div 4), push_bit 6 (word_of_int (T mod 4))]"

lemma temperature_read:
  assumes "ds3231_chip I bus regs ok" "ds_ready bus ok s" "drop 17 (regs (i2c_bus s)) = temperature_bytes T" "- 512 \<le> T" "T < 512"
  shows "fst (DS3231_readTemperature I s) = (if T < 0 then T + 1024 else T)"
proof -
  obtain s' where s': "ds_cmd_read I DS3231_REG_TEMPERATURE 2 s = (temperature_bytes T, s')"
    using ds3231_chip.read_block [OF assms(1,2), of DS3231_REG_TEMPERATURE 2] assms(3) by (auto simp: ds_regs_def temperature_bytes_def)
  define q where "q = T mod 4"
  have q: "0 \<le> q" "q < 4" by (simp_all add: q_def)
  have low: "uint (push_bit 6 (word_of_int q) :: u8) = push_bit 6 q"
    using q by (auto simp: push_bit_eq_mult uint_word_ariths uint_word_of_int)
  have high: "uint (word_of_int (T div 4) :: u8) = (if T < 0 then T div 4 + 256 else T div 4)"
    using assms(4,5) mod_pos_pos_trivial [of "T div 4 + 256" 256] by (auto simp: uint_word_of_int mod_pos_pos_trivial)
  have "q = take_bit 2 q" using q take_bit_int_eq_self [of q 2] by simp
  then have "push_bit 2 u AND q = 0" for u :: int by (metis bit_eqI bit_and_iff bit_push_bit_iff bit_take_bit_iff bit_0_eq linorder_not_less bot_apply bot_bool_def)
  then have "push_bit 2 u OR q = 4 * u + q" for u :: int
    using disjunctive_add_eq_or [of "push_bit 2 u" q] by (simp add: push_bit_eq_mult)
  then have "drop_bit 6 (push_bit 8 u OR push_bit 6 q) = 4 * u + q" for u :: int by (simp add: drop_bit_push_bit)
  then show ?thesis
    using mult_div_mod_eq [of 4 T]
    by (simp add: DS3231_readTemperature_def s' temperature_bytes_def q_def [symmetric] low high)
qed

section \<open>Setting from seconds\<close>

text \<open>Setting the DS3231 from a number of seconds and reading it in the same second gives the same number of seconds, for
  every value at most 100 years after the code's epoch, except in leap years: one day too many in February, one
  day too few after it.\<close>

theorem ds3231_seconds_roundtrip:
  assumes "ds3231_steady I bus regs ok" "ds_ready bus ok s" "rtc_range t"
  shows "\<exists>s1 s2 t'. DS3231_setDateTime_word I t s = Some s1 \<and> DS3231_getDateTime I t0 s1 = Some (7, t', s2) \<and>
     dt_unixtime t' = t + leap_error (dt_year t') (dt_month t')"
proof -
  obtain y m d h mi sec where v: "date_ok y m d" "h < 24" "mi < 60" "sec < 60"
      "seconds_of_date y m d h mi sec = unat (t - RTC_EPOCH)"
      "lpcrtc_setDateTime_word t = lpcrtc_setDateTime (of_nat y) (of_nat m) (of_nat d) (of_nat h) (of_nat mi) (of_nat sec)"
    using set_word_date [OF assms(3)] by blast
  obtain s1 where s1: "DS3231_setDateTime I (of_nat y) (of_nat m) (of_nat d) (of_nat h) (of_nat mi) (of_nat sec) s = Some (True, s1)"
      "ds_ready bus ok s1" "take 7 (regs (i2c_bus s1)) = time_bytes y m d h mi sec"
    using ds3231_steady.set_time [OF assms(1,2) v(1-4)] by blast
  have "DS3231_setDateTime_word I t s = Some s1" unfolding set_word_rtc v(6) set_rtc s1(1) by simp
  moreover have "t = of_nat (seconds_of_date y m d h mi sec) + RTC_EPOCH" using v(5) by simp
  ultimately show ?thesis
    using ds3231_chip.get_time [OF ds3231_steady.axioms(1) [OF assms(1)] s1(2,3) v(1-4), of t0] by auto
qed

theorem ds3231_seconds_roundtrip_witness:
  "\<exists>s1 s2 t'. DS3231_setDateTime_word sim_i2c 1709204400 ds_sim0 = Some s1 \<and>
     DS3231_getDateTime sim_i2c DS3231_initialize s1 = Some (7, t', s2) \<and>
     dt_unixtime t' = 1709204400 + leap_error (dt_year t') (dt_month t')"
  by (rule ds3231_seconds_roundtrip [OF sim.ds3231_steady_axioms ds_sim0_ready]) (simp add: rtc_range_def RTC_EPOCH_def)

end
