(* ===== verification/Mfrc522.thy ===== *)
theory Mfrc522
  imports At45d Esp8266_Text_Facts
begin

text \<open>
  The RFID reader driver of \<^verbatim>\<open>src/Elegoo/MFRC522.c\<close>. The chip with the cards in its field and the SPI peripheral are the
  parameter \<open>dev\<close>, as for the flash driver: exchange a byte, select, deselect. The state is the chip, the static
  variable \<^verbatim>\<open>uid\<close> and the text sent to the debug UART.

  A pointer to a buffer is the list of the bytes from it on; the functions return the changed list. A null pointer is
  \<open>None\<close>. Local arrays are not initialised: where their first contents can matter they are an argument (\<open>buf0\<close>,
  \<open>received0\<close>). An access outside an array, a write past the end of \<^verbatim>\<open>prtbuff\<close> and a loop that never ends are \<open>None\<close>.
\<close>

section \<open>Data\<close>

datatype StatusCode = STATUS_OK | STATUS_ERROR | STATUS_COLLISION | STATUS_TIMEOUT | STATUS_NO_ROOM | STATUS_INTERNAL_ERROR
  | STATUS_INVALID | STATUS_CRC_WRONG | STATUS_MIFARE_NACK

datatype PICC_Type = PICC_TYPE_UNKNOWN | PICC_TYPE_ISO_14443_4 | PICC_TYPE_ISO_18092 | PICC_TYPE_MIFARE_MINI | PICC_TYPE_MIFARE_1K
  | PICC_TYPE_MIFARE_4K | PICC_TYPE_MIFARE_UL | PICC_TYPE_MIFARE_PLUS | PICC_TYPE_TNP3XXX | PICC_TYPE_NOT_COMPLETE

record Uid =
  uid_size :: u8
  uid_bytes :: "u8 list"
  uid_sak :: u8

record 'c mfrc522 =
  mf_chip :: 'c
  mf_uid :: Uid
  mf_out :: ctext

definition CommandReg :: u8 where "CommandReg = 0x01 * 2"
definition ComIrqReg :: u8 where "ComIrqReg = 0x04 * 2"
definition DivIrqReg :: u8 where "DivIrqReg = 0x05 * 2"
definition ErrorReg :: u8 where "ErrorReg = 0x06 * 2"
definition Status2Reg :: u8 where "Status2Reg = 0x08 * 2"
definition FIFODataReg :: u8 where "FIFODataReg = 0x09 * 2"
definition FIFOLevelReg :: u8 where "FIFOLevelReg = 0x0A * 2"
definition ControlReg :: u8 where "ControlReg = 0x0C * 2"
definition BitFramingReg :: u8 where "BitFramingReg = 0x0D * 2"
definition CollReg :: u8 where "CollReg = 0x0E * 2"
definition ModeReg :: u8 where "ModeReg = 0x11 * 2"
definition TxControlReg :: u8 where "TxControlReg = 0x14 * 2"
definition TxASKReg :: u8 where "TxASKReg = 0x15 * 2"
definition CRCResultRegH :: u8 where "CRCResultRegH = 0x21 * 2"
definition CRCResultRegL :: u8 where "CRCResultRegL = 0x22 * 2"
definition RFCfgReg :: u8 where "RFCfgReg = 0x26 * 2"
definition TModeReg :: u8 where "TModeReg = 0x2A * 2"
definition TPrescalerReg :: u8 where "TPrescalerReg = 0x2B * 2"
definition TReloadRegH :: u8 where "TReloadRegH = 0x2C * 2"
definition TReloadRegL :: u8 where "TReloadRegL = 0x2D * 2"
definition AutoTestReg :: u8 where "AutoTestReg = 0x36 * 2"
definition VersionReg :: u8 where "VersionReg = 0x37 * 2"

definition PCD_Idle :: u8 where "PCD_Idle = 0x00"
definition PCD_Mem :: u8 where "PCD_Mem = 0x01"
definition PCD_CalcCRC :: u8 where "PCD_CalcCRC = 0x03"
definition PCD_Transceive :: u8 where "PCD_Transceive = 0x0C"
definition PCD_MFAuthent :: u8 where "PCD_MFAuthent = 0x0E"
definition PCD_SoftReset :: u8 where "PCD_SoftReset = 0x0F"

definition PICC_CMD_REQA :: u8 where "PICC_CMD_REQA = 0x26"
definition PICC_CMD_WUPA :: u8 where "PICC_CMD_WUPA = 0x52"
definition PICC_CMD_CT :: u8 where "PICC_CMD_CT = 0x88"
definition PICC_CMD_SEL_CL1 :: u8 where "PICC_CMD_SEL_CL1 = 0x93"
definition PICC_CMD_SEL_CL2 :: u8 where "PICC_CMD_SEL_CL2 = 0x95"
definition PICC_CMD_SEL_CL3 :: u8 where "PICC_CMD_SEL_CL3 = 0x97"
definition PICC_CMD_HLTA :: u8 where "PICC_CMD_HLTA = 0x50"
definition PICC_CMD_MF_AUTH_KEY_A :: u8 where "PICC_CMD_MF_AUTH_KEY_A = 0x60"
definition PICC_CMD_MF_READ :: u8 where "PICC_CMD_MF_READ = 0x30"
definition PICC_CMD_MF_WRITE :: u8 where "PICC_CMD_MF_WRITE = 0xA0"
definition PICC_CMD_MF_DECREMENT :: u8 where "PICC_CMD_MF_DECREMENT = 0xC0"
definition PICC_CMD_MF_INCREMENT :: u8 where "PICC_CMD_MF_INCREMENT = 0xC1"
definition PICC_CMD_MF_RESTORE :: u8 where "PICC_CMD_MF_RESTORE = 0xC2"
definition PICC_CMD_MF_TRANSFER :: u8 where "PICC_CMD_MF_TRANSFER = 0xB0"
definition PICC_CMD_UL_WRITE :: u8 where "PICC_CMD_UL_WRITE = 0xA2"
definition MF_ACK :: u8 where "MF_ACK = 0xA"

lemmas mf_regs_def = CommandReg_def ComIrqReg_def DivIrqReg_def ErrorReg_def Status2Reg_def FIFODataReg_def FIFOLevelReg_def
  ControlReg_def BitFramingReg_def CollReg_def ModeReg_def TxControlReg_def TxASKReg_def CRCResultRegH_def CRCResultRegL_def
  RFCfgReg_def TModeReg_def TPrescalerReg_def TReloadRegH_def TReloadRegL_def AutoTestReg_def VersionReg_def

lemmas mf_cmds_def = PCD_Idle_def PCD_Mem_def PCD_CalcCRC_def PCD_Transceive_def PCD_MFAuthent_def PCD_SoftReset_def
  PICC_CMD_REQA_def PICC_CMD_WUPA_def PICC_CMD_CT_def PICC_CMD_SEL_CL1_def PICC_CMD_SEL_CL2_def PICC_CMD_SEL_CL3_def
  PICC_CMD_HLTA_def PICC_CMD_MF_AUTH_KEY_A_def PICC_CMD_MF_READ_def PICC_CMD_MF_WRITE_def PICC_CMD_MF_DECREMENT_def
  PICC_CMD_MF_INCREMENT_def PICC_CMD_MF_RESTORE_def PICC_CMD_MF_TRANSFER_def PICC_CMD_UL_WRITE_def MF_ACK_def

section \<open>Registers\<close>

definition MFRC522_CS_SELECTED :: "'c spi_bus \<Rightarrow> 'c mfrc522 \<Rightarrow> 'c mfrc522" where
  "MFRC522_CS_SELECTED dev s = s\<lparr>mf_chip := spi_cs_lo dev (mf_chip s)\<rparr>"

definition MFRC522_CS_DESELECTED :: "'c spi_bus \<Rightarrow> 'c mfrc522 \<Rightarrow> 'c mfrc522" where
  "MFRC522_CS_DESELECTED dev s = s\<lparr>mf_chip := spi_cs_hi dev (mf_chip s)\<rparr>"

definition MFRC522_SPIrw :: "'c spi_bus \<Rightarrow> u8 \<Rightarrow> 'c mfrc522 \<Rightarrow> u8 \<times> 'c mfrc522" where
  "MFRC522_SPIrw dev data s = (let (r, c) = spi_xfer dev (mf_chip s) data in (r, s\<lparr>mf_chip := c\<rparr>))"

definition PCD_WriteRegister :: "'c spi_bus \<Rightarrow> u8 \<Rightarrow> u8 \<Rightarrow> 'c mfrc522 \<Rightarrow> 'c mfrc522" where
  "PCD_WriteRegister dev reg value s =
     (let s = MFRC522_CS_SELECTED dev s;
          (_, s) = MFRC522_SPIrw dev (reg AND 0x7E) s;
          (_, s) = MFRC522_SPIrw dev value s
      in MFRC522_CS_DESELECTED dev s)"

fun write_loop :: "'c spi_bus \<Rightarrow> u8 list \<Rightarrow> 'c mfrc522 \<Rightarrow> 'c mfrc522" where
  "write_loop dev [] s = s"
| "write_loop dev (v # values) s = (let (_, s) = MFRC522_SPIrw dev v s in write_loop dev values s)"

definition PCD_WriteRegister_Buffer :: "'c spi_bus \<Rightarrow> u8 \<Rightarrow> u8 \<Rightarrow> u8 list \<Rightarrow> 'c mfrc522 \<Rightarrow> 'c mfrc522 option" where
  "PCD_WriteRegister_Buffer dev reg count values s =
     do {
       c_assert (unat count \<le> length values);
       let s = MFRC522_CS_SELECTED dev s;
       let (_, s) = MFRC522_SPIrw dev (reg AND 0x7E) s;
       let s = write_loop dev (take (unat count) values) s;
       Some (MFRC522_CS_DESELECTED dev s)
     }"

definition PCD_ReadRegister :: "'c spi_bus \<Rightarrow> u8 \<Rightarrow> 'c mfrc522 \<Rightarrow> u8 \<times> 'c mfrc522" where
  "PCD_ReadRegister dev reg s =
     (let s = MFRC522_CS_SELECTED dev s;
          (_, s) = MFRC522_SPIrw dev (0x80 OR (reg AND 0x7E)) s;
          (value, s) = MFRC522_SPIrw dev 0 s
      in (value, MFRC522_CS_DESELECTED dev s))"

definition rx_mask :: "u8 \<Rightarrow> u8" where
  "rx_mask rxAlign = foldl (\<lambda>msk i. msk OR push_bit i 1) 0 [unat rxAlign ..< 8]"

fun read_loop :: "'c spi_bus \<Rightarrow> u8 \<Rightarrow> u8 \<Rightarrow> nat \<Rightarrow> nat \<Rightarrow> u8 list \<Rightarrow> 'c mfrc522 \<Rightarrow> (u8 list \<times> 'c mfrc522) option" where
  "read_loop dev address rxAlign index 0 values s = Some (values, s)"
| "read_loop dev address rxAlign index (Suc n) values s =
     do {
       let (value, s) = MFRC522_SPIrw dev address s;
       old \<leftarrow> c_nth values index;
       values \<leftarrow> c_upd values index (if index = 0 \<and> rxAlign \<noteq> 0
         then (old AND NOT (rx_mask rxAlign)) OR (value AND rx_mask rxAlign) else value);
       read_loop dev address rxAlign (Suc index) n values s
     }"

definition PCD_ReadRegister_Buffer ::
  "'c spi_bus \<Rightarrow> u8 \<Rightarrow> u8 \<Rightarrow> u8 list \<Rightarrow> u8 \<Rightarrow> 'c mfrc522 \<Rightarrow> (u8 list \<times> 'c mfrc522) option" where
  "PCD_ReadRegister_Buffer dev reg count values rxAlign s =
     (if count = 0 then Some (values, s)
      else do {
        let address = 0x80 OR (reg AND 0x7E);
        let s = MFRC522_CS_SELECTED dev s;
        let count = unat count - 1;
        let (_, s) = MFRC522_SPIrw dev address s;
        (values, s) \<leftarrow> read_loop dev address rxAlign 0 count values s;
        let (value, s) = MFRC522_SPIrw dev 0 s;
        values \<leftarrow> c_upd values count value;
        Some (values, MFRC522_CS_DESELECTED dev s)
      })"

definition PCD_SetRegisterBitMask :: "'c spi_bus \<Rightarrow> u8 \<Rightarrow> u8 \<Rightarrow> 'c mfrc522 \<Rightarrow> 'c mfrc522" where
  "PCD_SetRegisterBitMask dev reg msk s =
     (let (tmp, s) = PCD_ReadRegister dev reg s in PCD_WriteRegister dev reg (tmp OR msk) s)"

definition PCD_ClearRegisterBitMask :: "'c spi_bus \<Rightarrow> u8 \<Rightarrow> u8 \<Rightarrow> 'c mfrc522 \<Rightarrow> 'c mfrc522" where
  "PCD_ClearRegisterBitMask dev reg msk s =
     (let (tmp, s) = PCD_ReadRegister dev reg s in PCD_WriteRegister dev reg (tmp AND NOT msk) s)"

text \<open>The waiting loop of \<^verbatim>\<open>PCD_CalculateCRC\<close>: whether the result is there. It is entered with a positive counter.\<close>

fun crc_wait :: "'c spi_bus \<Rightarrow> nat \<Rightarrow> 'c mfrc522 \<Rightarrow> bool \<times> 'c mfrc522" where
  "crc_wait dev 0 s = (False, s)"
| "crc_wait dev (Suc i) s =
     (let (n, s) = PCD_ReadRegister dev DivIrqReg s in
      if n AND 0x04 \<noteq> 0 then (True, s) else if i = 0 then (False, s) else crc_wait dev i s)"

text \<open>With the status the bytes that are stored in \<^verbatim>\<open>result\<close>.\<close>

definition PCD_CalculateCRC ::
  "'c spi_bus \<Rightarrow> u8 list \<Rightarrow> u8 \<Rightarrow> 'c mfrc522 \<Rightarrow> (StatusCode \<times> u8 list \<times> 'c mfrc522) option" where
  "PCD_CalculateCRC dev data len s =
     do {
       let s = PCD_WriteRegister dev CommandReg PCD_Idle s;
       let s = PCD_WriteRegister dev DivIrqReg 0x04 s;
       let s = PCD_SetRegisterBitMask dev FIFOLevelReg 0x80 s;
       s \<leftarrow> PCD_WriteRegister_Buffer dev FIFODataReg len data s;
       let s = PCD_WriteRegister dev CommandReg PCD_CalcCRC s;
       let (finished, s) = crc_wait dev 5000 s;
       if \<not> finished then Some (STATUS_TIMEOUT, [], s)
       else do {
         let s = PCD_WriteRegister dev CommandReg PCD_Idle s;
         let (lo, s) = PCD_ReadRegister dev CRCResultRegL s;
         let (hi, s) = PCD_ReadRegister dev CRCResultRegH s;
         Some (STATUS_OK, [lo, hi], s)
       }
     }"

section \<open>The reader\<close>

partial_function (option) reset_wait :: "'c spi_bus \<Rightarrow> 'c mfrc522 \<Rightarrow> 'c mfrc522 option" where
  "reset_wait dev s =
     (let (v, s) = PCD_ReadRegister dev CommandReg s in if v AND push_bit 4 1 \<noteq> 0 then reset_wait dev s else Some s)"

declare reset_wait.simps [code]

definition PCD_Reset :: "'c spi_bus \<Rightarrow> 'c mfrc522 \<Rightarrow> 'c mfrc522 option" where
  "PCD_Reset dev s = (let s = PCD_WriteRegister dev CommandReg PCD_SoftReset s in reset_wait dev s)"

definition PCD_AntennaOn :: "'c spi_bus \<Rightarrow> 'c mfrc522 \<Rightarrow> 'c mfrc522" where
  "PCD_AntennaOn dev s =
     (let (value, s) = PCD_ReadRegister dev TxControlReg s in
      if value AND 0x03 \<noteq> 0x03 then PCD_WriteRegister dev TxControlReg (value OR 0x03) s else s)"

definition PCD_AntennaOff :: "'c spi_bus \<Rightarrow> 'c mfrc522 \<Rightarrow> 'c mfrc522" where
  "PCD_AntennaOff dev s = PCD_ClearRegisterBitMask dev TxControlReg 0x03 s"

text \<open>\<open>rst\<close> is the level that the reset pin reads after it was driven high.\<close>

definition PCD_Init :: "'c spi_bus \<Rightarrow> bool \<Rightarrow> 'c mfrc522 \<Rightarrow> 'c mfrc522 option" where
  "PCD_Init dev rst s =
     do {
       let s = MFRC522_CS_DESELECTED dev s;
       s \<leftarrow> (if \<not> rst then Some s else PCD_Reset dev s);
       let s = PCD_WriteRegister dev TModeReg 0x80 s;
       let s = PCD_WriteRegister dev TPrescalerReg 0xA9 s;
       let s = PCD_WriteRegister dev TReloadRegH 0x03 s;
       let s = PCD_WriteRegister dev TReloadRegL 0xE8 s;
       let s = PCD_WriteRegister dev TxASKReg 0x40 s;
       let s = PCD_WriteRegister dev ModeReg 0x3D s;
       Some (PCD_AntennaOn dev s)
     }"

definition PCD_GetAntennaGain :: "'c spi_bus \<Rightarrow> 'c mfrc522 \<Rightarrow> u8 \<times> 'c mfrc522" where
  "PCD_GetAntennaGain dev s = (let (v, s) = PCD_ReadRegister dev RFCfgReg s in (v AND push_bit 4 0x07, s))"

definition PCD_SetAntennaGain :: "'c spi_bus \<Rightarrow> u8 \<Rightarrow> 'c mfrc522 \<Rightarrow> 'c mfrc522" where
  "PCD_SetAntennaGain dev msk s =
     (let (g, s) = PCD_GetAntennaGain dev s in
      if g \<noteq> msk then
        let s = PCD_ClearRegisterBitMask dev RFCfgReg (push_bit 4 0x07) s
        in PCD_SetRegisterBitMask dev RFCfgReg (msk AND push_bit 4 0x07) s
      else s)"

definition MFRC522_firmware_referenceV0_0 :: "u8 list" where
  "MFRC522_firmware_referenceV0_0 =
    [0x00, 0x87, 0x98, 0x0f, 0x49, 0xFF, 0x07, 0x19,
     0xBF, 0x22, 0x30, 0x49, 0x59, 0x63, 0xAD, 0xCA,
     0x7F, 0xE3, 0x4E, 0x03, 0x5C, 0x4E, 0x49, 0x50,
     0x47, 0x9A, 0x37, 0x61, 0xE7, 0xE2, 0xC6, 0x2E,
     0x75, 0x5A, 0xED, 0x04, 0x3D, 0x02, 0x4B, 0x78,
     0x32, 0xFF, 0x58, 0x3B, 0x7C, 0xE9, 0x00, 0x94,
     0xB4, 0x4A, 0x59, 0x5B, 0xFD, 0xC9, 0x29, 0xDF,
     0x35, 0x96, 0x98, 0x9E, 0x4F, 0x30, 0x32, 0x8D]"

definition MFRC522_firmware_referenceV1_0 :: "u8 list" where
  "MFRC522_firmware_referenceV1_0 =
    [0x00, 0xC6, 0x37, 0xD5, 0x32, 0xB7, 0x57, 0x5C,
     0xC2, 0xD8, 0x7C, 0x4D, 0xD9, 0x70, 0xC7, 0x73,
     0x10, 0xE6, 0xD2, 0xAA, 0x5E, 0xA1, 0x3E, 0x5A,
     0x14, 0xAF, 0x30, 0x61, 0xC9, 0x70, 0xDB, 0x2E,
     0x64, 0x22, 0x72, 0xB5, 0xBD, 0x65, 0xF4, 0xEC,
     0x22, 0xBC, 0xD3, 0x72, 0x35, 0xCD, 0xAA, 0x41,
     0x1F, 0xA7, 0xF3, 0x53, 0x14, 0xDE, 0x7E, 0x02,
     0xD9, 0x0F, 0xB5, 0x5E, 0x25, 0x1D, 0x29, 0x79]"

definition MFRC522_firmware_referenceV2_0 :: "u8 list" where
  "MFRC522_firmware_referenceV2_0 =
    [0x00, 0xEB, 0x66, 0xBA, 0x57, 0xBF, 0x23, 0x95,
     0xD0, 0xE3, 0x0D, 0x3D, 0x27, 0x89, 0x5C, 0xDE,
     0x9D, 0x3B, 0xA7, 0x00, 0x21, 0x5B, 0x89, 0x82,
     0x51, 0x3A, 0xEB, 0x02, 0x0C, 0xA5, 0x00, 0x49,
     0x7C, 0x84, 0x4D, 0xB3, 0xCC, 0xD2, 0x1B, 0x81,
     0x5D, 0x48, 0x76, 0xD5, 0x71, 0x61, 0x21, 0xA9,
     0x86, 0x96, 0x83, 0x38, 0xCF, 0x9D, 0x5B, 0x6D,
     0xDC, 0x15, 0xBA, 0x3E, 0x7D, 0x95, 0x3B, 0x2F]"

definition FM17522_firmware_reference :: "u8 list" where
  "FM17522_firmware_reference =
    [0x00, 0xD6, 0x78, 0x8C, 0xE2, 0xAA, 0x0C, 0x18,
     0x2A, 0xB8, 0x7A, 0x7F, 0xD3, 0x6A, 0xCF, 0x0B,
     0xB1, 0x37, 0x63, 0x4B, 0x69, 0xAE, 0x91, 0xC7,
     0xC3, 0x97, 0xAE, 0x77, 0xF4, 0x37, 0xD7, 0x9B,
     0x7C, 0xF5, 0x3C, 0x11, 0x8F, 0x15, 0xC3, 0xD7,
     0xC1, 0x5B, 0x00, 0x2A, 0xD0, 0x75, 0xDE, 0x9E,
     0x51, 0x64, 0xAB, 0x3E, 0xE9, 0x15, 0xB5, 0xAB,
     0x56, 0x9A, 0x98, 0x82, 0x26, 0xEA, 0x2A, 0x62]"

fun selftest_wait :: "'c spi_bus \<Rightarrow> nat \<Rightarrow> 'c mfrc522 \<Rightarrow> 'c mfrc522" where
  "selftest_wait dev 0 s = s"
| "selftest_wait dev (Suc n) s =
     (let (v, s) = PCD_ReadRegister dev DivIrqReg s in if v AND 0x04 \<noteq> 0 then s else selftest_wait dev n s)"

text \<open>All 64 bytes of \<^verbatim>\<open>result\<close> are read from the chip, so its first contents do not matter.\<close>

definition PCD_PerformSelfTest :: "'c spi_bus \<Rightarrow> 'c mfrc522 \<Rightarrow> (bool \<times> 'c mfrc522) option" where
  "PCD_PerformSelfTest dev s =
     do {
       s \<leftarrow> PCD_Reset dev s;
       let s = PCD_SetRegisterBitMask dev FIFOLevelReg 0x80 s;
       s \<leftarrow> PCD_WriteRegister_Buffer dev FIFODataReg 25 (replicate 25 0) s;
       let s = PCD_WriteRegister dev CommandReg PCD_Mem s;
       let s = PCD_WriteRegister dev AutoTestReg 0x09 s;
       let s = PCD_WriteRegister dev FIFODataReg 0x00 s;
       let s = PCD_WriteRegister dev CommandReg PCD_CalcCRC s;
       let s = selftest_wait dev 0xFF s;
       let s = PCD_WriteRegister dev CommandReg PCD_Idle s;
       (result, s) \<leftarrow> PCD_ReadRegister_Buffer dev FIFODataReg 64 (replicate 64 0) 0 s;
       let s = PCD_WriteRegister dev AutoTestReg 0x00 s;
       let (version, s) = PCD_ReadRegister dev VersionReg s;
       let reference =
         (if version = 0x88 then Some FM17522_firmware_reference
          else if version = 0x90 then Some MFRC522_firmware_referenceV0_0
          else if version = 0x91 then Some MFRC522_firmware_referenceV1_0
          else if version = 0x92 then Some MFRC522_firmware_referenceV2_0
          else None);
       Some (reference = Some result, s)
     }"

section \<open>Communication with cards\<close>

text \<open>The pointer arguments of an exchange: \<^verbatim>\<open>backData\<close>, \<^verbatim>\<open>*backLen\<close>, \<^verbatim>\<open>*validBits\<close>.\<close>

record picc_io =
  backData :: "u8 list option"
  backLen :: "u8 option"
  validBits :: "u8 option"

text \<open>The waiting loop: whether one of the expected interrupts came.\<close>

fun com_wait :: "'c spi_bus \<Rightarrow> u8 \<Rightarrow> nat \<Rightarrow> 'c mfrc522 \<Rightarrow> bool \<times> 'c mfrc522" where
  "com_wait dev waitIRq 0 s = (False, s)"
| "com_wait dev waitIRq (Suc i) s =
     (let (n, s) = PCD_ReadRegister dev ComIrqReg s in
      if n AND waitIRq \<noteq> 0 then (True, s)
      else if n AND 0x01 \<noteq> 0 then (False, s)
      else if i = 0 then (False, s) else com_wait dev waitIRq i s)"

text \<open>Fetching the answer from the FIFO: \<open>None\<close> as first component when it is longer than \<^verbatim>\<open>*backLen\<close>, otherwise the
  number of valid bits of the last byte.\<close>

definition com_receive ::
  "'c spi_bus \<Rightarrow> u8 list \<Rightarrow> u8 \<Rightarrow> picc_io \<Rightarrow> u8 \<Rightarrow> 'c mfrc522 \<Rightarrow> (u8 option \<times> picc_io \<times> 'c mfrc522) option" where
  "com_receive dev data len io rxAlign s =
     do {
       let (n, s) = PCD_ReadRegister dev FIFOLevelReg s;
       if n > len then Some (None, io, s)
       else do {
         (data, s) \<leftarrow> PCD_ReadRegister_Buffer dev FIFODataReg n data rxAlign s;
         let (v, s) = PCD_ReadRegister dev ControlReg s;
         let bits = v AND 0x07;
         Some (Some bits, io\<lparr>backData := Some data, backLen := Some n,
                             validBits := (if validBits io \<noteq> None then Some bits else None)\<rparr>, s)
       }
     }"

text \<open>The check of the received CRC.\<close>

definition com_check ::
  "'c spi_bus \<Rightarrow> u8 list \<Rightarrow> u8 \<Rightarrow> u8 \<Rightarrow> 'c mfrc522 \<Rightarrow> (StatusCode \<times> 'c mfrc522) option" where
  "com_check dev data len bits s =
     (if len = 1 \<and> bits = 4 then Some (STATUS_MIFARE_NACK, s)
      else if len < 2 \<or> bits \<noteq> 0 then Some (STATUS_CRC_WRONG, s)
      else do {
        (status, control, s) \<leftarrow> PCD_CalculateCRC dev data (len - 2) s;
        if status \<noteq> STATUS_OK then Some (status, s)
        else do {
          c0 \<leftarrow> c_nth control 0;
          c1 \<leftarrow> c_nth control 1;
          d0 \<leftarrow> c_nth data (unat len - 2);
          d1 \<leftarrow> c_nth data (unat len - 1);
          Some (if d0 \<noteq> c0 \<or> d1 \<noteq> c1 then STATUS_CRC_WRONG else STATUS_OK, s)
        }
      })"

text \<open>Sending: whether the command finished in time.\<close>

definition com_start ::
  "'c spi_bus \<Rightarrow> u8 \<Rightarrow> u8 \<Rightarrow> u8 list \<Rightarrow> u8 \<Rightarrow> u8 \<Rightarrow> 'c mfrc522 \<Rightarrow> (bool \<times> 'c mfrc522) option" where
  "com_start dev command waitIRq sendData sendLen bitFraming s =
     do {
       let s = PCD_WriteRegister dev CommandReg PCD_Idle s;
       let s = PCD_WriteRegister dev ComIrqReg 0x7F s;
       let s = PCD_SetRegisterBitMask dev FIFOLevelReg 0x80 s;
       s \<leftarrow> PCD_WriteRegister_Buffer dev FIFODataReg sendLen sendData s;
       let s = PCD_WriteRegister dev BitFramingReg bitFraming s;
       let s = PCD_WriteRegister dev CommandReg command s;
       let s = (if command = PCD_Transceive then PCD_SetRegisterBitMask dev BitFramingReg 0x80 s else s);
       Some (com_wait dev waitIRq 2000 s)
     }"

text \<open>The result, when data is wanted back.\<close>

definition com_result ::
  "'c spi_bus \<Rightarrow> u8 \<Rightarrow> u8 list \<Rightarrow> u8 \<Rightarrow> picc_io \<Rightarrow> u8 \<Rightarrow> bool \<Rightarrow> 'c mfrc522 \<Rightarrow> (StatusCode \<times> picc_io \<times> 'c mfrc522) option" where
  "com_result dev errorRegValue data len io rxAlign checkCRC s =
     do {
       (received, io, s) \<leftarrow> com_receive dev data len io rxAlign s;
       (case received of
          None \<Rightarrow> Some (STATUS_NO_ROOM, io, s)
        | Some bits \<Rightarrow>
            if errorRegValue AND 0x08 \<noteq> 0 then Some (STATUS_COLLISION, io, s)
            else if checkCRC then
              do {
                data \<leftarrow> backData io;
                len \<leftarrow> backLen io;
                (status, s) \<leftarrow> com_check dev data len bits s;
                Some (status, io, s)
              }
            else Some (STATUS_OK, io, s))
     }"

definition PCD_CommunicateWithPICC ::
  "'c spi_bus \<Rightarrow> u8 \<Rightarrow> u8 \<Rightarrow> u8 list \<Rightarrow> u8 \<Rightarrow> picc_io \<Rightarrow> u8 \<Rightarrow> bool \<Rightarrow> 'c mfrc522 \<Rightarrow>
   (StatusCode \<times> picc_io \<times> 'c mfrc522) option" where
  "PCD_CommunicateWithPICC dev command waitIRq sendData sendLen io rxAlign checkCRC s =
     do {
       let txLastBits = (case validBits io of Some b \<Rightarrow> b | None \<Rightarrow> 0);
       let bitFraming = push_bit 4 rxAlign + txLastBits;
       (finished, s) \<leftarrow> com_start dev command waitIRq sendData sendLen bitFraming s;
       if \<not> finished then Some (STATUS_TIMEOUT, io, s)
       else do {
         let (errorRegValue, s) = PCD_ReadRegister dev ErrorReg s;
         if errorRegValue AND 0x13 \<noteq> 0 then Some (STATUS_ERROR, io, s)
         else (case (backData io, backLen io) of
             (Some data, Some len) \<Rightarrow> com_result dev errorRegValue data len io rxAlign checkCRC s
           | _ \<Rightarrow> if errorRegValue AND 0x08 \<noteq> 0 then Some (STATUS_COLLISION, io, s) else Some (STATUS_OK, io, s))
       }
     }"

definition PCD_TransceiveData ::
  "'c spi_bus \<Rightarrow> u8 list \<Rightarrow> u8 \<Rightarrow> picc_io \<Rightarrow> u8 \<Rightarrow> bool \<Rightarrow> 'c mfrc522 \<Rightarrow> (StatusCode \<times> picc_io \<times> 'c mfrc522) option" where
  "PCD_TransceiveData dev sendData sendLen io rxAlign checkCRC s =
     (let waitIRq = 0x30 in PCD_CommunicateWithPICC dev PCD_Transceive waitIRq sendData sendLen io rxAlign checkCRC s)"

text \<open>With the status the contents and the size of the answer buffer.\<close>

definition PICC_REQA_or_WUPA ::
  "'c spi_bus \<Rightarrow> u8 \<Rightarrow> u8 list option \<Rightarrow> u8 \<Rightarrow> 'c mfrc522 \<Rightarrow> (StatusCode \<times> u8 list option \<times> u8 \<times> 'c mfrc522) option" where
  "PICC_REQA_or_WUPA dev command bufferATQA bufferSize s =
     (if bufferATQA = None \<or> bufferSize < 2 then Some (STATUS_NO_ROOM, bufferATQA, bufferSize, s)
      else do {
        let s = PCD_ClearRegisterBitMask dev CollReg 0x80 s;
        (status, io, s) \<leftarrow> PCD_TransceiveData dev [command] 1
           \<lparr>backData = bufferATQA, backLen = Some bufferSize, validBits = Some 7\<rparr> 0 False s;
        bufferSize \<leftarrow> backLen io;
        bits \<leftarrow> validBits io;
        if status \<noteq> STATUS_OK then Some (status, backData io, bufferSize, s)
        else if bufferSize \<noteq> 2 \<or> bits \<noteq> 0 then Some (STATUS_ERROR, backData io, bufferSize, s)
        else Some (STATUS_OK, backData io, bufferSize, s)
      })"

definition PICC_RequestA ::
  "'c spi_bus \<Rightarrow> u8 list option \<Rightarrow> u8 \<Rightarrow> 'c mfrc522 \<Rightarrow> (StatusCode \<times> u8 list option \<times> u8 \<times> 'c mfrc522) option" where
  "PICC_RequestA dev bufferATQA bufferSize s = PICC_REQA_or_WUPA dev PICC_CMD_REQA bufferATQA bufferSize s"

definition PICC_WakeupA ::
  "'c spi_bus \<Rightarrow> u8 list option \<Rightarrow> u8 \<Rightarrow> 'c mfrc522 \<Rightarrow> (StatusCode \<times> u8 list option \<times> u8 \<times> 'c mfrc522) option" where
  "PICC_WakeupA dev bufferATQA bufferSize s = PICC_REQA_or_WUPA dev PICC_CMD_WUPA bufferATQA bufferSize s"

end
