(* ===== verification/Mfrc522_Cards.thy ===== *)
theory Mfrc522_Cards
  imports Mfrc522
begin

text \<open>
  Selecting a card (\<^verbatim>\<open>PICC_Select\<close> with its two loops) and the operations on MIFARE cards of
  \<^verbatim>\<open>src/Elegoo/MFRC522.c\<close>, with the text output for debugging.
\<close>

section \<open>Selecting a card\<close>

text \<open>How a round of the anticollision loop ends: the function returns, the card is selected (with the buffer, the index and
  the length of the response and the valid bits of its last byte), or another round with more known bits.\<close>

datatype sel_exit = Sel_Return StatusCode | Sel_Done "u8 list" nat u8 u8 | Sel_Again nat "u8 list"

text \<open>The frame to send: buffer, bytes used, index and length of the response, bits of the last byte. The number of known
  bits is never negative.\<close>

definition sel_prepare ::
  "'c spi_bus \<Rightarrow> nat \<Rightarrow> u8 list \<Rightarrow> 'c mfrc522 \<Rightarrow> ((StatusCode + u8 list \<times> nat \<times> nat \<times> nat \<times> nat) \<times> 'c mfrc522) option" where
  "sel_prepare dev known buffer s =
     (if 32 \<le> known then
        do {
          buffer \<leftarrow> c_upd buffer 1 0x70;
          b2 \<leftarrow> c_nth buffer 2; b3 \<leftarrow> c_nth buffer 3; b4 \<leftarrow> c_nth buffer 4; b5 \<leftarrow> c_nth buffer 5;
          buffer \<leftarrow> c_upd buffer 6 (b2 XOR b3 XOR b4 XOR b5);
          (result, crc, s) \<leftarrow> PCD_CalculateCRC dev buffer 7 s;
          buffer \<leftarrow> c_memcpy buffer 7 crc 0 (length crc);
          if result \<noteq> STATUS_OK then Some (Inl result, s) else Some (Inr (buffer, 9, 6, 3, 0), s)
        }
      else
        do {
          let txLastBits = known mod 8;
          let count = known div 8;
          let index = 2 + count;
          buffer \<leftarrow> c_upd buffer 1 (of_nat (push_bit 4 index + txLastBits));
          Some (Inr (buffer, index + (if txLastBits \<noteq> 0 then 1 else 0), index, 9 - index, txLastBits), s)
        })"

text \<open>After a collision: continue with the cards that have the bit set.\<close>

definition sel_collision :: "nat \<Rightarrow> u8 list \<Rightarrow> u8 \<Rightarrow> sel_exit option" where
  "sel_collision known buffer valueOfCollReg =
     (if valueOfCollReg AND 0x20 \<noteq> 0 then Some (Sel_Return STATUS_COLLISION)
      else
        let pos = unat (valueOfCollReg AND 0x1F);
            collisionPos = (if pos = 0 then 32 else pos)
        in if collisionPos \<le> known then Some (Sel_Return STATUS_INTERNAL_ERROR)
           else do {
             let known = collisionPos;
             let count = (known - 1) mod 8;
             let index = 1 + known div 8 + (if count \<noteq> 0 then 1 else 0);
             b \<leftarrow> c_nth buffer index;
             buffer \<leftarrow> c_upd buffer index (b OR push_bit count 1);
             Some (Sel_Again known buffer)
           })"

definition sel_step :: "'c spi_bus \<Rightarrow> nat \<Rightarrow> u8 list \<Rightarrow> 'c mfrc522 \<Rightarrow> (sel_exit \<times> 'c mfrc522) option" where
  "sel_step dev known buffer s =
     do {
       (frame, s) \<leftarrow> sel_prepare dev known buffer s;
       (case frame of
          Inl result \<Rightarrow> Some (Sel_Return result, s)
        | Inr (buffer, bufferUsed, index, responseLength, txLastBits) \<Rightarrow>
            do {
              let rxAlign = of_nat txLastBits;
              let s = PCD_WriteRegister dev BitFramingReg (push_bit 4 rxAlign + of_nat txLastBits) s;
              (result, io, s) \<leftarrow> PCD_TransceiveData dev buffer (of_nat bufferUsed)
                \<lparr>backData = Some (drop index buffer), backLen = Some (of_nat responseLength), validBits = Some (of_nat txLastBits)\<rparr>
                rxAlign False s;
              response \<leftarrow> backData io;
              len \<leftarrow> backLen io;
              bits \<leftarrow> validBits io;
              let buffer = take index buffer @ response;
              if result = STATUS_COLLISION then
                do {
                  let (valueOfCollReg, s) = PCD_ReadRegister dev CollReg s;
                  e \<leftarrow> sel_collision known buffer valueOfCollReg;
                  Some (e, s)
                }
              else if result \<noteq> STATUS_OK then Some (Sel_Return result, s)
              else if 32 \<le> known then Some (Sel_Done buffer index len bits, s)
              else Some (Sel_Again 32 buffer, s)
            })
     }"

lemma sel_collision_progress: "sel_collision known buffer v = Some (Sel_Again k b) \<Longrightarrow> known < k \<and> k \<le> 32"
proof -
  assume a: "sel_collision known buffer v = Some (Sel_Again k b)"
  have "unat (v AND 0x1F) \<le> 31" using word_and_le1 [of v "0x1F"] by (simp add: word_le_nat_alt)
  then show ?thesis using a by (auto simp: sel_collision_def Let_def split: if_splits Option.bind_splits)
qed

lemma sel_step_progress: "sel_step dev known buffer s = Some (Sel_Again k b, s') \<Longrightarrow> known < k \<and> k \<le> 32"
  by (auto simp: sel_step_def Let_def dest: sel_collision_progress split: if_splits Option.bind_splits sum.splits prod.splits)

text \<open>The anticollision loop: in every further round more bits are known, at most 32.\<close>

function sel_loop :: "'c spi_bus \<Rightarrow> nat \<Rightarrow> u8 list \<Rightarrow> 'c mfrc522 \<Rightarrow> (sel_exit \<times> 'c mfrc522) option" where
  "sel_loop dev known buffer s =
     (case sel_step dev known buffer s of
        None \<Rightarrow> None
      | Some r \<Rightarrow> (case fst r of Sel_Again k b \<Rightarrow> sel_loop dev k b (snd r) | e \<Rightarrow> Some (e, snd r)))"
  by auto
termination
proof (relation "measure (\<lambda>(dev, known, buffer, s). 32 - known)")
  fix dev :: "'c spi_bus" and known buffer s r k b
  assume "sel_step dev known buffer s = Some r" "fst r = Sel_Again k b"
  then have "sel_step dev known buffer s = Some (Sel_Again k b, snd r)" by (cases r) simp
  then show "((dev, k, b, snd r), dev, known, buffer, s) \<in> measure (\<lambda>(dev, known, buffer, s). 32 - known)"
    using sel_step_progress by fastforce
qed simp

declare sel_loop.simps [simp del]

text \<open>The start of a cascade level: the buffer with the known bytes, the number of known bits, and the index of the first byte
  of the identification that belongs to this level.\<close>

definition sel_setup :: "nat \<Rightarrow> u8 \<Rightarrow> Uid \<Rightarrow> u8 list \<Rightarrow> (u8 list \<times> nat \<times> nat) option" where
  "sel_setup cascadeLevel vb uid buffer =
     do {
       let (sel, uidIndex, useCascadeTag) =
         (if cascadeLevel = 1 then (PICC_CMD_SEL_CL1, 0, vb \<noteq> 0 \<and> uid_size uid > 4)
          else if cascadeLevel = 2 then (PICC_CMD_SEL_CL2, 3, vb \<noteq> 0 \<and> uid_size uid > 7)
          else (PICC_CMD_SEL_CL3, 6, False));
       buffer \<leftarrow> c_upd buffer 0 sel;
       let known = unat vb - 8 * uidIndex;
       buffer \<leftarrow> (if useCascadeTag then c_upd buffer 2 PICC_CMD_CT else Some buffer);
       let index = (if useCascadeTag then 3 else 2);
       let bytesToCopy = known div 8 + (if known mod 8 \<noteq> 0 then 1 else 0);
       let maxBytes = (if useCascadeTag then 3 else 4);
       let bytesToCopy = (if bytesToCopy > maxBytes then maxBytes else bytesToCopy);
       buffer \<leftarrow> c_memcpy buffer index (uid_bytes uid) uidIndex bytesToCopy;
       Some (buffer, if useCascadeTag then known + 8 else known, uidIndex)
     }"

text \<open>The end of a cascade level: the found bytes are stored and the answer of the card is checked. The result is the status
  with which the function returns, or whether another level follows.\<close>

definition sel_accept ::
  "'c spi_bus \<Rightarrow> nat \<Rightarrow> Uid \<Rightarrow> u8 list \<Rightarrow> nat \<Rightarrow> u8 \<Rightarrow> u8 \<Rightarrow> 'c mfrc522 \<Rightarrow> ((StatusCode + bool) \<times> Uid \<times> u8 list \<times> 'c mfrc522) option" where
  "sel_accept dev uidIndex uid buffer response responseLength txLastBits s =
     do {
       b2 \<leftarrow> c_nth buffer 2;
       let index = (if b2 = PICC_CMD_CT then 3 else 2);
       let bytesToCopy = (if b2 = PICC_CMD_CT then 3 else 4);
       bytes \<leftarrow> c_memcpy (uid_bytes uid) uidIndex buffer index bytesToCopy;
       let uid = uid\<lparr>uid_bytes := bytes\<rparr>;
       if responseLength \<noteq> 3 \<or> txLastBits \<noteq> 0 then Some (Inl STATUS_ERROR, uid, buffer, s)
       else do {
         (result, crc, s) \<leftarrow> PCD_CalculateCRC dev (drop response buffer) 1 s;
         buffer \<leftarrow> c_memcpy buffer 2 crc 0 (length crc);
         if result \<noteq> STATUS_OK then Some (Inl result, uid, buffer, s)
         else do {
           b2 \<leftarrow> c_nth buffer 2; b3 \<leftarrow> c_nth buffer 3;
           r0 \<leftarrow> c_nth buffer response; r1 \<leftarrow> c_nth buffer (response + 1); r2 \<leftarrow> c_nth buffer (response + 2);
           if b2 \<noteq> r1 \<or> b3 \<noteq> r2 then Some (Inl STATUS_CRC_WRONG, uid, buffer, s)
           else if r0 AND 0x04 \<noteq> 0 then Some (Inr True, uid, buffer, s)
           else Some (Inr False, uid\<lparr>uid_sak := r0\<rparr>, buffer, s)
         }
       }
     }"

definition sel_level ::
  "'c spi_bus \<Rightarrow> nat \<Rightarrow> u8 \<Rightarrow> Uid \<Rightarrow> u8 list \<Rightarrow> 'c mfrc522 \<Rightarrow> ((StatusCode + bool) \<times> Uid \<times> u8 list \<times> 'c mfrc522) option" where
  "sel_level dev cascadeLevel vb uid buffer s =
     do {
       (buffer, known, uidIndex) \<leftarrow> sel_setup cascadeLevel vb uid buffer;
       (e, s) \<leftarrow> sel_loop dev known buffer s;
       (case e of
          Sel_Return result \<Rightarrow> Some (Inl result, uid, buffer, s)
        | Sel_Again k b \<Rightarrow> None
        | Sel_Done buffer response responseLength txLastBits \<Rightarrow>
            sel_accept dev uidIndex uid buffer response responseLength txLastBits s)
     }"

text \<open>The cascade loop, which also returns the last level.\<close>

function sel_cascade ::
  "'c spi_bus \<Rightarrow> nat \<Rightarrow> u8 \<Rightarrow> Uid \<Rightarrow> u8 list \<Rightarrow> 'c mfrc522 \<Rightarrow> (StatusCode \<times> nat \<times> Uid \<times> 'c mfrc522) option" where
  "sel_cascade dev cascadeLevel vb uid buffer s =
     (if cascadeLevel > 3 then Some (STATUS_INTERNAL_ERROR, cascadeLevel, uid, s)
      else case sel_level dev cascadeLevel vb uid buffer s of
        None \<Rightarrow> None
      | Some (Inl result, uid, buffer, s) \<Rightarrow> Some (result, cascadeLevel, uid, s)
      | Some (Inr True, uid, buffer, s) \<Rightarrow> sel_cascade dev (cascadeLevel + 1) vb uid buffer s
      | Some (Inr False, uid, buffer, s) \<Rightarrow> Some (STATUS_OK, cascadeLevel, uid, s))"
  by auto
termination
  by (relation "measure (\<lambda>(dev, cascadeLevel, vb, uid, buffer, s). 4 - cascadeLevel)") auto

declare sel_cascade.simps [simp del]

text \<open>\<open>buf0\<close>: what the nine bytes of the buffer hold at first; \<open>vb\<close>: the number of known bits.\<close>

definition PICC_Select :: "'c spi_bus \<Rightarrow> u8 list \<Rightarrow> Uid \<Rightarrow> u8 \<Rightarrow> 'c mfrc522 \<Rightarrow> (StatusCode \<times> Uid \<times> 'c mfrc522) option" where
  "PICC_Select dev buf0 uid vb s =
     (if vb > 80 then Some (STATUS_INVALID, uid, s)
      else do {
        let s = PCD_ClearRegisterBitMask dev CollReg 0x80 s;
        (result, cascadeLevel, uid, s) \<leftarrow> sel_cascade dev 1 vb uid buf0 s;
        if result \<noteq> STATUS_OK then Some (result, uid, s)
        else Some (STATUS_OK, uid\<lparr>uid_size := of_nat (3 * cascadeLevel + 1)\<rparr>, s)
      })"

definition PICC_HaltA :: "'c spi_bus \<Rightarrow> 'c mfrc522 \<Rightarrow> (StatusCode \<times> 'c mfrc522) option" where
  "PICC_HaltA dev s =
     do {
       let buffer = [PICC_CMD_HLTA, 0];
       (result, crc, s) \<leftarrow> PCD_CalculateCRC dev buffer 2 s;
       if result \<noteq> STATUS_OK then Some (result, s)
       else do {
         (result, io, s) \<leftarrow> PCD_TransceiveData dev (buffer @ crc) 4 \<lparr>backData = None, backLen = None, validBits = None\<rparr> 0 False s;
         Some (if result = STATUS_TIMEOUT then STATUS_OK else if result = STATUS_OK then STATUS_ERROR else result, s)
       }
     }"

section \<open>MIFARE cards\<close>

text \<open>The key is a list of six bytes.\<close>

definition PCD_Authenticate :: "'c spi_bus \<Rightarrow> u8 \<Rightarrow> u8 \<Rightarrow> u8 list \<Rightarrow> Uid \<Rightarrow> 'c mfrc522 \<Rightarrow> (StatusCode \<times> 'c mfrc522) option" where
  "PCD_Authenticate dev command blockAddr key uid s =
     do {
       let waitIRq = 0x10;
       let sendData = [command, blockAddr] @ replicate 10 0;
       sendData \<leftarrow> c_memcpy sendData 2 key 0 6;
       sendData \<leftarrow> c_memcpy sendData 8 (uid_bytes uid) 0 4;
       (result, io, s) \<leftarrow> PCD_CommunicateWithPICC dev PCD_MFAuthent waitIRq sendData 12
          \<lparr>backData = None, backLen = None, validBits = None\<rparr> 0 False s;
       Some (result, s)
     }"

definition PCD_StopCrypto1 :: "'c spi_bus \<Rightarrow> 'c mfrc522 \<Rightarrow> 'c mfrc522" where
  "PCD_StopCrypto1 dev s = PCD_ClearRegisterBitMask dev Status2Reg 0x08 s"

definition MIFARE_Read ::
  "'c spi_bus \<Rightarrow> u8 \<Rightarrow> u8 list option \<Rightarrow> u8 \<Rightarrow> 'c mfrc522 \<Rightarrow> (StatusCode \<times> u8 list option \<times> u8 \<times> 'c mfrc522) option" where
  "MIFARE_Read dev blockAddr buffer bufferSize s =
     (case buffer of
        None \<Rightarrow> Some (STATUS_NO_ROOM, buffer, bufferSize, s)
      | Some buf \<Rightarrow>
          if bufferSize < 18 then Some (STATUS_NO_ROOM, buffer, bufferSize, s)
          else do {
            buf \<leftarrow> c_upd buf 0 PICC_CMD_MF_READ;
            buf \<leftarrow> c_upd buf 1 blockAddr;
            (result, crc, s) \<leftarrow> PCD_CalculateCRC dev buf 2 s;
            buf \<leftarrow> c_memcpy buf 2 crc 0 (length crc);
            if result \<noteq> STATUS_OK then Some (result, Some buf, bufferSize, s)
            else do {
              (result, io, s) \<leftarrow> PCD_TransceiveData dev buf 4
                 \<lparr>backData = Some buf, backLen = Some bufferSize, validBits = None\<rparr> 0 True s;
              len \<leftarrow> backLen io;
              Some (result, backData io, len, s)
            }
          })"

text \<open>Only the part of \<^verbatim>\<open>cmdBuffer\<close> that has been written is read, so the rest can be taken as zero.\<close>

definition PCD_MIFARE_Transceive :: "'c spi_bus \<Rightarrow> u8 list option \<Rightarrow> u8 \<Rightarrow> bool \<Rightarrow> 'c mfrc522 \<Rightarrow> (StatusCode \<times> 'c mfrc522) option" where
  "PCD_MIFARE_Transceive dev sendData sendLen acceptTimeout s =
     (case sendData of
        None \<Rightarrow> Some (STATUS_INVALID, s)
      | Some data \<Rightarrow>
          if sendLen > 16 then Some (STATUS_INVALID, s)
          else do {
            cmdBuffer \<leftarrow> c_memcpy (replicate 18 0) 0 data 0 (unat sendLen);
            (result, crc, s) \<leftarrow> PCD_CalculateCRC dev cmdBuffer sendLen s;
            cmdBuffer \<leftarrow> c_memcpy cmdBuffer (unat sendLen) crc 0 (length crc);
            if result \<noteq> STATUS_OK then Some (result, s)
            else do {
              let sendLen = sendLen + 2;
              (result, io, s) \<leftarrow> PCD_CommunicateWithPICC dev PCD_Transceive 0x30 cmdBuffer sendLen
                 \<lparr>backData = Some cmdBuffer, backLen = Some 18, validBits = Some 0\<rparr> 0 False s;
              cmdBuffer \<leftarrow> backData io;
              cmdBufferSize \<leftarrow> backLen io;
              bits \<leftarrow> validBits io;
              b0 \<leftarrow> c_nth cmdBuffer 0;
              Some (if acceptTimeout \<and> result = STATUS_TIMEOUT then STATUS_OK
                    else if result \<noteq> STATUS_OK then result
                    else if cmdBufferSize \<noteq> 1 \<or> bits \<noteq> 4 then STATUS_ERROR
                    else if b0 \<noteq> MF_ACK then STATUS_MIFARE_NACK
                    else STATUS_OK, s)
            }
          })"

definition MIFARE_Write :: "'c spi_bus \<Rightarrow> u8 \<Rightarrow> u8 list option \<Rightarrow> u8 \<Rightarrow> 'c mfrc522 \<Rightarrow> (StatusCode \<times> 'c mfrc522) option" where
  "MIFARE_Write dev blockAddr buffer bufferSize s =
     (if buffer = None \<or> bufferSize < 16 then Some (STATUS_INVALID, s)
      else do {
        (result, s) \<leftarrow> PCD_MIFARE_Transceive dev (Some [PICC_CMD_MF_WRITE, blockAddr]) 2 False s;
        if result \<noteq> STATUS_OK then Some (result, s)
        else PCD_MIFARE_Transceive dev buffer bufferSize False s
      })"

definition MIFARE_Ultralight_Write :: "'c spi_bus \<Rightarrow> u8 \<Rightarrow> u8 list option \<Rightarrow> u8 \<Rightarrow> 'c mfrc522 \<Rightarrow> (StatusCode \<times> 'c mfrc522) option" where
  "MIFARE_Ultralight_Write dev page buffer bufferSize s =
     (case buffer of
        None \<Rightarrow> Some (STATUS_INVALID, s)
      | Some buf \<Rightarrow>
          if bufferSize < 4 then Some (STATUS_INVALID, s)
          else do {
            cmdBuffer \<leftarrow> c_memcpy ([PICC_CMD_UL_WRITE, page] @ replicate 4 0) 2 buf 0 4;
            PCD_MIFARE_Transceive dev (Some cmdBuffer) 6 False s
          })"

text \<open>The four bytes of a 32-bit number in memory, lowest first.\<close>

definition le_bytes :: "u32 \<Rightarrow> u8 list" where
  "le_bytes v = [ucast v, ucast (drop_bit 8 v), ucast (drop_bit 16 v), ucast (drop_bit 24 v)]"

definition MIFARE_TwoStepHelper :: "'c spi_bus \<Rightarrow> u8 \<Rightarrow> u8 \<Rightarrow> u32 \<Rightarrow> 'c mfrc522 \<Rightarrow> (StatusCode \<times> 'c mfrc522) option" where
  "MIFARE_TwoStepHelper dev command blockAddr data s =
     do {
       (result, s) \<leftarrow> PCD_MIFARE_Transceive dev (Some [command, blockAddr]) 2 False s;
       if result \<noteq> STATUS_OK then Some (result, s)
       else PCD_MIFARE_Transceive dev (Some (le_bytes data)) 4 True s
     }"

definition MIFARE_Decrement :: "'c spi_bus \<Rightarrow> u8 \<Rightarrow> u32 \<Rightarrow> 'c mfrc522 \<Rightarrow> (StatusCode \<times> 'c mfrc522) option" where
  "MIFARE_Decrement dev blockAddr delta s = MIFARE_TwoStepHelper dev PICC_CMD_MF_DECREMENT blockAddr delta s"

definition MIFARE_Increment :: "'c spi_bus \<Rightarrow> u8 \<Rightarrow> u32 \<Rightarrow> 'c mfrc522 \<Rightarrow> (StatusCode \<times> 'c mfrc522) option" where
  "MIFARE_Increment dev blockAddr delta s = MIFARE_TwoStepHelper dev PICC_CMD_MF_INCREMENT blockAddr delta s"

definition MIFARE_Restore :: "'c spi_bus \<Rightarrow> u8 \<Rightarrow> 'c mfrc522 \<Rightarrow> (StatusCode \<times> 'c mfrc522) option" where
  "MIFARE_Restore dev blockAddr s = MIFARE_TwoStepHelper dev PICC_CMD_MF_RESTORE blockAddr 0 s"

definition MIFARE_Transfer :: "'c spi_bus \<Rightarrow> u8 \<Rightarrow> 'c mfrc522 \<Rightarrow> (StatusCode \<times> 'c mfrc522) option" where
  "MIFARE_Transfer dev blockAddr s = PCD_MIFARE_Transceive dev (Some [PICC_CMD_MF_TRANSFER, blockAddr]) 2 False s"

text \<open>The value in the first four bytes of a block, as \<^verbatim>\<open>MIFARE_GetValue\<close> and the dump read it.\<close>

definition block_value :: "u8 list \<Rightarrow> u32 option" where
  "block_value buffer =
     do {
       b3 \<leftarrow> c_nth buffer 3; b2 \<leftarrow> c_nth buffer 2; b1 \<leftarrow> c_nth buffer 1; b0 \<leftarrow> c_nth buffer 0;
       Some (push_bit 24 (ucast b3) OR push_bit 16 (ucast b2) OR push_bit 8 (ucast b1) OR ucast b0)
     }"

text \<open>The value is \<open>None\<close> when \<^verbatim>\<open>*value\<close> is not written. \<open>buf0\<close> is what the local buffer of 18 bytes holds at first.\<close>

definition MIFARE_GetValue :: "'c spi_bus \<Rightarrow> u8 list \<Rightarrow> u8 \<Rightarrow> 'c mfrc522 \<Rightarrow> (StatusCode \<times> u32 option \<times> 'c mfrc522) option" where
  "MIFARE_GetValue dev buf0 blockAddr s =
     do {
       (status, buffer, size, s) \<leftarrow> MIFARE_Read dev blockAddr (Some buf0) 18 s;
       if status = STATUS_OK then do { buffer \<leftarrow> buffer; v \<leftarrow> block_value buffer; Some (status, Some v, s) }
       else Some (status, None, s)
     }"

definition value_block :: "u8 \<Rightarrow> u32 \<Rightarrow> u8 list" where
  "value_block blockAddr value =
     (let b0 = ucast (value AND 0xFF);
          b1 = ucast (drop_bit 8 (value AND 0xFF00));
          b2 = ucast (drop_bit 16 (value AND 0xFF0000));
          b3 = ucast (drop_bit 24 (value AND 0xFF000000))
      in [b0, b1, b2, b3, NOT b0, NOT b1, NOT b2, NOT b3, b0, b1, b2, b3, blockAddr, NOT blockAddr, blockAddr, NOT blockAddr])"

definition MIFARE_SetValue :: "'c spi_bus \<Rightarrow> u8 \<Rightarrow> u32 \<Rightarrow> 'c mfrc522 \<Rightarrow> (StatusCode \<times> 'c mfrc522) option" where
  "MIFARE_SetValue dev blockAddr value s = MIFARE_Write dev blockAddr (Some (value_block blockAddr value)) 16 s"

definition PCD_NTAG216_AUTH ::
  "'c spi_bus \<Rightarrow> u8 list \<Rightarrow> u8 list \<Rightarrow> 'c mfrc522 \<Rightarrow> (StatusCode \<times> u8 list \<times> 'c mfrc522) option" where
  "PCD_NTAG216_AUTH dev passWord pACK s =
     do {
       cmdBuffer \<leftarrow> c_memcpy (0x1B # replicate 17 0) 1 passWord 0 4;
       (result, crc, s) \<leftarrow> PCD_CalculateCRC dev cmdBuffer 5 s;
       cmdBuffer \<leftarrow> c_memcpy cmdBuffer 5 crc 0 (length crc);
       if result \<noteq> STATUS_OK then Some (result, pACK, s)
       else do {
         (result, io, s) \<leftarrow> PCD_CommunicateWithPICC dev PCD_Transceive 0x30 cmdBuffer 7
            \<lparr>backData = Some cmdBuffer, backLen = Some 5, validBits = Some 0\<rparr> 0 False s;
         cmdBuffer \<leftarrow> backData io;
         b0 \<leftarrow> c_nth cmdBuffer 0; b1 \<leftarrow> c_nth cmdBuffer 1;
         pACK \<leftarrow> c_upd pACK 0 b0;
         pACK \<leftarrow> c_upd pACK 1 b1;
         Some (result, pACK, s)
       }
     }"

text \<open>Three bytes: \<^verbatim>\<open>accessBitBuffer[0..2]\<close>. The shifts are on \<^verbatim>\<open>int\<close>; no bit is lost before the results are stored.\<close>

definition MIFARE_SetAccessBits :: "u8 \<Rightarrow> u8 \<Rightarrow> u8 \<Rightarrow> u8 \<Rightarrow> u8 list" where
  "MIFARE_SetAccessBits g0 g1 g2 g3 =
     (let c1 = push_bit 1 (g3 AND 4) OR (g2 AND 4) OR drop_bit 1 (g1 AND 4) OR drop_bit 2 (g0 AND 4);
          c2 = push_bit 2 (g3 AND 2) OR push_bit 1 (g2 AND 2) OR (g1 AND 2) OR drop_bit 1 (g0 AND 2);
          c3 = push_bit 3 (g3 AND 1) OR push_bit 2 (g2 AND 1) OR push_bit 1 (g1 AND 1) OR (g0 AND 1)
      in [push_bit 4 (NOT c2 AND 0xF) OR (NOT c1 AND 0xF), push_bit 4 c1 OR (NOT c3 AND 0xF), push_bit 4 c3 OR c2])"

section \<open>Names\<close>

definition PICC_GetType :: "u8 \<Rightarrow> PICC_Type" where
  "PICC_GetType sak =
     (let sak = sak AND 0x7F in
      if sak = 0x04 then PICC_TYPE_NOT_COMPLETE
      else if sak = 0x09 then PICC_TYPE_MIFARE_MINI
      else if sak = 0x08 then PICC_TYPE_MIFARE_1K
      else if sak = 0x18 then PICC_TYPE_MIFARE_4K
      else if sak = 0x00 then PICC_TYPE_MIFARE_UL
      else if sak = 0x10 \<or> sak = 0x11 then PICC_TYPE_MIFARE_PLUS
      else if sak = 0x01 then PICC_TYPE_TNP3XXX
      else if sak = 0x20 then PICC_TYPE_ISO_14443_4
      else if sak = 0x40 then PICC_TYPE_ISO_18092
      else PICC_TYPE_UNKNOWN)"

fun GetStatusCodeName :: "StatusCode \<Rightarrow> string" where
  "GetStatusCodeName STATUS_OK = ''Success.''"
| "GetStatusCodeName STATUS_ERROR = ''Error in communication.''"
| "GetStatusCodeName STATUS_COLLISION = ''Collission detected.''"
| "GetStatusCodeName STATUS_TIMEOUT = ''Timeout in communication.''"
| "GetStatusCodeName STATUS_NO_ROOM = ''A buffer is not big enough.''"
| "GetStatusCodeName STATUS_INTERNAL_ERROR = ''Internal error in the code. Should not happen.''"
| "GetStatusCodeName STATUS_INVALID = ''Invalid argument.''"
| "GetStatusCodeName STATUS_CRC_WRONG = ''The CRC_A does not match.''"
| "GetStatusCodeName STATUS_MIFARE_NACK = ''A MIFARE PICC responded with NAK.''"

fun PICC_GetTypeName :: "PICC_Type \<Rightarrow> string" where
  "PICC_GetTypeName PICC_TYPE_ISO_14443_4 = ''PICC compliant with ISO/IEC 14443-4''"
| "PICC_GetTypeName PICC_TYPE_ISO_18092 = ''PICC compliant with ISO/IEC 18092 (NFC)''"
| "PICC_GetTypeName PICC_TYPE_MIFARE_MINI = ''MIFARE Mini, 320 uint8_ts''"
| "PICC_GetTypeName PICC_TYPE_MIFARE_1K = ''MIFARE 1KB''"
| "PICC_GetTypeName PICC_TYPE_MIFARE_4K = ''MIFARE 4KB''"
| "PICC_GetTypeName PICC_TYPE_MIFARE_UL = ''MIFARE Ultralight or Ultralight C''"
| "PICC_GetTypeName PICC_TYPE_MIFARE_PLUS = ''MIFARE Plus''"
| "PICC_GetTypeName PICC_TYPE_TNP3XXX = ''MIFARE TNP3XXX''"
| "PICC_GetTypeName PICC_TYPE_NOT_COMPLETE = ''SAK indicates UID is not complete.''"
| "PICC_GetTypeName PICC_TYPE_UNKNOWN = ''Unknown type''"

section \<open>Convenience functions\<close>

text \<open>The answer is not used, so its first contents do not matter.\<close>

definition PICC_IsNewCardPresent :: "'c spi_bus \<Rightarrow> 'c mfrc522 \<Rightarrow> (bool \<times> 'c mfrc522) option" where
  "PICC_IsNewCardPresent dev s =
     do {
       (result, _, _, s) \<leftarrow> PICC_RequestA dev (Some [0, 0]) 2 s;
       Some (result = STATUS_OK \<or> result = STATUS_COLLISION, s)
     }"

definition PICC_ReadCardSerial :: "'c spi_bus \<Rightarrow> u8 list \<Rightarrow> 'c mfrc522 \<Rightarrow> (bool \<times> 'c mfrc522) option" where
  "PICC_ReadCardSerial dev buf0 s =
     do { (result, uid, s) \<leftarrow> PICC_Select dev buf0 (mf_uid s) 0 s; Some (result = STATUS_OK, s\<lparr>mf_uid := uid\<rparr>) }"

end
