(* ===== verification/Mfrc522_Dump.thy ===== *)
theory Mfrc522_Dump
  imports Mfrc522_Cards
begin

text \<open>
  The rest of \<^verbatim>\<open>src/Elegoo/MFRC522.c\<close>: the dumps of a card on the debug UART and the functions for cards with a changeable
  identification. Text is formatted by \<open>xsprintf\<close> of the console output into \<^verbatim>\<open>prtbuff\<close>, whose 96 bytes bound it.
\<close>

section \<open>Text output\<close>

definition wsBoard_UARTPutSTR :: "ctext \<Rightarrow> 'c mfrc522 \<Rightarrow> 'c mfrc522" where
  "wsBoard_UARTPutSTR str s = s\<lparr>mf_out := mf_out s @ str\<rparr>"

definition wsBoard_UARTPutChar :: "u8 \<Rightarrow> 'c mfrc522 \<Rightarrow> 'c mfrc522" where
  "wsBoard_UARTPutChar ch s = s\<lparr>mf_out := mf_out s @ [ch]\<rparr>"

text \<open>\<^verbatim>\<open>xsprintf(prtbuff, ...); wsBoard_UARTPutSTR(prtbuff);\<close>\<close>

definition put_formatted :: "ctext \<Rightarrow> xarg list \<Rightarrow> 'c mfrc522 \<Rightarrow> 'c mfrc522 option" where
  "put_formatted fmt arp s = do { prtbuff \<leftarrow> sprintf_in 96 fmt arp; Some (wsBoard_UARTPutSTR prtbuff s) }"

abbreviation nl :: ctext where
  "nl \<equiv> [0x0A]"

section \<open>Dumps\<close>

definition PCD_DumpVersionToSerial :: "'c spi_bus \<Rightarrow> 'c mfrc522 \<Rightarrow> 'c mfrc522 option" where
  "PCD_DumpVersionToSerial dev s =
     do {
       let (v, s) = PCD_ReadRegister dev VersionReg s;
       s \<leftarrow> put_formatted (ascii ''Firmware Version: %02X'') [AInt (ucast v)] s;
       let s = wsBoard_UARTPutSTR
         (if v = 0x88 then ascii '' = (clone)'' @ nl
          else if v = 0x90 then ascii '' = v0.0'' @ nl
          else if v = 0x91 then ascii '' = v1.0'' @ nl
          else if v = 0x92 then ascii '' = v2.0'' @ nl
          else ascii '' = (unknown)'' @ nl) s;
       Some (if v = 0x00 \<or> v = 0xFF
             then wsBoard_UARTPutSTR (nl @ ascii ''WARNING: Communication failure, is the MFRC522 properly connected?'' @ nl) s
             else s)
     }"

fun dump_uid_loop :: "u8 list \<Rightarrow> nat \<Rightarrow> nat \<Rightarrow> 'c mfrc522 \<Rightarrow> 'c mfrc522 option" where
  "dump_uid_loop bytes i 0 s = Some s"
| "dump_uid_loop bytes i (Suc n) s =
     do {
       b \<leftarrow> c_nth bytes i;
       let s = wsBoard_UARTPutSTR (if b < 0x10 then ascii '' 0'' else ascii '' '') s;
       s \<leftarrow> put_formatted (ascii ''%X'') [AInt (ucast b)] s;
       dump_uid_loop bytes (Suc i) n s
     }"

definition PICC_DumpDetailsToSerial :: "Uid \<Rightarrow> 'c mfrc522 \<Rightarrow> 'c mfrc522 option" where
  "PICC_DumpDetailsToSerial uid s =
     do {
       let s = wsBoard_UARTPutSTR (ascii ''Card UID:'') s;
       s \<leftarrow> dump_uid_loop (uid_bytes uid) 0 (unat (uid_size uid)) s;
       let s = wsBoard_UARTPutChar 0x0A s;
       let s = wsBoard_UARTPutSTR (ascii ''Card SAK: '') s;
       let s = (if uid_sak uid < 0x10 then wsBoard_UARTPutSTR (ascii ''0'') s else s);
       s \<leftarrow> put_formatted (ascii ''%X'' @ nl) [AInt (ucast (uid_sak uid))] s;
       put_formatted (ascii ''PICC type: %s'' @ nl) [AStr (ascii (PICC_GetTypeName (PICC_GetType (uid_sak uid))))] s
     }"

text \<open>The access bits of the four groups and whether the inverted copies disagree, from bytes 6 to 8 of a sector trailer.\<close>

definition access_groups :: "u8 list \<Rightarrow> (u8 list \<times> bool) option" where
  "access_groups buffer =
     do {
       b6 \<leftarrow> c_nth buffer 6; b7 \<leftarrow> c_nth buffer 7; b8 \<leftarrow> c_nth buffer 8;
       let c1 = drop_bit 4 b7; let c2 = b8 AND 0xF; let c3 = drop_bit 4 b8;
       let c1' = b6 AND 0xF; let c2' = drop_bit 4 b6; let c3' = b7 AND 0xF;
       let invertedError = (c1 \<noteq> NOT c1' AND 0xF \<or> c2 \<noteq> NOT c2' AND 0xF \<or> c3 \<noteq> NOT c3' AND 0xF);
       Some ([push_bit 2 (c1 AND 1) OR push_bit 1 (c2 AND 1) OR (c3 AND 1),
              push_bit 1 (c1 AND 2) OR (c2 AND 2) OR drop_bit 1 (c3 AND 2),
              (c1 AND 4) OR drop_bit 1 (c2 AND 4) OR drop_bit 2 (c3 AND 4),
              drop_bit 1 (c1 AND 8) OR drop_bit 2 (c2 AND 8) OR drop_bit 3 (c3 AND 8)], invertedError)
     }"

text \<open>The local variables that live through the loop over the blocks of a sector.\<close>

record sector_vars =
  isSectorTrailer :: bool
  sec_buffer :: "u8 list"
  sec_g :: "u8 list"
  invertedError :: bool

fun dump_data_loop :: "u8 list \<Rightarrow> nat \<Rightarrow> nat \<Rightarrow> 'c mfrc522 \<Rightarrow> 'c mfrc522 option" where
  "dump_data_loop buffer index 0 s = Some s"
| "dump_data_loop buffer index (Suc n) s =
     do {
       b \<leftarrow> c_nth buffer index;
       let s = (if b < 0x10 then wsBoard_UARTPutSTR (ascii '' 0'') s else wsBoard_UARTPutChar 0x20 s);
       s \<leftarrow> put_formatted (ascii ''%X'') [AInt (ucast b)] s;
       let s = (if index mod 4 = 3 then wsBoard_UARTPutChar 0x20 s else s);
       dump_data_loop buffer (Suc index) n s
     }"

text \<open>The first part of a line: sector and block number.\<close>

definition dump_numbers :: "bool \<Rightarrow> u8 \<Rightarrow> u8 \<Rightarrow> 'c mfrc522 \<Rightarrow> 'c mfrc522 option" where
  "dump_numbers trailer sector blockAddr s =
     do {
       s \<leftarrow> (if trailer then
               let s = wsBoard_UARTPutSTR (if sector < 10 then ascii ''   '' else ascii ''  '') s
               in put_formatted (ascii ''%d   '') [AInt (ucast sector)] s
             else Some (wsBoard_UARTPutSTR (ascii ''       '') s));
       let s = wsBoard_UARTPutSTR
         (if blockAddr < 10 then ascii ''   '' else if blockAddr < 100 then ascii ''  '' else ascii '' '') s;
       put_formatted (ascii ''%d  '') [AInt (ucast blockAddr)] s
     }"

text \<open>The last part of a line: access bits and value.\<close>

definition dump_access :: "nat \<Rightarrow> nat \<Rightarrow> sector_vars \<Rightarrow> 'c mfrc522 \<Rightarrow> 'c mfrc522 option" where
  "dump_access no_of_blocks blockOffset v s =
     do {
       let group = (if no_of_blocks = 4 then blockOffset else blockOffset div 5);
       let firstInGroup = (no_of_blocks = 4 \<or> group = 3 \<or> group \<noteq> (blockOffset + 1) div 5);
       g \<leftarrow> c_nth (sec_g v) group;
       s \<leftarrow> (if firstInGroup then
               do {
                 s \<leftarrow> put_formatted (ascii '' [ %d %d %d ] '')
                   [AInt (ucast (drop_bit 2 g AND 1)), AInt (ucast (drop_bit 1 g AND 1)), AInt (ucast (g AND 1))] s;
                 Some (if invertedError v then wsBoard_UARTPutSTR (ascii '' Inverted access bits did not match! '' @ nl) s else s)
               }
             else Some s);
       s \<leftarrow> (if group \<noteq> 3 \<and> (g = 1 \<or> g = 6) then
               do {
                 value \<leftarrow> block_value (sec_buffer v);
                 adr \<leftarrow> c_nth (sec_buffer v) 12;
                 put_formatted (ascii '' Value=%02X Adr=%02X'') [AInt value, AInt (ucast adr)] s
               }
             else Some s);
       Some (wsBoard_UARTPutChar 0x0A s)
     }"

text \<open>The loop over the blocks, highest first; it stops when the authentication fails.\<close>

fun dump_blocks ::
  "'c spi_bus \<Rightarrow> Uid \<Rightarrow> u8 list \<Rightarrow> u8 \<Rightarrow> nat \<Rightarrow> u8 \<Rightarrow> nat list \<Rightarrow> sector_vars \<Rightarrow> 'c mfrc522 \<Rightarrow> 'c mfrc522 option" where
  "dump_blocks dev uid key sector no_of_blocks firstBlock [] v s = Some s"
| "dump_blocks dev uid key sector no_of_blocks firstBlock (blockOffset # rest) v s =
     do {
       let blockAddr = firstBlock + of_nat blockOffset;
       s \<leftarrow> dump_numbers (isSectorTrailer v) sector blockAddr s;
       (status, s) \<leftarrow> (if isSectorTrailer v then PCD_Authenticate dev PICC_CMD_MF_AUTH_KEY_A firstBlock key uid s
                       else Some (STATUS_OK, s));
       if status \<noteq> STATUS_OK then
         put_formatted (ascii ''PCD_Authenticate() failed: %s'' @ nl) [AStr (ascii (GetStatusCodeName status))] s
       else do {
         (status, buffer, _, s) \<leftarrow> MIFARE_Read dev blockAddr (Some (sec_buffer v)) 18 s;
         buffer \<leftarrow> buffer;
         let v = v\<lparr>sec_buffer := buffer\<rparr>;
         if status \<noteq> STATUS_OK then
           do {
             s \<leftarrow> put_formatted (ascii ''MIFARE_Read() failed: %s'' @ nl) [AStr (ascii (GetStatusCodeName status))] s;
             dump_blocks dev uid key sector no_of_blocks firstBlock rest v s
           }
         else do {
           s \<leftarrow> dump_data_loop buffer 0 16 s;
           v \<leftarrow> (if isSectorTrailer v then
                   do { (g, e) \<leftarrow> access_groups buffer; Some (v\<lparr>sec_g := g, invertedError := e, isSectorTrailer := False\<rparr>) }
                 else Some v);
           s \<leftarrow> dump_access no_of_blocks blockOffset v s;
           dump_blocks dev uid key sector no_of_blocks firstBlock rest v s
         }
       }
     }"

text \<open>\<open>buf0\<close>: the first contents of the buffer of 18 bytes. The groups are read only after they have been set.\<close>

definition PICC_DumpMifareClassicSectorToSerial ::
  "'c spi_bus \<Rightarrow> u8 list \<Rightarrow> Uid \<Rightarrow> u8 list \<Rightarrow> u8 \<Rightarrow> 'c mfrc522 \<Rightarrow> 'c mfrc522 option" where
  "PICC_DumpMifareClassicSectorToSerial dev buf0 uid key sector s =
     (let v = \<lparr>isSectorTrailer = True, sec_buffer = buf0, sec_g = [], invertedError = False\<rparr> in
      if sector < 32 then dump_blocks dev uid key sector 4 (sector * 4) (rev [0..<4]) v s
      else if sector < 40 then dump_blocks dev uid key sector 16 (128 + (sector - 32) * 16) (rev [0..<16]) v s
      else Some s)"

fun dump_sectors :: "'c spi_bus \<Rightarrow> u8 list \<Rightarrow> Uid \<Rightarrow> u8 list \<Rightarrow> nat list \<Rightarrow> 'c mfrc522 \<Rightarrow> 'c mfrc522 option" where
  "dump_sectors dev buf0 uid key [] s = Some s"
| "dump_sectors dev buf0 uid key (i # is) s =
     do { s \<leftarrow> PICC_DumpMifareClassicSectorToSerial dev buf0 uid key (of_nat i) s; dump_sectors dev buf0 uid key is s }"

definition PICC_DumpMifareClassicToSerial ::
  "'c spi_bus \<Rightarrow> u8 list \<Rightarrow> Uid \<Rightarrow> PICC_Type \<Rightarrow> u8 list \<Rightarrow> 'c mfrc522 \<Rightarrow> 'c mfrc522 option" where
  "PICC_DumpMifareClassicToSerial dev buf0 uid piccType key s =
     do {
       let no_of_sectors = (case piccType of PICC_TYPE_MIFARE_MINI \<Rightarrow> 5 | PICC_TYPE_MIFARE_1K \<Rightarrow> 16 | PICC_TYPE_MIFARE_4K \<Rightarrow> 40 | _ \<Rightarrow> 0);
       s \<leftarrow> (if no_of_sectors \<noteq> 0 then
               let s = wsBoard_UARTPutSTR
                 (ascii ''Sector Block   0  1  2  3   4  5  6  7   8  9 10 11  12 13 14 15  AccessBits'' @ nl) s
               in dump_sectors dev buf0 uid key (rev [0..<no_of_sectors]) s
             else Some s);
       (_, s) \<leftarrow> PICC_HaltA dev s;
       Some (PCD_StopCrypto1 dev s)
     }"

fun dump_page_bytes :: "u8 list \<Rightarrow> nat \<Rightarrow> nat \<Rightarrow> 'c mfrc522 \<Rightarrow> 'c mfrc522 option" where
  "dump_page_bytes buffer i 0 s = Some s"
| "dump_page_bytes buffer i (Suc n) s =
     do {
       b \<leftarrow> c_nth buffer i;
       let s = (if b < 0x10 then wsBoard_UARTPutSTR (ascii '' 0'') s else wsBoard_UARTPutChar 0x20 s);
       s \<leftarrow> put_formatted (ascii ''%02X'') [AInt (ucast b)] s;
       dump_page_bytes buffer (Suc i) n s
     }"

fun dump_page_lines :: "u8 list \<Rightarrow> u8 \<Rightarrow> nat list \<Rightarrow> 'c mfrc522 \<Rightarrow> 'c mfrc522 option" where
  "dump_page_lines buffer page [] s = Some s"
| "dump_page_lines buffer page (offset # rest) s =
     do {
       let i = page + of_nat offset;
       let s = wsBoard_UARTPutSTR (if i < 10 then ascii ''  '' else ascii '' '') s;
       s \<leftarrow> put_formatted (ascii ''%d  '') [AInt (ucast i)] s;
       s \<leftarrow> dump_page_bytes buffer (4 * offset) 4 s;
       let s = wsBoard_UARTPutChar 0x0A s;
       dump_page_lines buffer page rest s
     }"

fun dump_pages :: "'c spi_bus \<Rightarrow> u8 list \<Rightarrow> u8 list \<Rightarrow> 'c mfrc522 \<Rightarrow> 'c mfrc522 option" where
  "dump_pages dev buffer [] s = Some s"
| "dump_pages dev buffer (page # rest) s =
     do {
       (status, buffer, _, s) \<leftarrow> MIFARE_Read dev page (Some buffer) 18 s;
       buffer \<leftarrow> buffer;
       if status \<noteq> STATUS_OK then put_formatted (ascii ''MIFARE_Read() failed: %s'') [AStr (ascii (GetStatusCodeName status))] s
       else do { s \<leftarrow> dump_page_lines buffer page [0..<4] s; dump_pages dev buffer rest s }
     }"

definition PICC_DumpMifareUltralightToSerial :: "'c spi_bus \<Rightarrow> u8 list \<Rightarrow> 'c mfrc522 \<Rightarrow> 'c mfrc522 option" where
  "PICC_DumpMifareUltralightToSerial dev buf0 s =
     (let s = wsBoard_UARTPutSTR (ascii ''Page  0  1  2  3'') s in dump_pages dev buf0 [0, 4, 8, 12] s)"

definition PICC_DumpToSerial :: "'c spi_bus \<Rightarrow> u8 list \<Rightarrow> Uid \<Rightarrow> 'c mfrc522 \<Rightarrow> 'c mfrc522 option" where
  "PICC_DumpToSerial dev buf0 uid s =
     do {
       s \<leftarrow> PICC_DumpDetailsToSerial uid s;
       let piccType = PICC_GetType (uid_sak uid);
       s \<leftarrow> (if piccType \<in> {PICC_TYPE_MIFARE_MINI, PICC_TYPE_MIFARE_1K, PICC_TYPE_MIFARE_4K} then
               PICC_DumpMifareClassicToSerial dev buf0 uid piccType (replicate 6 0xFF) s
             else if piccType = PICC_TYPE_MIFARE_UL then PICC_DumpMifareUltralightToSerial dev buf0 s
             else if piccType \<in> {PICC_TYPE_ISO_14443_4, PICC_TYPE_ISO_18092, PICC_TYPE_MIFARE_PLUS, PICC_TYPE_TNP3XXX} then
               Some (wsBoard_UARTPutSTR (ascii ''Dumping memory contents not implemented for that PICC type.'' @ nl) s)
             else Some s);
       let s = wsBoard_UARTPutChar 0x0A s;
       (_, s) \<leftarrow> PICC_HaltA dev s;
       Some s
     }"

section \<open>Changing the identification\<close>

definition put_if :: "bool \<Rightarrow> ctext \<Rightarrow> 'c mfrc522 \<Rightarrow> 'c mfrc522" where
  "put_if logErrors str s = (if logErrors then wsBoard_UARTPutSTR str s else s)"

definition put_formatted_if :: "bool \<Rightarrow> ctext \<Rightarrow> xarg list \<Rightarrow> 'c mfrc522 \<Rightarrow> 'c mfrc522 option" where
  "put_formatted_if logErrors fmt arp s = (if logErrors then put_formatted fmt arp s else Some s)"

text \<open>\<open>resp0\<close> and \<open>received0\<close>: what \<^verbatim>\<open>response[32]\<close> and \<^verbatim>\<open>received\<close> hold at first. The latter is passed as the size of the
  former without having been set.\<close>

definition MIFARE_OpenUidBackdoor ::
  "'c spi_bus \<Rightarrow> u8 list \<Rightarrow> u8 \<Rightarrow> bool \<Rightarrow> 'c mfrc522 \<Rightarrow> (bool \<times> 'c mfrc522) option" where
  "MIFARE_OpenUidBackdoor dev resp0 received0 logErrors s =
     do {
       (_, s) \<leftarrow> PICC_HaltA dev s;
       (status, io, s) \<leftarrow> PCD_TransceiveData dev [0x40] 1
          \<lparr>backData = Some resp0, backLen = Some received0, validBits = Some 7\<rparr> 0 False s;
       response \<leftarrow> backData io; received \<leftarrow> backLen io; bits \<leftarrow> validBits io;
       r0 \<leftarrow> c_nth response 0;
       if status \<noteq> STATUS_OK then
         do {
           let s = put_if logErrors
             (ascii ''Card did not respond to 0x40 after HALT command. Are you sure it is a UID changeable one?'' @ nl) s;
           s \<leftarrow> put_formatted_if logErrors (ascii ''Error name: %s'' @ nl) [AStr (ascii (GetStatusCodeName status))] s;
           Some (False, s)
         }
       else if received \<noteq> 1 \<or> r0 \<noteq> 0x0A then
         do {
           s \<leftarrow> put_formatted_if logErrors
             (ascii ''Got bad response on backdoor 0x40'' @ nl @ ascii ''command: %02X (%d) valid bits'' @ nl)
             [AInt (ucast r0), AInt (ucast bits)] s;
           Some (False, s)
         }
       else do {
         (status, io, s) \<leftarrow> PCD_TransceiveData dev [0x43] 1
            \<lparr>backData = Some response, backLen = Some received, validBits = Some 8\<rparr> 0 False s;
         response \<leftarrow> backData io; received \<leftarrow> backLen io; bits \<leftarrow> validBits io;
         r0 \<leftarrow> c_nth response 0;
         if status \<noteq> STATUS_OK then
           do {
             let s = put_if logErrors (ascii ''Error in communication at command 0x43, after successfully executing 0x40'' @ nl) s;
             s \<leftarrow> put_formatted_if logErrors (ascii ''Error name: %s'') [AStr (ascii (GetStatusCodeName status))] s;
             Some (False, s)
           }
         else if received \<noteq> 1 \<or> r0 \<noteq> 0x0A then
           do {
             s \<leftarrow> put_formatted_if logErrors
               (ascii ''Got bad response on backdoor 0x43 command: %02X'' @ nl @ ascii '' (%d) Valid Bits'' @ nl)
               [AInt (ucast r0), AInt (ucast bits)] s;
             Some (False, s)
           }
         else Some (True, s)
       }
     }"

text \<open>Authentication for block 1, selecting a card first when there is no answer. \<open>sel0\<close>: the buffer of \<^verbatim>\<open>PICC_Select\<close>.\<close>

definition setuid_authenticate ::
  "'c spi_bus \<Rightarrow> u8 list \<Rightarrow> bool \<Rightarrow> 'c mfrc522 \<Rightarrow> (bool \<times> 'c mfrc522) option" where
  "setuid_authenticate dev sel0 logErrors s =
     do {
       let key = replicate 6 0xFF;
       (status, s) \<leftarrow> PCD_Authenticate dev PICC_CMD_MF_AUTH_KEY_A 1 key (mf_uid s) s;
       if status = STATUS_OK then Some (True, s)
       else if status = STATUS_TIMEOUT then
         do {
           (present, s) \<leftarrow> PICC_IsNewCardPresent dev s;
           (card_read, s) \<leftarrow> (if \<not> present then Some (False, s) else PICC_ReadCardSerial dev sel0 s);
           if \<not> present \<or> \<not> card_read then
             Some (False, wsBoard_UARTPutSTR (ascii ''No card was previously selected, and none are available. Failed to set UID.'' @ nl) s)
           else do {
             (status, s) \<leftarrow> PCD_Authenticate dev PICC_CMD_MF_AUTH_KEY_A 1 key (mf_uid s) s;
             if status \<noteq> STATUS_OK then
               do {
                 s \<leftarrow> put_formatted_if logErrors
                   (ascii ''Failed to authenticate to card for reading, could not set UID: %s'' @ nl)
                   [AStr (ascii (GetStatusCodeName status))] s;
                 Some (False, s)
               }
             else Some (True, s)
           }
         }
       else do {
         s \<leftarrow> put_formatted_if logErrors (ascii ''PCD_Authenticate() failed: %s'' @ nl) [AStr (ascii (GetStatusCodeName status))] s;
         Some (False, s)
       }
     }"

text \<open>The new block: the identification, its exclusive-or, and the rest of the block as it was read.\<close>

definition uid_block :: "u8 list \<Rightarrow> u8 list \<Rightarrow> nat \<Rightarrow> u8 list option" where
  "uid_block block0 newUid uidSize =
     do {
       block0 \<leftarrow> c_memcpy block0 0 newUid 0 uidSize;
       let bcc = foldl (\<lambda>bcc b. bcc XOR b) 0 (take uidSize newUid);
       c_upd block0 uidSize bcc
     }"

definition MIFARE_SetUid ::
  "'c spi_bus \<Rightarrow> u8 list \<Rightarrow> u8 list \<Rightarrow> u8 list \<Rightarrow> u8 \<Rightarrow> u8 list option \<Rightarrow> u8 \<Rightarrow> bool \<Rightarrow> 'c mfrc522 \<Rightarrow> (bool \<times> 'c mfrc522) option" where
  "MIFARE_SetUid dev sel0 buf0 resp0 received0 newUid uidSize logErrors s =
     (case newUid of
        None \<Rightarrow> Some (False, put_if logErrors (ascii ''New UID buffer empty, size 0, or size > 15 given'' @ nl) s)
      | Some newUid \<Rightarrow>
          if uidSize = 0 \<or> uidSize > 15
          then Some (False, put_if logErrors (ascii ''New UID buffer empty, size 0, or size > 15 given'' @ nl) s)
          else do {
            (authenticated, s) \<leftarrow> setuid_authenticate dev sel0 logErrors s;
            if \<not> authenticated then Some (False, s)
            else do {
              (status, block0, _, s) \<leftarrow> MIFARE_Read dev 0 (Some buf0) 18 s;
              block0 \<leftarrow> block0;
              if status \<noteq> STATUS_OK then
                do {
                  s \<leftarrow> put_formatted_if logErrors (ascii ''MIFARE_Read() failed: %s'' @ nl) [AStr (ascii (GetStatusCodeName status))] s;
                  Some (False, put_if logErrors (ascii ''Are you sure your KEY A for sector 0 is 0xFFFFFFFFFFFF?'' @ nl) s)
                }
              else do {
                block0 \<leftarrow> uid_block block0 newUid (unat uidSize);
                let s = PCD_StopCrypto1 dev s;
                (opened, s) \<leftarrow> MIFARE_OpenUidBackdoor dev resp0 received0 logErrors s;
                if \<not> opened then Some (False, put_if logErrors (ascii ''Activating the UID backdoor failed.'' @ nl) s)
                else do {
                  (status, s) \<leftarrow> MIFARE_Write dev 0 (Some block0) 16 s;
                  if status \<noteq> STATUS_OK then
                    do {
                      s \<leftarrow> put_formatted_if logErrors (ascii ''MIFARE_Write() failed: %s'') [AStr (ascii (GetStatusCodeName status))] s;
                      Some (False, s)
                    }
                  else do { (_, _, _, s) \<leftarrow> PICC_WakeupA dev (Some [0, 0]) 2 s; Some (True, s) }
                }
              }
            }
          })"

definition MIFARE_UnbrickUidSector ::
  "'c spi_bus \<Rightarrow> u8 list \<Rightarrow> u8 \<Rightarrow> bool \<Rightarrow> 'c mfrc522 \<Rightarrow> (bool \<times> 'c mfrc522) option" where
  "MIFARE_UnbrickUidSector dev resp0 received0 logErrors s =
     do {
       (_, s) \<leftarrow> MIFARE_OpenUidBackdoor dev resp0 received0 logErrors s;
       let block0 = [0x01, 0x02, 0x03, 0x04, 0x04, 0x00, 0x00, 0x00, 0x00, 0x00, 0x00, 0x00, 0x00, 0x00, 0x00, 0x00];
       (status, s) \<leftarrow> MIFARE_Write dev 0 (Some block0) 16 s;
       if status \<noteq> STATUS_OK then
         do {
           s \<leftarrow> put_formatted_if logErrors (ascii ''MIFARE_Write() failed: %s'') [AStr (ascii (GetStatusCodeName status))] s;
           Some (False, s)
         }
       else Some (True, s)
     }"

end
