(* ===== verification/Mfrc522_Safe.thy ===== *)
theory Mfrc522_Safe
  imports Mfrc522_Dump
begin

text \<open>
  The reader driver against a chip that may answer anything: every function that talks to a card returns and stays inside
  its buffers. The exception is the reset, whose waiting loop has no bound.
\<close>

section \<open>Registers and exchanges\<close>

lemma c_memcpy_total: "d + n \<le> length dst \<Longrightarrow> i + n \<le> length src \<Longrightarrow> \<exists>r. c_memcpy dst d src i n = Some r \<and> length r = length dst"
  using c_memcpy_length by (auto simp: c_memcpy_def)

lemma write_buffer_total: "unat count \<le> length vs \<Longrightarrow> \<exists>s'. PCD_WriteRegister_Buffer dev reg count vs s = Some s'"
  by (auto simp: PCD_WriteRegister_Buffer_def Let_def split: prod.splits)

lemma read_loop_total:
  "index + n \<le> length vs \<Longrightarrow>
   \<exists>vs' s'. read_loop dev address rxAlign index n vs s = Some (vs', s') \<and> length vs' = length vs"
proof (induction n arbitrary: index vs s)
  case (Suc n)
  obtain v s1 where "MFRC522_SPIrw dev address s = (v, s1)" by fastforce
  then show ?case using Suc.prems Suc.IH [of "Suc index" "vs[index := _]"] by (simp add: c_nth_def c_upd_def)
qed simp

lemma read_buffer_total:
  assumes "unat count \<le> length vs"
  shows "\<exists>vs' s'. PCD_ReadRegister_Buffer dev reg count vs rxAlign s = Some (vs', s') \<and> length vs' = length vs"
proof (cases "count = 0")
  case False
  then have "0 < unat count" by (simp add: unat_gt_0)
  let ?a = "0x80 OR (reg AND 0x7E)"
  obtain v s1 where s1: "MFRC522_SPIrw dev ?a (MFRC522_CS_SELECTED dev s) = (v, s1)" by fastforce
  obtain vs' s2 where s2: "read_loop dev ?a rxAlign 0 (unat count - 1) vs s1 = Some (vs', s2)" "length vs' = length vs"
    using read_loop_total [of 0 "unat count - 1" vs dev ?a rxAlign s1] assms by force
  obtain w s3 where "MFRC522_SPIrw dev 0 s2 = (w, s3)" by fastforce
  then show ?thesis using False s1 s2 assms \<open>0 < unat count\<close> by (auto simp: PCD_ReadRegister_Buffer_def c_upd_def Let_def)
qed (simp add: PCD_ReadRegister_Buffer_def)

lemma crc_total:
  assumes "unat len \<le> length data"
  shows "\<exists>st crc s'. PCD_CalculateCRC dev data len s = Some (st, crc, s') \<and>
     (st = STATUS_OK \<and> length crc = 2 \<or> st = STATUS_TIMEOUT \<and> crc = [])"
  using write_buffer_total [OF assms, of dev FIFODataReg]
  by (auto simp: PCD_CalculateCRC_def Let_def split: prod.splits if_splits Option.bind_splits)

text \<open>The buffer for the answer is at least as long as announced; an exchange keeps its size.\<close>

definition io_ok :: "picc_io \<Rightarrow> bool" where
  "io_ok io \<longleftrightarrow> (\<forall>data len. backData io = Some data \<longrightarrow> backLen io = Some len \<longrightarrow> unat len \<le> length data)"

definition io_keeps :: "picc_io \<Rightarrow> picc_io \<Rightarrow> bool" where
  "io_keeps io io' \<longleftrightarrow> map_option length (backData io') = map_option length (backData io) \<and>
     (backLen io' = None \<longleftrightarrow> backLen io = None) \<and> (validBits io' = None \<longleftrightarrow> validBits io = None) \<and> (io_ok io \<longrightarrow> io_ok io')"

lemma io_keeps_refl: "io_keeps io io"
  by (simp add: io_keeps_def)

lemma receive_total:
  assumes "backData io = Some data" "backLen io = Some len" "unat len \<le> length data"
  shows "\<exists>r io' s'. com_receive dev data len io rxAlign s = Some (r, io', s') \<and> io_keeps io io'"
proof -
  obtain n s1 where n: "PCD_ReadRegister dev FIFOLevelReg s = (n, s1)" by fastforce
  show ?thesis
  proof (cases "n > len")
    case True
    then show ?thesis by (simp add: com_receive_def n io_keeps_refl)
  next
    case False
    then have l: "unat n \<le> length data" using assms(3) by (simp add: word_le_nat)
    obtain data' s2 where d: "PCD_ReadRegister_Buffer dev FIFODataReg n data rxAlign s1 = Some (data', s2)" "length data' = length data"
      using read_buffer_total [OF l] by blast
    then show ?thesis using False l assms
      by (auto simp: com_receive_def n io_keeps_def io_ok_def Let_def split: prod.splits)
  qed
qed

lemma check_total:
  assumes "unat len \<le> length data"
  shows "\<exists>st s'. com_check dev data len bits s = Some (st, s')"
proof -
  have "unat (len - 2) = unat len - 2" if "\<not> len < 2" using that by (simp add: word_nat not_less)
  then have l: "unat (len - 2) \<le> length data" "unat len - 2 < length data" "unat len - 1 < length data" if "\<not> len < 2"
    using that assms by (auto simp: word_less_nat_alt)
  show ?thesis
  proof (cases "len < 2")
    case True
    then show ?thesis by (simp add: com_check_def)
  next
    case False
    then show ?thesis using crc_total [OF l(1) [OF False], of dev s] l [OF False]
      by (auto simp: com_check_def c_nth_def)
  qed
qed

lemma start_total: "unat sendLen \<le> length sendData \<Longrightarrow> \<exists>f s'. com_start dev command waitIRq sendData sendLen bf s = Some (f, s')"
proof -
  assume l: "unat sendLen \<le> length sendData"
  let ?s = "PCD_SetRegisterBitMask dev FIFOLevelReg 0x80 (PCD_WriteRegister dev ComIrqReg 0x7F (PCD_WriteRegister dev CommandReg PCD_Idle s))"
  obtain s1 where "PCD_WriteRegister_Buffer dev FIFODataReg sendLen sendData ?s = Some s1" using write_buffer_total [OF l] by blast
  then show ?thesis by (simp add: com_start_def Let_def prod_eq_iff)
qed

lemma result_total:
  assumes "backData io = Some data" "backLen io = Some len" "unat len \<le> length data"
  shows "\<exists>st io' s'. com_result dev e data len io rxAlign checkCRC s = Some (st, io', s') \<and> io_keeps io io'"
proof -
  obtain r io' s1 where r: "com_receive dev data len io rxAlign s = Some (r, io', s1)" "io_keeps io io'"
    using receive_total [OF assms] by blast
  obtain data' len' where d: "backData io' = Some data'" "backLen io' = Some len'" "unat len' \<le> length data'"
    using r(2) assms by (auto simp: io_keeps_def io_ok_def)
  show ?thesis
  proof (cases r)
    case None
    then show ?thesis using r by (simp add: com_result_def)
  next
    case (Some bits)
    then show ?thesis using r d check_total [OF d(3), of dev bits s1] by (auto simp: com_result_def)
  qed
qed

lemma communicate_total:
  assumes "unat sendLen \<le> length sendData" "io_ok io"
  shows "\<exists>st io' s'. PCD_CommunicateWithPICC dev command waitIRq sendData sendLen io rxAlign checkCRC s = Some (st, io', s') \<and> io_keeps io io'"
proof -
  let ?bf = "push_bit 4 rxAlign + (case validBits io of Some b \<Rightarrow> b | None \<Rightarrow> 0)"
  obtain f s1 where s1: "com_start dev command waitIRq sendData sendLen ?bf s = Some (f, s1)"
    using start_total [OF assms(1)] by blast
  obtain e s2 where s2: "PCD_ReadRegister dev ErrorReg s1 = (e, s2)" by fastforce
  show ?thesis
  proof (cases "\<exists>data len. backData io = Some data \<and> backLen io = Some len")
    case True
    then obtain data len where d: "backData io = Some data" "backLen io = Some len" by blast
    then show ?thesis using assms(2) result_total [OF d, of dev e rxAlign checkCRC s2] s1 s2
      by (auto simp: PCD_CommunicateWithPICC_def io_keeps_refl io_ok_def)
  next
    case False
    then show ?thesis using s1 s2 by (auto simp: PCD_CommunicateWithPICC_def io_keeps_refl split: option.splits)
  qed
qed

section \<open>Selecting a card\<close>

lemma prepare_total:
  assumes "length buffer = 9"
  shows "\<exists>r s'. sel_prepare dev known buffer s = Some (r, s') \<and>
     (\<forall>b u i l t. r = Inr (b, u, i, l, t) \<longrightarrow> length b = 9 \<and> u \<le> 9 \<and> i + l = 9 \<and> i \<le> 6 \<and> (32 \<le> known \<longrightarrow> i = 6))"
proof (cases "32 \<le> known")
  case True
  let ?b = "(buffer[1 := 0x70])[6 := buffer ! 2 XOR buffer ! 3 XOR buffer ! 4 XOR buffer ! 5]"
  obtain st crc s1 where c: "PCD_CalculateCRC dev ?b 7 s = Some (st, crc, s1)"
      "st = STATUS_OK \<and> length crc = 2 \<or> st = STATUS_TIMEOUT \<and> crc = []"
    using crc_total [of 7 ?b dev s] assms by auto
  obtain b where b: "c_memcpy ?b 7 crc 0 (length crc) = Some b" "length b = 9"
    using c_memcpy_total [of 7 "length crc" ?b 0 crc] c(2) assms by auto
  show ?thesis using True assms c b by (auto simp: sel_prepare_def c_upd_def c_nth_def)
next
  case False
  then have "known div 8 \<le> 3" by simp
  then show ?thesis using False assms by (auto simp: sel_prepare_def c_upd_def Let_def)
qed

lemma collision_total:
  assumes "length buffer = 9"
  shows "\<exists>e. sel_collision known buffer v = Some e \<and> (\<forall>k b. e = Sel_Again k b \<longrightarrow> length b = 9) \<and> (\<forall>b i l t. e \<noteq> Sel_Done b i l t)"
proof -
  have "unat (v AND 0x1F) \<le> 31" using word_and_le1 [of v "0x1F"] by (simp add: word_le_nat_alt)
  then have "unat (v AND 0x1F) div 8 \<le> 3" by simp
  then show ?thesis using assms by (auto simp: sel_collision_def c_nth_def c_upd_def Let_def)
qed

definition exit_ok :: "sel_exit \<Rightarrow> bool" where
  "exit_ok e = (case e of Sel_Return st \<Rightarrow> True | Sel_Again k b \<Rightarrow> length b = 9 | Sel_Done b i l t \<Rightarrow> length b = 9 \<and> i = 6)"

lemma step_total:
  assumes "length buffer = 9"
  shows "\<exists>e s'. sel_step dev known buffer s = Some (e, s') \<and> exit_ok e"
proof -
  obtain r s1 where r: "sel_prepare dev known buffer s = Some (r, s1)"
      "\<And>b u i l t. r = Inr (b, u, i, l, t) \<Longrightarrow> length b = 9 \<and> u \<le> 9 \<and> i + l = 9 \<and> i \<le> 6 \<and> (32 \<le> known \<longrightarrow> i = 6)"
    using prepare_total [OF assms] by blast
  show ?thesis
  proof (cases r)
    case (Inl st)
    then show ?thesis using r(1) by (simp add: sel_step_def exit_ok_def)
  next
    case (Inr f)
    then obtain b u i l t where f: "r = Inr (b, u, i, l, t)" by (cases f) auto
    note b = r(2) [OF f]
    let ?io = "\<lparr>backData = Some (drop i b), backLen = Some (of_nat l), validBits = Some (of_nat t)\<rparr>"
    let ?s = "PCD_WriteRegister dev BitFramingReg (push_bit 4 (of_nat t) + of_nat t) s1"
    have "unat (of_nat l :: u8) = l" "unat (of_nat u :: u8) = u" using b by (simp_all add: unat_of_nat)
    then have "io_ok ?io" "unat (of_nat u :: u8) \<le> length b" using b by (auto simp: io_ok_def)
    then obtain st io' s2 where t: "PCD_TransceiveData dev b (of_nat u) ?io (of_nat t) False ?s = Some (st, io', s2)" "io_keeps ?io io'"
      using communicate_total by (fastforce simp: PCD_TransceiveData_def)
    obtain data' len' bits' where d: "backData io' = Some data'" "backLen io' = Some len'" "validBits io' = Some bits'"
        "length data' = length (drop i b)"
      using t(2) by (auto simp: io_keeps_def)
    have l9: "length (take i b @ data') = 9" using d(4) b by simp
    obtain v s3 where v: "PCD_ReadRegister dev CollReg s2 = (v, s3)" by fastforce
    obtain e where e: "sel_collision known (take i b @ data') v = Some e" "\<And>k b. e = Sel_Again k b \<Longrightarrow> length b = 9"
        "\<And>b i l t. e \<noteq> Sel_Done b i l t"
      using collision_total [OF l9] by blast
    have "exit_ok e" using e(2,3) by (auto simp: exit_ok_def split: sel_exit.splits)
    then show ?thesis using r(1) f t(1) d l9 v e(1) b by (auto simp: sel_step_def Let_def exit_ok_def)
  qed
qed

lemma loop_total:
  "length buffer = 9 \<Longrightarrow> \<exists>e s'. sel_loop dev known buffer s = Some (e, s') \<and> exit_ok e \<and> (\<forall>k b. e \<noteq> Sel_Again k b)"
proof (induction dev known buffer s rule: sel_loop.induct)
  case (1 dev known buffer s)
  obtain e s' where e: "sel_step dev known buffer s = Some (e, s')" "exit_ok e" using step_total [OF "1.prems"] by blast
  show ?case
  proof (cases e)
    case (Sel_Again k b)
    then show ?thesis using "1.IH" [OF e(1)] e(2) by (subst sel_loop.simps) (simp add: e(1) exit_ok_def)
  qed (use e in \<open>subst sel_loop.simps; simp\<close>)+
qed

lemma setup_total:
  assumes "length buffer = 9" "length (uid_bytes uid) = 10"
  shows "\<exists>b known uidIndex. sel_setup level vb uid buffer = Some (b, known, uidIndex) \<and> length b = 9 \<and> uidIndex \<le> 6"
proof -
  obtain sel j tag where t: "(if level = 1 then (PICC_CMD_SEL_CL1, 0, vb \<noteq> 0 \<and> uid_size uid > 4)
      else if level = 2 then (PICC_CMD_SEL_CL2, 3, vb \<noteq> 0 \<and> uid_size uid > 7) else (PICC_CMD_SEL_CL3, 6, False)) = (sel, j, tag)"
      "j \<le> (6 :: nat)" by (cases "level = 1"; cases "level = 2") auto
  define n where "n = (let k = unat vb - 8 * j; n = k div 8 + (if k mod 8 \<noteq> 0 then 1 else 0); m = (if tag then 3 else 4) in if n > m then m else n)"
  define b where "b = (if tag then buffer[0 := sel, 2 := PICC_CMD_CT] else buffer[0 := sel])"
  have n: "n \<le> (if tag then 3 else 4)" by (simp add: n_def Let_def)
  have l: "length b = 9" by (simp add: b_def assms(1))
  obtain r where r: "c_memcpy b (if tag then 3 else 2) (uid_bytes uid) j n = Some r" "length r = 9"
    using c_memcpy_total [of "if tag then 3 else 2" n b j "uid_bytes uid"] n t(2) l assms(2) by (cases tag) auto
  have b: "c_upd buffer 0 sel \<bind> (\<lambda>buffer. if tag then c_upd buffer 2 PICC_CMD_CT else Some buffer) = Some b"
    using assms(1) by (simp add: b_def c_upd_def)
  have "sel_setup level vb uid buffer = (c_upd buffer 0 sel \<bind> (\<lambda>buffer. if tag then c_upd buffer 2 PICC_CMD_CT else Some buffer)) \<bind>
      (\<lambda>b. c_memcpy b (if tag then 3 else 2) (uid_bytes uid) j n \<bind> (\<lambda>r. Some (r, if tag then unat vb - 8 * j + 8 else unat vb - 8 * j, j)))"
    unfolding sel_setup_def t(1) n_def Let_def prod.case by (simp only: Option.bind_assoc)
  then have "sel_setup level vb uid buffer = Some (r, if tag then unat vb - 8 * j + 8 else unat vb - 8 * j, j)"
    by (simp only: b r(1) bind.bind_lunit)
  then show ?thesis using r(2) t(2) by blast
qed

lemma accept_total:
  assumes "length buffer = 9" "length (uid_bytes uid) = 10" "uidIndex \<le> 6"
  shows "\<exists>r uid' b s'. sel_accept dev uidIndex uid buffer 6 l t s = Some (r, uid', b, s') \<and> length (uid_bytes uid') = 10 \<and> length b = 9"
proof -
  let ?ct = "buffer ! 2 = PICC_CMD_CT"
  obtain bytes where b: "c_memcpy (uid_bytes uid) uidIndex buffer (if ?ct then 3 else 2) (if ?ct then 3 else 4) = Some bytes" "length bytes = 10"
    using c_memcpy_total [of uidIndex "if ?ct then 3 else 4" "uid_bytes uid" "if ?ct then 3 else 2" buffer] assms by (cases ?ct) auto
  obtain st crc s1 where c: "PCD_CalculateCRC dev (drop 6 buffer) 1 s = Some (st, crc, s1)"
      "st = STATUS_OK \<and> length crc = 2 \<or> st = STATUS_TIMEOUT \<and> crc = []"
    using crc_total [of 1 "drop 6 buffer" dev s] assms(1) by auto
  obtain b' where b': "c_memcpy buffer 2 crc 0 (length crc) = Some b'" "length b' = 9"
    using c_memcpy_total [of 2 "length crc" buffer 0 crc] c(2) assms(1) by auto
  show ?thesis using assms(1) b c b' by (auto simp: sel_accept_def c_nth_def Let_def)
qed

lemma level_total:
  assumes "length buffer = 9" "length (uid_bytes uid) = 10"
  shows "\<exists>r uid' b s'. sel_level dev level vb uid buffer s = Some (r, uid', b, s') \<and> length (uid_bytes uid') = 10 \<and> length b = 9"
proof -
  obtain b known uidIndex where b: "sel_setup level vb uid buffer = Some (b, known, uidIndex)" "length b = 9" "uidIndex \<le> 6"
    using setup_total [OF assms] by blast
  obtain e s1 where e: "sel_loop dev known b s = Some (e, s1)" "exit_ok e" "\<And>k b. e \<noteq> Sel_Again k b"
    using loop_total [OF b(2)] by blast
  show ?thesis using e b assms(2) accept_total [OF _ assms(2) b(3)]
    by (cases e) (auto simp: sel_level_def exit_ok_def)
qed

lemma cascade_total:
  "length buffer = 9 \<Longrightarrow> length (uid_bytes uid) = 10 \<Longrightarrow>
   \<exists>st level' uid' s'. sel_cascade dev level vb uid buffer s = Some (st, level', uid', s') \<and> length (uid_bytes uid') = 10"
proof (induction dev level vb uid buffer s rule: sel_cascade.induct)
  case (1 dev level vb uid buffer s)
  obtain r uid' b s' where r: "sel_level dev level vb uid buffer s = Some (r, uid', b, s')" "length (uid_bytes uid') = 10" "length b = 9"
    using level_total [OF "1.prems"] by blast
  show ?case
  proof (cases "level > 3 \<or> r \<noteq> Inr True")
    case True
    then show ?thesis using r "1.prems" by (subst sel_cascade.simps) (auto split: sum.splits bool.splits)
  next
    case False
    then show ?thesis using "1.IH" [OF _ r(1)] r by (subst sel_cascade.simps) auto
  qed
qed

end
