(* ===== verification/Mfrc522_Props.thy ===== *)
theory Mfrc522_Props
  imports Mfrc522_Safe
begin

text \<open>
  Properties of single functions of the reader driver: the bit that is chosen after a collision, the access bits of a sector, value
  blocks, and a reader that does not answer.
\<close>

section \<open>Bits\<close>

lemma below_8: "(n :: nat) < 8 \<Longrightarrow> n = 0 \<or> n = 1 \<or> n = 2 \<or> n = 3 \<or> n = 4 \<or> n = 5 \<or> n = 6 \<or> n = 7"
  by linarith

lemma u8_eqI: "(bit x 0 = bit y 0) \<Longrightarrow> (bit x 1 = bit y 1) \<Longrightarrow> (bit x 2 = bit y 2) \<Longrightarrow> (bit x 3 = bit y 3) \<Longrightarrow>
   (bit x 4 = bit y 4) \<Longrightarrow> (bit x 5 = bit y 5) \<Longrightarrow> (bit x 6 = bit y 6) \<Longrightarrow> (bit x 7 = bit y 7) \<Longrightarrow> x = y" for x y :: u8
  by (rule bit_word_eqI) (use below_8 in auto)

lemma bit_times_2: "bit (x * 2) n \<longleftrightarrow> n \<noteq> 0 \<and> n < 8 \<and> bit x (n - 1)" for x :: u8
  using bit_push_bit_iff [of 1 x n] by (auto simp: push_bit_eq_mult dest: bit_imp_le_length)

lemma no_high_bit: "8 \<le> n \<Longrightarrow> \<not> bit x n" for x :: u8
  using bit_imp_le_length [of x n] by auto

lemma bit_two: "bit x (Suc (Suc 0)) = bit x 2" for x :: u8
  by (simp add: numeral_2_eq_2)

lemma small_bits: "g < 8 \<Longrightarrow> \<not> bit g 3 \<and> \<not> bit g 4 \<and> \<not> bit g 5 \<and> \<not> bit g 6 \<and> \<not> bit g 7" for g :: u8
proof -
  assume "g < 8"
  then have "unat g < 8" by (simp add: word_less_nat_alt)
  from below_8 [OF this] have "g = 0 \<or> g = 1 \<or> g = 2 \<or> g = 3 \<or> g = 4 \<or> g = 5 \<or> g = 6 \<or> g = 7"
    by (simp add: word_unat_eq_iff)
  then show ?thesis by auto
qed

text \<open>Packing two nibbles into a byte.\<close>

lemma nibbles:
  fixes lo hi :: u8
  assumes "\<not> bit lo 4 \<and> \<not> bit lo 5 \<and> \<not> bit lo 6 \<and> \<not> bit lo 7" "\<not> bit hi 4 \<and> \<not> bit hi 5 \<and> \<not> bit hi 6 \<and> \<not> bit hi 7"
  shows "drop_bit 4 (push_bit 4 hi OR lo) = hi" "(push_bit 4 hi OR lo) AND 0xF = lo"
  using assms by (auto intro!: u8_eqI simp: bit_simps no_high_bit)

lemma inverted_nibble: "\<not> bit (NOT c AND 0xF) 4 \<and> \<not> bit (NOT c AND 0xF) 5 \<and> \<not> bit (NOT c AND 0xF) 6 \<and> \<not> bit (NOT c AND 0xF) 7"
  "\<not> bit c 4 \<and> \<not> bit c 5 \<and> \<not> bit c 6 \<and> \<not> bit c 7 \<Longrightarrow> NOT (NOT c AND 0xF) AND 0xF = c" for c :: u8
  by (auto intro!: u8_eqI simp: bit_simps)

definition access_columns :: "u8 \<Rightarrow> u8 \<Rightarrow> u8 \<Rightarrow> u8 \<Rightarrow> u8 list" where
  "access_columns g0 g1 g2 g3 =
     [push_bit 1 (g3 AND 4) OR (g2 AND 4) OR drop_bit 1 (g1 AND 4) OR drop_bit 2 (g0 AND 4),
      push_bit 2 (g3 AND 2) OR push_bit 1 (g2 AND 2) OR (g1 AND 2) OR drop_bit 1 (g0 AND 2),
      push_bit 3 (g3 AND 1) OR push_bit 2 (g2 AND 1) OR push_bit 1 (g1 AND 1) OR (g0 AND 1)]"

lemma columns_small:
  "c \<in> set (access_columns g0 g1 g2 g3) \<Longrightarrow> \<not> bit c 4 \<and> \<not> bit c 5 \<and> \<not> bit c 6 \<and> \<not> bit c 7"
  by (auto simp: access_columns_def bit_simps)

lemma columns_groups:
  assumes "g0 < 8" "g1 < 8" "g2 < 8" "g3 < 8" "access_columns g0 g1 g2 g3 = [c1, c2, c3]"
  shows "push_bit 2 (c1 AND 1) OR push_bit 1 (c2 AND 1) OR (c3 AND 1) = g0"
    "push_bit 1 (c1 AND 2) OR (c2 AND 2) OR drop_bit 1 (c3 AND 2) = g1"
    "(c1 AND 4) OR drop_bit 1 (c2 AND 4) OR drop_bit 2 (c3 AND 4) = g2"
    "drop_bit 1 (c1 AND 8) OR drop_bit 2 (c2 AND 8) OR drop_bit 3 (c3 AND 8) = g3"
  using assms(5) assms(1-4) [THEN small_bits] by (auto intro!: u8_eqI simp: access_columns_def bit_simps bit_times_2 bit_two)

text \<open>C36. The access bits that \<^verbatim>\<open>MIFARE_SetAccessBits\<close> computes for a sector trailer are read back by the sector dump as the same four
  groups, and the dump finds the inverted copies right.\<close>

theorem access_bits_roundtrip:
  assumes "g0 < 8" "g1 < 8" "g2 < 8" "g3 < 8" "length key = 6"
  shows "access_groups (key @ MIFARE_SetAccessBits g0 g1 g2 g3 @ rest) = Some ([g0, g1, g2, g3], False)"
proof -
  obtain c1 c2 c3 where c: "access_columns g0 g1 g2 g3 = [c1, c2, c3]" by (simp add: access_columns_def)
  let ?b6 = "push_bit 4 (NOT c2 AND 0xF) OR (NOT c1 AND 0xF)" and ?b7 = "push_bit 4 c1 OR (NOT c3 AND 0xF)" and ?b8 = "push_bit 4 c3 OR c2"
  have "MIFARE_SetAccessBits g0 g1 g2 g3 = [?b6, ?b7, ?b8]"
    using c by (simp only: MIFARE_SetAccessBits_def access_columns_def Let_def list.inject)
  then have n: "c_nth (key @ MIFARE_SetAccessBits g0 g1 g2 g3 @ rest) 6 = Some ?b6"
    "c_nth (key @ MIFARE_SetAccessBits g0 g1 g2 g3 @ rest) 7 = Some ?b7"
    "c_nth (key @ MIFARE_SetAccessBits g0 g1 g2 g3 @ rest) 8 = Some ?b8"
    using assms(5) by (simp_all add: c_nth_def nth_append)
  have s: "\<not> bit c1 4 \<and> \<not> bit c1 5 \<and> \<not> bit c1 6 \<and> \<not> bit c1 7" "\<not> bit c2 4 \<and> \<not> bit c2 5 \<and> \<not> bit c2 6 \<and> \<not> bit c2 7"
    "\<not> bit c3 4 \<and> \<not> bit c3 5 \<and> \<not> bit c3 6 \<and> \<not> bit c3 7"
    using columns_small [of _ g0 g1 g2 g3] by (simp_all add: c)
  note i = inverted_nibble(1)
  note d = nibbles [OF i [of c1] i [of c2]] nibbles [OF i [of c3] s(1)] nibbles [OF s(2,3)] inverted_nibble(2) [OF s(1)]
    inverted_nibble(2) [OF s(2)] inverted_nibble(2) [OF s(3)]
  show ?thesis unfolding access_groups_def n Let_def by (simp only: d bind.bind_lunit columns_groups [OF assms(1-4) c] simp_thms)
qed

theorem access_bits_roundtrip_witness:
  "access_groups (replicate 6 0 @ MIFARE_SetAccessBits 0 6 1 4 @ replicate 7 0xFF) = Some ([0, 6, 1, 4], False)"
  by (rule access_bits_roundtrip) simp_all

section \<open>Value blocks\<close>

lemma value_bytes:
  "ucast (v AND 0xFF) = (ucast v :: u8)" "ucast (drop_bit 8 (v AND 0xFF00)) = (ucast (drop_bit 8 v) :: u8)"
  "ucast (drop_bit 16 (v AND 0xFF0000)) = (ucast (drop_bit 16 v) :: u8)"
  "ucast (drop_bit 24 (v AND 0xFF000000)) = (ucast (drop_bit 24 v) :: u8)" for v :: u32
  by (auto intro!: u8_eqI simp: bit_simps)

lemma join_bytes:
  "push_bit 24 (ucast (ucast (drop_bit 24 v) :: u8)) OR push_bit 16 (ucast (ucast (drop_bit 16 v) :: u8)) OR
   push_bit 8 (ucast (ucast (drop_bit 8 v) :: u8)) OR ucast (ucast v :: u8) = v" for v :: u32
proof (rule bit_word_eqI)
  fix n :: nat
  assume "n < LENGTH(32)"
  then show "bit (push_bit 24 (ucast (ucast (drop_bit 24 v) :: u8)) OR push_bit 16 (ucast (ucast (drop_bit 16 v) :: u8)) OR
     push_bit 8 (ucast (ucast (drop_bit 8 v) :: u8)) OR ucast (ucast v :: u8) :: u32) n = bit v n"
    by (cases "n < 8"; cases "n < 16"; cases "n < 24") (auto simp: bit_simps)
qed

text \<open>The value that \<^verbatim>\<open>MIFARE_SetValue\<close> puts into a block is the value that \<^verbatim>\<open>MIFARE_GetValue\<close> takes out of it, for every 32-bit
  value, and the block has the redundancy of a value block: the value, its complement, the value again, and the address twice with
  its complement.\<close>

theorem value_block_roundtrip:
  "block_value (value_block a v) = Some v \<and> length (value_block a v) = 16 \<and>
   take 4 (value_block a v) = le_bytes v \<and> take 4 (drop 4 (value_block a v)) = map NOT (le_bytes v) \<and>
   take 4 (drop 8 (value_block a v)) = le_bytes v \<and> drop 12 (value_block a v) = [a, NOT a, a, NOT a]"
  unfolding value_block_def Let_def value_bytes
  by (simp add: block_value_def c_nth_def le_bytes_def join_bytes)

section \<open>Collisions\<close>

lemma position_div:
  "p mod 8 = 0 \<Longrightarrow> 0 < p \<Longrightarrow> Suc ((p - 1) div 8) = p div 8 \<and> (p - 1) mod 8 = 7"
  "p mod 8 \<noteq> 0 \<Longrightarrow> (p - 1) div 8 = p div 8 \<and> (p - 1) mod 8 = p mod 8 - 1" for p :: nat
proof -
  show "Suc ((p - 1) div 8) = p div 8 \<and> (p - 1) mod 8 = 7" if "p mod 8 = 0" "0 < p"
  proof -
    define q where "q = p div 8 - 1"
    have m: "p = 8 * (p div 8)" using mod_mult_div_eq [of p 8] that(1) by simp
    then have "0 < p div 8" using that(2) by (metis mult_0_right neq0_conv)
    then have q: "p div 8 = Suc q" by (simp add: q_def)
    with m have p: "p = 8 * Suc q" by metis
    have "(7 + 8 * q) div 8 = q" "(7 + 8 * q) mod 8 = 7" by simp_all
    moreover have "p - 1 = 7 + 8 * q" unfolding p by simp
    ultimately show ?thesis using q by metis
  qed
  show "(p - 1) div 8 = p div 8 \<and> (p - 1) mod 8 = p mod 8 - 1" if "p mod 8 \<noteq> 0"
  proof -
    define q r where "q = p div 8" and "r = p mod 8 - 1"
    have "p mod 8 = Suc r" "r < 7" using that mod_less_divisor [of 8 p] by (simp_all add: r_def)
    then have "p = Suc r + 8 * q" using mod_mult_div_eq [of p 8] by (simp add: q_def)
    then show ?thesis using \<open>r < 7\<close> by simp
  qed
qed

text \<open>C37. The bit chosen after a collision. The cards transmit the bits of a cascade level from position 1 on, so position \<open>p\<close> is
  bit \<open>(p - 1) mod 8\<close> of byte \<open>2 + (p - 1) div 8\<close> of the buffer. The driver sets this bit only when \<open>p\<close> is not the first or the
  last position of a byte; for a first position it changes the byte before (for position 1 the length field), for a last position
  the byte after.\<close>

theorem collision_bit:
  assumes "length buffer = 9" "known < p" "p \<le> 32" "v AND 0x20 = 0" "unat (v AND 0x1F) = p mod 32"
  shows "\<exists>i. sel_collision known buffer v = Some (Sel_Again p (buffer[i := buffer ! i OR push_bit ((p - 1) mod 8) 1])) \<and>
     i = (if p mod 8 = 1 then 1 + (p - 1) div 8 else if p mod 8 = 0 then 3 + (p - 1) div 8 else 2 + (p - 1) div 8)"
proof -
  have p: "(if p mod 32 = 0 then 32 else p mod 32) = p" using assms(2,3) by (cases "p = 32") auto
  let ?i = "1 + p div 8 + (if (p - 1) mod 8 \<noteq> 0 then 1 else 0)"
  have i: "?i = (if p mod 8 = 1 then 1 + (p - 1) div 8 else if p mod 8 = 0 then 3 + (p - 1) div 8 else 2 + (p - 1) div 8)"
    using assms(2) position_div [of p] by (cases "p mod 8 = 0") auto
  have "p div 8 \<le> 4" using assms(3) by simp
  then have "?i < 9" by simp
  moreover have "\<not> p \<le> known" using assms(2) by simp
  ultimately have "sel_collision known buffer v = Some (Sel_Again p (buffer[?i := buffer ! ?i OR push_bit ((p - 1) mod 8) 1]))"
    unfolding sel_collision_def assms(5) Let_def p using assms(1,4) by (simp add: c_nth_def c_upd_def)
  then show ?thesis using i by metis
qed

theorem collision_bit_witness:
  "\<exists>i. sel_collision 0 (replicate 9 0) 8 = Some (Sel_Again 8 ((replicate 9 0)[i := replicate 9 0 ! i OR push_bit 7 1])) \<and> i = 3"
  using collision_bit [of "replicate 9 0" 0 8 8] by simp

section \<open>No reader\<close>

text \<open>Every byte that is received is \<open>x\<close>: the data line is not driven.\<close>

definition line_reads :: "'c spi_bus \<Rightarrow> u8 \<Rightarrow> bool" where
  "line_reads dev x \<longleftrightarrow> (\<forall>c b. fst (spi_xfer dev c b) = x)"

lemma SPIrw_line: "line_reads dev x \<Longrightarrow> fst (MFRC522_SPIrw dev b s) = x"
  by (simp add: line_reads_def MFRC522_SPIrw_def split: prod.splits) (metis fst_conv)

lemma read_line: "line_reads dev x \<Longrightarrow> fst (PCD_ReadRegister dev reg s) = x"
  using SPIrw_line [of dev x 0] by (auto simp: PCD_ReadRegister_def Let_def split: prod.splits) (metis fst_conv)

lemma reset_wait_stuck:
  assumes "line_reads dev x" "bit x 4"
  shows "reset_wait dev s = None"
proof -
  have b: "x AND push_bit 4 1 \<noteq> 0" using assms(2) and_exp_eq_0_iff_not_bit [of x 4] by simp
  have never: "d = dev \<longrightarrow> False" if "reset_wait d s = Some r" for d s r
  proof (rule reset_wait.raw_induct [where P = "\<lambda>d s r. d = dev \<longrightarrow> False", OF _ that])
    fix f d s r
    assume ih: "\<And>d s r. f d s = Some r \<Longrightarrow> d = dev \<longrightarrow> False"
      and body: "(let (v, s) = PCD_ReadRegister d CommandReg s in if v AND push_bit 4 1 \<noteq> 0 then f d s else Some s) = Some r"
    show "d = dev \<longrightarrow> False"
    proof
      assume d: "d = dev"
      obtain s1 where "PCD_ReadRegister dev CommandReg s = (x, s1)" using read_line [OF assms(1), of CommandReg s] by (cases "PCD_ReadRegister dev CommandReg s") auto
      then have "f d s1 = Some r" using body b d by simp
      then show False using ih d by blast
    qed
  qed
  then show ?thesis by (cases "reset_wait dev s") auto
qed

lemma com_wait_zero: "line_reads dev 0 \<Longrightarrow> \<not> fst (com_wait dev w i s)"
proof (induction i arbitrary: s)
  case (Suc i)
  obtain s1 where "PCD_ReadRegister dev ComIrqReg s = (0, s1)"
    using read_line [OF Suc.prems, of ComIrqReg s] by (cases "PCD_ReadRegister dev ComIrqReg s") auto
  then show ?case using Suc by simp
qed simp

lemma communicate_zero:
  assumes "line_reads dev 0" "unat n \<le> length data"
  shows "\<exists>s'. PCD_CommunicateWithPICC dev cmd w data n io rx chk s = Some (STATUS_TIMEOUT, io, s')"
proof -
  let ?bf = "push_bit 4 rx + (case validBits io of Some b \<Rightarrow> b | None \<Rightarrow> 0)"
  obtain f s1 where s1: "com_start dev cmd w data n ?bf s = Some (f, s1)" using start_total [OF assms(2)] by blast
  then have "\<not> f" using com_wait_zero [OF assms(1), of w 2000] by (auto simp: com_start_def Let_def split: Option.bind_splits) (metis fst_conv)
  then show ?thesis using s1 by (simp add: PCD_CommunicateWithPICC_def)
qed

text \<open>C38. A reader that is not connected. When the data line reads as zeros, \<^verbatim>\<open>PCD_Init\<close> returns and no card is ever found. When it
  reads as ones, \<^verbatim>\<open>PCD_Init\<close> and \<^verbatim>\<open>PCD_PerformSelfTest\<close> never return: the loop after the soft reset has no limit.\<close>

theorem reader_not_connected:
  "(line_reads dev 0xFF \<longrightarrow> PCD_Init dev True s = None \<and> PCD_PerformSelfTest dev s = None) \<and>
   (line_reads dev 0 \<longrightarrow> (\<exists>s'. PCD_Init dev True s = Some s') \<and> (\<exists>s'. PICC_IsNewCardPresent dev s = Some (False, s')))"
proof (intro conjI impI)
  assume l: "line_reads dev 0xFF"
  have "PCD_Reset dev s = None" for s using reset_wait_stuck [OF l] by (simp add: PCD_Reset_def)
  then show "PCD_Init dev True s = None" "PCD_PerformSelfTest dev s = None"
    by (simp_all add: PCD_Init_def PCD_PerformSelfTest_def)
next
  assume l: "line_reads dev 0"
  have "\<exists>s'. PCD_Reset dev s = Some s'" for s
  proof -
    let ?s = "PCD_WriteRegister dev CommandReg PCD_SoftReset s"
    obtain s1 where "PCD_ReadRegister dev CommandReg ?s = (0, s1)"
      using read_line [OF l, of CommandReg ?s] by (cases "PCD_ReadRegister dev CommandReg ?s") auto
    then show ?thesis by (simp add: PCD_Reset_def reset_wait.simps [of dev ?s])
  qed
  then show "\<exists>s'. PCD_Init dev True s = Some s'"
    by (simp add: PCD_Init_def Let_def) (metis bind.bind_lunit)
  show "\<exists>s'. PICC_IsNewCardPresent dev s = Some (False, s')"
    using communicate_zero [OF l, of 1 "[PICC_CMD_REQA]" PCD_Transceive "0x30" "\<lparr>backData = Some [0, 0], backLen = Some 2, validBits = Some 7\<rparr>" 0 False
        "PCD_ClearRegisterBitMask dev CollReg 0x80 s"]
    by (auto simp: PICC_IsNewCardPresent_def PICC_RequestA_def PICC_REQA_or_WUPA_def PCD_TransceiveData_def)
qed

definition floating :: "u8 \<Rightarrow> unit spi_bus" where
  "floating x = \<lparr>spi_xfer = (\<lambda>c b. (x, c)), spi_cs_lo = (\<lambda>c. c), spi_cs_hi = (\<lambda>c. c)\<rparr>"

definition mf0 :: "'c \<Rightarrow> 'c mfrc522" where
  "mf0 c = \<lparr>mf_chip = c, mf_uid = \<lparr>uid_size = 0, uid_bytes = replicate 10 0, uid_sak = 0\<rparr>, mf_out = []\<rparr>"

theorem reader_not_connected_witness:
  "PCD_Init (floating 0xFF) True (mf0 ()) = None \<and> (\<exists>s'. PICC_IsNewCardPresent (floating 0) (mf0 ()) = Some (False, s'))"
  using reader_not_connected [of "floating 0xFF" "mf0 ()"] reader_not_connected [of "floating 0" "mf0 ()"]
  by (simp add: line_reads_def floating_def)

section \<open>Any chip\<close>

text \<open>C34. Selecting a card is safe whatever the chip and the cards answer. For every behaviour of the chip, every first contents
  of the nine-byte buffer, every known identification and number of known bits, \<^verbatim>\<open>PICC_Select\<close> returns: the
  anticollision and the cascade loops end, no byte is read or written outside the buffer or the identification, and the
  identification keeps its ten bytes.\<close>

theorem picc_select_safe:
  assumes "length buf0 = 9" "length (uid_bytes uid) = 10"
  shows "\<exists>st uid' s'. PICC_Select dev buf0 uid vb s = Some (st, uid', s') \<and> length (uid_bytes uid') = 10"
  using cascade_total [OF assms, of dev 1 vb "PCD_ClearRegisterBitMask dev CollReg 0x80 s"] assms(2)
  by (auto simp: PICC_Select_def Let_def)

theorem picc_select_safe_witness:
  "\<exists>st uid' s'. PICC_Select (floating 0xFF) (replicate 9 0) (mf_uid (mf0 ())) 80 (mf0 ()) = Some (st, uid', s') \<and> length (uid_bytes uid') = 10"
  by (rule picc_select_safe) (simp_all add: mf0_def)

end
