(* ===== verification/Mfrc522_Link.thy ===== *)
theory Mfrc522_Link
  imports Mfrc522_Props
begin

text \<open>
  The reader driver with a chip and a card that behave as documented. The locale \<open>rfid_link\<close> is the contract: the CRC coprocessor
  computes \<open>crc\<close>, a frame is sent to the card, and its answer is put into the FIFO. Its lemmas give the exchanges, the selection of a
  card and value blocks. A simulated chip (FIFO, CRC coprocessor, transceiver, byte-level SPI) with any card satisfies it.
\<close>

section \<open>The contract\<close>

text \<open>\<open>up c\<close>: the chip is idle; \<open>card c\<close>: the state of the card; \<open>got c (reply, bits)\<close>: an answer waits in the FIFO. The card in state
  \<open>k\<close> answers to a frame with \<open>answer k frame bits\<close> (\<open>bits\<close> of the last byte are sent, 0 for all) and goes to \<open>after k frame bits\<close>.\<close>

locale rfid_link =
  fixes dev :: "'c spi_bus" and up :: "'c \<Rightarrow> bool" and card :: "'c \<Rightarrow> 'k" and got :: "'c \<Rightarrow> u8 list \<times> u8 \<Rightarrow> bool"
    and crc :: "u8 list \<Rightarrow> u8 list" and answer :: "'k \<Rightarrow> u8 list \<Rightarrow> u8 \<Rightarrow> (u8 list \<times> u8) option" and after :: "'k \<Rightarrow> u8 list \<Rightarrow> u8 \<Rightarrow> 'k"
  assumes crc_length: "length (crc bs) = 2"
    and calculate: "up (mf_chip s) \<Longrightarrow> unat n \<le> length data \<Longrightarrow> unat n \<le> 64 \<Longrightarrow>
      \<exists>c. PCD_CalculateCRC dev data n s = Some (STATUS_OK, crc (take (unat n) data), s\<lparr>mf_chip := c\<rparr>) \<and> up c \<and> card c = card (mf_chip s)"
    and transmit: "up (mf_chip s) \<Longrightarrow> unat n \<le> length data \<Longrightarrow> unat n \<le> 64 \<Longrightarrow> answer (card (mf_chip s)) (take (unat n) data) (bf AND 0x07) = Some r \<Longrightarrow>
      \<exists>c. com_start dev PCD_Transceive 0x30 data n bf s = Some (True, s\<lparr>mf_chip := c\<rparr>) \<and> got c r \<and>
        card c = after (card (mf_chip s)) (take (unat n) data) (bf AND 0x07)"
    and no_answer: "up (mf_chip s) \<Longrightarrow> unat n \<le> length data \<Longrightarrow> unat n \<le> 64 \<Longrightarrow> answer (card (mf_chip s)) (take (unat n) data) (bf AND 0x07) = None \<Longrightarrow>
      \<exists>c. com_start dev PCD_Transceive 0x30 data n bf s = Some (False, s\<lparr>mf_chip := c\<rparr>) \<and> up c \<and>
        card c = after (card (mf_chip s)) (take (unat n) data) (bf AND 0x07)"
    and no_error: "got (mf_chip s) r \<Longrightarrow>
      \<exists>c. PCD_ReadRegister dev ErrorReg s = (0, s\<lparr>mf_chip := c\<rparr>) \<and> got c r \<and> card c = card (mf_chip s)"
    and receive: "got (mf_chip s) (reply, bits) \<Longrightarrow> length reply \<le> unat len \<Longrightarrow> unat len \<le> length data \<Longrightarrow>
      \<exists>c. com_receive dev data len io 0 s = Some (Some bits, io\<lparr>backData := Some (reply @ drop (length reply) data),
          backLen := Some (of_nat (length reply)), validBits := (if validBits io \<noteq> None then Some bits else None)\<rparr>, s\<lparr>mf_chip := c\<rparr>) \<and>
        up c \<and> card c = card (mf_chip s)"
    and framing: "up (mf_chip s) \<Longrightarrow> v AND 0x80 = 0 \<Longrightarrow>
      \<exists>c. PCD_WriteRegister dev BitFramingReg v s = s\<lparr>mf_chip := c\<rparr> \<and> up c \<and> card c = card (mf_chip s)"
    and collisions: "up (mf_chip s) \<Longrightarrow>
      \<exists>c. PCD_ClearRegisterBitMask dev CollReg 0x80 s = s\<lparr>mf_chip := c\<rparr> \<and> up c \<and> card c = card (mf_chip s)"

lemma u8_of_nat: "k < 256 \<Longrightarrow> unat (of_nat k :: u8) = k"
  by (simp add: unat_of_nat)

context rfid_link
begin

text \<open>The chip is idle again, with the card in state \<open>k\<close>.\<close>

definition idle :: "'k \<Rightarrow> 'c mfrc522 \<Rightarrow> 'c mfrc522 \<Rightarrow> bool" where
  "idle k s s' \<longleftrightarrow> (\<exists>c. s' = s\<lparr>mf_chip := c\<rparr> \<and> up c \<and> card c = k)"

lemma exchange:
  assumes "up (mf_chip s)" "unat n \<le> length data" "unat n \<le> 64" "validBits io = Some tx \<or> validBits io = None \<and> tx = 0" "tx < 8"
    "answer (card (mf_chip s)) (take (unat n) data) tx = Some (reply, bits)"
    "backData io = Some d" "backLen io = Some len" "length reply \<le> unat len" "unat len \<le> length d"
  shows "\<exists>s'. PCD_CommunicateWithPICC dev PCD_Transceive 0x30 data n io 0 False s =
      Some (STATUS_OK, io\<lparr>backData := Some (reply @ drop (length reply) d), backLen := Some (of_nat (length reply)),
        validBits := (if validBits io \<noteq> None then Some bits else None)\<rparr>, s') \<and>
      idle (after (card (mf_chip s)) (take (unat n) data) tx) s s'"
proof -
  have bf: "push_bit 4 0 + (case validBits io of Some b \<Rightarrow> b | None \<Rightarrow> 0) = tx" "tx AND 0x07 = tx"
    using assms(4,5) small_bits [OF assms(5)] by (auto intro!: u8_eqI simp: bit_simps)
  obtain c1 where c1: "com_start dev PCD_Transceive 0x30 data n tx s = Some (True, s\<lparr>mf_chip := c1\<rparr>)" "got c1 (reply, bits)"
      "card c1 = after (card (mf_chip s)) (take (unat n) data) tx"
    using transmit [OF assms(1-3), of tx] assms(6) bf(2) by auto
  obtain c2 where c2: "PCD_ReadRegister dev ErrorReg (s\<lparr>mf_chip := c1\<rparr>) = (0, s\<lparr>mf_chip := c2\<rparr>)" "got c2 (reply, bits)" "card c2 = card c1"
    using no_error [of "s\<lparr>mf_chip := c1\<rparr>"] c1(2) by auto
  show ?thesis
    using receive [of "s\<lparr>mf_chip := c2\<rparr>" reply bits len d io] c2 assms(7-10) bf(1) c1
    by (auto simp: PCD_CommunicateWithPICC_def com_result_def idle_def)
qed

lemma exchange_checked:
  assumes "up (mf_chip s)" "unat n \<le> length data" "validBits io = None"
    "answer (card (mf_chip s)) (take (unat n) data) 0 = Some (body @ crc body, 0)"
    "backData io = Some d" "backLen io = Some len" "length body + 2 \<le> unat len" "unat len \<le> length d" "unat n \<le> 64" "length body \<le> 62"
  shows "\<exists>s'. PCD_CommunicateWithPICC dev PCD_Transceive 0x30 data n io 0 True s =
      Some (STATUS_OK, io\<lparr>backData := Some (body @ crc body @ drop (length body + 2) d), backLen := Some (of_nat (length body + 2))\<rparr>, s') \<and>
      idle (after (card (mf_chip s)) (take (unat n) data) 0) s s'"
proof -
  have bf: "push_bit 4 0 + (case validBits io of Some b \<Rightarrow> b | None \<Rightarrow> 0) = (0 :: u8)" using assms(3) by simp
  let ?r = "body @ crc body"
  have l: "length ?r = length body + 2" by (simp add: crc_length)
  obtain c1 where c1: "com_start dev PCD_Transceive 0x30 data n 0 s = Some (True, s\<lparr>mf_chip := c1\<rparr>)" "got c1 (?r, 0)"
      "card c1 = after (card (mf_chip s)) (take (unat n) data) 0"
    using transmit [OF assms(1,2,9), of 0] assms(4) by auto
  obtain c2 where c2: "PCD_ReadRegister dev ErrorReg (s\<lparr>mf_chip := c1\<rparr>) = (0, s\<lparr>mf_chip := c2\<rparr>)" "got c2 (?r, 0)" "card c2 = card c1"
    using no_error [of "s\<lparr>mf_chip := c1\<rparr>"] c1(2) by auto
  let ?d = "?r @ drop (length ?r) d" and ?n = "of_nat (length body + 2) :: u8"
  obtain c3 where c3: "com_receive dev d len io 0 (s\<lparr>mf_chip := c2\<rparr>) = Some (Some 0, io\<lparr>backData := Some ?d, backLen := Some ?n\<rparr>, s\<lparr>mf_chip := c3\<rparr>)"
      "up c3" "card c3 = card c2"
    using receive [of "s\<lparr>mf_chip := c2\<rparr>" ?r 0 len d io] c2 assms(3,7,8) l by (auto simp del: of_nat_add)
  have "length body + 2 < 256" using assms(7) unat_u8_lt [of len] by simp
  then have un: "unat ?n = length body + 2" by (rule u8_of_nat)
  then have n2: "\<not> ?n < 2" by (simp add: word_less_nat_alt del: of_nat_add)
  have n2': "unat (?n - 2) = length body" using u8_of_nat [of "length body"] \<open>length body + 2 < 256\<close> by simp
  obtain c4 where c4: "PCD_CalculateCRC dev ?d (?n - 2) (s\<lparr>mf_chip := c3\<rparr>) = Some (STATUS_OK, crc body, s\<lparr>mf_chip := c4\<rparr>)" "up c4" "card c4 = card c3"
    using calculate [of "s\<lparr>mf_chip := c3\<rparr>" "?n - 2" ?d] c3(2) n2' assms(10) by (auto simp del: of_nat_add)
  obtain a b where ab: "crc body = [a, b]" using crc_length [of body] by (auto simp: length_Suc_conv numeral_2_eq_2)
  have "com_check dev ?d ?n 0 (s\<lparr>mf_chip := c3\<rparr>) = Some (STATUS_OK, s\<lparr>mf_chip := c4\<rparr>)"
    using n2 c4(1) un by (simp add: com_check_def ab c_nth_def nth_append del: of_nat_add)
  then show ?thesis using c1 c2 c3 c4 bf assms(5,6) l
    by (auto simp: PCD_CommunicateWithPICC_def com_result_def idle_def simp del: of_nat_add)
qed

end

section \<open>Selecting\<close>

definition xor4 :: "u8 list \<Rightarrow> u8" where
  "xor4 cl = cl ! 0 XOR cl ! 1 XOR cl ! 2 XOR cl ! 3"

fun PICC_SEL :: "nat \<Rightarrow> u8" where
  "PICC_SEL l = (if l = 1 then PICC_CMD_SEL_CL1 else if l = 2 then PICC_CMD_SEL_CL2 else PICC_CMD_SEL_CL3)"

declare PICC_SEL.simps [simp del]

text \<open>The identification after a cascade level: the bytes after a cascade tag, or all four, from index \<open>i\<close> on.\<close>

definition stored_uid :: "Uid \<Rightarrow> nat \<Rightarrow> u8 list \<Rightarrow> u8 \<Rightarrow> Uid" where
  "stored_uid u i cl sak =
     (let ub = take i (uid_bytes u) @ (if hd cl = PICC_CMD_CT then tl cl @ drop (i + 3) (uid_bytes u) else cl @ drop (i + 4) (uid_bytes u));
          u = u\<lparr>uid_bytes := ub\<rparr>
      in if sak AND 0x04 \<noteq> 0 then u else u\<lparr>uid_sak := sak\<rparr>)"

text \<open>The card at a cascade level: it answers the anticollision frame with its four bytes and their check byte, the select frame with
  \<open>sak\<close>, and goes from state \<open>k\<close> to \<open>k'\<close>.\<close>

definition answers_level ::
  "(u8 list \<Rightarrow> u8 list) \<Rightarrow> ('k \<Rightarrow> u8 list \<Rightarrow> u8 \<Rightarrow> (u8 list \<times> u8) option) \<Rightarrow> ('k \<Rightarrow> u8 list \<Rightarrow> u8 \<Rightarrow> 'k) \<Rightarrow>
   nat \<Rightarrow> u8 list \<Rightarrow> u8 \<Rightarrow> 'k \<Rightarrow> 'k \<Rightarrow> bool" where
  "answers_level crc answer after l cl sak k k' \<longleftrightarrow>
     (let f1 = [PICC_SEL l, 0x20]; k1 = after k f1 0; f2 = [PICC_SEL l, 0x70] @ cl @ [xor4 cl] in
      answer k f1 0 = Some (cl @ [xor4 cl], 0) \<and> answer k1 (f2 @ crc f2) 0 = Some ([sak] @ crc [sak], 0) \<and> after k1 (f2 @ crc f2) 0 = k')"

text \<open>A card with the identification \<open>uid\<close> from level \<open>l\<close> on, as ISO/IEC 14443-3 has it: three bytes after a cascade tag while
  the identification is longer, four bytes that do not start with the cascade tag at the last level.\<close>

inductive selects ::
  "(u8 list \<Rightarrow> u8 list) \<Rightarrow> ('k \<Rightarrow> u8 list \<Rightarrow> u8 \<Rightarrow> (u8 list \<times> u8) option) \<Rightarrow> ('k \<Rightarrow> u8 list \<Rightarrow> u8 \<Rightarrow> 'k) \<Rightarrow>
   u8 list \<Rightarrow> u8 \<Rightarrow> nat \<Rightarrow> 'k \<Rightarrow> 'k \<Rightarrow> bool"
  for crc answer after uid sak where
  last_level: "length uid = 3 * l + 1 \<Longrightarrow> 1 \<le> l \<Longrightarrow> l \<le> 3 \<Longrightarrow> uid ! (3 * l - 3) \<noteq> PICC_CMD_CT \<Longrightarrow> sak AND 0x04 = 0 \<Longrightarrow>
     answers_level crc answer after l (drop (3 * l - 3) uid) sak k k' \<Longrightarrow> selects crc answer after uid sak l k k'"
| next_level: "3 * l + 1 < length uid \<Longrightarrow> 1 \<le> l \<Longrightarrow> sk AND 0x04 \<noteq> 0 \<Longrightarrow>
     answers_level crc answer after l (PICC_CMD_CT # take 3 (drop (3 * l - 3) uid)) sk k k1 \<Longrightarrow>
     selects crc answer after uid sak (l + 1) k1 k' \<Longrightarrow> selects crc answer after uid sak l k k'"

context rfid_link
begin

lemma sel_anticollision:
  assumes "up (mf_chip s)" "length buffer = 9" "buffer ! 0 = PICC_SEL l" "length cl = 4"
    "answer (card (mf_chip s)) [PICC_SEL l, 0x20] 0 = Some (cl @ [xor4 cl], 0)"
  shows "\<exists>s' z. sel_step dev 0 buffer s = Some (Sel_Again 32 ([PICC_SEL l, 0x20] @ cl @ [xor4 cl] @ z), s') \<and> length z = 2 \<and>
    idle (after (card (mf_chip s)) [PICC_SEL l, 0x20] 0) s s'"
proof -
  let ?b = "buffer[1 := 0x20]"
  obtain x y r where xy: "buffer = x # y # r" "length r = 7" using assms(2) by (auto simp: length_Suc_conv numeral_eq_Suc)
  have b: "take 2 ?b = [PICC_SEL l, 0x20]" "drop 2 ?b = r" using xy assms(3) by simp_all
  have p: "sel_prepare dev 0 buffer s = Some (Inr (?b, 2, 2, 7, 0), s)" using assms(2) by (simp add: sel_prepare_def c_upd_def push_bit_eq_mult)
  obtain c where c: "PCD_WriteRegister dev BitFramingReg 0 s = s\<lparr>mf_chip := c\<rparr>" "up c" "card c = card (mf_chip s)"
    using framing [OF assms(1), of 0] by auto
  let ?io = "\<lparr>backData = Some r, backLen = Some 7, validBits = Some 0\<rparr>"
  obtain s' where s': "PCD_CommunicateWithPICC dev PCD_Transceive 0x30 ?b 2 ?io 0 False (s\<lparr>mf_chip := c\<rparr>) =
      Some (STATUS_OK, ?io\<lparr>backData := Some ((cl @ [xor4 cl]) @ drop 5 r), backLen := Some 5, validBits := Some 0\<rparr>, s')"
      "idle (after (card c) [PICC_SEL l, 0x20] 0) (s\<lparr>mf_chip := c\<rparr>) s'"
    using exchange [of "s\<lparr>mf_chip := c\<rparr>" 2 ?b ?io 0 "cl @ [xor4 cl]" 0 r 7] c assms(2,4,5) b xy(2) by auto
  have "sel_step dev 0 buffer s = Some (Sel_Again 32 ([PICC_SEL l, 0x20] @ cl @ [xor4 cl] @ drop 5 r), s')"
    using p c(1) s'(1) b by (simp add: sel_step_def PCD_TransceiveData_def)
  then show ?thesis using s'(2) c(3) xy(2) by (auto simp: idle_def)
qed

lemma sel_select:
  assumes "up (mf_chip s)" "length cl = 4" "length z = 2" "l \<le> 3"
    "answer (card (mf_chip s)) (([PICC_SEL l, 0x70] @ cl @ [xor4 cl]) @ crc ([PICC_SEL l, 0x70] @ cl @ [xor4 cl])) 0 = Some ([sak] @ crc [sak], 0)"
  shows "\<exists>s'. sel_step dev 32 ([PICC_SEL l, 0x20] @ cl @ [xor4 cl] @ z) s =
      Some (Sel_Done ([PICC_SEL l, 0x70] @ cl @ [sak] @ crc [sak]) 6 3 0, s') \<and>
    idle (after (card (mf_chip s)) (([PICC_SEL l, 0x70] @ cl @ [xor4 cl]) @ crc ([PICC_SEL l, 0x70] @ cl @ [xor4 cl])) 0) s s'"
proof -
  let ?f = "[PICC_SEL l, 0x70] @ cl @ [xor4 cl]" and ?r = "[sak] @ crc [sak]"
  obtain c0 c1 c2 c3 where cl: "cl = [c0, c1, c2, c3]" using assms(2) by (auto simp: length_Suc_conv numeral_eq_Suc)
  obtain z0 z1 where z: "z = [z0, z1]" using assms(3) by (auto simp: length_Suc_conv numeral_eq_Suc)
  obtain q0 q1 where q: "crc ?f = [q0, q1]" using crc_length [of ?f] by (auto simp: length_Suc_conv numeral_2_eq_2)
  obtain t0 t1 where t: "crc [sak] = [t0, t1]" using crc_length [of "[sak]"] by (auto simp: length_Suc_conv numeral_2_eq_2)
  obtain c where c: "PCD_CalculateCRC dev (?f @ z) 7 s = Some (STATUS_OK, crc ?f, s\<lparr>mf_chip := c\<rparr>)" "up c" "card c = card (mf_chip s)"
    using calculate [OF assms(1), of 7 "?f @ z"] cl z by auto
  have p: "sel_prepare dev 32 ([PICC_SEL l, 0x20] @ cl @ [xor4 cl] @ z) s = Some (Inr (?f @ crc ?f, 9, 6, 3, 0), s\<lparr>mf_chip := c\<rparr>)"
    using c(1) q cl z by (simp add: sel_prepare_def c_upd_def c_nth_def c_memcpy_def xor4_def)
  obtain c' where c': "PCD_WriteRegister dev BitFramingReg 0 (s\<lparr>mf_chip := c\<rparr>) = s\<lparr>mf_chip := c'\<rparr>" "up c'" "card c' = card (mf_chip s)"
    using framing [of "s\<lparr>mf_chip := c\<rparr>" 0] c by auto
  let ?io = "\<lparr>backData = Some (drop 6 (?f @ crc ?f)), backLen = Some 3, validBits = Some 0\<rparr>"
  obtain s' where s': "PCD_CommunicateWithPICC dev PCD_Transceive 0x30 (?f @ crc ?f) 9 ?io 0 False (s\<lparr>mf_chip := c'\<rparr>) =
      Some (STATUS_OK, ?io\<lparr>backData := Some ?r, backLen := Some 3, validBits := Some 0\<rparr>, s')"
      "idle (after (card c') (?f @ crc ?f) 0) (s\<lparr>mf_chip := c'\<rparr>) s'"
    using exchange [of "s\<lparr>mf_chip := c'\<rparr>" 9 "?f @ crc ?f" ?io 0 ?r 0 "drop 6 (?f @ crc ?f)" 3] c' assms(5) cl q t by auto
  show ?thesis using p c'(1) s' c'(3) q cl by (auto simp: sel_step_def PCD_TransceiveData_def idle_def)
qed

lemma sel_loop_level:
  assumes "up (mf_chip s)" "length buffer = 9" "buffer ! 0 = PICC_SEL l" "length cl = 4" "l \<le> 3" "answers_level crc answer after l cl sak (card (mf_chip s)) k'"
  shows "\<exists>s'. sel_loop dev 0 buffer s = Some (Sel_Done ([PICC_SEL l, 0x70] @ cl @ [sak] @ crc [sak]) 6 3 0, s') \<and> idle k' s s'"
proof -
  note a = assms(6) [unfolded answers_level_def Let_def]
  obtain s1 z where s1: "sel_step dev 0 buffer s = Some (Sel_Again 32 ([PICC_SEL l, 0x20] @ cl @ [xor4 cl] @ z), s1)" "length z = 2"
      "idle (after (card (mf_chip s)) [PICC_SEL l, 0x20] 0) s s1"
    using sel_anticollision [OF assms(1-4)] a by blast
  obtain c where c: "s1 = s\<lparr>mf_chip := c\<rparr>" "up c" "card c = after (card (mf_chip s)) [PICC_SEL l, 0x20] 0"
    using s1(3) by (auto simp: idle_def)
  obtain s2 where s2: "sel_step dev 32 ([PICC_SEL l, 0x20] @ cl @ [xor4 cl] @ z) s1 =
      Some (Sel_Done ([PICC_SEL l, 0x70] @ cl @ [sak] @ crc [sak]) 6 3 0, s2)" "idle k' s1 s2"
    using sel_select [of s1 cl z l sak] c assms(4,5) s1(2) a by auto
  have "idle k' s s2" using s2(2) c(1) by (auto simp: idle_def)
  then show ?thesis using s1(1) s2(1) by (auto simp: sel_loop.simps [of dev 0] sel_loop.simps [of dev 32])
qed

lemma sel_accept_level:
  assumes "up (mf_chip s)" "length cl = 4" "length (uid_bytes u) = 10" "i \<le> 6"
  shows "\<exists>s' b. sel_accept dev i u ([PICC_SEL l, 0x70] @ cl @ [sak] @ crc [sak]) 6 3 0 s =
      Some (Inr (sak AND 0x04 \<noteq> 0), stored_uid u i cl sak, b, s') \<and> length b = 9 \<and> idle (card (mf_chip s)) s s'"
proof -
  obtain c0 c1 c2 c3 where cl: "cl = [c0, c1, c2, c3]" using assms(2) by (auto simp: length_Suc_conv numeral_eq_Suc)
  obtain t0 t1 where t: "crc [sak] = [t0, t1]" using crc_length [of "[sak]"] by (auto simp: length_Suc_conv numeral_2_eq_2)
  obtain c where c: "PCD_CalculateCRC dev [sak, t0, t1] 1 s = Some (STATUS_OK, [t0, t1], s\<lparr>mf_chip := c\<rparr>)" "up c" "card c = card (mf_chip s)"
    using calculate [OF assms(1), of 1 "[sak, t0, t1]"] t by auto
  show ?thesis using c assms(3,4)
    by (auto simp: sel_accept_def cl t c_nth_def c_memcpy_def idle_def stored_uid_def Let_def)
qed

lemma overwrite_head: "take 2 (b[0 := x]) @ drop 2 b = b[0 := x]"
  by (metis append_take_drop_id drop_update_cancel zero_less_numeral)

lemma sel_setup_fresh:
  assumes "length buffer = 9" "1 \<le> l" "l \<le> 3" "length (uid_bytes u) = 10"
  shows "sel_setup l 0 u buffer = Some (buffer[0 := PICC_SEL l], 0, 3 * l - 3)"
proof -
  have "l = 1 \<or> l = 2 \<or> l = 3" using assms(2,3) by auto
  then show ?thesis using assms(1,4) by (auto simp: sel_setup_def c_upd_def c_memcpy_def overwrite_head PICC_SEL.simps)
qed

lemma sel_level_card:
  assumes "up (mf_chip s)" "length buffer = 9" "length (uid_bytes u) = 10" "1 \<le> l" "l \<le> 3" "length cl = 4"
    "answers_level crc answer after l cl sak (card (mf_chip s)) k'"
  shows "\<exists>s' b. sel_level dev l 0 u buffer s = Some (Inr (sak AND 0x04 \<noteq> 0), stored_uid u (3 * l - 3) cl sak, b, s') \<and>
     length b = 9 \<and> idle k' s s'"
proof -
  let ?b = "buffer[0 := PICC_SEL l]"
  have b: "length ?b = 9" "?b ! 0 = PICC_SEL l" using assms(2) by simp_all
  obtain s1 where s1: "sel_loop dev 0 ?b s = Some (Sel_Done ([PICC_SEL l, 0x70] @ cl @ [sak] @ crc [sak]) 6 3 0, s1)" "idle k' s s1"
    using sel_loop_level [OF assms(1) b assms(6,5,7)] by blast
  then have u1: "up (mf_chip s1)" "card (mf_chip s1) = k'" by (auto simp: idle_def)
  have i: "3 * l - 3 \<le> 6" using assms(5) by simp
  obtain s2 b' where s2: "sel_accept dev (3 * l - 3) u ([PICC_SEL l, 0x70] @ cl @ [sak] @ crc [sak]) 6 3 0 s1 =
      Some (Inr (sak AND 0x04 \<noteq> 0), stored_uid u (3 * l - 3) cl sak, b', s2)" "length b' = 9" "idle k' s1 s2"
    using sel_accept_level [OF u1(1) assms(6,3) i] u1(2) by blast
  have "idle k' s s2" using s1(2) s2(3) by (auto simp: idle_def)
  then show ?thesis using s1(1) s2(1,2) by (auto simp: sel_level_def sel_setup_fresh [OF assms(2,4,5,3)])
qed

lemma stored_uid_simps:
  "hd cl \<noteq> PICC_CMD_CT \<Longrightarrow> sak AND 0x04 = 0 \<Longrightarrow>
   stored_uid u i cl sak = u\<lparr>uid_bytes := take i (uid_bytes u) @ cl @ drop (i + 4) (uid_bytes u), uid_sak := sak\<rparr>"
  "sak AND 0x04 \<noteq> 0 \<Longrightarrow>
   stored_uid u i (PICC_CMD_CT # xs) sak = u\<lparr>uid_bytes := take i (uid_bytes u) @ xs @ drop (i + 3) (uid_bytes u)\<rparr>"
  by (simp_all add: stored_uid_def Let_def)

lemma uid_parts:
  assumes "i + 3 \<le> length uid" "length uid \<le> length ub"
  shows "take (i + 3) (take i ub @ take 3 (drop i uid) @ drop (i + 3) ub) @ drop (i + 3) uid @
      drop (length uid) (take i ub @ take 3 (drop i uid) @ drop (i + 3) ub) = take i ub @ drop i uid @ drop (length uid) ub"
proof -
  have l: "length (take i ub @ take 3 (drop i uid)) = i + 3" using assms by simp
  have "drop i uid = take 3 (drop i uid) @ drop (i + 3) uid" by (metis add.commute append_take_drop_id drop_drop)
  moreover have "drop (length uid) (take i ub @ take 3 (drop i uid) @ drop (i + 3) ub) = drop (length uid) ub"
    using l assms(1) by (simp add: drop_append)
  ultimately show ?thesis using l by simp
qed

lemma sel_cascade_card:
  assumes "selects crc answer after uid sak l k k'" "up (mf_chip s)" "card (mf_chip s) = k" "length buffer = 9" "length (uid_bytes u) = 10"
    "length uid \<le> 10"
  shows "\<exists>s'. sel_cascade dev l 0 u buffer s = Some (STATUS_OK, (length uid - 1) div 3,
      u\<lparr>uid_bytes := take (3 * l - 3) (uid_bytes u) @ drop (3 * l - 3) uid @ drop (length uid) (uid_bytes u), uid_sak := sak\<rparr>, s') \<and> idle k' s s'"
  using assms
proof (induction arbitrary: s buffer u rule: selects.induct)
  case (last_level l k k')
  let ?i = "3 * l - 3"
  have cl: "length (drop ?i uid) = 4" "hd (drop ?i uid) \<noteq> PICC_CMD_CT" "?i + 4 = length uid"
    using last_level.hyps by (auto simp: hd_drop_conv_nth)
  obtain s1 b where s1: "sel_level dev l 0 u buffer s = Some (Inr False, stored_uid u ?i (drop ?i uid) sak, b, s1)" "idle k' s s1"
    using sel_level_card [OF last_level.prems(1,3,4) last_level.hyps(2,3) cl(1), of sak k'] last_level.hyps(5,6) last_level.prems(2) by auto
  have "(length uid - 1) div 3 = l" using last_level.hyps(1) by simp
  then show ?case using s1 last_level.hyps(3) stored_uid_simps(1) [OF cl(2) last_level.hyps(5)] cl(3) by (subst sel_cascade.simps) simp
next
  case (next_level l sk k k1 k')
  let ?i = "3 * l - 3" and ?cl = "PICC_CMD_CT # take 3 (drop (3 * l - 3) uid)"
  have l3: "l \<le> 3" "length ?cl = 4" "?i + 3 = 3 * l" "3 * (l + 1) - 3 = 3 * l" using next_level.hyps(1,2) next_level.prems(5) by auto
  let ?u = "u\<lparr>uid_bytes := take ?i (uid_bytes u) @ take 3 (drop ?i uid) @ drop (?i + 3) (uid_bytes u)\<rparr>"
  obtain s1 b where s1: "sel_level dev l 0 u buffer s = Some (Inr True, ?u, b, s1)" "length b = 9" "idle k1 s s1"
    using sel_level_card [OF next_level.prems(1,3,4) next_level.hyps(2) l3(1,2), of sk k1] next_level.hyps(3,4) next_level.prems(2)
      stored_uid_simps(2) [OF next_level.hyps(3)] by auto
  have up1: "up (mf_chip s1)" "card (mf_chip s1) = k1" using s1(3) by (auto simp: idle_def)
  have u: "length (uid_bytes ?u) = 10" using next_level.prems(4,5) next_level.hyps(1,2) by simp
  obtain s2 where s2: "sel_cascade dev (l + 1) 0 ?u b s1 = Some (STATUS_OK, (length uid - 1) div 3,
      ?u\<lparr>uid_bytes := take (3 * l) (uid_bytes ?u) @ drop (3 * l) uid @ drop (length uid) (uid_bytes ?u), uid_sak := sak\<rparr>, s2)" "idle k' s1 s2"
    using next_level.IH [OF up1 s1(2) u next_level.prems(5)] unfolding l3(4) by blast
  have p: "take (3 * l) (uid_bytes ?u) @ drop (3 * l) uid @ drop (length uid) (uid_bytes ?u) =
      take ?i (uid_bytes u) @ drop ?i uid @ drop (length uid) (uid_bytes u)"
    using uid_parts [of ?i uid "uid_bytes u"] next_level.hyps(1) next_level.prems(4,5) unfolding l3(3) by simp
  have "idle k' s s2" using s1(3) s2(2) by (auto simp: idle_def)
  then show ?case using s1(1) s2(1) l3(1) unfolding p by (subst sel_cascade.simps) simp
qed

lemma select_card:
  assumes "up (mf_chip s)" "selects crc answer after uid sak 1 (card (mf_chip s)) k'" "length buf0 = 9" "length (uid_bytes u) = 10"
    "length uid \<in> {4, 7, 10}"
  shows "\<exists>s'. PICC_Select dev buf0 u 0 s = Some (STATUS_OK,
      \<lparr>uid_size = of_nat (length uid), uid_bytes = uid @ drop (length uid) (uid_bytes u), uid_sak = sak\<rparr>, s') \<and> idle k' s s'"
proof -
  obtain c where c: "PCD_ClearRegisterBitMask dev CollReg 0x80 s = s\<lparr>mf_chip := c\<rparr>" "up c" "card c = card (mf_chip s)"
    using collisions [OF assms(1)] by blast
  obtain s' where s': "sel_cascade dev 1 0 u buf0 (s\<lparr>mf_chip := c\<rparr>) = Some (STATUS_OK, (length uid - 1) div 3,
      u\<lparr>uid_bytes := uid @ drop (length uid) (uid_bytes u), uid_sak := sak\<rparr>, s')" "idle k' (s\<lparr>mf_chip := c\<rparr>) s'"
    using sel_cascade_card [OF assms(2), of "s\<lparr>mf_chip := c\<rparr>" buf0 u] c(2,3) assms(3-5) by auto
  have "3 * ((length uid - 1) div 3) + 1 = length uid" using assms(5) by auto
  then show ?thesis using c(1) s' assms(5) by (cases u) (auto simp: PICC_Select_def idle_def)
qed

end

end
