(* ===== verification/Mfrc522_Mifare.thy ===== *)
theory Mfrc522_Mifare
  imports Mfrc522_Link
begin

text \<open>
  The operations on MIFARE cards over the contract \<open>rfid_link\<close>: acknowledged commands, commands without an answer, reading a block.
\<close>

context rfid_link
begin

lemma timeout_exchange:
  assumes "up (mf_chip s)" "unat n \<le> length data" "unat n \<le> 64" "validBits io = Some 0 \<or> validBits io = None"
    "answer (card (mf_chip s)) (take (unat n) data) 0 = None"
  shows "\<exists>s'. PCD_CommunicateWithPICC dev PCD_Transceive 0x30 data n io 0 chk s = Some (STATUS_TIMEOUT, io, s') \<and>
      idle (after (card (mf_chip s)) (take (unat n) data) 0) s s'"
  using no_answer [OF assms(1-3), of 0] assms(4,5) by (auto simp: PCD_CommunicateWithPICC_def idle_def)

text \<open>The frame that \<^verbatim>\<open>PCD_MIFARE_Transceive\<close> sends: the bytes and their CRC.\<close>

lemma mifare_frame:
  assumes "up (mf_chip s)" "n \<le> 16" "unat n \<le> length data"
  shows "\<exists>c r. c_memcpy (replicate 18 0) 0 data 0 (unat n) = Some (take (unat n) data @ r) \<and>
     PCD_CalculateCRC dev (take (unat n) data @ r) n s = Some (STATUS_OK, crc (take (unat n) data), s\<lparr>mf_chip := c\<rparr>) \<and> up c \<and>
     card c = card (mf_chip s) \<and> length r = 18 - unat n"
proof -
  have n: "unat n \<le> 16" using assms(2) by (simp add: word_le_nat_alt)
  let ?r = "drop (unat n) (replicate 18 0 :: u8 list)"
  have m: "c_memcpy (replicate 18 0) 0 data 0 (unat n) = Some (take (unat n) data @ ?r)"
    using n assms(3) by (simp add: c_memcpy_def)
  obtain c where "PCD_CalculateCRC dev (take (unat n) data @ ?r) n s = Some (STATUS_OK, crc (take (unat n) data), s\<lparr>mf_chip := c\<rparr>)" "up c"
      "card c = card (mf_chip s)"
    using calculate [OF assms(1), of n "take (unat n) data @ ?r"] n assms(3) by auto
  then show ?thesis using m by (intro exI [of _ c] exI [of _ ?r]) simp
qed

lemma mifare_transceive:
  assumes "up (mf_chip s)" "n \<le> 16" "unat n \<le> length data"
    "answer (card (mf_chip s)) (take (unat n) data @ crc (take (unat n) data)) 0 = Some ([MF_ACK], 4) \<or>
     acc \<and> answer (card (mf_chip s)) (take (unat n) data @ crc (take (unat n) data)) 0 = None"
  shows "\<exists>s'. PCD_MIFARE_Transceive dev (Some data) n acc s = Some (STATUS_OK, s') \<and>
     idle (after (card (mf_chip s)) (take (unat n) data @ crc (take (unat n) data)) 0) s s'"
proof -
  let ?f = "take (unat n) data"
  have n: "unat n \<le> 16" "\<not> 16 < n" "unat (n + 2) = unat n + 2" using assms(2) by (auto simp: word_le_nat_alt word_less_nat_alt unat_word_ariths)
  obtain c r where c: "c_memcpy (replicate 18 0) 0 data 0 (unat n) = Some (?f @ r)" "up c" "card c = card (mf_chip s)" "length r = 18 - unat n"
      "PCD_CalculateCRC dev (?f @ r) n s = Some (STATUS_OK, crc ?f, s\<lparr>mf_chip := c\<rparr>)"
    using mifare_frame [OF assms(1-3)] by blast
  let ?b = "?f @ crc ?f @ drop 2 r" and ?io = "\<lambda>b. \<lparr>backData = Some b, backLen = Some 18, validBits = Some 0\<rparr>"
  have l: "length ?b = 18" using n(1) c(4) assms(3) by (simp add: crc_length)
  have m: "c_memcpy (?f @ r) (unat n) (crc ?f) 0 (length (crc ?f)) = Some ?b"
    using n(1) c(4) assms(3) by (simp add: c_memcpy_def crc_length)
  have t: "take (unat (n + 2)) ?b = ?f @ crc ?f" "unat (n + 2) \<le> length ?b" "unat (n + 2) \<le> 64"
    using n l assms(3) by (simp_all add: crc_length)
  have up: "up (mf_chip (s\<lparr>mf_chip := c\<rparr>))" using c(2) by simp
  obtain x xs where x: "?b = x # xs" using l by (cases ?b) auto
  show ?thesis
  proof (cases "answer (card (mf_chip s)) (?f @ crc ?f) 0")
    case None
    obtain s' where "PCD_CommunicateWithPICC dev PCD_Transceive 0x30 ?b (n + 2) (?io ?b) 0 False (s\<lparr>mf_chip := c\<rparr>) =
        Some (STATUS_TIMEOUT, ?io ?b, s')" "idle (after (card (mf_chip s)) (?f @ crc ?f) 0) (s\<lparr>mf_chip := c\<rparr>) s'"
      using timeout_exchange [OF up t(2,3), of "?io ?b" False] None t(1) c(3) by auto
    then show ?thesis using None assms(4) n(2) c(1,5) m l x
      by (auto simp: PCD_MIFARE_Transceive_def idle_def c_nth_def)
  next
    case (Some a)
    then have a: "a = ([MF_ACK], 4)" using assms(4) by simp
    obtain s' where "PCD_CommunicateWithPICC dev PCD_Transceive 0x30 ?b (n + 2) (?io ?b) 0 False (s\<lparr>mf_chip := c\<rparr>) =
        Some (STATUS_OK, (?io ([MF_ACK] @ drop 1 ?b))\<lparr>backLen := Some 1, validBits := Some 4\<rparr>, s')"
        "idle (after (card (mf_chip s)) (?f @ crc ?f) 0) (s\<lparr>mf_chip := c\<rparr>) s'"
      using exchange [OF up t(2,3), of "?io ?b" 0 "[MF_ACK]" 4 ?b 18] Some a t(1) c(3) l by auto
    then show ?thesis using n(2) c(1,5) m l
      by (auto simp: PCD_MIFARE_Transceive_def idle_def c_nth_def)
  qed
qed

lemma mifare_read:
  assumes "up (mf_chip s)" "length buf = 18" "length block = 16"
    "answer (card (mf_chip s)) ([PICC_CMD_MF_READ, a] @ crc [PICC_CMD_MF_READ, a]) 0 = Some (block @ crc block, 0)"
  shows "\<exists>s'. MIFARE_Read dev a (Some buf) 18 s = Some (STATUS_OK, Some (block @ crc block), 18, s') \<and>
     idle (after (card (mf_chip s)) ([PICC_CMD_MF_READ, a] @ crc [PICC_CMD_MF_READ, a]) 0) s s'"
proof -
  let ?f = "[PICC_CMD_MF_READ, a]"
  obtain x y r where b: "buf = x # y # r" "length r = 16" using assms(2) by (auto simp: length_Suc_conv numeral_eq_Suc)
  obtain c where c: "PCD_CalculateCRC dev (?f @ r) 2 s = Some (STATUS_OK, crc ?f, s\<lparr>mf_chip := c\<rparr>)" "up c" "card c = card (mf_chip s)"
    using calculate [OF assms(1), of 2 "?f @ r"] by auto
  let ?b = "?f @ crc ?f @ drop 2 r" and ?io = "\<lambda>b. \<lparr>backData = Some b, backLen = Some 18, validBits = None\<rparr>"
  have l: "length ?b = 18" using b(2) by (simp add: crc_length)
  have t: "take (unat (4 :: u8)) ?b = ?f @ crc ?f" by (simp add: crc_length)
  have m: "c_memcpy (?f @ r) 2 (crc ?f) 0 (length (crc ?f)) = Some ?b" using b(2) by (simp add: c_memcpy_def crc_length)
  obtain s' where "PCD_CommunicateWithPICC dev PCD_Transceive 0x30 ?b 4 (?io ?b) 0 True (s\<lparr>mf_chip := c\<rparr>) =
      Some (STATUS_OK, ?io (block @ crc block), s')" "idle (after (card (mf_chip s)) (?f @ crc ?f) 0) (s\<lparr>mf_chip := c\<rparr>) s'"
    using exchange_checked [of "s\<lparr>mf_chip := c\<rparr>" 4 ?b "?io ?b" block ?b 18] c(2,3) t assms(3,4) l by (auto simp: crc_length)
  then show ?thesis using c(1) m b
    by (auto simp: MIFARE_Read_def PCD_TransceiveData_def c_upd_def idle_def)
qed

end

end
