(* ===== verification/Mfrc522_Sim.thy ===== *)
theory Mfrc522_Sim
  imports Mfrc522_Mifare
begin

text \<open>
  A simulated reader chip, as its data sheet describes it: the SPI frames, the FIFO of 64 bytes, the interrupt flags, the CRC
  coprocessor and the transceiver. The card is any pair of functions \<open>answer\<close>, \<open>after\<close>. The chip meets the contract
  \<open>rfid_link\<close>, so the lemmas of the contract hold for it.
\<close>

section \<open>The chip\<close>

text \<open>CRC_A of ISO/IEC 14443: the reflected polynomial \<open>0x8408\<close>, preset \<open>0x6363\<close>, low byte first.\<close>

fun crc_bits :: "nat \<Rightarrow> u16 \<Rightarrow> u16" where
  "crc_bits 0 r = r"
| "crc_bits (Suc n) r = crc_bits n (if r AND 1 \<noteq> 0 then drop_bit 1 r XOR 0x8408 else drop_bit 1 r)"

definition crc_a :: "u8 list \<Rightarrow> u8 list" where
  "crc_a bs = (let r = foldl (\<lambda>r b. crc_bits 8 (r XOR ucast b)) 0x6363 bs in [ucast r, ucast (drop_bit 8 r)])"

record 'k pcd_core =
  pc_fifo :: "u8 list"
  pc_command :: u8
  pc_comirq :: u8
  pc_divirq :: u8
  pc_framing :: u8
  pc_rxbits :: u8
  pc_crc :: "u8 list"
  pc_regs :: "u8 \<Rightarrow> u8"
  pc_card :: 'k

text \<open>What the chip reads: the value of a register and the chip after it.\<close>

definition pcd_read :: "'k pcd_core \<Rightarrow> u8 \<Rightarrow> u8 \<times> 'k pcd_core" where
  "pcd_read c reg =
     (if reg = FIFODataReg then (case pc_fifo c of [] \<Rightarrow> (0, c) | b # bs \<Rightarrow> (b, c\<lparr>pc_fifo := bs\<rparr>))
      else if reg = FIFOLevelReg then (of_nat (length (pc_fifo c)), c)
      else if reg = CommandReg then (pc_command c, c)
      else if reg = ComIrqReg then (pc_comirq c, c)
      else if reg = DivIrqReg then (pc_divirq c, c)
      else if reg = ErrorReg then (0, c)
      else if reg = ControlReg then (pc_rxbits c, c)
      else if reg = BitFramingReg then (pc_framing c, c)
      else if reg = CRCResultRegL then (pc_crc c ! 0, c)
      else if reg = CRCResultRegH then (pc_crc c ! 1, c)
      else (pc_regs c reg, c))"

text \<open>An answer fits into the FIFO and at most seven bits of its last byte are counted.\<close>

definition fits :: "('k \<Rightarrow> u8 list \<Rightarrow> u8 \<Rightarrow> (u8 list \<times> u8) option) \<Rightarrow> 'k \<Rightarrow> u8 list \<Rightarrow> u8 \<Rightarrow> (u8 list \<times> u8) option" where
  "fits answer k frame bits = map_option (\<lambda>(r, b). (take 64 r, b AND 0x07)) (answer k frame bits)"

text \<open>The transceiver: the FIFO is sent. The answer sets the receiver interrupt, its absence the timer interrupt.\<close>

definition pcd_send ::
  "('k \<Rightarrow> u8 list \<Rightarrow> u8 \<Rightarrow> (u8 list \<times> u8) option) \<Rightarrow> ('k \<Rightarrow> u8 list \<Rightarrow> u8 \<Rightarrow> 'k) \<Rightarrow> 'k pcd_core \<Rightarrow> 'k pcd_core" where
  "pcd_send answer after c =
     (let bits = pc_framing c AND 0x07;
          c' = c\<lparr>pc_card := after (pc_card c) (pc_fifo c) bits\<rparr>
      in case fits answer (pc_card c) (pc_fifo c) bits of
           None \<Rightarrow> c'\<lparr>pc_fifo := [], pc_comirq := pc_comirq c OR 0x01\<rparr>
         | Some (r, b) \<Rightarrow> c'\<lparr>pc_fifo := r, pc_rxbits := b, pc_comirq := pc_comirq c OR 0x20\<rparr>)"

definition pcd_write ::
  "('k \<Rightarrow> u8 list \<Rightarrow> u8 \<Rightarrow> (u8 list \<times> u8) option) \<Rightarrow> ('k \<Rightarrow> u8 list \<Rightarrow> u8 \<Rightarrow> 'k) \<Rightarrow> 'k pcd_core \<Rightarrow> u8 \<Rightarrow> u8 \<Rightarrow> 'k pcd_core" where
  "pcd_write answer after c reg v =
     (if reg = FIFODataReg then (if length (pc_fifo c) < 64 then c\<lparr>pc_fifo := pc_fifo c @ [v]\<rparr> else c)
      else if reg = FIFOLevelReg then (if v AND 0x80 \<noteq> 0 then c\<lparr>pc_fifo := []\<rparr> else c)
      else if reg = CommandReg then
        (if v AND 0x0F = PCD_CalcCRC then
           c\<lparr>pc_command := v, pc_crc := crc_a (pc_fifo c), pc_fifo := [], pc_divirq := pc_divirq c OR 0x04\<rparr>
         else c\<lparr>pc_command := v\<rparr>)
      else if reg = ComIrqReg then
        c\<lparr>pc_comirq := (if v AND 0x80 \<noteq> 0 then pc_comirq c OR (v AND 0x7F) else pc_comirq c AND NOT v)\<rparr>
      else if reg = DivIrqReg then
        c\<lparr>pc_divirq := (if v AND 0x80 \<noteq> 0 then pc_divirq c OR (v AND 0x7F) else pc_divirq c AND NOT v)\<rparr>
      else if reg = BitFramingReg then
        (let c = c\<lparr>pc_framing := v AND 0x7F\<rparr>
         in if v AND 0x80 \<noteq> 0 \<and> pc_command c AND 0x0F = PCD_Transceive then pcd_send answer after c else c)
      else c\<lparr>pc_regs := (pc_regs c)(reg := v)\<rparr>)"

text \<open>The first byte after the chip is selected is an address; in a write the next bytes are data, in a read every further byte is the
  next address while the value of the previous one is sent.\<close>

definition pcd_xfer ::
  "('k \<Rightarrow> u8 list \<Rightarrow> u8 \<Rightarrow> (u8 list \<times> u8) option) \<Rightarrow> ('k \<Rightarrow> u8 list \<Rightarrow> u8 \<Rightarrow> 'k) \<Rightarrow>
   u8 option \<times> 'k pcd_core \<Rightarrow> u8 \<Rightarrow> u8 \<times> u8 option \<times> 'k pcd_core" where
  "pcd_xfer answer after c b =
     (case fst c of
        None \<Rightarrow> (0, Some b, snd c)
      | Some a \<Rightarrow>
          if a AND 0x80 \<noteq> 0 then let (v, c') = pcd_read (snd c) (a AND 0x7E) in (v, Some b, c')
          else (0, Some a, pcd_write answer after (snd c) (a AND 0x7E) b))"

definition pcd_bus ::
  "('k \<Rightarrow> u8 list \<Rightarrow> u8 \<Rightarrow> (u8 list \<times> u8) option) \<Rightarrow> ('k \<Rightarrow> u8 list \<Rightarrow> u8 \<Rightarrow> 'k) \<Rightarrow> (u8 option \<times> 'k pcd_core) spi_bus" where
  "pcd_bus answer after =
     \<lparr>spi_xfer = pcd_xfer answer after, spi_cs_lo = (\<lambda>c. (None, snd c)), spi_cs_hi = (\<lambda>c. (None, snd c))\<rparr>"

section \<open>Register accesses\<close>

lemma address_bits: "(reg AND 0x7E) AND 0x80 = 0" "(0x80 OR (reg AND 0x7E)) AND 0x80 \<noteq> 0" "(reg AND 0x7E) AND 0x7E = reg AND 0x7E"
  "(0x80 OR (reg AND 0x7E)) AND 0x7E = reg AND 0x7E" for reg :: u8
proof -
  have "bit ((0x80 OR (reg AND 0x7E)) AND 0x80) 7" by (simp add: bit_simps)
  then show "(0x80 OR (reg AND 0x7E)) AND 0x80 \<noteq> 0" by (metis bit_0_eq bot_apply bot_bool_def)
qed (auto intro!: u8_eqI simp: bit_simps)

lemma pcd_bus_write:
  "PCD_WriteRegister (pcd_bus answer after) reg v s = s\<lparr>mf_chip := (None, pcd_write answer after (snd (mf_chip s)) (reg AND 0x7E) v)\<rparr>"
  by (simp add: PCD_WriteRegister_def MFRC522_CS_SELECTED_def MFRC522_CS_DESELECTED_def MFRC522_SPIrw_def pcd_bus_def pcd_xfer_def
      Let_def address_bits)

lemma pcd_bus_read:
  "PCD_ReadRegister (pcd_bus answer after) reg s =
     (fst (pcd_read (snd (mf_chip s)) (reg AND 0x7E)), s\<lparr>mf_chip := (None, snd (pcd_read (snd (mf_chip s)) (reg AND 0x7E)))\<rparr>)"
  by (simp add: PCD_ReadRegister_def MFRC522_CS_SELECTED_def MFRC522_CS_DESELECTED_def MFRC522_SPIrw_def pcd_bus_def pcd_xfer_def
      Let_def address_bits split: prod.splits)

lemma pcd_write_loop:
  assumes "length (pc_fifo c) + length vs \<le> 64" "mf_chip s = (Some FIFODataReg, c)"
  shows "write_loop (pcd_bus answer after) vs s = s\<lparr>mf_chip := (Some FIFODataReg, c\<lparr>pc_fifo := pc_fifo c @ vs\<rparr>)\<rparr>"
  using assms
proof (induction vs arbitrary: s c)
  case (Cons v vs)
  have a: "FIFODataReg AND 0x80 = 0" "FIFODataReg AND 0x7E = FIFODataReg" by (simp_all add: mf_regs_def)
  show ?case
    using Cons.prems Cons.IH [of "c\<lparr>pc_fifo := pc_fifo c @ [v]\<rparr>" "s\<lparr>mf_chip := (Some FIFODataReg, c\<lparr>pc_fifo := pc_fifo c @ [v]\<rparr>)\<rparr>"]
    by (simp add: MFRC522_SPIrw_def pcd_bus_def pcd_xfer_def a pcd_write_def)
qed simp

lemma pcd_write_fifo:
  assumes "unat n \<le> length vs" "unat n \<le> 64" "pc_fifo (snd (mf_chip s)) = []"
  shows "PCD_WriteRegister_Buffer (pcd_bus answer after) FIFODataReg n vs s =
    Some (s\<lparr>mf_chip := (None, (snd (mf_chip s))\<lparr>pc_fifo := take (unat n) vs\<rparr>)\<rparr>)"
proof -
  have a: "FIFODataReg AND 0x7E = FIFODataReg" by (simp add: mf_regs_def)
  let ?s = "s\<lparr>mf_chip := (Some FIFODataReg, snd (mf_chip s))\<rparr>"
  have "write_loop (pcd_bus answer after) (take (unat n) vs) ?s =
      ?s\<lparr>mf_chip := (Some FIFODataReg, (snd (mf_chip s))\<lparr>pc_fifo := take (unat n) vs\<rparr>)\<rparr>"
    using assms pcd_write_loop [of "snd (mf_chip s)" "take (unat n) vs" ?s] by simp
  then show ?thesis using assms(1) unfolding PCD_WriteRegister_Buffer_def MFRC522_CS_SELECTED_def MFRC522_CS_DESELECTED_def
    by (simp add: MFRC522_SPIrw_def pcd_xfer_def pcd_bus_def a)
qed

lemma pcd_read_loop:
  assumes "mf_chip s = (Some a, c)" "a AND 0x80 \<noteq> 0" "a AND 0x7E = FIFODataReg" "pc_fifo c = bs @ rest" "i + length bs \<le> length vs"
  shows "read_loop (pcd_bus answer after) a 0 i (length bs) vs s =
    Some (take i vs @ bs @ drop (i + length bs) vs, s\<lparr>mf_chip := (Some a, c\<lparr>pc_fifo := rest\<rparr>)\<rparr>)"
  using assms
proof (induction bs arbitrary: i vs s c)
  case (Cons b bs)
  let ?c = "c\<lparr>pc_fifo := bs @ rest\<rparr>"
  have x: "MFRC522_SPIrw (pcd_bus answer after) a s = (b, s\<lparr>mf_chip := (Some a, ?c)\<rparr>)"
    using Cons.prems by (simp add: MFRC522_SPIrw_def pcd_bus_def pcd_xfer_def pcd_read_def)
  have "read_loop (pcd_bus answer after) a 0 (Suc i) (length bs) (vs[i := b]) (s\<lparr>mf_chip := (Some a, ?c)\<rparr>) =
      Some (take (Suc i) (vs[i := b]) @ bs @ drop (Suc i + length bs) (vs[i := b]), s\<lparr>mf_chip := (Some a, c\<lparr>pc_fifo := rest\<rparr>)\<rparr>)"
    using Cons.prems Cons.IH [of "s\<lparr>mf_chip := (Some a, ?c)\<rparr>" ?c "Suc i" "vs[i := b]"] by simp
  then show ?case using Cons.prems(5) overwrite_step [of i vs b bs] by (simp add: x c_nth_def c_upd_def)
qed simp

lemma pcd_read_fifo:
  assumes "pc_fifo (snd (mf_chip s)) = bs" "length bs \<le> length vs" "length bs < 256"
  shows "PCD_ReadRegister_Buffer (pcd_bus answer after) FIFODataReg (of_nat (length bs)) vs 0 s =
    Some (bs @ drop (length bs) vs, if bs = [] then s else s\<lparr>mf_chip := (None, (snd (mf_chip s))\<lparr>pc_fifo := []\<rparr>)\<rparr>)"
proof (cases bs rule: rev_cases)
  case Nil
  then show ?thesis by (simp add: PCD_ReadRegister_Buffer_def)
next
  case (snoc xs x)
  let ?c = "snd (mf_chip s)" and ?a = "0x80 OR (FIFODataReg AND 0x7E)"
  have a: "?a AND 0x80 \<noteq> 0" "?a AND 0x7E = FIFODataReg" by (simp_all add: mf_regs_def)
  have n: "unat (of_nat (length bs) :: u8) = Suc (length xs)" "(of_nat (length bs) :: u8) \<noteq> 0"
    using assms(3) u8_of_nat [OF assms(3)] snoc by (auto simp: unat_eq_0 simp del: of_nat_Suc)
  let ?s1 = "s\<lparr>mf_chip := (Some ?a, ?c)\<rparr>" and ?vs = "xs @ drop (length xs) vs" and ?s2 = "s\<lparr>mf_chip := (Some ?a, ?c\<lparr>pc_fifo := [x]\<rparr>)\<rparr>"
  have "MFRC522_SPIrw (pcd_bus answer after) ?a (MFRC522_CS_SELECTED (pcd_bus answer after) s) = (0, ?s1)"
    by (simp add: MFRC522_SPIrw_def MFRC522_CS_SELECTED_def pcd_xfer_def pcd_bus_def)
  moreover have "read_loop (pcd_bus answer after) ?a 0 0 (length xs) vs ?s1 = Some (?vs, ?s2)"
    using pcd_read_loop [of ?s1 ?a ?c xs "[x]" 0 vs answer after] a assms(1,2) snoc by simp
  moreover have "MFRC522_SPIrw (pcd_bus answer after) 0 ?s2 = (x, s\<lparr>mf_chip := (Some 0, ?c\<lparr>pc_fifo := []\<rparr>)\<rparr>)"
    using a by (simp add: MFRC522_SPIrw_def pcd_bus_def pcd_xfer_def pcd_read_def)
  moreover have "?vs[length xs := x] = bs @ drop (length bs) vs" "length xs < length ?vs"
    using assms(2) snoc by (simp_all add: list_update_append upd_conv_take_nth_drop Cons_nth_drop_Suc [symmetric])
  ultimately show ?thesis using n snoc
    by (simp add: PCD_ReadRegister_Buffer_def c_upd_def MFRC522_CS_DESELECTED_def pcd_bus_def del: of_nat_Suc)
qed

section \<open>The contract\<close>

lemma crc_ready: "PCD_ReadRegister dev DivIrqReg s = (v, s') \<Longrightarrow> v AND 0x04 \<noteq> 0 \<Longrightarrow> 0 < i \<Longrightarrow> crc_wait dev i s = (True, s')"
  by (cases i) auto

lemma com_ready: "PCD_ReadRegister dev ComIrqReg s = (v, s') \<Longrightarrow> v AND waitIRq \<noteq> 0 \<Longrightarrow> 0 < i \<Longrightarrow> com_wait dev waitIRq i s = (True, s')"
  by (cases i) auto

lemma com_timer: "PCD_ReadRegister dev ComIrqReg s = (v, s') \<Longrightarrow> v AND waitIRq = 0 \<Longrightarrow> v AND 0x01 \<noteq> 0 \<Longrightarrow> com_wait dev waitIRq i s = (False, if i = 0 then s else s')"
  by (cases i) auto

lemma flag_bits: "(x OR 0x80) AND 0x80 \<noteq> 0" "(x OR 0x04) AND 0x04 \<noteq> 0" "(x OR 0x20) AND 0x30 \<noteq> 0" "(x OR 0x01) AND 0x01 \<noteq> 0"
  "(v AND 0x07) AND 0x07 = v AND 0x07" "(v OR 0x80) AND 0x07 = v AND 0x07" "((v OR 0x80) AND 0x7F) AND 0x07 = v AND 0x07"
  "(v AND 0x7F) AND 0x07 = v AND 0x07" "((x AND - 128) OR 0x01) AND 0x30 = 0" "(x AND 0x80) OR 0x20 \<noteq> 0" for x v :: u8
proof -
  have "bit ((x OR 0x80) AND 0x80) 7" "bit ((x OR 0x04) AND 0x04) 2" "bit ((x OR 0x20) AND 0x30) 5" "bit ((x OR 0x01) AND 0x01) 0"
    "bit ((x AND 0x80) OR 0x20) 5"
    by (simp_all add: bit_simps)
  then show "(x OR 0x80) AND 0x80 \<noteq> 0" "(x OR 0x04) AND 0x04 \<noteq> 0" "(x OR 0x20) AND 0x30 \<noteq> 0" "(x OR 0x01) AND 0x01 \<noteq> 0"
    "(x AND 0x80) OR 0x20 \<noteq> 0"
    by (metis bit_0_eq bot_apply bot_bool_def)+
qed (auto intro!: u8_eqI simp: bit_simps)

lemma pcd_flush:
  "PCD_SetRegisterBitMask (pcd_bus answer after) FIFOLevelReg 0x80 s = s\<lparr>mf_chip := (None, (snd (mf_chip s))\<lparr>pc_fifo := []\<rparr>)\<rparr>"
  by (simp add: PCD_SetRegisterBitMask_def pcd_bus_read pcd_bus_write pcd_read_def pcd_write_def mf_regs_def flag_bits)

lemma pcd_calculate:
  assumes "unat n \<le> length data" "unat n \<le> 64"
  shows "\<exists>c. PCD_CalculateCRC (pcd_bus answer after) data n s = Some (STATUS_OK, crc_a (take (unat n) data), s\<lparr>mf_chip := c\<rparr>) \<and>
    pc_card (snd c) = pc_card (snd (mf_chip s))"
proof -
  let ?dev = "pcd_bus answer after" and ?c = "snd (mf_chip s)"
  let ?s1 = "PCD_WriteRegister ?dev DivIrqReg 0x04 (PCD_WriteRegister ?dev CommandReg PCD_Idle s)"
  let ?s2 = "PCD_SetRegisterBitMask ?dev FIFOLevelReg 0x80 ?s1"
  obtain c2 where s2: "?s2 = s\<lparr>mf_chip := (None, c2)\<rparr>" "pc_fifo c2 = []" "pc_card c2 = pc_card ?c"
    unfolding pcd_flush by (simp add: pcd_bus_write pcd_write_def mf_regs_def mf_cmds_def)
  have s3: "PCD_WriteRegister_Buffer ?dev FIFODataReg n data ?s2 = Some (s\<lparr>mf_chip := (None, c2\<lparr>pc_fifo := take (unat n) data\<rparr>)\<rparr>)"
    using pcd_write_fifo [OF assms, of ?s2] s2 by simp
  obtain c4 where s4: "PCD_WriteRegister ?dev CommandReg PCD_CalcCRC (s\<lparr>mf_chip := (None, c2\<lparr>pc_fifo := take (unat n) data\<rparr>)\<rparr>) = s\<lparr>mf_chip := (None, c4)\<rparr>"
      "pc_crc c4 = crc_a (take (unat n) data)" "pc_divirq c4 AND 0x04 \<noteq> 0" "pc_card c4 = pc_card ?c"
    using s2(3) by (simp add: pcd_bus_write pcd_write_def mf_regs_def mf_cmds_def flag_bits)
  have s5: "crc_wait ?dev 5000 (s\<lparr>mf_chip := (None, c4)\<rparr>) = (True, s\<lparr>mf_chip := (None, c4)\<rparr>)"
    using s4(3) by (intro crc_ready [where v = "pc_divirq c4"]) (simp_all add: pcd_bus_read pcd_read_def mf_regs_def)
  have "[pc_crc c4 ! 0, pc_crc c4 ! 1] = pc_crc c4" using s4(2) by (simp add: crc_a_def Let_def)
  then have "PCD_CalculateCRC ?dev data n s = Some (STATUS_OK, crc_a (take (unat n) data), s\<lparr>mf_chip := (None, c4\<lparr>pc_command := 0\<rparr>)\<rparr>)"
    using s3 s4 s5 by (simp add: PCD_CalculateCRC_def pcd_bus_write pcd_bus_read pcd_write_def pcd_read_def mf_regs_def mf_cmds_def)
  then show ?thesis using s4(4) by (intro exI [of _ "(None, c4\<lparr>pc_command := 0\<rparr>)"]) simp
qed

lemma pcd_start:
  assumes "unat n \<le> length data" "unat n \<le> 64"
  shows "\<exists>c. com_start (pcd_bus answer after) PCD_Transceive 0x30 data n bf s =
      Some (fits answer (pc_card (snd (mf_chip s))) (take (unat n) data) (bf AND 0x07) \<noteq> None, s\<lparr>mf_chip := c\<rparr>) \<and>
    pc_card (snd c) = after (pc_card (snd (mf_chip s))) (take (unat n) data) (bf AND 0x07) \<and>
    (\<forall>r. fits answer (pc_card (snd (mf_chip s))) (take (unat n) data) (bf AND 0x07) = Some r \<longrightarrow> (pc_fifo (snd c), pc_rxbits (snd c)) = r)"
proof -
  let ?dev = "pcd_bus answer after" and ?c = "snd (mf_chip s)" and ?f = "take (unat n) data" and ?b = "bf AND 0x07"
  let ?s2 = "PCD_SetRegisterBitMask ?dev FIFOLevelReg 0x80 (PCD_WriteRegister ?dev ComIrqReg 0x7F (PCD_WriteRegister ?dev CommandReg PCD_Idle s))"
  obtain c2 where s2: "?s2 = s\<lparr>mf_chip := (None, c2)\<rparr>" "pc_fifo c2 = []" "pc_card c2 = pc_card ?c" "pc_comirq c2 = pc_comirq ?c AND NOT 0x7F" "pc_command c2 = 0"
    unfolding pcd_flush by (simp add: pcd_bus_write pcd_write_def mf_regs_def mf_cmds_def)
  have s3: "PCD_WriteRegister_Buffer ?dev FIFODataReg n data ?s2 = Some (s\<lparr>mf_chip := (None, c2\<lparr>pc_fifo := ?f\<rparr>)\<rparr>)"
    using pcd_write_fifo [OF assms, of ?s2] s2 by simp
  let ?s4 = "PCD_WriteRegister ?dev CommandReg PCD_Transceive (PCD_WriteRegister ?dev BitFramingReg bf (s\<lparr>mf_chip := (None, c2\<lparr>pc_fifo := ?f\<rparr>)\<rparr>))"
  obtain c4 where s4: "?s4 = s\<lparr>mf_chip := (None, c4)\<rparr>" "pc_fifo c4 = ?f" "pc_card c4 = pc_card ?c" "pc_comirq c4 = pc_comirq ?c AND NOT 0x7F"
      "pc_command c4 = PCD_Transceive" "pc_framing c4 AND 0x07 = ?b"
    using s2(2-5) by (simp add: pcd_bus_write pcd_write_def mf_regs_def mf_cmds_def flag_bits)
  obtain c5 where s5: "PCD_SetRegisterBitMask ?dev BitFramingReg 0x80 ?s4 = s\<lparr>mf_chip := (None, c5)\<rparr>" "c5 = pcd_send answer after (c4\<lparr>pc_framing := (pc_framing c4 OR 0x80) AND 0x7F\<rparr>)"
    unfolding s4(1) using s4(5) by (simp add: PCD_SetRegisterBitMask_def pcd_bus_read pcd_bus_write pcd_read_def pcd_write_def mf_regs_def mf_cmds_def flag_bits)
  have start: "com_start ?dev PCD_Transceive 0x30 data n bf s = Some (com_wait ?dev 0x30 2000 (s\<lparr>mf_chip := (None, c5)\<rparr>))"
    using s3 s5(1) by (simp add: com_start_def Let_def)
  have irq: "PCD_ReadRegister ?dev ComIrqReg (s\<lparr>mf_chip := (None, c5)\<rparr>) = (pc_comirq c5, s\<lparr>mf_chip := (None, c5)\<rparr>)"
    by (simp add: pcd_bus_read pcd_read_def mf_regs_def)
  show ?thesis
  proof (cases "fits answer (pc_card ?c) ?f ?b")
    case None
    then have "pc_comirq c5 AND 0x30 = 0" "pc_comirq c5 AND 0x01 \<noteq> 0" "pc_card c5 = after (pc_card ?c) ?f ?b"
      using s4(2-6) s5(2) by (simp_all add: pcd_send_def flag_bits Let_def)
    then show ?thesis using None start com_timer [OF irq, of "0x30" 2000] by (intro exI [of _ "(None, c5)"]) simp
  next
    case (Some r)
    then have "pc_comirq c5 AND 0x30 \<noteq> 0" "pc_card c5 = after (pc_card ?c) ?f ?b" "(pc_fifo c5, pc_rxbits c5) = r"
      using s4(2-6) s5(2) by (simp_all add: pcd_send_def flag_bits Let_def split: prod.splits)
    then show ?thesis using Some start com_ready [OF irq, of "0x30" 2000] by (intro exI [of _ "(None, c5)"]) simp
  qed
qed

lemma pcd_receive:
  assumes "pc_fifo (snd (mf_chip s)) = reply" "pc_rxbits (snd (mf_chip s)) = bits" "bits AND 0x07 = bits" "length reply \<le> unat len"
    "unat len \<le> length data"
  shows "\<exists>c. com_receive (pcd_bus answer after) data len io 0 s = Some (Some bits, io\<lparr>backData := Some (reply @ drop (length reply) data),
      backLen := Some (of_nat (length reply)), validBits := (if validBits io \<noteq> None then Some bits else None)\<rparr>, s\<lparr>mf_chip := c\<rparr>) \<and>
    pc_card (snd c) = pc_card (snd (mf_chip s))"
proof -
  let ?dev = "pcd_bus answer after" and ?c = "snd (mf_chip s)" and ?n = "of_nat (length reply) :: u8"
  have n: "length reply < 256" "length reply \<le> length data" using assms(4,5) unat_u8_lt [of len] by simp_all
  have le: "\<not> len < ?n" using assms(4) u8_of_nat [OF n(1)] by (simp add: word_less_nat_alt)
  have r0: "PCD_ReadRegister ?dev FIFOLevelReg s = (?n, s\<lparr>mf_chip := (None, ?c)\<rparr>)"
    using assms(1) by (simp add: pcd_bus_read pcd_read_def mf_regs_def)
  obtain c where c: "PCD_ReadRegister_Buffer ?dev FIFODataReg ?n data 0 (s\<lparr>mf_chip := (None, ?c)\<rparr>) =
      Some (reply @ drop (length reply) data, s\<lparr>mf_chip := (None, c)\<rparr>)" "pc_rxbits c = bits" "pc_card c = pc_card ?c"
    using pcd_read_fifo [of "s\<lparr>mf_chip := (None, ?c)\<rparr>" reply data answer after] assms(1,2) n by (cases "reply = []") auto
  have r1: "PCD_ReadRegister ?dev ControlReg (s\<lparr>mf_chip := (None, c)\<rparr>) = (bits, s\<lparr>mf_chip := (None, c)\<rparr>)"
    using c(2) by (simp add: pcd_bus_read pcd_read_def mf_regs_def)
  show ?thesis using le r0 r1 c assms(3) by (intro exI [of _ "(None, c)"]) (simp add: com_receive_def)
qed

lemma fits_bits: "fits answer k f b = Some r \<Longrightarrow> snd r AND 0x07 = snd r"
  by (auto simp: fits_def)

interpretation pcd: rfid_link "pcd_bus answer after" "\<lambda>c. True" "\<lambda>c. pc_card (snd c)"
  "\<lambda>c r. (pc_fifo (snd c), pc_rxbits (snd c)) = r \<and> snd r AND 0x07 = snd r" crc_a "fits answer" after
proof (unfold_locales, goal_cases)
  case (1 bs)
  then show ?case by (simp add: crc_a_def Let_def)
next
  case (2 s n data)
  then show ?case using pcd_calculate [of n data answer after s] by auto
next
  case (3 s n data bf r)
  then show ?case using pcd_start [of n data answer after bf s] fits_bits [of answer _ _ _ r] by fastforce
next
  case (4 s n data bf)
  then show ?case using pcd_start [of n data answer after bf s] by auto
next
  case (5 s r)
  then show ?case by (intro exI [of _ "(None, snd (mf_chip s))"]) (simp add: pcd_bus_read pcd_read_def mf_regs_def)
next
  case (6 s reply bits len data io)
  then show ?case using pcd_receive [of s reply bits len data answer after io] by auto
next
  case (7 s v)
  then show ?case by (intro exI [of _ "(None, (snd (mf_chip s))\<lparr>pc_framing := v AND 0x7F\<rparr>)"])
    (simp add: pcd_bus_write pcd_write_def mf_regs_def)
next
  case (8 s)
  then show ?case by (intro exI [of _ "(None, (snd (mf_chip s))\<lparr>pc_regs := _\<rparr>)"])
    (simp add: PCD_ClearRegisterBitMask_def pcd_bus_read pcd_bus_write pcd_read_def pcd_write_def mf_regs_def)
qed


section \<open>Finding a card\<close>

lemma selects_size: "selects crc answer after uid sak l k k' \<Longrightarrow> length uid \<in> {4, 7, 10}"
  by (induction rule: selects.induct) (auto simp: numeral_eq_Suc le_Suc_eq)

lemma answers_level_fits:
  assumes "answers_level crc_a answer after l cl sak k k'" "length cl = 4"
  shows "answers_level crc_a (fits answer) after l cl sak k k'"
  using assms by (simp add: answers_level_def Let_def fits_def crc_a_def)

lemma selects_fits: "selects crc_a answer after uid sak l k k' \<Longrightarrow> selects crc_a (fits answer) after uid sak l k k'"
proof (induction rule: selects.induct)
  case (last_level l k k')
  then show ?case by (intro selects.last_level answers_level_fits) auto
next
  case (next_level l sk k k1 k')
  then show ?case by (intro selects.next_level [of l uid sk] answers_level_fits) auto
qed

text \<open>C33. Selecting a card. With a chip that works as its data sheet says and a card with an identification of 4, 7 or 10 bytes that
  answers the anticollision and select frames of every cascade level, \<^verbatim>\<open>PICC_Select\<close> returns \<^verbatim>\<open>STATUS_OK\<close> with the size and
  the bytes of the identification and the last \<^verbatim>\<open>SAK\<close>, and the card is left selected. Nothing depends on what the buffer and the
  identification held before.\<close>

theorem picc_select_finds_card:
  assumes "selects crc_a answer after uid sak 1 (pc_card (snd (mf_chip s))) k'" "length buf0 = 9" "length (uid_bytes u) = 10"
  shows "\<exists>s'. PICC_Select (pcd_bus answer after) buf0 u 0 s = Some (STATUS_OK,
      \<lparr>uid_size = of_nat (length uid), uid_bytes = uid @ drop (length uid) (uid_bytes u), uid_sak = sak\<rparr>, s') \<and>
    pc_card (snd (mf_chip s')) = k' \<and> mf_out s' = mf_out s"
  using pcd.select_card [OF _ selects_fits [OF assms(1)] assms(2,3) selects_size [OF assms(1)]] by (auto simp: pcd.idle_def)

text \<open>A card with the identification \<open>[1, 2, \<dots>, 7]\<close>; its state is the cascade level to be selected.\<close>

definition tag_levels :: "nat \<Rightarrow> u8 list \<times> u8" where
  "tag_levels k = (if k = 0 then ([PICC_CMD_CT, 1, 2, 3], 0x04) else ([4, 5, 6, 7], 0x08))"

definition tag_answer :: "nat \<Rightarrow> u8 list \<Rightarrow> u8 \<Rightarrow> (u8 list \<times> u8) option" where
  "tag_answer k frame bits =
     (let (cl, sak) = tag_levels k; f = [PICC_SEL (k + 1), 0x70] @ cl @ [xor4 cl] in
      if 2 \<le> k then None
      else if frame = [PICC_SEL (k + 1), 0x20] then Some (cl @ [xor4 cl], 0)
      else if frame = f @ crc_a f then Some ([sak] @ crc_a [sak], 0) else None)"

definition tag_after :: "nat \<Rightarrow> u8 list \<Rightarrow> u8 \<Rightarrow> nat" where
  "tag_after k frame bits = (if length frame = 9 \<and> tag_answer k frame bits \<noteq> None then k + 1 else k)"

definition pcd0 :: "'k \<Rightarrow> u8 option \<times> 'k pcd_core" where
  "pcd0 k = (None, \<lparr>pc_fifo = [], pc_command = 0, pc_comirq = 0, pc_divirq = 0, pc_framing = 0, pc_rxbits = 0, pc_crc = [0, 0],
     pc_regs = (\<lambda>_. 0), pc_card = k\<rparr>)"

lemma tag_selects: "selects crc_a tag_answer tag_after [1, 2, 3, 4, 5, 6, 7] 0x08 1 0 2"
proof (rule selects.next_level [where ?k1.0 = 1 and sk = "0x04"])
  show "answers_level crc_a tag_answer tag_after 1 (PICC_CMD_CT # take 3 (drop (3 * 1 - 3) [1, 2, 3, 4, 5, 6, 7])) 4 0 1"
    by (simp add: answers_level_def tag_answer_def tag_after_def tag_levels_def crc_a_def Let_def)
  show "selects crc_a tag_answer tag_after [1, 2, 3, 4, 5, 6, 7] 8 (1 + 1) 1 2"
    by (rule selects.last_level)
      (simp_all add: answers_level_def tag_answer_def tag_after_def tag_levels_def crc_a_def Let_def mf_cmds_def)
qed simp_all

theorem picc_select_finds_card_witness:
  "\<exists>s'. PICC_Select (pcd_bus tag_answer tag_after) (replicate 9 0xEE) \<lparr>uid_size = 0, uid_bytes = replicate 10 0, uid_sak = 0\<rparr> 0 (mf0 (pcd0 0)) =
     Some (STATUS_OK, \<lparr>uid_size = 7, uid_bytes = [1, 2, 3, 4, 5, 6, 7] @ replicate 3 0, uid_sak = 0x08\<rparr>, s') \<and> pc_card (snd (mf_chip s')) = 2 \<and> mf_out s' = []"
  using picc_select_finds_card [of tag_answer tag_after "[1, 2, 3, 4, 5, 6, 7]" "0x08" "mf0 (pcd0 0)" 2 "replicate 9 0xEE"
      "\<lparr>uid_size = 0, uid_bytes = replicate 10 0, uid_sak = 0\<rparr>"] tag_selects
  by (simp add: mf0_def pcd0_def)


end
