(* ===== verification/Mfrc522_Purse.thy ===== *)
theory Mfrc522_Purse
  imports Mfrc522_Sim
begin

text \<open>
  Value blocks on a MIFARE Classic card. The simulated card keeps its blocks, the value in its transfer register and the command whose
  second part it waits for, as the data sheet of the card describes them (after the authentication, which is between chip and card).
\<close>

section \<open>The card\<close>

datatype mf_pending = Ready | Writing u8 | Adding u8 | Subtracting u8 | Restoring u8

record mf_card =
  mc_mem :: "u8 \<Rightarrow> u8 list"
  mc_reg :: "u32 \<times> u8"
  mc_pending :: mf_pending

text \<open>A block in the format of a value block: the value three times, once inverted.\<close>

definition value_format :: "u8 list \<Rightarrow> bool" where
  "value_format b \<longleftrightarrow> length b = 16 \<and> take 4 (drop 4 b) = map NOT (take 4 b) \<and> take 4 (drop 8 b) = take 4 b"

definition mc_value :: "mf_card \<Rightarrow> u8 \<Rightarrow> u32 \<times> u8" where
  "mc_value k a = (the (block_value (mc_mem k a)), mc_mem k a ! 12)"

text \<open>A frame with a wrong CRC, an unknown command or a second part of the wrong length is not answered.\<close>

definition mc_answer :: "mf_card \<Rightarrow> u8 list \<Rightarrow> u8 \<Rightarrow> (u8 list \<times> u8) option" where
  "mc_answer k frame bits =
     (let body = take (length frame - 2) frame in
      if bits \<noteq> 0 \<or> frame \<noteq> body @ crc_a body then None
      else case mc_pending k of
        Writing a \<Rightarrow> if length body = 16 then Some ([MF_ACK], 4) else None
      | Ready \<Rightarrow>
          (case body of
             [c, a] \<Rightarrow>
               if c = PICC_CMD_MF_READ then Some (mc_mem k a @ crc_a (mc_mem k a), 0)
               else if c \<in> {PICC_CMD_MF_WRITE, PICC_CMD_MF_TRANSFER} then Some ([MF_ACK], 4)
               else if c \<in> {PICC_CMD_MF_INCREMENT, PICC_CMD_MF_DECREMENT, PICC_CMD_MF_RESTORE}
               then Some ([if value_format (mc_mem k a) then MF_ACK else 0x04], 4)
               else None
           | _ \<Rightarrow> None)
      | _ \<Rightarrow> None)"

definition mc_after :: "mf_card \<Rightarrow> u8 list \<Rightarrow> u8 \<Rightarrow> mf_card" where
  "mc_after k frame bits =
     (let body = take (length frame - 2) frame in
      if bits \<noteq> 0 \<or> frame \<noteq> body @ crc_a body then k
      else case mc_pending k of
        Writing a \<Rightarrow> (if length body = 16 then k\<lparr>mc_mem := (mc_mem k)(a := body), mc_pending := Ready\<rparr> else k\<lparr>mc_pending := Ready\<rparr>)
      | Adding a \<Rightarrow>
          (case mc_value k a of (v, n) \<Rightarrow> k\<lparr>mc_reg := (v + the (block_value body), n), mc_pending := Ready\<rparr>)
      | Subtracting a \<Rightarrow>
          (case mc_value k a of (v, n) \<Rightarrow> k\<lparr>mc_reg := (v - the (block_value body), n), mc_pending := Ready\<rparr>)
      | Restoring a \<Rightarrow> k\<lparr>mc_reg := mc_value k a, mc_pending := Ready\<rparr>
      | Ready \<Rightarrow>
          (case body of
             [c, a] \<Rightarrow>
               if c = PICC_CMD_MF_WRITE then k\<lparr>mc_pending := Writing a\<rparr>
               else if c = PICC_CMD_MF_TRANSFER
               then k\<lparr>mc_mem := (mc_mem k)(a := value_block (snd (mc_reg k)) (fst (mc_reg k)))\<rparr>
               else if \<not> value_format (mc_mem k a) then k
               else if c = PICC_CMD_MF_INCREMENT then k\<lparr>mc_pending := Adding a\<rparr>
               else if c = PICC_CMD_MF_DECREMENT then k\<lparr>mc_pending := Subtracting a\<rparr>
               else if c = PICC_CMD_MF_RESTORE then k\<lparr>mc_pending := Restoring a\<rparr>
               else k
           | _ \<Rightarrow> k))"

definition purse_bus :: "(u8 option \<times> mf_card pcd_core) spi_bus" where
  "purse_bus = pcd_bus mc_answer mc_after"

definition purse :: "(u8 option \<times> mf_card pcd_core) mfrc522 \<Rightarrow> mf_card" where
  "purse s = pc_card (snd (mf_chip s))"

section \<open>The frames\<close>

lemma crc_a_length: "length (crc_a bs) = 2"
  by (simp add: crc_a_def Let_def)

lemma fits_short: "answer k f b = Some (r, n) \<Longrightarrow> length r \<le> 64 \<Longrightarrow> n AND 0x07 = n \<Longrightarrow> fits answer k f b = Some (r, n)"
  by (simp add: fits_def)

lemma frame_body: "take (length (bs @ crc_a bs) - 2) (bs @ crc_a bs) = bs"
  by (simp add: crc_a_length)

lemma mc_answer_frame:
  "mc_answer k (bs @ crc_a bs) 0 =
     (case mc_pending k of
        Writing a \<Rightarrow> if length bs = 16 then Some ([MF_ACK], 4) else None
      | Ready \<Rightarrow>
          (case bs of
             [c, a] \<Rightarrow>
               if c = PICC_CMD_MF_READ then Some (mc_mem k a @ crc_a (mc_mem k a), 0)
               else if c \<in> {PICC_CMD_MF_WRITE, PICC_CMD_MF_TRANSFER} then Some ([MF_ACK], 4)
               else if c \<in> {PICC_CMD_MF_INCREMENT, PICC_CMD_MF_DECREMENT, PICC_CMD_MF_RESTORE}
               then Some ([if value_format (mc_mem k a) then MF_ACK else 0x04], 4)
               else None
           | _ \<Rightarrow> None)
      | _ \<Rightarrow> None)"
  unfolding mc_answer_def frame_body Let_def by simp

text \<open>A step of the card: a frame that it acknowledges, or one without an answer that the driver accepts.\<close>

lemma purse_transceive:
  assumes "n \<le> 16" "unat n \<le> length data"
    "mc_answer (purse s) (take (unat n) data @ crc_a (take (unat n) data)) 0 = Some ([MF_ACK], 4) \<or>
     acc \<and> mc_answer (purse s) (take (unat n) data @ crc_a (take (unat n) data)) 0 = None"
  shows "\<exists>s'. PCD_MIFARE_Transceive purse_bus (Some data) n acc s = Some (STATUS_OK, s') \<and>
     purse s' = mc_after (purse s) (take (unat n) data @ crc_a (take (unat n) data)) 0"
proof -
  have "fits mc_answer (purse s) (take (unat n) data @ crc_a (take (unat n) data)) 0 = Some ([MF_ACK], 4) \<or>
     acc \<and> fits mc_answer (purse s) (take (unat n) data @ crc_a (take (unat n) data)) 0 = None"
    using assms(3) by (auto simp: fits_def)
  then show ?thesis using pcd.mifare_transceive [where s = s and answer = mc_answer and after = mc_after and acc = acc, OF TrueI assms(1,2)]
    by (auto simp: purse_bus_def purse_def pcd.idle_def)
qed

text \<open>The card after a frame with a correct CRC.\<close>

lemma mc_after_frame:
  "mc_after k (bs @ crc_a bs) 0 =
     (case mc_pending k of
        Writing a \<Rightarrow> (if length bs = 16 then k\<lparr>mc_mem := (mc_mem k)(a := bs), mc_pending := Ready\<rparr> else k\<lparr>mc_pending := Ready\<rparr>)
      | Adding a \<Rightarrow> (case mc_value k a of (v, n) \<Rightarrow> k\<lparr>mc_reg := (v + the (block_value bs), n), mc_pending := Ready\<rparr>)
      | Subtracting a \<Rightarrow> (case mc_value k a of (v, n) \<Rightarrow> k\<lparr>mc_reg := (v - the (block_value bs), n), mc_pending := Ready\<rparr>)
      | Restoring a \<Rightarrow> k\<lparr>mc_reg := mc_value k a, mc_pending := Ready\<rparr>
      | Ready \<Rightarrow>
          (case bs of
             [c, a] \<Rightarrow>
               if c = PICC_CMD_MF_WRITE then k\<lparr>mc_pending := Writing a\<rparr>
               else if c = PICC_CMD_MF_TRANSFER
               then k\<lparr>mc_mem := (mc_mem k)(a := value_block (snd (mc_reg k)) (fst (mc_reg k)))\<rparr>
               else if \<not> value_format (mc_mem k a) then k
               else if c = PICC_CMD_MF_INCREMENT then k\<lparr>mc_pending := Adding a\<rparr>
               else if c = PICC_CMD_MF_DECREMENT then k\<lparr>mc_pending := Subtracting a\<rparr>
               else if c = PICC_CMD_MF_RESTORE then k\<lparr>mc_pending := Restoring a\<rparr>
               else k
           | _ \<Rightarrow> k))"
  unfolding mc_after_def frame_body Let_def by simp

lemma le_bytes_value: "block_value (le_bytes v) = Some v"
  by (simp add: block_value_def c_nth_def le_bytes_def join_bytes)

lemma value_block_bytes: "value_block a v = le_bytes v @ map NOT (le_bytes v) @ le_bytes v @ [a, NOT a, a, NOT a]"
  unfolding value_block_def Let_def value_bytes by (simp add: le_bytes_def)

lemma value_block_format: "value_format (value_block a v)" "length (value_block a v) = 16" "value_block a v ! 12 = a"
  by (simp_all add: value_format_def value_block_bytes le_bytes_def)

lemma value_block_value: "block_value (value_block a v @ r) = Some v"
  using le_bytes_value [of v] by (simp add: value_block_bytes block_value_def c_nth_def le_bytes_def)

lemma purse_set:
  assumes "mc_pending (purse s) = Ready"
  shows "\<exists>s'. MIFARE_SetValue purse_bus a v s = Some (STATUS_OK, s') \<and>
     purse s' = (purse s)\<lparr>mc_mem := (mc_mem (purse s))(a := value_block a v)\<rparr>"
proof -
  let ?f = "[PICC_CMD_MF_WRITE, a]"
  have "mc_answer (purse s) (?f @ crc_a ?f) 0 = Some ([MF_ACK], 4)" "mc_after (purse s) (?f @ crc_a ?f) 0 = (purse s)\<lparr>mc_pending := Writing a\<rparr>"
    unfolding mc_answer_frame mc_after_frame using assms by (simp_all add: mf_cmds_def)
  then obtain s1 where s1: "PCD_MIFARE_Transceive purse_bus (Some ?f) 2 False s = Some (STATUS_OK, s1)"
      "purse s1 = (purse s)\<lparr>mc_pending := Writing a\<rparr>"
    using purse_transceive [of 2 ?f s False] by auto
  let ?b = "value_block a v"
  have t: "take (unat (16 :: u8)) ?b = ?b" using value_block_format(2) [of a v] by simp
  obtain s2 where "PCD_MIFARE_Transceive purse_bus (Some ?b) 16 False s1 = Some (STATUS_OK, s2)"
      "purse s2 = mc_after (purse s1) (?b @ crc_a ?b) 0"
    using purse_transceive [of 16 ?b s1 False] s1(2) value_block_format(2) [of a v] unfolding t by (auto simp: mc_answer_frame)
  then show ?thesis using s1 assms value_block_format(2) [of a v]
    by (auto simp: MIFARE_SetValue_def MIFARE_Write_def mc_after_frame)
qed

lemma purse_two_step:
  assumes "mc_pending (purse s) = Ready" "mc_mem (purse s) a = value_block n v"
    "(cmd, w) \<in> {(PICC_CMD_MF_INCREMENT, v + d), (PICC_CMD_MF_DECREMENT, v - d), (PICC_CMD_MF_RESTORE, v)}"
  shows "\<exists>s'. MIFARE_TwoStepHelper purse_bus cmd a d s = Some (STATUS_OK, s') \<and> purse s' = (purse s)\<lparr>mc_reg := (w, n)\<rparr>"
proof -
  let ?f = "[cmd, a]" and ?p = "if cmd = PICC_CMD_MF_INCREMENT then Adding a else if cmd = PICC_CMD_MF_DECREMENT then Subtracting a else Restoring a"
  have "mc_answer (purse s) (?f @ crc_a ?f) 0 = Some ([MF_ACK], 4)" "mc_after (purse s) (?f @ crc_a ?f) 0 = (purse s)\<lparr>mc_pending := ?p\<rparr>"
    unfolding mc_answer_frame mc_after_frame using assms value_block_format(1) [of n v] by (auto simp: mf_cmds_def)
  then obtain s1 where s1: "PCD_MIFARE_Transceive purse_bus (Some ?f) 2 False s = Some (STATUS_OK, s1)" "purse s1 = (purse s)\<lparr>mc_pending := ?p\<rparr>"
    using purse_transceive [of 2 ?f s False] by auto
  let ?b = "le_bytes d"
  have t: "take (unat (4 :: u8)) ?b = ?b" by (simp add: le_bytes_def)
  have m: "mc_value (purse s1) a = (v, n)"
    using s1(2) assms(2) value_block_format(3) [of n v] value_block_value [of n v "[]"] by (simp add: mc_value_def)
  have "mc_answer (purse s1) (?b @ crc_a ?b) 0 = None" "mc_after (purse s1) (?b @ crc_a ?b) 0 = (purse s)\<lparr>mc_reg := (w, n)\<rparr>"
    unfolding mc_answer_frame mc_after_frame using s1(2) m assms(1,3) le_bytes_value [of d] by (auto simp: mf_cmds_def)
  then obtain s2 where "PCD_MIFARE_Transceive purse_bus (Some ?b) 4 True s1 = Some (STATUS_OK, s2)" "purse s2 = (purse s)\<lparr>mc_reg := (w, n)\<rparr>"
    using purse_transceive [of 4 ?b s1 True] unfolding t by (auto simp: le_bytes_def)
  then show ?thesis using s1(1) by (simp add: MIFARE_TwoStepHelper_def)
qed

lemma purse_transfer:
  assumes "mc_pending (purse s) = Ready" "mc_reg (purse s) = (w, n)"
  shows "\<exists>s'. MIFARE_Transfer purse_bus b s = Some (STATUS_OK, s') \<and> purse s' = (purse s)\<lparr>mc_mem := (mc_mem (purse s))(b := value_block n w)\<rparr>"
proof -
  let ?f = "[PICC_CMD_MF_TRANSFER, b]"
  have "mc_answer (purse s) (?f @ crc_a ?f) 0 = Some ([MF_ACK], 4)"
    "mc_after (purse s) (?f @ crc_a ?f) 0 = (purse s)\<lparr>mc_mem := (mc_mem (purse s))(b := value_block n w)\<rparr>"
    unfolding mc_answer_frame mc_after_frame using assms by (auto simp: mf_cmds_def)
  then show ?thesis using purse_transceive [of 2 ?f s False] by (auto simp: MIFARE_Transfer_def)
qed

lemma purse_get:
  assumes "mc_pending (purse s) = Ready" "mc_mem (purse s) a = value_block n v" "length buf0 = 18"
  shows "\<exists>s'. MIFARE_GetValue purse_bus buf0 a s = Some (STATUS_OK, Some v, s') \<and> purse s' = purse s"
proof -
  let ?f = "[PICC_CMD_MF_READ, a]" and ?b = "value_block n v"
  have k: "mc_answer (purse s) (?f @ crc_a ?f) 0 = Some (?b @ crc_a ?b, 0)" "mc_after (purse s) (?f @ crc_a ?f) 0 = purse s"
    unfolding mc_answer_frame mc_after_frame using assms(1,2) by (simp_all add: mf_cmds_def)
  have "fits mc_answer (purse s) (?f @ crc_a ?f) 0 = Some (?b @ crc_a ?b, 0)"
    by (rule fits_short [of mc_answer, OF k(1)]) (simp_all add: value_block_format crc_a_length)
  then obtain s' where "MIFARE_Read purse_bus a (Some buf0) 18 s = Some (STATUS_OK, Some (?b @ crc_a ?b), 18, s')" "purse s' = purse s"
    using pcd.mifare_read [where s = s and answer = mc_answer and after = mc_after, OF TrueI assms(3) value_block_format(2) [of n v], of a] k(2)
    by (auto simp: purse_bus_def purse_def pcd.idle_def)
  then show ?thesis by (simp add: MIFARE_GetValue_def value_block_value)
qed

section \<open>Value operations\<close>

text \<open>C35. Value blocks work as a counter. A value that \<^verbatim>\<open>MIFARE_SetValue\<close> writes into block \<open>a\<close> can be incremented, decremented or
  restored and transferred to block \<open>b\<close>; \<^verbatim>\<open>MIFARE_GetValue\<close> then reads the new value from \<open>b\<close>, in arithmetic of 32 bits. Every call
  returns \<^verbatim>\<open>STATUS_OK\<close>, although the card does not answer the second part of the operation.\<close>

theorem mifare_value_operations:
  assumes "mc_pending (purse s) = Ready" "length buf0 = 18"
    "(operation, w) \<in> {(MIFARE_Increment purse_bus a d, v + d), (MIFARE_Decrement purse_bus a d, v - d), (MIFARE_Restore purse_bus a, v)}"
  shows "\<exists>s1 s2 s3 s4. MIFARE_SetValue purse_bus a v s = Some (STATUS_OK, s1) \<and> operation s1 = Some (STATUS_OK, s2) \<and>
     MIFARE_Transfer purse_bus b s2 = Some (STATUS_OK, s3) \<and> MIFARE_GetValue purse_bus buf0 b s3 = Some (STATUS_OK, Some w, s4) \<and>
     mc_mem (purse s4) = (mc_mem (purse s))(a := value_block a v, b := value_block a w)"
proof -
  obtain s1 where s1: "MIFARE_SetValue purse_bus a v s = Some (STATUS_OK, s1)"
      "purse s1 = (purse s)\<lparr>mc_mem := (mc_mem (purse s))(a := value_block a v)\<rparr>"
    using purse_set [OF assms(1)] by blast
  have r: "mc_pending (purse s1) = Ready" "mc_mem (purse s1) a = value_block a v" using s1(2) assms(1) by simp_all
  have "(\<exists>s2. operation s1 = Some (STATUS_OK, s2) \<and> purse s2 = (purse s1)\<lparr>mc_reg := (w, a)\<rparr>)"
    using assms(3) purse_two_step [OF r, of PICC_CMD_MF_INCREMENT w d] purse_two_step [OF r, of PICC_CMD_MF_DECREMENT w d]
      purse_two_step [OF r, of PICC_CMD_MF_RESTORE w 0]
    by (auto simp: MIFARE_Increment_def MIFARE_Decrement_def MIFARE_Restore_def)
  then obtain s2 where s2: "operation s1 = Some (STATUS_OK, s2)" "purse s2 = (purse s1)\<lparr>mc_reg := (w, a)\<rparr>" by blast
  obtain s3 where s3: "MIFARE_Transfer purse_bus b s2 = Some (STATUS_OK, s3)"
      "purse s3 = (purse s2)\<lparr>mc_mem := (mc_mem (purse s2))(b := value_block a w)\<rparr>"
    using purse_transfer [of s2 w a b] s2(2) r(1) by auto
  obtain s4 where "MIFARE_GetValue purse_bus buf0 b s3 = Some (STATUS_OK, Some w, s4)" "purse s4 = purse s3"
    using purse_get [of s3 b a w buf0] s3(2) s2(2) r(1) assms(2) by auto
  then show ?thesis using s1 s2 s3 by auto
qed

theorem mifare_value_operations_witness:
  "\<exists>s1 s2 s3 s4. MIFARE_SetValue purse_bus 5 3 (mf0 (pcd0 \<lparr>mc_mem = (\<lambda>_. replicate 16 0), mc_reg = (0, 0), mc_pending = Ready\<rparr>)) = Some (STATUS_OK, s1) \<and>
     MIFARE_Decrement purse_bus 5 4 s1 = Some (STATUS_OK, s2) \<and> MIFARE_Transfer purse_bus 6 s2 = Some (STATUS_OK, s3) \<and>
     MIFARE_GetValue purse_bus (replicate 18 0) 6 s3 = Some (STATUS_OK, Some 0xFFFFFFFF, s4)"
  using mifare_value_operations [of "mf0 (pcd0 \<lparr>mc_mem = (\<lambda>_. replicate 16 0), mc_reg = (0, 0), mc_pending = Ready\<rparr>)" "replicate 18 0"
      "MIFARE_Decrement purse_bus 5 4" "0xFFFFFFFF" 5 4 3 6]
  by (auto simp: purse_def mf0_def pcd0_def)


end
