(* ===== verification/One_Wire.thy ===== *)
theory One_Wire
  imports Prelude
begin

text \<open>
  The 1-Wire master of \<^verbatim>\<open>src/_1wire.c\<close> and the DS18B20 thermometer driver of \<^verbatim>\<open>src/T_18B20.c\<close> on top of it. The pin and the
  delays are the parameter \<open>dev\<close>: setting the direction and the level of a pin, reading it, waiting for microseconds. The state is
  the static variable \<^verbatim>\<open>ow\<close> and the world behind the pin.
\<close>

section \<open>The pin\<close>

datatype LOGIC_LEVEL_eType = OW_LOW | OW_HIGH
datatype DIRECTION_eType = OW_INPUT | OW_OUTPUT
datatype PRESENCE_t = OW_DEV_NOT_PRESENT | OW_DEV_PRESENT

record 'd gpio =
  gpio_dir :: "u8 \<Rightarrow> u8 \<Rightarrow> DIRECTION_eType \<Rightarrow> 'd \<Rightarrow> 'd"
  gpio_set :: "u8 \<Rightarrow> u8 \<Rightarrow> LOGIC_LEVEL_eType \<Rightarrow> 'd \<Rightarrow> 'd"
  gpio_pin :: "u8 \<Rightarrow> u8 \<Rightarrow> 'd \<Rightarrow> bool"
  delay_uS :: "nat \<Rightarrow> 'd \<Rightarrow> 'd"

record OW_t =
  ow_port :: u8
  ow_pin :: u8

record 'd one_wire =
  ow :: OW_t
  line :: 'd

definition OW_PIN_DIRECTION :: "'d gpio \<Rightarrow> DIRECTION_eType \<Rightarrow> 'd one_wire \<Rightarrow> 'd one_wire" where
  "OW_PIN_DIRECTION dev direction s = s\<lparr>line := gpio_dir dev (ow_port (ow s)) (ow_pin (ow s)) direction (line s)\<rparr>"

definition OW_WRITE_PIN :: "'d gpio \<Rightarrow> LOGIC_LEVEL_eType \<Rightarrow> 'd one_wire \<Rightarrow> 'd one_wire" where
  "OW_WRITE_PIN dev bitstate s = s\<lparr>line := gpio_set dev (ow_port (ow s)) (ow_pin (ow s)) bitstate (line s)\<rparr>"

definition OW_READ_PIN :: "'d gpio \<Rightarrow> 'd one_wire \<Rightarrow> bool" where
  "OW_READ_PIN dev s = gpio_pin dev (ow_port (ow s)) (ow_pin (ow s)) (line s)"

definition delay :: "'d gpio \<Rightarrow> nat \<Rightarrow> 'd one_wire \<Rightarrow> 'd one_wire" where
  "delay dev us s = s\<lparr>line := delay_uS dev us (line s)\<rparr>"

definition OW_PinInit :: "u8 \<Rightarrow> u8 \<Rightarrow> 'd one_wire \<Rightarrow> 'd one_wire" where
  "OW_PinInit port pin s = s\<lparr>ow := \<lparr>ow_port = port, ow_pin = pin\<rparr>\<rparr>"

definition drive_OW_low :: "'d gpio \<Rightarrow> 'd one_wire \<Rightarrow> 'd one_wire" where
  "drive_OW_low dev s = OW_WRITE_PIN dev OW_LOW (OW_PIN_DIRECTION dev OW_OUTPUT s)"

definition drive_OW_high :: "'d gpio \<Rightarrow> 'd one_wire \<Rightarrow> 'd one_wire" where
  "drive_OW_high dev s = OW_WRITE_PIN dev OW_HIGH (OW_PIN_DIRECTION dev OW_OUTPUT s)"

definition read_OW :: "'d gpio \<Rightarrow> 'd one_wire \<Rightarrow> LOGIC_LEVEL_eType \<times> 'd one_wire" where
  "read_OW dev s = (let s = OW_PIN_DIRECTION dev OW_INPUT s in (if OW_READ_PIN dev s then OW_HIGH else OW_LOW, s))"

section \<open>Slots\<close>

definition OW_reset_pulse :: "'d gpio \<Rightarrow> 'd one_wire \<Rightarrow> PRESENCE_t \<times> 'd one_wire" where
  "OW_reset_pulse dev s =
     (let s = drive_OW_low dev s;
          s = delay dev 480 s;
          s = OW_PIN_DIRECTION dev OW_INPUT s;
          s = delay dev 70 s;
          (presence, s) = read_OW dev s;
          s = delay dev 410 s;
          s = drive_OW_high dev s
      in (if presence = OW_HIGH then OW_DEV_NOT_PRESENT else OW_DEV_PRESENT, s))"

definition OW_write_bit :: "'d gpio \<Rightarrow> bool \<Rightarrow> 'd one_wire \<Rightarrow> 'd one_wire" where
  "OW_write_bit dev write_bit s =
     (if write_bit then
        let s = drive_OW_low dev s; s = delay dev 6 s; s = drive_OW_high dev s in delay dev 64 s
      else
        let s = drive_OW_low dev s; s = delay dev 60 s; s = drive_OW_high dev s in delay dev 10 s)"

definition OW_read_bit :: "'d gpio \<Rightarrow> 'd one_wire \<Rightarrow> LOGIC_LEVEL_eType \<times> 'd one_wire" where
  "OW_read_bit dev s =
     (let s = drive_OW_low dev s;
          s = delay dev 6 s;
          s = drive_OW_high dev s;
          s = delay dev 9 s;
          (read_data, s) = read_OW dev s;
          s = delay dev 55 s
      in (read_data, s))"

text \<open>The loops over the eight bits, with the number of rounds that are left.\<close>

fun write_bits :: "'d gpio \<Rightarrow> nat \<Rightarrow> u8 \<Rightarrow> 'd one_wire \<Rightarrow> 'd one_wire" where
  "write_bits dev 0 write_data s = s"
| "write_bits dev (Suc n) write_data s =
     (let s = OW_write_bit dev (write_data AND 0x01 \<noteq> 0) s in write_bits dev n (drop_bit 1 write_data) s)"

definition OW_write_byte :: "'d gpio \<Rightarrow> u8 \<Rightarrow> 'd one_wire \<Rightarrow> 'd one_wire" where
  "OW_write_byte dev write_data s = write_bits dev 8 write_data s"

fun read_bits :: "'d gpio \<Rightarrow> nat \<Rightarrow> u8 \<Rightarrow> 'd one_wire \<Rightarrow> u8 \<times> 'd one_wire" where
  "read_bits dev 0 result s = (result, s)"
| "read_bits dev (Suc n) result s =
     (let result = drop_bit 1 result; (b, s) = OW_read_bit dev s
      in read_bits dev n (if b = OW_HIGH then result OR 0x80 else result) s)"

definition OW_read_byte :: "'d gpio \<Rightarrow> 'd one_wire \<Rightarrow> u8 \<times> 'd one_wire" where
  "OW_read_byte dev s = read_bits dev 8 0 s"

section \<open>The thermometer\<close>

definition READ_ROM :: u8 where "READ_ROM = 0x33"
definition MATCH_ROM :: u8 where "MATCH_ROM = 0x55"
definition SKIP_ROM :: u8 where "SKIP_ROM = 0xCC"
definition CONVERT_T :: u8 where "CONVERT_T = 0x44"
definition READ_SCRATCHPAD :: u8 where "READ_SCRATCHPAD = 0xBE"

lemmas ds18_cmds_def = READ_ROM_def MATCH_ROM_def SKIP_ROM_def CONVERT_T_def READ_SCRATCHPAD_def

datatype TEMP_TYPE_e = CELSIUS | FARENHEIT

record SPAD =
  TempLow :: u8
  TempHi :: u8
  UserByte1 :: u8
  UserByte2 :: u8
  Config :: u8
  reserved0 :: u8
  reserved1 :: u8
  reserved2 :: u8
  CRC :: u8

record TEMP =
  Temp_Whole :: u8
  Temp_Decimal :: u8
  Temp_Type :: TEMP_TYPE_e
  Highest_Temp :: u8
  Lowest_Temp :: u8

text \<open>The eight bytes of the identification are a list.\<close>

record DS18b20_t =
  OW_s :: OW_t
  ROMAddressID :: "u8 list"
  ScratchPad_s :: SPAD
  Temperature_s :: TEMP

fun read_bytes :: "'d gpio \<Rightarrow> nat \<Rightarrow> 'd one_wire \<Rightarrow> u8 list \<times> 'd one_wire" where
  "read_bytes dev 0 s = ([], s)"
| "read_bytes dev (Suc n) s = (let (b, s) = OW_read_byte dev s; (bs, s) = read_bytes dev n s in (b # bs, s))"

definition DS18B20CmdGetROMIDCode :: "'d gpio \<Rightarrow> DS18b20_t \<Rightarrow> 'd one_wire \<Rightarrow> bool \<times> DS18b20_t \<times> 'd one_wire" where
  "DS18B20CmdGetROMIDCode dev temp s =
     (let (p, s) = OW_reset_pulse dev s in
      if p = OW_DEV_NOT_PRESENT then (False, temp, s)
      else let s = OW_write_byte dev READ_ROM s;
               (rom, s) = read_bytes dev 8 s
           in (True, temp\<lparr>ROMAddressID := rom\<rparr>, s))"

fun send_rom :: "'d gpio \<Rightarrow> u8 list \<Rightarrow> 'd one_wire \<Rightarrow> 'd one_wire" where
  "send_rom dev [] s = s"
| "send_rom dev (b # bs) s = (let s = OW_write_byte dev b s; s = delay dev 10 s in send_rom dev bs s)"

definition DS18B20ConfirmIDofDevice :: "'d gpio \<Rightarrow> DS18b20_t \<Rightarrow> 'd one_wire \<Rightarrow> bool \<times> 'd one_wire" where
  "DS18B20ConfirmIDofDevice dev temp s =
     (let (p, s) = OW_reset_pulse dev s in
      if p = OW_DEV_NOT_PRESENT then (False, s)
      else let s = OW_write_byte dev MATCH_ROM s in (True, send_rom dev (take 8 (ROMAddressID temp)) s))"

text \<open>The conversion of the two bytes of the temperature register, and the extremes. The products and sums are of type \<^verbatim>\<open>int\<close>; the
  results are stored in bytes.\<close>

definition convert :: "SPAD \<Rightarrow> TEMP \<Rightarrow> TEMP" where
  "convert sp t =
     (case Temp_Type t of
        CELSIUS \<Rightarrow>
          let whole = push_bit 4 (TempHi sp AND 0x07) OR drop_bit 4 (TempLow sp);
              decimal = of_nat (unat (TempLow sp AND 0x0F) * 625)
          in t\<lparr>Temp_Whole := whole, Temp_Decimal := decimal\<rparr>
      | FARENHEIT \<Rightarrow>
          let c16 = unat (TempHi sp) * 256 + unat (TempLow sp);
              c2 = c16 div 8;
              f10 = c16 + c2 + 320
          in t\<lparr>Temp_Whole := of_nat (f10 div 10), Temp_Decimal := of_nat (f10 mod 10)\<rparr>)"

definition extremes :: "TEMP \<Rightarrow> TEMP" where
  "extremes t =
     (let t = (if Temp_Whole t \<ge> Highest_Temp t then t\<lparr>Highest_Temp := Temp_Whole t\<rparr> else t)
      in if Temp_Whole t \<le> Lowest_Temp t then t\<lparr>Lowest_Temp := Temp_Whole t\<rparr> else t)"

definition DS18B20GetTemperature :: "'d gpio \<Rightarrow> DS18b20_t \<Rightarrow> 'd one_wire \<Rightarrow> bool \<times> DS18b20_t \<times> 'd one_wire" where
  "DS18B20GetTemperature dev temp s =
     (let (p, s) = OW_reset_pulse dev s in
      if p = OW_DEV_NOT_PRESENT then (False, temp, s)
      else
        let s = OW_write_byte dev SKIP_ROM s;
            s = OW_write_byte dev CONVERT_T s;
            s = delay dev 5 s;
            (p, s) = OW_reset_pulse dev s
        in if p = OW_DEV_NOT_PRESENT then (False, temp, s)
           else
             let s = OW_write_byte dev SKIP_ROM s;
                 s = OW_write_byte dev READ_SCRATCHPAD s;
                 (lo, s) = OW_read_byte dev s;
                 (hi, s) = OW_read_byte dev s;
                 temp = temp\<lparr>ScratchPad_s := (ScratchPad_s temp)\<lparr>TempLow := lo, TempHi := hi\<rparr>\<rparr>;
                 (p, s) = OW_reset_pulse dev s
             in if p = OW_DEV_NOT_PRESENT then (False, temp, s)
                else (True, temp\<lparr>Temperature_s := extremes (convert (ScratchPad_s temp) (Temperature_s temp))\<rparr>, s))"

definition DS18B20GetScrachtPadReg :: "'d gpio \<Rightarrow> DS18b20_t \<Rightarrow> 'd one_wire \<Rightarrow> bool \<times> DS18b20_t \<times> 'd one_wire" where
  "DS18B20GetScrachtPadReg dev temp s =
     (let (p, s) = OW_reset_pulse dev s in
      if p = OW_DEV_NOT_PRESENT then (False, temp, s)
      else
        let s = OW_write_byte dev SKIP_ROM s;
            s = OW_write_byte dev READ_SCRATCHPAD s;
            (b0, s) = OW_read_byte dev s;
            (b1, s) = OW_read_byte dev s;
            (b2, s) = OW_read_byte dev s;
            (b3, s) = OW_read_byte dev s;
            (b4, s) = OW_read_byte dev s;
            (b5, s) = OW_read_byte dev s;
            (b6, s) = OW_read_byte dev s;
            (b7, s) = OW_read_byte dev s;
            (b8, s) = OW_read_byte dev s
        in (True, temp\<lparr>ScratchPad_s := \<lparr>TempLow = b0, TempHi = b1, UserByte1 = b2, UserByte2 = b3, Config = b4,
              reserved0 = b5, reserved1 = b6, reserved2 = b7, CRC = b8\<rparr>\<rparr>, s))"

definition DS18B20Init :: "'d gpio \<Rightarrow> DS18b20_t \<Rightarrow> 'd one_wire \<Rightarrow> bool \<times> DS18b20_t \<times> 'd one_wire" where
  "DS18B20Init dev temp s =
     (let s = OW_PinInit (ow_port (OW_s temp)) (ow_pin (OW_s temp)) s;
          (p, s) = OW_reset_pulse dev s
      in if p = OW_DEV_NOT_PRESENT then (False, temp, s)
         else
           let (ok, temp, s) = DS18B20CmdGetROMIDCode dev temp s in
           if \<not> ok then (False, temp, s)
           else
             let (ok, temp, s) = DS18B20GetScrachtPadReg dev temp s in
             if \<not> ok then (False, temp, s)
             else
               let (ok, temp, s) = DS18B20GetTemperature dev temp s in
               if \<not> ok then (False, temp, s)
               else (True, temp\<lparr>Temperature_s := (Temperature_s temp)\<lparr>Lowest_Temp := Temp_Whole (Temperature_s temp)\<rparr>\<rparr>, s))"

end
