(* ===== verification/One_Wire_Bus.thy ===== *)
theory One_Wire_Bus
  imports One_Wire
begin

text \<open>
  The 1-Wire bus. The locale \<open>ow_bus\<close> is what the functions for bytes need of the slots: a device that takes or sends one bit in each
  slot. Its lemmas are about bytes. A simulated line, which measures how long the master pulls it low, satisfies the contract for
  any device and any timing that the data sheets allow.

  The line is an ideal one: a delay takes exactly the microseconds it is given and the instructions between the delays
  take no time. On the target the delays are slightly longer, and the sample of a read slot, here exactly at the limit
  of 15 microseconds, is later by that much. The line is low when master or device pulls it low, so driving it high
  against a device that pulls has no effect here.
\<close>

section \<open>Bits of a byte\<close>

definition byte_bits :: "u8 \<Rightarrow> bool list" where
  "byte_bits b = map (bit b) [0..<8]"

definition byte_of :: "bool list \<Rightarrow> u8" where
  "byte_of bs = horner_sum of_bool 2 bs"

lemma byte_of_bits: "byte_of (byte_bits b) = b"
  unfolding byte_of_def byte_bits_def horner_sum_bit_eq_take_bit by (simp add: take_bit_word_eq_self)

lemma length_byte_bits [simp]: "length (byte_bits b) = 8"
  by (simp add: byte_bits_def)

lemma no_byte: "b * 256 = 0" for b :: u8
  by (rule bit_word_eqI) (simp add: bit_simps push_bit_eq_mult [of 8 b, simplified, symmetric])

text \<open>A bit that is read is shifted in at the top.\<close>

lemma next_bit:
  fixes b :: u8
  assumes "i < 8"
  shows "(if bit b i then drop_bit 1 (push_bit (8 - i) b) OR 0x80 else drop_bit 1 (push_bit (8 - i) b)) = push_bit (8 - Suc i) b"
proof (rule bit_word_eqI)
  fix n :: nat
  assume n: "n < LENGTH(8)"
  have top: "bit (0x80 :: u8) n \<longleftrightarrow> n = 7"
    using bit_push_bit_iff [of 7 "1 :: u8" n] n by (auto simp: push_bit_eq_mult bit_1_iff)
  show "bit (if bit b i then drop_bit 1 (push_bit (8 - i) b) OR 0x80 else drop_bit 1 (push_bit (8 - i) b)) n = bit (push_bit (8 - Suc i) b) n"
    using n assms top by (cases "n = 7") (auto simp: bit_simps)
qed

section \<open>The contract\<close>

text \<open>\<open>ready\<close>: the master does not pull the line low. \<open>pull\<close>: the device sends a zero in the next slot. \<open>slot\<close>: the device after a
  slot in which it saw a short pulse (a one, or a slot for reading) or a long one (a zero). \<open>restart\<close>: after a reset pulse.\<close>

locale ow_bus =
  fixes dev :: "'d gpio" and ready :: "'d \<Rightarrow> bool" and slave :: "'d \<Rightarrow> 'k" and pull :: "'k \<Rightarrow> bool" and slot :: "'k \<Rightarrow> bool \<Rightarrow> 'k"
    and restart :: "'k \<Rightarrow> 'k"
  assumes write_bit: "ready (line s) \<Longrightarrow>
      \<exists>d. OW_write_bit dev b s = s\<lparr>line := d\<rparr> \<and> ready d \<and> slave d = slot (slave (line s)) b"
    and read_bit: "ready (line s) \<Longrightarrow>
      \<exists>d. OW_read_bit dev s = (if pull (slave (line s)) then OW_LOW else OW_HIGH, s\<lparr>line := d\<rparr>) \<and> ready d \<and> slave d = slot (slave (line s)) True"
    and reset_pulse: "ready (line s) \<Longrightarrow>
      \<exists>d. OW_reset_pulse dev s = (OW_DEV_PRESENT, s\<lparr>line := d\<rparr>) \<and> ready d \<and> slave d = restart (slave (line s))"
    and pause: "ready d \<Longrightarrow> ready (delay_uS dev n d) \<and> slave (delay_uS dev n d) = slave d"
begin

text \<open>The bits that the device sends from a state, and the state after them.\<close>

fun sends :: "'k \<Rightarrow> bool list \<Rightarrow> 'k \<Rightarrow> bool" where
  "sends k [] k' \<longleftrightarrow> k = k'"
| "sends k (b # bs) k' \<longleftrightarrow> pull k = (\<not> b) \<and> sends (slot k True) bs k'"

lemma sends_append: "sends k (bs @ cs) k' \<longleftrightarrow> (\<exists>k1. sends k bs k1 \<and> sends k1 cs k')"
  by (induction bs arbitrary: k) auto

lemma write_bits_run:
  "ready (line s) \<Longrightarrow> \<exists>d. write_bits dev n b s = s\<lparr>line := d\<rparr> \<and> ready d \<and> slave d = foldl slot (slave (line s)) (map (bit b) [0..<n])"
proof (induction n arbitrary: b s)
  case 0
  then show ?case by (intro exI [of _ "line s"]) simp
next
  case (Suc n)
  have b: "b AND 0x01 \<noteq> 0 \<longleftrightarrow> bit b 0" by (simp add: and_one_eq odd_iff_mod_2_eq_one bit_0)
  obtain d where d: "OW_write_bit dev (bit b 0) s = s\<lparr>line := d\<rparr>" "ready d" "slave d = slot (slave (line s)) (bit b 0)"
    using write_bit [OF Suc.prems] by blast
  obtain d' where d': "write_bits dev n (drop_bit 1 b) (s\<lparr>line := d\<rparr>) = s\<lparr>line := d'\<rparr>" "ready d'"
      "slave d' = foldl slot (slave d) (map (bit (drop_bit 1 b)) [0..<n])"
    using Suc.IH [of "s\<lparr>line := d\<rparr>" "drop_bit 1 b"] d(2) by auto
  have "map (bit b) [0..<Suc n] = bit b 0 # map (bit (drop_bit 1 b)) [0..<n]"
    unfolding upt_conv_Cons [OF zero_less_Suc] by (simp add: map_Suc_upt [symmetric] bit_drop_bit_eq comp_def del: upt_Suc)
  then show ?case using d d' by (intro exI [of _ d']) (simp add: b del: upt_Suc)
qed

lemma write_byte:
  "ready (line s) \<Longrightarrow> \<exists>d. OW_write_byte dev b s = s\<lparr>line := d\<rparr> \<and> ready d \<and> slave d = foldl slot (slave (line s)) (byte_bits b)"
  unfolding OW_write_byte_def byte_bits_def by (rule write_bits_run)

text \<open>The bits received so far are the upper bits of the result.\<close>

lemma read_bits_run:
  "ready (line s) \<Longrightarrow> sends (slave (line s)) (map (bit b) [i..<8]) k' \<Longrightarrow> i \<le> 8 \<Longrightarrow>
   \<exists>d. read_bits dev (8 - i) (push_bit (8 - i) b) s = (b, s\<lparr>line := d\<rparr>) \<and> ready d \<and> slave d = k'"
proof (induction "8 - i" arbitrary: s i)
  case 0
  then show ?case by (intro exI [of _ "line s"]) simp
next
  case (Suc n)
  then have i: "i < 8" "8 - i = Suc n" "n = 8 - Suc i" by simp_all
  have u: "[i..<8] = i # [Suc i..<8]" using i(1) by (rule upt_conv_Cons)
  have p: "pull (slave (line s)) = (\<not> bit b i)" using Suc.prems(2) unfolding u by simp
  obtain d where d: "OW_read_bit dev s = (if \<not> bit b i then OW_LOW else OW_HIGH, s\<lparr>line := d\<rparr>)" "ready d" "slave d = slot (slave (line s)) True"
    using read_bit [OF Suc.prems(1)] unfolding p by blast
  obtain d' where "read_bits dev (8 - Suc i) (push_bit (8 - Suc i) b) (s\<lparr>line := d\<rparr>) = (b, s\<lparr>line := d'\<rparr>)" "ready d'" "slave d' = k'"
    using Suc.hyps(1) [OF i(3), of "s\<lparr>line := d\<rparr>"] Suc.prems(2) d i(1) unfolding u by auto
  then show ?case using d(1) next_bit [OF i(1), of b] i by (intro exI [of _ d']) (auto simp: Let_def split: if_splits)
qed

lemma read_byte:
  assumes "ready (line s)" "sends (slave (line s)) (byte_bits b) k'"
  shows "\<exists>d. OW_read_byte dev s = (b, s\<lparr>line := d\<rparr>) \<and> ready d \<and> slave d = k'"
  using read_bits_run [of s b 0 k'] assms by (simp add: OW_read_byte_def byte_bits_def push_bit_eq_mult no_byte)

lemma read_bytes_run:
  assumes "ready (line s)" "sends (slave (line s)) (concat (map byte_bits bs)) k'"
  shows "\<exists>d. read_bytes dev (length bs) s = (bs, s\<lparr>line := d\<rparr>) \<and> ready d \<and> slave d = k'"
  using assms
proof (induction bs arbitrary: s)
  case Nil
  then show ?case by (intro exI [of _ "line s"]) simp
next
  case (Cons b bs)
  obtain k1 where k1: "sends (slave (line s)) (byte_bits b) k1" "sends k1 (concat (map byte_bits bs)) k'"
    using Cons.prems(2) by (auto simp: sends_append)
  obtain d where d: "OW_read_byte dev s = (b, s\<lparr>line := d\<rparr>)" "ready d" "slave d = k1" using read_byte [OF Cons.prems(1) k1(1)] by blast
  show ?case using Cons.IH [of "s\<lparr>line := d\<rparr>"] d k1(2) by auto
qed

end

section \<open>A simulated line\<close>

text \<open>The device does not drive the line high; it pulls it low while it sends a zero, and after a reset pulse to show its presence.
  \<open>ol_since\<close> is the time since the last falling edge or since the end of the reset pulse.\<close>

record 'k ow_line =
  ol_dir :: DIRECTION_eType
  ol_latch :: LOGIC_LEVEL_eType
  ol_since :: nat
  ol_pulling :: bool
  ol_presence :: bool
  ol_slave :: 'k

definition master_low :: "'k ow_line \<Rightarrow> bool" where
  "master_low d \<longleftrightarrow> ol_dir d = OW_OUTPUT \<and> ol_latch d = OW_LOW"

text \<open>The device measures a low pulse when it ends: from 480 microseconds on it is a reset, from 60 a zero, from 1 to 15 a one or a
  slot for reading. Pulses of less than a microsecond are not seen; for other lengths the data sheet promises nothing, and the
  device ignores them here.\<close>

definition master_changes ::
  "('k \<Rightarrow> bool) \<Rightarrow> ('k \<Rightarrow> bool \<Rightarrow> 'k) \<Rightarrow> ('k \<Rightarrow> 'k) \<Rightarrow> 'k ow_line \<Rightarrow> 'k ow_line \<Rightarrow> 'k ow_line" where
  "master_changes pull slot restart d d' =
     (if \<not> master_low d \<and> master_low d' then d'\<lparr>ol_since := 0, ol_pulling := pull (ol_slave d), ol_presence := False\<rparr>
      else if master_low d \<and> \<not> master_low d' then
        (if 480 \<le> ol_since d then d'\<lparr>ol_since := 0, ol_pulling := False, ol_presence := True, ol_slave := restart (ol_slave d)\<rparr>
         else if 60 \<le> ol_since d then d'\<lparr>ol_slave := slot (ol_slave d) False\<rparr>
         else if 1 \<le> ol_since d \<and> ol_since d < 15 then d'\<lparr>ol_slave := slot (ol_slave d) True\<rparr>
         else d')
      else d')"

text \<open>The timing of the device: a zero is held for \<open>15 + h\<close> microseconds from the falling edge; the presence pulse starts at
  most 60 and at least 15 microseconds after the reset pulse and is at least 60 long.\<close>

definition device_low :: "nat \<times> nat \<times> nat \<Rightarrow> 'k ow_line \<Rightarrow> bool" where
  "device_low timing d =
     (case timing of (h, w, l) \<Rightarrow>
        ol_pulling d \<and> ol_since d \<le> 15 + h \<or>
        ol_presence d \<and> 15 + min w 45 \<le> ol_since d \<and> ol_since d \<le> 15 + min w 45 + 60 + l)"

definition ow_dev ::
  "nat \<times> nat \<times> nat \<Rightarrow> ('k \<Rightarrow> bool) \<Rightarrow> ('k \<Rightarrow> bool \<Rightarrow> 'k) \<Rightarrow> ('k \<Rightarrow> 'k) \<Rightarrow> 'k ow_line gpio" where
  "ow_dev timing pull slot restart =
     \<lparr>gpio_dir = (\<lambda>port pin dir d. master_changes pull slot restart d (d\<lparr>ol_dir := dir\<rparr>)),
      gpio_set = (\<lambda>port pin level d. master_changes pull slot restart d (d\<lparr>ol_latch := level\<rparr>)),
      gpio_pin = (\<lambda>port pin d. if ol_dir d = OW_OUTPUT then ol_latch d = OW_HIGH else \<not> device_low timing d),
      delay_uS = (\<lambda>n d. d\<lparr>ol_since := ol_since d + n\<rparr>)\<rparr>"

lemmas ow_dev_simps = ow_dev_def OW_PIN_DIRECTION_def OW_WRITE_PIN_def OW_READ_PIN_def delay_def master_changes_def master_low_def

lemma master_pulls:
  "\<not> master_low (line s) \<Longrightarrow>
   drive_OW_low (ow_dev timing pull slot restart) s = s\<lparr>line := (line s)\<lparr>ol_dir := OW_OUTPUT, ol_latch := OW_LOW, ol_since := 0,
     ol_pulling := pull (ol_slave (line s)), ol_presence := False\<rparr>\<rparr>"
  by (cases "ol_latch (line s)"; cases "ol_dir (line s)") (simp_all add: drive_OW_low_def ow_dev_simps)

lemma line_write_bit:
  assumes "\<not> master_low (line s)"
  shows "\<exists>d. OW_write_bit (ow_dev timing pull slot restart) b s = s\<lparr>line := d\<rparr> \<and> \<not> master_low d \<and> ol_slave d = slot (ol_slave (line s)) b"
  unfolding OW_write_bit_def master_pulls [OF assms] Let_def
  by (cases b) (auto simp: drive_OW_high_def ow_dev_simps intro!: exI)

lemma line_read_bit:
  assumes "\<not> master_low (line s)"
  shows "\<exists>d. OW_read_bit (ow_dev timing pull slot restart) s = (if pull (ol_slave (line s)) then OW_LOW else OW_HIGH, s\<lparr>line := d\<rparr>) \<and>
    \<not> master_low d \<and> ol_slave d = slot (ol_slave (line s)) True"
  unfolding OW_read_bit_def master_pulls [OF assms] Let_def
  by (auto simp: drive_OW_high_def read_OW_def device_low_def Let_def ow_dev_simps split: prod.splits intro!: exI)

lemma line_reset_pulse:
  assumes "\<not> master_low (line s)"
  shows "\<exists>d. OW_reset_pulse (ow_dev timing pull slot restart) s = (OW_DEV_PRESENT, s\<lparr>line := d\<rparr>) \<and>
    \<not> master_low d \<and> ol_slave d = restart (ol_slave (line s))"
  unfolding OW_reset_pulse_def master_pulls [OF assms] Let_def
  by (auto simp: drive_OW_high_def read_OW_def device_low_def Let_def ow_dev_simps split: prod.splits intro!: exI)

interpretation wire: ow_bus "ow_dev timing pull slot restart" "\<lambda>d. \<not> master_low d" ol_slave pull slot restart
  by unfold_locales (use line_write_bit line_read_bit line_reset_pulse in \<open>blast | simp add: ow_dev_def master_low_def\<close>)+


section \<open>Bytes\<close>

text \<open>The bits that a device sends in the next slots.\<close>

fun sent_bits :: "('k \<Rightarrow> bool) \<Rightarrow> ('k \<Rightarrow> bool \<Rightarrow> 'k) \<Rightarrow> nat \<Rightarrow> 'k \<Rightarrow> bool list" where
  "sent_bits pull slot 0 k = []"
| "sent_bits pull slot (Suc n) k = (\<not> pull k) # sent_bits pull slot n (slot k True)"

lemma length_sent_bits: "length (sent_bits pull slot n k) = n"
  by (induction n arbitrary: k) simp_all

lemma sends_sent_bits: "wire.sends pull slot k (sent_bits pull slot n k) (((\<lambda>k. slot k True) ^^ n) k)"
  by (induction n arbitrary: k) (simp_all add: funpow_Suc_right del: funpow.simps)

lemma bits_of_byte: "length bs = 8 \<Longrightarrow> byte_bits (byte_of bs) = bs"
  by (rule nth_equalityI) (auto simp: byte_bits_def byte_of_def bit_horner_sum_bit_iff)

text \<open>C39. Bytes on the wire. For any device on the line, with any timing that the data sheets allow, the pulses of \<^verbatim>\<open>OW_write_byte\<close> are
  seen by the device as the eight bits of the byte, lowest first; \<^verbatim>\<open>OW_read_byte\<close> returns the byte of the bits that the device sends in the next
  eight slots; \<^verbatim>\<open>OW_reset_pulse\<close> resets the device and finds it present. The line is left free each time.\<close>

theorem one_wire_bytes:
  assumes "\<not> master_low (line s)" "ol_slave (line s) = k"
  shows "(\<exists>d. OW_write_byte (ow_dev timing pull slot restart) b s = s\<lparr>line := d\<rparr> \<and> \<not> master_low d \<and> ol_slave d = foldl slot k (byte_bits b)) \<and>
     (\<exists>d. OW_read_byte (ow_dev timing pull slot restart) s = (byte_of (sent_bits pull slot 8 k), s\<lparr>line := d\<rparr>) \<and> \<not> master_low d \<and>
        ol_slave d = ((\<lambda>k. slot k True) ^^ 8) k) \<and>
     (\<exists>d. OW_reset_pulse (ow_dev timing pull slot restart) s = (OW_DEV_PRESENT, s\<lparr>line := d\<rparr>) \<and> \<not> master_low d \<and> ol_slave d = restart k)"
proof -
  have "wire.sends pull slot (ol_slave (line s)) (byte_bits (byte_of (sent_bits pull slot 8 k))) (((\<lambda>k. slot k True) ^^ 8) k)"
    using sends_sent_bits [of pull slot k 8] bits_of_byte [OF length_sent_bits] assms(2) by metis
  then show ?thesis using wire.write_byte [OF assms(1)] wire.read_byte [OF assms(1)] wire.reset_pulse [OF assms(1)] assms(2) by blast
qed

text \<open>A device that remembers the slots and always sends zeros.\<close>

theorem one_wire_bytes_witness:
  "\<exists>d. OW_write_byte (ow_dev (0, 0, 0) (\<lambda>_. True) (\<lambda>k b. k @ [b]) (\<lambda>_. [])) 0x35
      \<lparr>ow = \<lparr>ow_port = 1, ow_pin = 5\<rparr>, line = \<lparr>ol_dir = OW_INPUT, ol_latch = OW_LOW, ol_since = 0, ol_pulling = False, ol_presence = False,
        ol_slave = []\<rparr>\<rparr> = \<lparr>ow = \<lparr>ow_port = 1, ow_pin = 5\<rparr>, line = d\<rparr> \<and>
     ol_slave d = [True, False, True, False, True, True, False, False]"
  using one_wire_bytes [of "\<lparr>ow = \<lparr>ow_port = 1, ow_pin = 5\<rparr>, line = \<lparr>ol_dir = OW_INPUT, ol_latch = OW_LOW, ol_since = 0, ol_pulling = False,
      ol_presence = False, ol_slave = []\<rparr>\<rparr>" "[]" "(0, 0, 0)" "\<lambda>_. True" "\<lambda>k b. k @ [b]" "\<lambda>_. []" "0x35"]
  by (auto simp: master_low_def byte_bits_def upt_rec)


end
