(* ===== verification/Ds18b20.thy ===== *)
theory Ds18b20
  imports One_Wire_Bus
begin

text \<open>
  The thermometer driver with a simulated DS18B20 on the simulated line: what the driver reads is what the device has in its memory,
  and how the temperature is computed from it.
\<close>

section \<open>The device\<close>

text \<open>The device waits for the bits of a ROM command or of a function command, compares its identification, sends bits, or waits for the
  next reset. A temperature conversion takes up to 750 milliseconds; that it was started is recorded.\<close>

datatype thermo_mode = Th_Rom "bool list" | Th_Match "bool list" | Th_Function "bool list" | Th_Send "bool list" | Th_Off

record thermo =
  th_rom :: "u8 list"
  th_pad :: "u8 list"
  th_mode :: thermo_mode
  th_converting :: bool

definition thermo_pull :: "thermo \<Rightarrow> bool" where
  "thermo_pull k = (case th_mode k of Th_Send (b # bs) \<Rightarrow> \<not> b | _ \<Rightarrow> False)"

definition rom_command :: "thermo \<Rightarrow> u8 \<Rightarrow> thermo" where
  "rom_command k c =
     (if c = SKIP_ROM then k\<lparr>th_mode := Th_Function []\<rparr>
      else if c = READ_ROM then k\<lparr>th_mode := Th_Send (concat (map byte_bits (th_rom k)))\<rparr>
      else if c = MATCH_ROM then k\<lparr>th_mode := Th_Match []\<rparr>
      else k\<lparr>th_mode := Th_Off\<rparr>)"

definition function_command :: "thermo \<Rightarrow> u8 \<Rightarrow> thermo" where
  "function_command k c =
     (if c = CONVERT_T then k\<lparr>th_mode := Th_Off, th_converting := True\<rparr>
      else if c = READ_SCRATCHPAD then k\<lparr>th_mode := Th_Send (concat (map byte_bits (th_pad k)))\<rparr>
      else k\<lparr>th_mode := Th_Off\<rparr>)"

definition thermo_slot :: "thermo \<Rightarrow> bool \<Rightarrow> thermo" where
  "thermo_slot k b =
     (case th_mode k of
        Th_Rom bs \<Rightarrow> if length bs < 7 then k\<lparr>th_mode := Th_Rom (bs @ [b])\<rparr> else rom_command k (byte_of (bs @ [b]))
      | Th_Function bs \<Rightarrow> if length bs < 7 then k\<lparr>th_mode := Th_Function (bs @ [b])\<rparr> else function_command k (byte_of (bs @ [b]))
      | Th_Match bs \<Rightarrow>
          if length bs < 63 then k\<lparr>th_mode := Th_Match (bs @ [b])\<rparr>
          else k\<lparr>th_mode := (if bs @ [b] = concat (map byte_bits (th_rom k)) then Th_Function [] else Th_Off)\<rparr>
      | Th_Send bs \<Rightarrow> k\<lparr>th_mode := Th_Send (tl bs)\<rparr>
      | Th_Off \<Rightarrow> k)"

definition thermo_restart :: "thermo \<Rightarrow> thermo" where
  "thermo_restart k = k\<lparr>th_mode := Th_Rom []\<rparr>"

definition thermo_dev :: "nat \<times> nat \<times> nat \<Rightarrow> thermo ow_line gpio" where
  "thermo_dev timing = ow_dev timing thermo_pull thermo_slot thermo_restart"

text \<open>The bits of a command arrive one by one; the last one makes the device act.\<close>

lemma rom_bits:
  "th_mode k = Th_Rom as \<Longrightarrow> length as + length bs < 8 \<Longrightarrow> foldl thermo_slot k bs = k\<lparr>th_mode := Th_Rom (as @ bs)\<rparr>"
  by (induction bs arbitrary: k as) (auto simp: thermo_slot_def)

lemma function_bits:
  "th_mode k = Th_Function as \<Longrightarrow> length as + length bs < 8 \<Longrightarrow> foldl thermo_slot k bs = k\<lparr>th_mode := Th_Function (as @ bs)\<rparr>"
  by (induction bs arbitrary: k as) (auto simp: thermo_slot_def)

lemma byte_snoc: "\<exists>bs b. byte_bits c = bs @ [b] \<and> length bs = 7"
  using length_byte_bits [of c] by (cases "byte_bits c" rule: rev_cases) auto

lemma rom_byte:
  assumes "th_mode k = Th_Rom []"
  shows "foldl thermo_slot k (byte_bits c) = rom_command k c"
proof -
  obtain bs b where b: "byte_bits c = bs @ [b]" "length bs = 7" using byte_snoc by blast
  have "byte_of (bs @ [b]) = c" using byte_of_bits [of c] b(1) by simp
  then show ?thesis using b rom_bits [OF assms, of bs] by (simp add: thermo_slot_def rom_command_def)
qed

lemma function_byte:
  assumes "th_mode k = Th_Function []"
  shows "foldl thermo_slot k (byte_bits c) = function_command k c"
proof -
  obtain bs b where b: "byte_bits c = bs @ [b]" "length bs = 7" using byte_snoc by blast
  have "byte_of (bs @ [b]) = c" using byte_of_bits [of c] b(1) by simp
  then show ?thesis using b function_bits [OF assms, of bs] by (simp add: thermo_slot_def function_command_def)
qed

lemma thermo_sends:
  "th_mode k = Th_Send (bs @ rest) \<Longrightarrow> wire.sends thermo_pull thermo_slot k bs (k\<lparr>th_mode := Th_Send rest\<rparr>)"
proof (induction bs arbitrary: k)
  case Nil
  then show ?case by simp
next
  case (Cons b bs)
  have "thermo_slot k True = k\<lparr>th_mode := Th_Send (bs @ rest)\<rparr>" using Cons.prems by (simp add: thermo_slot_def)
  then have "wire.sends thermo_pull thermo_slot (thermo_slot k True) bs (k\<lparr>th_mode := Th_Send rest\<rparr>)"
    using Cons.IH [of "k\<lparr>th_mode := Th_Send (bs @ rest)\<rparr>"] by simp
  moreover have "thermo_pull k = (\<not> b)" using Cons.prems by (simp add: thermo_pull_def)
  ultimately show ?case by simp
qed

section \<open>Transactions\<close>

lemma address_device:
  assumes "\<not> master_low (line s)"
  shows "\<exists>d1 d2. OW_reset_pulse (thermo_dev timing) s = (OW_DEV_PRESENT, s\<lparr>line := d1\<rparr>) \<and>
     OW_write_byte (thermo_dev timing) c (s\<lparr>line := d1\<rparr>) = s\<lparr>line := d2\<rparr> \<and>
     \<not> master_low d1 \<and> \<not> master_low d2 \<and> ol_slave d2 = rom_command (thermo_restart (ol_slave (line s))) c"
proof -
  obtain d1 where d1: "OW_reset_pulse (thermo_dev timing) s = (OW_DEV_PRESENT, s\<lparr>line := d1\<rparr>)" "\<not> master_low d1"
      "ol_slave d1 = thermo_restart (ol_slave (line s))"
    using wire.reset_pulse [OF assms] unfolding thermo_dev_def by blast
  have m: "th_mode (ol_slave d1) = Th_Rom []" by (simp add: d1(3) thermo_restart_def)
  obtain d2 where "OW_write_byte (thermo_dev timing) c (s\<lparr>line := d1\<rparr>) = s\<lparr>line := d2\<rparr>" "\<not> master_low d2"
      "ol_slave d2 = rom_command (ol_slave d1) c"
    using wire.write_byte [where s = "s\<lparr>line := d1\<rparr>" and b = c and slot = thermo_slot] d1(2) rom_byte [OF m] unfolding thermo_dev_def by fastforce
  then show ?thesis using d1 by (intro exI [of _ d1] exI [of _ d2]) simp
qed

lemma skip_command:
  assumes "\<not> master_low (line s)"
  shows "\<exists>d1 d2 d3. OW_reset_pulse (thermo_dev timing) s = (OW_DEV_PRESENT, s\<lparr>line := d1\<rparr>) \<and>
     OW_write_byte (thermo_dev timing) SKIP_ROM (s\<lparr>line := d1\<rparr>) = s\<lparr>line := d2\<rparr> \<and>
     OW_write_byte (thermo_dev timing) c (s\<lparr>line := d2\<rparr>) = s\<lparr>line := d3\<rparr> \<and> \<not> master_low d3 \<and>
     ol_slave d3 = function_command ((ol_slave (line s))\<lparr>th_mode := Th_Function []\<rparr>) c"
proof -
  obtain d1 d2 where d: "OW_reset_pulse (thermo_dev timing) s = (OW_DEV_PRESENT, s\<lparr>line := d1\<rparr>)"
      "OW_write_byte (thermo_dev timing) SKIP_ROM (s\<lparr>line := d1\<rparr>) = s\<lparr>line := d2\<rparr>" "\<not> master_low d2"
      "ol_slave d2 = rom_command (thermo_restart (ol_slave (line s))) SKIP_ROM"
    using address_device [OF assms] by blast
  have k: "ol_slave d2 = (ol_slave (line s))\<lparr>th_mode := Th_Function []\<rparr>" by (simp add: d(4) rom_command_def thermo_restart_def)
  then have m: "th_mode (ol_slave d2) = Th_Function []" by simp
  obtain d3 where "OW_write_byte (thermo_dev timing) c (s\<lparr>line := d2\<rparr>) = s\<lparr>line := d3\<rparr>" "\<not> master_low d3"
      "ol_slave d3 = function_command (ol_slave d2) c"
    using wire.write_byte [where s = "s\<lparr>line := d2\<rparr>" and b = c and slot = thermo_slot] d(3) function_byte [OF m] unfolding thermo_dev_def by fastforce
  then show ?thesis using d k by metis
qed

lemma read_sent:
  assumes "\<not> master_low (line s)" "th_mode (ol_slave (line s)) = Th_Send (byte_bits b @ rest)"
  shows "\<exists>d. OW_read_byte (thermo_dev timing) s = (b, s\<lparr>line := d\<rparr>) \<and> \<not> master_low d \<and> ol_slave d = (ol_slave (line s))\<lparr>th_mode := Th_Send rest\<rparr>"
  using wire.read_byte [OF assms(1) thermo_sends [OF assms(2)]] unfolding thermo_dev_def by blast

lemma read_all_sent:
  assumes "\<not> master_low (line s)" "th_mode (ol_slave (line s)) = Th_Send (concat (map byte_bits bs))"
  shows "\<exists>d. read_bytes (thermo_dev timing) (length bs) s = (bs, s\<lparr>line := d\<rparr>) \<and> \<not> master_low d \<and>
     ol_slave d = (ol_slave (line s))\<lparr>th_mode := Th_Send []\<rparr>"
  using wire.read_bytes_run [OF assms(1) thermo_sends [where rest = "[]", simplified, OF assms(2)]] unfolding thermo_dev_def by blast

section \<open>Temperature\<close>

lemma whole_degrees:
  fixes lo hi :: u8
  assumes "unat hi < 8"
  shows "unat (push_bit 4 (hi AND 0x07) OR drop_bit 4 lo) = (unat hi * 256 + unat lo) div 16"
proof -
  have "hi AND 0x07 = take_bit 3 hi" by (simp add: take_bit_eq_mask mask_eq_exp_minus_1)
  then have "unat (hi AND 0x07) = unat hi mod 8" by (simp add: take_bit_eq_mod unat_mod)
  then have h: "unat (hi AND 0x07) = unat hi" using assms by simp
  have "push_bit 4 (hi AND 0x07) AND drop_bit 4 lo = 0"
    by (rule bit_word_eqI) (auto simp: bit_simps dest: bit_imp_le_length)
  then have "push_bit 4 (hi AND 0x07) OR drop_bit 4 lo = push_bit 4 (hi AND 0x07) + drop_bit 4 lo"
    by (rule disjunctive_add_eq_or [symmetric])
  moreover have "unat (push_bit 4 (hi AND 0x07)) = 16 * unat hi" using h assms by (simp add: push_bit_eq_mult unat_word_ariths)
  moreover have "unat (drop_bit 4 lo) = unat lo div 16" by (simp add: drop_bit_eq_div unat_div)
  moreover have "unat lo div 16 < 16" using unat_u8_lt [of lo] by simp
  ultimately show ?thesis using assms unat_u8_lt [of lo] by (simp add: unat_word_ariths)
qed


lemma sixteenths: "unat (lo AND 0x0F) = (unat hi * 256 + unat lo) mod 16" for lo hi :: u8
proof -
  have "lo AND 0x0F = take_bit 4 lo" by (simp add: take_bit_eq_mask mask_eq_exp_minus_1)
  then have "unat (lo AND 0x0F) = unat lo mod 16" by (simp add: take_bit_eq_mod unat_mod)
  moreover have "(unat hi * 256 + unat lo) mod 16 = unat lo mod 16" using mod_mult_self1 [of "unat lo" "unat hi * 16" 16] by (simp add: algebra_simps)
  ultimately show ?thesis by simp
qed

lemma extremes_values:
  "Temp_Whole (extremes t) = Temp_Whole t" "Temp_Decimal (extremes t) = Temp_Decimal t"
  "Highest_Temp (extremes t) = max (Highest_Temp t) (Temp_Whole t)" "Lowest_Temp (extremes t) = min (Lowest_Temp t) (Temp_Whole t)"
  by (auto simp: extremes_def Let_def max_def min_def)

lemma get_temperature_run:
  assumes "\<not> master_low (line s)" "th_pad (ol_slave (line s)) = lo # hi # rest"
  shows "\<exists>d. DS18B20GetTemperature (thermo_dev timing) temp s =
     (let temp = temp\<lparr>ScratchPad_s := (ScratchPad_s temp)\<lparr>TempLow := lo, TempHi := hi\<rparr>\<rparr>
      in (True, temp\<lparr>Temperature_s := extremes (convert (ScratchPad_s temp) (Temperature_s temp))\<rparr>, s\<lparr>line := d\<rparr>)) \<and>
     \<not> master_low d \<and> ol_slave d = (ol_slave (line s))\<lparr>th_mode := Th_Rom [], th_converting := True\<rparr>"
proof -
  let ?dev = "thermo_dev timing" and ?k = "ol_slave (line s)"
  obtain d1 d2 d3 where a: "OW_reset_pulse ?dev s = (OW_DEV_PRESENT, s\<lparr>line := d1\<rparr>)"
      "OW_write_byte ?dev SKIP_ROM (s\<lparr>line := d1\<rparr>) = s\<lparr>line := d2\<rparr>" "OW_write_byte ?dev CONVERT_T (s\<lparr>line := d2\<rparr>) = s\<lparr>line := d3\<rparr>"
      "\<not> master_low d3" "ol_slave d3 = ?k\<lparr>th_mode := Th_Off, th_converting := True\<rparr>"
    using skip_command [OF assms(1), of timing CONVERT_T] by (auto simp: function_command_def)
  define d4 where "d4 = delay_uS ?dev 5 d3"
  have d4: "delay ?dev 5 (s\<lparr>line := d3\<rparr>) = s\<lparr>line := d4\<rparr>" "\<not> master_low (line (s\<lparr>line := d4\<rparr>))" "ol_slave d4 = ol_slave d3"
    using wire.pause [OF a(4)] by (simp_all add: delay_def d4_def thermo_dev_def)
  obtain d5 d6 d7 where b: "OW_reset_pulse ?dev (s\<lparr>line := d4\<rparr>) = (OW_DEV_PRESENT, s\<lparr>line := d5\<rparr>)"
      "OW_write_byte ?dev SKIP_ROM (s\<lparr>line := d5\<rparr>) = s\<lparr>line := d6\<rparr>" "OW_write_byte ?dev READ_SCRATCHPAD (s\<lparr>line := d6\<rparr>) = s\<lparr>line := d7\<rparr>"
      "\<not> master_low d7" "ol_slave d7 = ?k\<lparr>th_mode := Th_Send (byte_bits lo @ byte_bits hi @ concat (map byte_bits rest)), th_converting := True\<rparr>"
    using skip_command [OF d4(2), of timing READ_SCRATCHPAD] d4(3) a(5) assms(2) by (auto simp: function_command_def ds18_cmds_def)
  obtain d8 where d8: "OW_read_byte ?dev (s\<lparr>line := d7\<rparr>) = (lo, s\<lparr>line := d8\<rparr>)" "\<not> master_low d8"
      "ol_slave d8 = ?k\<lparr>th_mode := Th_Send (byte_bits hi @ concat (map byte_bits rest)), th_converting := True\<rparr>"
    using read_sent [of "s\<lparr>line := d7\<rparr>" lo _ timing] b(4,5) by auto
  obtain d9 where d9: "OW_read_byte ?dev (s\<lparr>line := d8\<rparr>) = (hi, s\<lparr>line := d9\<rparr>)" "\<not> master_low d9"
      "ol_slave d9 = ?k\<lparr>th_mode := Th_Send (concat (map byte_bits rest)), th_converting := True\<rparr>"
    using read_sent [of "s\<lparr>line := d8\<rparr>" hi _ timing] d8(2,3) by auto
  obtain d10 where "OW_reset_pulse ?dev (s\<lparr>line := d9\<rparr>) = (OW_DEV_PRESENT, s\<lparr>line := d10\<rparr>)" "\<not> master_low d10" "ol_slave d10 = thermo_restart (ol_slave d9)"
    using wire.reset_pulse [where s = "s\<lparr>line := d9\<rparr>" and timing = timing and pull = thermo_pull and slot = thermo_slot and restart = thermo_restart]
      d9(2) by (auto simp: thermo_dev_def)
  then show ?thesis using a(1-3) d4(1) b(1-3) d8(1) d9
    by (intro exI [of _ d10]) (simp add: DS18B20GetTemperature_def Let_def thermo_restart_def)
qed

text \<open>C40. Reading the temperature. With a thermometer on the line, of any timing that its data sheet allows, whose register holds \<open>t\<close>
  sixteenths of a degree from 0 to less than 128, \<^verbatim>\<open>DS18B20GetTemperature\<close> succeeds and stores the whole degrees and the updated extremes.
  The decimals are stored modulo 256. The value is the one of the last conversion: the new conversion is only started.\<close>

theorem ds18b20_get_temperature:
  assumes "\<not> master_low (line s)" "th_pad (ol_slave (line s)) = lo # hi # rest" "Temp_Type (Temperature_s temp) = CELSIUS"
    "unat hi * 256 + unat lo = t" "t < 128 * 16"
  shows "\<exists>temp' d. DS18B20GetTemperature (thermo_dev timing) temp s = (True, temp', s\<lparr>line := d\<rparr>) \<and>
     unat (Temp_Whole (Temperature_s temp')) = t div 16 \<and> unat (Temp_Decimal (Temperature_s temp')) = t mod 16 * 625 mod 256 \<and>
     Highest_Temp (Temperature_s temp') = max (Highest_Temp (Temperature_s temp)) (of_nat (t div 16)) \<and>
     Lowest_Temp (Temperature_s temp') = min (Lowest_Temp (Temperature_s temp)) (of_nat (t div 16)) \<and>
     \<not> master_low d \<and> th_pad (ol_slave d) = lo # hi # rest \<and> th_converting (ol_slave d)"
proof -
  have "unat hi < 8" using assms(4,5) by simp
  then have w: "unat (push_bit 4 (hi AND 0x07) OR drop_bit 4 lo) = t div 16" using whole_degrees assms(4) by blast
  then have w': "push_bit 4 (hi AND 0x07) OR drop_bit 4 lo = of_nat (t div 16)" using assms(5) by (simp add: word_unat_eq_iff unat_of_nat)
  have m: "unat (lo AND 0x0F) = t mod 16" using sixteenths [of lo hi] assms(4) by simp
  obtain d where "DS18B20GetTemperature (thermo_dev timing) temp s =
     (let temp = temp\<lparr>ScratchPad_s := (ScratchPad_s temp)\<lparr>TempLow := lo, TempHi := hi\<rparr>\<rparr>
      in (True, temp\<lparr>Temperature_s := extremes (convert (ScratchPad_s temp) (Temperature_s temp))\<rparr>, s\<lparr>line := d\<rparr>))"
     "\<not> master_low d" "ol_slave d = (ol_slave (line s))\<lparr>th_mode := Th_Rom [], th_converting := True\<rparr>"
    using get_temperature_run [OF assms(1,2)] by blast
  moreover have "unat (of_nat (t mod 16) * 625 :: u8) = t mod 16 * 625 mod 256"
  proof -
    have "(of_nat (t mod 16) * 625 :: u8) = of_nat (t mod 16 * 625)" by (simp only: of_nat_mult of_nat_numeral)
    then show ?thesis by (simp only: unat_of_nat) simp
  qed
  ultimately show ?thesis using assms(2,3) w w' m
    by (intro exI [of _ "_ :: DS18b20_t"] exI [of _ d]) (auto simp: extremes_values convert_def Let_def)
qed


definition line0 :: "'k \<Rightarrow> 'k ow_line one_wire" where
  "line0 k = \<lparr>ow = \<lparr>ow_port = 1, ow_pin = 5\<rparr>,
     line = \<lparr>ol_dir = OW_INPUT, ol_latch = OW_LOW, ol_since = 0, ol_pulling = False, ol_presence = False, ol_slave = k\<rparr>\<rparr>"

definition temp0 :: DS18b20_t where
  "temp0 = \<lparr>OW_s = \<lparr>ow_port = 1, ow_pin = 5\<rparr>, ROMAddressID = replicate 8 0,
     ScratchPad_s = \<lparr>TempLow = 0, TempHi = 0, UserByte1 = 0, UserByte2 = 0, Config = 0, reserved0 = 0, reserved1 = 0, reserved2 = 0, CRC = 0\<rparr>,
     Temperature_s = \<lparr>Temp_Whole = 0, Temp_Decimal = 0, Temp_Type = CELSIUS, Highest_Temp = 0, Lowest_Temp = 0\<rparr>\<rparr>"

theorem ds18b20_get_temperature_witness:
  "\<exists>temp' d. DS18B20GetTemperature (thermo_dev (0, 0, 0)) temp0
       (line0 \<lparr>th_rom = replicate 8 0, th_pad = [0x91, 0x01, 0, 0, 0, 0, 0, 0, 0], th_mode = Th_Off, th_converting = False\<rparr>) = (True, temp',
       (line0 \<lparr>th_rom = replicate 8 0, th_pad = [0x91, 0x01, 0, 0, 0, 0, 0, 0, 0], th_mode = Th_Off, th_converting = False\<rparr>)\<lparr>line := d\<rparr>) \<and>
     unat (Temp_Whole (Temperature_s temp')) = 25 \<and> unat (Temp_Decimal (Temperature_s temp')) = 113"
  using ds18b20_get_temperature [of "line0 \<lparr>th_rom = replicate 8 0, th_pad = [0x91, 0x01, 0, 0, 0, 0, 0, 0, 0], th_mode = Th_Off, th_converting = False\<rparr>"
      "0x91" 1 "[0, 0, 0, 0, 0, 0, 0]" temp0 401 "(0, 0, 0)"]
  by (auto simp: line0_def temp0_def master_low_def)

section \<open>Start-up\<close>

lemma get_rom_run:
  assumes "\<not> master_low (line s)" "length (th_rom (ol_slave (line s))) = 8"
  shows "\<exists>d. DS18B20CmdGetROMIDCode (thermo_dev timing) temp s = (True, temp\<lparr>ROMAddressID := th_rom (ol_slave (line s))\<rparr>, s\<lparr>line := d\<rparr>) \<and>
     \<not> master_low d \<and> ol_slave d = (ol_slave (line s))\<lparr>th_mode := Th_Send []\<rparr>"
proof -
  let ?dev = "thermo_dev timing" and ?k = "ol_slave (line s)"
  obtain d1 d2 where d: "OW_reset_pulse ?dev s = (OW_DEV_PRESENT, s\<lparr>line := d1\<rparr>)" "OW_write_byte ?dev READ_ROM (s\<lparr>line := d1\<rparr>) = s\<lparr>line := d2\<rparr>"
      "\<not> master_low d2" "ol_slave d2 = ?k\<lparr>th_mode := Th_Send (concat (map byte_bits (th_rom ?k)))\<rparr>"
    using address_device [OF assms(1), of timing READ_ROM] by (auto simp: rom_command_def thermo_restart_def ds18_cmds_def)
  obtain d3 where "read_bytes ?dev 8 (s\<lparr>line := d2\<rparr>) = (th_rom ?k, s\<lparr>line := d3\<rparr>)" "\<not> master_low d3" "ol_slave d3 = ?k\<lparr>th_mode := Th_Send []\<rparr>"
    using read_all_sent [of "s\<lparr>line := d2\<rparr>" "th_rom ?k" timing] d(3,4) assms(2) by auto
  then show ?thesis using d(1,2) by (intro exI [of _ d3]) (simp add: DS18B20CmdGetROMIDCode_def)
qed

definition pad_record :: "u8 list \<Rightarrow> SPAD" where
  "pad_record bs = \<lparr>TempLow = bs ! 0, TempHi = bs ! 1, UserByte1 = bs ! 2, UserByte2 = bs ! 3, Config = bs ! 4, reserved0 = bs ! 5,
     reserved1 = bs ! 6, reserved2 = bs ! 7, CRC = bs ! 8\<rparr>"

lemma pad_bytes:
  "DS18B20GetScrachtPadReg dev temp s =
     (let (p, s) = OW_reset_pulse dev s in
      if p = OW_DEV_NOT_PRESENT then (False, temp, s)
      else let s = OW_write_byte dev READ_SCRATCHPAD (OW_write_byte dev SKIP_ROM s); (bs, s) = read_bytes dev 9 s
           in (True, temp\<lparr>ScratchPad_s := pad_record bs\<rparr>, s))"
  by (simp add: DS18B20GetScrachtPadReg_def pad_record_def Let_def numeral_eq_Suc split: prod.splits)

lemma get_pad_run:
  assumes "\<not> master_low (line s)" "length (th_pad (ol_slave (line s))) = 9"
  shows "\<exists>d. DS18B20GetScrachtPadReg (thermo_dev timing) temp s = (True, temp\<lparr>ScratchPad_s := pad_record (th_pad (ol_slave (line s)))\<rparr>, s\<lparr>line := d\<rparr>) \<and>
     \<not> master_low d \<and> ol_slave d = (ol_slave (line s))\<lparr>th_mode := Th_Send []\<rparr>"
proof -
  let ?dev = "thermo_dev timing" and ?k = "ol_slave (line s)"
  obtain d1 d2 d3 where d: "OW_reset_pulse ?dev s = (OW_DEV_PRESENT, s\<lparr>line := d1\<rparr>)" "OW_write_byte ?dev SKIP_ROM (s\<lparr>line := d1\<rparr>) = s\<lparr>line := d2\<rparr>"
      "OW_write_byte ?dev READ_SCRATCHPAD (s\<lparr>line := d2\<rparr>) = s\<lparr>line := d3\<rparr>" "\<not> master_low d3"
      "ol_slave d3 = ?k\<lparr>th_mode := Th_Send (concat (map byte_bits (th_pad ?k)))\<rparr>"
    using skip_command [OF assms(1), of timing READ_SCRATCHPAD] by (auto simp: function_command_def ds18_cmds_def)
  obtain d4 where "read_bytes ?dev 9 (s\<lparr>line := d3\<rparr>) = (th_pad ?k, s\<lparr>line := d4\<rparr>)" "\<not> master_low d4" "ol_slave d4 = ?k\<lparr>th_mode := Th_Send []\<rparr>"
    using read_all_sent [of "s\<lparr>line := d3\<rparr>" "th_pad ?k" timing] d(4,5) assms(2) by auto
  then show ?thesis using d(1-3) by (intro exI [of _ d4]) (simp add: pad_bytes)
qed

text \<open>\<^verbatim>\<open>DS18B20Init\<close> with a thermometer on the line succeeds; the identification and the memory of the device are stored as they are in
  the device, the temperature is converted from its register, and the lowest temperature is the one just read.\<close>

theorem ds18b20_init_reads_device:
  assumes "\<not> master_low (line s)" "ol_slave (line s) = k" "length (th_rom k) = 8" "th_pad k = lo # hi # rest" "length rest = 7"
  shows "\<exists>temp' d. DS18B20Init (thermo_dev timing) temp s = (True, temp', s\<lparr>ow := \<lparr>ow_port = ow_port (OW_s temp), ow_pin = ow_pin (OW_s temp)\<rparr>, line := d\<rparr>) \<and>
     ROMAddressID temp' = th_rom k \<and> ScratchPad_s temp' = pad_record (th_pad k) \<and>
     Temp_Whole (Temperature_s temp') = Temp_Whole (convert (pad_record (th_pad k)) (Temperature_s temp)) \<and>
     Lowest_Temp (Temperature_s temp') = Temp_Whole (Temperature_s temp') \<and> \<not> master_low d"
proof -
  let ?dev = "thermo_dev timing" and ?s = "OW_PinInit (ow_port (OW_s temp)) (ow_pin (OW_s temp)) s"
  have s: "\<not> master_low (line ?s)" "ol_slave (line ?s) = k" using assms(1,2) by (simp_all add: OW_PinInit_def)
  obtain d1 where d1: "OW_reset_pulse ?dev ?s = (OW_DEV_PRESENT, ?s\<lparr>line := d1\<rparr>)" "\<not> master_low (line (?s\<lparr>line := d1\<rparr>))"
      "ol_slave (line (?s\<lparr>line := d1\<rparr>)) = k\<lparr>th_mode := Th_Rom []\<rparr>"
    using wire.reset_pulse [where s = ?s and timing = timing and pull = thermo_pull and slot = thermo_slot and restart = thermo_restart] s
    by (auto simp: thermo_dev_def thermo_restart_def)
  let ?t1 = "temp\<lparr>ROMAddressID := th_rom k\<rparr>" and ?t2 = "temp\<lparr>ROMAddressID := th_rom k, ScratchPad_s := pad_record (th_pad k)\<rparr>"
  obtain d2 where d2: "DS18B20CmdGetROMIDCode ?dev temp (?s\<lparr>line := d1\<rparr>) = (True, ?t1, ?s\<lparr>line := d2\<rparr>)" "\<not> master_low (line (?s\<lparr>line := d2\<rparr>))"
      "ol_slave (line (?s\<lparr>line := d2\<rparr>)) = k\<lparr>th_mode := Th_Send []\<rparr>"
    using get_rom_run [OF d1(2), of timing temp] d1(3) assms(3) by auto
  obtain d3 where d3: "DS18B20GetScrachtPadReg ?dev ?t1 (?s\<lparr>line := d2\<rparr>) = (True, ?t2, ?s\<lparr>line := d3\<rparr>)" "\<not> master_low (line (?s\<lparr>line := d3\<rparr>))"
      "ol_slave (line (?s\<lparr>line := d3\<rparr>)) = k\<lparr>th_mode := Th_Send []\<rparr>"
    using get_pad_run [OF d2(2), of timing ?t1] d2(3) assms(4,5) by auto
  have p: "(pad_record (th_pad k))\<lparr>TempLow := lo, TempHi := hi\<rparr> = pad_record (th_pad k)" using assms(4) by (simp add: pad_record_def)
  obtain d4 where "DS18B20GetTemperature ?dev ?t2 (?s\<lparr>line := d3\<rparr>) =
      (True, ?t2\<lparr>Temperature_s := extremes (convert (pad_record (th_pad k)) (Temperature_s temp))\<rparr>, ?s\<lparr>line := d4\<rparr>)" "\<not> master_low d4"
    using get_temperature_run [OF d3(2), of lo hi rest timing ?t2] d3(3) assms(4) p by (auto simp: Let_def)
  then show ?thesis using d1(1) d2(1) d3(1) by (intro exI [of _ d4] exI) (auto simp: DS18B20Init_def extremes_values OW_PinInit_def)
qed


end
