(* ===== verification/Spec2Isabelle.thy ===== *)
theory Spec2Isabelle
  imports Prelude Ring_Buffer_Facts Log_Fs_Props Nmea_Props Rtc_Props Cli_Props Monitor_Props Esp8266_Deliver Esp8266_Lists Ds3231_Props Mfrc522_Purse Ds18b20
begin

text \<open>
  A verification library for the LPC1788 firmware libraries: drivers and services for a
  Cortex-M3 board, written in C. The repository has no single main program; its parts are used by
  applications side by side. Modelled are the parts with logic of their own; paths are relative to
  the repository.

  \<^bold>\<open>The parts and how they interact.\<close>

  \<^item> The cyclic byte buffer (\<^verbatim>\<open>src/WiFi/buffer.c\<close>) sits between a UART interrupt that writes and a
    driver that reads.
  \<^item> The serial flash driver (\<^verbatim>\<open>src/data_Manager/at45d.c\<close>) sends commands and addresses over SPI. The
    log file system (\<^verbatim>\<open>src/data_Manager/log_fs.c\<close>) stores files of fixed-size records in flash pages
    and uses the driver through read, write and erase functions.
  \<^item> The GPS receiver (\<^verbatim>\<open>src/nmea.c\<close>) gets bytes from an interrupt, assembles frames in a state
    machine and hands parsed sentences to callbacks of the application.
  \<^item> The calendar (\<^verbatim>\<open>src/LPC_RTC_CALENDAR.c\<close>) converts between seconds, dates and text for the
    real-time clock.
  \<^item> The command line interpreter (\<^verbatim>\<open>src/Cli/cli.c\<close>, \<^verbatim>\<open>src/Cli/vt100.c\<close>) edits a line, keeps a history,
    completes names and calls handlers of the application.
  \<^item> The formatted console output (\<^verbatim>\<open>src/monitor.c\<close>) is the firmware's own small \<^verbatim>\<open>printf\<close>; the WiFi driver
    formats its AT commands with it.
  \<^item> The WiFi driver (\<^verbatim>\<open>src/WiFi/esp8266.c\<close>) sends AT commands to an ESP8266 module over a UART and runs a
    state machine over the lines of its answers. The UART interrupt writes received bytes into one
    cyclic buffer; lines that do not fit the running command go to a second one for later. The driver polls
    both, collects the data of the connections and reports events through callbacks.
  \<^item> The driver of the DS3231 clock (\<^verbatim>\<open>src/Elegoo/DS3231.c\<close>) reads and writes the registers of the chip over I2C: date and
    time, two alarms, square wave, temperature. It has its own copies of the calendar functions.
  \<^item> The driver of the MFRC522 card reader (\<^verbatim>\<open>src/Elegoo/MFRC522.c\<close>) talks to the chip over SPI, and through it to RFID cards:
    it finds and selects a card with the anticollision protocol, authenticates, reads and writes blocks and value blocks, and prints
    the contents of a card with the formatted console output.
  \<^item> The 1-Wire master (\<^verbatim>\<open>src/_1wire.c\<close>) makes pulses of measured length on a pin; the DS18B20 driver (\<^verbatim>\<open>src/T_18B20.c\<close>) reads a
    thermometer through it.

  \<^bold>\<open>Conventions.\<close> A C array is a list, a struct a record, an enum a datatype, an unsigned integer a
  word of its width; a signed integer is a word of its width or, for an intermediate result, an \<open>int\<close>.
  Static variables of a module are one record that its functions take and return. A function that
  can leave an array, dereference a null pointer, block in an assertion or loop for ever returns an
  option, and \<open>None\<close> stands for all of these; a theorem that gives \<open>Some\<close> therefore also says that the
  code returns and stays inside its memory. Loops are structural recursion, recursion with a
  termination proof or, where the C loop has no bound of its own, \<open>partial_function (option)\<close>; no
  definition uses fuel. Code that is not in the repository (the flash chip and the SPI peripheral, memory
  allocation, callbacks, command handlers, the clock registers) is a parameter.

  \<^bold>\<open>Theories.\<close>

  \<^item> \<open>Prelude\<close>: the word types, array accesses, and the lemmas on words and lists that the others share.
  \<^item> \<open>Ring_Buffer\<close> has one definition per function of \<^verbatim>\<open>buffer.c\<close>, for both builds of the copy loops.
    \<open>Ring_Buffer_Facts\<close>: a write appends to the unread bytes and a read removes from them; any
    interleaving is a FIFO stream; the two builds agree; searches and line reading; the cases where
    the functions do not do what their header says.
  \<^item> \<open>At45d\<close>: the flash driver on an abstract SPI device. \<open>At45d_Chip\<close>: the data sheet contract of the
    chip as the locale \<open>dataflash\<close>, the chip as a simulated device that satisfies it, and what the
    driver's functions do to the memory of the chip. \<open>Flash\<close>: the read, write and erase interface that
    the log file system uses, as locales from a weak contract (\<open>page_flash\<close>) to NOR flash
    (\<open>nor_flash\<close>) and to flash whose writes erase the rest of the page (\<open>erase_flash\<close>). The driver satisfies the first and
    the last; the second is interpreted by a memory as the header of the file system asks for it, which no code of the
    repository provides.
  \<^item> \<open>Log_Fs\<close> (structures, checksums, pages, search, mounting, creating files) and \<open>Log_Fs_Records\<close>
    (opening, reading and writing records, deleting, listing) hold every function of \<^verbatim>\<open>log_fs.c\<close> for every
    configuration of page range and file type. \<open>Log_Fs_Facts\<close>: page numbers, checksum, packed
    structures. \<open>Log_Fs_Search\<close> and \<open>Log_Fs_Init\<close>: the search loops end and find the first page in ring
    order; mounting finds the oldest and the newest file. \<open>Log_Fs_Blocks\<close> and \<open>Log_Fs_Props\<close>: what is
    written can be read back, on each kind of flash; on the driver of the repository a record that is appended is stored,
    but the header and the other records of its page are lost, and a file that is created does not exist.
  \<^item> \<open>Nmea\<close>: the receiver, the parsers of three sentences and the sender. \<open>Nmea_Facts\<close> and \<open>Nmea_Props\<close>:
    the parsers stay inside a terminated buffer; the interrupt and the polling function as a step
    relation whose reachable states are safe; which frames are accepted; the round trip with the sender;
    the number parsers.
  \<^item> \<open>Rtc_Calendar\<close>: the calendar functions. \<open>Rtc_Facts\<close>: the Gregorian calendar as sums of year and month
    lengths, the loops and the weekday formula against it. \<open>Rtc_Props\<close>: setting the clock from seconds,
    reading it back, the compiler's date strings, formatted output.
  \<^item> \<open>Cli\<close>: terminal sequences, the command tree with pointers as paths, splitting, history, autocomplete,
    execution, help, conversion of arguments. \<open>Cli_History\<close>: the circular history buffer as a list of
    commands. \<open>Cli_Args\<close>: splitting the line in place against a function on texts. \<open>Cli_Search\<close>: walking the
    command tree. \<open>Cli_Props\<close>: the properties.
  \<^item> \<open>Monitor\<close>: the output functions of \<^verbatim>\<open>monitor.c\<close> over an output device, with the format interpreter.
    \<open>Monitor_Facts\<close> and \<open>Monitor_Props\<close>: a reference renderer that reads flags, width and conversion letter of a
    format on its own, and that the code agrees with it; the digits of a number and their padding, what comes back through the input function, the cases where the fixed digit buffer is left.
  \<^item> \<open>Esp8266_Text\<close>: the C string functions the driver uses and its parsers of numbers, addresses and quoted
    text; \<open>Esp8266_Text_Facts\<close>: round trips and bounds for these. \<open>Esp8266\<close>: the driver's structures, the answer
    lines and their handlers, and the update loop. \<open>Esp8266_Driver\<close>: the commands, each a request that is sent
    and the wait for its answer. \<open>Esp8266_Wf\<close>: the sizes of the driver's arrays and
    the state of its buffers (\<open>esp_wf\<close>), kept by every function that returns; an access outside an array is \<open>None\<close> and not
    covered by it. \<open>Esp8266_Reach\<close>: the states an application can reach by calls that return, with interrupts between the
    calls and at the steps of a wait. \<open>Esp8266_Lists\<close>: the tables of stations and access points after an answer of any
    length. \<open>Esp8266_Silent\<close>: what the driver reports when the module does not answer.
    \<open>Esp8266_Data\<close> and \<open>Esp8266_Deliver\<close>: data that arrives in any pieces is handed to the application complete and
    once, for packets longer than their header that contain a newline or have 128 bytes with it; shorter ones wait.
  \<^item> \<open>Ds3231\<close>: the functions of \<^verbatim>\<open>DS3231.c\<close> on an abstract I2C bus. \<open>Ds3231_Chip\<close>: the chip as locales (\<open>ds3231_chip\<close> for
    its registers, \<open>ds3231_steady\<close> while the time stands, \<open>ds3231_conv\<close> for the temperature conversion) and a simulated register
    file that satisfies them. \<open>Ds3231_Props\<close>: the date that is set is read back, each setting changes its own bits, the
    alarm registers match at the times the mode asks for, reading an alarm back gives its fields in reverse order.
  \<^item> \<open>Mfrc522\<close> (registers, the exchange with a card), \<open>Mfrc522_Cards\<close> (selecting a card, operations on MIFARE cards) and
    \<open>Mfrc522_Dump\<close> (text output, cards with a changeable identification) hold every function of \<^verbatim>\<open>MFRC522.c\<close>. The
    anticollision and cascade loops have termination proofs; the waiting loops count down; only the loop after a reset has no bound.
    \<open>Mfrc522_Safe\<close>: for a chip that answers anything the functions return and stay inside their buffers. \<open>Mfrc522_Props\<close>:
    access bits, value blocks, the bit chosen after a collision, a reader that is not connected. \<open>Mfrc522_Link\<close>: the locale
    \<open>rfid_link\<close> of a chip with a card, the exchanges over it and the selection of a card as an inductive protocol of cascade levels.
    \<open>Mfrc522_Mifare\<close>: the operations of MIFARE cards over the same locale. \<open>Mfrc522_Sim\<close>: a simulated chip (SPI frames, FIFO,
    interrupt flags, CRC coprocessor, transceiver) with any card satisfies the locale; selecting finds the card. \<open>Mfrc522_Purse\<close>: a
    simulated MIFARE Classic card and the arithmetic of value blocks.
  \<^item> \<open>One_Wire\<close>: the functions of \<^verbatim>\<open>_1wire.c\<close> and \<^verbatim>\<open>T_18B20.c\<close> on an abstract pin with delays. \<open>One_Wire_Bus\<close>: the locale \<open>ow_bus\<close> of a device
    that takes or sends a bit in each slot, and a simulated line that measures the pulses, for any device and any allowed timing.
    \<open>Ds18b20\<close>: a simulated thermometer; reading its temperature, its identification and its memory.

  \<^bold>\<open>Bounds.\<close> The flash driver is proved for the devices of its header with pages of 256 and 264
  bytes; the log file system for every configuration that satisfies \<open>cfg_ok\<close>; the calendar for the
  years 2000 to 2099, which the code can represent; the interpreter for the configuration of
  \<^verbatim>\<open>cli_cfg.h\<close> and command trees of at most ten levels; the delays of the 1-Wire master as exact, without the time
  of the instructions between them; signed overflow of the seconds after 2068 as wrap-around; the exchange with cards for frames that fit the FIFO of 64 bytes, which
  all frames of the driver do.

  \<^bold>\<open>Not modelled.\<close> Register, bus and pin access of the display, sensor, radio and board drivers; the
  conversion of arguments to floating-point numbers; the command handlers of \<^verbatim>\<open>cli_cmd.c\<close>; of the WiFi
  driver the reset pin, the floating-point conversion of the transmit power, the name and the user pointer of a
  connection and the network time client, which the configuration turns off; its callbacks are the
  weak functions of the file, recorded in the state in the order of the calls; of the DS3231 driver the start-up of the
  I2C peripheral (the temperature is in quarters of a degree instead of a floating-point number); of the card reader the delays and the
  direction of the pins, while encryption and authentication are between chip and card. The lwIP stack and the FAT file
  system are third-party code kept in the repository; fonts and images have no behaviour. Time does not
  pass inside a function except where it waits: a waiting loop takes a list of what the interrupts do
  during each of its rounds.
\<close>

end
